(* ===== verification/Rust_Prelude.thy ===== *)
theory Rust_Prelude
  imports Main "HOL-Library.Word" "HOL-Library.AList" "HOL-Library.Sublist"
begin

text \<open>
  The part of Rust and of its standard library that every component of the
  development uses: machine integers as words, \<open>Result\<close> with panics, the loop
  combinators that stand for \<open>for\<close> loops with \<open>?\<close>, \<open>HashMap\<close> as an association
  list with distinct keys (the list order is the unspecified iteration order),
  the string operations of \<open>str\<close>, decimal and hexadecimal formatting, and
  big-endian byte arrays.  Integer arithmetic wraps, as in a release build.
\<close>

named_theorems result_simps \<open>computation rules of the result type and of its loops\<close>
named_theorems hm_simps \<open>lookup rules of hash maps\<close>
named_theorems wf_intros \<open>preservation of the distinct-key invariant of hash maps\<close>

section \<open>Machine integers\<close>

type_synonym u8 = "8 word"
type_synonym u32 = "32 word"
type_synonym i32 = "32 word"
type_synonym u64 = "64 word"
type_synonym u128 = "128 word"
type_synonym i128 = "128 word"
type_synonym u256 = "256 word"
type_synonym address = "160 word"
type_synonym tx_hash = "256 word"

definition saturating_sub :: "'a::len word \<Rightarrow> 'a word \<Rightarrow> 'a word" where
  "saturating_sub a b = (if b \<le> a then a - b else 0)"

definition saturating_add :: "'a::len word \<Rightarrow> 'a word \<Rightarrow> 'a word" where
  "saturating_add a b = (if a \<le> (- 1) - b then a + b else - 1)"

lemma unat_saturating_sub [simp]: "unat (saturating_sub a b) = unat a - unat b"
  by (auto simp: saturating_sub_def unat_sub word_le_nat_alt)

lemma saturating_sub_le: "saturating_sub a b \<le> a"
  by (simp add: word_le_nat_alt)

lemma unat_max_word: "unat (- 1 :: 'a::len word) = 2 ^ LENGTH('a) - 1"
  by (simp add: unsigned_minus_1_eq_mask mask_eq_exp_minus_1)

lemma unat_minus_one_add:
  fixes a b :: "'a::len word"
  shows "a \<le> (- 1) - b \<longleftrightarrow> unat a + unat b < 2 ^ LENGTH('a)"
proof -
  have "unat ((- 1) - b) = unat (- 1 :: 'a word) - unat b"
    by (simp add: unat_sub)
  then have "unat ((- 1) - b) = 2 ^ LENGTH('a) - 1 - unat b"
    by (simp add: unat_max_word)
  moreover have "unat b < 2 ^ LENGTH('a)"
    by (rule unsigned_less)
  ultimately show ?thesis
    unfolding word_le_nat_alt by linarith
qed

lemma unat_saturating_add:
  fixes a b :: "'a::len word"
  shows "unat (saturating_add a b) = min (unat a + unat b) (2 ^ LENGTH('a) - 1)"
proof (cases "a \<le> (- 1) - b")
  case True
  then have lt: "unat a + unat b < 2 ^ LENGTH('a)"
    by (simp add: unat_minus_one_add)
  then have "unat (a + b) = unat a + unat b"
    by (simp add: unat_word_ariths)
  with True lt show ?thesis
    by (simp add: saturating_add_def)
next
  case False
  then have "\<not> unat a + unat b < 2 ^ LENGTH('a)"
    by (simp add: unat_minus_one_add)
  with False show ?thesis
    by (simp add: saturating_add_def unat_max_word)
qed

section \<open>Results, panics and the question mark operator\<close>

datatype ('a, 'e) rresult = Ok 'a | Err 'e | Panic

primrec rbind :: "('a, 'e) rresult \<Rightarrow> ('a \<Rightarrow> ('b, 'e) rresult) \<Rightarrow> ('b, 'e) rresult" where
  "rbind (Ok a) f = f a"
| "rbind (Err e) f = Err e"
| "rbind Panic f = Panic"

definition rmap :: "('a \<Rightarrow> 'b) \<Rightarrow> ('a, 'e) rresult \<Rightarrow> ('b, 'e) rresult" where
  "rmap f r = rbind r (\<lambda>a. Ok (f a))"

primrec rmap_err :: "('e \<Rightarrow> 'f) \<Rightarrow> ('a, 'e) rresult \<Rightarrow> ('a, 'f) rresult" where
  "rmap_err f (Ok a) = Ok a"
| "rmap_err f (Err e) = Err (f e)"
| "rmap_err f Panic = Panic"

primrec ok_or :: "'a option \<Rightarrow> 'e \<Rightarrow> ('a, 'e) rresult" where
  "ok_or (Some a) e = Ok a"
| "ok_or None e = Err e"

primrec expect :: "'a option \<Rightarrow> ('a, 'e) rresult" where
  "expect (Some a) = Ok a"
| "expect None = Panic"

fun rfoldl :: "('s \<Rightarrow> 'x \<Rightarrow> ('s, 'e) rresult) \<Rightarrow> 's \<Rightarrow> 'x list \<Rightarrow> ('s, 'e) rresult" where
  "rfoldl f s [] = Ok s"
| "rfoldl f s (x # xs) = rbind (f s x) (\<lambda>s'. rfoldl f s' xs)"

fun rmapM :: "('x \<Rightarrow> ('y, 'e) rresult) \<Rightarrow> 'x list \<Rightarrow> ('y list, 'e) rresult" where
  "rmapM f [] = Ok []"
| "rmapM f (x # xs) = rbind (f x) (\<lambda>y. rmap (\<lambda>ys. y # ys) (rmapM f xs))"

lemma rbind_eq_Ok [simp]: "rbind r f = Ok b \<longleftrightarrow> (\<exists>a. r = Ok a \<and> f a = Ok b)"
  by (cases r) auto

lemma rbind_Ok_right [simp]: "rbind r Ok = r"
  by (cases r) auto

lemma rbind_assoc: "rbind (rbind r f) g = rbind r (\<lambda>a. rbind (f a) g)"
  by (cases r) auto

lemma rbind_eq_Err: "rbind r f = Err e \<longleftrightarrow> r = Err e \<or> (\<exists>a. r = Ok a \<and> f a = Err e)"
  by (cases r) auto

lemma rbind_eq_Panic: "rbind r f = Panic \<longleftrightarrow> r = Panic \<or> (\<exists>a. r = Ok a \<and> f a = Panic)"
  by (cases r) auto

lemma rmap_eq_Ok [simp]: "rmap f r = Ok b \<longleftrightarrow> (\<exists>a. r = Ok a \<and> b = f a)"
  by (cases r) (auto simp: rmap_def)

lemma rmap_simps [simp, result_simps]:
  "rmap f (Ok a) = Ok (f a)" "rmap f (Err e) = Err e" "rmap f Panic = Panic"
  by (simp_all add: rmap_def)

lemma rmap_err_eq_Ok [simp]: "rmap_err f r = Ok a \<longleftrightarrow> r = Ok a"
  by (cases r) auto

lemma ok_or_eq_Ok [simp]: "ok_or x e = Ok a \<longleftrightarrow> x = Some a"
  by (cases x) auto

lemma expect_eq_Ok [simp]: "expect x = Ok a \<longleftrightarrow> x = Some a"
  by (cases x) auto

lemma rfoldl_append:
  "rfoldl f s (xs @ ys) = rbind (rfoldl f s xs) (\<lambda>s'. rfoldl f s' ys)"
proof (induction xs arbitrary: s)
  case Nil
  then show ?case by simp
next
  case (Cons x xs)
  then show ?case by (cases "f s x") simp_all
qed

lemma rfoldl_inv:
  assumes "rfoldl f s xs = Ok t" and "P s"
    and "\<And>s x s'. x \<in> set xs \<Longrightarrow> P s \<Longrightarrow> f s x = Ok s' \<Longrightarrow> P s'"
  shows "P t"
  using assms
proof (induction xs arbitrary: s)
  case Nil
  then show ?case by simp
next
  case (Cons x xs)
  from Cons.prems(1) obtain s' where s': "f s x = Ok s'" and rest: "rfoldl f s' xs = Ok t"
    by auto
  have "P s'"
    using Cons.prems(2,3) s' by (meson list.set_intros(1))
  with rest show ?case
    using Cons.IH Cons.prems(3) by (meson list.set_intros(2))
qed

lemma rfoldl_Ok:
  assumes "\<And>s x. x \<in> set xs \<Longrightarrow> P s \<Longrightarrow> \<exists>s'. f s x = Ok s' \<and> P s'" and "P s"
  shows "\<exists>t. rfoldl f s xs = Ok t \<and> P t"
  using assms
proof (induction xs arbitrary: s)
  case Nil
  then show ?case by simp
next
  case (Cons x xs)
  from Cons.prems obtain s' where "f s x = Ok s'" and "P s'"
    by (meson list.set_intros(1))
  with Cons.IH [of s'] Cons.prems(1) show ?case by simp
qed

lemma rmapM_eq_Ok:
  "rmapM f xs = Ok ys \<longleftrightarrow> list_all2 (\<lambda>x y. f x = Ok y) xs ys"
proof (induction xs arbitrary: ys)
  case Nil
  then show ?case by (cases ys) auto
next
  case (Cons x xs)
  then show ?case by (cases ys) auto
qed

lemma rmapM_length: "rmapM f xs = Ok ys \<Longrightarrow> length ys = length xs"
  by (simp add: rmapM_eq_Ok list_all2_lengthD)

lemma rmapM_Ok_all: "(\<And>x. x \<in> set xs \<Longrightarrow> f x = Ok (g x)) \<Longrightarrow> rmapM f xs = Ok (map g xs)"
  by (induction xs) simp_all

lemma rmapM_exists:
  "(\<And>a. a \<in> set l \<Longrightarrow> \<exists>y. f a = Ok y) \<Longrightarrow> \<exists>ys. rmapM f l = Ok ys"
  by (induction l) fastforce+

section \<open>Searching lists\<close>

lemma find_append:
  "find P (xs @ ys) = (case find P xs of Some x \<Rightarrow> Some x | None \<Rightarrow> find P ys)"
  by (induction xs) auto

lemma find_SomeD: "find P xs = Some x \<Longrightarrow> x \<in> set xs \<and> P x"
  by (induction xs) (auto split: if_splits)

section \<open>Hash maps\<close>

type_synonym ('k, 'v) hmap = "('k \<times> 'v) list"

abbreviation (input) hm_empty :: "('k, 'v) hmap" where
  "hm_empty \<equiv> []"

definition hm_get :: "('k, 'v) hmap \<Rightarrow> 'k \<Rightarrow> 'v option" where
  "hm_get m k = map_of m k"

definition hm_insert :: "'k \<Rightarrow> 'v \<Rightarrow> ('k, 'v) hmap \<Rightarrow> ('k, 'v) hmap" where
  "hm_insert k v m = AList.update k v m"

definition hm_remove :: "'k \<Rightarrow> ('k, 'v) hmap \<Rightarrow> ('k, 'v) hmap" where
  "hm_remove k m = AList.delete k m"

definition hm_contains :: "('k, 'v) hmap \<Rightarrow> 'k \<Rightarrow> bool" where
  "hm_contains m k = (hm_get m k \<noteq> None)"

definition hm_values :: "('k, 'v) hmap \<Rightarrow> 'v list" where
  "hm_values m = map snd m"

definition hm_keys :: "('k, 'v) hmap \<Rightarrow> 'k list" where
  "hm_keys m = map fst m"

definition hm_retain :: "('k \<Rightarrow> 'v \<Rightarrow> bool) \<Rightarrow> ('k, 'v) hmap \<Rightarrow> ('k, 'v) hmap" where
  "hm_retain p m = filter (\<lambda>(k, v). p k v) m"

definition hm_extend :: "('k, 'v) hmap \<Rightarrow> ('k, 'v) hmap \<Rightarrow> ('k, 'v) hmap" where
  "hm_extend m n = fold (\<lambda>(k, v). hm_insert k v) n m"

definition hm_remove_all :: "'k list \<Rightarrow> ('k, 'v) hmap \<Rightarrow> ('k, 'v) hmap" where
  "hm_remove_all ks m = fold hm_remove ks m"

definition hm_wf :: "('k, 'v) hmap \<Rightarrow> bool" where
  "hm_wf m = distinct (map fst m)"

lemma hm_get_empty [simp, hm_simps]: "hm_get hm_empty k = None"
  by (simp add: hm_get_def)

lemma hm_get_insert [simp, hm_simps]:
  "hm_get (hm_insert k v m) k' = (if k' = k then Some v else hm_get m k')"
  by (simp add: hm_get_def hm_insert_def update_conv')

lemma hm_get_remove [simp, hm_simps]:
  "hm_get (hm_remove k m) k' = (if k' = k then None else hm_get m k')"
  by (simp add: hm_get_def hm_remove_def delete_conv')

lemma hm_wf_empty [simp, wf_intros]: "hm_wf hm_empty"
  by (simp add: hm_wf_def)

lemma hm_wf_insert [simp, wf_intros]: "hm_wf m \<Longrightarrow> hm_wf (hm_insert k v m)"
  by (simp add: hm_wf_def hm_insert_def distinct_update)

lemma hm_wf_remove [simp, wf_intros]: "hm_wf m \<Longrightarrow> hm_wf (hm_remove k m)"
  by (simp add: hm_wf_def hm_remove_def distinct_delete)

lemma hm_wf_retain [simp, wf_intros]: "hm_wf m \<Longrightarrow> hm_wf (hm_retain p m)"
  unfolding hm_wf_def hm_retain_def by (induction m) (auto split: if_splits)

lemma hm_wf_remove_all [simp, wf_intros]: "hm_wf m \<Longrightarrow> hm_wf (hm_remove_all ks m)"
  unfolding hm_remove_all_def by (induction ks arbitrary: m) simp_all

lemma hm_wf_extend [simp, wf_intros]: "hm_wf m \<Longrightarrow> hm_wf (hm_extend m n)"
  unfolding hm_extend_def by (induction n arbitrary: m) auto

lemma hm_get_remove_all [simp, hm_simps]:
  "hm_get (hm_remove_all ks m) k = (if k \<in> set ks then None else hm_get m k)"
  unfolding hm_remove_all_def by (induction ks arbitrary: m) auto

lemma hm_get_retain [hm_simps]:
  assumes "hm_wf m"
  shows "hm_get (hm_retain p m) k
    = (case hm_get m k of None \<Rightarrow> None | Some v \<Rightarrow> if p k v then Some v else None)"
  using assms unfolding hm_wf_def hm_get_def hm_retain_def
  by (induction m) (auto split: option.splits simp: map_of_eq_None_iff)

lemma hm_get_Some_in: "hm_get m k = Some v \<Longrightarrow> (k, v) \<in> set m"
  by (simp add: hm_get_def map_of_SomeD)

lemma hm_in_iff: "hm_wf m \<Longrightarrow> (k, v) \<in> set m \<longleftrightarrow> hm_get m k = Some v"
  by (simp add: hm_wf_def hm_get_def map_of_eq_Some_iff)

lemma hm_values_iff: "hm_wf m \<Longrightarrow> v \<in> set (hm_values m) \<longleftrightarrow> (\<exists>k. hm_get m k = Some v)"
  by (force simp: hm_values_def hm_in_iff [symmetric] image_iff)

lemma hm_keys_iff: "k \<in> set (hm_keys m) \<longleftrightarrow> hm_get m k \<noteq> None"
  by (simp add: hm_keys_def hm_get_def map_of_eq_None_iff)

lemma hm_len_insert_le: "length (hm_insert k v m) \<le> Suc (length m)"
  unfolding hm_insert_def by (induction m) auto

lemma hm_len_insert:
  "length (hm_insert k v m) = (if hm_contains m k then length m else Suc (length m))"
  unfolding hm_insert_def hm_contains_def hm_get_def by (induction m) auto

lemma hm_len_remove_le: "length (hm_remove k m) \<le> length m"
  by (simp add: hm_remove_def length_delete_le)

lemma hm_len_retain_le: "length (hm_retain p m) \<le> length m"
  by (simp add: hm_retain_def)

lemma hm_len_remove_all_le: "length (hm_remove_all ks m) \<le> length m"
proof (unfold hm_remove_all_def, induction ks arbitrary: m)
  case Nil
  then show ?case by simp
next
  case (Cons k ks)
  have "length (fold hm_remove ks (hm_remove k m)) \<le> length (hm_remove k m)"
    by (rule Cons.IH)
  with hm_len_remove_le [of k m] show ?case by simp
qed

lemma hm_nil_iff: "m = [] \<longleftrightarrow> (\<forall>k. hm_get m k = None)"
  by (cases m) (auto simp: hm_get_def)

text \<open>
  The interface the components rely on: lookup after each update, and the
  invariant every update keeps.
\<close>

locale hash_map =
  fixes empty :: "'m"
    and insert :: "'k \<Rightarrow> 'v \<Rightarrow> 'm \<Rightarrow> 'm"
    and remove :: "'k \<Rightarrow> 'm \<Rightarrow> 'm"
    and get :: "'m \<Rightarrow> 'k \<Rightarrow> 'v option"
    and invar :: "'m \<Rightarrow> bool"
  assumes get_empty: "get empty k = None"
    and get_insert: "invar m \<Longrightarrow> get (insert k v m) k' = (if k' = k then Some v else get m k')"
    and get_remove: "invar m \<Longrightarrow> get (remove k m) k' = (if k' = k then None else get m k')"
    and invar_empty: "invar empty"
    and invar_insert: "invar m \<Longrightarrow> invar (insert k v m)"
    and invar_remove: "invar m \<Longrightarrow> invar (remove k m)"
begin

lemma invar_fold_insert: "invar m \<Longrightarrow> invar (fold (\<lambda>(k, v). insert k v) kvs m)"
  by (induction kvs arbitrary: m) (auto simp: invar_insert)

lemma get_fold_insert:
  "invar m \<Longrightarrow> get (fold (\<lambda>(k, v). insert k v) kvs m) k
    = (case map_of (rev kvs) k of Some v \<Rightarrow> Some v | None \<Rightarrow> get m k)"
proof (induction kvs arbitrary: m)
  case Nil
  then show ?case by simp
next
  case (Cons kv kvs)
  obtain k0 v0 where kv: "kv = (k0, v0)" by fastforce
  have "invar (insert k0 v0 m)" using Cons.prems by (rule invar_insert)
  from Cons.IH [OF this] show ?case
    using Cons.prems by (auto simp: kv get_insert map_add_def split: option.splits)
qed

end

interpretation hm: hash_map hm_empty hm_insert hm_remove hm_get hm_wf
  by unfold_locales auto

lemma hm_get_extend:
  assumes "hm_wf m"
  shows "hm_get (hm_extend m n) k
    = (case map_of (rev n) k of Some v \<Rightarrow> Some v | None \<Rightarrow> hm_get m k)"
  using hm.get_fold_insert [OF assms] by (simp add: hm_extend_def)

end
