(* ===== verification/Rust_Strings.thy ===== *)
theory Rust_Strings
  imports Rust_Prelude
begin

text \<open>
  The operations of \<open>str\<close>, the integer formatting and parsing of \<open>core::fmt\<close>
  and \<open>FromStr\<close>, and the big-endian byte arrays of \<open>to_be_bytes\<close> and
  \<open>from_be_bytes\<close>.  A string is its list of bytes, so indices are byte indices
  as in Rust.  Case mapping, digits and white space are those of ASCII.
\<close>

section \<open>Searching and slicing\<close>

fun find_char :: "char \<Rightarrow> string \<Rightarrow> nat option" where
  "find_char c [] = None"
| "find_char c (x # xs) = (if x = c then Some 0 else map_option Suc (find_char c xs))"

definition count_char :: "char \<Rightarrow> string \<Rightarrow> nat" where
  "count_char c s = length (filter (\<lambda>x. x = c) s)"

definition str_slice :: "string \<Rightarrow> nat \<Rightarrow> nat \<Rightarrow> (string, 'e) rresult" where
  "str_slice s a b = (if a \<le> b \<and> b \<le> length s then Ok (take (b - a) (drop a s)) else Panic)"

definition str_split_at :: "string \<Rightarrow> nat \<Rightarrow> (string \<times> string, 'e) rresult" where
  "str_split_at s n = (if n \<le> length s then Ok (take n s, drop n s) else Panic)"

fun str_contains :: "string \<Rightarrow> string \<Rightarrow> bool" where
  "str_contains [] pat = (pat = [])"
| "str_contains (c # cs) pat = (prefix pat (c # cs) \<or> str_contains cs pat)"

function str_replace_ne :: "string \<Rightarrow> string \<Rightarrow> string \<Rightarrow> string" where
  "str_replace_ne pat rep s =
     (if s = [] \<or> pat = [] then s
      else if prefix pat s then rep @ str_replace_ne pat rep (drop (length pat) s)
      else hd s # str_replace_ne pat rep (tl s))"
  by pat_completeness auto
termination
  by (relation "measure (\<lambda>(pat, rep, s). length s)") auto

declare str_replace_ne.simps [simp del]

definition str_replace :: "string \<Rightarrow> string \<Rightarrow> string \<Rightarrow> string" where
  "str_replace pat rep s =
     (if pat = [] then rep @ concat (map (\<lambda>c. c # rep) s) else str_replace_ne pat rep s)"

definition strip_suffix :: "string \<Rightarrow> string \<Rightarrow> string option" where
  "strip_suffix s suf =
     (if suffix suf s then Some (take (length s - length suf) s) else None)"

definition strip_prefix :: "string \<Rightarrow> string \<Rightarrow> string option" where
  "strip_prefix s pre = (if prefix pre s then Some (drop (length pre) s) else None)"

definition is_ws :: "char \<Rightarrow> bool" where
  "is_ws c = (let n = (of_char c :: nat) in n = 32 \<or> (9 \<le> n \<and> n \<le> 13))"

definition trim_start :: "string \<Rightarrow> string" where
  "trim_start s = dropWhile is_ws s"

definition trim :: "string \<Rightarrow> string" where
  "trim s = rev (dropWhile is_ws (rev (trim_start s)))"

definition to_lower :: "char \<Rightarrow> char" where
  "to_lower c = (let n = (of_char c :: nat) in if 65 \<le> n \<and> n \<le> 90 then char_of (n + 32) else c)"

definition to_lowercase :: "string \<Rightarrow> string" where
  "to_lowercase s = map to_lower s"

fun split_ws_aux :: "string \<Rightarrow> string \<Rightarrow> string list" where
  "split_ws_aux acc [] = (if acc = [] then [] else [rev acc])"
| "split_ws_aux acc (c # cs) =
     (if is_ws c then (if acc = [] then split_ws_aux [] cs else rev acc # split_ws_aux [] cs)
      else split_ws_aux (c # acc) cs)"

definition split_ascii_whitespace :: "string \<Rightarrow> string list" where
  "split_ascii_whitespace s = split_ws_aux [] s"

lemma find_char_None [simp]: "find_char c s = None \<longleftrightarrow> c \<notin> set s"
  by (induction s) auto

lemma find_char_Some:
  "find_char c s = Some i \<longleftrightarrow> i < length s \<and> s ! i = c \<and> c \<notin> set (take i s)"
proof (induction s arbitrary: i)
  case Nil
  then show ?case by simp
next
  case (Cons x xs)
  then show ?case by (cases i) (auto simp: Cons.IH)
qed

lemma find_char_append:
  "c \<notin> set u \<Longrightarrow> find_char c (u @ c # v) = Some (length u)"
  by (induction u) auto

lemma count_char_append [simp]: "count_char c (u @ v) = count_char c u + count_char c v"
  by (simp add: count_char_def)

lemma count_char_simps [simp]:
  "count_char c [] = 0"
  "count_char c (x # xs) = (if x = c then Suc (count_char c xs) else count_char c xs)"
  by (simp_all add: count_char_def)

lemma count_char_eq_0 [simp]: "count_char c s = 0 \<longleftrightarrow> c \<notin> set s"
  by (induction s) auto

lemma str_contains_iff: "str_contains s pat \<longleftrightarrow> (\<exists>u v. s = u @ pat @ v)"
proof (induction s)
  case Nil
  then show ?case by auto
next
  case (Cons c cs)
  have "(\<exists>u v. c # cs = u @ pat @ v) \<longleftrightarrow> prefix pat (c # cs) \<or> (\<exists>u v. cs = u @ pat @ v)"
    unfolding prefix_def by (metis append_Cons append_Nil list.exhaust list.inject)
  with Cons show ?case by simp
qed

lemma str_replace_ne_Nil [simp]: "str_replace_ne pat rep [] = []"
  by (simp add: str_replace_ne.simps)

lemma str_replace_ne_Cons:
  "pat \<noteq> [] \<Longrightarrow> str_replace_ne pat rep (c # cs) =
     (if prefix pat (c # cs) then rep @ str_replace_ne pat rep (drop (length pat) (c # cs))
      else c # str_replace_ne pat rep cs)"
  by (simp add: str_replace_ne.simps [of pat rep "c # cs"])

lemma str_replace_id:
  assumes "\<not> str_contains s pat" and "pat \<noteq> []"
  shows "str_replace pat rep s = s"
proof -
  have "str_replace_ne pat rep s = s"
    using assms by (induction s) (auto simp: str_replace_ne_Cons)
  with assms show ?thesis by (simp add: str_replace_def)
qed

text \<open>A prefix in which the first byte of the pattern does not occur is copied.\<close>

lemma str_replace_ne_skip:
  assumes "p \<notin> set u"
  shows "str_replace_ne (p # ps) rep (u @ v) = u @ str_replace_ne (p # ps) rep v"
  using assms by (induction u) (auto simp: str_replace_ne_Cons)

lemma str_replace_skip:
  assumes "p \<notin> set u"
  shows "str_replace (p # ps) rep (u @ v) = u @ str_replace (p # ps) rep v"
  using assms by (simp add: str_replace_def str_replace_ne_skip)

lemma str_replace_hit:
  "pat \<noteq> [] \<Longrightarrow> str_replace pat rep (pat @ v) = rep @ str_replace pat rep v"
  by (cases pat) (auto simp: str_replace_def str_replace_ne_Cons)

lemma trim_id:
  assumes "s \<noteq> []" and "\<not> is_ws (hd s)" and "\<not> is_ws (last s)"
  shows "trim s = s"
proof -
  have "dropWhile is_ws s = s"
    using assms by (cases s) auto
  moreover have "dropWhile is_ws (rev s) = rev s"
    using assms by (cases s rule: rev_cases) auto
  ultimately show ?thesis by (simp add: trim_def trim_start_def)
qed

section \<open>Decimal and hexadecimal numbers\<close>

definition digit_char :: "nat \<Rightarrow> char" where
  "digit_char d = char_of (if d < 10 then 48 + d else 87 + d)"

definition digit_val :: "char \<Rightarrow> nat" where
  "digit_val c = of_char c - 48"

definition is_digit :: "char \<Rightarrow> bool" where
  "is_digit c = (let n = (of_char c :: nat) in 48 \<le> n \<and> n \<le> 57)"

fun show_base :: "nat \<Rightarrow> nat \<Rightarrow> string" where
  "show_base b n =
     (if b < 2 \<or> n < b then [digit_char n] else show_base b (n div b) @ [digit_char (n mod b)])"

declare show_base.simps [simp del]

abbreviation show_nat :: "nat \<Rightarrow> string" where
  "show_nat \<equiv> show_base 10"

definition pad_left :: "nat \<Rightarrow> char \<Rightarrow> string \<Rightarrow> string" where
  "pad_left w c s = replicate (w - length s) c @ s"

definition show_hex_padded :: "nat \<Rightarrow> nat \<Rightarrow> string" where
  "show_hex_padded w n = pad_left w (CHR ''0'') (show_base 16 n)"

definition encode_hex :: "u8 list \<Rightarrow> string" where
  "encode_hex bs = concat (map (\<lambda>b. show_hex_padded 2 (unat b)) bs)"

definition digits_val :: "string \<Rightarrow> nat" where
  "digits_val s = foldl (\<lambda>a c. 10 * a + digit_val c) 0 s"

definition parse_uint :: "nat \<Rightarrow> string \<Rightarrow> nat option" where
  "parse_uint bits s =
     (let ds = (case strip_prefix s ''+'' of None \<Rightarrow> s | Some r \<Rightarrow> r)
      in if ds \<noteq> [] \<and> list_all is_digit ds \<and> digits_val ds < 2 ^ bits
         then Some (digits_val ds) else None)"

lemma of_char_digit: "d < 10 \<Longrightarrow> of_char (digit_char d) = (48 + d :: nat)"
  by (simp add: digit_char_def)

lemma is_digit_digit_char: "d < 10 \<Longrightarrow> is_digit (digit_char d)"
  by (simp add: is_digit_def of_char_digit)

lemma digit_val_digit_char: "d < 10 \<Longrightarrow> digit_val (digit_char d) = d"
  by (simp add: digit_val_def of_char_digit)

lemma show_nat_small: "n < 10 \<Longrightarrow> show_nat n = [digit_char n]"
  by (simp add: show_base.simps)

lemma show_nat_big: "\<not> n < 10 \<Longrightarrow> show_nat n = show_nat (n div 10) @ [digit_char (n mod 10)]"
  by (subst show_base.simps) simp

lemma show_nat_nonempty [simp]: "show_base b n \<noteq> []"
  by (subst show_base.simps) simp

lemma show_nat_digits: "list_all is_digit (show_nat n)"
proof (induction n rule: less_induct)
  case (less n)
  show ?case
  proof (cases "n < 10")
    case True
    then show ?thesis by (simp add: show_nat_small is_digit_digit_char)
  next
    case False
    then have "n div 10 < n" by simp
    from less [OF this] False show ?thesis
      by (simp add: show_nat_big is_digit_digit_char)
  qed
qed

lemma digits_val_snoc [simp]: "digits_val (s @ [c]) = 10 * digits_val s + digit_val c"
  by (simp add: digits_val_def)

lemma digits_val_show_nat [simp]: "digits_val (show_nat n) = n"
proof (induction n rule: less_induct)
  case (less n)
  show ?case
  proof (cases "n < 10")
    case True
    then show ?thesis
      using digits_val_snoc [of "[]"]
      by (simp add: show_nat_small digit_val_digit_char digits_val_def)
  next
    case False
    then have "n div 10 < n" by simp
    from less [OF this] False show ?thesis
      by (simp add: show_nat_big digit_val_digit_char)
  qed
qed

lemma is_digit_props: "is_digit c \<Longrightarrow> \<not> is_ws c \<and> c \<noteq> CHR ''+'' \<and> c \<noteq> CHR ''{''"
  by (auto simp: is_digit_def is_ws_def Let_def)

lemma show_nat_chars: "c \<in> set (show_nat n) \<Longrightarrow> is_digit c"
  using show_nat_digits [of n] by (simp add: list_all_iff)

lemma parse_uint_show_nat:
  assumes "n < 2 ^ bits"
  shows "parse_uint bits (show_nat n) = Some n"
proof -
  have "hd (show_nat n) \<in> set (show_nat n)" by simp
  then have "hd (show_nat n) \<noteq> CHR ''+''"
    using show_nat_chars is_digit_props by blast
  then have "strip_prefix (show_nat n) ''+'' = None"
    by (cases "show_nat n") (auto simp: strip_prefix_def)
  with assms show ?thesis
    by (simp add: parse_uint_def show_nat_digits)
qed

lemma show_nat_inject [simp]: "show_nat m = show_nat n \<longleftrightarrow> m = n"
  by (metis digits_val_show_nat)

lemma length_show_hex_padded_ge: "w \<le> length (show_hex_padded w n)"
  by (simp add: show_hex_padded_def pad_left_def)

text \<open>Reading hexadecimal digits back.\<close>

definition hex_digit_val :: "char \<Rightarrow> nat" where
  "hex_digit_val c = (let n = of_char c in if n < 58 then n - 48 else n - 87)"

definition hex_val :: "string \<Rightarrow> nat" where
  "hex_val s = foldl (\<lambda>a c. 16 * a + hex_digit_val c) 0 s"

lemma hex_digit_val_digit_char: "d < 16 \<Longrightarrow> hex_digit_val (digit_char d) = d"
  by (simp add: hex_digit_val_def digit_char_def Let_def)

lemma hex_val_snoc [simp]: "hex_val (s @ [c]) = 16 * hex_val s + hex_digit_val c"
  by (simp add: hex_val_def)

lemma hex_val_show: "hex_val (show_base 16 n) = n"
proof (induction n rule: less_induct)
  case (less n)
  show ?case
  proof (cases "n < 16")
    case True
    then show ?thesis
      using hex_val_snoc [of "[]"]
      by (simp add: show_base.simps [of 16 n] hex_digit_val_digit_char hex_val_def)
  next
    case False
    then have "n div 16 < n" by simp
    from less [OF this] False show ?thesis
      by (simp add: show_base.simps [of 16 n] hex_digit_val_digit_char)
  qed
qed

lemma hex_val_zeros: "hex_val (replicate k (CHR ''0'') @ s) = hex_val s"
  by (induction k) (simp_all add: hex_val_def hex_digit_val_def Let_def)

lemma hex_val_padded: "hex_val (show_hex_padded w n) = n"
  by (simp add: show_hex_padded_def pad_left_def hex_val_zeros hex_val_show)

lemma length_show_base_16: "n < 16 ^ Suc k \<Longrightarrow> length (show_base 16 n) \<le> Suc k"
proof (induction k arbitrary: n)
  case 0
  then show ?case by (simp add: show_base.simps [of 16 n])
next
  case (Suc k)
  show ?case
  proof (cases "n < 16")
    case True
    then show ?thesis by (simp add: show_base.simps [of 16 n])
  next
    case False
    have "n div 16 < 16 ^ Suc k" using Suc.prems by (simp add: less_mult_imp_div_less)
    from Suc.IH [OF this] False show ?thesis by (simp add: show_base.simps [of 16 n])
  qed
qed

lemma length_show_base_16_ge: "16 ^ k \<le> n \<Longrightarrow> Suc k \<le> length (show_base 16 n)"
proof (induction k arbitrary: n)
  case 0
  then show ?case by (cases "show_base 16 n") (simp_all add: show_nat_nonempty)
next
  case (Suc k)
  have "(1 :: nat) \<le> 16 ^ k" by simp
  moreover have "16 * 16 ^ k \<le> n" using Suc.prems by simp
  ultimately have big: "\<not> n < 16" by linarith
  have "16 ^ k \<le> n div 16" using Suc.prems by (simp add: less_eq_div_iff_mult_less_eq)
  from Suc.IH [OF this] big show ?case by (simp add: show_base.simps [of 16 n])
qed

lemma length_show_hex_padded:
  "0 < w \<Longrightarrow> length (show_hex_padded w n) = w \<longleftrightarrow> n < 16 ^ w"
proof (cases w)
  case (Suc k)
  show ?thesis
  proof (cases "n < 16 ^ w")
    case True
    with Suc length_show_base_16 [of n k] show ?thesis
      by (simp add: show_hex_padded_def pad_left_def)
  next
    case False
    with length_show_base_16_ge [of w n] show ?thesis
      by (simp add: show_hex_padded_def pad_left_def)
  qed
qed simp

lemma show_base_16_chars: "c \<in> set (show_base 16 n) \<Longrightarrow> 48 \<le> (of_char c :: nat)"
proof (induction n rule: less_induct)
  case (less n)
  have digit: "48 \<le> (of_char (digit_char d) :: nat)" if "d < 16" for d
    using that by (simp add: digit_char_def)
  show ?case
  proof (cases "n < 16")
    case True
    with less.prems digit show ?thesis by (simp add: show_base.simps [of 16 n])
  next
    case False
    then have "n div 16 < n" by simp
    from less.IH [OF this] less.prems False digit show ?thesis
      by (auto simp: show_base.simps [of 16 n])
  qed
qed

lemma show_hex_padded_chars: "c \<in> set (show_hex_padded w n) \<Longrightarrow> 48 \<le> (of_char c :: nat)"
  using show_base_16_chars by (auto simp: show_hex_padded_def pad_left_def)

lemma show_base_16_lower: "c \<in> set (show_base 16 n) \<Longrightarrow> to_lower c = c"
proof (induction n rule: less_induct)
  case (less n)
  have digit: "to_lower (digit_char d) = digit_char d" if "d < 16" for d
    using that by (simp add: to_lower_def digit_char_def Let_def)
  show ?case
  proof (cases "n < 16")
    case True
    with less.prems digit show ?thesis by (simp add: show_base.simps [of 16 n])
  next
    case False
    then have "n div 16 < n" by simp
    from less.IH [OF this] less.prems False digit show ?thesis
      by (auto simp: show_base.simps [of 16 n])
  qed
qed

lemma to_lowercase_hex: "to_lowercase (show_hex_padded w n) = show_hex_padded w n"
  by (auto simp: to_lowercase_def show_hex_padded_def pad_left_def to_lower_def [of "CHR ''0''"]
      intro!: map_idI show_base_16_lower)

section \<open>Big-endian byte arrays\<close>

fun be_bytes :: "nat \<Rightarrow> nat \<Rightarrow> u8 list" where
  "be_bytes 0 n = []"
| "be_bytes (Suc k) n = be_bytes k (n div 256) @ [word_of_nat n]"

definition be_val :: "u8 list \<Rightarrow> nat" where
  "be_val bs = foldl (\<lambda>a b. 256 * a + unat b) 0 bs"

lemma length_be_bytes [simp]: "length (be_bytes k n) = k"
  by (induction k arbitrary: n) simp_all

lemma be_val_Nil [simp]: "be_val [] = 0"
  by (simp add: be_val_def)

lemma be_val_snoc [simp]: "be_val (bs @ [b]) = 256 * be_val bs + unat b"
  by (simp add: be_val_def)

lemma be_val_be_bytes: "be_val (be_bytes k n) = n mod 256 ^ k"
proof (induction k arbitrary: n)
  case 0
  then show ?case by simp
next
  case (Suc k)
  have "unat (word_of_nat n :: u8) = n mod 256"
    by (simp add: unat_of_nat)
  with Suc show ?case
    by (simp add: mod_mult2_eq)
qed

lemma be_val_less: "be_val bs < 256 ^ length bs"
proof (induction bs rule: rev_induct)
  case Nil
  then show ?case by simp
next
  case (snoc b bs)
  have "unat b < 256" using unsigned_less [of b] by simp
  with snoc show ?case by simp
qed

lemma be_bytes_be_val: "be_bytes (length bs) (be_val bs) = bs"
proof (induction bs rule: rev_induct)
  case Nil
  then show ?case by simp
next
  case (snoc b bs)
  have lt: "unat b < 256" using unsigned_less [of b] by simp
  have "(256 * be_val bs + unat b) div 256 = be_val bs"
    using lt by simp
  moreover have "(word_of_nat (256 * be_val bs + unat b) :: u8) = b"
  proof -
    have "(word_of_nat (256 * be_val bs + unat b) :: u8)
        = 256 * word_of_nat (be_val bs) + b" by simp
    also have "(256 :: u8) = 0" by simp
    finally show ?thesis by simp
  qed
  ultimately show ?case using snoc by (simp del: of_nat_add)
qed

lemma be_val_append: "be_val (as @ bs) = be_val as * 256 ^ length bs + be_val bs"
proof (induction bs rule: rev_induct)
  case Nil
  then show ?case by simp
next
  case (snoc b bs)
  have "be_val (as @ bs @ [b]) = 256 * be_val (as @ bs) + unat b"
    using be_val_snoc [of "as @ bs" b] by simp
  with snoc show ?case by (simp add: algebra_simps)
qed

lemma be_val_drop:
  "be_val (drop k bs) = be_val bs mod 256 ^ (length bs - k)"
proof -
  have "be_val bs = be_val (take k bs) * 256 ^ length (drop k bs) + be_val (drop k bs)"
    using be_val_append [of "take k bs" "drop k bs"] by simp
  moreover have "be_val (drop k bs) < 256 ^ length (drop k bs)"
    by (rule be_val_less)
  ultimately show ?thesis by simp
qed

end
