(* ===== verification/Seeder.thy ===== *)
theory Seeder
  imports Rust_Strings
begin

text \<open>
  \<open>crates/core/src/generator/seeder\<close>: the deterministic seed \<open>RandSeed\<close> that
  private keys and fuzzed arguments are derived from.  The hash \<open>keccak256\<close>
  (a third-party function) is a parameter; a digest is a list of bytes read
  big-endian.  The theory shows that a seed always holds 32 bytes, that the
  integer views of a seed agree, and that \<open>seed_values\<close> yields exactly the
  requested number of values, all in the half-open range.
\<close>

record rand_seed =
  seed :: "u8 list"

definition fill_bytes :: "u8 list \<Rightarrow> u8 list" where
  "fill_bytes s =
     (if length s < 32 then s @ replicate (32 - length s) 0x01 else take 32 s)"

definition seed_from_bytes :: "u8 list \<Rightarrow> rand_seed" where
  "seed_from_bytes bs = \<lparr>seed = fill_bytes bs\<rparr>"

definition seed_from_u256 :: "u256 \<Rightarrow> rand_seed" where
  "seed_from_u256 n = \<lparr>seed = be_bytes 32 (unat n)\<rparr>"

definition seed_from_str ::
  "(string \<Rightarrow> nat \<Rightarrow> u256 option) \<Rightarrow> string \<Rightarrow> (rand_seed, 'e) rresult" where
  "seed_from_str from_str_radix s =
     (let (radix, digits) = (if prefix ''0x'' s then (16, drop 2 s) else (10, s))
      in rbind (expect (from_str_radix digits radix)) (\<lambda>n. Ok (seed_from_u256 n)))"

definition as_bytes :: "rand_seed \<Rightarrow> u8 list" where
  "as_bytes s = seed s"

definition as_u64 :: "rand_seed \<Rightarrow> u64" where
  "as_u64 s = word_of_nat (be_val (drop 24 (seed s)))"

definition as_u128 :: "rand_seed \<Rightarrow> u128" where
  "as_u128 s = word_of_nat (be_val (drop 16 (seed s)))"

definition as_u256 :: "rand_seed \<Rightarrow> u256" where
  "as_u256 s = word_of_nat (be_val (seed s))"

definition as_le_slice :: "u256 \<Rightarrow> u8 list" where
  "as_le_slice n = rev (be_bytes 32 (unat n))"

definition seed_value_at ::
  "(u8 list \<Rightarrow> u8 list) \<Rightarrow> rand_seed \<Rightarrow> u256 \<Rightarrow> u256 \<Rightarrow> nat \<Rightarrow> u256" where
  "seed_value_at keccak s mn mx i =
     (let seed_num = as_u256 s + word_of_nat i;
          val = (word_of_nat (be_val (keccak (as_le_slice seed_num))) :: u256)
      in val mod (mx - mn) + mn)"

definition seed_values ::
  "(u8 list \<Rightarrow> u8 list) \<Rightarrow> rand_seed \<Rightarrow> nat \<Rightarrow> u256 option \<Rightarrow> u256 option
    \<Rightarrow> (rand_seed list, 'e) rresult" where
  "seed_values keccak s amount mn mx =
     (let lo = case_option 0 (\<lambda>x. x) mn;
          hi = case_option (- 1) (\<lambda>x. x) mx
      in if lo < hi
         then Ok (map (\<lambda>i. seed_from_u256 (seed_value_at keccak s lo hi i)) [0..<amount])
         else Panic)"

definition seed_wf :: "rand_seed \<Rightarrow> bool" where
  "seed_wf s = (length (seed s) = 32)"

section \<open>Every constructor builds a 32-byte seed\<close>

lemma length_fill_bytes [simp]: "length (fill_bytes s) = 32"
  by (simp add: fill_bytes_def)

lemma fill_bytes_32: "length s = 32 \<Longrightarrow> fill_bytes s = s"
  by (simp add: fill_bytes_def)

lemma seed_wf_from_bytes [simp, wf_intros]: "seed_wf (seed_from_bytes bs)"
  by (simp add: seed_wf_def seed_from_bytes_def)

lemma seed_wf_from_u256 [simp, wf_intros]: "seed_wf (seed_from_u256 n)"
  by (simp add: seed_wf_def seed_from_u256_def)

lemma seed_wf_from_str: "seed_from_str p s = Ok r \<Longrightarrow> seed_wf r"
  by (auto simp: seed_from_str_def Let_def split: if_splits)

section \<open>The integer views\<close>

lemma be_val_seed_less: "seed_wf s \<Longrightarrow> be_val (seed s) < 2 ^ 256"
  using be_val_less [of "seed s"] by (simp add: seed_wf_def)

lemma unat_as_u256: "seed_wf s \<Longrightarrow> unat (as_u256 s) = be_val (seed s)"
  using be_val_seed_less [of s] by (simp add: as_u256_def unat_of_nat)

lemma as_u256_from_u256 [simp]: "as_u256 (seed_from_u256 n) = n"
proof -
  have "unat n < 2 ^ 256" using unsigned_less [of n] by simp
  then show ?thesis
    by (simp add: as_u256_def seed_from_u256_def be_val_be_bytes)
qed

lemma seed_from_u256_as_u256: "seed_wf s \<Longrightarrow> seed_from_u256 (as_u256 s) = s"
  using be_bytes_be_val [of "seed s"]
  by (simp add: seed_from_u256_def unat_as_u256 seed_wf_def)

lemma unat_as_u64: "seed_wf s \<Longrightarrow> unat (as_u64 s) = unat (as_u256 s) mod 2 ^ 64"
  by (simp add: unat_as_u256 as_u64_def be_val_drop unat_of_nat seed_wf_def)

lemma unat_as_u128: "seed_wf s \<Longrightarrow> unat (as_u128 s) = unat (as_u256 s) mod 2 ^ 128"
  by (simp add: unat_as_u256 as_u128_def be_val_drop unat_of_nat seed_wf_def)

section \<open>Seed values\<close>

lemma word_mod_add_range:
  fixes v mn mx :: "'a::len word"
  assumes "mn < mx"
  shows "mn \<le> v mod (mx - mn) + mn \<and> v mod (mx - mn) + mn < mx"
proof -
  have d: "unat (mx - mn) = unat mx - unat mn"
    using assms by (simp add: unat_sub)
  have pos: "unat mx - unat mn > 0"
    using assms by (simp add: word_less_nat_alt)
  have "unat (v mod (mx - mn)) = unat v mod (unat mx - unat mn)"
    by (simp add: unat_mod_distrib d)
  then have lt: "unat (v mod (mx - mn)) < unat mx - unat mn"
    using pos by simp
  have mxb: "unat mx < 2 ^ LENGTH('a)" by (rule unsigned_less)
  have "unat (v mod (mx - mn)) + unat mn < unat mx" using lt pos by linarith
  then have "unat (v mod (mx - mn)) + unat mn < 2 ^ LENGTH('a)" using mxb by linarith
  then have "unat (v mod (mx - mn) + mn) = unat (v mod (mx - mn)) + unat mn"
    by (simp only: unat_word_ariths(1) mod_less)
  then show ?thesis
    using lt pos by (simp add: word_le_nat_alt word_less_nat_alt)
qed

lemma seed_value_at_range:
  "mn < mx \<Longrightarrow> mn \<le> seed_value_at keccak s mn mx i \<and> seed_value_at keccak s mn mx i < mx"
  by (simp add: seed_value_at_def Let_def word_mod_add_range)

lemma seed_values_Ok:
  "seed_values keccak s amount mn mx = Ok vs \<longleftrightarrow>
     case_option 0 (\<lambda>x. x) mn < (case_option (- 1) (\<lambda>x. x) mx :: u256) \<and>
     vs = map (\<lambda>i. seed_from_u256 (seed_value_at keccak s (case_option 0 (\<lambda>x. x) mn)
                   (case_option (- 1) (\<lambda>x. x) mx) i)) [0..<amount]"
  by (auto simp: seed_values_def Let_def)

lemma seed_values_length: "seed_values keccak s amount mn mx = Ok vs \<Longrightarrow> length vs = amount"
  by (simp add: seed_values_Ok)

lemma seed_values_wf: "seed_values keccak s amount mn mx = Ok vs \<Longrightarrow> v \<in> set vs \<Longrightarrow> seed_wf v"
  by (auto simp: seed_values_Ok)

lemma seed_values_default: "\<exists>vs. seed_values keccak s amount None None = Ok vs"
proof -
  have "(0 :: u256) < - 1" by (simp add: word_gt_0)
  then show ?thesis by (simp add: seed_values_Ok)
qed

lemma seed_values_take:
  "m \<le> n \<Longrightarrow> seed_values keccak s n mn mx = Ok vs
    \<Longrightarrow> seed_values keccak s m mn mx = Ok (take m vs)"
  by (auto simp: seed_values_Ok take_map)

text \<open>
  What the clients of a seed generator rely on (\<open>SeedGenerator\<close> of the source):
  a requested number of values, each of which converts to 32 bytes.
\<close>

locale seed_generator =
  fixes gen :: "'s \<Rightarrow> nat \<Rightarrow> ('v list, 'e) rresult"
    and bytes :: "'v \<Rightarrow> u8 list"
  assumes gen_total: "\<exists>vs. gen s n = Ok vs"
    and gen_length: "gen s n = Ok vs \<Longrightarrow> length vs = n"
    and bytes_length: "gen s n = Ok vs \<Longrightarrow> v \<in> set vs \<Longrightarrow> length (bytes v) = 32"
    and gen_take: "m \<le> n \<Longrightarrow> gen s n = Ok vs \<Longrightarrow> gen s m = Ok (take m vs)"
begin

lemma gen_keys:
  "\<exists>ks. rmap (map bytes) (gen s n) = Ok ks \<and> length ks = n \<and> (\<forall>k \<in> set ks. length k = 32)"
proof -
  obtain vs where vs: "gen s n = Ok vs" using gen_total by blast
  then have "length (map bytes vs) = n" and "\<forall>k \<in> set (map bytes vs). length k = 32"
    using gen_length bytes_length by auto
  with vs show ?thesis by simp
qed

lemma gen_last_exists: "\<exists>vs v. gen s (Suc n) = Ok vs \<and> vs \<noteq> [] \<and> v = last vs \<and> length (bytes v) = 32"
proof -
  obtain vs where vs: "gen s (Suc n) = Ok vs" using gen_total by blast
  then have "vs \<noteq> []" using gen_length by fastforce
  with vs show ?thesis using bytes_length by (metis last_in_set)
qed

end

interpretation rand: seed_generator "\<lambda>s n. seed_values keccak s n None None" as_bytes
proof (unfold_locales, goal_cases)
  case (1 s n)
  show ?case by (rule seed_values_default)
next
  case (2 s n vs)
  then show ?case by (rule seed_values_length)
next
  case (3 s n vs v)
  then show ?case
    using seed_values_wf by (metis as_bytes_def seed_wf_def)
next
  case (4 m n s vs)
  then show ?case by (rule seed_values_take)
qed

section \<open>Properties\<close>

text \<open>
  Fuzzed values respect their bounds: whenever \<open>seed_values\<close> is called
  with a minimum below the maximum (absent bounds are 0 and the largest 256-bit
  number) it returns exactly \<open>amount\<close> values, each a 32-byte seed whose
  256-bit value is at least the minimum and strictly below the maximum; with
  any other bounds it panics.
\<close>

theorem seed_values_in_range:
  "if case_option 0 (\<lambda>x. x) mn < (case_option (- 1) (\<lambda>x. x) mx :: u256)
   then \<exists>vs. seed_values keccak s amount mn mx = Ok vs \<and> length vs = amount \<and>
          list_all (\<lambda>v. seed_wf v \<and> case_option 0 (\<lambda>x. x) mn \<le> as_u256 v \<and>
                        as_u256 v < case_option (- 1) (\<lambda>x. x) mx) vs
   else seed_values keccak s amount mn mx = Panic"
  using seed_value_at_range by (simp add: seed_values_def Let_def list_all_iff)

text \<open>
  The integer views of a seed are one number: converting a 256-bit number to
  a seed and back is the identity, converting a 32-byte seed to a number and
  back is the identity, and the 64-bit and 128-bit views of a seed are the low
  bits of its 256-bit view.
\<close>

theorem seed_views_roundtrip:
  "as_u256 (seed_from_u256 n) = n \<and>
   seed_from_u256 (as_u256 (seed_from_bytes bs)) = seed_from_bytes bs \<and>
   unat (as_u64 (seed_from_bytes bs)) = unat (as_u256 (seed_from_bytes bs)) mod 2 ^ 64 \<and>
   unat (as_u128 (seed_from_bytes bs)) = unat (as_u256 (seed_from_bytes bs)) mod 2 ^ 128"
  by (simp add: seed_from_u256_as_u256 unat_as_u64 unat_as_u128)

end
