(* ===== verification/Float64.thy ===== *)
theory Float64
  imports Complex_Main Rust_Prelude
begin

text \<open>
  Rust's \<open>f64\<close>: IEEE 754 binary64 with round-to-nearest, ties to even.  A finite
  value is the rational number it denotes (the two zeros are one value), and
  every operation rounds the exact result.  Only the operations the source uses
  are here: the four arithmetic ones, comparison, \<open>round\<close>, \<open>ceil\<close>, and the casts
  from and to 64-bit integers (\<open>as u64\<close> truncates and saturates, NaN becomes 0).
\<close>

datatype f64 = Fin rat | PInf | NInf | NaN

definition pow2 :: "int \<Rightarrow> rat" where
  "pow2 e = (if 0 \<le> e then 2 ^ nat e else 1 / 2 ^ nat (- e))"

fun bitlen_nat :: "nat \<Rightarrow> nat" where
  "bitlen_nat n = (if n = 0 then 0 else Suc (bitlen_nat (n div 2)))"

declare bitlen_nat.simps [simp del]

definition ilog2 :: "rat \<Rightarrow> int" where
  "ilog2 x = (let (p, q) = quotient_of x;
                  e = int (bitlen_nat (nat p)) - int (bitlen_nat (nat q))
              in if pow2 e \<le> x then e else e - 1)"

definition round_half_even :: "rat \<Rightarrow> int" where
  "round_half_even x =
     (let f = \<lfloor>x\<rfloor>; d = x - of_int f
      in if d < 1 / 2 then f else if d > 1 / 2 then f + 1 else if even f then f else f + 1)"

definition rnd64 :: "rat \<Rightarrow> rat" where
  "rnd64 x =
     (if x = 0 then 0
      else let e = max (ilog2 \<bar>x\<bar> - 52) (- 1074) in of_int (round_half_even (x / pow2 e)) * pow2 e)"

definition f64_of_rat :: "rat \<Rightarrow> f64" where
  "f64_of_rat x =
     (let r = rnd64 x
      in if 2 ^ 1024 \<le> r then PInf else if r \<le> - (2 ^ 1024) then NInf else Fin r)"

definition f64_of_u64 :: "u64 \<Rightarrow> f64" where
  "f64_of_u64 n = f64_of_rat (of_nat (unat n))"

fun f64_neg :: "f64 \<Rightarrow> f64" where
  "f64_neg (Fin x) = Fin (- x)"
| "f64_neg PInf = NInf"
| "f64_neg NInf = PInf"
| "f64_neg NaN = NaN"

fun f64_add :: "f64 \<Rightarrow> f64 \<Rightarrow> f64" where
  "f64_add (Fin x) (Fin y) = f64_of_rat (x + y)"
| "f64_add NaN _ = NaN"
| "f64_add _ NaN = NaN"
| "f64_add PInf NInf = NaN"
| "f64_add NInf PInf = NaN"
| "f64_add PInf _ = PInf"
| "f64_add _ PInf = PInf"
| "f64_add NInf _ = NInf"
| "f64_add _ NInf = NInf"

definition f64_sub :: "f64 \<Rightarrow> f64 \<Rightarrow> f64" where
  "f64_sub a b = f64_add a (f64_neg b)"

definition inf_of_sign :: "rat \<Rightarrow> f64" where
  "inf_of_sign s = (if 0 < s then PInf else if s < 0 then NInf else NaN)"

fun f64_mul :: "f64 \<Rightarrow> f64 \<Rightarrow> f64" where
  "f64_mul (Fin x) (Fin y) = f64_of_rat (x * y)"
| "f64_mul NaN _ = NaN"
| "f64_mul _ NaN = NaN"
| "f64_mul PInf (Fin y) = inf_of_sign y"
| "f64_mul NInf (Fin y) = inf_of_sign (- y)"
| "f64_mul (Fin x) PInf = inf_of_sign x"
| "f64_mul (Fin x) NInf = inf_of_sign (- x)"
| "f64_mul PInf PInf = PInf"
| "f64_mul NInf NInf = PInf"
| "f64_mul _ _ = NInf"

fun f64_div :: "f64 \<Rightarrow> f64 \<Rightarrow> f64" where
  "f64_div (Fin x) (Fin y) = (if y = 0 then inf_of_sign x else f64_of_rat (x / y))"
| "f64_div NaN _ = NaN"
| "f64_div _ NaN = NaN"
| "f64_div (Fin x) _ = Fin 0"
| "f64_div PInf (Fin y) = (if 0 \<le> y then PInf else NInf)"
| "f64_div NInf (Fin y) = (if 0 \<le> y then NInf else PInf)"
| "f64_div _ _ = NaN"

fun f64_less :: "f64 \<Rightarrow> f64 \<Rightarrow> bool" where
  "f64_less (Fin x) (Fin y) = (x < y)"
| "f64_less NaN _ = False"
| "f64_less _ NaN = False"
| "f64_less NInf b = (b \<noteq> NInf)"
| "f64_less a PInf = (a \<noteq> PInf)"
| "f64_less _ _ = False"

definition f64_le :: "f64 \<Rightarrow> f64 \<Rightarrow> bool" where
  "f64_le a b = (f64_less a b \<or> (a = b \<and> a \<noteq> NaN))"

definition f64_epsilon :: f64 where
  "f64_epsilon = Fin (1 / 2 ^ 52)"

definition round_half_away :: "rat \<Rightarrow> int" where
  "round_half_away x = (if 0 \<le> x then \<lfloor>x + 1 / 2\<rfloor> else - \<lfloor>- x + 1 / 2\<rfloor>)"

fun f64_round :: "f64 \<Rightarrow> f64" where
  "f64_round (Fin x) = Fin (of_int (round_half_away x))"
| "f64_round a = a"

fun f64_ceil :: "f64 \<Rightarrow> f64" where
  "f64_ceil (Fin x) = Fin (of_int \<lceil>x\<rceil>)"
| "f64_ceil a = a"

fun f64_to_u64 :: "f64 \<Rightarrow> u64" where
  "f64_to_u64 (Fin x) =
     (if x < 1 then 0 else if 2 ^ 64 \<le> x then - 1 else word_of_int \<lfloor>x\<rfloor>)"
| "f64_to_u64 PInf = - 1"
| "f64_to_u64 _ = 0"

definition f64_sum :: "f64 list \<Rightarrow> f64" where
  "f64_sum xs = foldl f64_add (Fin 0) xs"

lemma round_half_even_of_int [simp]: "round_half_even (of_int n) = n"
  by (simp add: round_half_even_def)

lemma round_half_even_bounds: "\<lfloor>x\<rfloor> \<le> round_half_even x \<and> round_half_even x \<le> \<lfloor>x\<rfloor> + 1"
  by (simp add: round_half_even_def Let_def)

lemma round_half_even_nonneg: "0 \<le> x \<Longrightarrow> 0 \<le> round_half_even x"
proof -
  assume "0 \<le> x"
  then have "0 \<le> \<lfloor>x\<rfloor>" by simp
  with round_half_even_bounds [of x] show ?thesis by linarith
qed

lemma pow2_pos [simp]: "0 < pow2 e"
  by (simp add: pow2_def)

lemma pow2_nonzero [simp]: "pow2 e \<noteq> 0" "\<not> pow2 e < 0"
  using pow2_pos [of e] by linarith+

lemma rnd64_nonneg: "0 \<le> x \<Longrightarrow> 0 \<le> rnd64 x"
  using round_half_even_nonneg pow2_pos
  by (simp add: rnd64_def Let_def less_imp_le)

lemma f64_to_u64_zero: "f64_to_u64 (Fin 0) = 0"
  by simp

subsection \<open>Exact results\<close>

text \<open>
  A number with at most 53 significant bits whose last bit is within the range of the exponent
  is represented exactly, so rounding leaves it alone.
\<close>

lemma pow2_add: "pow2 (a + b) = pow2 a * pow2 b"
  by (simp add: pow2_def nat_add_distrib power_add [symmetric] nat_diff_distrib' field_simps
      add.commute power_diff) linarith

lemma pow2_nat [simp]: "pow2 (int n) = 2 ^ n" "pow2 (- int n) = 1 / 2 ^ n"
  by (simp_all add: pow2_def)

lemma bitlen_bounds: "0 < n \<Longrightarrow> 2 ^ (bitlen_nat n - 1) \<le> n \<and> n < 2 ^ bitlen_nat n \<and> 0 < bitlen_nat n"
proof (induction n rule: bitlen_nat.induct)
  case (1 n)
  show ?case
  proof (cases "n div 2 = 0")
    case True
    then have "n = 1" using 1(2) by simp
    then show ?thesis by (simp add: bitlen_nat.simps)
  next
    case False
    with 1 have "2 ^ (bitlen_nat (n div 2) - 1) \<le> n div 2 \<and> n div 2 < 2 ^ bitlen_nat (n div 2) \<and>
        0 < bitlen_nat (n div 2)" by simp
    moreover have "bitlen_nat n = Suc (bitlen_nat (n div 2))" using 1(2) by (subst bitlen_nat.simps) simp
    ultimately show ?thesis
      by (cases "bitlen_nat (n div 2)") auto
  qed
qed

lemma pow2_ilog2_le: "0 < x \<Longrightarrow> pow2 (ilog2 x) \<le> x"
proof -
  assume x: "0 < x"
  obtain p q where pq: "quotient_of x = (p, q)" by force
  then have q: "0 < q" and xpq: "x = of_int p / of_int q" by (simp_all add: quotient_of_denom_pos quotient_of_div)
  with x have p: "0 < p" by (simp add: zero_less_divide_iff)
  define bp bq where "bp = bitlen_nat (nat p)" and "bq = bitlen_nat (nat q)"
  have b: "2 ^ (bp - 1) \<le> nat p" "nat q < 2 ^ bq" "0 < bp"
    using bitlen_bounds [of "nat p"] bitlen_bounds [of "nat q"] p q by (auto simp: bp_def bq_def)
  have "pow2 (int bp - int bq - 1) = pow2 (int (bp - 1)) * pow2 (- int bq)"
    using b(3) by (simp only: pow2_add [symmetric]) (simp add: of_nat_diff algebra_simps)
  also have "\<dots> = 2 ^ (bp - 1) / 2 ^ bq" by simp
  also have "\<dots> \<le> of_int p / of_int q"
  proof (rule frac_le)
    show "(2::rat) ^ (bp - 1) \<le> of_int p"
      using b(1) p by (metis of_int_le_iff of_int_numeral of_int_power nat_le_iff of_nat_power of_nat_numeral le_nat_iff less_imp_le)
    show "of_int q \<le> (2::rat) ^ bq"
      using b(2) q by (metis of_int_le_iff of_int_numeral of_int_power nat_less_iff less_imp_le of_nat_power of_nat_numeral)
  qed (use p q in auto)
  finally have "pow2 (int bp - int bq - 1) \<le> x" by (simp only: xpq)
  then show ?thesis by (simp add: ilog2_def pq Let_def flip: bp_def bq_def)
qed

lemma pow2_mono: "a \<le> b \<Longrightarrow> pow2 a \<le> pow2 b"
proof -
  assume "a \<le> b"
  then obtain k where "b = a + int k" using zle_iff_zadd by auto
  then show ?thesis by (simp add: pow2_add mult_le_cancel_left1)
qed

lemma rnd64_exact:
  assumes "\<bar>m\<bar> < 2 ^ 53" and "- 1074 \<le> e"
  shows "rnd64 (of_int m * pow2 e) = of_int m * pow2 e"
proof (cases "m = 0")
  case True
  then show ?thesis by (simp add: rnd64_def)
next
  case False
  let ?x = "of_int m * pow2 e"
  have "pow2 (ilog2 \<bar>?x\<bar>) \<le> \<bar>?x\<bar>" using False pow2_pos [of e] by (intro pow2_ilog2_le) (simp del: pow2_pos)
  also have "\<dots> \<le> of_int (2 ^ 53 - 1) * pow2 e"
    using assms(1) by (simp add: abs_mult less_imp_le of_int_le_iff [symmetric] del: of_int_le_iff)
  also have "\<dots> < 2 ^ 53 * pow2 e" by simp
  also have "\<dots> = pow2 (e + 53)" using pow2_nat(1) [of 53] by (simp add: pow2_add)
  finally have lt: "ilog2 \<bar>?x\<bar> < e + 53" using pow2_mono [of "e + 53" "ilog2 \<bar>?x\<bar>"] by linarith
  define k where "k = max (ilog2 \<bar>?x\<bar> - 52) (- 1074)"
  have "k \<le> e" using lt assms(2) by (simp add: k_def)
  then obtain n where n: "e = k + int n" using zle_iff_zadd by auto
  have "?x / pow2 k = of_int (m * 2 ^ n)" by (simp add: n pow2_add)
  then have "round_half_even (?x / pow2 k) = m * 2 ^ n" by (simp only: round_half_even_of_int)
  then have "rnd64 ?x = of_int (m * 2 ^ n) * pow2 k"
    using False by (simp add: rnd64_def k_def [symmetric] Let_def)
  then show ?thesis by (simp add: n pow2_add)
qed

lemma f64_of_rat_exact:
  assumes "\<bar>m\<bar> < 2 ^ 53" and "k \<le> 1074"
  shows "f64_of_rat (of_int m / 2 ^ k) = Fin (of_int m / 2 ^ k)"
proof -
  let ?x = "of_int m / 2 ^ k :: rat"
  have r: "rnd64 ?x = ?x" using rnd64_exact [OF assms(1), of "- int k"] assms(2) by simp
  have "\<bar>?x\<bar> \<le> of_int \<bar>m\<bar>" by (simp add: divide_le_eq mult_le_cancel_left1)
  also have "\<dots> < of_int (2 ^ 53)" using assms(1) by (simp only: of_int_less_iff)
  also have "\<dots> \<le> 2 ^ 1024" by simp
  finally have "\<bar>?x\<bar> < 2 ^ 1024" .
  then have "\<not> 2 ^ 1024 \<le> ?x" "\<not> ?x \<le> - (2 ^ 1024)" by (simp_all only: abs_less_iff) linarith+
  then show ?thesis by (simp only: f64_of_rat_def r Let_def if_False)
qed

end
