(* ===== verification/Db_Types.thy ===== *)
theory Db_Types
  imports Rust_Strings Float64
begin

text \<open>
  \<open>crates/core/src/db\<close> and the bucket type of \<open>crates/core/src/buckets.rs\<close>: the
  records the database stores, the error type, the \<open>SpamDuration\<close> text format,
  and the contract of \<open>DbOps\<close> that the generator and the transaction cache rely
  on, as a locale.  Record fields carry a prefix per record, since several
  structs of the source share field names.
\<close>

datatype db_error = DbInternal string | DbNotFound string

text \<open>The errors of the SQLite implementation (\<open>crates/sqlite_db/src/error.rs\<close>).\<close>

datatype sqlite_error = PoolError string | ExecuteQuery string | NotFoundError string

record named_tx =
  nt_name :: string
  nt_tx_hash :: tx_hash
  nt_address :: "address option"

definition named_tx_new :: "string \<Rightarrow> tx_hash \<Rightarrow> address option \<Rightarrow> named_tx" where
  "named_tx_new name h a = \<lparr>nt_name = name, nt_tx_hash = h, nt_address = a\<rparr>"

record run_tx =
  rt_tx_hash :: tx_hash
  rt_start_timestamp_ms :: u64
  rt_end_timestamp_ms :: "u64 option"
  rt_block_number :: "u64 option"
  rt_gas_used :: "u64 option"
  rt_kind :: "string option"
  rt_error :: "string option"
  rt_flashblock_latency_ms :: "u64 option"
  rt_flashblock_index :: "u64 option"

datatype spam_duration = Seconds u64 | Blocks u64

record spam_run =
  sr_id :: u64
  sr_timestamp :: u64
  sr_tx_count :: u64
  sr_scenario_name :: string
  sr_campaign_id :: "string option"
  sr_campaign_name :: "string option"
  sr_stage_name :: "string option"
  sr_rpc_url :: string
  sr_txs_per_duration :: u64
  sr_duration :: spam_duration
  sr_timeout :: u64

text \<open>\<open>pending_timeout\<close> is a \<open>Duration\<close>; the field is its number of whole seconds.\<close>

record spam_run_request =
  srq_timestamp :: u64
  srq_tx_count :: u64
  srq_scenario_name :: string
  srq_campaign_id :: "string option"
  srq_campaign_name :: "string option"
  srq_stage_name :: "string option"
  srq_rpc_url :: string
  srq_txs_per_duration :: u64
  srq_duration :: spam_duration
  srq_pending_timeout_secs :: u64

record replay_report_request =
  rr_rpc_url_id :: u64
  rr_gas_per_second :: u64
  rr_gas_used :: u64

definition replay_report_request_new :: replay_report_request where
  "replay_report_request_new = \<lparr>rr_rpc_url_id = 0, rr_gas_per_second = 0, rr_gas_used = 0\<rparr>"

record replay_report =
  rep_id :: u64
  rep_req :: replay_report_request

definition replay_report_new :: "u64 \<Rightarrow> replay_report_request \<Rightarrow> replay_report" where
  "replay_report_new i r = \<lparr>rep_id = i, rep_req = r\<rparr>"

definition report_gas_used :: "replay_report \<Rightarrow> u64" where
  "report_gas_used r = rr_gas_used (rep_req r)"

definition report_gas_per_second :: "replay_report \<Rightarrow> u64" where
  "report_gas_per_second r = rr_gas_per_second (rep_req r)"

definition report_rpc_url_id :: "replay_report \<Rightarrow> u64" where
  "report_rpc_url_id r = rr_rpc_url_id (rep_req r)"

section \<open>SpamDuration\<close>

fun duration_value :: "spam_duration \<Rightarrow> u64" where
  "duration_value (Seconds v) = v"
| "duration_value (Blocks v) = v"

fun duration_unit :: "spam_duration \<Rightarrow> string" where
  "duration_unit (Seconds v) = ''seconds''"
| "duration_unit (Blocks v) = ''blocks''"

fun is_seconds :: "spam_duration \<Rightarrow> bool" where
  "is_seconds (Seconds v) = True"
| "is_seconds (Blocks v) = False"

fun is_blocks :: "spam_duration \<Rightarrow> bool" where
  "is_blocks (Blocks v) = True"
| "is_blocks (Seconds v) = False"

fun fmt_duration :: "spam_duration \<Rightarrow> string" where
  "fmt_duration (Seconds v) = show_nat (unat v) @ '' seconds''"
| "fmt_duration (Blocks v) = show_nat (unat v) @ '' blocks''"

definition parse_u64 :: "string \<Rightarrow> u64 option" where
  "parse_u64 s = map_option word_of_nat (parse_uint 64 s)"

definition duration_from_string :: "string \<Rightarrow> (spam_duration, 'e) rresult" where
  "duration_from_string s =
     (let value = trim s
      in case strip_suffix value '' seconds'' of
           Some stripped \<Rightarrow>
             (case parse_u64 (trim stripped) of Some n \<Rightarrow> Ok (Seconds n) | None \<Rightarrow> Panic)
         | None \<Rightarrow>
             (case strip_suffix value '' blocks'' of
                Some stripped \<Rightarrow>
                  (case parse_u64 (trim stripped) of Some n \<Rightarrow> Ok (Blocks n) | None \<Rightarrow> Panic)
              | None \<Rightarrow> Panic))"

section \<open>Histogram buckets\<close>

record bucket =
  upper_bound :: f64
  cumulative_count :: u64

definition bucket_new :: "f64 \<Rightarrow> u64 \<Rightarrow> bucket" where
  "bucket_new b c = \<lparr>upper_bound = b, cumulative_count = c\<rparr>"

definition bucket_from :: "f64 \<times> u64 \<Rightarrow> bucket" where
  "bucket_from p = bucket_new (fst p) (snd p)"

fun quantile_loop :: "u64 \<Rightarrow> f64 \<Rightarrow> u64 \<Rightarrow> bucket list \<Rightarrow> f64 option" where
  "quantile_loop target lower_bound lower_count [] = None"
| "quantile_loop target lower_bound lower_count (b # bs) =
     (if target \<le> cumulative_count b
      then let range = max (cumulative_count b - lower_count) 1;
               position = f64_div (f64_of_u64 (target - lower_count)) (f64_of_u64 range)
           in Some (f64_add lower_bound (f64_mul (f64_sub (upper_bound b) lower_bound) position))
      else quantile_loop target (upper_bound b) (cumulative_count b) bs)"

definition estimate_quantile :: "bucket list \<Rightarrow> f64 \<Rightarrow> f64" where
  "estimate_quantile bs quantile =
     (if bs = [] then Fin 0
      else let total = cumulative_count (last bs);
               target = f64_to_u64 (f64_ceil (f64_mul quantile (f64_of_u64 total)))
           in case quantile_loop target (Fin 0) 0 bs of
                Some r \<Rightarrow> r
              | None \<Rightarrow> upper_bound (last bs))"

section \<open>The contract of the database\<close>

text \<open>
  What the generator and the report rely on: after a batch of named transactions
  is inserted for a chain, a lookup of one of their names on that chain returns
  the last of them, and every other lookup is unchanged.  \<open>storable\<close> delimits
  the entries the database can give back.
\<close>

locale db_ops =
  fixes insert_named :: "'d \<Rightarrow> named_tx list \<Rightarrow> 'c \<Rightarrow> ('d, 'e) rresult"
    and get_named :: "'d \<Rightarrow> string \<Rightarrow> 'c \<Rightarrow> (named_tx option, 'e) rresult"
    and storable :: "'c \<Rightarrow> named_tx \<Rightarrow> bool"
    and invar :: "'d \<Rightarrow> bool"
  assumes get_named_insert:
      "invar d \<Longrightarrow> list_all (storable c) ts \<Longrightarrow> insert_named d ts c = Ok d' \<Longrightarrow>
        get_named d' n c' =
          (if c' = c \<and> n \<in> nt_name ` set ts
           then Ok (Some (last (filter (\<lambda>t. nt_name t = n) ts))) else get_named d n c')"
    and invar_insert:
      "invar d \<Longrightarrow> list_all (storable c) ts \<Longrightarrow> insert_named d ts c = Ok d' \<Longrightarrow> invar d'"
begin

lemma get_named_last:
  assumes "invar d" and "list_all (storable c) (ts @ t # us)" and "insert_named d (ts @ t # us) c = Ok d'"
    and "nt_name t \<notin> nt_name ` set us"
  shows "get_named d' (nt_name t) c = Ok (Some t)"
proof -
  have "filter (\<lambda>u. nt_name u = nt_name t) us = []"
    using assms(4) by (metis (mono_tags, lifting) filter_False imageI)
  then show ?thesis
    using get_named_insert [OF assms(1-3), of "nt_name t" c] by simp
qed

lemma redeploy_wins:
  assumes "invar d" and "storable c t" and "storable c u" and "nt_name u = nt_name t"
    and "insert_named d [t] c = Ok d1" and "insert_named d1 [u] c = Ok d2"
  shows "get_named d2 (nt_name t) c = Ok (Some u)"
  using get_named_insert [OF _ _ assms(6), of "nt_name t" c] invar_insert [OF assms(1) _ assms(5)]
    assms(2,3,4) by simp

end

section \<open>Properties\<close>

lemma is_ws_space: "is_ws (CHR '' '')"
  by (simp add: is_ws_def)

lemma show_nat_not_ws: "c \<in> set (show_nat n) \<Longrightarrow> \<not> is_ws c"
  using show_nat_chars is_digit_props by blast

lemma show_nat_ends: "\<not> is_ws (hd (show_nat n))" "\<not> is_ws (last (show_nat n))"
  by (rule show_nat_not_ws [of _ n], simp)+

lemma trim_show_nat: "trim (show_nat n) = show_nat n"
  by (rule trim_id) (simp_all add: show_nat_ends)

lemma trim_fmt_duration: "trim (fmt_duration d) = fmt_duration d"
proof (rule trim_id)
  show "fmt_duration d \<noteq> []" by (cases d) simp_all
  show "\<not> is_ws (hd (fmt_duration d))" by (cases d) (simp_all add: hd_append show_nat_ends)
  show "\<not> is_ws (last (fmt_duration d))" by (cases d) (simp_all add: is_ws_def)
qed

lemma parse_u64_show: "parse_u64 (show_nat (unat v)) = Some v"
proof -
  have "unat v < 2 ^ 64" using unsigned_less [of v] by simp
  then show ?thesis by (simp add: parse_u64_def parse_uint_show_nat)
qed

lemma strip_suffix_append [simp]: "strip_suffix (u @ suf) suf = Some u"
  by (simp add: strip_suffix_def suffix_def)

lemma strip_seconds_blocks: "strip_suffix (u @ '' blocks'') '' seconds'' = None"
proof -
  have "\<not> suffix '' seconds'' (u @ '' blocks'')"
  proof
    assume "suffix '' seconds'' (u @ '' blocks'')"
    then obtain w where "u @ '' blocks'' = w @ '' seconds''" by (auto simp: suffix_def)
    then have "rev (u @ '' blocks'') = rev (w @ '' seconds'')" by simp
    then show False by simp
  qed
  then show ?thesis by (simp add: strip_suffix_def)
qed

lemma duration_parse_print: "duration_from_string (fmt_duration d) = Ok d"
proof (cases d)
  case (Seconds v)
  have "trim (show_nat (unat v) @ '' seconds'') = show_nat (unat v) @ '' seconds''"
    using trim_fmt_duration [of "Seconds v"] by simp
  then show ?thesis
    by (simp add: duration_from_string_def Let_def trim_show_nat parse_u64_show Seconds)
next
  case (Blocks v)
  have "trim (show_nat (unat v) @ '' blocks'') = show_nat (unat v) @ '' blocks''"
    using trim_fmt_duration [of "Blocks v"] by simp
  then show ?thesis
    by (simp add: duration_from_string_def Let_def strip_seconds_blocks trim_show_nat
        parse_u64_show Blocks)
qed

text \<open>
  The text form of a spam duration, which is what the \<open>runs\<close> table stores,
  round-trips: parsing what \<open>Display\<close> prints gives back the same number and the
  same unit, for every 64-bit count, and never panics.
\<close>

theorem duration_roundtrip: "duration_from_string (fmt_duration d) = Ok d"
  by (rule duration_parse_print)

end
