(* ===== verification/Tx_Actor.thy ===== *)
theory Tx_Actor
  imports Db_Types
begin

text \<open>
  \<open>crates/core/src/spammer/tx_actor.rs\<close>, the message handler: an actor that owns
  the cache of pending transactions.  It answers API messages, flush requests
  and flashblock marks, one at a time and in any order (\<open>tokio::select!\<close>).  The
  database behind \<open>insert_run_txs\<close> is a parameter; a handler returns the new
  state together with its result, because a failing handler has already changed
  the state.  A oneshot reply channel is the Boolean that says whether its
  receiver still exists.
\<close>

section \<open>Data\<close>

record pending_run_tx =
  ptx_tx_hash :: tx_hash
  ptx_start_timestamp_ms :: u128
  ptx_end_timestamp_ms :: "u128 option"
  ptx_kind :: "string option"
  ptx_error :: "string option"
  ptx_flashblock_timestamp_ms :: "u128 option"
  ptx_flashblock_index :: "u64 option"

definition pending_run_tx_new ::
  "tx_hash \<Rightarrow> u128 \<Rightarrow> string option \<Rightarrow> string option \<Rightarrow> pending_run_tx" where
  "pending_run_tx_new h start kind error =
     \<lparr>ptx_tx_hash = h, ptx_start_timestamp_ms = start, ptx_end_timestamp_ms = None,
      ptx_kind = kind, ptx_error = error,
      ptx_flashblock_timestamp_ms = None, ptx_flashblock_index = None\<rparr>"

definition try_into_u64 :: "u128 \<Rightarrow> (u64, 'e) rresult" where
  "try_into_u64 n = (if unat n < 2 ^ 64 then Ok (word_of_nat (unat n)) else Panic)"

definition opt_try_into_u64 :: "u128 option \<Rightarrow> (u64 option, 'e) rresult" where
  "opt_try_into_u64 x =
     (case x of None \<Rightarrow> Ok None | Some n \<Rightarrow> rmap Some (try_into_u64 n))"

definition flashblock_latency_ms :: "pending_run_tx \<Rightarrow> (u64 option, 'e) rresult" where
  "flashblock_latency_ms t =
     (case ptx_flashblock_timestamp_ms t of
        None \<Rightarrow> Ok None
      | Some fb_ts \<Rightarrow>
          rmap Some (try_into_u64 (saturating_sub fb_ts (ptx_start_timestamp_ms t))))"

text \<open>\<open>pending_tx_timeout\<close> is a \<open>Duration\<close>, here its number of whole seconds.\<close>

record actor_context =
  ctx_run_id :: u64
  ctx_target_block :: u64
  ctx_pending_tx_timeout :: u64

definition actor_context_new :: "u64 \<Rightarrow> u64 \<Rightarrow> actor_context" where
  "actor_context_new target_block run_id =
     \<lparr>ctx_run_id = run_id, ctx_target_block = target_block, ctx_pending_tx_timeout = 30\<rparr>"

definition with_pending_tx_timeout :: "actor_context \<Rightarrow> u64 \<Rightarrow> actor_context" where
  "with_pending_tx_timeout c timeout = c\<lparr>ctx_pending_tx_timeout := timeout\<rparr>"

datatype actor_status = ShuttingDown | Running

datatype tx_actor_message =
    InitCtx actor_context
  | GetCacheLen bool
  | SentRunTx tx_hash u128 "u128 option" "string option" "string option" bool
  | RemovedRunTx tx_hash bool
  | DumpCache u64 bool
  | Stop bool
  | ReplaceFlushReceiver
  | ClearCache bool

datatype flush_request =
    GetSnapshot
  | RemoveConfirmed "tx_hash list" u64

record flashblock_mark =
  fm_tx_hash :: tx_hash
  fm_timestamp_ms :: u128
  fm_index :: u64

datatype reply =
    NoReply
  | ReplyLen nat
  | ReplyUnit
  | ReplyTxs "run_tx list"

datatype callback_error =
    OneshotSend string
  | CacheRemoveTx tx_hash
  | DumpCacheFailed "run_tx list"
  | CallbackDb db_error
  | AuthProviderError string
  | JoinError
  | TxActorSendMessage
  | OneshotReceive
  | StopError

record 'd tx_actor =
  receiver_open :: bool
  flush_receiver_open :: bool
  flashblock_receiver_open :: bool
  db :: 'd
  cache :: "(tx_hash, pending_run_tx) hmap"
  ctx :: "actor_context option"
  status :: actor_status
  pending_flashblock_marks :: "(tx_hash, u128 \<times> u64) hmap"

definition MAX_PENDING_FLASHBLOCK_MARKS :: nat where
  "MAX_PENDING_FLASHBLOCK_MARKS = 1024"

type_synonym 'd db_insert = "'d \<Rightarrow> u64 \<Rightarrow> run_tx list \<Rightarrow> ('d, db_error) rresult"

definition tx_actor_new :: "'d \<Rightarrow> 'd tx_actor" where
  "tx_actor_new d =
     \<lparr>receiver_open = True, flush_receiver_open = True, flashblock_receiver_open = True,
      db = d, cache = hm_empty, ctx = None, status = Running,
      pending_flashblock_marks = hm_empty\<rparr>"

section \<open>Handlers\<close>

definition run_tx_of_pending :: "pending_run_tx \<Rightarrow> (run_tx, 'e) rresult" where
  "run_tx_of_pending t =
     rbind (try_into_u64 (ptx_start_timestamp_ms t)) (\<lambda>start.
     rbind (opt_try_into_u64 (ptx_end_timestamp_ms t)) (\<lambda>end_ts.
     rbind (flashblock_latency_ms t) (\<lambda>latency.
     Ok \<lparr>rt_tx_hash = ptx_tx_hash t, rt_start_timestamp_ms = start,
         rt_end_timestamp_ms = end_ts, rt_block_number = None, rt_gas_used = None,
         rt_kind = ptx_kind t, rt_error = ptx_error t,
         rt_flashblock_latency_ms = latency, rt_flashblock_index = ptx_flashblock_index t\<rparr>)))"

definition dump_cache ::
  "'d db_insert \<Rightarrow> 'd tx_actor \<Rightarrow> u64 \<Rightarrow> 'd tx_actor \<times> (run_tx list, callback_error) rresult" where
  "dump_cache insert_run_txs a run_id =
     (case rmapM run_tx_of_pending (hm_values (cache a)) of
        Ok run_txs \<Rightarrow>
          (case insert_run_txs (db a) run_id run_txs of
             Ok d \<Rightarrow> (a\<lparr>db := d, cache := hm_empty\<rparr>, Ok run_txs)
           | Err e \<Rightarrow> (a, Err (CallbackDb e))
           | Panic \<Rightarrow> (a, Panic))
      | Err e \<Rightarrow> (a, Err e)
      | Panic \<Rightarrow> (a, Panic))"

definition remove_cached_tx ::
  "'d tx_actor \<Rightarrow> tx_hash \<Rightarrow> 'd tx_actor \<times> (unit, callback_error) rresult" where
  "remove_cached_tx a h =
     (case hm_get (cache a) h of
        Some _ \<Rightarrow> (a\<lparr>cache := hm_remove h (cache a)\<rparr>, Ok ())
      | None \<Rightarrow> (a, Err (CacheRemoveTx h)))"

definition oneshot_send :: "bool \<Rightarrow> string \<Rightarrow> reply \<Rightarrow> (reply, callback_error) rresult" where
  "oneshot_send alive label r = (if alive then Ok r else Err (OneshotSend label))"

definition sent_run_tx ::
  "'d tx_actor \<Rightarrow> tx_hash \<Rightarrow> u128 \<Rightarrow> u128 option \<Rightarrow> string option \<Rightarrow> string option
    \<Rightarrow> 'd tx_actor" where
  "sent_run_tx a h start end_ts kind error =
     (let (fb_timestamp, fb_index, marks) =
            (case hm_get (pending_flashblock_marks a) h of
               Some (ts, idx) \<Rightarrow>
                 (Some ts, Some idx, hm_remove h (pending_flashblock_marks a))
             | None \<Rightarrow> (None, None, pending_flashblock_marks a));
          run_tx = \<lparr>ptx_tx_hash = h, ptx_start_timestamp_ms = start,
                    ptx_end_timestamp_ms = end_ts, ptx_kind = kind, ptx_error = error,
                    ptx_flashblock_timestamp_ms = fb_timestamp,
                    ptx_flashblock_index = fb_index\<rparr>
      in a\<lparr>pending_flashblock_marks := marks, cache := hm_insert h run_tx (cache a)\<rparr>)"

fun handle_message ::
  "'d db_insert \<Rightarrow> 'd tx_actor \<Rightarrow> tx_actor_message
    \<Rightarrow> 'd tx_actor \<times> (reply, callback_error) rresult" where
  "handle_message ins a (GetCacheLen alive) =
     (a, oneshot_send alive ''GetCacheLen'' (ReplyLen (length (cache a))))"
| "handle_message ins a (InitCtx c) = (a\<lparr>ctx := Some c\<rparr>, Ok NoReply)"
| "handle_message ins a (Stop alive) =
     (a\<lparr>flashblock_receiver_open := False, flush_receiver_open := False,
        receiver_open := False, status := ShuttingDown\<rparr>,
      oneshot_send alive ''Stop'' ReplyUnit)"
| "handle_message ins a (SentRunTx h start end_ts kind error alive) =
     (sent_run_tx a h start end_ts kind error, oneshot_send alive ''SentRunTx'' ReplyUnit)"
| "handle_message ins a (RemovedRunTx h alive) =
     (case remove_cached_tx a h of
        (a', Ok _) \<Rightarrow> (a', oneshot_send alive ''RemovedRunTx'' ReplyUnit)
      | (a', Err e) \<Rightarrow> (a', Err e)
      | (a', Panic) \<Rightarrow> (a', Panic))"
| "handle_message ins a (DumpCache run_id alive) =
     (case dump_cache ins a run_id of
        (a', Ok res) \<Rightarrow> (a', if alive then Ok (ReplyTxs res) else Err (DumpCacheFailed res))
      | (a', Err e) \<Rightarrow> (a', Err e)
      | (a', Panic) \<Rightarrow> (a', Panic))"
| "handle_message ins a ReplaceFlushReceiver = (a\<lparr>flush_receiver_open := True\<rparr>, Ok NoReply)"
| "handle_message ins a (ClearCache alive) =
     (a\<lparr>cache := hm_empty\<rparr>, oneshot_send alive ''ClearCache'' ReplyUnit)"

definition bump_target_block :: "u64 \<Rightarrow> actor_context \<Rightarrow> actor_context" where
  "bump_target_block n c = (if n > ctx_target_block c then c\<lparr>ctx_target_block := n\<rparr> else c)"

text \<open>\<open>now_ms\<close> is the system clock at the time of the request.\<close>

fun handle_flush_request :: "u128 \<Rightarrow> 'd tx_actor \<Rightarrow> flush_request \<Rightarrow> 'd tx_actor" where
  "handle_flush_request now_ms a GetSnapshot = a"
| "handle_flush_request now_ms a (RemoveConfirmed hashes new_target_block) =
     a\<lparr>cache := hm_remove_all hashes (cache a),
       pending_flashblock_marks :=
         hm_retain (\<lambda>_ (ts, _). saturating_sub now_ms ts < 20000)
           (hm_remove_all hashes (pending_flashblock_marks a)),
       ctx := map_option (bump_target_block new_target_block) (ctx a)\<rparr>"

definition snapshot :: "'d tx_actor \<Rightarrow> pending_run_tx list \<times> actor_context option" where
  "snapshot a = (hm_values (cache a), ctx a)"

definition mark_pending :: "flashblock_mark \<Rightarrow> pending_run_tx \<Rightarrow> pending_run_tx" where
  "mark_pending m t =
     (if ptx_flashblock_timestamp_ms t = None
      then t\<lparr>ptx_flashblock_timestamp_ms := Some (fm_timestamp_ms m),
             ptx_flashblock_index := Some (fm_index m)\<rparr>
      else t)"

definition handle_flashblock_mark :: "'d tx_actor \<Rightarrow> flashblock_mark \<Rightarrow> 'd tx_actor" where
  "handle_flashblock_mark a m =
     (case hm_get (cache a) (fm_tx_hash m) of
        Some t \<Rightarrow> a\<lparr>cache := hm_insert (fm_tx_hash m) (mark_pending m t) (cache a)\<rparr>
      | None \<Rightarrow>
          if MAX_PENDING_FLASHBLOCK_MARKS \<le> length (pending_flashblock_marks a) then a
          else if hm_contains (pending_flashblock_marks a) (fm_tx_hash m) then a
          else a\<lparr>pending_flashblock_marks :=
                  hm_insert (fm_tx_hash m) (fm_timestamp_ms m, fm_index m)
                    (pending_flashblock_marks a)\<rparr>)"

section \<open>The main loop\<close>

datatype actor_event =
    EvStop
  | EvMessage tx_actor_message
  | EvFlush u128 flush_request
  | EvMark flashblock_mark

text \<open>
  \<open>actor_step ins a e a' r\<close>: the loop, in a state that is not shutting down,
  takes event \<open>e\<close>.  \<open>r\<close> is the result of the handler; an error ends the loop.
\<close>

inductive actor_step ::
  "'d db_insert \<Rightarrow> 'd tx_actor \<Rightarrow> actor_event \<Rightarrow> 'd tx_actor \<Rightarrow> (reply, callback_error) rresult \<Rightarrow> bool"
  for ins where
  step_stop: "status a = Running \<Longrightarrow> handle_message ins a (Stop True) = (a', r)
    \<Longrightarrow> actor_step ins a EvStop a' r"
| step_message: "status a = Running \<Longrightarrow> receiver_open a \<Longrightarrow> handle_message ins a m = (a', r)
    \<Longrightarrow> actor_step ins a (EvMessage m) a' r"
| step_flush: "status a = Running \<Longrightarrow> flush_receiver_open a
    \<Longrightarrow> actor_step ins a (EvFlush now req) (handle_flush_request now a req) (Ok NoReply)"
| step_mark: "status a = Running \<Longrightarrow> flashblock_receiver_open a
    \<Longrightarrow> actor_step ins a (EvMark m) (handle_flashblock_mark a m) (Ok NoReply)"

inductive_cases actor_stepE: "actor_step ins a e a' r"

text \<open>\<open>actor_runs ins a es a'\<close>: the loop handles the events \<open>es\<close>, each with success.\<close>

inductive actor_runs ::
  "'d db_insert \<Rightarrow> 'd tx_actor \<Rightarrow> actor_event list \<Rightarrow> 'd tx_actor \<Rightarrow> bool" for ins where
  runs_nil: "actor_runs ins a [] a"
| runs_snoc: "actor_runs ins a es b \<Longrightarrow> actor_step ins b e c (Ok r) \<Longrightarrow> actor_runs ins a (es @ [e]) c"

section \<open>Invariant\<close>

definition marks_consistent :: "pending_run_tx \<Rightarrow> bool" where
  "marks_consistent t \<longleftrightarrow>
     (ptx_flashblock_timestamp_ms t = None \<longleftrightarrow> ptx_flashblock_index t = None)"

text \<open>
  Keys are distinct; an entry is stored under its own hash, with a flashblock
  timestamp exactly when it has an index; a hash that is in the cache has no
  buffered mark; the buffer respects its bound.
\<close>

definition actor_inv :: "'d tx_actor \<Rightarrow> bool" where
  "actor_inv a \<longleftrightarrow>
     hm_wf (cache a) \<and> hm_wf (pending_flashblock_marks a) \<and>
     (\<forall>h t. hm_get (cache a) h = Some t \<longrightarrow>
        ptx_tx_hash t = h \<and> marks_consistent t \<and> hm_get (pending_flashblock_marks a) h = None) \<and>
     length (pending_flashblock_marks a) \<le> MAX_PENDING_FLASHBLOCK_MARKS"

lemma actor_invI:
  assumes "hm_wf (cache a)" and "hm_wf (pending_flashblock_marks a)"
    and "\<And>h t. hm_get (cache a) h = Some t \<Longrightarrow>
        ptx_tx_hash t = h \<and> marks_consistent t \<and> hm_get (pending_flashblock_marks a) h = None"
    and "length (pending_flashblock_marks a) \<le> MAX_PENDING_FLASHBLOCK_MARKS"
  shows "actor_inv a"
  using assms by (simp add: actor_inv_def)

lemma actor_inv_new [simp]: "actor_inv (tx_actor_new d)"
  by (simp add: actor_inv_def tx_actor_new_def)

lemma actor_inv_frame:
  assumes "actor_inv a" and "cache b = cache a"
    and "pending_flashblock_marks b = pending_flashblock_marks a"
  shows "actor_inv b"
  using assms by (simp add: actor_inv_def)

lemma actor_inv_clear:
  assumes "actor_inv a" and "cache b = hm_empty"
    and "pending_flashblock_marks b = pending_flashblock_marks a"
  shows "actor_inv b"
  using assms by (simp add: actor_inv_def)

lemma actor_inv_shrink:
  assumes "actor_inv a" and "hm_wf (cache b)" and "hm_wf (pending_flashblock_marks b)"
    and "\<And>h t. hm_get (cache b) h = Some t \<Longrightarrow> hm_get (cache a) h = Some t"
    and "\<And>h. hm_get (pending_flashblock_marks a) h = None
          \<Longrightarrow> hm_get (pending_flashblock_marks b) h = None"
    and "length (pending_flashblock_marks b) \<le> length (pending_flashblock_marks a)"
  shows "actor_inv b"
  using assms unfolding actor_inv_def by (meson order_trans)

lemma sent_run_tx_inv:
  assumes "actor_inv a"
  shows "actor_inv (sent_run_tx a h start end_ts kind error)"
proof -
  note inv = assms [unfolded actor_inv_def]
  show ?thesis
  proof (cases "hm_get (pending_flashblock_marks a) h")
    case None
    with inv show ?thesis
      by (auto simp: sent_run_tx_def actor_inv_def marks_consistent_def)
  next
    case (Some p)
    obtain ts idx where p: "p = (ts, idx)" by fastforce
    have "length (hm_remove h (pending_flashblock_marks a)) \<le> MAX_PENDING_FLASHBLOCK_MARKS"
      using hm_len_remove_le inv by (meson order_trans)
    with inv Some p show ?thesis
      by (auto simp: sent_run_tx_def actor_inv_def marks_consistent_def)
  qed
qed

lemma dump_cache_cases:
  assumes "dump_cache ins a run_id = (a', r)"
  obtains d run_txs where "r = Ok run_txs" "a' = a\<lparr>db := d, cache := hm_empty\<rparr>"
      "rmapM (run_tx_of_pending :: _ \<Rightarrow> (run_tx, callback_error) rresult) (hm_values (cache a)) = Ok run_txs"
      "ins (db a) run_id run_txs = Ok d"
    | "a' = a" "\<And>x. r \<noteq> Ok x"
proof (cases "rmapM run_tx_of_pending (hm_values (cache a)) :: (run_tx list, callback_error) rresult")
  case rows: (Ok run_txs)
  show ?thesis
  proof (cases "ins (db a) run_id run_txs")
    case (Ok d)
    with assms rows have "r = Ok run_txs" and "a' = a\<lparr>db := d, cache := hm_empty\<rparr>"
      by (auto simp: dump_cache_def)
    with that(1) rows Ok show ?thesis by blast
  qed (use assms that(2) rows in \<open>auto simp: dump_cache_def\<close>)
next
  case (Err e)
  with assms have "a' = a" and "r = Err e" by (simp_all add: dump_cache_def)
  with that(2) show ?thesis by simp
next
  case Panic
  with assms have "a' = a" and "r = Panic" by (simp_all add: dump_cache_def)
  with that(2) show ?thesis by simp
qed

lemma dump_cache_inv:
  assumes "actor_inv a" and "dump_cache ins a run_id = (a', r)"
  shows "actor_inv a'"
  using assms(2)
proof (cases rule: dump_cache_cases)
  case (1 d run_txs)
  then show ?thesis using assms(1) by (simp add: actor_inv_def)
next
  case 2
  then show ?thesis using assms(1) by simp
qed

lemma remove_cached_tx_inv:
  assumes "actor_inv a" and "remove_cached_tx a h = (a', r)"
  shows "actor_inv a'"
  using assms
  by (auto simp: remove_cached_tx_def actor_inv_def split: option.splits if_splits)

lemma handle_message_inv:
  assumes "actor_inv a" and "handle_message ins a m = (a', r)"
  shows "actor_inv a'"
proof (cases m)
  case (SentRunTx h start end_ts kind error alive)
  with assms show ?thesis using sent_run_tx_inv by auto
next
  case (RemovedRunTx h alive)
  with assms show ?thesis
    by (auto split: prod.splits rresult.splits dest: remove_cached_tx_inv)
next
  case (DumpCache run_id alive)
  with assms show ?thesis
    by (auto split: prod.splits rresult.splits dest: dump_cache_inv)
qed (use assms in \<open>auto simp: actor_inv_def\<close>)

lemma handle_flush_request_inv:
  assumes "actor_inv a"
  shows "actor_inv (handle_flush_request now a req)"
proof (cases req)
  case GetSnapshot
  with assms show ?thesis by simp
next
  case (RemoveConfirmed hs n)
  have wf: "hm_wf (hm_remove_all hs (pending_flashblock_marks a))"
    using assms by (simp add: actor_inv_def)
  have "length (hm_retain p (hm_remove_all hs (pending_flashblock_marks a)))
      \<le> length (pending_flashblock_marks a)" for p
    using hm_len_retain_le hm_len_remove_all_le by (meson order_trans)
  with assms wf RemoveConfirmed show ?thesis
    by (intro actor_inv_shrink [OF assms])
       (auto simp: actor_inv_def hm_get_retain split: option.splits if_splits)
qed

lemma handle_flashblock_mark_inv:
  assumes "actor_inv a"
  shows "actor_inv (handle_flashblock_mark a m)"
proof (cases "hm_get (cache a) (fm_tx_hash m)")
  case (Some t)
  with assms show ?thesis
    by (auto simp: handle_flashblock_mark_def actor_inv_def mark_pending_def marks_consistent_def)
next
  case None
  have "length (hm_insert k v (pending_flashblock_marks a))
      \<le> Suc (length (pending_flashblock_marks a))" for k v
    by (rule hm_len_insert_le)
  then have len: "\<not> MAX_PENDING_FLASHBLOCK_MARKS \<le> length (pending_flashblock_marks a) \<Longrightarrow>
      length (hm_insert k v (pending_flashblock_marks a)) \<le> MAX_PENDING_FLASHBLOCK_MARKS" for k v
    by (meson Suc_leI le_trans not_less)
  show ?thesis
    using assms None len by (auto simp: handle_flashblock_mark_def actor_inv_def)
qed

lemma actor_step_inv: "actor_step ins a e a' r \<Longrightarrow> actor_inv a \<Longrightarrow> actor_inv a'"
  by (induction rule: actor_step.induct)
     (auto simp del: handle_message.simps
       intro: handle_message_inv handle_flush_request_inv handle_flashblock_mark_inv)

lemma actor_runs_inv: "actor_runs ins a es b \<Longrightarrow> actor_inv a \<Longrightarrow> actor_inv b"
  by (induction rule: actor_runs.induct) (auto dest: actor_step_inv)

section \<open>What dumping the cache records\<close>

text \<open>The row a cached transaction is dumped as, when its timestamps fit 64 bits.\<close>

definition timestamps_fit :: "pending_run_tx \<Rightarrow> bool" where
  "timestamps_fit t \<longleftrightarrow>
     unat (ptx_start_timestamp_ms t) < 2 ^ 64 \<and>
     (\<forall>e. ptx_end_timestamp_ms t = Some e \<longrightarrow> unat e < 2 ^ 64) \<and>
     (\<forall>f. ptx_flashblock_timestamp_ms t = Some f \<longrightarrow> unat f < 2 ^ 64)"

definition dump_row :: "pending_run_tx \<Rightarrow> run_tx" where
  "dump_row t =
     \<lparr>rt_tx_hash = ptx_tx_hash t,
      rt_start_timestamp_ms = word_of_nat (unat (ptx_start_timestamp_ms t)),
      rt_end_timestamp_ms = map_option (\<lambda>e. word_of_nat (unat e)) (ptx_end_timestamp_ms t),
      rt_block_number = None, rt_gas_used = None,
      rt_kind = ptx_kind t, rt_error = ptx_error t,
      rt_flashblock_latency_ms =
        map_option (\<lambda>f. word_of_nat (unat f - unat (ptx_start_timestamp_ms t)))
          (ptx_flashblock_timestamp_ms t),
      rt_flashblock_index = ptx_flashblock_index t\<rparr>"

lemma flashblock_latency_fits:
  "timestamps_fit t \<Longrightarrow> flashblock_latency_ms t =
     Ok (map_option (\<lambda>f. word_of_nat (unat f - unat (ptx_start_timestamp_ms t)))
          (ptx_flashblock_timestamp_ms t))"
  by (auto simp: timestamps_fit_def flashblock_latency_ms_def try_into_u64_def split: option.splits)

lemma run_tx_of_pending_fits: "timestamps_fit t \<Longrightarrow> run_tx_of_pending t = Ok (dump_row t)"
  by (auto simp: run_tx_of_pending_def flashblock_latency_fits dump_row_def timestamps_fit_def
      try_into_u64_def opt_try_into_u64_def split: option.splits)

lemma cache_keys_hashes: "actor_inv a \<Longrightarrow> map ptx_tx_hash (hm_values (cache a)) = hm_keys (cache a)"
  by (auto simp: actor_inv_def hm_values_def hm_keys_def hm_in_iff [symmetric])

lemma dump_rows_hashes: "actor_inv a \<Longrightarrow>
    map rt_tx_hash (map dump_row (hm_values (cache a))) = hm_keys (cache a)"
  using cache_keys_hashes [of a] by (simp add: dump_row_def comp_def)

lemma hm_remove_insert_absent:
  "hm_get m k = None \<Longrightarrow> hm_remove k (hm_insert k v m) = m"
  unfolding hm_get_def hm_remove_def hm_insert_def
  by (induction m) (auto simp: map_of_eq_None_iff AList.delete_eq split: if_splits)

lemma hm_insert_insert [simp]: "hm_insert k v (hm_insert k w m) = hm_insert k v m"
  unfolding hm_insert_def by (induction m) auto

lemma hm_insert_same: "hm_get m k = Some v \<Longrightarrow> hm_insert k v m = m"
  unfolding hm_get_def hm_insert_def by (induction m) (auto split: if_splits)

lemma mark_pending_twice:
  "fm_tx_hash m2 = fm_tx_hash m \<Longrightarrow> mark_pending m2 (mark_pending m t) = mark_pending m t"
  by (simp add: mark_pending_def)

section \<open>Properties\<close>

text \<open>
  C2. In every state the actor's main loop reaches from a fresh actor, through any
  sequence of API messages, flush requests and flashblock marks, the pending
  cache has one entry per hash, stored under its own hash; an entry has a
  flashblock timestamp exactly when it has a flashblock index; no hash is both
  cached and in the buffer of early marks; and the buffer never holds more than
  \<open>MAX_PENDING_FLASHBLOCK_MARKS\<close> marks.
\<close>

theorem actor_reachable_invariant:
  assumes "actor_runs ins (tx_actor_new d) es a"
  shows "actor_inv a"
  using assms by (rule actor_runs_inv) simp

text \<open>A run in which a mark arrives before the transaction it belongs to.\<close>

definition demo_insert :: "run_tx list db_insert" where
  "demo_insert d run_id txs = Ok (d @ txs)"

definition demo_mark :: flashblock_mark where
  "demo_mark = \<lparr>fm_tx_hash = 7, fm_timestamp_ms = 1500, fm_index = 3\<rparr>"

definition demo_events :: "actor_event list" where
  "demo_events = [EvMark demo_mark, EvMessage (SentRunTx 7 1000 None None None True)]"

definition demo_actor :: "run_tx list tx_actor" where
  "demo_actor = sent_run_tx (handle_flashblock_mark (tx_actor_new []) demo_mark) 7 1000 None None None"

lemma demo_runs: "actor_runs demo_insert (tx_actor_new []) demo_events demo_actor"
proof -
  let ?b = "handle_flashblock_mark (tx_actor_new [] :: run_tx list tx_actor) demo_mark"
  have "actor_step demo_insert (tx_actor_new []) (EvMark demo_mark) ?b (Ok NoReply)"
    by (rule step_mark) (simp_all add: tx_actor_new_def)
  from runs_snoc [OF runs_nil this] have "actor_runs demo_insert (tx_actor_new []) [EvMark demo_mark] ?b"
    by simp
  moreover have "actor_step demo_insert ?b (EvMessage (SentRunTx 7 1000 None None None True))
      demo_actor (Ok ReplyUnit)"
    by (rule step_message)
       (simp_all add: handle_flashblock_mark_def tx_actor_new_def demo_actor_def oneshot_send_def)
  ultimately show ?thesis
    unfolding demo_events_def by (auto dest: runs_snoc)
qed

theorem actor_reachable_invariant_witness:
  "actor_runs demo_insert (tx_actor_new []) demo_events demo_actor \<and> actor_inv demo_actor"
  using demo_runs actor_reachable_invariant [OF demo_runs] by blast

text \<open>
  C3. Dumping the cache loses nothing and repeats nothing.  For a well-formed
  actor whose timestamps fit 64 bits, the rows written for the run are one per
  cached transaction, under pairwise distinct hashes that are exactly the keys
  of the cache, with the flashblock latency clipped at zero; when the database
  accepts them the cache is emptied and the rows are returned, and when it
  fails the actor keeps its cache and its database unchanged.
\<close>

theorem dump_cache_records_all:
  assumes "actor_inv a" and "list_all timestamps_fit (hm_values (cache a))"
  shows "dump_cache ins a run_id =
      (case ins (db a) run_id (map dump_row (hm_values (cache a))) of
         Ok d \<Rightarrow> (a\<lparr>db := d, cache := hm_empty\<rparr>, Ok (map dump_row (hm_values (cache a))))
       | Err e \<Rightarrow> (a, Err (CallbackDb e))
       | Panic \<Rightarrow> (a, Panic)) \<and>
    map rt_tx_hash (map dump_row (hm_values (cache a))) = hm_keys (cache a) \<and>
    distinct (hm_keys (cache a))"
proof -
  have "rmapM run_tx_of_pending (hm_values (cache a))
      = (Ok (map dump_row (hm_values (cache a))) :: (run_tx list, callback_error) rresult)"
    using assms(2) by (intro rmapM_Ok_all) (simp add: list_all_iff run_tx_of_pending_fits)
  moreover have "map rt_tx_hash (map dump_row (hm_values (cache a))) = hm_keys (cache a)"
    using assms(1) by (rule dump_rows_hashes)
  moreover have "distinct (hm_keys (cache a))"
    using assms(1) by (simp add: actor_inv_def hm_wf_def hm_keys_def)
  ultimately show ?thesis by (simp add: dump_cache_def)
qed

lemma demo_actor_cache: "hm_values (cache demo_actor) =
    [\<lparr>ptx_tx_hash = 7, ptx_start_timestamp_ms = 1000, ptx_end_timestamp_ms = None,
      ptx_kind = None, ptx_error = None, ptx_flashblock_timestamp_ms = Some 1500,
      ptx_flashblock_index = Some 3\<rparr>]" "db demo_actor = []"
  by (simp_all add: demo_actor_def sent_run_tx_def handle_flashblock_mark_def tx_actor_new_def
      demo_mark_def hm_values_def hm_insert_def hm_get_def hm_contains_def
      MAX_PENDING_FLASHBLOCK_MARKS_def)

lemma demo_actor_inv: "actor_inv demo_actor"
  using demo_runs by (rule actor_runs_inv) simp

theorem dump_cache_records_all_witness:
  "rmap (map rt_flashblock_latency_ms) (snd (dump_cache demo_insert demo_actor 1)) = Ok [Some 500]"
  using dump_cache_records_all [OF demo_actor_inv, of demo_insert 1]
  by (simp add: demo_actor_cache timestamps_fit_def demo_insert_def dump_row_def)

text \<open>
  C5. A flashblock mark and the message that announces its transaction commute:
  when the hash is new and the buffer has room, the actor ends in the same state
  (cache, buffer, everything) whether the mark arrives before the transaction
  or after it.
\<close>

theorem mark_commutes_with_send:
  assumes "hm_get (cache a) (fm_tx_hash m) = None"
    and "hm_get (pending_flashblock_marks a) (fm_tx_hash m) = None"
    and "length (pending_flashblock_marks a) < MAX_PENDING_FLASHBLOCK_MARKS"
  shows "sent_run_tx (handle_flashblock_mark a m) (fm_tx_hash m) start end_ts kind error
    = handle_flashblock_mark (sent_run_tx a (fm_tx_hash m) start end_ts kind error) m"
  using assms
  by (simp add: sent_run_tx_def handle_flashblock_mark_def hm_contains_def mark_pending_def
      hm_remove_insert_absent)

theorem mark_commutes_with_send_witness:
  "sent_run_tx (handle_flashblock_mark (tx_actor_new ()) demo_mark) 7 1000 None None None
    = handle_flashblock_mark (sent_run_tx (tx_actor_new ()) 7 1000 None None None) demo_mark"
  using mark_commutes_with_send [of "tx_actor_new ()" demo_mark 1000 None None None]
  by (simp add: tx_actor_new_def demo_mark_def MAX_PENDING_FLASHBLOCK_MARKS_def)

text \<open>
  The first flashblock mark of a hash wins: a later mark for the same hash,
  with any timestamp and index, changes nothing at all, whether the first one
  hit the cache, went into the buffer, or was dropped because the buffer is full.
\<close>

theorem first_mark_wins:
  "handle_flashblock_mark (handle_flashblock_mark a m)
     (m\<lparr>fm_timestamp_ms := ts, fm_index := i\<rparr>) = handle_flashblock_mark a m"
  by (auto simp: handle_flashblock_mark_def hm_contains_def mark_pending_twice
      split: option.splits)

end
