(* ===== verification/Flush_Loop.thy ===== *)
theory Flush_Loop
  imports Tx_Actor
begin

text \<open>
  \<open>crates/core/src/spammer/tx_actor.rs\<close>, the flush task: it polls the chain for
  new blocks, matches their receipts with a snapshot of the cache, records the
  confirmed transactions in the database, tells the actor to drop them, and
  refreshes its snapshot.  The task is a state machine with one transition per
  point where it waits for the actor, so that every interleaving with the other
  messages of the actor is a sequence of steps of \<open>sys_step\<close>.  RPC responses,
  the cancellation flag and the state of the channels are inputs of a step.
\<close>

section \<open>Receipts of one block\<close>

record block =
  bk_number :: u64
  bk_timestamp :: u64
  bk_tx_hashes :: "tx_hash list"

record receipt =
  rc_transaction_hash :: tx_hash
  rc_status :: bool
  rc_gas_used :: u64

datatype poll = PollBlock block | PollNone | PollErr

text \<open>The wait for the block: \<open>None\<close> when the given polls have not found it yet.\<close>

fun wait_block :: "poll list \<Rightarrow> block option" where
  "wait_block [] = None"
| "wait_block (PollBlock b # ps) = Some b"
| "wait_block (p # ps) = wait_block ps"

text \<open>
  \<open>block_receipts\<close> is \<open>Some\<close> for \<open>Ok(Some(receipts))\<close> and \<open>None\<close> for the two other
  responses, which fall back to one request per transaction.
\<close>

definition receipts_of ::
  "receipt list option \<Rightarrow> (tx_hash \<Rightarrow> receipt option) \<Rightarrow> block \<Rightarrow> receipt list" where
  "receipts_of block_receipts fetch b =
     (case block_receipts of
        Some rs \<Rightarrow> rs
      | None \<Rightarrow> List.map_filter fetch (bk_tx_hashes b))"

definition confirmed_of :: "pending_run_tx list \<Rightarrow> receipt list \<Rightarrow> (pending_run_tx \<times> receipt) list" where
  "confirmed_of snap receipts =
     List.map_filter (\<lambda>t.
       map_option (\<lambda>r. (t, r)) (find (\<lambda>r. rc_transaction_hash r = ptx_tx_hash t) receipts)) snap"

definition get_tx_error :: "receipt \<Rightarrow> pending_run_tx \<Rightarrow> string option" where
  "get_tx_error r t = (if rc_status r then ptx_error t else Some ''execution reverted'')"

definition block_row :: "block \<Rightarrow> pending_run_tx \<times> receipt \<Rightarrow> (run_tx, 'e) rresult" where
  "block_row b = (\<lambda>(t, r).
     rbind (try_into_u64 (ptx_start_timestamp_ms t)) (\<lambda>start.
     rbind (opt_try_into_u64 (ptx_end_timestamp_ms t)) (\<lambda>end_ts.
     rbind (flashblock_latency_ms t) (\<lambda>latency.
     Ok \<lparr>rt_tx_hash = ptx_tx_hash t, rt_start_timestamp_ms = start,
         rt_end_timestamp_ms =
           Some (case end_ts of Some ms \<Rightarrow> ms | None \<Rightarrow> bk_timestamp b * 1000),
         rt_block_number = Some (bk_number b), rt_gas_used = Some (rc_gas_used r),
         rt_kind = ptx_kind t, rt_error = get_tx_error r t,
         rt_flashblock_latency_ms = latency, rt_flashblock_index = ptx_flashblock_index t\<rparr>))))"

definition process_block_receipts ::
  "'d db_insert \<Rightarrow> 'd \<Rightarrow> pending_run_tx list \<Rightarrow> u64 \<Rightarrow> poll list \<Rightarrow> receipt list option
    \<Rightarrow> (tx_hash \<Rightarrow> receipt option) \<Rightarrow> ('d \<times> (tx_hash list, db_error) rresult) option" where
  "process_block_receipts ins d snap run_id polls block_receipts fetch =
     (if snap = [] then Some (d, Ok [])
      else case wait_block polls of
        None \<Rightarrow> None
      | Some b \<Rightarrow>
          let confirmed = confirmed_of snap (receipts_of block_receipts fetch b)
          in Some (case rmapM (block_row b) confirmed of
               Ok run_txs \<Rightarrow>
                 if run_txs = [] then (d, Ok [])
                 else (case ins d run_id run_txs of
                         Ok d' \<Rightarrow> (d', Ok (map (\<lambda>(t, _). ptx_tx_hash t) confirmed))
                       | Err e \<Rightarrow> (d, Err e)
                       | Panic \<Rightarrow> (d, Panic))
             | Err e \<Rightarrow> (d, Err e)
             | Panic \<Rightarrow> (d, Panic)))"

section \<open>The flush task\<close>

datatype flush_pc =
    FlWaitCtx
  | FlLoop
  | FlBlock "pending_run_tx list" u64 u64 u64 u64
  | FlRemove "tx_hash list" "pending_run_tx list" u64 u64 u64 u64
  | FlRefresh "pending_run_tx list" u64 u64 u64 u64
  | FlDone

record flush_task =
  fl_pc :: flush_pc
  fl_target_block :: u64
  fl_stale_blocks :: u64
  fl_last_pending_count :: u64

definition STALE_BLOCK_LIMIT :: u64 where
  "STALE_BLOCK_LIMIT = 6"

definition flush_new :: flush_task where
  "flush_new = \<lparr>fl_pc = FlWaitCtx, fl_target_block = 0, fl_stale_blocks = 0,
                fl_last_pending_count = - 1\<rparr>"

text \<open>A request to the actor: answered, not accepted, or accepted and dropped.\<close>

datatype channel = ChOk | ChSendErr | ChReplyErr

type_synonym snap = "pending_run_tx list \<times> actor_context option"

fun flush_wait_ctx :: "channel \<Rightarrow> snap \<Rightarrow> flush_task \<Rightarrow> flush_task" where
  "flush_wait_ctx ChOk (_, Some c) f = f\<lparr>fl_pc := FlLoop, fl_target_block := ctx_target_block c\<rparr>"
| "flush_wait_ctx ChOk (_, None) f = f"
| "flush_wait_ctx _ _ f = f\<lparr>fl_pc := FlDone\<rparr>"

definition flush_idle :: "bool \<Rightarrow> channel \<Rightarrow> snap \<Rightarrow> flush_task \<Rightarrow> flush_task" where
  "flush_idle cancelled ch sn f =
     (if cancelled
      then case ch of
             ChSendErr \<Rightarrow> f\<lparr>fl_pc := FlDone\<rparr>
           | ChReplyErr \<Rightarrow> f
           | ChOk \<Rightarrow> if fst sn = [] then f\<lparr>fl_pc := FlDone\<rparr> else f
      else f)"

definition flush_new_blocks :: "bool \<Rightarrow> u64 \<Rightarrow> channel \<Rightarrow> snap \<Rightarrow> flush_task \<Rightarrow> flush_task" where
  "flush_new_blocks cancelled new_block ch sn f =
     (case ch of
        ChOk \<Rightarrow>
          (case snd sn of
             None \<Rightarrow> f
           | Some c \<Rightarrow>
               let f' = f\<lparr>fl_target_block := ctx_target_block c\<rparr>
               in if new_block \<le> ctx_target_block c then f'
                  else if cancelled \<and> fst sn = [] then f'\<lparr>fl_pc := FlDone\<rparr>
                  else f'\<lparr>fl_pc := FlBlock (fst sn) (ctx_run_id c) (ctx_target_block c)
                                    new_block (ctx_target_block c)\<rparr>)
      | _ \<Rightarrow> f\<lparr>fl_pc := FlDone\<rparr>)"

text \<open>One tick at the top of phase 2; \<open>None\<close> is a failed \<open>get_block_number\<close>.\<close>

definition flush_tick ::
  "bool \<Rightarrow> u64 option \<Rightarrow> channel \<Rightarrow> snap \<Rightarrow> flush_task \<Rightarrow> flush_task" where
  "flush_tick cancelled block_number ch sn f =
     (case block_number of
        None \<Rightarrow> f
      | Some new_block \<Rightarrow>
          if new_block \<le> fl_target_block f then flush_idle cancelled ch sn f
          else flush_new_blocks cancelled new_block ch sn f)"

definition flush_after_blocks ::
  "bool \<Rightarrow> pending_run_tx list \<Rightarrow> u64 \<Rightarrow> u64 \<Rightarrow> flush_task \<Rightarrow> flush_task" where
  "flush_after_blocks cancelled cache_snapshot new_block blocks_start f =
     (let f1 = f\<lparr>fl_pc := FlLoop, fl_target_block := max (fl_target_block f) new_block\<rparr>
      in if cancelled \<and> cache_snapshot \<noteq> []
         then let current_count = (word_of_nat (length cache_snapshot) :: u64);
                  f2 = (if current_count = fl_last_pending_count f1
                        then f1\<lparr>fl_stale_blocks := fl_stale_blocks f1
                                  + max (saturating_sub new_block blocks_start) 1\<rparr>
                        else f1\<lparr>fl_stale_blocks := 0, fl_last_pending_count := current_count\<rparr>)
              in if STALE_BLOCK_LIMIT \<le> fl_stale_blocks f2 then f2\<lparr>fl_pc := FlDone\<rparr> else f2
         else f1)"

definition flush_next_block ::
  "bool \<Rightarrow> pending_run_tx list \<Rightarrow> u64 \<Rightarrow> u64 \<Rightarrow> u64 \<Rightarrow> u64 \<Rightarrow> flush_task \<Rightarrow> flush_task" where
  "flush_next_block cancelled sn run_id bn new_block blocks_start f =
     (if bn + 1 < new_block
      then f\<lparr>fl_pc := FlBlock sn run_id (bn + 1) new_block blocks_start\<rparr>
      else flush_after_blocks cancelled sn new_block blocks_start f)"

definition flush_processed ::
  "bool \<Rightarrow> (tx_hash list, db_error) rresult \<Rightarrow> pending_run_tx list \<Rightarrow> u64 \<Rightarrow> u64 \<Rightarrow> u64 \<Rightarrow> u64
    \<Rightarrow> flush_task \<Rightarrow> flush_task" where
  "flush_processed cancelled r sn run_id bn new_block blocks_start f =
     (case r of
        Ok confirmed \<Rightarrow> f\<lparr>fl_pc := FlRemove confirmed sn run_id bn new_block blocks_start\<rparr>
      | Err e \<Rightarrow> flush_next_block cancelled sn run_id bn new_block blocks_start f
      | Panic \<Rightarrow> f\<lparr>fl_pc := FlDone\<rparr>)"

definition flush_refresh ::
  "bool \<Rightarrow> channel \<Rightarrow> snap \<Rightarrow> pending_run_tx list \<Rightarrow> u64 \<Rightarrow> u64 \<Rightarrow> u64 \<Rightarrow> u64
    \<Rightarrow> flush_task \<Rightarrow> flush_task" where
  "flush_refresh cancelled ch sn old run_id bn new_block blocks_start f =
     (case ch of
        ChSendErr \<Rightarrow> f\<lparr>fl_pc := FlDone\<rparr>
      | ChReplyErr \<Rightarrow> flush_after_blocks cancelled old new_block blocks_start f
      | ChOk \<Rightarrow>
          (case snd sn of
             None \<Rightarrow> flush_after_blocks cancelled old new_block blocks_start f
           | Some c \<Rightarrow>
               let f' = f\<lparr>fl_target_block := ctx_target_block c\<rparr>
               in if fst sn = []
                  then if cancelled then f'\<lparr>fl_pc := FlDone\<rparr>
                       else flush_after_blocks cancelled (fst sn) new_block blocks_start f'
                  else flush_next_block cancelled (fst sn) run_id bn new_block blocks_start f'))"

section \<open>The actor and the flush task together\<close>

record 'd sys =
  sys_actor :: "'d tx_actor"
  sys_flush :: flush_task

definition sys_new :: "'d \<Rightarrow> 'd sys" where
  "sys_new d = \<lparr>sys_actor = tx_actor_new d, sys_flush = flush_new\<rparr>"

fun is_flush_event :: "actor_event \<Rightarrow> bool" where
  "is_flush_event (EvFlush now r) = True"
| "is_flush_event _ = False"

datatype sys_label = LActor actor_event | LFlush | LRemove | LRestart

text \<open>
  \<open>LRestart\<close> is \<open>TxActorHandle::restart_flush\<close> once the previous loop has ended:
  the actor gets a new channel and a fresh flush task starts.
\<close>

inductive sys_step :: "'d db_insert \<Rightarrow> 'd sys \<Rightarrow> sys_label \<Rightarrow> 'd sys \<Rightarrow> bool" for ins where
  sys_actor_step:
    "actor_step ins (sys_actor s) e a' r \<Longrightarrow> \<not> is_flush_event e
      \<Longrightarrow> sys_step ins s (LActor e) (s\<lparr>sys_actor := a'\<rparr>)"
| sys_wait:
    "fl_pc (sys_flush s) = FlWaitCtx
      \<Longrightarrow> sys_step ins s LFlush
            (s\<lparr>sys_flush := flush_wait_ctx ch (snapshot (sys_actor s)) (sys_flush s)\<rparr>)"
| sys_tick:
    "fl_pc (sys_flush s) = FlLoop
      \<Longrightarrow> sys_step ins s LFlush
            (s\<lparr>sys_flush := flush_tick cancelled bn ch (snapshot (sys_actor s)) (sys_flush s)\<rparr>)"
| sys_process:
    "fl_pc (sys_flush s) = FlBlock sn run_id bn nb st
      \<Longrightarrow> process_block_receipts ins (db (sys_actor s)) sn run_id polls brs fetch = Some (d', r)
      \<Longrightarrow> sys_step ins s LFlush
            (s\<lparr>sys_actor := (sys_actor s)\<lparr>db := d'\<rparr>,
               sys_flush := flush_processed cancelled r sn run_id bn nb st (sys_flush s)\<rparr>)"
| sys_remove:
    "fl_pc (sys_flush s) = FlRemove hs sn run_id bn nb st
      \<Longrightarrow> sys_step ins s LRemove
            (s\<lparr>sys_actor := (if status (sys_actor s) = Running \<and> flush_receiver_open (sys_actor s)
                 then handle_flush_request now (sys_actor s) (RemoveConfirmed hs (bn + 1))
                 else sys_actor s),
               sys_flush := (sys_flush s)\<lparr>fl_pc := FlRefresh sn run_id bn nb st\<rparr>\<rparr>)"
| sys_refresh:
    "fl_pc (sys_flush s) = FlRefresh sn run_id bn nb st
      \<Longrightarrow> sys_step ins s LFlush
            (s\<lparr>sys_flush := flush_refresh cancelled ch (snapshot (sys_actor s)) sn run_id bn nb st
                 (sys_flush s)\<rparr>)"
| sys_restart:
    "fl_pc (sys_flush s) = FlDone \<Longrightarrow> status (sys_actor s) = Running
      \<Longrightarrow> sys_step ins s LRestart
            (s\<lparr>sys_actor := (sys_actor s)\<lparr>flush_receiver_open := True\<rparr>, sys_flush := flush_new\<rparr>)"

inductive sys_reachable :: "'d db_insert \<Rightarrow> 'd \<Rightarrow> 'd sys \<Rightarrow> bool" for ins d0 where
  reach_init: "sys_reachable ins d0 (sys_new d0)"
| reach_step: "sys_reachable ins d0 s \<Longrightarrow> sys_step ins s l t \<Longrightarrow> sys_reachable ins d0 t"

section \<open>What one block records\<close>

lemma confirmed_of_fst: "map fst (confirmed_of snap rs)
    = filter (\<lambda>t. \<exists>r \<in> set rs. rc_transaction_hash r = ptx_tx_hash t) snap"
proof (induction snap)
  case Nil
  then show ?case by (simp add: confirmed_of_def List.map_filter_simps)
next
  case (Cons t snap)
  show ?case
  proof (cases "find (\<lambda>r. rc_transaction_hash r = ptx_tx_hash t) rs")
    case None
    then have "\<not> (\<exists>r \<in> set rs. rc_transaction_hash r = ptx_tx_hash t)"
      by (auto simp: find_None_iff)
    with None Cons show ?thesis by (simp add: confirmed_of_def List.map_filter_simps)
  next
    case (Some r)
    then have "\<exists>r \<in> set rs. rc_transaction_hash r = ptx_tx_hash t"
      by (auto simp: find_Some_iff)
    with Some Cons show ?thesis by (simp add: confirmed_of_def List.map_filter_simps)
  qed
qed

lemma block_row_Ok:
  "block_row b (t, r) = Ok row \<Longrightarrow>
     rt_tx_hash row = ptx_tx_hash t \<and> rt_block_number row = Some (bk_number b) \<and>
     rt_gas_used row = Some (rc_gas_used r) \<and> rt_error row = get_tx_error r t \<and>
     rt_kind row = ptx_kind t"
  by (auto simp: block_row_def)

lemma block_rows_hashes:
  assumes "rmapM (block_row b) cs = Ok rows"
  shows "map rt_tx_hash rows = map (\<lambda>(t, _). ptx_tx_hash t) cs"
    and "\<forall>row \<in> set rows. rt_block_number row = Some (bk_number b)"
proof -
  from assms [unfolded rmapM_eq_Ok] have "list_all2 (\<lambda>c row. ptx_tx_hash (fst c) = rt_tx_hash row \<and>
      rt_block_number row = Some (bk_number b)) cs rows"
    by (rule list_all2_mono) (auto dest: block_row_Ok)
  then show "map rt_tx_hash rows = map (\<lambda>(t, _). ptx_tx_hash t) cs"
    and "\<forall>row \<in> set rows. rt_block_number row = Some (bk_number b)"
    by (induction rule: list_all2_induct) auto
qed

lemma process_block_receipts_cases:
  assumes "process_block_receipts ins d snap run_id polls brs fetch = Some (d', r)"
  obtains (nothing) "d' = d" "r = Ok []"
    | (recorded) b rows where "wait_block polls = Some b" "ins d run_id rows = Ok d'"
        "rmapM (block_row b :: _ \<Rightarrow> (run_tx, db_error) rresult)
           (confirmed_of snap (receipts_of brs fetch b)) = Ok rows"
        "r = Ok (map rt_tx_hash rows)"
        "\<forall>row \<in> set rows. rt_block_number row = Some (bk_number b)"
    | (failed) "d' = d" "\<And>hs. r \<noteq> Ok hs"
proof (cases "snap = [] \<or> wait_block polls = None")
  case True
  with assms that(1) show ?thesis
    by (auto simp: process_block_receipts_def split: if_splits)
next
  case False
  then obtain b where b: "wait_block polls = Some b" by auto
  let ?cs = "confirmed_of snap (receipts_of brs fetch b)"
  show ?thesis
  proof (cases "rmapM (block_row b) ?cs :: (run_tx list, db_error) rresult")
    case rows: (Ok rows)
    note hashes = block_rows_hashes [OF rows]
    show ?thesis
    proof (cases "ins d run_id rows")
      case (Ok d2)
      show ?thesis
      proof (cases "rows = []")
        case True
        with assms False b rows that(1) show ?thesis
          by (auto simp: process_block_receipts_def Let_def)
      next
        case ne: False
        with assms False b rows Ok hashes(1) have "d' = d2" and "r = Ok (map rt_tx_hash rows)"
          by (auto simp: process_block_receipts_def Let_def)
        with that(2) b rows Ok hashes(2) show ?thesis by blast
      qed
    qed (use assms False b rows that(1,3) in
        \<open>auto simp: process_block_receipts_def Let_def split: if_splits\<close>)
  next
    case (Err e)
    with assms False b have "d' = d" and "r = Err e"
      by (simp_all add: process_block_receipts_def Let_def)
    with that(3) show ?thesis by simp
  next
    case Panic
    with assms False b have "d' = d" and "r = Panic"
      by (simp_all add: process_block_receipts_def Let_def)
    with that(3) show ?thesis by simp
  qed
qed

lemma sys_step_inv: "sys_step ins s l t \<Longrightarrow> actor_inv (sys_actor s) \<Longrightarrow> actor_inv (sys_actor t)"
proof (induction rule: sys_step.induct)
  case (sys_actor_step s e a' r)
  then show ?case by (simp add: actor_step_inv)
next
  case (sys_remove s hs sn run_id bn nb st now)
  then show ?case by (simp add: handle_flush_request_inv del: handle_flush_request.simps)
qed (simp_all add: actor_inv_def)

lemma sys_reachable_inv: "sys_reachable ins d0 s \<Longrightarrow> actor_inv (sys_actor s)"
  by (induction rule: sys_reachable.induct) (simp_all add: sys_new_def sys_step_inv)

section \<open>No pending transaction is lost\<close>

text \<open>A hash is recorded when some run has a row for it.\<close>

definition recorded :: "('d \<Rightarrow> u64 \<Rightarrow> run_tx list) \<Rightarrow> 'd \<Rightarrow> tx_hash \<Rightarrow> bool" where
  "recorded rows d h \<longleftrightarrow> (\<exists>r. h \<in> rt_tx_hash ` set (rows d r))"

text \<open>A hash is confirmed in a run when the run has a row for it with a block number.\<close>

definition confirmed_in :: "('d \<Rightarrow> u64 \<Rightarrow> run_tx list) \<Rightarrow> 'd \<Rightarrow> u64 \<Rightarrow> tx_hash \<Rightarrow> bool" where
  "confirmed_in rows d r h \<longleftrightarrow> (\<exists>row \<in> set (rows d r). rt_tx_hash row = h \<and> rt_block_number row \<noteq> None)"

lemma confirmed_in_recorded: "confirmed_in rows d r h \<Longrightarrow> recorded rows d h"
  by (auto simp: confirmed_in_def recorded_def)

definition no_remove_pc :: "flush_task \<Rightarrow> bool" where
  "no_remove_pc f \<longleftrightarrow> (\<forall>hs sn run_id bn nb st. fl_pc f \<noteq> FlRemove hs sn run_id bn nb st)"

lemma no_remove_after_blocks [simp]: "no_remove_pc (flush_after_blocks cancelled sn nb st f)"
  by (simp add: no_remove_pc_def flush_after_blocks_def Let_def)

lemma no_remove_next_block [simp]: "no_remove_pc (flush_next_block cancelled sn run_id bn nb st f)"
  by (simp add: flush_next_block_def no_remove_pc_def [of "_\<lparr>fl_pc := _\<rparr>"])

lemma no_remove_refresh [simp]:
  "no_remove_pc (flush_refresh cancelled ch sn old run_id bn nb st f)"
  by (auto simp: flush_refresh_def Let_def no_remove_pc_def [of "_\<lparr>fl_pc := _\<rparr>"]
      no_remove_pc_def [of "_\<lparr>fl_pc := _, fl_target_block := _\<rparr>"]
      split: channel.splits option.splits)

lemma no_remove_tick [simp]:
  "no_remove_pc f \<Longrightarrow> no_remove_pc (flush_tick cancelled bn ch sn f)"
  by (simp add: flush_tick_def flush_idle_def flush_new_blocks_def no_remove_pc_def Let_def
      split: option.splits channel.splits)

lemma no_remove_wait [simp]: "no_remove_pc f \<Longrightarrow> no_remove_pc (flush_wait_ctx ch sn f)"
  by (cases ch; cases sn rule: prod.exhaust; cases "snd sn") (auto simp: no_remove_pc_def)

lemma no_remove_pcI:
  "fl_pc f \<in> {FlWaitCtx, FlLoop, FlDone} \<Longrightarrow> no_remove_pc f"
  by (auto simp: no_remove_pc_def)

lemma flush_processed_remove:
  "fl_pc (flush_processed cancelled r sn run_id bn nb st f) = FlRemove hs sn' run' bn' nb' st'
    \<Longrightarrow> r = Ok hs \<and> run' = run_id"
  using no_remove_next_block by (auto simp: flush_processed_def no_remove_pc_def split: rresult.splits)

lemma run_tx_of_pending_hash: "run_tx_of_pending t = Ok row \<Longrightarrow> rt_tx_hash row = ptx_tx_hash t"
  by (auto simp: run_tx_of_pending_def)

lemma dump_rows_cover:
  assumes "rmapM run_tx_of_pending ts = Ok rows" and "t \<in> set ts"
  shows "ptx_tx_hash t \<in> rt_tx_hash ` set rows"
proof -
  from assms(1) have "list_all2 (\<lambda>t row. ptx_tx_hash t = rt_tx_hash row) ts rows"
    unfolding rmapM_eq_Ok by (rule list_all2_mono) (simp add: run_tx_of_pending_hash)
  then have "map ptx_tx_hash ts = map rt_tx_hash rows"
    by (induction rule: list_all2_induct) auto
  with assms(2) show ?thesis by (metis imageI list.set_map)
qed

lemma handle_message_db:
  "handle_message ins a m = (a', r) \<Longrightarrow> db a' = db a \<or> (\<exists>run ts. ins (db a) run ts = Ok (db a'))"
proof (cases m)
  case (DumpCache run_id alive)
  assume eq: "handle_message ins a m = (a', r)"
  then obtain r' where "dump_cache ins a run_id = (a', r')"
    using DumpCache by (auto split: prod.splits rresult.splits)
  then show ?thesis by (cases rule: dump_cache_cases) auto
qed (auto simp: sent_run_tx_def remove_cached_tx_def Let_def split: option.splits prod.splits if_splits)

lemma actor_step_db:
  assumes "actor_step ins a e a' r"
  shows "db a' = db a \<or> (\<exists>run ts. ins (db a) run ts = Ok (db a'))"
  using assms
proof (induction rule: actor_step.induct)
  case (step_flush a now req)
  then show ?case by (cases req) simp_all
next
  case (step_mark a m)
  then show ?case by (simp add: handle_flashblock_mark_def split: option.splits)
qed (auto simp del: handle_message.simps dest: handle_message_db)

lemma sys_step_remove_pc:
  assumes "sys_step ins s l t" and "fl_pc (sys_flush t) = FlRemove hs sn run_id bn nb st"
  shows "sys_flush t = sys_flush s \<or>
    (\<exists>d snap polls brs fetch. process_block_receipts ins d snap run_id polls brs fetch
       = Some (db (sys_actor t), Ok hs))"
  using assms
proof (induction rule: sys_step.induct)
  case (sys_process s sn' run' bn' nb' st' polls brs fetch d' r cancelled)
  then have "r = Ok hs \<and> run_id = run'" by (auto dest: flush_processed_remove)
  with sys_process(2) show ?case by auto
next
  case (sys_wait s ch)
  then have "no_remove_pc (flush_wait_ctx ch (snapshot (sys_actor s)) (sys_flush s))"
    by (simp add: no_remove_pcI)
  with sys_wait show ?case by (simp add: no_remove_pc_def)
next
  case (sys_tick s cancelled bn' ch)
  then have "no_remove_pc (flush_tick cancelled bn' ch (snapshot (sys_actor s)) (sys_flush s))"
    by (simp add: no_remove_pcI)
  with sys_tick show ?case by (simp add: no_remove_pc_def)
next
  case (sys_refresh s sn' run' bn' nb' st' cancelled ch)
  have "no_remove_pc (flush_refresh cancelled ch (snapshot (sys_actor s)) sn' run' bn' nb' st'
      (sys_flush s))" by simp
  with sys_refresh show ?case by (simp add: no_remove_pc_def)
qed (simp_all add: flush_new_def)

text \<open>
  The flush task relies on one law of the database: an insert appends its rows to
  its run and leaves the other runs alone.  \<open>good\<close> marks the databases for which
  the law is promised; it is only ever lost, never regained.
\<close>

locale run_store =
  fixes ins :: "'d db_insert"
    and rows :: "'d \<Rightarrow> u64 \<Rightarrow> run_tx list"
    and good :: "'d \<Rightarrow> bool"
  assumes rows_insert:
    "ins d r ts = Ok d' \<Longrightarrow> good d' \<Longrightarrow> rows d' r' = (if r' = r then rows d r @ ts else rows d r')"
    and good_insert: "ins d r ts = Ok d' \<Longrightarrow> good d' \<Longrightarrow> good d"
begin

lemma rows_mono: "ins d r ts = Ok d' \<Longrightarrow> good d' \<Longrightarrow> set (rows d r') \<subseteq> set (rows d' r')"
  by (auto simp: rows_insert)

lemma rows_new: "ins d r ts = Ok d' \<Longrightarrow> good d' \<Longrightarrow> set ts \<subseteq> set (rows d' r)"
  by (auto simp: rows_insert)

lemma actor_step_rows_mono:
  assumes "actor_step ins a e a' r" and "good (db a')"
  shows "good (db a)" and "set (rows (db a) run) \<subseteq> set (rows (db a') run)"
  using actor_step_db [OF assms(1)] assms(2) good_insert rows_mono by (metis, metis order_refl)

lemma sys_step_rows_mono:
  "sys_step ins s l t \<Longrightarrow> good (db (sys_actor t)) \<Longrightarrow>
     good (db (sys_actor s)) \<and> set (rows (db (sys_actor s)) run) \<subseteq> set (rows (db (sys_actor t)) run)"
proof (induction rule: sys_step.induct)
  case (sys_actor_step s e a' r)
  then show ?case using actor_step_rows_mono by fastforce
next
  case (sys_process s sn run_id bn nb st polls brs fetch d' r cancelled)
  from sys_process(2) show ?case
  proof (cases rule: process_block_receipts_cases)
    case (recorded b rs)
    then show ?thesis using sys_process(3) rows_mono good_insert by simp
  qed (use sys_process(3) in simp_all)
qed (auto split: if_splits)

lemma confirmed_in_mono:
  "sys_step ins s l t \<Longrightarrow> good (db (sys_actor t)) \<Longrightarrow> confirmed_in rows (db (sys_actor s)) r h
    \<Longrightarrow> confirmed_in rows (db (sys_actor t)) r h"
  using sys_step_rows_mono by (fastforce simp: confirmed_in_def)

lemma processed_confirmed:
  assumes "process_block_receipts ins d snap run_id polls brs fetch = Some (d', Ok hs)"
    and "good d'" and "h \<in> set hs"
  shows "confirmed_in rows d' run_id h"
  using assms(1)
proof (cases rule: process_block_receipts_cases)
  case (recorded b rs)
  then have "set rs \<subseteq> set (rows d' run_id)" using assms(2) by (intro rows_new)
  with recorded assms(3) show ?thesis by (auto simp: confirmed_in_def)
qed (use assms(3) in auto)

text \<open>Whenever the task is about to drop hashes from the cache, they are in the database.\<close>

lemma about_to_remove_confirmed:
  assumes "sys_reachable ins d0 s"
    and "fl_pc (sys_flush s) = FlRemove hs sn run_id bn nb st" and "h \<in> set hs"
    and "good (db (sys_actor s))"
  shows "confirmed_in rows (db (sys_actor s)) run_id h"
  using assms
proof (induction arbitrary: hs sn run_id bn nb st rule: sys_reachable.induct)
  case reach_init
  then show ?case by (simp add: sys_new_def flush_new_def)
next
  case (reach_step s l t)
  show ?case
  proof (cases "sys_flush t = sys_flush s")
    case True
    with reach_step have "confirmed_in rows (db (sys_actor s)) run_id h"
      using sys_step_rows_mono by metis
    with reach_step show ?thesis using confirmed_in_mono by blast
  next
    case False
    with reach_step sys_step_remove_pc obtain d snap polls brs fetch where
      "process_block_receipts ins d snap run_id polls brs fetch = Some (db (sys_actor t), Ok hs)"
      by metis
    with reach_step.prems(2,3) show ?thesis by (intro processed_confirmed)
  qed
qed

lemma dump_records:
  assumes "actor_inv a" and "dump_cache ins a run_id = (a', r)"
    and "hm_get (cache a) h \<noteq> None" and "hm_get (cache a') h = None" and "good (db a')"
  shows "recorded rows (db a') h"
  using assms(2)
proof (cases rule: dump_cache_cases)
  case (1 d rs)
  obtain t where t: "hm_get (cache a) h = Some t" using assms(3) by auto
  with assms(1) have "t \<in> set (hm_values (cache a))" and "ptx_tx_hash t = h"
    by (auto simp: actor_inv_def hm_values_iff)
  with 1(3) have "h \<in> rt_tx_hash ` set rs" using dump_rows_cover by metis
  moreover have "set rs \<subseteq> set (rows d run_id)" using 1(2,4) assms(5) by (intro rows_new) simp_all
  ultimately show ?thesis using 1(2) by (auto simp: recorded_def)
next
  case 2
  with assms show ?thesis by simp
qed

lemma actor_step_keeps:
  assumes "actor_step ins a e a' r" and "actor_inv a" and "\<not> is_flush_event e"
    and "hm_get (cache a) h \<noteq> None" and "hm_get (cache a') h = None" and "good (db a')"
  shows "recorded rows (db a') h \<or> (\<exists>alive. e = EvMessage (RemovedRunTx h alive)) \<or>
    (\<exists>alive. e = EvMessage (ClearCache alive))"
  using assms
proof (induction rule: actor_step.induct)
  case (step_message a m a' r)
  show ?case
  proof (cases m)
    case (DumpCache run_id alive)
    with step_message obtain r' where "dump_cache ins a run_id = (a', r')"
      by (auto split: prod.splits rresult.splits)
    with step_message show ?thesis using dump_records by blast
  next
    case (SentRunTx h' start end_ts kind error alive)
    with step_message show ?thesis
      by (auto simp: sent_run_tx_def Let_def split: prod.splits if_splits)
  next
    case (RemovedRunTx h' alive)
    with step_message show ?thesis
      by (auto simp: remove_cached_tx_def split: option.splits if_splits)
  qed (use step_message in auto)
qed (auto simp: handle_flashblock_mark_def split: option.splits if_splits)

lemma cached_until_recorded:
  assumes "sys_reachable ins d0 s" and "sys_step ins s l t"
    and "hm_get (cache (sys_actor s)) h \<noteq> None" and "hm_get (cache (sys_actor t)) h = None"
    and "good (db (sys_actor t))"
  shows "recorded rows (db (sys_actor t)) h \<or>
    (\<exists>alive. l = LActor (EvMessage (RemovedRunTx h alive))) \<or>
    (\<exists>alive. l = LActor (EvMessage (ClearCache alive)))"
  using assms(2)
proof (cases rule: sys_step.cases)
  case (sys_actor_step e a' r)
  with assms show ?thesis
    using actor_step_keeps [of "sys_actor s" e a' r h] sys_reachable_inv [OF assms(1)] by auto
next
  case (sys_remove hs sn run_id bn nb st now)
  with assms(3,4) have "h \<in> set hs" by (auto split: if_splits)
  moreover have "good (db (sys_actor s))" using sys_step_rows_mono assms(2,5) by blast
  ultimately have "confirmed_in rows (db (sys_actor s)) run_id h"
    using sys_remove assms(1) by (intro about_to_remove_confirmed) auto
  with assms(2,5) have "confirmed_in rows (db (sys_actor t)) run_id h"
    using confirmed_in_mono by blast
  then show ?thesis by (simp add: confirmed_in_recorded)
qed (use assms(3,4) in auto)

end

section \<open>The functional behaviour of one block\<close>

text \<open>The transactions of the snapshot that the block has a receipt for, and their rows.\<close>

definition has_receipt :: "receipt list \<Rightarrow> pending_run_tx \<Rightarrow> bool" where
  "has_receipt rs t \<longleftrightarrow> list_ex (\<lambda>r. rc_transaction_hash r = ptx_tx_hash t) rs"

definition receipt_of :: "receipt list \<Rightarrow> pending_run_tx \<Rightarrow> receipt" where
  "receipt_of rs t = the (find (\<lambda>r. rc_transaction_hash r = ptx_tx_hash t) rs)"

definition confirmed_row :: "block \<Rightarrow> receipt list \<Rightarrow> pending_run_tx \<Rightarrow> run_tx" where
  "confirmed_row b rs t =
     (dump_row t)\<lparr>rt_end_timestamp_ms :=
        Some (case ptx_end_timestamp_ms t of
                Some e \<Rightarrow> word_of_nat (unat e) | None \<Rightarrow> bk_timestamp b * 1000),
      rt_block_number := Some (bk_number b),
      rt_gas_used := Some (rc_gas_used (receipt_of rs t)),
      rt_error := (if rc_status (receipt_of rs t) then ptx_error t
                   else Some ''execution reverted'')\<rparr>"

lemma confirmed_of_eq:
  "confirmed_of snap rs = map (\<lambda>t. (t, receipt_of rs t)) (filter (has_receipt rs) snap)"
proof (induction snap)
  case Nil
  then show ?case by (simp add: confirmed_of_def List.map_filter_simps)
next
  case (Cons t snap)
  have "has_receipt rs t \<longleftrightarrow> find (\<lambda>r. rc_transaction_hash r = ptx_tx_hash t) rs \<noteq> None"
    by (auto simp: has_receipt_def find_None_iff list_ex_iff)
  with Cons show ?case
    by (auto simp: confirmed_of_def List.map_filter_simps receipt_of_def)
qed

lemma block_row_fits:
  "timestamps_fit t \<Longrightarrow> block_row b (t, receipt_of rs t) = Ok (confirmed_row b rs t)"
  by (auto simp: block_row_def flashblock_latency_fits confirmed_row_def dump_row_def
      timestamps_fit_def try_into_u64_def opt_try_into_u64_def get_tx_error_def
      split: option.splits)

lemma block_rows_fit:
  "list_all timestamps_fit snap \<Longrightarrow> rmapM (block_row b) (confirmed_of snap rs)
     = Ok (map (confirmed_row b rs) (filter (has_receipt rs) snap))"
  by (auto simp: confirmed_of_eq rmapM_eq_Ok list_all2_map1 list_all2_map2 list_all2_same
      list_all_iff block_row_fits)

section \<open>The stale-block limit\<close>

definition flush_rounds ::
  "(pending_run_tx list \<times> u64 \<times> u64) list \<Rightarrow> flush_task \<Rightarrow> flush_task" where
  "flush_rounds rs f = fold (\<lambda>(sn, nb, st). flush_after_blocks True sn nb st) rs f"

text \<open>A round leaves \<open>n\<close> transactions pending, with block numbers below \<open>2\<^sup>6\<^sup>3\<close>.\<close>

definition stale_round :: "u64 \<Rightarrow> pending_run_tx list \<times> u64 \<times> u64 \<Rightarrow> bool" where
  "stale_round n = (\<lambda>(sn, nb, st). sn \<noteq> [] \<and> word_of_nat (length sn) = n \<and> unat nb < 2 ^ 63)"

lemma stale_increment:
  fixes s nb st :: u64
  assumes "unat s < 6" and "unat nb < 2 ^ 63"
  shows "unat s < unat (s + max (saturating_sub nb st) 1)"
proof -
  let ?i = "max (saturating_sub nb st) (1 :: u64)"
  have le: "unat ?i \<le> max (unat nb) 1"
    by (auto simp: max_def)
  have "unat s + unat ?i < 2 ^ 64"
    using le assms by simp
  then have "unat (s + ?i) = unat s + unat ?i"
    by (simp add: unat_word_ariths)
  moreover have "unat ?i \<ge> 1"
    by (metis max.cobounded2 unsigned_1 word_le_nat_alt)
  ultimately show ?thesis by linarith
qed

lemma stale_round_step:
  assumes "stale_round n (sn, nb, st)" and "fl_last_pending_count f = n"
    and "unat (fl_stale_blocks f) < 6"
  shows "let g = flush_after_blocks True sn nb st f
         in fl_last_pending_count g = n \<and> unat (fl_stale_blocks f) < unat (fl_stale_blocks g) \<and>
            (fl_pc g = FlDone \<or> unat (fl_stale_blocks g) < 6)"
  using assms stale_increment [OF assms(3), of nb st]
  by (auto simp: stale_round_def flush_after_blocks_def Let_def STALE_BLOCK_LIMIT_def
      word_le_nat_alt)

lemma stale_rounds_done:
  assumes "list_all (stale_round n) rs" and "fl_last_pending_count f = n"
    and "unat (fl_stale_blocks f) < 6" and "6 - unat (fl_stale_blocks f) \<le> length rs"
  shows "\<exists>k \<le> 6 - unat (fl_stale_blocks f). fl_pc (flush_rounds (take k rs) f) = FlDone"
  using assms
proof (induction rs arbitrary: f)
  case Nil
  then show ?case by simp
next
  case (Cons r rs)
  obtain sn nb st where r: "r = (sn, nb, st)" by (cases r) auto
  let ?g = "flush_after_blocks True sn nb st f"
  have g: "fl_last_pending_count ?g = n" "unat (fl_stale_blocks f) < unat (fl_stale_blocks ?g)"
    "fl_pc ?g = FlDone \<or> unat (fl_stale_blocks ?g) < 6"
    using stale_round_step [of n sn nb st f] Cons.prems r by (simp_all add: Let_def)
  have step: "flush_rounds (take (Suc k) (r # rs)) f = flush_rounds (take k rs) ?g" for k
    by (simp add: flush_rounds_def r)
  show ?case
  proof (cases "fl_pc ?g = FlDone")
    case True
    then have "fl_pc (flush_rounds (take (Suc 0) (r # rs)) f) = FlDone"
      by (simp only: step) (simp add: flush_rounds_def)
    moreover have "Suc 0 \<le> 6 - unat (fl_stale_blocks f)" using Cons.prems(3) by linarith
    ultimately show ?thesis by blast
  next
    case False
    with g(3) have lt: "unat (fl_stale_blocks ?g) < 6" by simp
    with g(2) Cons.prems(4) have "6 - unat (fl_stale_blocks ?g) \<le> length rs" by simp
    with Cons.IH [of ?g] Cons.prems(1) g(1) lt obtain k where
      "k \<le> 6 - unat (fl_stale_blocks ?g)" "fl_pc (flush_rounds (take k rs) ?g) = FlDone"
      by auto
    with g(2) lt have "Suc k \<le> 6 - unat (fl_stale_blocks f)" by linarith
    with \<open>fl_pc (flush_rounds (take k rs) ?g) = FlDone\<close> step show ?thesis by metis
  qed
qed

section \<open>Properties\<close>

text \<open>
  C4. Matching one block against the cache snapshot does exactly this: of the
  snapshot's transactions, those the block has a receipt for become rows that
  carry the block's number, the receipt's gas and, for a failed receipt, the
  error \<open>execution reverted\<close>; all of them are written in one insert, their
  hashes are reported for removal only if that insert succeeds, and with
  nothing confirmed the database is not touched.
\<close>

theorem block_receipts_matched:
  assumes "wait_block polls = Some b" and "list_all timestamps_fit snap"
  shows "process_block_receipts ins d snap run_id polls brs fetch
    = (let rs = receipts_of brs fetch b; cs = filter (has_receipt rs) snap
       in Some (if cs = [] then (d, Ok [])
                else case ins d run_id (map (confirmed_row b rs) cs) of
                       Ok d' \<Rightarrow> (d', Ok (map ptx_tx_hash cs))
                     | Err e \<Rightarrow> (d, Err e)
                     | Panic \<Rightarrow> (d, Panic)))"
proof -
  let ?rs = "receipts_of brs fetch b"
  have rows: "rmapM (block_row b) (confirmed_of snap ?rs)
      = (Ok (map (confirmed_row b ?rs) (filter (has_receipt ?rs) snap)) :: (_, db_error) rresult)"
    using assms(2) by (rule block_rows_fit)
  have "map (\<lambda>(t, _). ptx_tx_hash t) (confirmed_of snap ?rs)
      = map ptx_tx_hash (filter (has_receipt ?rs) snap)"
    by (simp add: confirmed_of_eq)
  with rows show ?thesis
    by (auto simp: process_block_receipts_def Let_def assms(1) split: rresult.split)
qed

definition demo_block :: block where
  "demo_block = \<lparr>bk_number = 12, bk_timestamp = 100, bk_tx_hashes = [7, 9]\<rparr>"

definition demo_snapshot :: "pending_run_tx list" where
  "demo_snapshot = [pending_run_tx_new 5 1000 None None, pending_run_tx_new 7 1000 None None]"

definition demo_receipt :: receipt where
  "demo_receipt = \<lparr>rc_transaction_hash = 7, rc_status = False, rc_gas_used = 21000\<rparr>"

theorem block_receipts_matched_witness:
  "process_block_receipts (\<lambda>d r ts. Ok ts) [] demo_snapshot 1
     [PollNone, PollBlock demo_block] (Some [demo_receipt]) (\<lambda>_. None)
   = Some ([confirmed_row demo_block [demo_receipt] (pending_run_tx_new 7 1000 None None)], Ok [7])"
  by (subst block_receipts_matched [where b = demo_block])
     (simp_all add: demo_snapshot_def pending_run_tx_new_def timestamps_fit_def receipts_of_def
       has_receipt_def demo_receipt_def)

text \<open>
  C6. After cancellation the flush task does not wait forever for transactions
  that never land: as long as every round of new blocks leaves the same number
  of transactions pending (and block numbers stay below \<open>2\<^sup>6\<^sup>3\<close>), the task has
  ended after at most \<open>STALE_BLOCK_LIMIT\<close> further rounds, each of which counts
  at least one stale block.
\<close>

theorem stale_flush_ends:
  assumes "list_all (stale_round (fl_last_pending_count f)) rs"
    and "fl_stale_blocks f < STALE_BLOCK_LIMIT" and "unat STALE_BLOCK_LIMIT \<le> length rs"
  shows "\<exists>k \<le> unat STALE_BLOCK_LIMIT. fl_pc (flush_rounds (take k rs) f) = FlDone"
proof -
  have "unat (fl_stale_blocks f) < 6" and "6 \<le> length rs"
    using assms(2,3) by (simp_all add: STALE_BLOCK_LIMIT_def word_less_nat_alt)
  then have "unat (fl_stale_blocks f) < 6" and "6 - unat (fl_stale_blocks f) \<le> length rs"
    by linarith+
  from stale_rounds_done [OF assms(1) refl this] obtain k where
      "k \<le> 6 - unat (fl_stale_blocks f)" "fl_pc (flush_rounds (take k rs) f) = FlDone"
    by blast
  moreover have "unat STALE_BLOCK_LIMIT = 6" by (simp add: STALE_BLOCK_LIMIT_def)
  ultimately show ?thesis by (metis diff_le_self order_trans)
qed

definition demo_round :: "pending_run_tx list \<times> u64 \<times> u64" where
  "demo_round = (demo_snapshot, 10, 9)"

definition demo_flush :: flush_task where
  "demo_flush = flush_new\<lparr>fl_last_pending_count := 2\<rparr>"

theorem stale_flush_ends_witness:
  "\<exists>k \<le> unat STALE_BLOCK_LIMIT.
     fl_pc (flush_rounds (take k (replicate 6 demo_round)) demo_flush) = FlDone"
  by (rule stale_flush_ends)
     (simp_all add: demo_flush_def flush_new_def demo_round_def stale_round_def demo_snapshot_def
       STALE_BLOCK_LIMIT_def list_all_iff)

end
