(* ===== verification/Sqlite_Db.thy ===== *)
theory Sqlite_Db
  imports Flush_Loop
begin

text \<open>
  \<open>crates/sqlite_db/src/db.rs\<close>: the SQLite implementation of \<open>DbOps\<close>.  A table is
  the list of its rows in rowid order.  What the code leaves to SQLite is
  modelled where it is documented: an \<open>INTEGER PRIMARY KEY\<close> is one more than the
  largest id in use, an integer literal above \<open>2\<^sup>6\<^sup>3 - 1\<close> is stored as a real,
  an unsigned parameter above it is refused, an error inside a transaction
  leaves the tables as they were.  Statements built by string formatting around a
  text that contains a quote or a NUL are not values any more: what SQLite does
  with them is the parameter \<open>exec_raw\<close> (or \<open>raw_select\<close>), and \<open>injected\<close>
  records that it happened.  The hexadecimal codec of \<open>alloy\<close> is a parameter.
\<close>

section \<open>Errors, values, tables\<close>

fun db_error_of_sqlite :: "sqlite_error \<Rightarrow> db_error" where
  "db_error_of_sqlite (PoolError e) =
     DbInternal (''DB connection pool encountered an error: '' @ e)"
| "db_error_of_sqlite (ExecuteQuery e) = DbInternal (''failed to execute query: '' @ e)"
| "db_error_of_sqlite (NotFoundError e) = DbNotFound e"

datatype sqlval = SInt nat | SReal nat | SNull

definition DB_VERSION :: u64 where
  "DB_VERSION = 7"

record named_tx_row =
  nr_id :: nat
  nr_name :: string
  nr_tx_hash :: string
  nr_contract_address :: "string option"
  nr_rpc_url_id :: nat

record run_tx_row =
  rx_run_id :: sqlval
  rx_tx_hash :: string
  rx_start_timestamp :: sqlval
  rx_end_timestamp :: sqlval
  rx_block_number :: sqlval
  rx_gas_used :: sqlval
  rx_kind :: "string option"
  rx_error :: "string option"
  rx_flashblock_latency :: sqlval
  rx_flashblock_index :: sqlval

record spam_run_row =
  rw_id :: nat
  rw_timestamp :: string
  rw_tx_count :: nat
  rw_scenario_name :: string
  rw_campaign_id :: "string option"
  rw_campaign_name :: "string option"
  rw_stage_name :: "string option"
  rw_rpc_url :: string
  rw_txs_per_duration :: nat
  rw_duration :: string
  rw_timeout :: nat

record rpc_url_row =
  ru_id :: nat
  ru_url :: string
  ru_genesis_hash :: string

record latency_row =
  lt_run_id :: nat
  lt_upper_bound_secs :: f64
  lt_count :: sqlval
  lt_method :: string

record replay_row =
  rp_id :: nat
  rp_rpc_url_id :: nat
  rp_gas_per_second :: nat
  rp_gas_used :: nat

record sqlite_db =
  tables :: "string list"
  user_version :: u64
  tbl_runs :: "spam_run_row list"
  tbl_rpc_urls :: "rpc_url_row list"
  tbl_named_txs :: "named_tx_row list"
  tbl_run_txs :: "run_tx_row list"
  tbl_latency :: "latency_row list"
  tbl_replay_reports :: "replay_row list"
  injected :: bool

text \<open>
  The environment of a call: whether the pool has a connection, whether that
  connection enforces foreign keys, and, when \<open>last_insert_rowid\<close> is asked on
  another connection of the pool, what that connection answers.
\<close>

record sql_env =
  pool_available :: bool
  foreign_keys :: bool
  other_last_rowid :: "nat option"

record hex_codec =
  enc_hash :: "tx_hash \<Rightarrow> string"
  dec_hash :: "string \<Rightarrow> tx_hash option"
  enc_addr :: "address \<Rightarrow> string"
  dec_addr :: "string \<Rightarrow> address option"
  show_hash :: "tx_hash \<Rightarrow> string"

definition new_memory :: sqlite_db where
  "new_memory = \<lparr>tables = [], user_version = 0, tbl_runs = [], tbl_rpc_urls = [],
     tbl_named_txs = [], tbl_run_txs = [], tbl_latency = [], tbl_replay_reports = [],
     injected = False\<rparr>"

definition get_pool :: "sql_env \<Rightarrow> (unit, sqlite_error) rresult" where
  "get_pool e = (if pool_available e then Ok () else Err (PoolError ''timed out''))"

definition on_table ::
  "sql_env \<Rightarrow> sqlite_db \<Rightarrow> string \<Rightarrow> ('a, sqlite_error) rresult \<Rightarrow> ('a, sqlite_error) rresult" where
  "on_table e d t r =
     rbind (get_pool e) (\<lambda>_.
       if t \<in> set (tables d) then r else Err (ExecuteQuery (''no such table: '' @ t)))"

definition table_exists :: "sql_env \<Rightarrow> sqlite_db \<Rightarrow> string \<Rightarrow> bool" where
  "table_exists e d t = (pool_available e \<and> t \<in> set (tables d))"

definition next_rowid :: "nat list \<Rightarrow> nat" where
  "next_rowid ids = Suc (foldr max ids 0)"

definition order_by_id_desc_limit_1 :: "('r \<Rightarrow> nat) \<Rightarrow> 'r list \<Rightarrow> 'r option" where
  "order_by_id_desc_limit_1 f rs = (if rs = [] then None else Some (last (sort_key f rs)))"

definition sql_literal :: "u64 \<Rightarrow> sqlval" where
  "sql_literal v = (if unat v < 2 ^ 63 then SInt (unat v) else SReal (unat v))"

definition sql_literal_opt :: "u64 option \<Rightarrow> sqlval" where
  "sql_literal_opt v = (case v of Some n \<Rightarrow> sql_literal n | None \<Rightarrow> SNull)"

definition sql_param :: "u64 \<Rightarrow> (nat, sqlite_error) rresult" where
  "sql_param v = (if unat v < 2 ^ 63 then Ok (unat v)
                  else Err (ExecuteQuery ''out of range integral type conversion attempted''))"

fun get_u64 :: "sqlval \<Rightarrow> (u64, sqlite_error) rresult" where
  "get_u64 (SInt n) = Ok (word_of_nat n)"
| "get_u64 _ = Err (ExecuteQuery ''invalid column type'')"

fun get_opt_u64 :: "sqlval \<Rightarrow> (u64 option, sqlite_error) rresult" where
  "get_opt_u64 SNull = Ok None"
| "get_opt_u64 v = rmap Some (get_u64 v)"

definition plain_text :: "string \<Rightarrow> bool" where
  "plain_text s = (CHR 0x27 \<notin> set s \<and> CHR 0x00 \<notin> set s)"

definition val_or_null_u64 :: "u64 option \<Rightarrow> string" where
  "val_or_null_u64 v = (case v of Some n \<Rightarrow> show_nat (unat n) | None \<Rightarrow> ''NULL'')"

definition val_or_null_str :: "string option \<Rightarrow> string" where
  "val_or_null_str v =
     (case v of Some s \<Rightarrow> [CHR 0x27] @ s @ [CHR 0x27] | None \<Rightarrow> ''NULL'')"

section \<open>Tables and chains\<close>

definition create_tables :: "sql_env \<Rightarrow> sqlite_db \<Rightarrow> sqlite_db" where
  "create_tables e d =
     (if pool_available e
      then d\<lparr>user_version := DB_VERSION,
             tables := fold List.insert
               [''runs'', ''rpc_urls'', ''named_txs'', ''run_txs'', ''latency'', ''replay_reports'']
               (tables d)\<rparr>
      else d)"

definition version :: "sql_env \<Rightarrow> sqlite_db \<Rightarrow> u64" where
  "version e d = (if pool_available e then user_version d else 0)"

definition find_rpc_url :: "sqlite_db \<Rightarrow> string \<Rightarrow> string \<Rightarrow> nat option" where
  "find_rpc_url d url genesis =
     map_option ru_id (find (\<lambda>r. ru_url r = url \<and> ru_genesis_hash r = genesis) (tbl_rpc_urls d))"

definition insert_or_ignore_rpc_url :: "sqlite_db \<Rightarrow> string \<Rightarrow> string \<Rightarrow> sqlite_db" where
  "insert_or_ignore_rpc_url d url genesis =
     (if find_rpc_url d url genesis = None
      then d\<lparr>tbl_rpc_urls := tbl_rpc_urls d @
               [\<lparr>ru_id = next_rowid (map ru_id (tbl_rpc_urls d)), ru_url = url,
                 ru_genesis_hash = genesis\<rparr>]\<rparr>
      else d)"

text \<open>The new row of \<open>rpc_urls\<close> stays even when the query that follows fails.\<close>

definition get_rpc_url_id ::
  "sql_env \<Rightarrow> hex_codec \<Rightarrow> (sqlite_db \<Rightarrow> string \<Rightarrow> (nat, sqlite_error) rresult) \<Rightarrow> sqlite_db
    \<Rightarrow> string \<Rightarrow> tx_hash \<Rightarrow> sqlite_db \<times> (nat, sqlite_error) rresult" where
  "get_rpc_url_id e c raw_select d url genesis =
     (case on_table e d ''rpc_urls'' (Ok ()) of
        Ok _ \<Rightarrow>
          (let d' = insert_or_ignore_rpc_url d url (show_hash c genesis);
               genesis_text = to_lowercase (show_hash c genesis)
           in (d', if plain_text url
                   then ok_or (find_rpc_url d' url genesis_text)
                          (ExecuteQuery ''Query returned no rows'')
                   else raw_select d' (''SELECT id FROM rpc_urls WHERE url = '' @
                          val_or_null_str (Some url) @ '' AND genesis_hash = '' @
                          val_or_null_str (Some genesis_text))))
      | Err x \<Rightarrow> (d, Err x)
      | Panic \<Rightarrow> (d, Panic))"

section \<open>Runs\<close>

definition insert_run ::
  "sql_env \<Rightarrow> sqlite_db \<Rightarrow> spam_run_request \<Rightarrow> (sqlite_db \<times> u64, sqlite_error) rresult" where
  "insert_run e d r =
     on_table e d ''runs''
       (rbind (sql_param (srq_timestamp r)) (\<lambda>ts.
        rbind (sql_param (srq_tx_count r)) (\<lambda>count.
        rbind (sql_param (srq_txs_per_duration r)) (\<lambda>per.
        rbind (sql_param (srq_pending_timeout_secs r)) (\<lambda>timeout.
          let new_id = next_rowid (map rw_id (tbl_runs d));
              row = \<lparr>rw_id = new_id, rw_timestamp = show_nat ts, rw_tx_count = count,
                     rw_scenario_name = srq_scenario_name r, rw_campaign_id = srq_campaign_id r,
                     rw_campaign_name = srq_campaign_name r, rw_stage_name = srq_stage_name r,
                     rw_rpc_url = srq_rpc_url r, rw_txs_per_duration = per,
                     rw_duration = fmt_duration (srq_duration r), rw_timeout = timeout\<rparr>
          in Ok (d\<lparr>tbl_runs := tbl_runs d @ [row]\<rparr>,
                 word_of_nat (case other_last_rowid e of Some n \<Rightarrow> n | None \<Rightarrow> new_id)))))))"

definition num_runs :: "sql_env \<Rightarrow> sqlite_db \<Rightarrow> (nat, sqlite_error) rresult" where
  "num_runs e d = on_table e d ''runs'' (Ok (length (tbl_runs d)))"

definition spam_run_of_row :: "spam_run_row \<Rightarrow> (spam_run, sqlite_error) rresult" where
  "spam_run_of_row r =
     rbind (expect (parse_u64 (rw_timestamp r))) (\<lambda>ts.
     rbind (duration_from_string (rw_duration r)) (\<lambda>dur.
     Ok \<lparr>sr_id = word_of_nat (rw_id r), sr_timestamp = ts, sr_tx_count = word_of_nat (rw_tx_count r),
         sr_scenario_name = rw_scenario_name r, sr_campaign_id = rw_campaign_id r,
         sr_campaign_name = rw_campaign_name r, sr_stage_name = rw_stage_name r,
         sr_rpc_url = rw_rpc_url r, sr_txs_per_duration = word_of_nat (rw_txs_per_duration r),
         sr_duration = dur, sr_timeout = word_of_nat (rw_timeout r)\<rparr>))"

definition get_run :: "sql_env \<Rightarrow> sqlite_db \<Rightarrow> u64 \<Rightarrow> (spam_run option, sqlite_error) rresult" where
  "get_run e d run_id =
     on_table e d ''runs''
       (rbind (sql_param run_id) (\<lambda>i.
          case filter (\<lambda>r. rw_id r = i) (tbl_runs d) of
            [] \<Rightarrow> Ok None
          | rs \<Rightarrow> rmap Some (spam_run_of_row (last rs))))"

definition get_runs_by_campaign ::
  "sql_env \<Rightarrow> sqlite_db \<Rightarrow> string \<Rightarrow> (spam_run list, sqlite_error) rresult" where
  "get_runs_by_campaign e d campaign =
     on_table e d ''runs''
       (rmapM spam_run_of_row
          (sort_key rw_id (filter (\<lambda>r. rw_campaign_id r = Some campaign) (tbl_runs d))))"

definition latest_campaign_id ::
  "sql_env \<Rightarrow> sqlite_db \<Rightarrow> (string option, sqlite_error) rresult" where
  "latest_campaign_id e d =
     on_table e d ''runs''
       (Ok (Option.bind
          (order_by_id_desc_limit_1 rw_id (filter (\<lambda>r. rw_campaign_id r \<noteq> None) (tbl_runs d)))
          rw_campaign_id))"

definition get_rpc_url_for_scenario :: "sql_env \<Rightarrow> sqlite_db \<Rightarrow> string \<Rightarrow> string option" where
  "get_rpc_url_for_scenario e d scenario =
     (if table_exists e d ''runs''
      then map_option rw_rpc_url
             (order_by_id_desc_limit_1 rw_id (filter (\<lambda>r. rw_scenario_name r = scenario) (tbl_runs d)))
      else None)"

section \<open>Named transactions\<close>

definition named_row_of :: "hex_codec \<Rightarrow> nat \<Rightarrow> nat \<Rightarrow> named_tx \<Rightarrow> named_tx_row" where
  "named_row_of c i url_id t =
     \<lparr>nr_id = i, nr_name = nt_name t, nr_tx_hash = enc_hash c (nt_tx_hash t),
      nr_contract_address =
        Some (case nt_address t of Some a \<Rightarrow> enc_addr c a | None \<Rightarrow> ''''),
      nr_rpc_url_id = url_id\<rparr>"

definition insert_named_row :: "hex_codec \<Rightarrow> nat \<Rightarrow> named_tx \<Rightarrow> sqlite_db \<Rightarrow> sqlite_db" where
  "insert_named_row c url_id t d =
     d\<lparr>tbl_named_txs := tbl_named_txs d @
         [named_row_of c (next_rowid (map nr_id (tbl_named_txs d))) url_id t]\<rparr>"

definition insert_named_txs ::
  "sql_env \<Rightarrow> hex_codec \<Rightarrow> (sqlite_db \<Rightarrow> string \<Rightarrow> (nat, sqlite_error) rresult) \<Rightarrow> sqlite_db
    \<Rightarrow> named_tx list \<Rightarrow> string \<Rightarrow> tx_hash \<Rightarrow> sqlite_db \<times> (unit, sqlite_error) rresult" where
  "insert_named_txs e c raw_select d txs url genesis =
     (case get_rpc_url_id e c raw_select d url genesis of
        (d', Ok url_id) \<Rightarrow>
          if txs = [] then (d', Ok ())
          else (case on_table e d' ''named_txs'' (Ok ()) of
                  Ok _ \<Rightarrow> (fold (insert_named_row c url_id) txs d', Ok ())
                | Err x \<Rightarrow> (d', Err x)
                | Panic \<Rightarrow> (d', Panic))
      | (d', Err x) \<Rightarrow> (d', Err x)
      | (d', Panic) \<Rightarrow> (d', Panic))"

definition named_tx_of_row :: "hex_codec \<Rightarrow> named_tx_row \<Rightarrow> (named_tx, sqlite_error) rresult" where
  "named_tx_of_row c r =
     rbind (expect (dec_hash c (nr_tx_hash r))) (\<lambda>h.
     rbind (case nr_contract_address r of
              None \<Rightarrow> Ok None
            | Some a \<Rightarrow> rmap Some (expect (dec_addr c a))) (\<lambda>address.
     Ok (named_tx_new (nr_name r) h address)))"

definition get_named_tx ::
  "sql_env \<Rightarrow> hex_codec \<Rightarrow> sqlite_db \<Rightarrow> string \<Rightarrow> string \<Rightarrow> tx_hash
    \<Rightarrow> (named_tx option, sqlite_error) rresult" where
  "get_named_tx e c d name url genesis =
     on_table e d ''named_txs''
       (case find_rpc_url d url (to_lowercase (show_hash c genesis)) of
          None \<Rightarrow> Ok None
        | Some url_id \<Rightarrow>
            (case order_by_id_desc_limit_1 nr_id
                    (filter (\<lambda>r. nr_name r = name \<and> nr_rpc_url_id r = url_id) (tbl_named_txs d)) of
               None \<Rightarrow> Ok None
             | Some r \<Rightarrow> rmap Some (named_tx_of_row c r)))"

definition get_named_tx_by_address ::
  "sql_env \<Rightarrow> hex_codec \<Rightarrow> sqlite_db \<Rightarrow> address \<Rightarrow> (named_tx option, sqlite_error) rresult" where
  "get_named_tx_by_address e c d a =
     on_table e d ''named_txs''
       (case order_by_id_desc_limit_1 nr_id
               (filter (\<lambda>r. nr_contract_address r = Some (enc_addr c a)) (tbl_named_txs d)) of
          None \<Rightarrow> Ok None
        | Some r \<Rightarrow> rmap Some (named_tx_of_row c r))"

section \<open>Transactions of a run\<close>

definition run_tx_row_of :: "hex_codec \<Rightarrow> u64 \<Rightarrow> run_tx \<Rightarrow> run_tx_row" where
  "run_tx_row_of c run_id t =
     \<lparr>rx_run_id = sql_literal run_id, rx_tx_hash = enc_hash c (rt_tx_hash t),
      rx_start_timestamp = sql_literal (rt_start_timestamp_ms t),
      rx_end_timestamp = sql_literal_opt (rt_end_timestamp_ms t),
      rx_block_number = sql_literal_opt (rt_block_number t),
      rx_gas_used = sql_literal_opt (rt_gas_used t),
      rx_kind = rt_kind t, rx_error = rt_error t,
      rx_flashblock_latency = sql_literal_opt (rt_flashblock_latency_ms t),
      rx_flashblock_index = sql_literal_opt (rt_flashblock_index t)\<rparr>"

definition run_tx_statement :: "hex_codec \<Rightarrow> u64 \<Rightarrow> run_tx \<Rightarrow> string" where
  "run_tx_statement c run_id t =
     ''INSERT INTO run_txs (run_id, tx_hash, start_timestamp, end_timestamp, block_number, gas_used, kind, error, flashblock_latency, flashblock_index) VALUES ('' @
     show_nat (unat run_id) @ '', '' @ val_or_null_str (Some (enc_hash c (rt_tx_hash t))) @ '', '' @
     show_nat (unat (rt_start_timestamp_ms t)) @ '', '' @
     val_or_null_u64 (rt_end_timestamp_ms t) @ '', '' @ val_or_null_u64 (rt_block_number t) @ '', '' @
     val_or_null_u64 (rt_gas_used t) @ '', '' @ val_or_null_str (rt_kind t) @ '', '' @
     val_or_null_str (rt_error t) @ '', '' @ val_or_null_u64 (rt_flashblock_latency_ms t) @ '', '' @
     val_or_null_u64 (rt_flashblock_index t) @ '');''"

definition plain_run_tx :: "hex_codec \<Rightarrow> run_tx \<Rightarrow> bool" where
  "plain_run_tx c t =
     (plain_text (enc_hash c (rt_tx_hash t)) \<and>
      pred_option plain_text (rt_kind t) \<and> pred_option plain_text (rt_error t))"

type_synonym raw_sql = "sqlite_db \<Rightarrow> string \<Rightarrow> (sqlite_db, sqlite_error) rresult"

definition exec_run_tx ::
  "sql_env \<Rightarrow> hex_codec \<Rightarrow> raw_sql \<Rightarrow> u64 \<Rightarrow> sqlite_db \<Rightarrow> run_tx \<Rightarrow> (sqlite_db, sqlite_error) rresult" where
  "exec_run_tx e c exec_raw run_id d t =
     (if \<not> plain_run_tx c t
      then rmap (\<lambda>d'. d'\<lparr>injected := True\<rparr>) (exec_raw d (run_tx_statement c run_id t))
      else on_table e d ''run_txs''
        (if foreign_keys e \<and> \<not> list_ex (\<lambda>r. SInt (rw_id r) = sql_literal run_id) (tbl_runs d)
         then Err (ExecuteQuery ''FOREIGN KEY constraint failed'')
         else Ok (d\<lparr>tbl_run_txs := tbl_run_txs d @ [run_tx_row_of c run_id t]\<rparr>)))"

definition insert_run_txs ::
  "sql_env \<Rightarrow> hex_codec \<Rightarrow> raw_sql \<Rightarrow> sqlite_db \<Rightarrow> u64 \<Rightarrow> run_tx list
    \<Rightarrow> (sqlite_db, sqlite_error) rresult" where
  "insert_run_txs e c exec_raw d run_id txs =
     rbind (get_pool e) (\<lambda>_. rfoldl (exec_run_tx e c exec_raw run_id) d txs)"

definition run_tx_of_row :: "hex_codec \<Rightarrow> run_tx_row \<Rightarrow> (run_tx, sqlite_error) rresult" where
  "run_tx_of_row c r =
     rbind (get_u64 (rx_start_timestamp r)) (\<lambda>start.
     rbind (get_opt_u64 (rx_end_timestamp r)) (\<lambda>end_ts.
     rbind (get_opt_u64 (rx_block_number r)) (\<lambda>block.
     rbind (get_opt_u64 (rx_gas_used r)) (\<lambda>gas.
     rbind (get_opt_u64 (rx_flashblock_latency r)) (\<lambda>latency.
     rbind (get_opt_u64 (rx_flashblock_index r)) (\<lambda>idx.
     rbind (expect (dec_hash c (rx_tx_hash r))) (\<lambda>h.
     Ok \<lparr>rt_tx_hash = h, rt_start_timestamp_ms = start, rt_end_timestamp_ms = end_ts,
         rt_block_number = block, rt_gas_used = gas, rt_kind = rx_kind r, rt_error = rx_error r,
         rt_flashblock_latency_ms = latency, rt_flashblock_index = idx\<rparr>)))))))"

definition get_run_txs ::
  "sql_env \<Rightarrow> hex_codec \<Rightarrow> sqlite_db \<Rightarrow> u64 \<Rightarrow> (run_tx list, sqlite_error) rresult" where
  "get_run_txs e c d run_id =
     on_table e d ''run_txs''
       (rbind (sql_param run_id) (\<lambda>i.
          rmapM (run_tx_of_row c) (filter (\<lambda>r. rx_run_id r = SInt i) (tbl_run_txs d))))"

section \<open>Latency metrics and replay reports\<close>

text \<open>\<open>float_literal\<close> is what SQLite stores for a printed \<open>f64\<close>; \<open>None\<close> is a syntax error.\<close>

definition exec_latency ::
  "sql_env \<Rightarrow> (f64 \<Rightarrow> f64 option) \<Rightarrow> raw_sql \<Rightarrow> (string \<Rightarrow> bucket \<Rightarrow> string) \<Rightarrow> u64 \<Rightarrow> string
    \<Rightarrow> sqlite_db \<Rightarrow> bucket \<Rightarrow> (sqlite_db, sqlite_error) rresult" where
  "exec_latency e float_literal exec_raw statement run_id method d b =
     (if \<not> plain_text method
      then rmap (\<lambda>d'. d'\<lparr>injected := True\<rparr>) (exec_raw d (statement method b))
      else on_table e d ''latency''
        (case float_literal (upper_bound b) of
           None \<Rightarrow> Err (ExecuteQuery ''syntax error'')
         | Some f \<Rightarrow>
             if foreign_keys e \<and> \<not> list_ex (\<lambda>r. SInt (rw_id r) = sql_literal run_id) (tbl_runs d)
             then Err (ExecuteQuery ''FOREIGN KEY constraint failed'')
             else Ok (d\<lparr>tbl_latency := tbl_latency d @
                        [\<lparr>lt_run_id = unat run_id, lt_upper_bound_secs = f,
                          lt_count = sql_literal (cumulative_count b), lt_method = method\<rparr>]\<rparr>)))"

definition insert_latency_metrics ::
  "sql_env \<Rightarrow> (f64 \<Rightarrow> f64 option) \<Rightarrow> raw_sql \<Rightarrow> (string \<Rightarrow> bucket \<Rightarrow> string) \<Rightarrow> sqlite_db \<Rightarrow> u64
    \<Rightarrow> (string \<times> bucket list) list \<Rightarrow> (sqlite_db, sqlite_error) rresult" where
  "insert_latency_metrics e float_literal exec_raw statement d run_id metrics =
     rbind (get_pool e) (\<lambda>_.
       rfoldl (\<lambda>d (method, buckets).
         rfoldl (exec_latency e float_literal exec_raw statement run_id method) d buckets) d metrics)"

definition get_latency_metrics ::
  "sql_env \<Rightarrow> sqlite_db \<Rightarrow> u64 \<Rightarrow> string \<Rightarrow> (bucket list, sqlite_error) rresult" where
  "get_latency_metrics e d run_id method =
     on_table e d ''latency''
       (rbind (sql_param run_id) (\<lambda>i.
          rmapM (\<lambda>r. rmap (\<lambda>n. bucket_from (lt_upper_bound_secs r, n)) (get_u64 (lt_count r)))
            (filter (\<lambda>r. lt_run_id r = i \<and> lt_method r = method) (tbl_latency d))))"

definition num_replay_reports :: "sql_env \<Rightarrow> sqlite_db \<Rightarrow> (u64, sqlite_error) rresult" where
  "num_replay_reports e d =
     on_table e d ''replay_reports'' (Ok (word_of_nat (length (tbl_replay_reports d))))"

definition insert_replay_report ::
  "sql_env \<Rightarrow> sqlite_db \<Rightarrow> replay_report_request
    \<Rightarrow> (sqlite_db \<times> replay_report, sqlite_error) rresult" where
  "insert_replay_report e d report =
     rbind (num_replay_reports e d) (\<lambda>n.
     rbind (sql_param (rr_rpc_url_id report)) (\<lambda>url_id.
     rbind (sql_param (rr_gas_per_second report)) (\<lambda>gps.
     rbind (sql_param (rr_gas_used report)) (\<lambda>gas.
       Ok (d\<lparr>tbl_replay_reports := tbl_replay_reports d @
               [\<lparr>rp_id = next_rowid (map rp_id (tbl_replay_reports d)), rp_rpc_url_id = url_id,
                 rp_gas_per_second = gps, rp_gas_used = gas\<rparr>]\<rparr>,
           replay_report_new (n + 1) report)))))"

definition get_replay_report ::
  "sql_env \<Rightarrow> sqlite_db \<Rightarrow> u64 \<Rightarrow> (replay_report, sqlite_error) rresult" where
  "get_replay_report e d report_id =
     on_table e d ''replay_reports''
       (rbind (sql_param report_id) (\<lambda>i.
          case filter (\<lambda>r. rp_id r = i) (tbl_replay_reports d) of
            [] \<Rightarrow> Err (NotFoundError (''replay_reports('' @ show_nat (unat report_id) @ '')''))
          | rs \<Rightarrow> let r = last rs
                  in Ok (replay_report_new report_id
                       \<lparr>rr_rpc_url_id = word_of_nat (rp_rpc_url_id r),
                        rr_gas_per_second = word_of_nat (rp_gas_per_second r),
                        rr_gas_used = word_of_nat (rp_gas_used r)\<rparr>)))"

section \<open>Invariant\<close>

definition ids_from_1 :: "nat list \<Rightarrow> bool" where
  "ids_from_1 ids \<longleftrightarrow> ids = [1..<Suc (length ids)]"

text \<open>
  Every table with an integer primary key numbers its rows 1, 2, 3 and so on,
  because rows are never deleted; a chain has one entry in \<open>rpc_urls\<close>, and named
  transactions belong to chains that are there.
\<close>

definition db_inv :: "sqlite_db \<Rightarrow> bool" where
  "db_inv d \<longleftrightarrow>
     ids_from_1 (map rw_id (tbl_runs d)) \<and> ids_from_1 (map ru_id (tbl_rpc_urls d)) \<and>
     ids_from_1 (map nr_id (tbl_named_txs d)) \<and> ids_from_1 (map rp_id (tbl_replay_reports d)) \<and>
     distinct (map (\<lambda>r. (ru_url r, ru_genesis_hash r)) (tbl_rpc_urls d)) \<and>
     list_all (\<lambda>r. nr_rpc_url_id r \<in> set (map ru_id (tbl_rpc_urls d))) (tbl_named_txs d)"

lemma foldr_max_upt: "foldr max [1..<Suc n] 0 = n"
proof (induction n)
  case (Suc n)
  have "foldr max xs (m :: nat) = max m (foldr max xs 0)" for xs m
    by (induction xs) auto
  then have "foldr max [1..<Suc n] (Suc n) = Suc n" using Suc by (metis max_def le_SucI order_refl max.absorb1)
  then show ?case by simp
qed simp

lemma next_rowid_from_1: "ids_from_1 ids \<Longrightarrow> next_rowid ids = Suc (length ids)"
  unfolding ids_from_1_def next_rowid_def by (metis foldr_max_upt)

lemma ids_from_1_snoc [simp]: "ids_from_1 ids \<Longrightarrow> ids_from_1 (ids @ [Suc (length ids)])"
  unfolding ids_from_1_def by (simp del: upt_Suc add: upt_Suc_append)

lemma ids_from_1_Nil [simp]: "ids_from_1 []"
  by (simp add: ids_from_1_def)

lemma ids_from_1_distinct: "ids_from_1 ids \<Longrightarrow> distinct ids"
  unfolding ids_from_1_def by (metis distinct_upt)

lemma ids_from_1_sorted: "ids_from_1 ids \<Longrightarrow> sorted ids"
  unfolding ids_from_1_def by (metis sorted_upt)

lemma ids_from_1_le: "ids_from_1 ids \<Longrightarrow> i \<in> set ids \<Longrightarrow> 1 \<le> i \<and> i \<le> length ids"
  unfolding ids_from_1_def by (metis atLeastLessThan_iff less_Suc_eq_le set_upt)

lemma db_inv_new [simp]: "db_inv new_memory"
  by (simp add: db_inv_def new_memory_def)

lemma db_inv_create_tables [simp]: "db_inv d \<Longrightarrow> db_inv (create_tables e d)"
  by (simp add: create_tables_def db_inv_def)

lemma order_by_sorted:
  assumes "sorted (map f rs)"
  shows "order_by_id_desc_limit_1 f (filter p rs)
    = (if filter p rs = [] then None else Some (last (filter p rs)))"
  using assms by (simp add: order_by_id_desc_limit_1_def sorted_filter sort_key_id_if_sorted)

lemma on_table_Ok [simp]:
  "on_table e d t r = Ok x \<longleftrightarrow> pool_available e \<and> t \<in> set (tables d) \<and> r = Ok x"
  by (auto simp: on_table_def get_pool_def)

lemma on_table_here [simp]:
  "pool_available e \<Longrightarrow> t \<in> set (tables d) \<Longrightarrow> on_table e d t r = r"
  by (simp add: on_table_def get_pool_def)

lemma sql_param_Ok [simp]: "sql_param v = Ok n \<longleftrightarrow> unat v < 2 ^ 63 \<and> n = unat v"
  by (auto simp: sql_param_def)

subsection \<open>Chains\<close>

lemma find_rpc_url_insert:
  "find_rpc_url (insert_or_ignore_rpc_url d url g) url' g' =
     (if url' = url \<and> g' = g
      then Some (case find_rpc_url d url g of
                   Some i \<Rightarrow> i | None \<Rightarrow> next_rowid (map ru_id (tbl_rpc_urls d)))
      else find_rpc_url d url' g')"
  by (auto simp: insert_or_ignore_rpc_url_def find_rpc_url_def find_append split: option.splits)

lemma find_rpc_url_same_id:
  assumes "db_inv d" and "find_rpc_url d u g = Some i" and "find_rpc_url d u' g' = Some i"
  shows "u' = u \<and> g' = g"
proof -
  obtain r r' where r: "r \<in> set (tbl_rpc_urls d)" "ru_url r = u" "ru_genesis_hash r = g" "ru_id r = i"
    and r': "r' \<in> set (tbl_rpc_urls d)" "ru_url r' = u'" "ru_genesis_hash r' = g'" "ru_id r' = i"
    using assms(2,3) by (auto simp: find_rpc_url_def dest!: find_SomeD)
  have "distinct (map ru_id (tbl_rpc_urls d))"
    using assms(1) by (simp add: db_inv_def ids_from_1_distinct)
  with r r' have "r' = r" by (metis distinct_map inj_onD)
  with r r' show ?thesis by simp
qed

lemma db_inv_insert_rpc_url [simp]:
  assumes "db_inv d"
  shows "db_inv (insert_or_ignore_rpc_url d url g)"
proof (cases "find_rpc_url d url g")
  case None
  then have "(url, g) \<notin> (\<lambda>r. (ru_url r, ru_genesis_hash r)) ` set (tbl_rpc_urls d)"
    by (auto simp: find_rpc_url_def find_None_iff)
  moreover have "ids_from_1 (map ru_id (tbl_rpc_urls d))"
    using assms by (simp add: db_inv_def)
  ultimately show ?thesis
    using assms None ids_from_1_snoc [of "map ru_id (tbl_rpc_urls d)"]
    by (auto simp: insert_or_ignore_rpc_url_def db_inv_def next_rowid_from_1 list_all_iff)
next
  case (Some i)
  with assms show ?thesis by (simp add: insert_or_ignore_rpc_url_def)
qed

lemma find_rpc_url_fold [simp]:
  "find_rpc_url (fold (insert_named_row c i) ts d) u g = find_rpc_url d u g"
  by (induction ts arbitrary: d) (simp_all add: insert_named_row_def find_rpc_url_def)

lemma tables_fold [simp]: "tables (fold (insert_named_row c i) ts d) = tables d"
  by (induction ts arbitrary: d) (simp_all add: insert_named_row_def)

lemma tables_insert_rpc_url [simp]: "tables (insert_or_ignore_rpc_url d u g) = tables d"
  by (simp add: insert_or_ignore_rpc_url_def)

lemma named_insert_rpc_url [simp]:
  "tbl_named_txs (insert_or_ignore_rpc_url d u g) = tbl_named_txs d"
  by (simp add: insert_or_ignore_rpc_url_def)

lemma find_rpc_url_mem: "find_rpc_url d u g = Some i \<Longrightarrow> i \<in> set (map ru_id (tbl_rpc_urls d))"
  by (auto simp: find_rpc_url_def dest!: find_SomeD)

lemma rpc_urls_fold [simp]: "tbl_rpc_urls (fold (insert_named_row c i) ts d) = tbl_rpc_urls d"
  by (induction ts arbitrary: d) (simp_all add: insert_named_row_def)

lemma db_inv_fold_named:
  "db_inv d \<Longrightarrow> i \<in> set (map ru_id (tbl_rpc_urls d)) \<Longrightarrow> db_inv (fold (insert_named_row c i) ts d)"
proof (induction ts arbitrary: d)
  case (Cons t ts)
  have "db_inv (insert_named_row c i t d)"
    using Cons.prems ids_from_1_snoc [of "map nr_id (tbl_named_txs d)"]
    by (simp add: insert_named_row_def db_inv_def named_row_of_def next_rowid_from_1)
  moreover have "i \<in> set (map ru_id (tbl_rpc_urls (insert_named_row c i t d)))"
    using Cons.prems(2) by (simp add: insert_named_row_def)
  ultimately show ?case using Cons.IH by simp
qed simp

subsection \<open>Named transactions\<close>

lemma named_rows_fold:
  "\<exists>rows. tbl_named_txs (fold (insert_named_row c i) ts d) = tbl_named_txs d @ rows \<and>
     list_all2 (\<lambda>t r. \<exists>k. r = named_row_of c k i t) ts rows"
proof (induction ts arbitrary: d)
  case (Cons t ts)
  from Cons.IH [of "insert_named_row c i t d"] show ?case
    by (fastforce simp: insert_named_row_def)
qed simp

lemma filter_named_rows:
  assumes "list_all2 (\<lambda>t r. \<exists>k. r = named_row_of c k i t) ts rows"
  shows "list_all2 (\<lambda>t r. \<exists>k. r = named_row_of c k i t) (filter (\<lambda>t. nt_name t = n \<and> j = i) ts)
           (filter (\<lambda>r. nr_name r = n \<and> nr_rpc_url_id r = j) rows)"
  using assms by (induction rule: list_all2_induct) (auto simp: named_row_of_def)

lemma list_all2_last: "list_all2 P xs ys \<Longrightarrow> xs \<noteq> [] \<Longrightarrow> P (last xs) (last ys)"
  by (induction rule: list_all2_induct) (auto simp: list_all2_Nil)

text \<open>The row a lookup finds, in a database that satisfies the invariant.\<close>

definition latest_named_row :: "sqlite_db \<Rightarrow> string \<Rightarrow> nat \<Rightarrow> named_tx_row option" where
  "latest_named_row d n i =
     (let rs = filter (\<lambda>r. nr_name r = n \<and> nr_rpc_url_id r = i) (tbl_named_txs d)
      in if rs = [] then None else Some (last rs))"

lemma latest_named_row_eq:
  "db_inv d \<Longrightarrow> order_by_id_desc_limit_1 nr_id
     (filter (\<lambda>r. nr_name r = n \<and> nr_rpc_url_id r = i) (tbl_named_txs d)) = latest_named_row d n i"
  by (simp add: latest_named_row_def order_by_sorted db_inv_def ids_from_1_sorted)

lemma latest_named_row_fold:
  assumes "t \<in> set ts" and "nt_name t = n"
  shows "\<exists>k. latest_named_row (fold (insert_named_row c i) ts d) n i
     = Some (named_row_of c k i (last (filter (\<lambda>t. nt_name t = n) ts)))"
proof -
  obtain rows where rows: "tbl_named_txs (fold (insert_named_row c i) ts d) = tbl_named_txs d @ rows"
    and l2: "list_all2 (\<lambda>t r. \<exists>k. r = named_row_of c k i t) ts rows"
    using named_rows_fold by blast
  let ?ts = "filter (\<lambda>t. nt_name t = n) ts"
  let ?rs = "filter (\<lambda>r. nr_name r = n \<and> nr_rpc_url_id r = i) rows"
  have l2': "list_all2 (\<lambda>t r. \<exists>k. r = named_row_of c k i t) ?ts ?rs"
    using filter_named_rows [OF l2, of n i] by simp
  have ne: "?ts \<noteq> []" using assms by (auto simp: filter_empty_conv)
  then have "?rs \<noteq> []" using l2' by auto
  with rows have "latest_named_row (fold (insert_named_row c i) ts d) n i = Some (last ?rs)"
    by (simp add: latest_named_row_def)
  with list_all2_last [OF l2' ne] show ?thesis by auto
qed

lemma latest_named_row_other:
  assumes "j \<noteq> i \<or> n \<notin> nt_name ` set ts"
  shows "latest_named_row (fold (insert_named_row c i) ts d) n j = latest_named_row d n j"
proof -
  obtain rows where rows: "tbl_named_txs (fold (insert_named_row c i) ts d) = tbl_named_txs d @ rows"
    and l2: "list_all2 (\<lambda>t r. \<exists>k. r = named_row_of c k i t) ts rows"
    using named_rows_fold by blast
  have "filter (\<lambda>t. nt_name t = n \<and> j = i) ts = []"
    using assms by (auto simp: filter_empty_conv)
  with filter_named_rows [OF l2, of n j]
  have "filter (\<lambda>r. nr_name r = n \<and> nr_rpc_url_id r = j) rows = []" by simp
  with rows show ?thesis by (simp add: latest_named_row_def)
qed

lemma latest_named_row_new:
  assumes "db_inv d" and "i \<notin> set (map ru_id (tbl_rpc_urls d))"
  shows "latest_named_row d n i = None"
  using assms by (auto simp: latest_named_row_def Let_def filter_empty_conv db_inv_def list_all_iff)

lemma get_named_tx_eq:
  "db_inv d \<Longrightarrow> get_named_tx e c d n url g =
     on_table e d ''named_txs''
       (case find_rpc_url d url (to_lowercase (show_hash c g)) of
          None \<Rightarrow> Ok None
        | Some i \<Rightarrow> (case latest_named_row d n i of
                      None \<Rightarrow> Ok None | Some r \<Rightarrow> rmap Some (named_tx_of_row c r)))"
  by (simp add: get_named_tx_def latest_named_row_eq split: option.splits)

subsection \<open>Transactions of a run\<close>

text \<open>
  \<open>db_clean\<close>: no formatted statement has been executed around a quoted text, and
  every row of \<open>run_txs\<close> can be read back.  \<open>run_rows\<close> are the rows of a run.
\<close>

definition readable_row :: "hex_codec \<Rightarrow> run_tx_row \<Rightarrow> bool" where
  "readable_row c r \<longleftrightarrow> (\<exists>n. rx_run_id r = SInt n) \<and> (\<exists>t. run_tx_of_row c r = Ok t)"

definition db_clean :: "hex_codec \<Rightarrow> sqlite_db \<Rightarrow> bool" where
  "db_clean c d \<longleftrightarrow> \<not> injected d \<and> list_all (readable_row c) (tbl_run_txs d)"

definition run_rows :: "hex_codec \<Rightarrow> sqlite_db \<Rightarrow> u64 \<Rightarrow> run_tx list" where
  "run_rows c d run_id =
     (case rmapM (run_tx_of_row c) (filter (\<lambda>r. rx_run_id r = SInt (unat run_id)) (tbl_run_txs d)) of
        Ok ts \<Rightarrow> ts | _ \<Rightarrow> [])"

definition sqlite_insert_run_txs :: "sql_env \<Rightarrow> hex_codec \<Rightarrow> raw_sql \<Rightarrow> sqlite_db db_insert" where
  "sqlite_insert_run_txs e c exec_raw d run_id txs =
     rmap_err db_error_of_sqlite (insert_run_txs e c exec_raw d run_id txs)"

definition sqlite_insert_named ::
  "sql_env \<Rightarrow> hex_codec \<Rightarrow> (sqlite_db \<Rightarrow> string \<Rightarrow> (nat, sqlite_error) rresult) \<Rightarrow> sqlite_db
    \<Rightarrow> named_tx list \<Rightarrow> string \<times> tx_hash \<Rightarrow> (sqlite_db, sqlite_error) rresult" where
  "sqlite_insert_named e c raw_select d ts chain =
     (case insert_named_txs e c raw_select d ts (fst chain) (snd chain) of
        (d', Ok _) \<Rightarrow> Ok d' | (d', Err x) \<Rightarrow> Err x | (d', Panic) \<Rightarrow> Panic)"

definition sqlite_get_named ::
  "sql_env \<Rightarrow> hex_codec \<Rightarrow> sqlite_db \<Rightarrow> string \<Rightarrow> string \<times> tx_hash
    \<Rightarrow> (named_tx option, sqlite_error) rresult" where
  "sqlite_get_named e c d n chain = get_named_tx e c d n (fst chain) (snd chain)"

definition storable_named :: "string \<times> tx_hash \<Rightarrow> named_tx \<Rightarrow> bool" where
  "storable_named chain t \<longleftrightarrow> plain_text (fst chain) \<and> nt_address t \<noteq> None"

lemma get_literal [simp]: "get_u64 (sql_literal v) = Ok w \<longleftrightarrow> unat v < 2 ^ 63 \<and> w = v"
  by (auto simp: sql_literal_def)

lemma get_literal_opt [simp]: "get_opt_u64 (sql_literal_opt v) = Ok w \<longleftrightarrow>
    w = v \<and> (case v of None \<Rightarrow> True | Some n \<Rightarrow> unat n < 2 ^ 63)"
  by (auto simp: sql_literal_opt_def sql_literal_def split: option.splits)

lemma filter_sql_literal: "unat r < 2 ^ 63 \<Longrightarrow> sql_literal r = SInt (unat r') \<longleftrightarrow> r' = r"
  by (auto simp: sql_literal_def) (metis word_unat_eq_iff)+

lemma rmapM_append:
  "rmapM f (xs @ ys) = rbind (rmapM f xs) (\<lambda>us. rmap (\<lambda>vs. us @ vs) (rmapM f ys))"
proof (induction xs)
  case Nil
  then show ?case by (cases "rmapM f ys") simp_all
next
  case (Cons x xs)
  then show ?case
    by (cases "f x"; cases "rmapM f xs"; cases "rmapM f ys") simp_all
qed

lemma db_clean_rows:
  "db_clean c d \<Longrightarrow> rmapM (run_tx_of_row c)
     (filter (\<lambda>r. rx_run_id r = SInt (unat run_id)) (tbl_run_txs d)) = Ok (run_rows c d run_id)"
proof -
  assume "db_clean c d"
  then have "\<exists>ts. rmapM (run_tx_of_row c)
      (filter (\<lambda>r. rx_run_id r = SInt (unat run_id)) (tbl_run_txs d)) = Ok ts"
    by (intro rmapM_exists) (auto simp: db_clean_def readable_row_def list_all_iff)
  then show ?thesis by (auto simp: run_rows_def)
qed

lemma exec_run_tx_clean:
  assumes "exec_run_tx e c raw run_id d t = Ok d'" and "db_clean c d'"
  shows "db_clean c d \<and> d' = d\<lparr>tbl_run_txs := tbl_run_txs d @ [run_tx_row_of c run_id t]\<rparr> \<and>
    readable_row c (run_tx_row_of c run_id t)"
  using assms by (auto simp: exec_run_tx_def db_clean_def split: if_splits)

lemma rfold_run_txs_clean:
  assumes "rfoldl (exec_run_tx e c raw run_id) d ts = Ok d'" and "db_clean c d'"
  shows "db_clean c d \<and> d' = d\<lparr>tbl_run_txs := tbl_run_txs d @ map (run_tx_row_of c run_id) ts\<rparr> \<and>
    list_all (\<lambda>t. readable_row c (run_tx_row_of c run_id t)) ts"
  using assms
proof (induction ts arbitrary: d)
  case (Cons t ts)
  from Cons.prems(1) obtain d1 where d1: "exec_run_tx e c raw run_id d t = Ok d1"
    and rest: "rfoldl (exec_run_tx e c raw run_id) d1 ts = Ok d'"
    by auto
  from Cons.IH [OF rest Cons.prems(2)] exec_run_tx_clean [OF d1] show ?case by simp
qed simp

section \<open>The store behind its interfaces\<close>

text \<open>
  The laws of \<open>alloy\<close>'s codec the store relies on: decoding inverts encoding, the
  empty string is no address, and the printed hash of a chain is in lower case
  and identifies the hash.
\<close>

locale hex_laws =
  fixes c :: hex_codec
  assumes dec_enc_hash: "dec_hash c (enc_hash c h) = Some h"
    and dec_enc_addr: "dec_addr c (enc_addr c a) = Some a"
    and dec_addr_empty: "dec_addr c [] = None"
    and show_lower: "to_lowercase (show_hash c h) = show_hash c h"
    and show_inj: "show_hash c h = show_hash c h' \<Longrightarrow> h' = h"
begin

lemma read_back: "run_tx_of_row c (run_tx_row_of c r t) = Ok u \<Longrightarrow> u = t"
  by (auto simp: run_tx_of_row_def run_tx_row_of_def dec_enc_hash)

lemma readable_read_back:
  "readable_row c (run_tx_row_of c r t) \<Longrightarrow>
     unat r < 2 ^ 63 \<and> run_tx_of_row c (run_tx_row_of c r t) = Ok t"
proof -
  assume "readable_row c (run_tx_row_of c r t)"
  then obtain n u where "rx_run_id (run_tx_row_of c r t) = SInt n"
    and u: "run_tx_of_row c (run_tx_row_of c r t) = Ok u" by (auto simp: readable_row_def)
  then have "unat r < 2 ^ 63" by (simp add: run_tx_row_of_def sql_literal_def split: if_splits)
  with u read_back [OF u] show ?thesis by simp
qed

lemma named_row_read_back:
  "nt_address t \<noteq> None \<Longrightarrow> named_tx_of_row c (named_row_of c k i t) = Ok t"
  by (auto simp: named_tx_of_row_def named_row_of_def named_tx_new_def dec_enc_hash dec_enc_addr)

lemma rows_after_insert:
  assumes "insert_run_txs e c raw d r ts = Ok d'" and "db_clean c d'"
  shows "run_rows c d' r' = (if r' = r then run_rows c d r @ ts else run_rows c d r')"
    and "db_clean c d"
proof -
  from assms(1) have "rfoldl (exec_run_tx e c raw r) d ts = Ok d'"
    by (simp add: insert_run_txs_def)
  from rfold_run_txs_clean [OF this assms(2)] have clean: "db_clean c d"
    and d': "d' = d\<lparr>tbl_run_txs := tbl_run_txs d @ map (run_tx_row_of c r) ts\<rparr>"
    and ok: "list_all (\<lambda>t. readable_row c (run_tx_row_of c r t)) ts" by auto
  from clean show "db_clean c d" .
  let ?p = "\<lambda>row. rx_run_id row = SInt (unat r')"
  have new: "filter ?p (map (run_tx_row_of c r) ts) = (if r' = r then map (run_tx_row_of c r) ts else [])"
    using ok
  proof (induction ts)
    case (Cons t ts)
    then have "unat r < 2 ^ 63" using readable_read_back [of r t] by simp
    then have "rx_run_id (run_tx_row_of c r t) = SInt (unat r') \<longleftrightarrow> r' = r"
      by (simp add: run_tx_row_of_def filter_sql_literal)
    with Cons show ?case by (auto split: if_splits)
  qed simp
  have "rmapM (run_tx_of_row c) (map (run_tx_row_of c r) ts) = Ok ts"
    using ok readable_read_back by (induction ts) auto
  with new db_clean_rows [OF clean, of r']
  have "rmapM (run_tx_of_row c) (filter ?p (tbl_run_txs d')) = Ok (run_rows c d r' @ (if r' = r then ts else []))"
    by (simp add: d' rmapM_append)
  then show "run_rows c d' r' = (if r' = r then run_rows c d r @ ts else run_rows c d r')"
    by (simp add: run_rows_def [of c d'])
qed

lemma get_named_new_chain:
  assumes "db_inv d"
  shows "get_named_tx e c (insert_or_ignore_rpc_url d url (show_hash c g)) n url' g'
    = get_named_tx e c d n url' g'"
proof -
  let ?d = "insert_or_ignore_rpc_url d url (show_hash c g)"
  have same: "latest_named_row ?d n i = latest_named_row d n i" for i
    by (simp add: latest_named_row_def)
  have "next_rowid (map ru_id (tbl_rpc_urls d)) \<notin> set (map ru_id (tbl_rpc_urls d))"
    using assms ids_from_1_le [of "map ru_id (tbl_rpc_urls d)"]
    by (fastforce simp: db_inv_def next_rowid_from_1)
  then have fresh: "latest_named_row d n (next_rowid (map ru_id (tbl_rpc_urls d))) = None"
    using assms by (rule latest_named_row_new [rotated])
  show ?thesis
    using assms fresh
    by (auto simp: get_named_tx_eq same find_rpc_url_insert on_table_def split: option.splits)
qed

lemma get_named_after_rows:
  assumes "db_inv d" and "find_rpc_url d url (show_hash c g) = Some i"
    and "list_all (storable_named (url, g)) ts"
    and "pool_available e" and "''named_txs'' \<in> set (tables d)"
  shows "get_named_tx e c (fold (insert_named_row c i) ts d) n url' g'
    = (if (url', g') = (url, g) \<and> n \<in> nt_name ` set ts
       then Ok (Some (last (filter (\<lambda>t. nt_name t = n) ts))) else get_named_tx e c d n url' g')"
proof -
  let ?d = "fold (insert_named_row c i) ts d"
  have inv: "db_inv ?d" using assms(1,2) by (intro db_inv_fold_named find_rpc_url_mem)
  show ?thesis
  proof (cases "(url', g') = (url, g) \<and> n \<in> nt_name ` set ts")
    case True
    then obtain t where t: "t \<in> set ts" "nt_name t = n" by auto
    let ?t = "last (filter (\<lambda>t. nt_name t = n) ts)"
    have "filter (\<lambda>t. nt_name t = n) ts \<noteq> []" using t by (auto simp: filter_empty_conv)
    then have "?t \<in> set ts" using last_in_set by fastforce
    then have "nt_address ?t \<noteq> None"
      using assms(3) by (auto simp: list_all_iff storable_named_def)
    moreover obtain k where "latest_named_row ?d n i = Some (named_row_of c k i ?t)"
      using latest_named_row_fold [OF t] by blast
    ultimately show ?thesis
      using inv True assms(2,4,5) by (simp add: get_named_tx_eq show_lower named_row_read_back)
  next
    case False
    have "latest_named_row ?d n j = latest_named_row d n j"
      if "find_rpc_url d url' (show_hash c g') = Some j" for j
    proof (rule latest_named_row_other)
      have "j = i \<Longrightarrow> url' = url \<and> show_hash c g' = show_hash c g"
        using find_rpc_url_same_id [OF assms(1,2)] that by blast
      then have "j = i \<Longrightarrow> (url', g') = (url, g)" using show_inj by auto
      with False show "j \<noteq> i \<or> n \<notin> nt_name ` set ts" by auto
    qed
    with False inv assms(1,4,5) show ?thesis
      by (auto simp: get_named_tx_eq show_lower split: option.splits)
  qed
qed

lemma insert_named_cases:
  assumes "sqlite_insert_named e c raw d ts (url, g) = Ok d'" and "list_all (storable_named (url, g)) ts"
  obtains (none) "ts = []" "d' = insert_or_ignore_rpc_url d url (show_hash c g)"
    | (rows) i where "find_rpc_url (insert_or_ignore_rpc_url d url (show_hash c g)) url (show_hash c g) = Some i"
        "d' = fold (insert_named_row c i) ts (insert_or_ignore_rpc_url d url (show_hash c g))"
        "pool_available e" "''named_txs'' \<in> set (tables d)"
proof (cases "ts = []")
  case True
  with assms that(1) show ?thesis
    by (auto simp: sqlite_insert_named_def insert_named_txs_def get_rpc_url_id_def Let_def
        split: rresult.splits prod.splits if_splits)
next
  case False
  then have "plain_text url"
    using assms(2) by (cases ts) (auto simp: storable_named_def)
  with assms(1) False that(2) show ?thesis
    by (auto simp: sqlite_insert_named_def insert_named_txs_def get_rpc_url_id_def Let_def show_lower
        split: rresult.splits prod.splits if_splits)
qed

lemma get_named_law:
  assumes "db_inv d" and "list_all (storable_named ch) ts" and "sqlite_insert_named e c raw d ts ch = Ok d'"
  shows "sqlite_get_named e c d' n ch' =
      (if ch' = ch \<and> n \<in> nt_name ` set ts
       then Ok (Some (last (filter (\<lambda>t. nt_name t = n) ts))) else sqlite_get_named e c d n ch')"
    and "db_inv d'"
proof -
  obtain url g url' g' where ch: "ch = (url, g)" and ch': "ch' = (url', g')" by fastforce
  note assms' = assms [unfolded ch]
  let ?d = "insert_or_ignore_rpc_url d url (show_hash c g)"
  from assms'(3,2) have "(sqlite_get_named e c d' n ch' =
      (if ch' = ch \<and> n \<in> nt_name ` set ts
       then Ok (Some (last (filter (\<lambda>t. nt_name t = n) ts))) else sqlite_get_named e c d n ch'))
      \<and> db_inv d'"
  proof (cases rule: insert_named_cases)
    case none
    with assms'(1) show ?thesis
      by (simp add: sqlite_get_named_def ch' get_named_new_chain)
  next
    case (rows i)
    have inv: "db_inv ?d" using assms'(1) by simp
    moreover have "db_inv d'"
      using rows inv by (simp add: db_inv_fold_named find_rpc_url_mem del: set_map)
    ultimately show ?thesis
      using get_named_after_rows [OF inv rows(1) assms'(2) rows(3), of n url' g'] rows assms'(1)
      by (simp add: sqlite_get_named_def ch ch' get_named_new_chain)
  qed
  then show "sqlite_get_named e c d' n ch' =
      (if ch' = ch \<and> n \<in> nt_name ` set ts
       then Ok (Some (last (filter (\<lambda>t. nt_name t = n) ts))) else sqlite_get_named e c d n ch')"
    and "db_inv d'" by blast+
qed

end

locale sqlite_store = hex_laws c for c :: hex_codec +
  fixes e :: sql_env
    and raw_select :: "sqlite_db \<Rightarrow> string \<Rightarrow> (nat, sqlite_error) rresult"
    and exec_raw :: raw_sql

sublocale sqlite_store \<subseteq> runs: run_store "sqlite_insert_run_txs e c exec_raw" "run_rows c" "db_clean c"
proof (unfold_locales, goal_cases)
  case (1 d r ts d' r')
  then show ?case using rows_after_insert(1) by (simp add: sqlite_insert_run_txs_def)
next
  case (2 d r ts d')
  then show ?case using rows_after_insert(2) by (simp add: sqlite_insert_run_txs_def)
qed

sublocale sqlite_store \<subseteq> named: db_ops "sqlite_insert_named e c raw_select" "sqlite_get_named e c"
    storable_named db_inv
proof (unfold_locales, goal_cases)
  case (1 d ch ts d' n ch')
  then show ?case by (rule get_named_law(1))
next
  case (2 d ch ts d')
  then show ?case by (rule get_named_law(2))
qed

context sqlite_store
begin

lemmas store_cached_until_recorded = runs.cached_until_recorded
lemmas store_about_to_remove = runs.about_to_remove_confirmed
lemmas store_redeploy_wins = named.redeploy_wins

end

section \<open>A codec with the laws\<close>

definition std_codec :: hex_codec where
  "std_codec =
     \<lparr>enc_hash = (\<lambda>h. show_hex_padded 64 (unat h)),
      dec_hash = (\<lambda>s. if length s = 64 then Some (word_of_nat (hex_val s)) else None),
      enc_addr = (\<lambda>a. show_hex_padded 40 (unat a)),
      dec_addr = (\<lambda>s. if length s = 40 then Some (word_of_nat (hex_val s)) else None),
      show_hash = (\<lambda>h. ''0x'' @ show_hex_padded 64 (unat h))\<rparr>"

lemma std_codec_laws: "hex_laws std_codec"
proof
  fix h h' :: tx_hash and a :: address
  have "unat h < 16 ^ 64" using unsigned_less [of h] by simp
  then show "dec_hash std_codec (enc_hash std_codec h) = Some h"
    by (simp add: std_codec_def length_show_hex_padded hex_val_padded)
  have "unat a < 16 ^ 40" using unsigned_less [of a] by simp
  then show "dec_addr std_codec (enc_addr std_codec a) = Some a"
    by (simp add: std_codec_def length_show_hex_padded hex_val_padded)
  show "dec_addr std_codec [] = None" by (simp add: std_codec_def)
  have "to_lowercase (''0x'' @ s) = ''0x'' @ to_lowercase s" for s
    by (simp add: to_lowercase_def to_lower_def)
  then show "to_lowercase (show_hash std_codec h) = show_hash std_codec h"
    by (simp add: std_codec_def to_lowercase_hex)
  assume "show_hash std_codec h = show_hash std_codec h'"
  then have "hex_val (show_hex_padded 64 (unat h)) = hex_val (show_hex_padded 64 (unat h'))"
    by (simp add: std_codec_def)
  then show "h' = h" by (simp add: hex_val_padded word_unat_eq_iff)
qed

interpretation std: sqlite_store std_codec e raw_select exec_raw for e raw_select exec_raw
  by (intro sqlite_store.intro std_codec_laws)

section \<open>Properties\<close>

lemma get_run_txs_clean:
  "db_clean c d \<Longrightarrow> get_run_txs e c d r =
     on_table e d ''run_txs'' (rmap (\<lambda>_. run_rows c d r) (sql_param r))"
  using db_clean_rows [of c d r] by (simp add: get_run_txs_def sql_param_def on_table_def)

lemma insert_run_txs_tables:
  "rfoldl (exec_run_tx e c raw r) d ts = Ok d' \<Longrightarrow> db_clean c d' \<Longrightarrow> tables d' = tables d"
  using rfold_run_txs_clean by fastforce

text \<open>
  C40. What \<open>insert_run_txs\<close> accepts, \<open>get_run_txs\<close> returns: after an insert, the
  rows of the run are the old ones followed by the inserted ones, unchanged and
  in order, and the rows of every other run are as before.  This holds as long
  as the codec decodes what it encodes and the database is clean, that is, all
  numbers fit 63 bits and no kind or error text with a quote was formatted into
  a statement.
\<close>

theorem run_txs_appended:
  assumes "hex_laws c" and "insert_run_txs e c exec_raw d r ts = Ok d'" and "db_clean c d'"
  shows "get_run_txs e c d' r' =
    (if r' = r then rmap (\<lambda>old. old @ ts) (get_run_txs e c d r) else get_run_txs e c d r')"
proof -
  have rows: "run_rows c d' r' = (if r' = r then run_rows c d r @ ts else run_rows c d r')"
    and clean: "db_clean c d"
    using hex_laws.rows_after_insert [OF assms] by blast+
  from assms(2) have "rfoldl (exec_run_tx e c exec_raw r) d ts = Ok d'"
    by (simp add: insert_run_txs_def)
  then have "tables d' = tables d" using assms(3) by (rule insert_run_txs_tables)
  with rows clean assms(3) show ?thesis
    by (simp add: get_run_txs_clean on_table_def get_pool_def sql_param_def)
qed

definition demo_env :: sql_env where
  "demo_env = \<lparr>pool_available = True, foreign_keys = False, other_last_rowid = None\<rparr>"

definition demo_db :: sqlite_db where
  "demo_db = create_tables demo_env new_memory"

definition demo_run_tx :: run_tx where
  "demo_run_tx = \<lparr>rt_tx_hash = 7, rt_start_timestamp_ms = 1000, rt_end_timestamp_ms = None,
     rt_block_number = None, rt_gas_used = None, rt_kind = Some ''transfer'',
     rt_error = None, rt_flashblock_latency_ms = None, rt_flashblock_index = None\<rparr>"

definition demo_raw :: raw_sql where
  "demo_raw d s = Err (ExecuteQuery ''syntax error'')"

definition demo_db_1 :: sqlite_db where
  "demo_db_1 = demo_db\<lparr>tbl_run_txs := [run_tx_row_of std_codec 1 demo_run_tx]\<rparr>"

lemma demo_tables: "set (tables demo_db) =
    {''runs'', ''rpc_urls'', ''named_txs'', ''run_txs'', ''latency'', ''replay_reports''}"
  "pool_available demo_env" "foreign_keys demo_env = False" "other_last_rowid demo_env = None"
  "tbl_runs demo_db = []" "tbl_run_txs demo_db = []" "tbl_named_txs demo_db = []"
  "tbl_rpc_urls demo_db = []" "tbl_replay_reports demo_db = []" "injected demo_db = False"
  by (auto simp: demo_db_def create_tables_def demo_env_def new_memory_def)

lemma demo_db_inv: "db_inv demo_db"
  by (simp add: demo_db_def)

lemma plain_hex: "plain_text (show_hex_padded w n)"
  using show_hex_padded_chars by (fastforce simp: plain_text_def)

lemma demo_insert_ok:
  "insert_run_txs demo_env std_codec demo_raw demo_db 1 [demo_run_tx] = Ok demo_db_1"
proof -
  have "plain_text (enc_hash std_codec h)" for h
    by (simp add: std_codec_def plain_hex)
  then have "plain_run_tx std_codec demo_run_tx"
    by (simp add: plain_run_tx_def demo_run_tx_def) (simp add: plain_text_def)
  then show ?thesis
    by (simp add: insert_run_txs_def get_pool_def exec_run_tx_def demo_tables demo_db_1_def)
qed

lemma demo_read: "run_tx_of_row std_codec (run_tx_row_of std_codec 1 demo_run_tx) = Ok demo_run_tx"
  by (simp add: run_tx_of_row_def run_tx_row_of_def demo_run_tx_def sql_literal_opt_def sql_literal_def
      hex_laws.dec_enc_hash [OF std_codec_laws])

lemma demo_clean: "db_clean std_codec demo_db_1"
proof -
  have "rx_run_id (run_tx_row_of std_codec 1 demo_run_tx) = SInt 1"
    by (simp add: run_tx_row_of_def sql_literal_def)
  with demo_read show ?thesis
    by (auto simp: db_clean_def demo_db_1_def readable_row_def demo_tables)
qed

theorem run_txs_appended_witness:
  "get_run_txs demo_env std_codec demo_db_1 1 = Ok [demo_run_tx]"
  using run_txs_appended [OF std_codec_laws demo_insert_ok demo_clean, of 1]
  by (simp add: get_run_txs_def [of _ _ demo_db] demo_tables sql_param_def)

text \<open>
  A run that was inserted is read back field by field, its duration text
  included, under the id that \<open>insert_run\<close> returned, provided
  \<open>last_insert_rowid\<close> is answered by the connection that made the insert.
\<close>

theorem run_roundtrip:
  assumes "db_inv d" and "insert_run e d r = Ok (d', i)" and "other_last_rowid e = None"
    and "length (tbl_runs d) < 2 ^ 62"
  shows "get_run e d' i = Ok (Some
    \<lparr>sr_id = i, sr_timestamp = srq_timestamp r, sr_tx_count = srq_tx_count r,
     sr_scenario_name = srq_scenario_name r, sr_campaign_id = srq_campaign_id r,
     sr_campaign_name = srq_campaign_name r, sr_stage_name = srq_stage_name r,
     sr_rpc_url = srq_rpc_url r, sr_txs_per_duration = srq_txs_per_duration r,
     sr_duration = srq_duration r, sr_timeout = srq_pending_timeout_secs r\<rparr>)"
proof -
  let ?n = "Suc (length (tbl_runs d))"
  have ids: "ids_from_1 (map rw_id (tbl_runs d))" using assms(1) by (simp add: db_inv_def)
  then have next_id: "next_rowid (map rw_id (tbl_runs d)) = ?n" by (simp add: next_rowid_from_1)
  have old: "filter (\<lambda>r. rw_id r = ?n) (tbl_runs d) = []"
    using ids_from_1_le [OF ids] by (fastforce simp: filter_empty_conv)
  have n: "unat (word_of_nat ?n :: u64) = ?n" "?n < 2 ^ 63"
    using assms(4) by (simp_all only: unat_of_nat) simp_all
  show ?thesis
    using assms(2,3) n old next_id
    by (auto simp: insert_run_def get_run_def spam_run_of_row_def Let_def duration_parse_print
        parse_u64_show)
qed

definition demo_request :: spam_run_request where
  "demo_request = \<lparr>srq_timestamp = 100, srq_tx_count = 20, srq_scenario_name = ''test'',
     srq_campaign_id = None, srq_campaign_name = None, srq_stage_name = None,
     srq_rpc_url = ''http://test:8545'', srq_txs_per_duration = 10, srq_duration = Seconds 10,
     srq_pending_timeout_secs = 12\<rparr>"

lemma demo_insert_run: "\<exists>d'. insert_run demo_env demo_db demo_request = Ok (d', 1)"
  by (simp add: insert_run_def demo_tables demo_request_def Let_def sql_param_def next_rowid_def)

theorem run_roundtrip_witness:
  "\<exists>d' run. insert_run demo_env demo_db demo_request = Ok (d', 1) \<and>
     get_run demo_env d' 1 = Ok (Some run) \<and> sr_duration run = Seconds 10"
proof -
  obtain d' where ins: "insert_run demo_env demo_db demo_request = Ok (d', 1)"
    using demo_insert_run by blast
  from run_roundtrip [OF demo_db_inv ins] ins show ?thesis
    by (simp add: demo_tables demo_request_def)
qed

text \<open>
  A named contract resolves to its latest deployment: after a batch of named
  transactions with addresses is inserted for a chain, looking up one of their
  names on that chain gives the last entry of the batch with that name, and
  every lookup of another name or on another chain is unchanged.
\<close>

theorem named_tx_latest:
  assumes "hex_laws c" and "db_inv d" and "plain_text url"
    and "list_all (\<lambda>t. nt_address t \<noteq> None) ts"
    and "insert_named_txs e c raw_select d ts url g = (d', Ok ())"
  shows "get_named_tx e c d' n url' g' =
    (if (url', g') = (url, g) \<and> list_ex (\<lambda>t. nt_name t = n) ts
     then Ok (Some (last (filter (\<lambda>t. nt_name t = n) ts))) else get_named_tx e c d n url' g')"
proof -
  have "list_all (storable_named (url, g)) ts"
    using assms(3,4) by (simp add: storable_named_def list_all_iff)
  moreover have "sqlite_insert_named e c raw_select d ts (url, g) = Ok d'"
    using assms(5) by (simp add: sqlite_insert_named_def)
  moreover have "list_ex (\<lambda>t. nt_name t = n) ts \<longleftrightarrow> n \<in> nt_name ` set ts"
    by (auto simp: list_ex_iff)
  ultimately show ?thesis
    using hex_laws.get_named_law(1) [OF assms(1,2), of "(url, g)" ts e raw_select d' n "(url', g')"]
    by (simp add: sqlite_get_named_def)
qed

definition demo_named :: named_tx where
  "demo_named = named_tx_new ''weth'' 7 (Some 0xAB)"

lemma demo_url: "plain_text ''http://a''" "plain_text []"
  by (simp_all add: plain_text_def)

lemma demo_insert_named:
  "\<exists>d'. insert_named_txs demo_env std_codec (\<lambda>d s. Panic) demo_db ts ''http://a'' 5 = (d', Ok ())"
  by (simp add: insert_named_txs_def get_rpc_url_id_def demo_tables demo_url find_rpc_url_insert
      hex_laws.show_lower [OF std_codec_laws] Let_def)

theorem named_tx_latest_witness:
  "\<exists>d'. insert_named_txs demo_env std_codec (\<lambda>d s. Panic) demo_db [demo_named] ''http://a'' 5 = (d', Ok ()) \<and>
     get_named_tx demo_env std_codec d' ''weth'' ''http://a'' 5 = Ok (Some demo_named)"
proof -
  obtain d' where ins: "insert_named_txs demo_env std_codec (\<lambda>d s. Panic) demo_db [demo_named] ''http://a'' 5
      = (d', Ok ())" using demo_insert_named by blast
  from named_tx_latest [OF std_codec_laws demo_db_inv demo_url(1) _ ins, of "''weth''" "''http://a''" 5]
  show ?thesis using ins by (simp add: demo_named_def named_tx_new_def)
qed

text \<open>
  A named transaction without a contract address cannot be read back: the
  insert stores its address as an empty string, and looking the name up panics.
\<close>

theorem named_tx_without_address_panics:
  assumes "hex_laws c" and "db_inv d" and "plain_text url" and "nt_address t = None"
    and "insert_named_txs e c raw_select d [t] url g = (d', Ok ())"
  shows "get_named_tx e c d' (nt_name t) url g = Panic"
proof -
  let ?d = "insert_or_ignore_rpc_url d url (show_hash c g)"
  obtain i where i: "find_rpc_url ?d url (show_hash c g) = Some i"
    by (simp add: find_rpc_url_insert)
  with assms(3,5) have d': "d' = fold (insert_named_row c i) [t] ?d"
    and here: "pool_available e" "''named_txs'' \<in> set (tables d)"
    using hex_laws.show_lower [OF assms(1)]
    by (auto simp: insert_named_txs_def get_rpc_url_id_def Let_def split: rresult.splits if_splits)
  have "db_inv d'"
    unfolding d' using assms(2) i by (intro db_inv_fold_named find_rpc_url_mem) simp_all
  moreover obtain k where "latest_named_row d' (nt_name t) i = Some (named_row_of c k i t)"
    unfolding d' using latest_named_row_fold [of t "[t]" "nt_name t" c i ?d] by auto
  moreover have "find_rpc_url d' url (show_hash c g) = Some i" "tables d' = tables d"
    unfolding d' using i by (simp_all only: find_rpc_url_fold tables_fold tables_insert_rpc_url)
  moreover have "named_tx_of_row c (named_row_of c k i t) = Panic" for k
    using assms(4) hex_laws.dec_enc_hash [OF assms(1)] hex_laws.dec_addr_empty [OF assms(1)]
    by (simp add: named_tx_of_row_def named_row_of_def)
  ultimately show ?thesis
    using here hex_laws.show_lower [OF assms(1)] by (simp add: get_named_tx_eq)
qed

theorem named_tx_without_address_panics_witness:
  "\<exists>d'. insert_named_txs demo_env std_codec (\<lambda>d s. Panic) demo_db
          [named_tx_new ''setup'' 7 None] ''http://a'' 5 = (d', Ok ()) \<and>
     get_named_tx demo_env std_codec d' ''setup'' ''http://a'' 5 = Panic"
proof -
  obtain d' where ins: "insert_named_txs demo_env std_codec (\<lambda>d s. Panic) demo_db
      [named_tx_new ''setup'' 7 None] ''http://a'' 5 = (d', Ok ())" using demo_insert_named by blast
  from named_tx_without_address_panics [OF std_codec_laws demo_db_inv demo_url(1) _ ins] ins
  show ?thesis by (simp add: named_tx_new_def)
qed

text \<open>
  A chain has one id: two calls of \<open>get_rpc_url_id\<close>, the second on the database
  the first one left, return the same id exactly when they are for the same
  URL and genesis hash.
\<close>

theorem rpc_url_id_identifies_chain:
  assumes "hex_laws c" and "db_inv d" and "plain_text url" and "plain_text url'"
    and "get_rpc_url_id e c raw_select d url g = (d1, Ok i)"
    and "get_rpc_url_id e c raw_select d1 url' g' = (d2, Ok j)"
  shows "j = i \<longleftrightarrow> (url', g') = (url, g)"
proof -
  note lower = hex_laws.show_lower [OF assms(1)]
  from assms(3,5) have d1: "d1 = insert_or_ignore_rpc_url d url (show_hash c g)"
    and i: "find_rpc_url d1 url (show_hash c g) = Some i"
    by (auto simp: get_rpc_url_id_def Let_def lower split: rresult.splits)
  from assms(4,6) have d2: "d2 = insert_or_ignore_rpc_url d1 url' (show_hash c g')"
    and j: "find_rpc_url d2 url' (show_hash c g') = Some j"
    by (auto simp: get_rpc_url_id_def Let_def lower split: rresult.splits)
  have i2: "find_rpc_url d2 url (show_hash c g) = Some i"
    using i by (auto simp: d2 find_rpc_url_insert)
  have "db_inv d2" using assms(2) by (simp add: d1 d2)
  then have "j = i \<Longrightarrow> url' = url \<and> show_hash c g' = show_hash c g"
    using find_rpc_url_same_id i2 j by blast
  then show ?thesis
    using i2 j hex_laws.show_inj [OF assms(1)] by auto
qed

theorem rpc_url_id_identifies_chain_witness:
  "\<exists>d1 d2 i j. get_rpc_url_id demo_env std_codec (\<lambda>d s. Panic) demo_db ''http://a'' 5 = (d1, Ok i) \<and>
     get_rpc_url_id demo_env std_codec (\<lambda>d s. Panic) d1 ''http://a'' 6 = (d2, Ok j) \<and> j \<noteq> i"
proof -
  note lower = hex_laws.show_lower [OF std_codec_laws]
  obtain d1 i where 1: "get_rpc_url_id demo_env std_codec (\<lambda>d s. Panic) demo_db ''http://a'' 5 = (d1, Ok i)"
    and t: "tables d1 = tables demo_db"
    by (simp add: get_rpc_url_id_def demo_tables demo_url Let_def lower find_rpc_url_insert)
  then obtain d2 j where 2: "get_rpc_url_id demo_env std_codec (\<lambda>d s. Panic) d1 ''http://a'' 6 = (d2, Ok j)"
    by (simp add: get_rpc_url_id_def demo_tables demo_url Let_def lower find_rpc_url_insert)
  from rpc_url_id_identifies_chain [OF std_codec_laws demo_db_inv demo_url(1) demo_url(1) 1 2]
  have "j \<noteq> i" by simp
  with 1 2 show ?thesis by blast
qed

end
