(* ===== verification/Scenario_Defs.thy ===== *)
theory Scenario_Defs
  imports Tx_Actor
begin

text \<open>
  The data of a scenario: \<open>function_def.rs\<close>, \<open>create_def.rs\<close>, \<open>named_txs.rs\<close>,
  \<open>types.rs\<close>, \<open>constants.rs\<close> and the error types of \<open>crates/core/src/generator\<close>
  and \<open>crates/core/src/error.rs\<close>.  The fields of \<open>alloy\<close>'s \<open>TransactionRequest\<close>
  that the code reads or writes are a record.  Functions of third-party crates
  (ABI encoding, address and unit parsing, hexadecimal decoding, signing) are
  the fields of the record \<open>ext\<close>, a parameter of the definitions that call them.
\<close>

section \<open>Errors\<close>

datatype util_error =
    ParseFunctionSigFailed string
  | ParseValueFailed string
  | InvalidValueNumeric string
  | FunctionSignatureNumArgsInvalid string nat nat
  | EncodeFunctionArgsFailed string
  | SignerFailed string

datatype templater_error =
    KeyNotFound string
  | ContractNotFoundInDB string
  | TemplaterDb db_error
  | ParseAddressFailed string
  | ParsePriorityFeeFailed string string
  | TemplaterUtil util_error

datatype generator_error =
    AbiParserFailed string
  | AddressNotFound string
  | BlobDataParseFailed string
  | FromAddressParseFailed string string
  | FromPoolNotFound string
  | FuzzMissingParams
  | FuzzValueNeedsParam
  | FuzzConflictingParams
  | FuzzInvalid
  | ForAllAccountsRequiresFromPool
  | InvalidSender
  | NonceNotFound address
  | SidecarBuildFailed
  | SignerNotFound string nat
  | GenTemplater templater_error
  | SignatureArgsMismatch nat nat
  | ValueFuzzerNotInitialized
  | GenUtil util_error

datatype runtime_param_error =
    BuilderUrlRequired
  | BuilderUrlInvalid
  | BundleTypeInvalid
  | InvalidArgs string
  | MissingArgs string

datatype rpc_error_kind =
    TxAlreadyKnown
  | InsufficientFunds address
  | ReplacementTransactionUnderpriced
  | GenericSendTxError

section \<open>Transaction requests\<close>

datatype tx_kind = TxCreate | TxCall address

datatype tx_type = Legacy | Eip2930 | Eip1559 | Eip4844 | Eip7702

record signed_authorization =
  sa_address :: address
  sa_chain_id :: u256
  sa_nonce :: u64
  sa_signature :: "u8 list"

record tx_request =
  tx_from :: "address option"
  tx_to :: "tx_kind option"
  tx_input :: "u8 list option"
  tx_value :: "u256 option"
  tx_nonce :: "u64 option"
  tx_gas :: "u64 option"
  tx_gas_price :: "u128 option"
  tx_max_fee_per_gas :: "u128 option"
  tx_max_priority_fee_per_gas :: "u128 option"
  tx_max_fee_per_blob_gas :: "u128 option"
  tx_chain_id :: "u64 option"
  tx_sidecar :: "u8 list option"
  tx_authorization_list :: "signed_authorization list option"

definition tx_request_default :: tx_request where
  "tx_request_default =
     \<lparr>tx_from = None, tx_to = None, tx_input = None, tx_value = None, tx_nonce = None,
      tx_gas = None, tx_gas_price = None, tx_max_fee_per_gas = None,
      tx_max_priority_fee_per_gas = None, tx_max_fee_per_blob_gas = None, tx_chain_id = None,
      tx_sidecar = None, tx_authorization_list = None\<rparr>"

record named_tx_request =
  ntr_name :: "string option"
  ntr_kind :: "string option"
  ntr_tx :: tx_request

definition named_tx_request_new ::
  "tx_request \<Rightarrow> string option \<Rightarrow> string option \<Rightarrow> named_tx_request" where
  "named_tx_request_new tx name kind = \<lparr>ntr_name = name, ntr_kind = kind, ntr_tx = tx\<rparr>"

definition builder_with_name :: "named_tx_request \<Rightarrow> string \<Rightarrow> named_tx_request" where
  "builder_with_name b name = b\<lparr>ntr_name := Some name\<rparr>"

definition builder_with_kind :: "named_tx_request \<Rightarrow> string \<Rightarrow> named_tx_request" where
  "builder_with_kind b kind = b\<lparr>ntr_kind := Some kind\<rparr>"

datatype execution_request =
    ExTx named_tx_request
  | ExBundle "named_tx_request list"

section \<open>The error of the crate\<close>

datatype runtime_error =
    AnvilMissing
  | AnvilTimeout u64
  | AnvilUnchecked string
  | ChainIdMismatch u64 u64
  | GasLimitMissingFromMap tx_request
  | GenesisBlockMissing
  | InitializationCancelled
  | NamedTxMissingFromAddress named_tx_request
  | NonceMissing address
  | PrivateKeyMissing address
  | SignerMissingFromMap address
  | ContractCodeNotVisible address u64
  | SetupTxReverted string string
  | SpamTxsEmpty
  | TxMissingFromAddress tx_request
  | InvalidParams runtime_param_error
  | ScenarioNotFound

datatype core_error =
    CoreAuthProvider string
  | CoreCallback callback_error
  | CoreDb db_error
  | CoreGenerator generator_error
  | CoreRpc string
  | CoreRpcInternal rpc_error_kind
  | CorePendingTx string
  | CoreRuntime runtime_error
  | CoreTransactionBuilderEth string
  | CoreTemplater templater_error
  | CoreFlashblocks string

section \<open>Definitions of calls and deployments\<close>

record fuzz_param =
  fz_param :: "string option"
  fz_value :: "bool option"
  fz_max_priority_fee_per_gas :: "bool option"
  fz_min :: "u256 option"
  fz_max :: "u256 option"

record function_call_definition =
  fd_to :: string
  fd_from :: "string option"
  fd_from_pool :: "string option"
  fd_signature :: "string option"
  fd_args :: "string list option"
  fd_value :: "string option"
  fd_fuzz :: "fuzz_param list option"
  fd_kind :: "string option"
  fd_gas_limit :: "u64 option"
  fd_blob_data :: "string option"
  fd_authorization_address :: "string option"
  fd_for_all_accounts :: bool
  fd_max_priority_fee_per_gas :: "string option"

definition function_call_new :: "string \<Rightarrow> function_call_definition" where
  "function_call_new to =
     \<lparr>fd_to = to, fd_from = None, fd_from_pool = None, fd_signature = None, fd_args = None,
      fd_value = None, fd_fuzz = None, fd_kind = None, fd_gas_limit = None, fd_blob_data = None,
      fd_authorization_address = None, fd_for_all_accounts = False,
      fd_max_priority_fee_per_gas = None\<rparr>"

definition with_signature :: "function_call_definition \<Rightarrow> string \<Rightarrow> function_call_definition" where
  "with_signature d sig = d\<lparr>fd_signature := Some sig\<rparr>"

definition with_from :: "function_call_definition \<Rightarrow> string \<Rightarrow> function_call_definition" where
  "with_from d from_addr = d\<lparr>fd_from := Some from_addr\<rparr>"

definition with_from_pool :: "function_call_definition \<Rightarrow> string \<Rightarrow> function_call_definition" where
  "with_from_pool d pool = d\<lparr>fd_from_pool := Some pool\<rparr>"

definition with_args :: "function_call_definition \<Rightarrow> string list \<Rightarrow> function_call_definition" where
  "with_args d args = d\<lparr>fd_args := Some args\<rparr>"

definition with_value :: "function_call_definition \<Rightarrow> u256 \<Rightarrow> function_call_definition" where
  "with_value d v = d\<lparr>fd_value := Some (show_nat (unat v))\<rparr>"

definition with_fuzz :: "function_call_definition \<Rightarrow> fuzz_param list \<Rightarrow> function_call_definition" where
  "with_fuzz d fuzz = d\<lparr>fd_fuzz := Some fuzz\<rparr>"

definition with_kind :: "function_call_definition \<Rightarrow> string \<Rightarrow> function_call_definition" where
  "with_kind d kind = d\<lparr>fd_kind := Some kind\<rparr>"

definition with_gas_limit :: "function_call_definition \<Rightarrow> u64 \<Rightarrow> function_call_definition" where
  "with_gas_limit d gas = d\<lparr>fd_gas_limit := Some gas\<rparr>"

definition with_blob_data :: "function_call_definition \<Rightarrow> string \<Rightarrow> function_call_definition" where
  "with_blob_data d b = d\<lparr>fd_blob_data := Some b\<rparr>"

definition with_authorization :: "function_call_definition \<Rightarrow> string \<Rightarrow> function_call_definition" where
  "with_authorization d a = d\<lparr>fd_authorization_address := Some a\<rparr>"

definition with_for_all_accounts :: "function_call_definition \<Rightarrow> bool \<Rightarrow> function_call_definition" where
  "with_for_all_accounts d b = d\<lparr>fd_for_all_accounts := b\<rparr>"

definition with_max_priority_fee_per_gas ::
  "function_call_definition \<Rightarrow> string \<Rightarrow> function_call_definition" where
  "with_max_priority_fee_per_gas d fee = d\<lparr>fd_max_priority_fee_per_gas := Some fee\<rparr>"

record function_call_strict =
  fs_to :: string
  fs_from :: address
  fs_signature :: string
  fs_args :: "string list"
  fs_value :: "string option"
  fs_fuzz :: "fuzz_param list"
  fs_kind :: "string option"
  fs_gas_limit :: "u64 option"
  fs_max_priority_fee_per_gas :: "string option"
  fs_sidecar :: "u8 list option"
  fs_authorization :: "signed_authorization list option"

record compiled_contract =
  cc_bytecode :: string
  cc_name :: string

definition template_name :: "compiled_contract \<Rightarrow> string" where
  "template_name c = ''{'' @ cc_name c @ ''}''"

record create_definition =
  cd_contract :: compiled_contract
  cd_signature :: "string option"
  cd_args :: "string list option"
  cd_from :: "string option"
  cd_from_pool :: "string option"

definition create_definition_new :: "compiled_contract \<Rightarrow> create_definition" where
  "create_definition_new c =
     \<lparr>cd_contract = c, cd_signature = None, cd_args = None, cd_from = None, cd_from_pool = None\<rparr>"

definition create_with_from_pool :: "create_definition \<Rightarrow> string \<Rightarrow> create_definition" where
  "create_with_from_pool d pool = d\<lparr>cd_from_pool := Some pool\<rparr>"

definition create_with_from :: "create_definition \<Rightarrow> string \<Rightarrow> create_definition" where
  "create_with_from d from_addr = d\<lparr>cd_from := Some from_addr\<rparr>"

record create_definition_strict =
  cs_bytecode :: string
  cs_name :: string
  cs_from :: address
  cs_signature :: "string option"
  cs_args :: "string list"

datatype spam_request = SpamTx function_call_definition | SpamBundle "function_call_definition list"

fun is_bundle :: "spam_request \<Rightarrow> bool" where
  "is_bundle (SpamBundle txs) = True"
| "is_bundle (SpamTx d) = False"

section \<open>Constants\<close>

definition VALUE_KEY :: string where "VALUE_KEY = ''__tx_value_contender__''"
definition MAX_PRIORITY_FEE_KEY :: string where
  "MAX_PRIORITY_FEE_KEY = ''__tx_max_priority_fee_contender__''"
definition SENDER_KEY :: string where "SENDER_KEY = ''_sender''"
definition SETCODE_KEY :: string where "SETCODE_KEY = ''_setCodeSender''"

definition placeholder :: "string \<Rightarrow> string" where
  "placeholder name = ''{'' @ name @ ''}''"

definition sender_placeholder :: string where
  "sender_placeholder = placeholder SENDER_KEY"

definition setcode_placeholder :: string where
  "setcode_placeholder = placeholder SETCODE_KEY"

section \<open>Third-party functions\<close>

text \<open>
  \<open>ap_display\<close> is the \<open>to_string\<close> of an ABI parameter (type and name), \<open>ap_type\<close>
  its selector type.  A coerced ABI value is an opaque byte string.
\<close>

record abi_param =
  ap_display :: string
  ap_type :: string

record ext =
  x_parse_address :: "string \<Rightarrow> (address, string) rresult"
  x_parse_u256 :: "string \<Rightarrow> u256 option"
  x_parse_units :: "string \<Rightarrow> string \<Rightarrow> (u256, string) rresult"
  x_parse_function :: "string \<Rightarrow> (abi_param list, string) rresult"
  x_coerce :: "string \<Rightarrow> string \<Rightarrow> (u8 list, string) rresult"
  x_abi_encode :: "string \<Rightarrow> u8 list list \<Rightarrow> (u8 list, string) rresult"
  x_bytes_from_hex :: "string \<Rightarrow> u8 list option"
  x_build_sidecar :: "u8 list \<Rightarrow> u8 list option"
  x_address_string :: "address \<Rightarrow> string"
  x_address_hex :: "address \<Rightarrow> string"
  x_keccak :: "u8 list \<Rightarrow> u8 list"

definition bytes_of_string :: "string \<Rightarrow> u8 list" where
  "bytes_of_string s = map (\<lambda>ch. word_of_nat (of_char ch)) s"

definition sidecar_data ::
  "ext \<Rightarrow> function_call_definition \<Rightarrow> (u8 list option, generator_error) rresult" where
  "sidecar_data x d =
     (case fd_blob_data d of
        None \<Rightarrow> Ok None
      | Some data \<Rightarrow>
          rbind (ok_or (x_bytes_from_hex x
                   (if prefix ''0x'' data then data else encode_hex (bytes_of_string data)))
                  (BlobDataParseFailed data)) (\<lambda>parsed.
          rbind (ok_or (x_build_sidecar x parsed) SidecarBuildFailed) (\<lambda>sc. Ok (Some sc))))"

end
