(* ===== verification/Tx_Request.thy ===== *)
theory Tx_Request
  imports Scenario_Defs Seeder
begin

text \<open>
  \<open>crates/core/src/generator/util.rs\<close> and the constructor-argument encoder of
  \<open>create_def.rs\<close>: calldata, the fee fields of a transaction by its type, value
  strings with units, and the database key of a placeholder.
\<close>

section \<open>Calldata\<close>

definition encode_arg :: "ext \<Rightarrow> abi_param \<times> string \<Rightarrow> (u8 list, util_error) rresult" where
  "encode_arg x = (\<lambda>(p, arg). rmap_err EncodeFunctionArgsFailed (x_coerce x (ap_type p) arg))"

definition encode_calldata ::
  "ext \<Rightarrow> string list \<Rightarrow> string \<Rightarrow> (u8 list, util_error) rresult" where
  "encode_calldata x args sig =
     (if sig = [] then Ok []
      else rbind (rmap_err ParseFunctionSigFailed (x_parse_function x sig)) (\<lambda>inputs.
        if length inputs \<noteq> length args
        then Err (FunctionSignatureNumArgsInvalid sig (length inputs) (length args))
        else rbind (rmapM (encode_arg x) (zip inputs args)) (\<lambda>values.
             rmap_err EncodeFunctionArgsFailed (x_abi_encode x sig values))))"

definition constructor_sig :: "string \<Rightarrow> string" where
  "constructor_sig sig = (if prefix ''('' sig then ''constructor'' @ sig else sig)"

definition strip_selector :: "u8 list \<Rightarrow> u8 list" where
  "strip_selector calldata = (if 4 \<le> length calldata then drop 4 calldata else [])"

definition with_constructor_args ::
  "ext \<Rightarrow> compiled_contract \<Rightarrow> string \<Rightarrow> string list \<Rightarrow> (compiled_contract, util_error) rresult" where
  "with_constructor_args x c sig args =
     rbind (encode_calldata x args (constructor_sig sig)) (\<lambda>calldata.
       Ok (c\<lparr>cc_bytecode := cc_bytecode c @ encode_hex (strip_selector calldata)\<rparr>))"

section \<open>Fees\<close>

function (sequential) complete_tx_request ::
  "tx_request \<Rightarrow> tx_type \<Rightarrow> u128 \<Rightarrow> u128 \<Rightarrow> u64 \<Rightarrow> u64 \<Rightarrow> u128 \<Rightarrow> tx_request" where
  "complete_tx_request tx Legacy gas_price priority_fee gas_limit chain_id blob_gas_price =
     tx\<lparr>tx_gas_price := Some gas_price, tx_gas := Some gas_limit\<rparr>"
| "complete_tx_request tx Eip1559 gas_price priority_fee gas_limit chain_id blob_gas_price =
     tx\<lparr>tx_max_fee_per_gas := Some (max gas_price priority_fee),
        tx_max_priority_fee_per_gas := Some priority_fee,
        tx_chain_id := Some chain_id, tx_gas := Some gas_limit\<rparr>"
| "complete_tx_request tx Eip4844 gas_price priority_fee gas_limit chain_id blob_gas_price =
     (complete_tx_request (tx\<lparr>tx_max_fee_per_blob_gas := Some blob_gas_price\<rparr>) Eip1559
        gas_price priority_fee gas_limit chain_id blob_gas_price)\<lparr>tx_gas := Some gas_limit\<rparr>"
| "complete_tx_request tx Eip7702 gas_price priority_fee gas_limit chain_id blob_gas_price =
     (complete_tx_request tx Eip1559
        gas_price priority_fee gas_limit chain_id blob_gas_price)\<lparr>tx_gas := Some gas_limit\<rparr>"
| "complete_tx_request tx _ gas_price priority_fee gas_limit chain_id blob_gas_price =
     (complete_tx_request tx Legacy
        gas_price priority_fee gas_limit chain_id blob_gas_price)\<lparr>tx_gas := Some gas_limit\<rparr>"
  by pat_completeness auto
termination
  by (relation "measure (\<lambda>(tx, ty, _). case ty of Legacy \<Rightarrow> 0 | Eip1559 \<Rightarrow> 0 | _ \<Rightarrow> 1)") simp_all

section \<open>Values and keys\<close>

text \<open>\<open>char::is_numeric\<close> on ASCII.\<close>

definition unit_start :: "string \<Rightarrow> nat option" where
  "unit_start s =
     (let n = length (takeWhile (\<lambda>c. is_digit c \<or> c = CHR ''.'') s)
      in if n = length s then None else Some n)"

definition parse_value :: "ext \<Rightarrow> string \<Rightarrow> (u256, util_error) rresult" where
  "parse_value x input =
     (let s = to_lowercase (trim input)
      in case x_parse_u256 x s of
           Some v \<Rightarrow> Ok v
         | None \<Rightarrow>
             rbind (ok_or (unit_start s) (InvalidValueNumeric s)) (\<lambda>pos.
             rbind (str_split_at (trim s) pos) (\<lambda>(num_str, unit).
             rmap_err ParseValueFailed (x_parse_units x num_str (trim unit)))))"

datatype num_or_str = Num u256 | Str string

definition deserialize_value :: "ext \<Rightarrow> num_or_str \<Rightarrow> (u256, util_error) rresult" where
  "deserialize_value x v = (case v of Num n \<Rightarrow> Ok n | Str s \<Rightarrow> parse_value x s)"

definition deserialize_value_opt ::
  "ext \<Rightarrow> num_or_str option \<Rightarrow> (u256 option, util_error) rresult" where
  "deserialize_value_opt x v =
     (case v of
        None \<Rightarrow> Ok None
      | Some (Num n) \<Rightarrow> Ok (Some n)
      | Some (Str s) \<Rightarrow> rmap Some (parse_value x s))"

definition scenario_db_key :: "string \<Rightarrow> string option \<Rightarrow> string" where
  "scenario_db_key key label =
     (case label of Some l \<Rightarrow> key @ ''_'' @ l | None \<Rightarrow> key)"

text \<open>A signer is its private key; \<open>signer_of\<close> is \<open>PrivateKeySigner::from_slice\<close>.\<close>

definition generate_setcode_signer ::
  "(u8 list \<Rightarrow> u8 list) \<Rightarrow> (u8 list \<Rightarrow> 'signer option) \<Rightarrow> rand_seed
    \<Rightarrow> ('signer \<times> u8 list, 'e) rresult" where
  "generate_setcode_signer keccak signer_of s =
     rbind (seed_values keccak s 9001 None None) (\<lambda>vs.
       if vs = [] then Panic
       else rbind (expect (signer_of (as_bytes (last vs)))) (\<lambda>sg.
            Ok (sg, as_bytes (last vs))))"

section \<open>Lemmas\<close>

lemma complete_tx_request_gas:
  "tx_gas (complete_tx_request tx ty gp pf gl ch bp) = Some gl"
  by (cases ty) simp_all

lemma unit_start_Some: "unit_start s = Some n \<Longrightarrow> n < length s"
  by (auto simp: unit_start_def Let_def split: if_splits)
     (metis le_neq_implies_less length_takeWhile_le)

lemma is_ws_to_lower [simp]: "is_ws (to_lower c) = is_ws c"
  by (simp add: to_lower_def is_ws_def Let_def)

lemma trim_to_lowercase: "trim (to_lowercase s) = to_lowercase (trim s)"
  by (simp add: trim_def trim_start_def to_lowercase_def dropWhile_map comp_def rev_map)

lemma trim_trim [simp]: "trim (trim s) = trim s"
proof (cases "trim s = []")
  case True
  then show ?thesis by (simp only:) (simp add: trim_def trim_start_def)
next
  case False
  let ?t = "dropWhile is_ws s"
  have eq: "?t = trim s @ rev (takeWhile is_ws (rev ?t))"
    unfolding trim_def trim_start_def by (metis rev_append rev_rev_ident takeWhile_dropWhile_id)
  have "hd ?t = hd (trim s)" using False eq by (metis hd_append2)
  moreover have "?t \<noteq> []" using False eq by (metis Nil_is_append_conv)
  ultimately have "\<not> is_ws (hd (trim s))" using hd_dropWhile [of is_ws s] by simp
  moreover have "\<not> is_ws (last (trim s))"
    using False hd_dropWhile [of is_ws "rev ?t"] by (simp add: trim_def trim_start_def last_rev)
  ultimately show ?thesis using False by (intro trim_id)
qed

lemma trim_surround:
  assumes "core \<noteq> []" and "\<not> is_ws (hd core)" and "\<not> is_ws (last core)"
    and "list_all is_ws a" and "list_all is_ws b"
  shows "trim (a @ core @ b) = core"
proof -
  obtain c cs where c: "core = c # cs" using assms(1) by (cases core) auto
  obtain ds d where d: "core = ds @ [d]" using assms(1) by (cases core rule: rev_cases) auto
  have "dropWhile is_ws (a @ core @ b) = core @ b"
    using assms(2,4) c by (subst dropWhile_append2) (auto simp: list_all_iff)
  moreover have "dropWhile is_ws (rev b @ rev core) = rev core"
    using assms(3,5) d by (subst dropWhile_append2) (auto simp: list_all_iff)
  ultimately show ?thesis by (simp add: trim_def trim_start_def)
qed

lemma of_char_to_lower: "(of_char (to_lower c) :: nat)
    = (if 65 \<le> (of_char c :: nat) \<and> of_char c \<le> (90 :: nat) then of_char c + 32 else of_char c)"
  by (simp add: to_lower_def Let_def)

lemma to_lower_dot: "to_lower c = CHR ''.'' \<Longrightarrow> c = CHR ''.''"
  using of_char_to_lower [of c] by (auto simp: to_lower_def Let_def split: if_splits)

lemma unit_char_lower:
  "\<not> is_digit c \<and> c \<noteq> CHR ''.'' \<Longrightarrow> \<not> is_digit (to_lower c) \<and> to_lower c \<noteq> CHR ''.''"
  "is_ws c \<Longrightarrow> \<not> is_digit (to_lower c) \<and> to_lower c \<noteq> CHR ''.''"
  using to_lower_dot [of c] of_char_to_lower [of c]
  by (auto simp: is_ws_def is_digit_def Let_def split: if_splits)

lemma parse_value_eq:
  "parse_value x input =
     (let s = to_lowercase (trim input)
      in case x_parse_u256 x s of
           Some v \<Rightarrow> Ok v
         | None \<Rightarrow>
             (case unit_start s of
                None \<Rightarrow> Err (InvalidValueNumeric s)
              | Some pos \<Rightarrow>
                  rmap_err ParseValueFailed (x_parse_units x (take pos s) (trim (drop pos s)))))"
proof -
  let ?s = "to_lowercase (trim input)"
  have "trim ?s = ?s" by (simp add: trim_to_lowercase)
  then show ?thesis
    using unit_start_Some [of ?s]
    by (auto simp: parse_value_def Let_def str_split_at_def split: option.splits)
qed

lemma unit_start_append:
  "list_all (\<lambda>c. is_digit c \<or> c = CHR ''.'') num \<Longrightarrow> \<not> is_digit c \<Longrightarrow> c \<noteq> CHR ''.''
    \<Longrightarrow> unit_start (num @ c # rest) = Some (length num)"
  by (induction num) (auto simp: unit_start_def Let_def list_all_iff takeWhile_append)

section \<open>Properties\<close>

text \<open>
  A completed transaction request is well formed for its type, whatever the
  sampled gas price and the requested priority fee: the gas limit is set; a
  dynamic-fee transaction (EIP-1559, EIP-4844, EIP-7702) carries the chain id and
  the requested priority fee, under a fee cap that is at least both the gas
  price and the priority fee and equals one of them; a blob transaction also
  carries the blob fee; every other type gets a gas price and leaves the chain
  id alone.  Fields that are not about fees are untouched.
\<close>

theorem complete_tx_request_well_formed:
  "let tx' = complete_tx_request tx ty gas_price priority_fee gas_limit chain_id blob_gas_price
   in tx_gas tx' = Some gas_limit \<and> tx_from tx' = tx_from tx \<and> tx_to tx' = tx_to tx \<and>
      tx_input tx' = tx_input tx \<and> tx_value tx' = tx_value tx \<and> tx_nonce tx' = tx_nonce tx \<and>
      (if ty = Eip1559 \<or> ty = Eip4844 \<or> ty = Eip7702
       then tx_chain_id tx' = Some chain_id \<and>
            tx_max_priority_fee_per_gas tx' = Some priority_fee \<and>
            (\<exists>cap. tx_max_fee_per_gas tx' = Some cap \<and> priority_fee \<le> cap \<and> gas_price \<le> cap \<and>
                   (cap = gas_price \<or> cap = priority_fee)) \<and>
            tx_max_fee_per_blob_gas tx' =
              (if ty = Eip4844 then Some blob_gas_price else tx_max_fee_per_blob_gas tx)
       else tx_gas_price tx' = Some gas_price \<and> tx_chain_id tx' = tx_chain_id tx \<and>
            tx_max_fee_per_gas tx' = tx_max_fee_per_gas tx)"
  by (cases ty) (auto simp: max_def)

text \<open>
  A value string of digits (and a decimal point), optional spaces and a unit in
  any case is split at the unit: unless the whole string is already a number,
  the result is that of parsing the digits with the trimmed lower-case unit.
  Surrounding white space is ignored.
\<close>

theorem parse_value_splits_unit:
  assumes "num \<noteq> []" and "list_all (\<lambda>c. is_digit c \<or> c = CHR ''.'') num"
    and "unit \<noteq> []" and "list_all (\<lambda>c. \<not> is_ws c \<and> \<not> is_digit c \<and> c \<noteq> CHR ''.'') unit"
    and "list_all is_ws before" and "list_all is_ws between" and "list_all is_ws after"
    and "x_parse_u256 x (num @ between @ to_lowercase unit) = None"
  shows "parse_value x (before @ num @ between @ unit @ after)
    = rmap_err ParseValueFailed (x_parse_units x num (to_lowercase unit))"
proof -
  have lower_num: "to_lowercase num = num"
    using assms(2) by (auto simp: to_lowercase_def list_all_iff to_lower_def is_digit_def Let_def
        intro!: map_idI)
  have lower_between: "to_lowercase between = between"
    using assms(6) by (auto simp: to_lowercase_def list_all_iff to_lower_def is_ws_def Let_def
        intro!: map_idI)
  have digit_not_ws: "\<not> is_ws c" if "is_digit c \<or> c = CHR ''.''" for c
    using that by (auto simp: is_ws_def is_digit_def Let_def)
  have "trim (before @ (num @ between @ unit) @ after) = num @ between @ unit"
  proof (rule trim_surround)
    show "\<not> is_ws (hd (num @ between @ unit))"
      using assms(1,2) digit_not_ws by (cases num) auto
    show "\<not> is_ws (last (num @ between @ unit))"
      using assms(3,4) by (cases unit rule: rev_cases) auto
  qed (use assms(1,5,7) in simp_all)
  moreover have "unit_start (num @ between @ to_lowercase unit) = Some (length num)"
  proof -
    obtain c rest where c: "between @ unit = c # rest" using assms(3) by (cases "between @ unit") auto
    then have "c \<in> set between \<or> c \<in> set unit" by (metis Un_iff list.set_intros(1) set_append)
    then have "(\<not> is_digit c \<and> c \<noteq> CHR ''.'') \<or> is_ws c"
      using assms(4,6) by (auto simp: list_all_iff)
    then have "\<not> is_digit (to_lower c)" "to_lower c \<noteq> CHR ''.''"
      using unit_char_lower [of c] by blast+
    moreover have "between @ to_lowercase unit = to_lower c # to_lowercase rest"
      using c lower_between by (metis list.simps(9) map_append to_lowercase_def)
    ultimately show ?thesis using assms(2) unit_start_append by simp
  qed
  moreover have "trim (between @ to_lowercase unit @ []) = to_lowercase unit"
  proof (rule trim_surround)
    show "\<not> is_ws (hd (to_lowercase unit))" "\<not> is_ws (last (to_lowercase unit))"
      using assms(3,4) by (simp_all add: to_lowercase_def hd_map last_map list_all_iff)
    show "to_lowercase unit \<noteq> []" using assms(3) by (simp add: to_lowercase_def)
  qed (simp_all add: assms(6))
  moreover have "to_lowercase (num @ between @ unit) = num @ between @ to_lowercase unit"
    using lower_num lower_between by (simp add: to_lowercase_def)
  ultimately show ?thesis
    using assms(8) by (simp add: parse_value_eq)
qed

text \<open>
  An instance of the third-party functions, for witnesses: decimal numbers, \<open>gwei\<close>
  as the only unit, hexadecimal addresses, no ABI.
\<close>

definition demo_ext :: ext where
  "demo_ext =
     \<lparr>x_parse_address = (\<lambda>s. if length s = 42 \<and> prefix ''0x'' s
                             then Ok (word_of_nat (hex_val (drop 2 s))) else Err ''invalid address''),
      x_parse_u256 = (\<lambda>s. map_option word_of_nat (parse_uint 256 s)),
      x_parse_units = (\<lambda>n u. case parse_uint 64 n of
                               Some k \<Rightarrow> if u = ''gwei'' then Ok (word_of_nat (k * 10 ^ 9)) else Err ''unit''
                             | None \<Rightarrow> Err ''number''),
      x_parse_function = (\<lambda>s. Ok []),
      x_coerce = (\<lambda>t a. Ok (bytes_of_string a)),
      x_abi_encode = (\<lambda>s vs. Ok (bytes_of_string (take 4 s) @ concat vs)),
      x_bytes_from_hex = (\<lambda>s. Some (bytes_of_string s)),
      x_build_sidecar = (\<lambda>b. Some b),
      x_address_string = (\<lambda>a. ''0x'' @ show_hex_padded 40 (unat a)),
      x_address_hex = (\<lambda>a. show_hex_padded 40 (unat a)),
      x_keccak = (\<lambda>b. be_bytes 32 (be_val b * 7919 + 1))\<rparr>"

lemma demo_value_facts:
  "to_lowercase ''Gwei'' = ''gwei''"
  "list_all (\<lambda>c. is_digit c \<or> c = CHR ''.'') ''10''"
  "list_all (\<lambda>c. \<not> is_ws c \<and> \<not> is_digit c \<and> c \<noteq> CHR ''.'') ''Gwei''"
  "list_all is_ws ''  ''" "list_all is_ws '' ''"
  by code_simp+

lemma demo_gwei_not_number: "x_parse_u256 demo_ext (''10'' @ '' '' @ ''gwei'') = None"
  by (simp add: demo_ext_def parse_uint_def strip_prefix_def is_digit_def Let_def)

lemma demo_gwei: "x_parse_units demo_ext ''10'' ''gwei'' = Ok 10000000000"
  by (simp add: demo_ext_def parse_uint_def strip_prefix_def is_digit_def digits_val_def
      digit_val_def Let_def)

theorem parse_value_splits_unit_witness:
  "parse_value demo_ext (''  '' @ ''10'' @ '' '' @ ''Gwei'' @ []) = Ok 10000000000"
  using demo_value_facts demo_gwei_not_number demo_gwei
  by (subst parse_value_splits_unit) simp_all

end
