(* ===== verification/Templater.thy ===== *)
theory Templater
  imports Tx_Request
begin

text \<open>
  \<open>crates/core/src/generator/templater.rs\<close> with the implementation of its trait in
  \<open>crates/testfile/src/test_config.rs\<close>: finding \<open>{placeholder}\<close>s, looking them up
  in the database, replacing them, and building transaction requests from the
  result.  The database is the function \<open>get_named\<close> from a key to the named
  transaction of the current chain.  Slices that are out of range panic.
\<close>

type_synonym env_map = "(string, string) hmap"

type_synonym named_lookup = "string \<Rightarrow> (named_tx option, db_error) rresult"

section \<open>Placeholders\<close>

definition replace_placeholders :: "env_map \<Rightarrow> string \<Rightarrow> string" where
  "replace_placeholders m input =
     foldl (\<lambda>output (key, value). str_replace (''{'' @ key @ ''}'') value output) input m"

definition terminator_start :: "string \<Rightarrow> nat option" where
  "terminator_start input = find_char (CHR ''{'') input"

definition terminator_end :: "string \<Rightarrow> nat option" where
  "terminator_end input = find_char (CHR ''}'') input"

definition num_placeholders :: "string \<Rightarrow> nat" where
  "num_placeholders input = count_char (CHR ''{'') input"

definition copy_end :: "string \<Rightarrow> nat \<Rightarrow> (string, 'e) rresult" where
  "copy_end input last_end = rmap snd (str_split_at input last_end)"

definition find_key :: "string \<Rightarrow> ((string \<times> nat) option, 'e) rresult" where
  "find_key input =
     (case terminator_start input of
        None \<Rightarrow> Ok None
      | Some template_start \<Rightarrow>
          (case terminator_end input of
             None \<Rightarrow> Ok None
           | Some template_end \<Rightarrow>
               rmap (\<lambda>name. Some (name, template_end))
                 (str_slice input (template_start + 1) template_end)))"

definition lookup_placeholder ::
  "ext \<Rightarrow> named_lookup \<Rightarrow> string option \<Rightarrow> env_map \<Rightarrow> string \<Rightarrow> (env_map, templater_error) rresult" where
  "lookup_placeholder x get_named label m key =
     (if key = SENDER_KEY \<or> key = SETCODE_KEY then Ok m
      else if hm_contains m key then Ok m
      else rbind (rmap_err TemplaterDb (get_named (scenario_db_key key label))) (\<lambda>r.
        case r of
          Some t \<Rightarrow>
            Ok (hm_insert key (case nt_address t of Some a \<Rightarrow> x_address_hex x a | None \<Rightarrow> []) m)
        | None \<Rightarrow> Err (ContractNotFoundInDB key)))"

fun find_placeholder_loop ::
  "ext \<Rightarrow> named_lookup \<Rightarrow> string option \<Rightarrow> string \<Rightarrow> nat \<Rightarrow> string \<Rightarrow> nat \<Rightarrow> env_map
    \<Rightarrow> (env_map, templater_error) rresult" where
  "find_placeholder_loop x get_named label arg 0 template_input last_end m = Ok m"
| "find_placeholder_loop x get_named label arg (Suc n) template_input last_end m =
     rbind (copy_end template_input last_end) (\<lambda>input.
     rbind (find_key input) (\<lambda>k.
     rbind (ok_or k (KeyNotFound arg)) (\<lambda>(key, template_end).
     rbind (lookup_placeholder x get_named label m key) (\<lambda>m'.
       find_placeholder_loop x get_named label arg n input (template_end + 1) m'))))"

definition find_placeholder_values ::
  "ext \<Rightarrow> named_lookup \<Rightarrow> string option \<Rightarrow> string \<Rightarrow> env_map \<Rightarrow> (env_map, templater_error) rresult" where
  "find_placeholder_values x get_named label arg m =
     find_placeholder_loop x get_named label arg (num_placeholders arg) arg 0 m"

definition find_in_all ::
  "ext \<Rightarrow> named_lookup \<Rightarrow> string option \<Rightarrow> string list \<Rightarrow> env_map \<Rightarrow> (env_map, templater_error) rresult" where
  "find_in_all x get_named label args m =
     rfoldl (\<lambda>m arg. find_placeholder_values x get_named label arg m) m args"

definition opt_list :: "'a option \<Rightarrow> 'a list" where
  "opt_list v = (case v of Some a \<Rightarrow> [a] | None \<Rightarrow> [])"

definition find_fncall_placeholders ::
  "ext \<Rightarrow> named_lookup \<Rightarrow> string option \<Rightarrow> function_call_definition \<Rightarrow> env_map
    \<Rightarrow> (env_map, templater_error) rresult" where
  "find_fncall_placeholders x get_named label fncall m =
     find_in_all x get_named label
       ((case fd_args fncall of Some args \<Rightarrow> args | None \<Rightarrow> []) @ opt_list (fd_from fncall) @
        [fd_to fncall] @ opt_list (fd_authorization_address fncall)) m"

definition find_create_placeholders ::
  "ext \<Rightarrow> named_lookup \<Rightarrow> string option \<Rightarrow> create_definition \<Rightarrow> env_map
    \<Rightarrow> (env_map, templater_error) rresult" where
  "find_create_placeholders x get_named label createdef m =
     find_in_all x get_named label
       ((case cd_args createdef of Some args \<Rightarrow> args | None \<Rightarrow> []) @ opt_list (cd_from createdef) @
        [cc_bytecode (cd_contract createdef)]) m"

section \<open>Transaction requests\<close>

fun show_util_error :: "util_error \<Rightarrow> string" where
  "show_util_error (ParseFunctionSigFailed e) = ''failed to parse function signature: '' @ e"
| "show_util_error (ParseValueFailed e) = ''failed to parse '' @ [CHR 0x27] @ ''value'' @ [CHR 0x27] @ '': '' @ e"
| "show_util_error (InvalidValueNumeric s) = ''invalid `value` for tx: '' @ s @
     ''. Must be wei (1234000000000000000) or contain units (1.234 eth)''"
| "show_util_error (FunctionSignatureNumArgsInvalid sig required given) =
     ''invalid args for function signature '' @ [CHR 0x27] @ sig @ [CHR 0x27] @ '': '' @
     show_nat required @ '' param(s) in sig, '' @ show_nat given @ '' args provided''"
| "show_util_error (EncodeFunctionArgsFailed e) = ''failed to encode function args: '' @ e"
| "show_util_error (SignerFailed e) = ''signer failed to sign hash''"

definition template_priority_fee ::
  "ext \<Rightarrow> env_map \<Rightarrow> string \<Rightarrow> (u128, templater_error) rresult" where
  "template_priority_fee x m raw =
     (let resolved = replace_placeholders m raw
      in rbind (rmap_err (\<lambda>e. ParsePriorityFeeFailed resolved (show_util_error e))
                  (parse_value x resolved)) (\<lambda>parsed.
         if unat parsed < 2 ^ 128 then Ok (word_of_nat (unat parsed))
         else Err (ParsePriorityFeeFailed resolved ''value exceeds u128::MAX'')))"

definition template_function_call ::
  "ext \<Rightarrow> function_call_strict \<Rightarrow> env_map \<Rightarrow> (tx_request, templater_error) rresult" where
  "template_function_call x f m =
     rbind (rmap_err TemplaterUtil
              (encode_calldata x (map (replace_placeholders m) (fs_args f)) (fs_signature f)))
       (\<lambda>input.
     let to_text = replace_placeholders m (fs_to f)
     in rbind (rmap_err (\<lambda>_. ParseAddressFailed to_text) (x_parse_address x to_text)) (\<lambda>to_address.
        rbind (case fs_max_priority_fee_per_gas f of
                 None \<Rightarrow> Ok None
               | Some raw \<Rightarrow> rmap Some (template_priority_fee x m raw)) (\<lambda>fee.
        Ok (tx_request_default
              \<lparr>tx_to := Some (TxCall to_address), tx_input := Some input,
               tx_from := Some (fs_from f),
               tx_value := Option.bind (map_option (replace_placeholders m) (fs_value f))
                             (x_parse_u256 x),
               tx_gas := fs_gas_limit f, tx_max_priority_fee_per_gas := fee,
               tx_sidecar := fs_sidecar f, tx_authorization_list := fs_authorization f\<rparr>))))"

definition deploy_bytecode ::
  "ext \<Rightarrow> create_definition_strict \<Rightarrow> env_map \<Rightarrow> (string, templater_error) rresult" where
  "deploy_bytecode x d m =
     (let code = replace_placeholders m (cs_bytecode d)
      in case cs_signature d of
           None \<Rightarrow> Ok code
         | Some sig \<Rightarrow>
             let args = map (\<lambda>arg. if arg = ''{_sender}'' then x_address_string x (cs_from d)
                                   else replace_placeholders m arg) (cs_args d)
             in rbind (rmap_err TemplaterUtil (encode_calldata x args (constructor_sig sig)))
                  (\<lambda>calldata. Ok (code @ encode_hex (strip_selector calldata))))"

definition template_contract_deploy ::
  "ext \<Rightarrow> create_definition_strict \<Rightarrow> env_map \<Rightarrow> (tx_request, templater_error) rresult" where
  "template_contract_deploy x d m =
     rbind (deploy_bytecode x d m) (\<lambda>code.
     rbind (expect (x_bytes_from_hex x code)) (\<lambda>bytes.
     Ok (tx_request_default
           \<lparr>tx_from := Some (cs_from d), tx_to := Some TxCreate, tx_input := Some bytes\<rparr>)))"

section \<open>The reference: a template is a sequence of texts and holes\<close>

datatype segment = Lit string | Hole string

fun render :: "segment list \<Rightarrow> string" where
  "render [] = []"
| "render (Lit s # segs) = s @ render segs"
| "render (Hole k # segs) = ''{'' @ k @ ''}'' @ render segs"

fun holes :: "segment list \<Rightarrow> string list" where
  "holes [] = []"
| "holes (Lit s # segs) = holes segs"
| "holes (Hole k # segs) = k # holes segs"

definition brace_free :: "string \<Rightarrow> bool" where
  "brace_free s \<longleftrightarrow> CHR ''{'' \<notin> set s \<and> CHR ''}'' \<notin> set s"

definition well_formed_template :: "segment list \<Rightarrow> bool" where
  "well_formed_template segs \<longleftrightarrow>
     list_all (\<lambda>s. case s of Lit t \<Rightarrow> brace_free t | Hole k \<Rightarrow> brace_free k) segs"

fun fill :: "env_map \<Rightarrow> segment list \<Rightarrow> string" where
  "fill m [] = []"
| "fill m (Lit s # segs) = s @ fill m segs"
| "fill m (Hole k # segs) =
     (case hm_get m k of Some v \<Rightarrow> v | None \<Rightarrow> ''{'' @ k @ ''}'') @ fill m segs"

fun plug :: "string \<Rightarrow> string \<Rightarrow> segment \<Rightarrow> segment" where
  "plug k v (Lit s) = Lit s"
| "plug k v (Hole k') = (if k' = k then Lit v else Hole k')"

lemma brace_prefix:
  assumes "brace_free k" and "brace_free k'" and "prefix (''{'' @ k @ ''}'') (''{'' @ k' @ ''}'' @ rest)"
  shows "k' = k"
proof -
  from assms(3) obtain w where "k' @ CHR ''}'' # rest = k @ CHR ''}'' # w"
    by (auto simp: prefix_def)
  moreover have "takeWhile (\<lambda>c. c \<noteq> CHR ''}'') (u @ CHR ''}'' # v) = u" if "brace_free u" for u v
    using that by (induction u) (auto simp: brace_free_def)
  ultimately show ?thesis using assms(1,2) by metis
qed

lemma replace_segment:
  assumes "well_formed_template segs" and "brace_free k"
  shows "str_replace (''{'' @ k @ ''}'') v (render segs) = render (map (plug k v) segs)"
  using assms(1)
proof (induction segs)
  case Nil
  then show ?case by (simp add: str_replace_def)
next
  case (Cons s segs)
  then have IH: "str_replace (''{'' @ k @ ''}'') v (render segs) = render (map (plug k v) segs)"
    by (simp add: well_formed_template_def)
  show ?case
  proof (cases s)
    case (Lit t)
    with Cons.prems have "CHR ''{'' \<notin> set t"
      by (simp add: well_formed_template_def brace_free_def)
    with IH Lit show ?thesis by (simp add: str_replace_skip)
  next
    case (Hole k')
    with Cons.prems have k': "brace_free k'" by (simp add: well_formed_template_def)
    show ?thesis
    proof (cases "k' = k")
      case True
      with IH Hole str_replace_hit [of "''{'' @ k @ ''}''" v "render segs"] show ?thesis by simp
    next
      case False
      with brace_prefix [OF assms(2) k'] have
        "\<not> prefix (''{'' @ k @ ''}'') (CHR ''{'' # k' @ ''}'' @ render segs)" by auto
      then have "str_replace (''{'' @ k @ ''}'') v (CHR ''{'' # k' @ ''}'' @ render segs)
          = CHR ''{'' # str_replace (''{'' @ k @ ''}'') v ((k' @ ''}'') @ render segs)"
        by (simp add: str_replace_def str_replace_ne_Cons)
      also have "str_replace (''{'' @ k @ ''}'') v ((k' @ ''}'') @ render segs)
          = (k' @ ''}'') @ str_replace (''{'' @ k @ ''}'') v (render segs)"
        using k' str_replace_skip [of "CHR ''{''" "k' @ ''}''" "k @ ''}''" v "render segs"]
        by (simp add: brace_free_def)
      finally show ?thesis using IH Hole False by simp
    qed
  qed
qed

definition plain_map :: "env_map \<Rightarrow> bool" where
  "plain_map m \<longleftrightarrow> list_all (\<lambda>(k, v). brace_free k \<and> brace_free v) m"

lemma well_formed_plug:
  "well_formed_template segs \<Longrightarrow> brace_free v \<Longrightarrow> well_formed_template (map (plug k v) segs)"
proof (induction segs)
  case (Cons s segs)
  then show ?case by (cases s) (simp_all add: well_formed_template_def)
qed simp

lemma fill_plug: "fill m (map (plug k v) segs) = fill ((k, v) # m) segs"
proof (induction segs)
  case (Cons s segs)
  then show ?case by (cases s) (simp_all add: hm_get_def)
qed simp

lemma replace_fill:
  assumes "well_formed_template segs" and "plain_map m"
  shows "replace_placeholders m (render segs) = fill m segs"
  using assms
proof (induction m arbitrary: segs)
  case Nil
  have "render segs = fill [] segs" by (induction segs rule: render.induct) (simp_all add: hm_get_def)
  then show ?case by (simp add: replace_placeholders_def)
next
  case (Cons kv m)
  obtain k v where kv: "kv = (k, v)" by fastforce
  with Cons.prems have plain: "brace_free k" "brace_free v" "plain_map m"
    by (simp_all add: plain_map_def)
  have "replace_placeholders (kv # m) (render segs)
      = replace_placeholders m (render (map (plug k v) segs))"
    using replace_segment [OF Cons.prems(1) plain(1), of v]
    by (simp add: replace_placeholders_def kv)
  also have "\<dots> = fill m (map (plug k v) segs)"
    using Cons.IH well_formed_plug Cons.prems(1) plain by blast
  finally show ?case by (simp add: fill_plug kv)
qed

lemma count_holes: "well_formed_template segs \<Longrightarrow> num_placeholders (render segs) = length (holes segs)"
  by (induction segs rule: render.induct)
     (auto simp: num_placeholders_def well_formed_template_def brace_free_def)

lemma split_first_hole:
  assumes "well_formed_template segs" and "holes segs = k # ks"
  shows "\<exists>t segs'. render segs = t @ ''{'' @ k @ ''}'' @ render segs' \<and> brace_free t \<and> brace_free k \<and>
    well_formed_template segs' \<and> holes segs' = ks"
  using assms
proof (induction segs rule: holes.induct)
  case (2 s segs)
  then obtain t segs' where "render segs = t @ ''{'' @ k @ ''}'' @ render segs'"
      "brace_free t" "brace_free k" "well_formed_template segs'" "holes segs' = ks"
    by (auto simp: well_formed_template_def)
  moreover have "brace_free s" using 2(2) by (simp add: well_formed_template_def)
  ultimately show ?case
    by (intro exI [of _ "s @ t"] exI [of _ segs']) (auto simp: brace_free_def)
next
  case (3 k' segs)
  then show ?case
    by (intro exI [of _ "[]"] exI [of _ segs]) (auto simp: well_formed_template_def brace_free_def)
qed simp

lemma find_key_first:
  assumes "brace_free t" and "brace_free k"
  shows "find_key (t @ ''{'' @ k @ ''}'' @ rest) = Ok (Some (k, length t + 1 + length k))"
proof -
  have "terminator_start (t @ ''{'' @ k @ ''}'' @ rest) = Some (length t)"
    using assms find_char_append [of "CHR ''{''" t] by (simp add: terminator_start_def brace_free_def)
  moreover have "terminator_end (t @ ''{'' @ k @ ''}'' @ rest) = Some (length t + 1 + length k)"
    using assms find_char_append [of "CHR ''}''" "t @ ''{'' @ k" rest]
    by (simp add: terminator_end_def brace_free_def)
  ultimately show ?thesis by (simp add: find_key_def str_slice_def)
qed

lemma find_loop_holes:
  assumes "well_formed_template segs" and "last_end \<le> length ti" and "drop last_end ti = render segs"
  shows "find_placeholder_loop x g label arg (length (holes segs)) ti last_end m
    = rfoldl (lookup_placeholder x g label) m (holes segs)"
  using assms
proof (induction "holes segs" arbitrary: segs ti last_end m)
  case Nil
  then show ?case by (metis find_placeholder_loop.simps(1) list.size(3) rfoldl.simps(1))
next
  case (Cons k ks)
  obtain t segs' where segs': "render segs = t @ ''{'' @ k @ ''}'' @ render segs'"
      "brace_free t" "brace_free k" "well_formed_template segs'" "holes segs' = ks"
    using split_first_hole [OF Cons.prems(1), of k ks] Cons.hyps(2) by metis
  let ?input = "t @ ''{'' @ k @ ''}'' @ render segs'"
  let ?stop = "length t + 1 + length k + 1"
  have "copy_end ti last_end = (Ok ?input :: (string, templater_error) rresult)"
    using Cons.prems segs'(1) by (simp add: copy_end_def str_split_at_def)
  moreover have "find_placeholder_loop x g label arg (length ks) ?input ?stop m'
      = rfoldl (lookup_placeholder x g label) m' ks" for m'
    using Cons.hyps(1) [OF segs'(5) [symmetric], of ?stop ?input m'] segs'(4,5) by simp
  moreover have "find_key ?input
      = (Ok (Some (k, length t + 1 + length k)) :: ((string \<times> nat) option, templater_error) rresult)"
    using segs'(2,3) by (rule find_key_first)
  ultimately show ?case
    by (cases "lookup_placeholder x g label m k") (simp_all add: Cons.hyps(2) [symmetric])
qed

lemma find_values_holes:
  "well_formed_template segs \<Longrightarrow> find_placeholder_values x g label (render segs) m
     = rfoldl (lookup_placeholder x g label) m (holes segs)"
  unfolding find_placeholder_values_def by (subst count_holes) (simp_all add: find_loop_holes)

lemma hm_insert_plain:
  "plain_map m \<Longrightarrow> brace_free k \<Longrightarrow> brace_free v \<Longrightarrow> plain_map (hm_insert k v m)"
  unfolding plain_map_def hm_insert_def by (induction m) auto

lemma lookup_placeholder_cases:
  assumes "lookup_placeholder x g label m k = Ok m'"
  obtains (kept) "m' = m" "k = SENDER_KEY \<or> k = SETCODE_KEY \<or> hm_get m k \<noteq> None"
    | (added) v where "m' = hm_insert k v m" "hm_get m k = None" "v = [] \<or> (\<exists>a. v = x_address_hex x a)"
proof (cases "k = SENDER_KEY \<or> k = SETCODE_KEY \<or> hm_get m k \<noteq> None")
  case True
  then have "lookup_placeholder x g label m k = Ok m"
    by (auto simp: lookup_placeholder_def hm_contains_def)
  with assms kept True show ?thesis by simp
next
  case False
  with assms obtain r where r: "g (scenario_db_key k label) = Ok r"
    by (auto simp: lookup_placeholder_def hm_contains_def)
  show ?thesis
  proof (cases r)
    case None
    with assms False r show ?thesis by (simp add: lookup_placeholder_def hm_contains_def)
  next
    case (Some t)
    let ?v = "case nt_address t of Some a \<Rightarrow> x_address_hex x a | None \<Rightarrow> []"
    have "m' = hm_insert k ?v m"
      using assms False r Some by (simp add: lookup_placeholder_def hm_contains_def)
    moreover have "?v = [] \<or> (\<exists>a. ?v = x_address_hex x a)" by (cases "nt_address t") auto
    ultimately show ?thesis using False added [of ?v] by blast
  qed
qed

lemma lookup_placeholder_plain:
  assumes "lookup_placeholder x g label m k = Ok m'" and "plain_map m" and "brace_free k"
    and "\<And>a. brace_free (x_address_hex x a)"
  shows "plain_map m'"
  using assms(1)
proof (cases rule: lookup_placeholder_cases)
  case (added v)
  then have "brace_free v" using assms(4) by (auto simp: brace_free_def [of "[]"])
  with added assms(2,3) show ?thesis by (simp add: hm_insert_plain)
qed (use assms in simp)

lemma lookup_placeholder_grows:
  assumes "lookup_placeholder x g label m k = Ok m'"
  shows "(k = SENDER_KEY \<or> k = SETCODE_KEY \<or> hm_get m' k \<noteq> None) \<and>
     (\<forall>k'. hm_get m k' \<noteq> None \<longrightarrow> hm_get m' k' = hm_get m k')"
  using assms by (cases rule: lookup_placeholder_cases) auto

lemma lookup_all:
  assumes "rfoldl (lookup_placeholder x g label) m ks = Ok m'"
  shows "(\<forall>k \<in> set ks. k = SENDER_KEY \<or> k = SETCODE_KEY \<or> hm_get m' k \<noteq> None) \<and>
    (\<forall>k. hm_get m k \<noteq> None \<longrightarrow> hm_get m' k = hm_get m k)"
  using assms
proof (induction ks arbitrary: m)
  case (Cons k ks)
  then obtain m1 where m1: "lookup_placeholder x g label m k = Ok m1"
    and rest: "rfoldl (lookup_placeholder x g label) m1 ks = Ok m'" by auto
  note IH = Cons.IH [OF rest] and step = lookup_placeholder_grows [OF m1]
  then show ?case by (metis set_ConsD)
qed simp

lemma holes_brace_free: "well_formed_template segs \<Longrightarrow> k \<in> set (holes segs) \<Longrightarrow> brace_free k"
  by (induction segs rule: holes.induct) (auto simp: well_formed_template_def)

section \<open>Properties\<close>

text \<open>
  C38. Replacing placeholders one map entry after the other, in whatever order the
  hash map iterates, is simultaneous substitution: in a template whose texts and
  placeholder names contain no braces, every placeholder with an entry becomes
  its value, and everything else stays.  The map's keys and values must be free
  of braces.
\<close>

theorem replace_is_substitution:
  assumes "well_formed_template segs" and "plain_map m"
  shows "replace_placeholders m (render segs) = fill m segs"
  using assms by (rule replace_fill)

definition demo_template :: "segment list" where
  "demo_template = [Lit ''to '', Hole ''weth'', Lit '' from '', Hole ''_sender'']"

lemma demo_template_wf: "well_formed_template demo_template"
  by (simp add: demo_template_def well_formed_template_def brace_free_def)

theorem replace_is_substitution_witness:
  "replace_placeholders [(''dai'', ''0x02''), (''weth'', ''0x01'')] (render demo_template)
    = ''to 0x01 from {_sender}''"
proof -
  have "plain_map [(''dai'', ''0x02''), (''weth'', ''0x01'')]"
    by (simp add: plain_map_def brace_free_def)
  from replace_is_substitution [OF demo_template_wf this] show ?thesis
    by (simp add: demo_template_def hm_get_def)
qed

text \<open>
  Looking placeholders up and replacing them leaves nothing behind.  When
  \<open>find_placeholder_values\<close> succeeds on a template, every placeholder of it other
  than \<open>{_sender}\<close> and \<open>{_setCodeSender}\<close> has an entry in the resulting map, the
  entries that were there before are kept, and \<open>replace_placeholders\<close> with that
  map turns the template into its text with all of them filled in.
\<close>

theorem placeholders_resolved:
  assumes "well_formed_template segs" and "plain_map m"
    and "\<forall>a. brace_free (x_address_hex x a)"
    and "find_placeholder_values x get_named label (render segs) m = Ok m'"
  shows "replace_placeholders m' (render segs) = fill m' segs \<and>
    (\<forall>k \<in> set (holes segs). k = SENDER_KEY \<or> k = SETCODE_KEY \<or> hm_get m' k \<noteq> None) \<and>
    (\<forall>k. hm_get m k \<noteq> None \<longrightarrow> hm_get m' k = hm_get m k)"
proof -
  have fold: "rfoldl (lookup_placeholder x get_named label) m (holes segs) = Ok m'"
    using assms(1,4) by (simp add: find_values_holes)
  have "plain_map m'"
    using fold assms(2) by (rule rfoldl_inv)
      (use assms(1,3) holes_brace_free lookup_placeholder_plain in blast)
  with assms(1) have "replace_placeholders m' (render segs) = fill m' segs" by (rule replace_fill)
  with lookup_all [OF fold] show ?thesis by blast
qed

definition demo_named_lookup :: named_lookup where
  "demo_named_lookup key =
     (if key = ''weth'' then Ok (Some (named_tx_new ''weth'' 7 (Some 0xAB))) else Ok None)"

lemma demo_find: "find_placeholder_values demo_ext demo_named_lookup None (render demo_template) []
    = Ok [(''weth'', show_hex_padded 40 0xAB)]"
  by (subst find_values_holes [OF demo_template_wf])
     (simp add: demo_template_def lookup_placeholder_def demo_named_lookup_def SENDER_KEY_def
       SETCODE_KEY_def hm_contains_def scenario_db_key_def named_tx_new_def demo_ext_def hm_insert_def)

lemma demo_hex_brace_free: "\<forall>a. brace_free (x_address_hex demo_ext a)"
proof
  fix a :: address
  have "of_char c < (123 :: nat)" if "c \<in> set (show_base 16 n)" for c n
    using that
  proof (induction n rule: less_induct)
    case (less n)
    show ?case
    proof (cases "n < 16")
      case True
      with less.prems show ?thesis by (auto simp: show_base.simps [of 16 n] digit_char_def)
    next
      case False
      then have "n div 16 < n" by simp
      from less.IH [OF this] less.prems False show ?thesis
        by (auto simp: show_base.simps [of 16 n] digit_char_def)
    qed
  qed
  then have "c \<noteq> CHR ''{'' \<and> c \<noteq> CHR ''}''" if "c \<in> set (show_base 16 n)" for c n
    using that by fastforce
  then show "brace_free (x_address_hex demo_ext a)"
    by (auto simp: demo_ext_def brace_free_def show_hex_padded_def pad_left_def)
qed

theorem placeholders_resolved_witness:
  "replace_placeholders [(''weth'', show_hex_padded 40 0xAB)] (render demo_template)
    = ''to '' @ show_hex_padded 40 0xAB @ '' from {_sender}''"
proof -
  have "plain_map []" by (simp add: plain_map_def)
  from placeholders_resolved [OF demo_template_wf this demo_hex_brace_free demo_find] show ?thesis
    by (simp add: demo_template_def hm_get_def)
qed

text \<open>
  A closing brace before the first placeholder makes the scan panic: the key is
  sliced from after the first opening brace to the first closing brace, and the
  slice is out of order.
\<close>

theorem stray_brace_panics:
  assumes "CHR ''{'' \<notin> set u" and "CHR ''}'' \<in> set u" and "brace_free k"
  shows "find_placeholder_values x get_named label (u @ ''{'' @ k @ ''}'' @ rest) m = Panic"
proof -
  let ?s = "u @ ''{'' @ k @ ''}'' @ rest"
  obtain i where i: "find_char (CHR ''}'') u = Some i"
    using assms(2) by (cases "find_char (CHR ''}'') u") auto
  then have "i < length u" by (simp add: find_char_Some)
  moreover have "find_char (CHR ''}'') ?s = Some i"
    using i by (simp add: find_char_Some nth_append)
  moreover have "find_char (CHR ''{'') ?s = Some (length u)"
    using assms(1) find_char_append by fastforce
  ultimately have "find_key ?s = (Panic :: (_, templater_error) rresult)"
    by (simp add: find_key_def terminator_start_def terminator_end_def str_slice_def)
  moreover obtain n where "num_placeholders ?s = Suc n" by (simp add: num_placeholders_def)
  ultimately show ?thesis
    by (simp add: find_placeholder_values_def copy_end_def str_split_at_def)
qed

theorem stray_brace_panics_witness:
  "find_placeholder_values demo_ext demo_named_lookup None (''}, '' @ ''{'' @ ''weth'' @ ''}'' @ []) []
    = Panic"
  by (rule stray_brace_panics) (simp_all add: brace_free_def)

end
