(* ===== verification/Fuzzing.thy ===== *)
theory Fuzzing
  imports Templater
begin

text \<open>
  The fuzzer of \<open>crates/core/src/generator/trait.rs\<close>: which key a fuzz directive
  writes to, the map of fuzzed values derived from the scenario seed, and how the
  arguments, the value and the priority fee of a call are replaced by them.
  The hash is \<open>x_keccak\<close>.
\<close>

type_synonym fuzz_map = "(string, u256 list) hmap"

definition parse_map_key :: "fuzz_param \<Rightarrow> (string, generator_error) rresult" where
  "parse_map_key fuzz =
     (let set_count = length (filter (\<lambda>b. b)
            [fz_param fuzz \<noteq> None, fz_value fuzz \<noteq> None, fz_max_priority_fee_per_gas fuzz \<noteq> None])
      in if set_count = 0 then Err FuzzMissingParams
         else if set_count > 1 then Err FuzzConflictingParams
         else case fz_param fuzz of
                Some param \<Rightarrow> Ok param
              | None \<Rightarrow>
                  (case (fz_value fuzz, fz_max_priority_fee_per_gas fuzz) of
                     (Some b, _) \<Rightarrow> if b then Ok VALUE_KEY else Err FuzzValueNeedsParam
                   | (None, Some b) \<Rightarrow> if b then Ok MAX_PRIORITY_FEE_KEY else Err FuzzValueNeedsParam
                   | (None, None) \<Rightarrow> Err FuzzInvalid))"

definition fuzz_param_seed :: "ext \<Rightarrow> u256 \<Rightarrow> string \<Rightarrow> rand_seed" where
  "fuzz_param_seed x base_seed key =
     seed_from_bytes (x_keccak x (be_bytes 32 (unat base_seed) @ bytes_of_string key))"

definition fuzz_step ::
  "ext \<Rightarrow> u256 \<Rightarrow> nat \<Rightarrow> fuzz_map \<Rightarrow> fuzz_param \<Rightarrow> (fuzz_map, generator_error) rresult" where
  "fuzz_step x base_seed num_values m fuzz =
     rbind (parse_map_key fuzz) (\<lambda>key.
     rbind (seed_values (x_keccak x) (fuzz_param_seed x base_seed key) num_values
              (fz_min fuzz) (fz_max fuzz)) (\<lambda>values.
     Ok (hm_insert key (map as_u256 values) m)))"

definition create_fuzz_map ::
  "ext \<Rightarrow> rand_seed \<Rightarrow> nat \<Rightarrow> fuzz_param list \<Rightarrow> (fuzz_map, generator_error) rresult" where
  "create_fuzz_map x base_seed num_values fuzz_args =
     rbind (seed_values (x_keccak x) base_seed 1 None None) (\<lambda>first.
     rbind (expect (case first of [] \<Rightarrow> None | s # _ \<Rightarrow> Some s)) (\<lambda>s.
     rfoldl (fuzz_step x (as_u256 s) num_values) hm_empty fuzz_args))"

definition index_at :: "'a list \<Rightarrow> nat \<Rightarrow> ('a, 'e) rresult" where
  "index_at xs i = (if i < length xs then Ok (xs ! i) else Panic)"

definition maybe_fuzz ::
  "abi_param \<Rightarrow> fuzz_map \<Rightarrow> nat \<Rightarrow> (string option, generator_error) rresult" where
  "maybe_fuzz p m fuzz_idx =
     (case split_ascii_whitespace (ap_display p) of
        param_type # arg_name # _ \<Rightarrow>
          (case hm_get m arg_name of
             None \<Rightarrow> Ok None
           | Some values \<Rightarrow>
               rbind (index_at values fuzz_idx) (\<lambda>fuzzed_value.
               Ok (Some (if param_type = ''address''
                         then ''0x'' @ show_hex_padded 40 (unat fuzzed_value)
                         else show_nat (unat fuzzed_value)))))
      | _ \<Rightarrow> Ok None)"

definition get_fuzzed_args ::
  "ext \<Rightarrow> function_call_definition \<Rightarrow> fuzz_map \<Rightarrow> nat \<Rightarrow> (string list, generator_error) rresult" where
  "get_fuzzed_args x tx m fuzz_idx =
     (case fd_signature tx of
        None \<Rightarrow> Ok []
      | Some sig \<Rightarrow>
          rbind (rmap_err AbiParserFailed (x_parse_function x sig)) (\<lambda>inputs.
          let tx_args = (case fd_args tx of Some args \<Rightarrow> args | None \<Rightarrow> [])
          in if tx_args \<noteq> [] \<and> length inputs < length tx_args
             then Err (SignatureArgsMismatch (length inputs) (length tx_args))
             else rmapM (\<lambda>(idx, arg).
                    rbind (index_at inputs idx) (\<lambda>p.
                    rbind (maybe_fuzz p m fuzz_idx) (\<lambda>f.
                    Ok (case f of Some v \<Rightarrow> v | None \<Rightarrow> arg)))) (List.enumerate 0 tx_args)))"

fun fuzzed_flag_value ::
  "(fuzz_param \<Rightarrow> bool option) \<Rightarrow> string \<Rightarrow> fuzz_map \<Rightarrow> nat \<Rightarrow> fuzz_param list
    \<Rightarrow> (string option, generator_error) rresult" where
  "fuzzed_flag_value flag key m fuzz_idx [] = Ok None"
| "fuzzed_flag_value flag key m fuzz_idx (p # ps) =
     (if flag p = Some True
      then rbind (ok_or (hm_get m key) ValueFuzzerNotInitialized) (\<lambda>values.
           rbind (index_at values fuzz_idx) (\<lambda>v. Ok (Some (show_nat (unat v)))))
      else fuzzed_flag_value flag key m fuzz_idx ps)"

definition get_fuzzed_tx_value ::
  "function_call_definition \<Rightarrow> fuzz_map \<Rightarrow> nat \<Rightarrow> (string option, generator_error) rresult" where
  "get_fuzzed_tx_value tx m fuzz_idx =
     (case fd_fuzz tx of
        None \<Rightarrow> Ok None
      | Some fuzz \<Rightarrow> fuzzed_flag_value fz_value VALUE_KEY m fuzz_idx fuzz)"

definition get_fuzzed_max_priority_fee_per_gas ::
  "function_call_definition \<Rightarrow> fuzz_map \<Rightarrow> nat \<Rightarrow> (string option, generator_error) rresult" where
  "get_fuzzed_max_priority_fee_per_gas tx m fuzz_idx =
     (case fd_fuzz tx of
        None \<Rightarrow> Ok None
      | Some fuzz \<Rightarrow>
          fuzzed_flag_value fz_max_priority_fee_per_gas MAX_PRIORITY_FEE_KEY m fuzz_idx fuzz)"

section \<open>Points for proofs\<close>

text \<open>
  \<open>bn254_points.rs\<close>: multiplying the generator of a curve group by a scalar is a
  third-party function; it returns affine coordinates as little-endian lists of
  four 64-bit limbs.
\<close>

definition point_scalar :: "nat \<Rightarrow> nat" where
  "point_scalar index = (if index = 0 then index + 1 else index)"

definition coordinate :: "u64 list \<Rightarrow> u256" where
  "coordinate limbs = word_of_nat (be_val (concat (map (\<lambda>l. be_bytes 8 (unat l)) (rev limbs))))"

definition generate_g1_point :: "(u64 \<Rightarrow> u64 list \<times> u64 list) \<Rightarrow> nat \<Rightarrow> u256 \<times> u256" where
  "generate_g1_point g1_mul index =
     (case g1_mul (word_of_nat (point_scalar index)) of (x, y) \<Rightarrow> (coordinate x, coordinate y))"

definition generate_g2_point ::
  "(u64 \<Rightarrow> (u64 list \<times> u64 list) \<times> (u64 list \<times> u64 list)) \<Rightarrow> nat \<Rightarrow> (u256 \<times> u256) \<times> (u256 \<times> u256)" where
  "generate_g2_point g2_mul index =
     (case g2_mul (word_of_nat (point_scalar index)) of
        ((x0, x1), (y0, y1)) \<Rightarrow> ((coordinate x0, coordinate x1), (coordinate y0, coordinate y1)))"

section \<open>Lemmas\<close>

definition fuzz_in_range :: "fuzz_param \<Rightarrow> u256 \<Rightarrow> bool" where
  "fuzz_in_range fuzz v \<longleftrightarrow>
     case_option 0 (\<lambda>n. n) (fz_min fuzz) \<le> v \<and> v < case_option (- 1) (\<lambda>n. n) (fz_max fuzz)"

definition fuzz_entry_ok :: "nat \<Rightarrow> fuzz_param list \<Rightarrow> string \<Rightarrow> u256 list \<Rightarrow> bool" where
  "fuzz_entry_ok n args k vs \<longleftrightarrow>
     length vs = n \<and>
     list_ex (\<lambda>fuzz. parse_map_key fuzz = Ok k \<and> list_all (fuzz_in_range fuzz) vs) args"

lemma fuzz_step_Ok:
  assumes "fuzz_step x b n m fuzz = Ok m'"
  shows "\<exists>k vs. parse_map_key fuzz = Ok k \<and> m' = hm_insert k vs m \<and> length vs = n \<and>
    list_all (fuzz_in_range fuzz) vs"
  using assms seed_value_at_range
  by (fastforce simp: fuzz_step_def seed_values_Ok fuzz_in_range_def list_all_iff)

lemma fuzz_fold:
  assumes "rfoldl (fuzz_step x b n) m0 args = Ok m"
  shows "list_all (\<lambda>fuzz. \<exists>k. parse_map_key fuzz = Ok k \<and> hm_contains m k) args \<and>
    (\<forall>k vs. hm_get m k = Some vs \<longrightarrow> hm_get m0 k = Some vs \<or> fuzz_entry_ok n args k vs) \<and>
    (\<forall>k. hm_contains m0 k \<longrightarrow> hm_contains m k)"
  using assms
proof (induction args arbitrary: m0)
  case (Cons fuzz args)
  from Cons.prems obtain m1 where step: "fuzz_step x b n m0 fuzz = Ok m1"
    and rest: "rfoldl (fuzz_step x b n) m1 args = Ok m" by auto
  from fuzz_step_Ok [OF step] obtain k vs where k: "parse_map_key fuzz = Ok k"
    and m1: "m1 = hm_insert k vs m0" and vs: "length vs = n" "list_all (fuzz_in_range fuzz) vs" by blast
  have old: "\<And>j. hm_contains m0 j \<or> j = k \<Longrightarrow> hm_contains m1 j"
    by (auto simp: m1 hm_contains_def)
  have new: "hm_get m0 j = Some ws \<or> fuzz_entry_ok n (fuzz # args) j ws"
    if "hm_get m1 j = Some ws" for j ws
    using that k vs by (auto simp: m1 fuzz_entry_ok_def split: if_splits)
  from Cons.IH [OF rest] old new k show ?case
    by (fastforce simp: fuzz_entry_ok_def)
qed simp

lemma maybe_fuzz_Ok:
  assumes "\<And>k vs. hm_get m k = Some vs \<Longrightarrow> i < length vs"
  shows "\<exists>f. maybe_fuzz p m i = Ok f"
  using assms by (auto simp: maybe_fuzz_def index_at_def split: list.splits option.splits)

section \<open>Properties\<close>

text \<open>
  C37. The fuzz map serves every directive.  If \<open>create_fuzz_map\<close> succeeds, each
  directive has an entry under its key, and each entry consists of exactly
  \<open>num_values\<close> values that lie in the half-open range of a directive with that key.
\<close>

theorem fuzz_map_serves_directives:
  assumes "create_fuzz_map x s num_values fuzz_args = Ok m"
  shows "list_all (\<lambda>fuzz. \<exists>k. parse_map_key fuzz = Ok k \<and> hm_contains m k) fuzz_args \<and>
    (\<forall>k vs. hm_get m k = Some vs \<longrightarrow> length vs = num_values \<and>
       list_ex (\<lambda>fuzz. parse_map_key fuzz = Ok k \<and>
         list_all (\<lambda>v. case_option 0 (\<lambda>n. n) (fz_min fuzz) \<le> v \<and>
                       v < case_option (- 1) (\<lambda>n. n) (fz_max fuzz)) vs) fuzz_args)"
  using assms
  by (auto simp: create_fuzz_map_def fuzz_entry_ok_def fuzz_in_range_def [abs_def]
      dest!: fuzz_fold)

definition demo_fuzz :: fuzz_param where
  "demo_fuzz = \<lparr>fz_param = Some ''amount'', fz_value = None, fz_max_priority_fee_per_gas = None,
     fz_min = Some 10, fz_max = Some 20\<rparr>"

lemma demo_fuzz_map: "\<exists>m. create_fuzz_map demo_ext (seed_from_u256 7) 3 [demo_fuzz] = Ok m"
proof -
  have "(0::u256) < - 1" by (simp add: word_gt_0)
  then show ?thesis
    by (simp add: create_fuzz_map_def seed_values_def fuzz_step_def parse_map_key_def demo_fuzz_def)
qed

theorem fuzz_map_serves_directives_witness:
  "\<exists>m vs. create_fuzz_map demo_ext (seed_from_u256 7) 3 [demo_fuzz] = Ok m \<and>
     hm_get m ''amount'' = Some vs \<and> length vs = 3 \<and> list_all (\<lambda>v. 10 \<le> v \<and> v < 20) vs"
proof -
  obtain m where m: "create_fuzz_map demo_ext (seed_from_u256 7) 3 [demo_fuzz] = Ok m"
    using demo_fuzz_map by blast
  have key: "parse_map_key demo_fuzz = Ok ''amount''"
    by (simp add: parse_map_key_def demo_fuzz_def)
  from fuzz_map_serves_directives [OF m] key obtain vs where "hm_get m ''amount'' = Some vs"
    by (auto simp: hm_contains_def)
  with fuzz_map_serves_directives [OF m] m show ?thesis
    by (auto simp: demo_fuzz_def)
qed

text \<open>
  Fuzzing the arguments of a call neither panics nor changes their number.
  When every entry of the fuzz map has a value at \<open>fuzz_idx\<close>, the result for a
  call whose signature parses is the mismatch error if there are more arguments
  than parameters, and otherwise a list as long as the arguments in which each
  argument is unchanged unless its parameter is named in the fuzz map.
\<close>

theorem fuzzed_args_total:
  assumes "\<And>k vs. hm_get m k = Some vs \<Longrightarrow> fuzz_idx < length vs"
    and "fd_signature tx = Some sig" and "x_parse_function x sig = Ok inputs"
    and "fd_args tx = Some args"
  shows "if length inputs < length args
    then get_fuzzed_args x tx m fuzz_idx = Err (SignatureArgsMismatch (length inputs) (length args))
    else \<exists>args'. get_fuzzed_args x tx m fuzz_idx = Ok args' \<and> length args' = length args \<and>
      (\<forall>i < length args. maybe_fuzz (inputs ! i) m fuzz_idx = Ok None \<longrightarrow> args' ! i = args ! i)"
proof (cases "length inputs < length args")
  case True
  then have "args \<noteq> []" by auto
  with True assms(2-4) show ?thesis by (simp add: get_fuzzed_args_def)
next
  case False
  let ?f = "\<lambda>(idx, arg). rbind (index_at inputs idx) (\<lambda>p. rbind (maybe_fuzz p m fuzz_idx) (\<lambda>f.
              Ok (case f of Some v \<Rightarrow> v | None \<Rightarrow> arg)))"
  have "\<exists>y. ?f a = Ok y" if "a \<in> set (List.enumerate 0 args)" for a
    using that False maybe_fuzz_Ok [of m fuzz_idx, OF assms(1)]
    by (fastforce simp: index_at_def in_set_enumerate_eq split: prod.splits)
  then obtain args' where args': "rmapM ?f (List.enumerate 0 args) = Ok args'"
    using rmapM_exists [of "List.enumerate 0 args" ?f] by blast
  then have "list_all2 (\<lambda>a y. ?f a = Ok y) (List.enumerate 0 args) args'"
    by (simp only: rmapM_eq_Ok)
  then have "length args' = length args"
    and "\<And>i. i < length args \<Longrightarrow> ?f (i, args ! i) = Ok (args' ! i)"
    by (auto simp: list_all2_conv_all_nth nth_enumerate_eq)
  then show ?thesis
    using False args' assms(2-4) by (fastforce simp: get_fuzzed_args_def index_at_def)
qed

definition demo_abi :: ext where
  "demo_abi = demo_ext\<lparr>x_parse_function := (\<lambda>s. Ok
     [\<lparr>ap_display = ''address guy'', ap_type = ''address''\<rparr>,
      \<lparr>ap_display = ''uint256 wad'', ap_type = ''uint256''\<rparr>])\<rparr>"

definition demo_call :: function_call_definition where
  "demo_call = with_args (with_signature (function_call_new ''{erc20}'') ''mint(address guy, uint256 wad)'')
     [''{_sender}'', ''1'']"

theorem fuzzed_args_total_witness:
  "\<exists>args'. get_fuzzed_args demo_abi demo_call [(''wad'', [5, 9])] 1 = Ok args' \<and>
     length args' = 2 \<and> args' ! 0 = ''{_sender}''"
proof -
  let ?m = "[(''wad'', [5, 9])] :: fuzz_map"
  have "1 < length vs" if "hm_get ?m k = Some vs" for k vs
    using that by (auto simp: hm_get_def split: if_splits)
  moreover have "maybe_fuzz \<lparr>ap_display = ''address guy'', ap_type = ''address''\<rparr> ?m 1 = Ok None"
    by (simp add: maybe_fuzz_def hm_get_def split_ascii_whitespace_def is_ws_def)
  ultimately show ?thesis
    using fuzzed_args_total [of ?m 1 demo_call "''mint(address guy, uint256 wad)''" demo_abi
        "[\<lparr>ap_display = ''address guy'', ap_type = ''address''\<rparr>, \<lparr>ap_display = ''uint256 wad'', ap_type = ''uint256''\<rparr>]"
        "[''{_sender}'', ''1'']"]
    by (auto simp: demo_call_def demo_abi_def with_args_def with_signature_def function_call_new_def)
qed

text \<open>
  A fuzzed address has the width of an address only for small values.  For a
  parameter of type \<open>address\<close> whose fuzzed value is \<open>v\<close>, the text has 42
  characters (and then denotes \<open>v\<close>) exactly if \<open>v\<close> is below \<open>2 ^ 160\<close>: the
  value is not reduced to 160 bits, so without an upper bound in the directive
  the argument is not an address.
\<close>

theorem fuzzed_address_width:
  assumes "split_ascii_whitespace (ap_display p) = ''address'' # arg_name # rest"
    and "hm_get m arg_name = Some vs" and "fuzz_idx < length vs"
  shows "\<exists>text. maybe_fuzz p m fuzz_idx = Ok (Some text) \<and> prefix ''0x'' text \<and>
    hex_val (drop 2 text) = unat (vs ! fuzz_idx) \<and>
    (length text = 42 \<longleftrightarrow> unat (vs ! fuzz_idx) < 2 ^ 160)"
proof -
  have "(16 :: nat) ^ 40 = 2 ^ 160" by simp
  with length_show_hex_padded [of 40 "unat (vs ! fuzz_idx)"] assms show ?thesis
    by (simp add: maybe_fuzz_def index_at_def hex_val_padded)
qed

theorem fuzzed_address_width_witness:
  "\<exists>text. maybe_fuzz \<lparr>ap_display = ''address guy'', ap_type = ''address''\<rparr> [(''guy'', [- 1])] 0
      = Ok (Some text) \<and> length text \<noteq> 42"
proof -
  let ?p = "\<lparr>ap_display = ''address guy'', ap_type = ''address''\<rparr>"
  have split: "split_ascii_whitespace (ap_display ?p) = ''address'' # ''guy'' # []"
    by (simp add: split_ascii_whitespace_def is_ws_def)
  have "\<not> unat (- 1 :: u256) < 2 ^ 160"
    by (simp add: unat_max_word)
  with fuzzed_address_width [OF split, of "[(''guy'', [- 1])]" "[- 1]" 0] show ?thesis
    by (auto simp: hm_get_def)
qed

end
