(* ===== verification/Test_Config.thy ===== *)
theory Test_Config
  imports Scenario_Defs "HOL-Library.Char_ord" "HOL-Library.List_Lexorder"
begin

text \<open>
  \<open>crates/testfile/src/test_config.rs\<close> (the scenario file and its \<open>PlanConfig\<close>) and
  the pool queries of the \<open>PlanConfig\<close> trait in
  \<open>crates/core/src/generator/trait.rs\<close>.  TOML decoding is done by a third-party
  crate; the model starts from the decoded value.  Strings are ordered
  lexicographically, as Rust orders them.
\<close>

record test_config =
  tc_env :: "(string, string) hmap option"
  tc_create :: "create_definition list option"
  tc_setup :: "function_call_definition list option"
  tc_spam :: "spam_request list option"

definition test_config_new :: test_config where
  "test_config_new = \<lparr>tc_env = None, tc_create = None, tc_setup = None, tc_spam = None\<rparr>"

definition with_env :: "test_config \<Rightarrow> (string, string) hmap \<Rightarrow> test_config" where
  "with_env c e = c\<lparr>tc_env := Some e\<rparr>"

definition with_create :: "test_config \<Rightarrow> create_definition list \<Rightarrow> test_config" where
  "with_create c l = c\<lparr>tc_create := Some l\<rparr>"

definition with_setup :: "test_config \<Rightarrow> function_call_definition list \<Rightarrow> test_config" where
  "with_setup c l = c\<lparr>tc_setup := Some l\<rparr>"

definition with_spam :: "test_config \<Rightarrow> spam_request list \<Rightarrow> test_config" where
  "with_spam c l = c\<lparr>tc_spam := Some l\<rparr>"

section \<open>Overriding senders\<close>

definition override_create :: "string \<Rightarrow> create_definition \<Rightarrow> create_definition" where
  "override_create a d = d\<lparr>cd_from := Some a, cd_from_pool := None\<rparr>"

definition override_call :: "string \<Rightarrow> function_call_definition \<Rightarrow> function_call_definition" where
  "override_call a d = d\<lparr>fd_from := Some a, fd_from_pool := None\<rparr>"

fun override_spam :: "string \<Rightarrow> spam_request \<Rightarrow> spam_request" where
  "override_spam a (SpamBundle txs) = SpamBundle (map (override_call a) txs)"
| "override_spam a (SpamTx tx) = SpamTx (override_call a tx)"

definition override_senders :: "ext \<Rightarrow> test_config \<Rightarrow> address \<Rightarrow> test_config" where
  "override_senders x c from_address =
     (let a = x_address_string x from_address
      in c\<lparr>tc_create := map_option (map (override_create a)) (tc_create c),
           tc_setup := map_option (map (override_call a)) (tc_setup c),
           tc_spam := map_option (map (override_spam a)) (tc_spam c)\<rparr>)"

section \<open>Steps\<close>

definition default_call_pool :: "string \<Rightarrow> function_call_definition \<Rightarrow> function_call_definition" where
  "default_call_pool pool d =
     (if fd_from d = None \<and> fd_from_pool d = None then d\<lparr>fd_from_pool := Some pool\<rparr> else d)"

definition default_create_pool :: "string \<Rightarrow> create_definition \<Rightarrow> create_definition" where
  "default_create_pool pool d =
     (if cd_from d = None \<and> cd_from_pool d = None then d\<lparr>cd_from_pool := Some pool\<rparr> else d)"

fun default_spam_pool :: "spam_request \<Rightarrow> spam_request" where
  "default_spam_pool (SpamTx d) = SpamTx (default_call_pool ''spammers'' d)"
| "default_spam_pool (SpamBundle txs) = SpamBundle (map (default_call_pool ''spammers'') txs)"

definition unwrap_or_default :: "'a list option \<Rightarrow> 'a list" where
  "unwrap_or_default v = (case v of Some l \<Rightarrow> l | None \<Rightarrow> [])"

definition get_spam_steps :: "test_config \<Rightarrow> spam_request list" where
  "get_spam_steps c = map default_spam_pool (unwrap_or_default (tc_spam c))"

definition get_setup_steps :: "test_config \<Rightarrow> function_call_definition list" where
  "get_setup_steps c = map (default_call_pool ''admin'') (unwrap_or_default (tc_setup c))"

definition get_create_steps :: "test_config \<Rightarrow> create_definition list" where
  "get_create_steps c = map (default_create_pool ''admin'') (unwrap_or_default (tc_create c))"

definition get_env :: "test_config \<Rightarrow> (string, string) hmap" where
  "get_env c = unwrap_or_default (tc_env c)"

section \<open>Pools\<close>

fun spam_calls :: "spam_request \<Rightarrow> function_call_definition list" where
  "spam_calls (SpamTx d) = [d]"
| "spam_calls (SpamBundle txs) = txs"

definition sort_dedup :: "string list \<Rightarrow> string list" where
  "sort_dedup l = remdups_adj (sort l)"

definition get_create_pools :: "test_config \<Rightarrow> string list" where
  "get_create_pools c = sort_dedup (List.map_filter cd_from_pool (get_create_steps c))"

definition get_setup_pools :: "test_config \<Rightarrow> string list" where
  "get_setup_pools c = sort_dedup (List.map_filter fd_from_pool (get_setup_steps c))"

definition get_spam_pools :: "test_config \<Rightarrow> string list" where
  "get_spam_pools c =
     sort_dedup (List.map_filter fd_from_pool (concat (map spam_calls (get_spam_steps c))))"

section \<open>Lemmas\<close>

lemma set_sort_dedup [simp]: "set (sort_dedup l) = set l"
  by (simp add: sort_dedup_def)

lemma sorted_sort_dedup: "sorted (sort_dedup l) \<and> distinct (sort_dedup l)"
proof -
  have "sorted (remdups_adj xs)" and "distinct (remdups_adj xs)" if "sorted xs" for xs :: "string list"
    using that
  proof (induction xs rule: remdups_adj.induct)
    case (3 x y xs)
    { case 1 with 3 show ?case by (auto split: if_splits) }
    { case 2 with 3 show ?case by (fastforce split: if_splits) }
  qed simp_all
  then show ?thesis by (simp add: sort_dedup_def)
qed

lemma set_map_filter: "set (List.map_filter f xs) = {y. \<exists>x \<in> set xs. f x = Some y}"
  by (force simp: List.map_filter_def image_iff)

lemma default_call_pool_sender: "fd_from (default_call_pool p d) \<noteq> None \<or> fd_from_pool (default_call_pool p d) \<noteq> None"
  by (simp add: default_call_pool_def)

lemma spam_calls_default:
  "concat (map spam_calls (map default_spam_pool l))
    = map (default_call_pool ''spammers'') (concat (map spam_calls l))"
proof (induction l)
  case (Cons r l)
  then show ?case by (cases r) simp_all
qed simp

lemma spam_calls_override:
  "concat (map spam_calls (map (override_spam a) l)) = map (override_call a) (concat (map spam_calls l))"
proof (induction l)
  case (Cons r l)
  then show ?case by (cases r) simp_all
qed simp

section \<open>Properties\<close>

text \<open>
  After \<open>override_senders\<close> no step uses a pool any more: every create, setup
  and spam step, bundled transactions included, is sent from the given address,
  the defaults for missing senders do not bring a pool back, and the three pool
  lists are empty.
\<close>

theorem override_senders_complete:
  "let c' = override_senders x c from_address; a = Some (x_address_string x from_address)
   in get_create_pools c' = [] \<and> get_setup_pools c' = [] \<and> get_spam_pools c' = [] \<and>
      list_all (\<lambda>d. cd_from d = a) (get_create_steps c') \<and>
      list_all (\<lambda>d. fd_from d = a) (get_setup_steps c') \<and>
      list_all (\<lambda>d. fd_from d = a) (concat (map spam_calls (get_spam_steps c')))"
proof -
  let ?c = "override_senders x c from_address" and ?a = "x_address_string x from_address"
  have create: "get_create_steps ?c = map (override_create ?a) (unwrap_or_default (tc_create c))"
    by (cases "tc_create c") (auto simp: get_create_steps_def override_senders_def Let_def
        unwrap_or_default_def default_create_pool_def override_create_def)
  have setup_steps: "get_setup_steps ?c = map (override_call ?a) (unwrap_or_default (tc_setup c))"
    by (cases "tc_setup c") (auto simp: get_setup_steps_def override_senders_def Let_def
        unwrap_or_default_def default_call_pool_def override_call_def)
  have spam: "concat (map spam_calls (get_spam_steps ?c))
      = map (override_call ?a) (concat (map spam_calls (unwrap_or_default (tc_spam c))))"
    unfolding get_spam_steps_def spam_calls_default
    by (cases "tc_spam c") (auto simp: override_senders_def Let_def unwrap_or_default_def
        spam_calls_override simp del: map_map, auto simp: default_call_pool_def override_call_def)
  have none: "sort_dedup [] = []" by (simp add: sort_dedup_def)
  show ?thesis
    unfolding Let_def get_create_pools_def get_setup_pools_def get_spam_pools_def create setup_steps spam
    by (auto simp: list_all_iff override_create_def override_call_def List.map_filter_def none)
qed

text \<open>
  The pool lists are exactly the pools the steps name: each list is sorted
  without repetition, and a pool is in the spam list if and only if some spam
  transaction or bundled transaction is sent from it, once \<open>spammers\<close> is filled
  in for transactions without a sender; likewise for create and setup with
  \<open>admin\<close>.
\<close>

theorem pools_are_those_named:
  "sorted (get_spam_pools c) \<and> distinct (get_spam_pools c) \<and>
   distinct (get_create_pools c) \<and> distinct (get_setup_pools c) \<and>
   (p \<in> set (get_spam_pools c) \<longleftrightarrow>
      list_ex (\<lambda>d. fd_from_pool d = Some p \<or>
                   (fd_from d = None \<and> fd_from_pool d = None \<and> p = ''spammers''))
        (concat (map spam_calls (unwrap_or_default (tc_spam c))))) \<and>
   (p \<in> set (get_setup_pools c) \<longleftrightarrow>
      list_ex (\<lambda>d. fd_from_pool d = Some p \<or>
                   (fd_from d = None \<and> fd_from_pool d = None \<and> p = ''admin''))
        (unwrap_or_default (tc_setup c))) \<and>
   (p \<in> set (get_create_pools c) \<longleftrightarrow>
      list_ex (\<lambda>d. cd_from_pool d = Some p \<or>
                   (cd_from d = None \<and> cd_from_pool d = None \<and> p = ''admin''))
        (unwrap_or_default (tc_create c)))"
proof -
  have call: "fd_from_pool (default_call_pool q d) = Some p \<longleftrightarrow>
      fd_from_pool d = Some p \<or> (fd_from d = None \<and> fd_from_pool d = None \<and> p = q)" for q d
    by (auto simp: default_call_pool_def)
  have create: "cd_from_pool (default_create_pool q d) = Some p \<longleftrightarrow>
      cd_from_pool d = Some p \<or> (cd_from d = None \<and> cd_from_pool d = None \<and> p = q)" for q d
    by (auto simp: default_create_pool_def)
  have spam: "set (get_spam_pools c) = {q. \<exists>d \<in> set (concat (map spam_calls (unwrap_or_default (tc_spam c)))).
      fd_from_pool (default_call_pool ''spammers'' d) = Some q}"
    unfolding get_spam_pools_def get_spam_steps_def spam_calls_default by (simp add: set_map_filter)
  have sorted: "sorted (get_spam_pools c)" "distinct (get_spam_pools c)"
      "distinct (get_create_pools c)" "distinct (get_setup_pools c)"
    using sorted_sort_dedup by (simp_all add: get_spam_pools_def get_create_pools_def get_setup_pools_def)
  have "p \<in> set (get_setup_pools c) \<longleftrightarrow> list_ex (\<lambda>d. fd_from_pool d = Some p \<or>
      (fd_from d = None \<and> fd_from_pool d = None \<and> p = ''admin'')) (unwrap_or_default (tc_setup c))"
    by (simp add: get_setup_pools_def get_setup_steps_def set_map_filter call list_ex_iff)
  moreover have "p \<in> set (get_create_pools c) \<longleftrightarrow> list_ex (\<lambda>d. cd_from_pool d = Some p \<or>
      (cd_from d = None \<and> cd_from_pool d = None \<and> p = ''admin'')) (unwrap_or_default (tc_create c))"
    by (simp add: get_create_pools_def get_create_steps_def set_map_filter create list_ex_iff)
  ultimately show ?thesis
    using sorted by (simp add: spam call list_ex_iff)
qed

end
