(* ===== verification/Agents.thy ===== *)
theory Agents
  imports Test_Config Seeder
begin

text \<open>
  \<open>crates/core/src/agent_controller.rs\<close> and
  \<open>crates/core/src/generator/agent_pools.rs\<close>: pools of signers derived from the
  seed and the pool's name, the store of pools, and the store built for a
  scenario.  Creating a signer from a private key (\<open>PrivateKeySigner::from_bytes\<close>)
  is the parameter \<open>signer_of\<close>; a signer is its key and its address.
\<close>

record signer =
  sg_key :: "u8 list"
  sg_address :: address

datatype agent_class = Deployer | SetupSender | Spammer

record signer_store =
  ss_signers :: "signer list"
  ss_agent_class :: agent_class

type_synonym agent_store = "(string, signer_store) hmap"

type_synonym signer_fn = "u8 list \<Rightarrow> signer option"

section \<open>Signer stores\<close>

definition get_signer :: "signer_store \<Rightarrow> nat \<Rightarrow> signer option" where
  "get_signer s i = (if i < length (ss_signers s) then Some (ss_signers s ! i) else None)"

definition get_address :: "signer_store \<Rightarrow> nat \<Rightarrow> address option" where
  "get_address s i = map_option sg_address (get_signer s i)"

definition u256_from_be_slice :: "u8 list \<Rightarrow> (u256, 'e) rresult" where
  "u256_from_be_slice bs = (if be_val bs < 2 ^ 256 then Ok (word_of_nat (be_val bs)) else Panic)"

definition signer_store_new ::
  "(u8 list \<Rightarrow> u8 list) \<Rightarrow> signer_fn \<Rightarrow> nat \<Rightarrow> rand_seed \<Rightarrow> string \<Rightarrow> agent_class
    \<Rightarrow> (signer_store, 'e) rresult" where
  "signer_store_new keccak signer_of num_signers s acct_seed cls =
     rbind (u256_from_be_slice (bytes_of_string acct_seed)) (\<lambda>v.
     rbind (seed_values keccak (seed_from_u256 (as_u256 s + v)) num_signers None None) (\<lambda>prv_keys.
     rbind (rmapM (\<lambda>k. expect (signer_of (as_bytes k))) prv_keys) (\<lambda>signers.
     Ok \<lparr>ss_signers = signers, ss_agent_class = cls\<rparr>)))"

definition add_signer :: "signer_store \<Rightarrow> signer \<Rightarrow> signer_store" where
  "add_signer s sg = s\<lparr>ss_signers := ss_signers s @ [sg]\<rparr>"

definition remove_signer :: "signer_store \<Rightarrow> nat \<Rightarrow> (signer_store, 'e) rresult" where
  "remove_signer s i =
     (if i < length (ss_signers s)
      then Ok (s\<lparr>ss_signers := take i (ss_signers s) @ drop (Suc i) (ss_signers s)\<rparr>)
      else Panic)"

definition all_addresses :: "signer_store \<Rightarrow> address list" where
  "all_addresses s = map sg_address (ss_signers s)"

definition fund_request ::
  "address \<Rightarrow> u256 \<Rightarrow> u128 \<Rightarrow> u64 \<Rightarrow> u64 \<Rightarrow> address \<Rightarrow> tx_request" where
  "fund_request funder amount gas_price chain_id nonce to_addr =
     tx_request_default
       \<lparr>tx_to := Some (TxCall to_addr), tx_value := Some amount, tx_from := Some funder,
        tx_nonce := Some nonce, tx_gas := Some 21000, tx_max_fee_per_gas := Some gas_price,
        tx_chain_id := Some chain_id, tx_max_priority_fee_per_gas := Some (gas_price div 10)\<rparr>"

fun fund_requests ::
  "address \<Rightarrow> u256 \<Rightarrow> u128 \<Rightarrow> u64 \<Rightarrow> u64 \<Rightarrow> address list \<Rightarrow> tx_request list" where
  "fund_requests funder amount gas_price chain_id nonce [] = []"
| "fund_requests funder amount gas_price chain_id nonce (a # as) =
     fund_request funder amount gas_price chain_id nonce a
       # fund_requests funder amount gas_price chain_id (nonce + 1) as"

text \<open>The requests of \<open>fund_signers\<close>, before they are signed and sent.\<close>

definition fund_signers ::
  "signer_store \<Rightarrow> address \<Rightarrow> u256 \<Rightarrow> u128 \<Rightarrow> u64 \<Rightarrow> u64 \<Rightarrow> tx_request list" where
  "fund_signers s funder amount rpc_gas_price nonce chain_id =
     fund_requests funder amount (rpc_gas_price * 11 div 10) chain_id nonce (all_addresses s)"

section \<open>Agent stores\<close>

definition has_agent :: "agent_store \<Rightarrow> string \<Rightarrow> bool" where
  "has_agent st name = hm_contains st name"

definition get_agent :: "agent_store \<Rightarrow> string \<Rightarrow> signer_store option" where
  "get_agent st name = hm_get st name"

definition add_agent :: "agent_store \<Rightarrow> string \<Rightarrow> signer_store \<Rightarrow> agent_store" where
  "add_agent st name signers = hm_insert name signers st"

definition remove_agent :: "agent_store \<Rightarrow> string \<Rightarrow> agent_store" where
  "remove_agent st name = hm_remove name st"

definition add_new_agent ::
  "(u8 list \<Rightarrow> u8 list) \<Rightarrow> signer_fn \<Rightarrow> agent_store \<Rightarrow> string \<Rightarrow> nat \<Rightarrow> rand_seed \<Rightarrow> agent_class
    \<Rightarrow> (agent_store, 'e) rresult" where
  "add_new_agent keccak signer_of st name n s cls =
     rmap (add_agent st name) (signer_store_new keccak signer_of n s name cls)"

definition agent_store_init ::
  "(u8 list \<Rightarrow> u8 list) \<Rightarrow> signer_fn \<Rightarrow> agent_store \<Rightarrow> string list \<Rightarrow> nat \<Rightarrow> rand_seed \<Rightarrow> agent_class
    \<Rightarrow> (agent_store, 'e) rresult" where
  "agent_store_init keccak signer_of st names n s cls =
     rfoldl (\<lambda>st name. if has_agent st name then Ok st
                       else add_new_agent keccak signer_of st name n s cls) st names"

definition all_signers :: "agent_store \<Rightarrow> signer list" where
  "all_signers st = concat (map ss_signers (hm_values st))"

definition all_signer_addresses :: "agent_store \<Rightarrow> address list" where
  "all_signer_addresses st = sort (map sg_address (all_signers st))"

definition get_class :: "agent_store \<Rightarrow> agent_class \<Rightarrow> signer_store option" where
  "get_class st cls = find (\<lambda>s. ss_agent_class s = cls) (hm_values st)"

definition spammers :: "agent_store \<Rightarrow> signer_store option" where
  "spammers st = get_class st Spammer"

definition deployers :: "agent_store \<Rightarrow> signer_store option" where
  "deployers st = get_class st Deployer"

definition setup_senders :: "agent_store \<Rightarrow> signer_store option" where
  "setup_senders st = get_class st SetupSender"

section \<open>The store of a scenario\<close>

record agent_spec =
  as_create_accounts :: nat
  as_setup_accounts :: nat
  as_spam_accounts :: nat

definition agent_spec_default :: agent_spec where
  "agent_spec_default =
     \<lparr>as_create_accounts = 1, as_setup_accounts = 1, as_spam_accounts = 10\<rparr>"

definition pool_entry ::
  "string \<times> nat \<times> agent_class \<Rightarrow> (string, nat \<times> agent_class) hmap \<Rightarrow> (string, nat \<times> agent_class) hmap" where
  "pool_entry e m =
     (case e of (pool, count, cls) \<Rightarrow>
        (case hm_get m pool of
           Some (c, k) \<Rightarrow> hm_insert pool (max c count, k) m
         | None \<Rightarrow> hm_insert pool (count, cls) m))"

definition pools_with_counts :: "test_config \<Rightarrow> agent_spec \<Rightarrow> (string \<times> nat \<times> agent_class) list" where
  "pools_with_counts cfg spec =
     map (\<lambda>p. (p, as_create_accounts spec, Deployer)) (get_create_pools cfg) @
     map (\<lambda>p. (p, as_setup_accounts spec, SetupSender)) (get_setup_pools cfg) @
     map (\<lambda>p. (p, as_spam_accounts spec, Spammer)) (get_spam_pools cfg)"

definition pool_max_signers :: "test_config \<Rightarrow> agent_spec \<Rightarrow> (string, nat \<times> agent_class) hmap" where
  "pool_max_signers cfg spec = fold pool_entry (pools_with_counts cfg spec) hm_empty"

definition build_step ::
  "(u8 list \<Rightarrow> u8 list) \<Rightarrow> signer_fn \<Rightarrow> rand_seed \<Rightarrow> agent_store \<Rightarrow> string \<times> nat \<times> agent_class
    \<Rightarrow> (agent_store, 'e) rresult" where
  "build_step keccak signer_of s st e =
     (case e of (name, n, cls) \<Rightarrow>
        if 0 < n then add_new_agent keccak signer_of st name n s cls else Ok st)"

definition build_agent_store ::
  "(u8 list \<Rightarrow> u8 list) \<Rightarrow> signer_fn \<Rightarrow> test_config \<Rightarrow> rand_seed \<Rightarrow> agent_spec
    \<Rightarrow> (agent_store, 'e) rresult" where
  "build_agent_store keccak signer_of cfg s spec =
     rfoldl (build_step keccak signer_of s) hm_empty (pool_max_signers cfg spec)"

section \<open>Lemmas\<close>

lemma signer_store_new_length:
  "signer_store_new keccak signer_of n s name cls = Ok st \<Longrightarrow> length (ss_signers st) = n"
  by (auto simp: signer_store_new_def dest!: rmapM_length seed_values_length)

text \<open>
  When every 32-byte string is a valid key, a pool with a name of at most 32 bytes
  always gets its signers.
\<close>

lemma signer_store_new_total:
  assumes "\<And>k. length k = 32 \<Longrightarrow> signer_of k \<noteq> None" and "length name \<le> 32"
  shows "\<exists>st. signer_store_new keccak signer_of n s name cls = Ok st"
proof -
  have "be_val (bytes_of_string name) < 256 ^ length name"
    using be_val_less [of "bytes_of_string name"] by (simp add: bytes_of_string_def)
  also have "\<dots> \<le> 256 ^ 32" using assms(2) by (intro power_increasing) simp_all
  finally have fits: "be_val (bytes_of_string name) < 2 ^ 256" by simp
  let ?s = "seed_from_u256 (as_u256 s + word_of_nat (be_val (bytes_of_string name)))"
  obtain ks where ks: "rmap (map as_bytes) (seed_values keccak ?s n None None) = (Ok ks :: (_, 'a) rresult)"
      and len: "\<forall>k \<in> set ks. length k = 32"
    using rand.gen_keys [of keccak ?s n] by blast
  then obtain vs where vs: "seed_values keccak ?s n None None = (Ok vs :: (_, 'a) rresult)"
    and "ks = map as_bytes vs" by auto
  with len have "\<forall>v \<in> set vs. length (as_bytes v) = 32" by simp
  then have "\<exists>sgs. rmapM (\<lambda>k. expect (signer_of (as_bytes k))) vs = (Ok sgs :: (_, 'a) rresult)"
  proof (induction vs)
    case (Cons v vs)
    then obtain sg where "signer_of (as_bytes v) = Some sg" using assms(1) by fastforce
    with Cons show ?case by auto
  qed simp
  with vs fits show ?thesis by (simp add: signer_store_new_def u256_from_be_slice_def)
qed

fun peak :: "(string \<times> nat \<times> agent_class) list \<Rightarrow> string \<Rightarrow> nat" where
  "peak [] p = 0"
| "peak ((q, c, k) # es) p = (if q = p then max c (peak es p) else peak es p)"

lemma peak_append: "peak (es @ fs) p = max (peak es p) (peak fs p)"
  by (induction es p rule: peak.induct) auto

lemma peak_map: "peak (map (\<lambda>p. (p, n, k)) ps) p = (if p \<in> set ps then n else 0)"
  by (induction ps) auto

lemma pool_entry_wf: "hm_wf m \<Longrightarrow> hm_wf (pool_entry e m)"
  by (auto simp: pool_entry_def split: prod.splits option.splits)

lemma fold_pool_entry_wf: "hm_wf m \<Longrightarrow> hm_wf (fold pool_entry es m)"
  by (induction es arbitrary: m) (simp_all add: pool_entry_wf)

lemma fold_pool_entry:
  "(case hm_get (fold pool_entry es m) p of Some (c, _) \<Rightarrow> c | None \<Rightarrow> 0)
    = max (case hm_get m p of Some (c, _) \<Rightarrow> c | None \<Rightarrow> 0) (peak es p)"
proof (induction es arbitrary: m)
  case (Cons e es)
  obtain q c k where e: "e = (q, c, k)" by (cases e) auto
  have "(case hm_get (pool_entry e m) p of Some (c, _) \<Rightarrow> c | None \<Rightarrow> 0)
      = (if q = p then max (case hm_get m p of Some (c, _) \<Rightarrow> c | None \<Rightarrow> 0) c
         else (case hm_get m p of Some (c, _) \<Rightarrow> c | None \<Rightarrow> 0))"
    by (auto simp: pool_entry_def e split: option.splits)
  with Cons.IH [of "pool_entry e m"] show ?case by (simp add: e max.assoc)
qed simp

lemma build_fold:
  assumes "rfoldl (build_step keccak signer_of s) st es = (Ok st' :: (agent_store, 'e) rresult)"
    and "hm_wf es"
  shows "(case hm_get st' p of Some a \<Rightarrow> length (ss_signers a) | None \<Rightarrow> 0) =
    (case hm_get es p of
       Some (n, _) \<Rightarrow> if 0 < n then n else (case hm_get st p of Some a \<Rightarrow> length (ss_signers a) | None \<Rightarrow> 0)
     | None \<Rightarrow> (case hm_get st p of Some a \<Rightarrow> length (ss_signers a) | None \<Rightarrow> 0))"
  using assms
proof (induction es arbitrary: st)
  case (Cons e es)
  obtain q n cls where e: "e = (q, n, cls)" by (cases e) auto
  with Cons.prems(2) have wf: "hm_wf es" and q: "hm_get es q = None"
    by (auto simp: hm_wf_def hm_get_def map_of_eq_None_iff)
  from Cons.prems(1) obtain st1 where
    st1: "build_step keccak signer_of s st e = (Ok st1 :: (agent_store, 'e) rresult)"
    and rest: "rfoldl (build_step keccak signer_of s) st1 es = (Ok st' :: (agent_store, 'e) rresult)"
    by auto
  have get: "hm_get (e # es) p = (if p = q then Some (n, cls) else hm_get es p)"
    by (simp add: hm_get_def e)
  show ?case
  proof (cases "0 < n")
    case True
    with st1 obtain a where "st1 = hm_insert q a st" and "length (ss_signers a) = n"
      by (auto simp: build_step_def e add_new_agent_def add_agent_def dest: signer_store_new_length)
    with Cons.IH [OF rest wf] get q True show ?thesis by (auto split: option.splits)
  next
    case False
    with st1 have "st1 = st" by (simp add: build_step_def e)
    with False Cons.IH [OF rest wf] get q show ?thesis by auto
  qed
qed (simp add: hm_get_def)

lemma agent_store_counts:
  assumes "build_agent_store keccak signer_of cfg s spec = Ok agents"
  shows "(case get_agent agents p of Some a \<Rightarrow> length (ss_signers a) | None \<Rightarrow> 0) =
    max (if p \<in> set (get_create_pools cfg) then as_create_accounts spec else 0)
      (max (if p \<in> set (get_setup_pools cfg) then as_setup_accounts spec else 0)
        (if p \<in> set (get_spam_pools cfg) then as_spam_accounts spec else 0))"
proof -
  let ?m = "pool_max_signers cfg spec"
  have "hm_wf ?m" by (simp add: pool_max_signers_def fold_pool_entry_wf)
  with assms have "(case hm_get agents p of Some a \<Rightarrow> length (ss_signers a) | None \<Rightarrow> 0) =
      (case hm_get ?m p of Some (n, _) \<Rightarrow> n | None \<Rightarrow> 0)"
    unfolding build_agent_store_def by (auto dest!: build_fold [where p = p] split: option.splits if_splits)
  also have "\<dots> = peak (pools_with_counts cfg spec) p"
    using fold_pool_entry [of "pools_with_counts cfg spec" "[]" p] by (simp add: pool_max_signers_def)
  finally show ?thesis
    by (simp add: get_agent_def pools_with_counts_def peak_append peak_map)
qed

text \<open>The signers of a pool are determined by the seed, the name and their number.\<close>

lemma signer_store_new_cls:
  "signer_store_new keccak signer_of n s name cls = (Ok st :: (signer_store, 'e) rresult)
    \<Longrightarrow> signer_store_new keccak signer_of n s name cls' = (Ok st' :: (signer_store, 'e) rresult)
    \<Longrightarrow> ss_signers st = ss_signers st'"
  by (auto simp: signer_store_new_def)

lemma agent_store_new:
  assumes "build_agent_store keccak signer_of cfg s spec = (Ok agents :: (agent_store, 'e) rresult)"
    and "get_agent agents p = Some a"
  shows "\<exists>n cls. 0 < n \<and> signer_store_new keccak signer_of n s p cls = (Ok a :: (signer_store, 'e) rresult)"
proof -
  let ?P = "\<lambda>st. \<forall>p a. hm_get st p = Some a
    \<longrightarrow> (\<exists>n cls. 0 < n \<and> signer_store_new keccak signer_of n s p cls = (Ok a :: (signer_store, 'e) rresult))"
  have step: "?P st1" if "?P st" "build_step keccak signer_of s st e = (Ok st1 :: (agent_store, 'e) rresult)" for st st1 e
    using that by (cases e)
      (fastforce simp: build_step_def add_new_agent_def add_agent_def split: if_splits)
  have "?P agents"
    using assms(1) unfolding build_agent_store_def by (rule rfoldl_inv) (simp, rule step)
  with assms(2) show ?thesis by (simp add: get_agent_def)
qed

lemma agent_stores_agree:
  assumes "build_agent_store keccak signer_of cfg s spec = (Ok agents :: (agent_store, 'e) rresult)"
    and "build_agent_store keccak signer_of cfg' s spec' = (Ok agents' :: (agent_store, 'e) rresult)"
    and "get_agent agents p = Some a" and "get_agent agents' p = Some a'"
    and "length (ss_signers a) = length (ss_signers a')"
  shows "ss_signers a = ss_signers a'"
proof -
  from agent_store_new [OF assms(1,3)] obtain n cls where
    n: "0 < n" "signer_store_new keccak signer_of n s p cls = (Ok a :: (signer_store, 'e) rresult)" by blast
  from agent_store_new [OF assms(2,4)] obtain n' cls' where
    n': "0 < n'" "signer_store_new keccak signer_of n' s p cls' = (Ok a' :: (signer_store, 'e) rresult)" by blast
  from n(2) n'(2) assms(5) have "n = n'" by (auto dest!: signer_store_new_length)
  with n(2) n'(2) show ?thesis by (auto intro: signer_store_new_cls)
qed

lemma agent_signers_nonempty:
  assumes "build_agent_store keccak signer_of cfg s spec = (Ok agents :: (agent_store, 'e) rresult)"
    and "get_agent agents p = Some a"
  shows "ss_signers a \<noteq> []"
  using agent_store_new [OF assms] by (auto dest!: signer_store_new_length)

lemma agent_stores_agree_on:
  assumes "build_agent_store keccak signer_of cfg s spec = (Ok agents :: (agent_store, 'e) rresult)"
    and "build_agent_store keccak signer_of cfg' s spec' = (Ok agents' :: (agent_store, 'e) rresult)"
    and "(case get_agent agents p of Some a \<Rightarrow> length (ss_signers a) | None \<Rightarrow> 0)
      = (case get_agent agents' p of Some a \<Rightarrow> length (ss_signers a) | None \<Rightarrow> 0)"
  shows "map_option ss_signers (get_agent agents p) = map_option ss_signers (get_agent agents' p)"
proof (cases "get_agent agents p")
  case None
  with assms(3) agent_signers_nonempty [OF assms(2), of p] show ?thesis
    by (cases "get_agent agents' p") auto
next
  case (Some a)
  with assms(3) agent_signers_nonempty [OF assms(1), of p] obtain a' where "get_agent agents' p = Some a'"
    by (cases "get_agent agents' p") auto
  with Some assms(3) agent_stores_agree [OF assms(1,2), of p a a'] show ?thesis by simp
qed

section \<open>Properties\<close>

text \<open>
  The store built for a scenario serves every step.  Each pool gets as many
  signers as the most demanding of the create, setup and spam sections that
  name it, and pools nobody names (or with a demand of zero) are absent.
\<close>

theorem agent_store_meets_demand:
  assumes "build_agent_store keccak signer_of cfg s spec = Ok agents"
  shows "(case get_agent agents p of Some a \<Rightarrow> length (ss_signers a) | None \<Rightarrow> 0) =
    max (if p \<in> set (get_create_pools cfg) then as_create_accounts spec else 0)
      (max (if p \<in> set (get_setup_pools cfg) then as_setup_accounts spec else 0)
        (if p \<in> set (get_spam_pools cfg) then as_spam_accounts spec else 0))"
  using assms by (rule agent_store_counts)

definition demo_signer_of :: signer_fn where
  "demo_signer_of k = Some \<lparr>sg_key = k, sg_address = word_of_nat (be_val k)\<rparr>"

lemma demo_signers_total:
  "length name \<le> 32 \<Longrightarrow> \<exists>st. signer_store_new keccak demo_signer_of n s name cls = Ok st"
  by (rule signer_store_new_total) (simp_all add: demo_signer_of_def)

definition demo_config :: test_config where
  "demo_config = with_spam test_config_new [SpamTx (function_call_new ''0x00'')]"

lemma demo_pools: "get_create_pools demo_config = []" "get_setup_pools demo_config = []"
  "get_spam_pools demo_config = [''spammers'']"
  by (simp_all add: demo_config_def with_spam_def test_config_new_def get_create_pools_def
      get_setup_pools_def get_spam_pools_def get_create_steps_def get_setup_steps_def
      get_spam_steps_def unwrap_or_default_def sort_dedup_def List.map_filter_def
      default_call_pool_def function_call_new_def)

lemma demo_store: "\<exists>agents. build_agent_store keccak demo_signer_of demo_config s agent_spec_default = Ok agents"
proof -
  have "\<exists>st. signer_store_new keccak demo_signer_of 10 s ''spammers'' Spammer = (Ok st :: (_, 'a) rresult)"
    by (rule demo_signers_total) simp
  then show ?thesis
    by (simp add: build_agent_store_def pool_max_signers_def pools_with_counts_def demo_pools
        pool_entry_def hm_insert_def build_step_def add_new_agent_def agent_spec_default_def)
qed

theorem agent_store_meets_demand_witness:
  "\<exists>agents. build_agent_store (\<lambda>b. b) demo_signer_of demo_config (seed_from_u256 1) agent_spec_default
      = (Ok agents :: (agent_store, unit) rresult) \<and>
     (case get_agent agents ''spammers'' of Some a \<Rightarrow> length (ss_signers a) | None \<Rightarrow> 0) = 10"
proof -
  obtain agents where a: "build_agent_store (\<lambda>b. b) demo_signer_of demo_config (seed_from_u256 1) agent_spec_default
      = (Ok agents :: (agent_store, unit) rresult)" using demo_store by blast
  from agent_store_meets_demand [OF this, of "''spammers''"] a show ?thesis
    by (simp add: demo_pools agent_spec_default_def)
qed

text \<open>
  Pools whose names are consecutive numbers share their accounts.  The seed of
  a pool is the scenario seed plus the name read as a big-endian number, and the
  keys of a pool are hashes of consecutive seeds; so if one name is the successor
  of the other (for instance \<open>pool1\<close> and \<open>pool2\<close>), the second pool's signers are
  the first pool's signers without the first one.
\<close>

theorem consecutive_pools_share_signers:
  assumes "signer_store_new keccak signer_of (Suc n) s name1 cls1 = Ok A"
    and "signer_store_new keccak signer_of n s name2 cls2 = Ok B"
    and "be_val (bytes_of_string name2) = be_val (bytes_of_string name1) + 1"
  shows "ss_signers B = tl (ss_signers A)"
proof -
  let ?v = "\<lambda>name. word_of_nat (be_val (bytes_of_string name)) :: u256"
  let ?f = "\<lambda>v i. seed_from_u256 (seed_value_at keccak (seed_from_u256 (as_u256 s + v)) 0 (- 1) i)"
  have shift: "?f (?v name2) i = ?f (?v name1) (Suc i)" for i
    using assms(3) by (simp add: seed_value_at_def Let_def algebra_simps)
  from assms(1) have "rmapM (\<lambda>k. expect (signer_of (as_bytes k))) (map (?f (?v name1)) [0..<Suc n])
      = (Ok (ss_signers A) :: (_, 'a) rresult)"
    by (auto simp: signer_store_new_def u256_from_be_slice_def seed_values_Ok simp del: upt_Suc split: if_splits)
  moreover have upt: "[0..<Suc n] = 0 # map Suc [0..<n]"
    by (simp add: map_Suc_upt upt_conv_Cons del: upt_Suc)
  ultimately have "list_all2 (\<lambda>k y. signer_of (as_bytes k) = Some y)
      (?f (?v name1) 0 # map (\<lambda>i. ?f (?v name1) (Suc i)) [0..<n]) (ss_signers A)"
    by (simp only: upt rmapM_eq_Ok list.map map_map comp_def expect_eq_Ok)
  then have "list_all2 (\<lambda>k y. signer_of (as_bytes k) = Some y)
      (map (\<lambda>i. ?f (?v name1) (Suc i)) [0..<n]) (tl (ss_signers A))"
    by (cases "ss_signers A") auto
  moreover from assms(2) have "rmapM (\<lambda>k. expect (signer_of (as_bytes k)))
      (map (\<lambda>i. ?f (?v name1) (Suc i)) [0..<n]) = (Ok (ss_signers B) :: (_, 'b) rresult)"
    by (auto simp: signer_store_new_def u256_from_be_slice_def seed_values_Ok shift split: if_splits)
  then have "list_all2 (\<lambda>k y. signer_of (as_bytes k) = Some y)
      (map (\<lambda>i. ?f (?v name1) (Suc i)) [0..<n]) (ss_signers B)"
    by (simp add: rmapM_eq_Ok)
  ultimately show ?thesis
    by (intro nth_equalityI) (auto simp: list_all2_conv_all_nth)
qed

theorem consecutive_pools_share_signers_witness:
  "\<exists>A B. signer_store_new (\<lambda>b. b) demo_signer_of 3 (seed_from_u256 1) ''pool1'' Spammer
        = (Ok A :: (signer_store, unit) rresult) \<and>
      signer_store_new (\<lambda>b. b) demo_signer_of 2 (seed_from_u256 1) ''pool2'' Spammer
        = (Ok B :: (signer_store, unit) rresult) \<and> ss_signers B = tl (ss_signers A)"
proof -
  have "\<exists>A. signer_store_new (\<lambda>b. b) demo_signer_of (Suc 2) (seed_from_u256 1) ''pool1'' Spammer
        = (Ok A :: (signer_store, unit) rresult)"
    and "\<exists>B. signer_store_new (\<lambda>b. b) demo_signer_of 2 (seed_from_u256 1) ''pool2'' Spammer
        = (Ok B :: (signer_store, unit) rresult)"
    by (rule demo_signers_total, simp)+
  then obtain A B where A: "signer_store_new (\<lambda>b. b) demo_signer_of (Suc 2) (seed_from_u256 1) ''pool1'' Spammer
        = (Ok A :: (signer_store, unit) rresult)"
    and B: "signer_store_new (\<lambda>b. b) demo_signer_of 2 (seed_from_u256 1) ''pool2'' Spammer
        = (Ok B :: (signer_store, unit) rresult)" by blast
  have "be_val (bytes_of_string ''pool2'') = be_val (bytes_of_string ''pool1'') + 1"
    by (simp add: bytes_of_string_def be_val_def)
  from consecutive_pools_share_signers [OF A B this] A B show ?thesis
    by (auto simp: numeral_3_eq_3 numeral_2_eq_2)
qed

end
