(* ===== verification/Generator.thy ===== *)
theory Generator
  imports Fuzzing Agents
begin

text \<open>
  The \<open>Generator\<close> trait of \<open>crates/core/src/generator/trait.rs\<close>: resolving the
  sender of a step, turning definitions into strict definitions, and \<open>load_txs\<close>,
  which produces the transactions of the create, setup and spam plans.

  The world \<open>'w\<close> is everything a callback can change (the chain, the database);
  a callback is a function on it that returns the world after its task and the
  task's result.  The queries of a generator that reach the world are
  \<open>g_lookup\<close> (named transactions of the database) and \<open>g_tx_count\<close> (the RPC's
  transaction count).  In the setup plan tasks run concurrently; the model takes
  their effects on the world in the order in which they are spawned.
\<close>

record 'w gen =
  g_conf :: test_config
  g_ext :: ext
  g_seed :: rand_seed
  g_agents :: agent_store
  g_chain_id :: u64
  g_nonce_map :: "(address, u64) hmap"
  g_setcode_signer :: signer
  g_label :: "string option"
  g_lookup :: "'w \<Rightarrow> named_lookup"
  g_tx_count :: "'w \<Rightarrow> address \<Rightarrow> (u64, core_error) rresult"
  g_sign :: "signer \<Rightarrow> address \<times> u256 \<times> u64 \<Rightarrow> (u8 list, string) rresult"
  g_g1_mul :: "u64 \<Rightarrow> u64 list \<times> u64 list"
  g_g2_mul :: "u64 \<Rightarrow> (u64 list \<times> u64 list) \<times> (u64 list \<times> u64 list)"

section \<open>Strict definitions\<close>

definition pool_sender ::
  "agent_store \<Rightarrow> string \<Rightarrow> nat \<Rightarrow> (address, generator_error) rresult" where
  "pool_sender agents from_pool idx =
     rbind (ok_or (get_agent agents from_pool) (FromPoolNotFound from_pool)) (\<lambda>agent.
       if ss_signers agent = [] then Panic
       else ok_or (get_address agent (idx mod length (ss_signers agent)))
              (SignerNotFound from_pool idx))"

definition literal_sender :: "'w gen \<Rightarrow> string \<Rightarrow> (address, generator_error) rresult" where
  "literal_sender g from_text =
     rmap_err (FromAddressParseFailed from_text)
       (x_parse_address (g_ext g) (replace_placeholders (get_env (g_conf g)) from_text))"

definition resolve_sender ::
  "'w gen \<Rightarrow> string option \<Rightarrow> string option \<Rightarrow> nat \<Rightarrow> (address, generator_error) rresult" where
  "resolve_sender g from_pool from_text idx =
     (case from_pool of
        Some pool \<Rightarrow> pool_sender (g_agents g) pool idx
      | None \<Rightarrow>
          (case from_text of
             Some t \<Rightarrow> literal_sender g t
           | None \<Rightarrow> Err InvalidSender))"

definition make_strict_create ::
  "'w gen \<Rightarrow> create_definition \<Rightarrow> nat \<Rightarrow> (create_definition_strict, generator_error) rresult" where
  "make_strict_create g d idx =
     rbind (resolve_sender g (cd_from_pool d) (cd_from d) idx) (\<lambda>from_address.
     Ok \<lparr>cs_bytecode = str_replace ''{_sender}''
           (replicate 24 (CHR ''0'') @ x_address_hex (g_ext g) from_address)
           (cc_bytecode (cd_contract d)),
         cs_name = cc_name (cd_contract d), cs_from = from_address,
         cs_signature = cd_signature d,
         cs_args = (case cd_args d of Some args \<Rightarrow> args | None \<Rightarrow> [])\<rparr>)"

definition special_replace :: "'w gen \<Rightarrow> address \<Rightarrow> string \<Rightarrow> string" where
  "special_replace g from_address arg =
     (if str_contains arg sender_placeholder
      then str_replace sender_placeholder (x_address_string (g_ext g) from_address) arg
      else if str_contains arg setcode_placeholder
      then str_replace setcode_placeholder
             (x_address_string (g_ext g) (sg_address (g_setcode_signer g))) arg
      else arg)"

definition sign_auth ::
  "'w gen \<Rightarrow> address \<times> u256 \<times> u64 \<Rightarrow> (signed_authorization, generator_error) rresult" where
  "sign_auth g auth =
     rbind (rmap_err (\<lambda>e. GenUtil (SignerFailed e)) (g_sign g (g_setcode_signer g) auth)) (\<lambda>sig.
       case auth of (a, chain_id, nonce) \<Rightarrow>
         Ok \<lparr>sa_address = a, sa_chain_id = chain_id, sa_nonce = nonce, sa_signature = sig\<rparr>)"

definition signed_authorization_of ::
  "'w gen \<Rightarrow> 'w \<Rightarrow> function_call_definition \<Rightarrow> nat
    \<Rightarrow> (signed_authorization list option, generator_error) rresult" where
  "signed_authorization_of g w d idx =
     (case fd_authorization_address d of
        None \<Rightarrow> Ok None
      | Some auth_address \<Rightarrow>
          rbind (rmap_err GenTemplater
            (find_fncall_placeholders (g_ext g) (g_lookup g w) (g_label g) d hm_empty)) (\<lambda>m.
          rbind (rmap_err (\<lambda>_. AddressNotFound auth_address)
            (x_parse_address (g_ext g) (replace_placeholders m auth_address))) (\<lambda>actual.
          let a = sg_address (g_setcode_signer g)
          in rbind (ok_or (hm_get (g_nonce_map g) a) (NonceNotFound a)) (\<lambda>n.
             rmap (\<lambda>auth. Some [auth])
               (sign_auth g (actual, ucast (g_chain_id g), n + word_of_nat idx))))))"

definition strict_value :: "ext \<Rightarrow> string option \<Rightarrow> (string option, generator_error) rresult" where
  "strict_value x value =
     (case value of
        None \<Rightarrow> Ok None
      | Some input \<Rightarrow>
          (case parse_value x input of
             Ok v \<Rightarrow> Ok (Some (show_nat (unat v)))
           | Err e \<Rightarrow>
               (if terminator_start input = None
                then if list_all is_digit input then Ok (Some input) else Err (GenUtil e)
                else Ok (Some input))
           | Panic \<Rightarrow> Panic))"

definition make_strict_call ::
  "'w gen \<Rightarrow> 'w \<Rightarrow> function_call_definition \<Rightarrow> nat \<Rightarrow> (function_call_strict, generator_error) rresult" where
  "make_strict_call g w d idx =
     rbind (resolve_sender g (fd_from_pool d) (fd_from d) idx) (\<lambda>from_address.
     rbind (signed_authorization_of g w d idx) (\<lambda>auth.
     rbind (strict_value (g_ext g) (fd_value d)) (\<lambda>value.
     rbind (sidecar_data (g_ext g) d) (\<lambda>sidecar.
     Ok \<lparr>fs_to = special_replace g from_address (fd_to d), fs_from = from_address,
         fs_signature = (case fd_signature d of Some s \<Rightarrow> s | None \<Rightarrow> []),
         fs_args = map (special_replace g from_address) (unwrap_or_default (fd_args d)),
         fs_value = value, fs_fuzz = unwrap_or_default (fd_fuzz d), fs_kind = fd_kind d,
         fs_gas_limit = fd_gas_limit d,
         fs_max_priority_fee_per_gas = fd_max_priority_fee_per_gas d,
         fs_sidecar = sidecar, fs_authorization = auth\<rparr>))))"

section \<open>Callbacks and nonces\<close>

datatype task = TaskOk | TaskErr core_error | TaskJoinErr

type_synonym 'w callback = "'w \<Rightarrow> named_tx_request \<Rightarrow> ('w \<times> task option, core_error) rresult"

definition await :: "task \<Rightarrow> (unit, core_error) rresult" where
  "await t =
     (case t of TaskOk \<Rightarrow> Ok () | TaskErr e \<Rightarrow> Err e | TaskJoinErr \<Rightarrow> Err (CoreCallback JoinError))"

definition call_and_await ::
  "'w callback \<Rightarrow> 'w \<Rightarrow> named_tx_request \<Rightarrow> ('w, core_error) rresult" where
  "call_and_await cb w tx =
     rbind (cb w tx) (\<lambda>(w', handle).
       case handle of None \<Rightarrow> Ok w' | Some t \<Rightarrow> rbind (await t) (\<lambda>_. Ok w'))"

definition assign_nonce ::
  "'w gen \<Rightarrow> 'w \<Rightarrow> (address, u64) hmap \<Rightarrow> named_tx_request
    \<Rightarrow> (named_tx_request \<times> (address, u64) hmap, core_error) rresult" where
  "assign_nonce g w next_nonce tx =
     rbind (expect (tx_from (ntr_tx tx))) (\<lambda>from_addr.
     rbind (if hm_contains next_nonce from_addr then Ok next_nonce
            else rmap (\<lambda>n. hm_insert from_addr n next_nonce) (g_tx_count g w from_addr)) (\<lambda>m.
     rbind (expect (hm_get m from_addr)) (\<lambda>n.
     Ok (tx\<lparr>ntr_tx := (ntr_tx tx)\<lparr>tx_nonce := Some n\<rparr>\<rparr>, hm_insert from_addr (n + 1) m))))"

section \<open>The create plan\<close>

record 'w plan_state =
  ps_world :: 'w
  ps_map :: env_map
  ps_txs :: "execution_request list"
  ps_nonces :: "(address, u64) hmap"
  ps_pending :: "(address, task) hmap"

definition plan_init :: "'w gen \<Rightarrow> 'w \<Rightarrow> 'w plan_state" where
  "plan_init g w =
     \<lparr>ps_world = w,
      ps_map = fold (\<lambda>(k, v). hm_insert k v) (get_env (g_conf g)) hm_empty,
      ps_txs = [], ps_nonces = g_nonce_map g, ps_pending = hm_empty\<rparr>"

definition create_step ::
  "'w gen \<Rightarrow> 'w callback \<Rightarrow> 'w plan_state \<Rightarrow> create_definition \<Rightarrow> ('w plan_state, core_error) rresult" where
  "create_step g on_create s d =
     rbind (rmap_err CoreTemplater
       (find_create_placeholders (g_ext g) (g_lookup g (ps_world s)) (g_label g) d (ps_map s))) (\<lambda>m.
     rbind (rmap_err CoreGenerator (make_strict_create g d 0)) (\<lambda>strict.
     rbind (rmap_err CoreTemplater (template_contract_deploy (g_ext g) strict m)) (\<lambda>req.
     let tx0 = builder_with_name (named_tx_request_new req None None) (cs_name strict)
     in rbind (assign_nonce g (ps_world s) (ps_nonces s) tx0) (\<lambda>(tx, nonces).
        rbind (call_and_await on_create (ps_world s) tx) (\<lambda>w'.
        Ok (s\<lparr>ps_world := w', ps_map := m, ps_txs := ps_txs s @ [ExTx tx], ps_nonces := nonces\<rparr>))))))"

section \<open>The setup plan\<close>

definition account_indices ::
  "'w gen \<Rightarrow> function_call_definition \<Rightarrow> (nat list, core_error) rresult" where
  "account_indices g d =
     (if fd_for_all_accounts d
      then (case fd_from_pool d of
              Some pool \<Rightarrow>
                (case get_agent (g_agents g) pool of
                   Some agent \<Rightarrow> Ok [0..<length (ss_signers agent)]
                 | None \<Rightarrow> Err (CoreGenerator (FromPoolNotFound pool)))
            | None \<Rightarrow> Err (CoreGenerator ForAllAccountsRequiresFromPool))
      else Ok [0])"

definition chained_task :: "task option \<Rightarrow> task \<Rightarrow> task" where
  "chained_task prev t =
     (case t of
        TaskOk \<Rightarrow> TaskOk
      | TaskErr e \<Rightarrow> TaskErr e
      | TaskJoinErr \<Rightarrow> TaskErr (CoreCallback JoinError))"

definition chain_pending ::
  "(address, task) hmap \<Rightarrow> address \<Rightarrow> task option \<Rightarrow> (address, task) hmap" where
  "chain_pending pending from_addr handle =
     (case handle of
        None \<Rightarrow> pending
      | Some t \<Rightarrow>
          hm_insert from_addr (chained_task (hm_get pending from_addr) t) (hm_remove from_addr pending))"

definition setup_account ::
  "'w gen \<Rightarrow> 'w callback \<Rightarrow> function_call_definition \<Rightarrow> 'w plan_state \<Rightarrow> nat
    \<Rightarrow> ('w plan_state, core_error) rresult" where
  "setup_account g on_setup d s account_idx =
     rbind (rmap_err CoreGenerator (make_strict_call g (ps_world s) d account_idx)) (\<lambda>strict.
     rbind (rmap_err CoreTemplater (template_function_call (g_ext g) strict (ps_map s))) (\<lambda>req.
     rbind (assign_nonce g (ps_world s) (ps_nonces s) (named_tx_request_new req None (fd_kind d)))
       (\<lambda>(tx, nonces).
     rbind (on_setup (ps_world s) tx) (\<lambda>(w', handle).
     rbind (expect (tx_from (ntr_tx tx))) (\<lambda>from_addr.
     Ok (s\<lparr>ps_world := w', ps_txs := ps_txs s @ [ExTx tx], ps_nonces := nonces,
           ps_pending := chain_pending (ps_pending s) from_addr handle\<rparr>))))))"

definition setup_step ::
  "'w gen \<Rightarrow> 'w callback \<Rightarrow> 'w plan_state \<Rightarrow> function_call_definition
    \<Rightarrow> ('w plan_state, core_error) rresult" where
  "setup_step g on_setup s d =
     rbind (rmap_err CoreTemplater
       (find_fncall_placeholders (g_ext g) (g_lookup g (ps_world s)) (g_label g) d (ps_map s))) (\<lambda>m.
     rbind (account_indices g d) (\<lambda>indices.
       rfoldl (setup_account g on_setup d) (s\<lparr>ps_map := m\<rparr>) indices))"

definition await_pending :: "(address, task) hmap \<Rightarrow> (unit, core_error) rresult" where
  "await_pending pending = rfoldl (\<lambda>_ (_, t). await t) () (sort_key fst pending)"

section \<open>The spam plan\<close>

definition round_up_txs :: "u64 \<Rightarrow> u64 \<Rightarrow> (u64, 'e) rresult" where
  "round_up_txs num_txs num_steps =
     (if num_steps = 0 then Panic
      else let remainder = num_txs mod num_steps
           in Ok (if remainder = 0 then num_txs else num_txs + (num_steps - remainder)))"

fun show_templater_error :: "templater_error \<Rightarrow> string" where
  "show_templater_error (KeyNotFound s) =
     ''failed to find placeholder key '' @ [CHR 0x27] @ s @ [CHR 0x27]"
| "show_templater_error (ContractNotFoundInDB s) =
     ''contract address for '' @ [CHR 0x27] @ s @ [CHR 0x27] @
     '' not found in DB. You may need to run setup steps first.''"
| "show_templater_error (TemplaterDb e) = ''DB error''"
| "show_templater_error (ParseAddressFailed s) =
     ''failed to parse address '' @ [CHR 0x27] @ s @ [CHR 0x27]"
| "show_templater_error (ParsePriorityFeeFailed s reason) =
     ''failed to parse max_priority_fee_per_gas '' @ [CHR 0x27] @ s @ [CHR 0x27] @ '': '' @ reason"
| "show_templater_error (TemplaterUtil e) = ''templater util error''"

definition lookup_tx_placeholders ::
  "'w gen \<Rightarrow> 'w \<Rightarrow> nat \<Rightarrow> env_map \<times> fuzz_map \<Rightarrow> function_call_definition
    \<Rightarrow> (env_map \<times> fuzz_map, core_error) rresult" where
  "lookup_tx_placeholders g w num_txs = (\<lambda>(m, fuzz) d.
     rbind (rmap_err (\<lambda>e. CoreDb (DbNotFound
              (''failed to find placeholder value in DB: '' @ show_templater_error e)))
       (find_fncall_placeholders (g_ext g) (g_lookup g w) (g_label g) d m)) (\<lambda>m'.
     rbind (rmap_err CoreGenerator
       (create_fuzz_map (g_ext g) (g_seed g) num_txs (unwrap_or_default (fd_fuzz d)))) (\<lambda>f.
     Ok (m', hm_extend fuzz f))))"

definition groth16_proof :: "'w gen \<Rightarrow> nat \<Rightarrow> string" where
  "groth16_proof g i =
     (case (generate_g1_point (g_g1_mul g) i, generate_g2_point (g_g2_mul g) i,
            generate_g1_point (g_g1_mul g) (i + 1000)) of
        ((ax, ay), ((bx0, bx1), (by0, by1)), (cx, cy)) \<Rightarrow>
          (case map (\<lambda>v. ''0x'' @ show_hex_padded 64 (unat v)) [ax, ay, bx1, bx0, by1, by0, cx, cy] of
             [] \<Rightarrow> ''[]''
           | p # ps \<Rightarrow> ''['' @ p @ concat (map (\<lambda>q. '', '' @ q) ps) @ '']''))"

definition set_at :: "'a list \<Rightarrow> nat \<Rightarrow> 'a \<Rightarrow> ('a list, 'e) rresult" where
  "set_at xs i v = (if i < length xs then Ok (xs[i := v]) else Panic)"

definition prepare_tx ::
  "'w gen \<Rightarrow> 'w \<Rightarrow> env_map \<Rightarrow> fuzz_map \<Rightarrow> nat \<Rightarrow> function_call_definition
    \<Rightarrow> (named_tx_request, core_error) rresult" where
  "prepare_tx g w m fuzz i d =
     rbind (rmap_err CoreGenerator (get_fuzzed_args (g_ext g) d fuzz i)) (\<lambda>args0.
     rbind (rmap_err CoreGenerator (get_fuzzed_tx_value d fuzz i)) (\<lambda>fuzz_value.
     rbind (rmap_err CoreGenerator (get_fuzzed_max_priority_fee_per_gas d fuzz i)) (\<lambda>fuzz_fee.
     rbind (if fd_kind d = Some ''groth16-verifyProof''
            then set_at args0 5 (groth16_proof g i) else Ok args0) (\<lambda>args.
     let d1 = d\<lparr>fd_args := Some args\<rparr>;
         d2 = (if fuzz_value \<noteq> None then d1\<lparr>fd_value := fuzz_value\<rparr> else d1);
         d3 = (if fuzz_fee \<noteq> None then d2\<lparr>fd_max_priority_fee_per_gas := fuzz_fee\<rparr> else d2)
     in rbind (rmap_err CoreGenerator (make_strict_call g w d3 i)) (\<lambda>strict.
        rbind (rmap_err CoreTemplater (template_function_call (g_ext g) strict m)) (\<lambda>req.
        Ok (named_tx_request_new req None (fd_kind d3))))))))"

definition spam_call ::
  "'w gen \<Rightarrow> 'w callback \<Rightarrow> env_map \<Rightarrow> fuzz_map \<Rightarrow> nat \<Rightarrow> 'w \<times> named_tx_request list
    \<Rightarrow> function_call_definition \<Rightarrow> ('w \<times> named_tx_request list, core_error) rresult" where
  "spam_call g on_spam m fuzz i = (\<lambda>(w, txs) d.
     rbind (prepare_tx g w m fuzz i d) (\<lambda>tx.
     rbind (call_and_await on_spam w tx) (\<lambda>w'. Ok (w', txs @ [tx]))))"

fun spam_iteration ::
  "'w gen \<Rightarrow> 'w callback \<Rightarrow> env_map \<Rightarrow> fuzz_map \<Rightarrow> spam_request \<Rightarrow> 'w \<times> execution_request list
    \<Rightarrow> nat \<Rightarrow> ('w \<times> execution_request list, core_error) rresult" where
  "spam_iteration g on_spam m fuzz (SpamTx d) (w, txs) i =
     rbind (prepare_tx g w m fuzz i d) (\<lambda>tx.
     rbind (call_and_await on_spam w tx) (\<lambda>w'. Ok (w', txs @ [ExTx tx])))"
| "spam_iteration g on_spam m fuzz (SpamBundle ds) (w, txs) i =
     rbind (rfoldl (spam_call g on_spam m fuzz i) (w, []) ds) (\<lambda>(w', bundle_txs).
     Ok (w', txs @ [ExBundle bundle_txs]))"

definition load_spam ::
  "'w gen \<Rightarrow> 'w \<Rightarrow> u64 \<Rightarrow> 'w callback \<Rightarrow> ('w plan_state, core_error) rresult" where
  "load_spam g w num_txs on_spam =
     (let steps = get_spam_steps (g_conf g); num_steps = word_of_nat (length steps); s0 = plan_init g w
      in rbind (round_up_txs num_txs num_steps) (\<lambda>n.
         rbind (rfoldl (lookup_tx_placeholders g w (unat n)) (ps_map s0, hm_empty)
                  (concat (map spam_calls steps))) (\<lambda>(m, fuzz).
         rbind (rfoldl (\<lambda>acc step. rfoldl (spam_iteration g on_spam m fuzz step) acc
                          [0..<unat (n div num_steps)]) (w, []) steps) (\<lambda>(w', txs).
         Ok (s0\<lparr>ps_world := w', ps_map := m, ps_txs := txs\<rparr>)))))"

datatype 'w plan_type = PlanCreate "'w callback" | PlanSetup "'w callback" | PlanSpam u64 "'w callback"

definition load_plan :: "'w gen \<Rightarrow> 'w \<Rightarrow> 'w plan_type \<Rightarrow> ('w plan_state, core_error) rresult" where
  "load_plan g w plan =
     (case plan of
        PlanCreate on_create \<Rightarrow>
          rfoldl (create_step g on_create) (plan_init g w) (get_create_steps (g_conf g))
      | PlanSetup on_setup \<Rightarrow>
          rbind (rfoldl (setup_step g on_setup) (plan_init g w) (get_setup_steps (g_conf g))) (\<lambda>s.
          rbind (await_pending (ps_pending s)) (\<lambda>_. Ok s))
      | PlanSpam num_txs on_spam \<Rightarrow> load_spam g w num_txs on_spam)"

definition load_txs ::
  "'w gen \<Rightarrow> 'w \<Rightarrow> 'w plan_type
    \<Rightarrow> ('w \<times> execution_request list \<times> (address, u64) hmap, core_error) rresult" where
  "load_txs g w plan =
     rmap (\<lambda>s. (ps_world s, ps_txs s, ps_nonces s)) (load_plan g w plan)"

section \<open>Lemmas: nonces\<close>

fun ex_txs :: "execution_request \<Rightarrow> named_tx_request list" where
  "ex_txs (ExTx t) = [t]"
| "ex_txs (ExBundle ts) = ts"

definition nonces_of :: "address \<Rightarrow> execution_request list \<Rightarrow> u64 option list" where
  "nonces_of a txs =
     map (\<lambda>t. tx_nonce (ntr_tx t))
       (filter (\<lambda>t. tx_from (ntr_tx t) = Some a) (concat (map ex_txs txs)))"

definition consecutive :: "u64 \<Rightarrow> u64 option list \<Rightarrow> bool" where
  "consecutive n ns \<longleftrightarrow> ns = map (\<lambda>i. Some (n + word_of_nat i)) [0..<length ns]"

text \<open>The first nonce of a sender: the tracked one, or the RPC's count at some moment.\<close>

definition start_nonce :: "'w gen \<Rightarrow> address \<Rightarrow> u64 \<Rightarrow> bool" where
  "start_nonce g a n \<longleftrightarrow>
     (case hm_get (g_nonce_map g) a of Some n' \<Rightarrow> n = n' | None \<Rightarrow> \<exists>w. g_tx_count g w a = Ok n)"

definition nonce_run :: "'w gen \<Rightarrow> (address, u64) hmap \<Rightarrow> execution_request list \<Rightarrow> address \<Rightarrow> bool" where
  "nonce_run g nonces txs a \<longleftrightarrow>
     (case hm_get nonces a of
        None \<Rightarrow> nonces_of a txs = [] \<and> hm_get (g_nonce_map g) a = None
      | Some n \<Rightarrow> \<exists>n0. start_nonce g a n0 \<and> consecutive n0 (nonces_of a txs) \<and>
                   n = n0 + word_of_nat (length (nonces_of a txs)))"

lemma consecutive_Nil [simp]: "consecutive n []"
  by (simp add: consecutive_def)

lemma consecutive_snoc [simp]:
  "consecutive n (ns @ [m]) \<longleftrightarrow> consecutive n ns \<and> m = Some (n + word_of_nat (length ns))"
  by (auto simp: consecutive_def)

lemma nonces_of_snoc:
  "nonces_of a (txs @ [ExTx t]) = nonces_of a txs @
     (if tx_from (ntr_tx t) = Some a then [tx_nonce (ntr_tx t)] else [])"
  by (simp add: nonces_of_def)

lemma nonce_run_init: "nonce_run g (g_nonce_map g) [] a"
  by (simp add: nonce_run_def nonces_of_def start_nonce_def split: option.splits)

lemma assign_nonce_Ok:
  assumes "assign_nonce g w m tx = Ok (tx', m')"
  obtains a n where "tx_from (ntr_tx tx) = Some a" "tx' = tx\<lparr>ntr_tx := (ntr_tx tx)\<lparr>tx_nonce := Some n\<rparr>\<rparr>"
    "hm_get m a = Some n \<or> hm_get m a = None \<and> g_tx_count g w a = Ok n"
    "\<And>b. hm_get m' b = (if b = a then Some (n + 1) else hm_get m b)"
proof -
  from assms obtain a where a: "tx_from (ntr_tx tx) = Some a" by (auto simp: assign_nonce_def)
  show ?thesis
  proof (cases "hm_get m a")
    case None
    with assms a that show ?thesis by (auto simp: assign_nonce_def hm_contains_def)
  next
    case (Some n)
    with assms a that show ?thesis by (auto simp: assign_nonce_def hm_contains_def)
  qed
qed

lemma nonce_run_step:
  assumes run: "\<forall>b. nonce_run g m txs b" and "assign_nonce g w m tx = Ok (tx', m')"
  shows "nonce_run g m' (txs @ [ExTx tx']) b"
proof -
  from assms(2) obtain a n where a: "tx_from (ntr_tx tx) = Some a"
    and tx': "tx' = tx\<lparr>ntr_tx := (ntr_tx tx)\<lparr>tx_nonce := Some n\<rparr>\<rparr>"
    and n: "hm_get m a = Some n \<or> hm_get m a = None \<and> g_tx_count g w a = Ok n"
    and m': "\<And>b. hm_get m' b = (if b = a then Some (n + 1) else hm_get m b)"
    by (rule assign_nonce_Ok) metis
  show ?thesis
  proof (cases "b = a")
    case True
    with run [rule_format, of a] n a show ?thesis
      by (auto simp: nonce_run_def m' tx' nonces_of_snoc start_nonce_def ac_simps split: option.splits)
  next
    case False
    with run [rule_format, of b] a show ?thesis
      by (simp add: nonce_run_def m' tx' nonces_of_snoc split: option.splits)
  qed
qed

definition plan_nonces_ok :: "'w gen \<Rightarrow> 'w plan_state \<Rightarrow> bool" where
  "plan_nonces_ok g s \<longleftrightarrow> (\<forall>a. nonce_run g (ps_nonces s) (ps_txs s) a)"

lemma plan_init_nonces: "plan_nonces_ok g (plan_init g w)"
  by (simp add: plan_nonces_ok_def plan_init_def nonce_run_init)

lemma create_step_nonces:
  "plan_nonces_ok g s \<Longrightarrow> create_step g cb s d = Ok s' \<Longrightarrow> plan_nonces_ok g s'"
  by (auto simp: create_step_def plan_nonces_ok_def Let_def elim!: nonce_run_step [rotated])

lemma setup_account_nonces:
  "plan_nonces_ok g s \<Longrightarrow> setup_account g cb d s i = Ok s' \<Longrightarrow> plan_nonces_ok g s'"
  by (auto simp: setup_account_def plan_nonces_ok_def elim!: nonce_run_step [rotated])

lemma setup_step_nonces:
  assumes "plan_nonces_ok g s" and "setup_step g cb s d = Ok s'"
  shows "plan_nonces_ok g s'"
proof -
  from assms(2) obtain m idxs where
    fold: "rfoldl (setup_account g cb d) (s\<lparr>ps_map := m\<rparr>) idxs = Ok s'"
    by (auto simp: setup_step_def)
  show ?thesis
  proof (rule rfoldl_inv [OF fold])
    show "plan_nonces_ok g (s\<lparr>ps_map := m\<rparr>)" using assms(1) by (simp add: plan_nonces_ok_def)
  qed (rule setup_account_nonces)
qed

section \<open>Lemmas: senders\<close>

lemma template_function_call_from:
  "template_function_call x f m = Ok req \<Longrightarrow> tx_from req = Some (fs_from f)"
  by (auto simp: template_function_call_def Let_def)

lemma make_strict_call_from:
  "make_strict_call g w d i = Ok f \<Longrightarrow> resolve_sender g (fd_from_pool d) (fd_from d) i = Ok (fs_from f)"
  by (auto simp: make_strict_call_def)

definition call_matches :: "'w gen \<Rightarrow> nat \<Rightarrow> function_call_definition \<Rightarrow> named_tx_request \<Rightarrow> bool" where
  "call_matches g i d tx \<longleftrightarrow>
     (case resolve_sender g (fd_from_pool d) (fd_from d) i of
        Ok a \<Rightarrow> tx_from (ntr_tx tx) = Some a | _ \<Rightarrow> False) \<and>
     ntr_kind tx = fd_kind d \<and> ntr_name tx = None \<and> tx_nonce (ntr_tx tx) = None"

fun request_matches :: "'w gen \<Rightarrow> spam_request \<Rightarrow> nat \<Rightarrow> execution_request \<Rightarrow> bool" where
  "request_matches g (SpamTx d) i (ExTx tx) = call_matches g i d tx"
| "request_matches g (SpamBundle ds) i (ExBundle txs) = list_all2 (call_matches g i) ds txs"
| "request_matches g _ i _ = False"

lemma template_function_call_nonce:
  "template_function_call x f m = Ok req \<Longrightarrow> tx_nonce req = None"
  by (auto simp: template_function_call_def Let_def tx_request_default_def)

lemma prepare_tx_matches:
  assumes "prepare_tx g w m fuzz i d = Ok tx"
  shows "call_matches g i d tx"
proof -
  from assms obtain d3 strict req where same: "fd_from_pool d3 = fd_from_pool d" "fd_from d3 = fd_from d"
      "fd_kind d3 = fd_kind d"
    and strict: "make_strict_call g w d3 i = Ok strict"
    and req: "template_function_call (g_ext g) strict m = Ok req"
    and tx: "tx = named_tx_request_new req None (fd_kind d3)"
    unfolding prepare_tx_def Let_def rbind_eq_Ok rmap_err_eq_Ok by (elim exE conjE) (rule that, auto)
  from make_strict_call_from [OF strict] template_function_call_from [OF req]
    template_function_call_nonce [OF req] same tx
  show ?thesis by (simp add: call_matches_def named_tx_request_new_def)
qed

lemma bundle_matches:
  assumes "rfoldl (spam_call g cb m fuzz i) (w, txs) ds = Ok (w', txs')"
  shows "\<exists>new. txs' = txs @ new \<and> list_all2 (call_matches g i) ds new"
  using assms
proof (induction ds arbitrary: w txs)
  case (Cons d ds)
  then obtain tx w1 where tx: "prepare_tx g w m fuzz i d = Ok tx"
    and rest: "rfoldl (spam_call g cb m fuzz i) (w1, txs @ [tx]) ds = Ok (w', txs')"
    by (auto simp: spam_call_def)
  from Cons.IH [OF rest] prepare_tx_matches [OF tx] show ?case by fastforce
qed simp

lemma spam_iteration_matches:
  assumes "spam_iteration g cb m fuzz step (w, txs) i = Ok (w', txs')"
  shows "\<exists>ex. txs' = txs @ [ex] \<and> request_matches g step i ex"
proof (cases step)
  case (SpamTx d)
  with assms show ?thesis by (auto dest: prepare_tx_matches)
next
  case (SpamBundle ds)
  with assms show ?thesis by (auto dest: bundle_matches)
qed

text \<open>A loop that appends one block per element appends blocks that match element by element.\<close>

lemma rfoldl_blocks:
  assumes "\<And>w acc y w' acc'. f (w, acc) y = Ok (w', acc') \<Longrightarrow> \<exists>new. acc' = acc @ new \<and> R y new"
    and "rfoldl f (w, acc) ys = Ok (w', acc')"
  shows "\<exists>news. acc' = acc @ concat news \<and> list_all2 R ys news"
  using assms(2)
proof (induction ys arbitrary: w acc)
  case (Cons y ys)
  then obtain w1 acc1 where f: "f (w, acc) y = Ok (w1, acc1)"
    and rest: "rfoldl f (w1, acc1) ys = Ok (w', acc')" by auto
  from assms(1) [OF f] obtain new where new: "acc1 = acc @ new" "R y new" by blast
  from Cons.IH [OF rest] obtain news where news: "acc' = acc1 @ concat news" "list_all2 R ys news" by blast
  show ?case
    by (rule exI [of _ "new # news"]) (simp add: new news)
qed simp

lemma concat_uniform_nth:
  assumes "\<And>l. l \<in> set xss \<Longrightarrow> length l = k" and "j < length xss * k"
  shows "concat xss ! j = xss ! (j div k) ! (j mod k)"
  using assms
proof (induction xss arbitrary: j)
  case (Cons l xss)
  show ?case
  proof (cases "j < k")
    case True
    with Cons.prems(1) show ?thesis by (simp add: nth_append)
  next
    case False
    moreover from False Cons.prems(2) have "0 < k" by (cases k) auto
    ultimately show ?thesis
      using Cons.prems Cons.IH [of "j - k"]
      by (simp add: nth_append le_div_geq le_mod_geq not_less)
  qed
qed simp

definition spam_block :: "'w gen \<Rightarrow> nat \<Rightarrow> spam_request \<Rightarrow> execution_request list \<Rightarrow> bool" where
  "spam_block g k step block \<longleftrightarrow> list_all2 (request_matches g step) [0..<k] block"

lemma spam_step_block:
  assumes "rfoldl (spam_iteration g cb m fuzz step) (w, txs) [0..<k] = Ok (w', txs')"
  shows "\<exists>new. txs' = txs @ new \<and> spam_block g k step new"
proof -
  have "\<exists>news. txs' = txs @ concat news \<and>
      list_all2 (\<lambda>i new. \<exists>ex. new = [ex] \<and> request_matches g step i ex) [0..<k] news"
    by (rule rfoldl_blocks [OF _ assms]) (auto dest: spam_iteration_matches)
  then obtain news where app: "txs' = txs @ concat news"
    and "list_all2 (\<lambda>i new. \<exists>ex. new = [ex] \<and> request_matches g step i ex) [0..<k] news" by blast
  from this(2) have "list_all2 (request_matches g step) [0..<k] (concat news)"
    by (induction rule: list_all2_induct) auto
  with app show ?thesis by (auto simp: spam_block_def)
qed

lemma spam_blocks_length:
  assumes "list_all2 (spam_block g k) steps blocks"
  shows "l \<in> set blocks \<Longrightarrow> length l = k" and "length blocks = length steps"
    and "length (concat blocks) = length steps * k"
proof -
  from assms have len: "\<And>l. l \<in> set blocks \<Longrightarrow> length l = k"
    by (auto simp: spam_block_def list_all2_conv_all_nth in_set_conv_nth)
  then show "l \<in> set blocks \<Longrightarrow> length l = k" .
  from assms show eq: "length blocks = length steps" by (auto dest: list_all2_lengthD)
  have "map length blocks = replicate (length steps) k"
    using len by (simp add: eq [symmetric] list_eq_iff_nth_eq)
  then show "length (concat blocks) = length steps * k"
    by (simp add: length_concat sum_list_replicate)
qed

lemma spam_blocks_nth:
  assumes "list_all2 (spam_block g k) steps blocks" and "j < length steps * k"
  shows "request_matches g (steps ! (j div k)) (j mod k) (concat blocks ! j)"
proof -
  note len = spam_blocks_length(1) [OF assms(1)] and eq = spam_blocks_length(2) [OF assms(1)]
  have k: "0 < k" using assms(2) by (cases k) auto
  have "spam_block g k (steps ! (j div k)) (blocks ! (j div k))"
    using assms eq k by (auto simp: list_all2_conv_all_nth div_less_iff_less_mult)
  with k have "request_matches g (steps ! (j div k)) (j mod k) (blocks ! (j div k) ! (j mod k))"
    by (auto simp: spam_block_def list_all2_conv_all_nth)
  with concat_uniform_nth [of blocks k j, OF len] assms(2) eq
  show "request_matches g (steps ! (j div k)) (j mod k) (concat blocks ! j)" by simp
qed

lemma round_up_txs_Ok:
  assumes "round_up_txs num (word_of_nat len) = Ok n" and "unat num + len < 2 ^ 64"
  shows "0 < len" and "unat (n div word_of_nat len) = (unat num + len - 1) div len"
    and "unat n = len * ((unat num + len - 1) div len)"
proof -
  let ?N = "unat num"
  have len: "unat (word_of_nat len :: u64) = len" using assms(2) by (simp add: unat_of_nat)
  from assms(1) len show pos: "0 < len" by (cases len) (auto simp: round_up_txs_def)
  have r: "?N mod len < len" using pos by simp
  define q where "q = (if ?N mod len = 0 then ?N else ?N + (len - ?N mod len))"
  have md: "unat (num mod word_of_nat len) = ?N mod len" by (simp add: unat_mod_distrib len)
  have sub: "unat (word_of_nat len - num mod word_of_nat len :: u64) = len - ?N mod len"
    by (subst unat_sub) (use r in \<open>simp_all add: word_le_nat_alt md len\<close>)
  have zero: "num mod word_of_nat len = 0 \<longleftrightarrow> ?N mod len = 0"
    using md by (metis unat_eq_0)
  have "?N + (len - ?N mod len) < 2 ^ 64" using assms(2) r by linarith
  then have "unat (num + (word_of_nat len - num mod word_of_nat len)) = ?N + (len - ?N mod len)"
    by (subst unat_word_ariths) (simp add: sub)
  with assms(1) have n: "unat n = q"
    by (auto simp: round_up_txs_def Let_def q_def zero split: if_splits)
  have N: "?N = len * (?N div len) + ?N mod len" by simp
  have k: "(?N + len - 1) div len = (if ?N mod len = 0 then ?N div len else ?N div len + 1)"
  proof (cases "?N mod len = 0")
    case True
    then have "?N + len - 1 = len * (?N div len) + (len - 1)" using N pos by linarith
    then have "(?N + len - 1) div len = ?N div len"
      using pos by (intro div_nat_eqI) simp_all
    with True show ?thesis by simp
  next
    case False
    moreover have "len * (?N div len + 1) = len * (?N div len) + len" by simp
    ultimately have "?N + len - 1 = len * (?N div len + 1) + (?N mod len - 1)" using N by linarith
    then have "(?N + len - 1) div len = ?N div len + 1"
      using r by (intro div_nat_eqI) simp_all
    with False show ?thesis by simp
  qed
  have q: "q = len * ((?N + len - 1) div len)"
  proof (cases "?N mod len = 0")
    case True
    then have q: "q = ?N" and d: "(?N + len - 1) div len = ?N div len" unfolding q_def k by simp_all
    show ?thesis unfolding d using N True q by linarith
  next
    case False
    then have q: "q = ?N + (len - ?N mod len)" and d: "(?N + len - 1) div len = ?N div len + 1"
      unfolding q_def k by simp_all
    have "len * (?N div len + 1) = len * (?N div len) + len" by simp
    then show ?thesis unfolding d using N r q by linarith
  qed
  with n show "unat n = len * ((?N + len - 1) div len)" by simp
  with pos show "unat (n div word_of_nat len) = (?N + len - 1) div len"
    by (simp add: unat_div_distrib len)
qed

lemma pool_sender_Ok:
  assumes "(case get_agent agents p of Some a \<Rightarrow> length (ss_signers a) | None \<Rightarrow> 0) = n" and "0 < n"
  shows "\<exists>agent. get_agent agents p = Some agent \<and> length (ss_signers agent) = n \<and>
    pool_sender agents p i = Ok (sg_address (ss_signers agent ! (i mod n)))"
  using assms
  by (auto simp: pool_sender_def get_address_def get_signer_def split: option.splits)

lemma chain_pending_get:
  "hm_get (chain_pending pending a h) b =
    (if b = a then (case h of Some t \<Rightarrow> Some (chained_task None t) | None \<Rightarrow> hm_get pending a)
     else hm_get pending b)"
  by (auto simp: chain_pending_def chained_task_def split: option.splits)

lemma await_fold: "rfoldl (\<lambda>_ (_, t). await t) () l = Ok () \<longleftrightarrow> list_all (\<lambda>(_, t). t = TaskOk) l"
  by (induction l) (auto simp: await_def split: task.splits)

lemma await_pending_Ok:
  assumes "hm_wf pending"
  shows "await_pending pending = Ok () \<longleftrightarrow> (\<forall>a t. hm_get pending a = Some t \<longrightarrow> t = TaskOk)"
  using assms by (auto simp: await_pending_def await_fold list_all_iff hm_in_iff)

definition spam_rounds :: "'w gen \<Rightarrow> u64 \<Rightarrow> nat" where
  "spam_rounds g num_txs =
     (let len = length (get_spam_steps (g_conf g)) in (unat num_txs + len - 1) div len)"

lemma spam_plan_blocks:
  assumes "load_txs g w (PlanSpam num_txs cb) = Ok (w', txs, nonces)"
    and "unat num_txs + length (get_spam_steps (g_conf g)) < 2 ^ 64"
  shows "\<exists>blocks. txs = concat blocks \<and>
    list_all2 (spam_block g (spam_rounds g num_txs)) (get_spam_steps (g_conf g)) blocks \<and>
    get_spam_steps (g_conf g) \<noteq> [] \<and> nonces = g_nonce_map g"
proof -
  let ?steps = "get_spam_steps (g_conf g)"
  let ?L = "word_of_nat (length ?steps) :: u64"
  from assms(1) obtain n m fuzz where n: "round_up_txs num_txs ?L = (Ok n :: (_, core_error) rresult)"
    and fold: "rfoldl (\<lambda>acc step. rfoldl (spam_iteration g cb m fuzz step) acc
        [0..<unat (n div ?L)]) (w, []) ?steps = Ok (w', txs)"
    and nonces: "nonces = g_nonce_map g"
    by (auto simp: load_txs_def load_plan_def load_spam_def Let_def plan_init_def)
  note k = round_up_txs_Ok [OF n assms(2)]
  then have rounds: "unat (n div ?L) = spam_rounds g num_txs" by (simp add: spam_rounds_def Let_def)
  have "\<exists>blocks. txs = [] @ concat blocks \<and> list_all2 (spam_block g (spam_rounds g num_txs)) ?steps blocks"
    by (rule rfoldl_blocks [OF _ fold]) (use spam_step_block rounds in \<open>metis\<close>)
  with k(1) nonces show ?thesis by auto
qed

lemma spam_plan_length:
  assumes "load_txs g w (PlanSpam num_txs cb) = Ok (w', txs, nonces)"
    and "unat num_txs + length (get_spam_steps (g_conf g)) < 2 ^ 64"
  shows "unat num_txs \<le> length txs"
proof -
  let ?L = "length (get_spam_steps (g_conf g))"
  from spam_plan_blocks [OF assms] obtain blocks where txs: "txs = concat blocks"
    and blocks: "list_all2 (spam_block g (spam_rounds g num_txs)) (get_spam_steps (g_conf g)) blocks"
    and pos: "0 < ?L" by auto
  have "length txs = ?L * spam_rounds g num_txs"
    using spam_blocks_length(3) [OF blocks] txs by simp
  moreover have "unat num_txs \<le> ?L * ((unat num_txs + ?L - 1) div ?L)"
  proof -
    have "unat num_txs + ?L - 1 < ?L * ((unat num_txs + ?L - 1) div ?L) + ?L"
      using dividend_less_times_div [OF pos, of "unat num_txs + ?L - 1"] by linarith
    then show ?thesis by linarith
  qed
  ultimately show ?thesis by (simp add: spam_rounds_def Let_def)
qed

section \<open>Properties\<close>

text \<open>
  C33. The create and setup plans number the transactions of every sender
  consecutively.  If such a plan succeeds, the nonces of each sender's
  transactions, in the order in which they are handed to the callback, are
  \<open>n\<close>, \<open>n + 1\<close>, and so on without gap or repetition, where \<open>n\<close> is the tracked
  nonce of the sender or, if none is tracked, the RPC's transaction count; and
  the returned nonce map holds the sender's next nonce.
\<close>

theorem plan_nonces_consecutive:
  assumes "load_txs g w (if is_create then PlanCreate cb else PlanSetup cb) = Ok (w', txs, nonces)"
  shows "nonces_of a txs = [] \<and> hm_get nonces a = hm_get (g_nonce_map g) a \<or>
    (\<exists>n. start_nonce g a n \<and> consecutive n (nonces_of a txs) \<and>
       hm_get nonces a = Some (n + word_of_nat (length (nonces_of a txs))))"
proof -
  have "plan_nonces_ok g s" if "load_plan g w (PlanCreate cb) = Ok s" for s
    using that unfolding load_plan_def
    by (auto intro: rfoldl_inv [where P = "plan_nonces_ok g"] plan_init_nonces create_step_nonces)
  moreover have "plan_nonces_ok g s" if "load_plan g w (PlanSetup cb) = Ok s" for s
    using that unfolding load_plan_def
    by (auto intro: rfoldl_inv [where P = "plan_nonces_ok g"] plan_init_nonces setup_step_nonces)
  ultimately have "nonce_run g nonces txs a"
    using assms by (auto simp: load_txs_def plan_nonces_ok_def split: if_splits)
  then show ?thesis
    by (auto simp: nonce_run_def split: option.splits)
qed

text \<open>
  C34. The spam plan covers every step equally.  With \<open>L\<close> steps the plan yields
  \<open>L * k\<close> requests, where \<open>k\<close> is the requested number divided by \<open>L\<close>, rounded
  up; requests \<open>j = s * k + i\<close> come from step \<open>s\<close>, as single transaction or as
  bundle, with the sender that this step has for index \<open>i\<close>; no nonce is assigned
  and the nonce map does not change.
\<close>

theorem spam_plan_layout:
  assumes "load_txs g w (PlanSpam num_txs cb) = Ok (w', txs, nonces)"
    and "unat num_txs + length (get_spam_steps (g_conf g)) < 2 ^ 64"
  shows "let steps = get_spam_steps (g_conf g);
             k = (unat num_txs + length steps - 1) div length steps
         in steps \<noteq> [] \<and> length txs = length steps * k \<and> nonces = g_nonce_map g \<and>
            (\<forall>j < length txs. request_matches g (steps ! (j div k)) (j mod k) (txs ! j))"
proof -
  from spam_plan_blocks [OF assms] obtain blocks where txs: "txs = concat blocks"
    and blocks: "list_all2 (spam_block g (spam_rounds g num_txs)) (get_spam_steps (g_conf g)) blocks"
    and rest: "get_spam_steps (g_conf g) \<noteq> []" "nonces = g_nonce_map g" by blast
  from spam_blocks_length(3) [OF blocks] spam_blocks_nth [OF blocks] show ?thesis
    unfolding txs spam_rounds_def Let_def using rest by simp
qed

definition demo_address :: string where
  "demo_address = ''0x'' @ replicate 40 (CHR ''1'')"

definition demo_plan_call :: function_call_definition where
  "demo_plan_call = with_from (function_call_new demo_address) demo_address"

definition demo_gen :: "unit gen" where
  "demo_gen =
     \<lparr>g_conf = with_spam (with_setup test_config_new [demo_plan_call, demo_plan_call])
                 [SpamTx demo_plan_call, SpamBundle [demo_plan_call]],
      g_ext = demo_ext, g_seed = seed_from_u256 1, g_agents = [], g_chain_id = 1,
      g_nonce_map = [], g_setcode_signer = \<lparr>sg_key = [], sg_address = 0\<rparr>, g_label = None,
      g_lookup = (\<lambda>w k. Ok None), g_tx_count = (\<lambda>w a. Ok 5), g_sign = (\<lambda>s a. Ok []),
      g_g1_mul = (\<lambda>n. ([], [])), g_g2_mul = (\<lambda>n. (([], []), ([], [])))\<rparr>"

definition demo_cb :: "unit callback" where
  "demo_cb w tx = Ok (w, Some TaskOk)"

lemma demo_brace: "num_placeholders demo_address = 0"
  by (simp add: num_placeholders_def demo_address_def)

lemma demo_replace [simp]: "replace_placeholders [] s = s"
  by (simp add: replace_placeholders_def)

definition demo_sender :: address where
  "demo_sender = word_of_nat (hex_val (replicate 40 (CHR ''1'')))"

lemma demo_parse: "x_parse_address demo_ext demo_address = Ok demo_sender"
  by (simp add: demo_ext_def demo_address_def demo_sender_def)

lemma demo_special: "special_replace g a demo_address = demo_address"
proof -
  have "\<not> str_contains demo_address (placeholder k)" for k
  proof
    assume "str_contains demo_address (placeholder k)"
    then obtain u v where eq: "demo_address = u @ placeholder k @ v" by (auto simp: str_contains_iff)
    have "CHR ''{'' \<in> set (u @ placeholder k @ v)" by (simp add: placeholder_def)
    then show False unfolding eq [symmetric] by (simp add: demo_address_def)
  qed
  then show ?thesis by (simp add: special_replace_def sender_placeholder_def setcode_placeholder_def)
qed

lemma demo_gen_fields [simp]:
  "g_conf demo_gen = with_spam (with_setup test_config_new [demo_plan_call, demo_plan_call])
     [SpamTx demo_plan_call, SpamBundle [demo_plan_call]]"
  "g_ext demo_gen = demo_ext" "g_nonce_map demo_gen = []" "g_tx_count demo_gen = (\<lambda>w a. Ok 5)"
  by (simp_all add: demo_gen_def)

lemma demo_steps:
  "get_setup_steps (g_conf demo_gen) = [demo_plan_call, demo_plan_call]"
  "get_spam_steps (g_conf demo_gen) = [SpamTx demo_plan_call, SpamBundle [demo_plan_call]]"
  "get_env (g_conf demo_gen) = []"
  by (simp_all add: get_setup_steps_def get_spam_steps_def get_env_def with_spam_def with_setup_def
      test_config_new_def unwrap_or_default_def default_call_pool_def demo_plan_call_def with_from_def
      function_call_new_def)

lemma demo_call_fields:
  "fd_from_pool demo_plan_call = None" "fd_from demo_plan_call = Some demo_address"
  "fd_to demo_plan_call = demo_address" "fd_args demo_plan_call = None" "fd_value demo_plan_call = None"
  "fd_signature demo_plan_call = None" "fd_fuzz demo_plan_call = None" "fd_kind demo_plan_call = None"
  "fd_authorization_address demo_plan_call = None" "fd_blob_data demo_plan_call = None"
  "fd_for_all_accounts demo_plan_call = False" "fd_max_priority_fee_per_gas demo_plan_call = None"
  "fd_gas_limit demo_plan_call = None"
  by (simp_all add: demo_plan_call_def with_from_def function_call_new_def)

lemma demo_call_find: "find_fncall_placeholders x lk l demo_plan_call m = Ok m"
  by (simp add: find_fncall_placeholders_def find_in_all_def demo_call_fields opt_list_def
      find_placeholder_values_def demo_brace)

definition demo_request :: tx_request where
  "demo_request = tx_request_default\<lparr>tx_to := Some (TxCall demo_sender), tx_input := Some [],
     tx_from := Some demo_sender\<rparr>"

definition demo_strict_call :: function_call_strict where
  "demo_strict_call =
     \<lparr>fs_to = demo_address, fs_from = demo_sender, fs_signature = [], fs_args = [], fs_value = None,
      fs_fuzz = [], fs_kind = None, fs_gas_limit = None, fs_max_priority_fee_per_gas = None,
      fs_sidecar = None, fs_authorization = None\<rparr>"

lemma demo_strict:
  "make_strict_call demo_gen w demo_plan_call i = Ok demo_strict_call"
  "make_strict_call demo_gen w (demo_plan_call\<lparr>fd_args := Some []\<rparr>) i = Ok demo_strict_call"
  using demo_steps(3) demo_parse
  by (simp_all add: make_strict_call_def resolve_sender_def literal_sender_def demo_call_fields
      signed_authorization_of_def strict_value_def sidecar_data_def demo_special
      demo_strict_call_def unwrap_or_default_def)

lemma demo_template: "template_function_call demo_ext demo_strict_call [] = Ok demo_request"
  using demo_parse
  by (simp add: template_function_call_def demo_strict_call_def encode_calldata_def
      demo_request_def tx_request_default_def)

definition demo_tx :: "u64 \<Rightarrow> named_tx_request" where
  "demo_tx n = \<lparr>ntr_name = None, ntr_kind = None, ntr_tx = demo_request\<lparr>tx_nonce := Some n\<rparr>\<rparr>"

lemma demo_tx_fields:
  "tx_from (ntr_tx (demo_tx n)) = Some demo_sender" "tx_gas (ntr_tx (demo_tx n)) = None"
  "tx_to (ntr_tx (demo_tx n)) = Some (TxCall demo_sender)" "tx_nonce (ntr_tx (demo_tx n)) = Some n"
  by (simp_all add: demo_tx_def demo_request_def tx_request_default_def)

lemma demo_assign_tx:
  "assign_nonce g w m (named_tx_request_new demo_request None None) =
     rbind (if hm_contains m demo_sender then Ok m else rmap (\<lambda>n. hm_insert demo_sender n m) (g_tx_count g w demo_sender))
       (\<lambda>m. rbind (expect (hm_get m demo_sender)) (\<lambda>n. Ok (demo_tx n, hm_insert demo_sender (n + 1) m)))"
  by (simp add: assign_nonce_def named_tx_request_new_def demo_request_def demo_tx_def)

lemma demo_assign:
  "assign_nonce demo_gen w m (named_tx_request_new demo_request None None) =
     (let n = (case hm_get m demo_sender of Some n \<Rightarrow> n | None \<Rightarrow> 5)
      in Ok (demo_tx n, hm_insert demo_sender (n + 1) (if hm_contains m demo_sender then m
            else hm_insert demo_sender 5 m)))"
  by (simp add: assign_nonce_def named_tx_request_new_def demo_request_def demo_tx_def
      hm_contains_def split: option.splits)

lemma demo_setup_step:
  "ps_map s = [] \<Longrightarrow> setup_step demo_gen demo_cb s demo_plan_call =
     (let n = (case hm_get (ps_nonces s) demo_sender of Some n \<Rightarrow> n | None \<Rightarrow> 5)
      in Ok (s\<lparr>ps_txs := ps_txs s @ [ExTx (demo_tx n)],
               ps_nonces := hm_insert demo_sender (n + 1) (if hm_contains (ps_nonces s) demo_sender
                 then ps_nonces s else hm_insert demo_sender 5 (ps_nonces s)),
               ps_pending := chain_pending (ps_pending s) demo_sender (Some TaskOk)\<rparr>))"
  by (simp add: setup_step_def demo_call_find account_indices_def demo_call_fields setup_account_def
      demo_strict demo_template demo_assign Let_def demo_cb_def)
    (simp add: demo_tx_def demo_request_def)

lemma demo_setup:
  "load_txs demo_gen () (PlanSetup demo_cb) =
     Ok ((), [ExTx (demo_tx 5), ExTx (demo_tx 6)], [(demo_sender, 7)])"
  using demo_steps
  by (simp add: load_txs_def load_plan_def plan_init_def demo_setup_step Let_def hm_contains_def
      chain_pending_def chained_task_def await_pending_def hm_insert_def hm_remove_def hm_get_def await_def)

theorem plan_nonces_consecutive_witness:
  "\<exists>txs nonces. load_txs demo_gen () (PlanSetup demo_cb) = Ok ((), txs, nonces) \<and>
     (\<exists>n. consecutive n (nonces_of demo_sender txs) \<and>
        hm_get nonces demo_sender = Some (n + 2))"
proof -
  have len: "length (nonces_of demo_sender [ExTx (demo_tx 5), ExTx (demo_tx 6)]) = 2"
    by (simp add: nonces_of_def demo_tx_def demo_request_def)
  then have "nonces_of demo_sender [ExTx (demo_tx 5), ExTx (demo_tx 6)] \<noteq> []" by auto
  with plan_nonces_consecutive [of demo_gen "()" False demo_cb, unfolded if_False, OF demo_setup,
      of demo_sender] len demo_setup
  show ?thesis by auto
qed

lemma demo_prepare:
  "prepare_tx demo_gen w [] fuzz i demo_plan_call = Ok (named_tx_request_new demo_request None None)"
  by (simp add: prepare_tx_def get_fuzzed_args_def get_fuzzed_tx_value_def
      get_fuzzed_max_priority_fee_per_gas_def demo_call_fields demo_strict demo_template)

lemma demo_fuzz_map_empty: "create_fuzz_map demo_ext s n [] = Ok []"
proof -
  have "(0::u256) < - 1" by (simp add: word_gt_0)
  then show ?thesis by (simp add: create_fuzz_map_def seed_values_def)
qed

lemma demo_round: "round_up_txs 3 (2 :: u64) = Ok 4" "[0..<2] = [0, Suc 0]"
proof -
  have "(3 :: u64) mod 2 = 1" by code_simp
  then show "round_up_txs 3 (2 :: u64) = Ok 4" "[0..<2] = [0, Suc 0]"
    by (simp_all add: round_up_txs_def upt_rec)
qed

lemma demo_spam:
  "load_txs demo_gen () (PlanSpam 3 demo_cb) =
     Ok ((), [ExTx (named_tx_request_new demo_request None None),
              ExTx (named_tx_request_new demo_request None None),
              ExBundle [named_tx_request_new demo_request None None],
              ExBundle [named_tx_request_new demo_request None None]], [])"
  using demo_steps
  by (simp add: load_txs_def load_plan_def load_spam_def plan_init_def demo_round
      lookup_tx_placeholders_def demo_call_find demo_call_fields unwrap_or_default_def demo_fuzz_map_empty
      hm_extend_def demo_prepare call_and_await_def demo_cb_def await_def spam_call_def
      del: upt_Suc)

theorem spam_plan_layout_witness:
  "\<exists>txs. load_txs demo_gen () (PlanSpam 3 demo_cb) = Ok ((), txs, []) \<and> length txs = 4 \<and>
     request_matches demo_gen (SpamBundle [demo_plan_call]) 1 (txs ! 3)"
proof -
  have steps: "get_spam_steps (g_conf demo_gen) = [SpamTx demo_plan_call, SpamBundle [demo_plan_call]]"
    by (rule demo_steps)
  from spam_plan_layout [OF demo_spam, unfolded steps Let_def]
  have "request_matches demo_gen (SpamBundle [demo_plan_call]) 1
      (ExBundle [named_tx_request_new demo_request None None])"
    by (auto simp flip: numeral_2_eq_2 dest!: spec [of _ 3])
  with demo_spam show ?thesis by simp
qed

text \<open>
  The accounts that the steps of a scenario ask of a pool: the steps that name a pool with the number of
  accounts requested for their section, and the largest of these numbers.
\<close>

definition pool_needs :: "test_config \<Rightarrow> agent_spec \<Rightarrow> (string \<times> nat) list" where
  "pool_needs cfg spec =
     List.map_filter (\<lambda>d. map_option (\<lambda>p. (p, as_create_accounts spec)) (cd_from_pool d)) (get_create_steps cfg) @
     List.map_filter (\<lambda>d. map_option (\<lambda>p. (p, as_setup_accounts spec)) (fd_from_pool d)) (get_setup_steps cfg) @
     List.map_filter (\<lambda>d. map_option (\<lambda>p. (p, as_spam_accounts spec)) (fd_from_pool d))
       (concat (map spam_calls (get_spam_steps cfg)))"

definition pool_demand :: "test_config \<Rightarrow> agent_spec \<Rightarrow> string \<Rightarrow> nat" where
  "pool_demand cfg spec pool = foldr max (map snd (filter (\<lambda>(p, _). p = pool) (pool_needs cfg spec))) 0"

lemma foldr_max_0: "foldr max l (0 :: nat) = Max (insert 0 (set l))"
  by (induction l) (simp_all add: insert_commute [of 0])

lemma pool_needs_iff:
  "(pool, n) \<in> set (pool_needs cfg spec) \<longleftrightarrow>
     pool \<in> set (get_create_pools cfg) \<and> n = as_create_accounts spec \<or>
     pool \<in> set (get_setup_pools cfg) \<and> n = as_setup_accounts spec \<or>
     pool \<in> set (get_spam_pools cfg) \<and> n = as_spam_accounts spec"
  by (auto simp: pool_needs_def get_create_pools_def get_setup_pools_def get_spam_pools_def set_map_filter)

lemma pool_demand_max:
  "pool_demand cfg spec pool =
    max (if pool \<in> set (get_create_pools cfg) then as_create_accounts spec else 0)
      (max (if pool \<in> set (get_setup_pools cfg) then as_setup_accounts spec else 0)
        (if pool \<in> set (get_spam_pools cfg) then as_spam_accounts spec else 0))"
proof -
  have "snd ` {x \<in> set (pool_needs cfg spec). case x of (p, _) \<Rightarrow> p = pool} = {n. (pool, n) \<in> set (pool_needs cfg spec)}"
    by force
  then have "pool_demand cfg spec pool = Max (insert 0 {n. (pool, n) \<in> set (pool_needs cfg spec)})"
    by (simp add: pool_demand_def foldr_max_0)
  also have "{n. (pool, n) \<in> set (pool_needs cfg spec)} =
      (if pool \<in> set (get_create_pools cfg) then {as_create_accounts spec} else {}) \<union>
      (if pool \<in> set (get_setup_pools cfg) then {as_setup_accounts spec} else {}) \<union>
      (if pool \<in> set (get_spam_pools cfg) then {as_spam_accounts spec} else {})"
    by (auto simp: pool_needs_iff)
  finally show ?thesis by (simp add: max.left_commute max.commute)
qed

lemma agent_has_signers:
  assumes "build_agent_store keccak signer_of cfg s spec = (Ok agents :: (agent_store, 'e) rresult)"
    and "get_agent agents pool = Some agent"
  shows "0 < length (ss_signers agent)"
  using agent_store_new [OF assms] signer_store_new_length by metis

text \<open>
  C35. In a scenario whose agent store was built for it, a pool that a create, setup or spam step
  (bundled calls included) names has at least as many accounts as the step's section requests; if any
  section that names the pool requests one, the pool has exactly the largest number requested,
  and the sender of a step at any index is the signer of that pool at the index modulo the
  pool's size. If no section requests any, as for the create and setup steps of a test file that is spammed and the spam
  steps of a setup, the pool does not exist and the step fails with the error that the pool was not found.
  In no case is there a missing signer or a division by zero.
\<close>

theorem plan_senders_resolve:
  assumes "build_agent_store keccak signer_of (g_conf g) s spec = (Ok (g_agents g) :: (_, 'e) rresult)"
  shows "(if 0 < pool_demand (g_conf g) spec pool
       then \<exists>agent. get_agent (g_agents g) pool = Some agent
         \<and> length (ss_signers agent) = pool_demand (g_conf g) spec pool
         \<and> resolve_sender g (Some pool) from_text i
             = Ok (sg_address (ss_signers agent ! (i mod length (ss_signers agent))))
       else get_agent (g_agents g) pool = None \<and> resolve_sender g (Some pool) from_text i = Err (FromPoolNotFound pool))
    \<and> (\<forall>need. (pool, need) \<in> set (pool_needs (g_conf g) spec) \<longrightarrow> need \<le> pool_demand (g_conf g) spec pool)"
proof -
  let ?d = "pool_demand (g_conf g) spec pool"
  have count: "(case get_agent (g_agents g) pool of Some a \<Rightarrow> length (ss_signers a) | None \<Rightarrow> 0) = ?d"
    by (simp add: agent_store_counts [OF assms] pool_demand_max)
  have "resolve_sender g (Some pool) from_text i = pool_sender (g_agents g) pool i" by (simp add: resolve_sender_def)
  moreover have "get_agent (g_agents g) pool = None \<and> pool_sender (g_agents g) pool i = Err (FromPoolNotFound pool)" if "?d = 0"
    using count that agent_has_signers [OF assms] by (cases "get_agent (g_agents g) pool") (auto simp: pool_sender_def)
  moreover have "\<forall>need. (pool, need) \<in> set (pool_needs (g_conf g) spec) \<longrightarrow> need \<le> ?d"
    by (auto simp: pool_needs_iff pool_demand_max)
  ultimately show ?thesis using pool_sender_Ok [OF count, of i] by auto
qed

text \<open>Both cases on one store: the test file's spam pool has the ten accounts it asks for, and a pool that only a setup step would ask accounts of does not exist.\<close>

theorem plan_senders_resolve_witness:
  "\<exists>agents agent. build_agent_store (\<lambda>b. b) demo_signer_of demo_config (seed_from_u256 1) agent_spec_default
      = (Ok agents :: (_, unit) rresult) \<and> get_agent agents ''spammers'' = Some agent \<and> length (ss_signers agent) = 10 \<and>
     resolve_sender (demo_gen\<lparr>g_conf := demo_config, g_agents := agents\<rparr>) (Some ''spammers'') None 13
      = Ok (sg_address (ss_signers agent ! 3)) \<and>
     resolve_sender (demo_gen\<lparr>g_conf := demo_config, g_agents := agents\<rparr>) (Some ''admin'') None 0
      = Err (FromPoolNotFound ''admin'')"
proof -
  obtain agents where a: "build_agent_store (\<lambda>b. b) demo_signer_of demo_config (seed_from_u256 1) agent_spec_default
      = (Ok agents :: (agent_store, unit) rresult)" using demo_store by blast
  let ?g = "demo_gen\<lparr>g_conf := demo_config, g_agents := agents\<rparr>"
  have d: "pool_demand (g_conf ?g) agent_spec_default ''spammers'' = 10" "pool_demand (g_conf ?g) agent_spec_default ''admin'' = 0"
    by (simp_all add: pool_demand_max demo_pools agent_spec_default_def)
  note senders = plan_senders_resolve [where g = ?g and keccak = "\<lambda>b. b" and signer_of = demo_signer_of
      and s = "seed_from_u256 1" and spec = agent_spec_default and from_text = None and 'e = unit]
  show ?thesis
    using a senders [of "''spammers''" 13] senders [of "''admin''" 0] unfolding d by auto
qed

text \<open>
  The setup plan reports the outcome of each sender's last task only.  When
  the tasks \<open>ts\<close> of a sender are chained one after the other, what is awaited at
  the end is the last of them; if it succeeded, the plan succeeds for this
  sender although earlier tasks may have failed.
\<close>

theorem setup_reports_last_task:
  assumes "ts \<noteq> []" and "hm_wf pending"
  shows "await_pending (fold (\<lambda>t p. chain_pending p a (Some t)) ts pending) = Ok () \<longleftrightarrow>
    last ts = TaskOk \<and> (\<forall>b t. b \<noteq> a \<longrightarrow> hm_get pending b = Some t \<longrightarrow> t = TaskOk)"
proof -
  have "hm_wf (chain_pending p b h)" if "hm_wf p" for p b h
    using that by (auto simp: chain_pending_def split: option.splits)
  then have wf: "hm_wf (fold (\<lambda>t p. chain_pending p a (Some t)) us pending)" for us
    using assms(2) by (induction us rule: rev_induct) simp_all
  have get: "hm_get (fold (\<lambda>t p. chain_pending p a (Some t)) us pending) b =
      (if b = a \<and> us \<noteq> [] then Some (chained_task None (last us)) else hm_get pending b)" for us b
    by (induction us rule: rev_induct) (auto simp: chain_pending_get)
  have "chained_task None t = TaskOk \<longleftrightarrow> t = TaskOk" for t
    by (simp add: chained_task_def split: task.splits)
  then show ?thesis
    unfolding await_pending_Ok [OF wf] get using assms(1) by auto
qed

theorem setup_reports_last_task_witness:
  "await_pending (fold (\<lambda>t p. chain_pending p 1 (Some t)) [TaskErr (CoreRpc ''reverted''), TaskOk] [])
    = Ok ()"
  using setup_reports_last_task [of "[TaskErr (CoreRpc ''reverted''), TaskOk]" "[]" 1] by simp

end
