(* ===== verification/Rust_State.thy ===== *)
theory Rust_State
  imports Rust_Strings
begin

text \<open>
  Methods that take \<open>&mut self\<close> and return a \<open>Result\<close>: functions from a state to
  the new state and a result.  The state changes made before an error are kept,
  as in the source.  Also \<open>slice::chunks\<close>.
\<close>

type_synonym ('s, 'a, 'e) action = "'s \<Rightarrow> 's \<times> ('a, 'e) rresult"

definition sreturn :: "'a \<Rightarrow> ('s, 'a, 'e) action" where
  "sreturn a s = (s, Ok a)"

definition slift :: "('a, 'e) rresult \<Rightarrow> ('s, 'a, 'e) action" where
  "slift r s = (s, r)"

definition sget :: "('s \<Rightarrow> 'a) \<Rightarrow> ('s, 'a, 'e) action" where
  "sget f s = (s, Ok (f s))"

definition supdate :: "('s \<Rightarrow> 's) \<Rightarrow> ('s, unit, 'e) action" where
  "supdate f s = (f s, Ok ())"

definition sbind ::
  "('s, 'a, 'e) action \<Rightarrow> ('a \<Rightarrow> ('s, 'b, 'e) action) \<Rightarrow> ('s, 'b, 'e) action" where
  "sbind m f s =
     (case m s of
        (s', Ok a) \<Rightarrow> f a s'
      | (s', Err e) \<Rightarrow> (s', Err e)
      | (s', Panic) \<Rightarrow> (s', Panic))"

fun smapM :: "('x \<Rightarrow> ('s, 'y, 'e) action) \<Rightarrow> 'x list \<Rightarrow> ('s, 'y list, 'e) action" where
  "smapM f [] = sreturn []"
| "smapM f (x # xs) = sbind (f x) (\<lambda>y. sbind (smapM f xs) (\<lambda>ys. sreturn (y # ys)))"

lemma sbind_Ok [simp]:
  "sbind m f s = (s', Ok b) \<longleftrightarrow> (\<exists>s1 a. m s = (s1, Ok a) \<and> f a s1 = (s', Ok b))"
  by (auto simp: sbind_def split: prod.splits rresult.splits)

lemma sreturn_Ok [simp]: "sreturn a s = (s', Ok b) \<longleftrightarrow> s' = s \<and> b = a"
  by (auto simp: sreturn_def)

lemma slift_Ok [simp]: "slift r s = (s', Ok b) \<longleftrightarrow> s' = s \<and> r = Ok b"
  by (auto simp: slift_def)

lemma sget_Ok [simp]: "sget f s = (s', Ok b) \<longleftrightarrow> s' = s \<and> b = f s"
  by (auto simp: sget_def)

lemma supdate_Ok [simp]: "supdate f s = (s', Ok u) \<longleftrightarrow> s' = f s"
  by (auto simp: supdate_def)

text \<open>
  Induction for loops: an invariant on the state and on the list of results
  produced so far.
\<close>

lemma smapM_inv:
  assumes "smapM f xs s = (s', Ok ys)" and "P s acc"
    and "\<And>s x s' y acc. x \<in> set xs \<Longrightarrow> P s acc \<Longrightarrow> f x s = (s', Ok y) \<Longrightarrow> P s' (acc @ [y])"
  shows "P s' (acc @ ys)"
  using assms
proof (induction xs arbitrary: s acc ys)
  case (Cons x xs)
  from Cons.prems(1) obtain s1 y ys' where f: "f x s = (s1, Ok y)"
    and rest: "smapM f xs s1 = (s', Ok ys')" and ys: "ys = y # ys'" by auto
  have "P s1 (acc @ [y])" using Cons.prems(2,3) f by (meson list.set_intros(1))
  then have "P s' ((acc @ [y]) @ ys')"
    using Cons.IH [OF rest] Cons.prems(3) by (meson list.set_intros(2))
  then show ?case by (simp add: ys)
qed simp

lemma smapM_length: "smapM f xs s = (s', Ok ys) \<Longrightarrow> length ys = length xs"
  by (induction xs arbitrary: s ys) auto

lemma smapM_all2:
  assumes "smapM f xs s = (s', Ok ys)"
    and "\<And>s x s' y. x \<in> set xs \<Longrightarrow> f x s = (s', Ok y) \<Longrightarrow> R x y"
  shows "list_all2 R xs ys"
  using assms
proof (induction xs arbitrary: s ys)
  case (Cons x xs)
  then obtain s1 y ys' where "f x s = (s1, Ok y)" "smapM f xs s1 = (s', Ok ys')" "ys = y # ys'" by auto
  with Cons.IH Cons.prems(2) show ?case by (metis list.set_intros list_all2_Cons)
qed simp

section \<open>Chunks\<close>

function chunks_ne :: "nat \<Rightarrow> 'a list \<Rightarrow> 'a list list" where
  "chunks_ne n xs = (if n = 0 \<or> xs = [] then [] else take n xs # chunks_ne n (drop n xs))"
  by pat_completeness auto
termination
  by (relation "measure (\<lambda>(n, xs). length xs)") auto

declare chunks_ne.simps [simp del]

definition chunks :: "nat \<Rightarrow> 'a list \<Rightarrow> ('a list list, 'e) rresult" where
  "chunks n xs = (if n = 0 then Panic else Ok (chunks_ne n xs))"

lemma chunks_ne_Nil [simp]: "chunks_ne n [] = []"
  by (simp add: chunks_ne.simps)

lemma concat_chunks: "0 < n \<Longrightarrow> concat (chunks_ne n xs) = xs"
proof (induction n xs rule: chunks_ne.induct)
  case (1 n xs)
  then show ?case by (cases "xs = []") (simp_all add: chunks_ne.simps [of n xs])
qed

lemma chunk_sizes: "c \<in> set (chunks_ne n xs) \<Longrightarrow> c \<noteq> [] \<and> length c \<le> n"
proof (induction n xs rule: chunks_ne.induct)
  case (1 n xs)
  then show ?case by (subst (asm) (2) chunks_ne.simps) (auto split: if_splits)
qed

lemma chunks_exact:
  "0 < n \<Longrightarrow> length xs = k * n \<Longrightarrow>
     length (chunks_ne n xs) = k \<and> list_all (\<lambda>c. length c = n) (chunks_ne n xs)"
proof (induction k arbitrary: xs)
  case (Suc k)
  then have "xs \<noteq> []" by auto
  with Suc show ?case by (simp add: chunks_ne.simps [of n xs])
qed simp

lemma chunks_full:
  "0 < n \<Longrightarrow> k * n \<le> length xs \<Longrightarrow>
     k \<le> length (chunks_ne n xs) \<and> (\<forall>i < k. length (chunks_ne n xs ! i) = n)"
proof (induction k arbitrary: xs)
  case (Suc k)
  then have "xs \<noteq> []" and "k * n \<le> length (drop n xs)" by auto
  with Suc show ?case by (auto simp: chunks_ne.simps [of n xs] less_Suc_eq_0_disj)
qed simp

lemma chunks_ne_eq_Nil [simp]: "0 < n \<Longrightarrow> chunks_ne n xs = [] \<longleftrightarrow> xs = []"
  by (simp add: chunks_ne.simps)

end
