(* ===== verification/Scenario_Prepare.thy ===== *)
theory Scenario_Prepare
  imports Generator Rust_State
begin

text \<open>
  The first half of \<open>crates/core/src/test_scenario.rs\<close>: the state of a
  \<open>TestScenario\<close> as far as spamming reads or writes it, gas prices with cached
  fallback, the gas-limit map, nonces, and \<open>prepare_spam\<close>, which turns requests
  into signed payloads; also \<open>sync_nonces\<close>, \<open>get_spam_tx_chunks\<close> and the cost
  estimate of a spam transaction.

  The answers of the RPC node during one call are the record \<open>rpc_env\<close>; signing
  is its field \<open>re_sign\<close>, and a signed transaction is the request with its
  signer and hash.  Every query below is made at most once per argument in a
  call, so a function of the argument describes all answers of the node.
\<close>

datatype bundle_type = BundleL1 | BundleRevertProtected

record scenario =
  sc_signer_map :: "(address, signer) hmap"
  sc_nonces :: "(address, u64) hmap"
  sc_chain_id :: u64
  sc_gas_limits :: "(u8 list, u64) hmap"
  sc_tx_type :: tx_type
  sc_setcode_signer :: signer
  sc_gas_price :: "u256 option"
  sc_gas_price_adder :: i128
  sc_last_fetched_gas_price :: "u128 option"
  sc_last_fetched_blob_gas_price :: "u128 option"
  sc_bundle_client :: bool
  sc_bundle_type :: bundle_type
  sc_rpc_batch_size :: u64
  sc_send_raw_tx_sync :: bool
  sc_num_rpc_batches_sent :: u64
  sc_should_sync_nonces :: bool

record rpc_env =
  re_gas_price :: "(u128, string) rresult"
  re_blob_base_fee :: "(u128, string) rresult"
  re_code_at :: "address \<Rightarrow> (u8 list, string) rresult"
  re_estimate_gas :: "tx_request \<Rightarrow> (u64, string) rresult"
  re_tx_count :: "address \<Rightarrow> (u64, string) rresult"
  re_sign :: "tx_request \<Rightarrow> signer \<Rightarrow> (tx_hash, string) rresult"

record signed_tx =
  st_request :: tx_request
  st_signer :: signer
  st_hash :: tx_hash

datatype execution_payload =
    SignedTx signed_tx named_tx_request
  | SignedTxBundle "signed_tx list" "named_tx_request list"

type_synonym 'a sc_action = "(scenario, 'a, core_error) action"

section \<open>Prices\<close>

definition fetch_with_cache ::
  "u128 option \<Rightarrow> (u128, string) rresult \<Rightarrow> u128 option \<times> (u128, core_error) rresult" where
  "fetch_with_cache cached fetched =
     (case fetched of
        Ok value \<Rightarrow> (Some value, Ok value)
      | Err e \<Rightarrow> (cached, case cached of Some v \<Rightarrow> Ok v | None \<Rightarrow> Err (CoreRpc e))
      | Panic \<Rightarrow> (cached, Panic))"

definition retry_once :: "('a, 'e) rresult \<Rightarrow> ('a, 'e) rresult \<Rightarrow> ('a, 'e) rresult" where
  "retry_once first second = (case first of Ok v \<Rightarrow> Ok v | Err e \<Rightarrow> second | Panic \<Rightarrow> Panic)"

definition fetch_blob_gas_price :: "rpc_env \<Rightarrow> u128 sc_action" where
  "fetch_blob_gas_price env s =
     (if sc_tx_type s \<noteq> Eip4844 then (s, Ok 0)
      else case fetch_with_cache (sc_last_fetched_blob_gas_price s) (re_blob_base_fee env) of
             (c, r) \<Rightarrow> (s\<lparr>sc_last_fetched_blob_gas_price := c\<rparr>,
                        case r of Ok price \<Rightarrow> Ok price | Err e \<Rightarrow> Ok 0 | Panic \<Rightarrow> Panic))"

definition fetch_gas_price :: "rpc_env \<Rightarrow> u128 sc_action" where
  "fetch_gas_price env s =
     (case fetch_with_cache (sc_last_fetched_gas_price s) (re_gas_price env) of
        (c, r) \<Rightarrow> (s\<lparr>sc_last_fetched_gas_price := c\<rparr>, r))"

definition adjusted_gas_price :: "i128 \<Rightarrow> u128 \<Rightarrow> u128" where
  "adjusted_gas_price adder price = (if adder <s 0 then price - (- adder) else price + adder)"

definition u256_to_u128 :: "u256 \<Rightarrow> (u128, 'e) rresult" where
  "u256_to_u128 v = (if unat v < 2 ^ 128 then Ok (ucast v) else Panic)"

definition spam_gas_prices :: "rpc_env \<Rightarrow> (u128 \<times> u128) sc_action" where
  "spam_gas_prices env =
     sbind (fetch_blob_gas_price env) (\<lambda>blob_gas_price.
     sbind (sget sc_gas_price) (\<lambda>override_price.
     case override_price of
       Some p \<Rightarrow> sbind (slift (u256_to_u128 p)) (\<lambda>gas_price. sreturn (gas_price, blob_gas_price))
     | None \<Rightarrow>
         sbind (fetch_gas_price env) (\<lambda>gas_price.
         sbind (sget sc_gas_price_adder) (\<lambda>adder.
         sreturn (adjusted_gas_price adder gas_price, adjusted_gas_price adder blob_gas_price)))))"

section \<open>Gas limits\<close>

definition tx_key :: "ext \<Rightarrow> tx_request \<Rightarrow> u8 list" where
  "tx_key x tx = x_keccak x (case tx_input tx of Some b \<Rightarrow> b | None \<Rightarrow> [])"

text \<open>The request sent to the gas estimator (its blob hashes are computed from the sidecar).\<close>

definition estimate_request :: "tx_request \<Rightarrow> u128 \<Rightarrow> tx_request" where
  "estimate_request tx blob_gas_price =
     (let tx1 = (if tx_sidecar tx \<noteq> None then tx\<lparr>tx_max_fee_per_blob_gas := Some blob_gas_price\<rparr> else tx)
      in case tx_max_priority_fee_per_gas tx1 of
           Some priority_fee \<Rightarrow>
             let current_max = (case tx_max_fee_per_gas tx1 of Some m \<Rightarrow> m | None \<Rightarrow> 0)
             in if current_max < priority_fee then tx1\<lparr>tx_max_fee_per_gas := Some priority_fee\<rparr> else tx1
         | None \<Rightarrow> tx1)"

definition check_code :: "rpc_env \<Rightarrow> tx_request \<Rightarrow> (unit, core_error) rresult" where
  "check_code env tx =
     (case tx_to tx of
        Some (TxCall a) \<Rightarrow>
          if (case tx_input tx of Some b \<Rightarrow> b | None \<Rightarrow> []) \<noteq> []
          then rbind (rmap_err CoreRpc (re_code_at env a)) (\<lambda>code. Ok ()) else Ok ()
      | _ \<Rightarrow> Ok ())"

definition gas_limit_of :: "rpc_env \<Rightarrow> tx_request \<Rightarrow> u128 \<Rightarrow> (u64, core_error) rresult" where
  "gas_limit_of env tx0 blob_gas_price =
     (let tx = estimate_request tx0 blob_gas_price
      in case tx_gas tx of
           Some gas \<Rightarrow> Ok gas
         | None \<Rightarrow> rbind (check_code env tx) (\<lambda>_. rmap_err CoreRpc (re_estimate_gas env tx)))"

definition update_gas_map :: "ext \<Rightarrow> rpc_env \<Rightarrow> tx_request \<Rightarrow> u128 \<Rightarrow> u8 list sc_action" where
  "update_gas_map x env tx blob_gas_price =
     (let key = tx_key x tx
      in sbind (sget (\<lambda>s. hm_contains (sc_gas_limits s) key)) (\<lambda>known.
         if known then sreturn key
         else sbind (slift (gas_limit_of env tx blob_gas_price)) (\<lambda>gas.
              sbind (supdate (\<lambda>s. s\<lparr>sc_gas_limits := hm_insert key gas (sc_gas_limits s)\<rparr>)) (\<lambda>_.
              sreturn key))))"

section \<open>Preparing transactions\<close>

definition runtime_ok_or :: "'a option \<Rightarrow> runtime_error \<Rightarrow> 'a sc_action" where
  "runtime_ok_or v e = slift (ok_or v (CoreRuntime e))"

definition prepare_tx_request ::
  "ext \<Rightarrow> rpc_env \<Rightarrow> tx_request \<Rightarrow> u128 \<Rightarrow> u128 \<Rightarrow> (tx_request \<times> signer) sc_action" where
  "prepare_tx_request x env tx gas_price blob_gas_price =
     sbind (runtime_ok_or (tx_from tx) (TxMissingFromAddress tx)) (\<lambda>from_addr.
     sbind (sget (\<lambda>s. hm_get (sc_nonces s) from_addr)) (\<lambda>n0.
     sbind (runtime_ok_or n0 (NonceMissing from_addr)) (\<lambda>nonce.
     sbind (sget (\<lambda>s. sg_address (sc_setcode_signer s))) (\<lambda>setcode_addr.
     sbind (sget (\<lambda>s. hm_get (sc_nonces s) setcode_addr)) (\<lambda>n1.
     sbind (runtime_ok_or n1 (NonceMissing from_addr)) (\<lambda>setcode_nonce.
     sbind (supdate (\<lambda>s. s\<lparr>sc_nonces := hm_insert from_addr (nonce + 1) (sc_nonces s)\<rparr>)) (\<lambda>_.
     sbind (if tx_authorization_list tx \<noteq> None
            then supdate (\<lambda>s. s\<lparr>sc_nonces := hm_insert setcode_addr (setcode_nonce + 1) (sc_nonces s)\<rparr>)
            else sreturn ()) (\<lambda>_.
     sbind (update_gas_map x env tx blob_gas_price) (\<lambda>_.
     sbind (sget (\<lambda>s. hm_get (sc_gas_limits s) (tx_key x tx))) (\<lambda>g0.
     sbind (runtime_ok_or g0 (GasLimitMissingFromMap tx)) (\<lambda>gas_limit.
     sbind (sget (\<lambda>s. hm_get (sc_signer_map s) from_addr)) (\<lambda>sg0.
     sbind (runtime_ok_or sg0 (SignerMissingFromMap from_addr)) (\<lambda>sg.
     sbind (sget sc_tx_type) (\<lambda>ty.
     sbind (sget sc_chain_id) (\<lambda>chain_id.
     let priority_fee = (case tx_max_priority_fee_per_gas tx of Some f \<Rightarrow> f | None \<Rightarrow> gas_price div 10)
     in sreturn (complete_tx_request (tx\<lparr>tx_nonce := Some nonce\<rparr>) ty gas_price priority_fee
                   gas_limit chain_id blob_gas_price, sg))))))))))))))))"

definition build_tx :: "rpc_env \<Rightarrow> tx_request \<times> signer \<Rightarrow> (signed_tx, core_error) rresult" where
  "build_tx env = (\<lambda>(tx, sg).
     rbind (rmap_err CoreTransactionBuilderEth (re_sign env tx sg)) (\<lambda>h.
     Ok \<lparr>st_request = tx, st_signer = sg, st_hash = h\<rparr>))"

definition prepare_and_sign ::
  "ext \<Rightarrow> rpc_env \<Rightarrow> u128 \<Rightarrow> u128 \<Rightarrow> named_tx_request \<Rightarrow> signed_tx sc_action" where
  "prepare_and_sign x env gas_price blob_gas_price req =
     sbind (prepare_tx_request x env (ntr_tx req) gas_price blob_gas_price) (\<lambda>p.
     slift (build_tx env p))"

fun prepare_payload ::
  "ext \<Rightarrow> rpc_env \<Rightarrow> u128 \<Rightarrow> u128 \<Rightarrow> execution_request \<Rightarrow> execution_payload sc_action" where
  "prepare_payload x env gas_price blob_gas_price (ExBundle reqs) =
     sbind (sget sc_bundle_client) (\<lambda>has_client.
     if \<not> has_client then slift (Err (CoreRuntime (InvalidParams BuilderUrlRequired)))
     else sbind (smapM (prepare_and_sign x env gas_price blob_gas_price) reqs) (\<lambda>bundle_txs.
          sreturn (SignedTxBundle bundle_txs reqs)))"
| "prepare_payload x env gas_price blob_gas_price (ExTx req) =
     sbind (prepare_and_sign x env gas_price blob_gas_price req) (\<lambda>st.
     sreturn (SignedTx st (req\<lparr>ntr_tx := st_request st\<rparr>)))"

definition prepare_spam ::
  "ext \<Rightarrow> rpc_env \<Rightarrow> execution_request list \<Rightarrow> execution_payload list sc_action" where
  "prepare_spam x env tx_requests =
     sbind (spam_gas_prices env) (\<lambda>(gas_price, blob_gas_price).
     smapM (prepare_payload x env gas_price blob_gas_price) tx_requests)"

section \<open>Nonces from the node\<close>

text \<open>
  \<open>arrival\<close> is the order in which the tasks deliver their answers: a permutation
  of the addresses asked for.  A failed query delivers nothing.
\<close>

definition sync_nonces_with ::
  "rpc_env \<Rightarrow> (address, u64) hmap \<Rightarrow> address list \<Rightarrow> (address, u64) hmap" where
  "sync_nonces_with env nonces arrival =
     fold (\<lambda>a m. case re_tx_count env a of Ok n \<Rightarrow> hm_insert a n m | _ \<Rightarrow> m) arrival nonces"

definition sync_addresses :: "scenario \<Rightarrow> address list" where
  "sync_addresses s = hm_keys (sc_signer_map s) @ [sg_address (sc_setcode_signer s)]"

definition sync_nonces :: "rpc_env \<Rightarrow> address list \<Rightarrow> scenario \<Rightarrow> scenario" where
  "sync_nonces env arrival s =
     (if sc_should_sync_nonces s
      then s\<lparr>sc_nonces := sync_nonces_with env (sc_nonces s) arrival\<rparr> else s)"

section \<open>Chunks and costs\<close>

definition get_spam_tx_chunks ::
  "'w gen \<Rightarrow> 'w \<Rightarrow> u64 \<Rightarrow> u64 \<Rightarrow> (execution_request list list, core_error) rresult" where
  "get_spam_tx_chunks g w txs_per_period num_periods =
     rbind (load_txs g w (PlanSpam (txs_per_period * num_periods) (\<lambda>w _. Ok (w, None))))
       (\<lambda>(_, tx_requests, _). chunks (unat txs_per_period) tx_requests)"

definition spam_tx_cost :: "tx_request \<Rightarrow> u256" where
  "spam_tx_cost tx =
     (let base = (case tx_max_fee_per_gas tx of
                    Some f \<Rightarrow> f
                  | None \<Rightarrow> (case tx_gas_price tx of Some p \<Rightarrow> p | None \<Rightarrow> 0));
          price = (case tx_max_priority_fee_per_gas tx of Some f \<Rightarrow> base + f | None \<Rightarrow> base);
          gas = (case tx_gas tx of Some g \<Rightarrow> ucast g | None \<Rightarrow> 0)
      in ucast (price * gas) + (case tx_value tx of Some v \<Rightarrow> v | None \<Rightarrow> 0))"

definition max_spam_cost :: "tx_request list \<Rightarrow> (u256, core_error) rresult" where
  "max_spam_cost txs =
     (if txs = [] then Err (CoreRuntime SpamTxsEmpty) else Ok (Max (spam_tx_cost ` set txs)))"

section \<open>Lemmas\<close>

lemma complete_tx_request_keeps [simp]:
  "tx_from (complete_tx_request tx ty gp pf gl cid bp) = tx_from tx"
  "tx_nonce (complete_tx_request tx ty gp pf gl cid bp) = tx_nonce tx"
  "tx_to (complete_tx_request tx ty gp pf gl cid bp) = tx_to tx"
  "tx_input (complete_tx_request tx ty gp pf gl cid bp) = tx_input tx"
  "tx_value (complete_tx_request tx ty gp pf gl cid bp) = tx_value tx"
  "tx_gas (complete_tx_request tx ty gp pf gl cid bp) = Some gl"
  by (cases ty; simp)+

fun payload_txs :: "execution_payload \<Rightarrow> signed_tx list" where
  "payload_txs (SignedTx st req) = [st]"
| "payload_txs (SignedTxBundle sts reqs) = sts"

definition sent_nonces :: "address \<Rightarrow> signed_tx list \<Rightarrow> u64 option list" where
  "sent_nonces a sts =
     map (\<lambda>st. tx_nonce (st_request st)) (filter (\<lambda>st. tx_from (st_request st) = Some a) sts)"

text \<open>The part of the state that identifies the accounts.\<close>

definition same_accounts :: "scenario \<Rightarrow> scenario \<Rightarrow> bool" where
  "same_accounts s s' \<longleftrightarrow>
     sc_signer_map s' = sc_signer_map s \<and> sc_setcode_signer s' = sc_setcode_signer s"

definition sender_run :: "scenario \<Rightarrow> scenario \<Rightarrow> signed_tx list \<Rightarrow> address \<Rightarrow> bool" where
  "sender_run s0 s sts a \<longleftrightarrow>
     (case hm_get (sc_nonces s0) a of
        None \<Rightarrow> sent_nonces a sts = [] \<and> hm_get (sc_nonces s) a = None
      | Some n \<Rightarrow> consecutive n (sent_nonces a sts) \<and>
                  hm_get (sc_nonces s) a = Some (n + word_of_nat (length (sent_nonces a sts))))"

definition signed_by_sender :: "scenario \<Rightarrow> signed_tx \<Rightarrow> bool" where
  "signed_by_sender s st \<longleftrightarrow>
     (\<exists>a. tx_from (st_request st) = Some a \<and> hm_get (sc_signer_map s) a = Some (st_signer st))"

definition prepared :: "scenario \<Rightarrow> scenario \<Rightarrow> signed_tx list \<Rightarrow> bool" where
  "prepared s0 s sts \<longleftrightarrow>
     same_accounts s0 s \<and> list_all (signed_by_sender s0) sts \<and>
     (\<forall>a. a \<noteq> sg_address (sc_setcode_signer s0) \<longrightarrow> sender_run s0 s sts a)"

lemma update_gas_map_Ok:
  assumes "update_gas_map x env tx bp s = (s', Ok k)"
  shows "sc_nonces s' = sc_nonces s \<and> same_accounts s s' \<and> k = tx_key x tx \<and>
    hm_contains (sc_gas_limits s') k \<and>
    (if hm_contains (sc_gas_limits s) k then s' = s
     else \<exists>g. gas_limit_of env tx bp = Ok g \<and> hm_get (sc_gas_limits s') k = Some g)"
  using assms
  by (auto simp: update_gas_map_def same_accounts_def hm_contains_def Let_def split: if_splits)

lemma prepare_tx_request_Ok:
  assumes "prepare_tx_request x env tx gp bp s = (s', Ok (tx', sg))"
  obtains a n g where "tx_from tx = Some a" "hm_get (sc_nonces s) a = Some n"
    "tx_from tx' = Some a" "tx_nonce tx' = Some n" "hm_get (sc_signer_map s) a = Some sg"
    "same_accounts s s'" "tx_gas tx' = Some g" "hm_get (sc_gas_limits s') (tx_key x tx) = Some g"
    "(if hm_contains (sc_gas_limits s) (tx_key x tx) then sc_gas_limits s' = sc_gas_limits s
      else gas_limit_of env tx bp = Ok g)"
    "\<And>b. b \<noteq> sg_address (sc_setcode_signer s) \<Longrightarrow>
       hm_get (sc_nonces s') b = (if b = a then Some (n + 1) else hm_get (sc_nonces s) b)"
proof -
  let ?sa = "sg_address (sc_setcode_signer s)"
  from assms obtain a n n1 c s1 k pf where a: "tx_from tx = Some a" "hm_get (sc_nonces s) a = Some n"
    and s1_def: "s1 = (let s2 = s\<lparr>sc_nonces := hm_insert a (n + 1) (sc_nonces s)\<rparr>
        in if tx_authorization_list tx = None then s2
           else s2\<lparr>sc_nonces := hm_insert ?sa (n1 + 1) (sc_nonces s2)\<rparr>)"
    and upd: "update_gas_map x env tx bp s1 = (s', Ok k)"
    and c: "hm_get (sc_gas_limits s') (tx_key x tx) = Some c" "hm_get (sc_signer_map s') a = Some sg"
    and tx': "tx' = complete_tx_request (tx\<lparr>tx_nonce := Some n\<rparr>) (sc_tx_type s') gp pf c (sc_chain_id s') bp"
    unfolding prepare_tx_request_def runtime_ok_or_def Let_def
    by (cases "tx_authorization_list tx") (simp, blast)+
  have s1: "same_accounts s s1" "sc_gas_limits s1 = sc_gas_limits s"
      "\<And>b. b \<noteq> ?sa \<Longrightarrow> hm_get (sc_nonces s1) b = (if b = a then Some (n + 1) else hm_get (sc_nonces s) b)"
    by (simp_all add: s1_def same_accounts_def Let_def)
  note u = update_gas_map_Ok [OF upd]
  from a s1 tx' c u show ?thesis
    by (intro that [of a n c]) (auto simp: same_accounts_def split: if_splits)
qed

lemma prepared_refl: "same_accounts s s' \<Longrightarrow> sc_nonces s' = sc_nonces s \<Longrightarrow> prepared s s' []"
  by (simp add: prepared_def sender_run_def sent_nonces_def same_accounts_def split: option.splits)

lemma prepare_and_sign_step:
  assumes "prepared s0 s sts" and "prepare_and_sign x env gp bp req s = (s', Ok st)"
  shows "prepared s0 s' (sts @ [st])"
proof -
  from assms(2) obtain tx' sg where p: "prepare_tx_request x env (ntr_tx req) gp bp s = (s', Ok (tx', sg))"
    and st: "st_request st = tx'" "st_signer st = sg"
    by (auto simp: prepare_and_sign_def build_tx_def)
  from p obtain a n where a: "hm_get (sc_nonces s) a = Some n" "tx_from tx' = Some a"
      "tx_nonce tx' = Some n" "hm_get (sc_signer_map s) a = Some sg" "same_accounts s s'"
    and upd: "\<And>b. b \<noteq> sg_address (sc_setcode_signer s) \<Longrightarrow>
       hm_get (sc_nonces s') b = (if b = a then Some (n + 1) else hm_get (sc_nonces s) b)"
    by (rule prepare_tx_request_Ok) blast
  have same: "same_accounts s0 s" using assms(1) by (simp add: prepared_def)
  have "sender_run s0 s' (sts @ [st]) b" if "b \<noteq> sg_address (sc_setcode_signer s0)" for b
  proof -
    have run: "sender_run s0 s sts b" using assms(1) that by (simp add: prepared_def)
    have "b \<noteq> sg_address (sc_setcode_signer s)" using that same by (simp add: same_accounts_def)
    from upd [OF this] run a st show ?thesis
      by (auto simp: sender_run_def sent_nonces_def ac_simps split: option.splits)
  qed
  with assms(1) a st show ?thesis
    by (simp add: prepared_def signed_by_sender_def same_accounts_def)
qed

lemma prepare_payload_step:
  assumes "prepared s0 s sts" and "prepare_payload x env gp bp req s = (s', Ok p)"
  shows "prepared s0 s' (sts @ payload_txs p)"
proof (cases req)
  case (ExTx r)
  with assms(2) obtain st where "prepare_and_sign x env gp bp r s = (s', Ok st)" "payload_txs p = [st]"
    by auto
  with prepare_and_sign_step [OF assms(1)] show ?thesis by simp
next
  case (ExBundle rs)
  with assms(2) obtain sts' where fold: "smapM (prepare_and_sign x env gp bp) rs s = (s', Ok sts')"
    and p: "payload_txs p = sts'"
    by (auto simp: slift_def split: if_splits)
  have "prepared s0 s' (sts @ sts')"
    by (rule smapM_inv [where P = "prepared s0", OF fold assms(1)]) (rule prepare_and_sign_step)
  then show ?thesis by (simp add: p)
qed

fun payload_of :: "execution_request \<Rightarrow> execution_payload \<Rightarrow> bool" where
  "payload_of (ExTx r) (SignedTx st r') \<longleftrightarrow> r' = r\<lparr>ntr_tx := st_request st\<rparr>"
| "payload_of (ExBundle rs) (SignedTxBundle sts rs') \<longleftrightarrow> rs' = rs \<and> length sts = length rs"
| "payload_of _ _ \<longleftrightarrow> False"

lemma prepare_payload_shape: "prepare_payload x env gp bp req s = (s', Ok p) \<Longrightarrow> payload_of req p"
  by (cases req) (auto simp: slift_def split: if_splits dest: smapM_length)

lemma spam_gas_prices_accounts:
  "spam_gas_prices env s = (s', Ok r) \<Longrightarrow> same_accounts s s' \<and> sc_nonces s' = sc_nonces s"
  by (auto simp: spam_gas_prices_def fetch_blob_gas_price_def fetch_gas_price_def fetch_with_cache_def
      same_accounts_def split: option.splits rresult.splits if_splits prod.splits)

lemma sync_nonces_get:
  "hm_get (sync_nonces_with env m arrival) a =
     (if a \<in> set arrival then (case re_tx_count env a of Ok n \<Rightarrow> Some n | _ \<Rightarrow> hm_get m a)
      else hm_get m a)"
  unfolding sync_nonces_with_def
proof (induction arrival arbitrary: m)
  case (Cons b arrival)
  then show ?case by (auto split: rresult.splits)
qed simp

section \<open>Properties\<close>

text \<open>
  C7. \<open>prepare_spam\<close> gives every sender consecutive nonces.  If it succeeds, there is
  one payload per request, in order and of the same shape; every transaction is
  signed with the key of its sender; the nonces of each sender's transactions
  (bundled ones included) are the tracked nonce and its successors without gap,
  and the tracked nonce ends at the next free one.  The account that signs
  EIP-7702 authorizations is the only exception: its nonce also counts them.
\<close>

theorem spam_nonces_consecutive:
  assumes "prepare_spam x env tx_requests s = (s', Ok payloads)"
    and "a \<noteq> sg_address (sc_setcode_signer s)"
  shows "list_all2 payload_of tx_requests payloads \<and>
    list_all (signed_by_sender s) (concat (map payload_txs payloads)) \<and>
    sender_run s s' (concat (map payload_txs payloads)) a"
proof -
  from assms(1) obtain s1 gp bp where prices: "spam_gas_prices env s = (s1, Ok (gp, bp))"
    and fold: "smapM (prepare_payload x env gp bp) tx_requests s1 = (s', Ok payloads)"
    by (auto simp: prepare_spam_def)
  have "prepared s s1 (concat (map payload_txs []))"
    using spam_gas_prices_accounts [OF prices] by (simp add: prepared_refl)
  from smapM_inv [where P = "\<lambda>s' ps. prepared s s' (concat (map payload_txs ps))", OF fold this]
  have "prepared s s' (concat (map payload_txs payloads))"
    using prepare_payload_step by auto
  moreover have "list_all2 payload_of tx_requests payloads"
    using fold by (rule smapM_all2) (rule prepare_payload_shape)
  ultimately show ?thesis using assms(2) by (simp add: prepared_def)
qed

text \<open>
  The gas limit of a transaction is looked up by its calldata alone.  If a
  limit for the calldata is already known, a prepared transaction gets that
  limit: neither a gas limit given in the request nor an estimate for its target
  is used.  Otherwise it gets the limit of the request or the estimate.
\<close>

theorem gas_limit_by_calldata:
  assumes "prepare_tx_request x env tx gas_price blob_gas_price s = (s', Ok (tx', sg))"
  shows "tx_gas tx' = hm_get (sc_gas_limits s') (tx_key x tx) \<and>
    (case hm_get (sc_gas_limits s) (tx_key x tx) of
       Some g \<Rightarrow> tx_gas tx' = Some g
     | None \<Rightarrow> \<exists>g. tx_gas tx' = Some g \<and> gas_limit_of env tx blob_gas_price = Ok g)"
  using assms
  by (rule prepare_tx_request_Ok) (auto simp: hm_contains_def split: option.splits if_splits)

text \<open>
  Synchronising nonces does not depend on the order in which the answers
  arrive: every known account whose query succeeds gets the node's count, every
  other account keeps its nonce, and a failed query is not reported.
\<close>

theorem sync_nonces_any_order:
  assumes "set arrival = set (sync_addresses s)" and "sc_should_sync_nonces s"
  shows "hm_get (sc_nonces (sync_nonces env arrival s)) a =
    (if hm_contains (sc_signer_map s) a \<or> a = sg_address (sc_setcode_signer s)
     then (case re_tx_count env a of Ok n \<Rightarrow> Some n | _ \<Rightarrow> hm_get (sc_nonces s) a)
     else hm_get (sc_nonces s) a)"
  using assms
  by (auto simp: sync_nonces_def sync_nonces_get sync_addresses_def hm_keys_iff hm_contains_def)

text \<open>
  Every period of a spam run has its chunk of requests.  If the product of
  requests per period and periods does not overflow, \<open>get_spam_tx_chunks\<close>
  returns at least one chunk per period, the first \<open>num_periods\<close> of them with
  exactly \<open>txs_per_period\<close> requests, and no chunk is empty or larger.
\<close>

theorem spam_chunks_per_period:
  assumes "get_spam_tx_chunks g w txs_per_period num_periods = Ok cs"
    and "unat txs_per_period * unat num_periods + length (get_spam_steps (g_conf g)) < 2 ^ 64"
  shows "unat num_periods \<le> length cs \<and>
    (\<forall>i < unat num_periods. length (cs ! i) = unat txs_per_period) \<and>
    list_all (\<lambda>c. c \<noteq> [] \<and> length c \<le> unat txs_per_period) cs"
proof -
  from assms(1) obtain w' txs nonces where
    load: "load_txs g w (PlanSpam (txs_per_period * num_periods) (\<lambda>w _. Ok (w, None))) = Ok (w', txs, nonces)"
    and pos: "0 < unat txs_per_period" and cs: "cs = chunks_ne (unat txs_per_period) txs"
    by (auto simp: get_spam_tx_chunks_def chunks_def unat_gt_0 split: if_splits)
  have prod: "unat (txs_per_period * num_periods) = unat txs_per_period * unat num_periods"
    using assms(2) by (simp add: unat_word_ariths)
  with spam_plan_length [OF load] assms(2) have "unat num_periods * unat txs_per_period \<le> length txs"
    by (simp add: mult.commute)
  from chunks_full [OF pos this] show ?thesis
    by (simp add: cs list_all_iff chunk_sizes)
qed

section \<open>Instances\<close>

definition demo_rpc :: rpc_env where
  "demo_rpc = \<lparr>re_gas_price = Ok 100, re_blob_base_fee = Ok 1, re_code_at = (\<lambda>a. Ok []),
     re_estimate_gas = (\<lambda>tx. Ok 50000), re_tx_count = (\<lambda>a. if a = 7 then Ok 12 else Err ''timeout''),
     re_sign = (\<lambda>tx sg. Ok 1)\<rparr>"

definition demo_scenario :: scenario where
  "demo_scenario =
     \<lparr>sc_signer_map = [(7, \<lparr>sg_key = [1], sg_address = 7\<rparr>)], sc_nonces = [(7, 4), (9, 0)],
      sc_chain_id = 1, sc_gas_limits = [], sc_tx_type = Eip1559,
      sc_setcode_signer = \<lparr>sg_key = [2], sg_address = 9\<rparr>, sc_gas_price = None, sc_gas_price_adder = 0,
      sc_last_fetched_gas_price = None, sc_last_fetched_blob_gas_price = None,
      sc_bundle_client = True, sc_bundle_type = BundleL1, sc_rpc_batch_size = 0,
      sc_send_raw_tx_sync = False, sc_num_rpc_batches_sent = 0, sc_should_sync_nonces = True\<rparr>"

definition demo_req :: named_tx_request where
  "demo_req = named_tx_request_new (tx_request_default\<lparr>tx_from := Some 7, tx_gas := Some 21000\<rparr>) None None"

lemma demo_prepare_tx:
  assumes "sc_signer_map s = sc_signer_map demo_scenario" "sc_setcode_signer s = sc_setcode_signer demo_scenario"
    "hm_get (sc_nonces s) 7 = Some n" "hm_get (sc_nonces s) 9 \<noteq> None"
  shows "\<exists>s' st. prepare_and_sign x demo_rpc gp bp demo_req s = (s', Ok st) \<and>
    sc_signer_map s' = sc_signer_map demo_scenario \<and> sc_setcode_signer s' = sc_setcode_signer demo_scenario \<and>
    hm_get (sc_nonces s') 7 = Some (n + 1) \<and> hm_get (sc_nonces s') 9 \<noteq> None \<and>
    sc_bundle_client s' = sc_bundle_client s"
  using assms
  by (auto simp: prepare_and_sign_def prepare_tx_request_def demo_req_def runtime_ok_or_def
      sbind_def slift_def sget_def supdate_def sreturn_def named_tx_request_new_def
      tx_request_default_def update_gas_map_def Let_def gas_limit_of_def estimate_request_def
      build_tx_def demo_rpc_def hm_contains_def demo_scenario_def hm_get_def [where m = "[(7, v)]" for v]
      split: option.splits)

lemma demo_prices:
  "spam_gas_prices demo_rpc demo_scenario
    = (demo_scenario\<lparr>sc_last_fetched_gas_price := Some 100\<rparr>, Ok (100, 0))"
  by (simp add: spam_gas_prices_def fetch_blob_gas_price_def fetch_gas_price_def fetch_with_cache_def
      sbind_def sget_def sreturn_def demo_rpc_def demo_scenario_def adjusted_gas_price_def)

lemma demo_prepare_spam:
  "\<exists>s' p q. prepare_spam x demo_rpc [ExTx demo_req, ExBundle [demo_req]] demo_scenario = (s', Ok [p, q])"
proof -
  let ?s = "demo_scenario\<lparr>sc_last_fetched_gas_price := Some 100\<rparr>"
  have "hm_get (sc_nonces ?s) 7 = Some 4" "hm_get (sc_nonces ?s) 9 \<noteq> None"
    by (simp_all add: demo_scenario_def hm_get_def)
  from demo_prepare_tx [OF _ _ this, of x 100 0] obtain s1 st where
    1: "prepare_and_sign x demo_rpc 100 0 demo_req ?s = (s1, Ok st)"
      "sc_signer_map s1 = sc_signer_map demo_scenario" "sc_setcode_signer s1 = sc_setcode_signer demo_scenario"
      "hm_get (sc_nonces s1) 7 = Some (4 + 1)" "hm_get (sc_nonces s1) 9 \<noteq> None"
    and client: "sc_bundle_client s1" by (auto simp: demo_scenario_def)
  from demo_prepare_tx [OF 1(2-5), of x 100 0] obtain s2 st2 where
    2: "prepare_and_sign x demo_rpc 100 0 demo_req s1 = (s2, Ok st2)" by blast
  show ?thesis
    unfolding prepare_spam_def sbind_def demo_prices using 1(1) 2 client
    by (simp add: sbind_def sget_def sreturn_def)
qed

theorem spam_nonces_consecutive_witness:
  "\<exists>s' p q. prepare_spam demo_ext demo_rpc [ExTx demo_req, ExBundle [demo_req]] demo_scenario = (s', Ok [p, q]) \<and>
     sender_run demo_scenario s' (payload_txs p @ payload_txs q) 7"
proof -
  obtain s' p q where
    r: "prepare_spam demo_ext demo_rpc [ExTx demo_req, ExBundle [demo_req]] demo_scenario = (s', Ok [p, q])"
    using demo_prepare_spam by blast
  have "7 \<noteq> sg_address (sc_setcode_signer demo_scenario)" by (simp add: demo_scenario_def)
  from spam_nonces_consecutive [OF r this] r show ?thesis by auto
qed

theorem gas_limit_by_calldata_witness:
  "\<exists>s' tx' sg. prepare_tx_request demo_ext demo_rpc (ntr_tx demo_req) 100 0
      (demo_scenario\<lparr>sc_gas_limits := [(tx_key demo_ext (ntr_tx demo_req), 60000)]\<rparr>) = (s', Ok (tx', sg)) \<and>
     tx_gas (ntr_tx demo_req) = Some 21000 \<and> tx_gas tx' = Some 60000"
proof -
  let ?s = "demo_scenario\<lparr>sc_gas_limits := [(tx_key demo_ext (ntr_tx demo_req), 60000)]\<rparr>"
  have "hm_get (sc_nonces ?s) 7 = Some 4" "hm_get (sc_nonces ?s) 9 \<noteq> None"
    by (simp_all add: demo_scenario_def hm_get_def)
  from demo_prepare_tx [OF _ _ this, of demo_ext 100 0] obtain s' st where
    "prepare_and_sign demo_ext demo_rpc 100 0 demo_req ?s = (s', Ok st)" by auto
  then obtain tx' sg where
    r: "prepare_tx_request demo_ext demo_rpc (ntr_tx demo_req) 100 0 ?s = (s', Ok (tx', sg))"
    by (auto simp: prepare_and_sign_def)
  from gas_limit_by_calldata [OF r] r show ?thesis
    by (auto simp: hm_get_def demo_req_def named_tx_request_new_def)
qed

theorem sync_nonces_any_order_witness:
  "hm_get (sc_nonces (sync_nonces demo_rpc [9, 7] demo_scenario)) 7 = Some 12 \<and>
   hm_get (sc_nonces (sync_nonces demo_rpc [9, 7] demo_scenario)) 9 = Some 0"
proof -
  have set: "set [9, 7] = set (sync_addresses demo_scenario)" and on: "sc_should_sync_nonces demo_scenario"
    by (auto simp: sync_addresses_def demo_scenario_def hm_keys_def)
  show ?thesis
    unfolding sync_nonces_any_order [OF set on]
    by (simp add: demo_scenario_def demo_rpc_def hm_get_def hm_contains_def)
qed

lemma demo_load_none:
  "load_txs demo_gen () (PlanSpam 4 (\<lambda>w _. Ok (w, None))) =
     Ok ((), [ExTx (named_tx_request_new demo_request None None),
              ExTx (named_tx_request_new demo_request None None),
              ExBundle [named_tx_request_new demo_request None None],
              ExBundle [named_tx_request_new demo_request None None]], [])"
proof -
  have round: "round_up_txs 4 (2 :: u64) = (Ok 4 :: (_, core_error) rresult)"
    and two: "[0..<2] = [0, Suc 0]" by (simp_all add: round_up_txs_def upt_rec)
  show ?thesis
    using demo_steps
    by (simp add: load_txs_def load_plan_def load_spam_def plan_init_def round two
        lookup_tx_placeholders_def demo_call_find demo_call_fields unwrap_or_default_def
        demo_fuzz_map_empty hm_extend_def demo_prepare call_and_await_def spam_call_def del: upt_Suc)
qed

theorem spam_chunks_per_period_witness:
  "\<exists>cs. get_spam_tx_chunks demo_gen () 2 2 = Ok cs \<and> 2 \<le> length cs \<and> length (cs ! 1) = 2"
proof -
  have ok: "\<exists>cs. get_spam_tx_chunks demo_gen () 2 2 = Ok cs"
    using demo_load_none by (simp add: get_spam_tx_chunks_def chunks_def)
  then obtain cs where cs: "get_spam_tx_chunks demo_gen () 2 2 = Ok cs" by blast
  have "unat (2::u64) * unat (2::u64) + length (get_spam_steps (g_conf demo_gen)) < 2 ^ 64"
    unfolding demo_steps(2) by simp
  from spam_chunks_per_period [OF cs this] cs show ?thesis by auto
qed

end
