(* ===== verification/Tx_Callback.thy ===== *)
theory Tx_Callback
  imports Flush_Loop
begin

text \<open>
  \<open>TxActorHandle\<close> of \<open>tx_actor.rs\<close> and \<open>crates/core/src/spammer/tx_callback.rs\<close>:
  the calls a client makes on the actor, and the callbacks the spammer runs after
  each transaction and each batch.  A spawned task is a function on the world
  (the actors behind their handles, and the engine); awaiting its handle turns a
  panic into a join error.
\<close>

section \<open>Calls on the actor's handle\<close>

record cache_tx =
  ct_tx_hash :: tx_hash
  ct_start_timestamp_ms :: u128
  ct_end_timestamp_ms :: "u128 option"
  ct_kind :: "string option"
  ct_error :: "string option"

text \<open>An error of a handler ends \<open>TxActor::run\<close>: every channel of the actor closes.\<close>

definition actor_terminated :: "'d tx_actor \<Rightarrow> 'd tx_actor" where
  "actor_terminated a =
     a\<lparr>receiver_open := False, flush_receiver_open := False, flashblock_receiver_open := False\<rparr>"

definition handle_call ::
  "'d db_insert \<Rightarrow> 'd tx_actor \<Rightarrow> tx_actor_message \<Rightarrow> 'd tx_actor \<times> (reply, callback_error) rresult" where
  "handle_call ins a m =
     (if status a = Running \<and> receiver_open a
      then case handle_message ins a m of
             (a', Ok r) \<Rightarrow> (a', Ok r)
           | (a', _) \<Rightarrow> (actor_terminated a', Err OneshotReceive)
      else (a, Err TxActorSendMessage))"

definition cache_run_tx ::
  "'d db_insert \<Rightarrow> 'd tx_actor \<Rightarrow> cache_tx \<Rightarrow> 'd tx_actor \<times> (reply, callback_error) rresult" where
  "cache_run_tx ins a t = handle_call ins a
     (SentRunTx (ct_tx_hash t) (ct_start_timestamp_ms t) (ct_end_timestamp_ms t)
        (ct_kind t) (ct_error t) True)"

definition handle_dump_cache ::
  "'d db_insert \<Rightarrow> 'd tx_actor \<Rightarrow> u64 \<Rightarrow> 'd tx_actor \<times> (reply, callback_error) rresult" where
  "handle_dump_cache ins a run_id = handle_call ins a (DumpCache run_id True)"

definition done_flushing ::
  "'d db_insert \<Rightarrow> 'd tx_actor \<Rightarrow> 'd tx_actor \<times> (reply, callback_error) rresult" where
  "done_flushing ins a = handle_call ins a (GetCacheLen True)"

definition handle_remove_cached_tx ::
  "'d db_insert \<Rightarrow> 'd tx_actor \<Rightarrow> tx_hash \<Rightarrow> 'd tx_actor \<times> (reply, callback_error) rresult" where
  "handle_remove_cached_tx ins a h = handle_call ins a (RemovedRunTx h True)"

definition clear_cache ::
  "'d db_insert \<Rightarrow> 'd tx_actor \<Rightarrow> 'd tx_actor \<times> (reply, callback_error) rresult" where
  "clear_cache ins a = handle_call ins a (ClearCache True)"

definition init_ctx ::
  "'d db_insert \<Rightarrow> 'd tx_actor \<Rightarrow> actor_context \<Rightarrow> 'd tx_actor \<times> (reply, callback_error) rresult" where
  "init_ctx ins a c = handle_call ins a (InitCtx c)"

section \<open>Callbacks\<close>

record runtime_tx_info =
  ri_start_timestamp_ms :: u128
  ri_end_timestamp_ms :: "u128 option"
  ri_kind :: "string option"
  ri_error :: "string option"

definition runtime_tx_info_now :: "u128 \<Rightarrow> runtime_tx_info" where
  "runtime_tx_info_now ts =
     \<lparr>ri_start_timestamp_ms = ts, ri_end_timestamp_ms = None, ri_kind = None, ri_error = None\<rparr>"

definition info_with_kind :: "runtime_tx_info \<Rightarrow> string \<Rightarrow> runtime_tx_info" where
  "info_with_kind i k = i\<lparr>ri_kind := Some k\<rparr>"

definition info_with_error :: "runtime_tx_info \<Rightarrow> string \<Rightarrow> runtime_tx_info" where
  "info_with_error i e = i\<lparr>ri_error := Some e\<rparr>"

definition info_with_start_timestamp :: "runtime_tx_info \<Rightarrow> u128 \<Rightarrow> runtime_tx_info" where
  "info_with_start_timestamp i ts = i\<lparr>ri_start_timestamp_ms := ts\<rparr>"

definition info_with_end_timestamp :: "runtime_tx_info \<Rightarrow> u128 \<Rightarrow> runtime_tx_info" where
  "info_with_end_timestamp i ts = i\<lparr>ri_end_timestamp_ms := Some ts\<rparr>"

definition cache_tx_of :: "tx_hash \<Rightarrow> runtime_tx_info \<Rightarrow> cache_tx" where
  "cache_tx_of h i =
     \<lparr>ct_tx_hash = h, ct_start_timestamp_ms = ri_start_timestamp_ms i,
      ct_end_timestamp_ms = ri_end_timestamp_ms i, ct_kind = ri_kind i, ct_error = ri_error i\<rparr>"

text \<open>Handles are numbers; \<open>cw_actors\<close> gives the actor behind each of them.\<close>

record ('d, 'w) cb_world =
  cw_actors :: "nat \<Rightarrow> 'd tx_actor"
  cw_engine :: 'w

type_synonym ('d, 'w) task =
  "('d, 'w) cb_world \<Rightarrow> ('d, 'w) cb_world \<times> (unit, callback_error) rresult"

type_synonym tx_handlers = "(string, nat) hmap option"

definition await_task :: "(unit, callback_error) rresult \<Rightarrow> (unit, callback_error) rresult" where
  "await_task r = (case r of Panic \<Rightarrow> Err JoinError | _ \<Rightarrow> r)"

definition world_cache_run_tx ::
  "'d db_insert \<Rightarrow> nat \<Rightarrow> cache_tx \<Rightarrow> ('d, 'w) cb_world \<Rightarrow> ('d, 'w) cb_world" where
  "world_cache_run_tx ins i t w =
     w\<lparr>cw_actors := (cw_actors w)(i := fst (cache_run_tx ins (cw_actors w i) t))\<rparr>"

definition nil_on_tx_sent ::
  "'d db_insert \<Rightarrow> tx_hash \<Rightarrow> runtime_tx_info \<Rightarrow> tx_handlers \<Rightarrow> ('d, 'w) task option" where
  "nil_on_tx_sent ins h extra handlers =
     (if ri_error extra \<noteq> None
      then case handlers of
             Some actors \<Rightarrow>
               Some (\<lambda>w. case hm_get actors ''default'' of
                          Some i \<Rightarrow> (world_cache_run_tx ins i (cache_tx_of h extra) w, Ok ())
                        | None \<Rightarrow> (w, Panic))
           | None \<Rightarrow> None
      else None)"

text \<open>\<open>cancelled\<close> says that \<open>select!\<close> took the cancellation branch.\<close>

definition log_on_tx_sent ::
  "'d db_insert \<Rightarrow> bool \<Rightarrow> tx_hash \<Rightarrow> runtime_tx_info \<Rightarrow> tx_handlers \<Rightarrow> ('d, 'w) task option" where
  "log_on_tx_sent ins cancelled h extra handlers =
     Some (\<lambda>w. case handlers of
                None \<Rightarrow> (w, Ok ())
              | Some actors \<Rightarrow>
                  (case hm_get actors ''default'' of
                     Some i \<Rightarrow> (if cancelled then w
                                else world_cache_run_tx ins i (cache_tx_of h extra) w, Ok ())
                   | None \<Rightarrow> (w, Panic)))"

text \<open>\<open>advance_chain\<close> is the engine's \<open>ControlChain::advance_chain(DEFAULT_BLOCK_TIME)\<close>.\<close>

definition log_on_batch_sent ::
  "bool \<Rightarrow> ('w \<Rightarrow> 'w \<times> (unit, string) rresult) option \<Rightarrow> ('d, 'w) task option" where
  "log_on_batch_sent send_fcu auth_provider =
     (if \<not> send_fcu then None
      else case auth_provider of
             Some advance_chain \<Rightarrow>
               Some (\<lambda>w. case advance_chain (cw_engine w) of
                          (e, r) \<Rightarrow> (w\<lparr>cw_engine := e\<rparr>, rmap_err AuthProviderError r))
           | None \<Rightarrow> None)"

definition nil_on_batch_sent :: "('d, 'w) task option" where
  "nil_on_batch_sent = None"

fun join_callback_handles ::
  "('d, 'w) task option \<Rightarrow> ('d, 'w) task option \<Rightarrow> ('d, 'w) task option" where
  "join_callback_handles None None = None"
| "join_callback_handles (Some h) None = Some h"
| "join_callback_handles None (Some h) = Some h"
| "join_callback_handles (Some a) (Some b) =
     Some (\<lambda>w. let (w1, ra) = a w; (w2, rb) = b w1
               in (w2, rbind (await_task ra) (\<lambda>_. await_task rb)))"

text \<open>The two tasks of a pair run concurrently; the base's effects are put first.\<close>

definition combined_on_tx_sent ::
  "(tx_hash \<Rightarrow> runtime_tx_info \<Rightarrow> tx_handlers \<Rightarrow> ('d, 'w) task option)
   \<Rightarrow> (tx_hash \<Rightarrow> runtime_tx_info \<Rightarrow> tx_handlers \<Rightarrow> ('d, 'w) task option)
   \<Rightarrow> tx_hash \<Rightarrow> runtime_tx_info \<Rightarrow> tx_handlers \<Rightarrow> ('d, 'w) task option" where
  "combined_on_tx_sent base custom h extra handlers =
     join_callback_handles (base h extra handlers) (custom h extra handlers)"

definition combined_on_batch_sent ::
  "('d, 'w) task option \<Rightarrow> ('d, 'w) task option \<Rightarrow> ('d, 'w) task option" where
  "combined_on_batch_sent base custom = join_callback_handles base custom"

section \<open>Lemmas\<close>

definition run_handle :: "('d, 'w) task option \<Rightarrow> ('d, 'w) task" where
  "run_handle h w = (case h of None \<Rightarrow> (w, Ok ()) | Some t \<Rightarrow> apsnd await_task (t w))"

lemma await_task_idem [simp]: "await_task (await_task r) = await_task r"
  by (cases r) (simp_all add: await_task_def)

lemma await_task_Ok [simp]: "await_task (Ok u) = Ok u"
  by (simp add: await_task_def)

lemma await_bind [simp]:
  "await_task (rbind (await_task r) (\<lambda>_. await_task s)) = rbind (await_task r) (\<lambda>_. await_task s)"
  by (cases r; cases s) (simp_all add: await_task_def)

lemma run_join_handles:
  "run_handle (join_callback_handles a b) w =
     (case run_handle a w of (w1, ra) \<Rightarrow>
        case run_handle b w1 of (w2, rb) \<Rightarrow> (w2, rbind ra (\<lambda>_. rb)))"
proof (cases a; cases b)
  fix x y assume "a = Some x" and "b = Some y"
  then show ?thesis by (simp add: run_handle_def split: prod.splits)
next
  fix x assume "a = Some x" and "b = None"
  then show ?thesis by (simp add: run_handle_def split: prod.splits)
qed (simp_all add: run_handle_def split: prod.splits)

lemma cache_run_tx_running:
  assumes "status a = Running" and "receiver_open a"
  shows "cache_run_tx ins a t = (sent_run_tx a (ct_tx_hash t) (ct_start_timestamp_ms t)
    (ct_end_timestamp_ms t) (ct_kind t) (ct_error t), Ok ReplyUnit)"
  using assms by (simp add: cache_run_tx_def handle_call_def oneshot_send_def)

lemma handle_call_inv:
  assumes "actor_inv a" and "handle_call ins a m = (a', r)"
  shows "actor_inv a'"
proof (cases "status a = Running \<and> receiver_open a")
  case True
  obtain b s where m: "handle_message ins a m = (b, s)" by fastforce
  with assms(1) have "actor_inv b" by (rule handle_message_inv)
  then have "actor_inv (actor_terminated b)" by (simp add: actor_inv_def actor_terminated_def)
  with assms(2) True m \<open>actor_inv b\<close> show ?thesis
    by (auto simp: handle_call_def split: rresult.splits)
next
  case False
  with assms show ?thesis by (simp add: handle_call_def)
qed

section \<open>Properties\<close>

text \<open>
  A custom callback wrapped around \<open>LogCallback\<close> keeps the database
  bookkeeping: when \<open>CombinedCallback\<close> handles a sent transaction and the log
  callback is not cancelled, awaiting the joined handle leaves the transaction
  in the default actor's cache with the timestamps, kind and error it was sent
  with, whatever the custom callback returns or does outside that actor.
\<close>

theorem combined_callback_caches:
  assumes "hm_get actors ''default'' = Some i"
    and "status (cw_actors w i) = Running" and "receiver_open (cw_actors w i)"
    and "\<forall>v. cw_actors (fst (run_handle (custom h extra (Some actors)) v)) i = cw_actors v i"
  shows "\<exists>t. hm_get (cache (cw_actors (fst (run_handle
            (combined_on_tx_sent (log_on_tx_sent ins False) custom h extra (Some actors)) w)) i)) h
          = Some t \<and> ptx_start_timestamp_ms t = ri_start_timestamp_ms extra \<and>
        ptx_end_timestamp_ms t = ri_end_timestamp_ms extra \<and>
        ptx_kind t = ri_kind extra \<and> ptx_error t = ri_error extra"
proof -
  let ?w1 = "world_cache_run_tx ins i (cache_tx_of h extra) w"
  have log: "run_handle (log_on_tx_sent ins False h extra (Some actors)) w = (?w1, Ok ())"
    using assms(1) by (simp add: run_handle_def log_on_tx_sent_def)
  then have "fst (run_handle (combined_on_tx_sent (log_on_tx_sent ins False) custom h extra
      (Some actors)) w) = fst (run_handle (custom h extra (Some actors)) ?w1)"
    by (simp add: combined_on_tx_sent_def run_join_handles split: prod.splits)
  moreover have "cw_actors ?w1 i = sent_run_tx (cw_actors w i) h (ri_start_timestamp_ms extra)
      (ri_end_timestamp_ms extra) (ri_kind extra) (ri_error extra)"
    using assms(2,3) by (simp add: world_cache_run_tx_def cache_run_tx_running cache_tx_of_def)
  ultimately show ?thesis
    using assms(4) by (simp add: sent_run_tx_def Let_def split: option.splits prod.splits)
qed

definition demo_world :: "(unit, unit) cb_world" where
  "demo_world = \<lparr>cw_actors = (\<lambda>_. tx_actor_new ()), cw_engine = ()\<rparr>"

theorem combined_callback_caches_witness:
  "\<exists>t. hm_get (cache (cw_actors (fst (run_handle
        (combined_on_tx_sent (log_on_tx_sent (\<lambda>d r ts. Ok d) False)
           (\<lambda>_ _ _. Some (\<lambda>w. (w, Err StopError))) 7 (runtime_tx_info_now 5)
           (Some [(''default'', 0)])) demo_world)) 0)) 7 = Some t \<and>
      ptx_start_timestamp_ms t = 5 \<and> ptx_end_timestamp_ms t = None \<and>
      ptx_kind t = None \<and> ptx_error t = None"
  using combined_callback_caches [of "[(''default'', 0)]" 0 demo_world
      "\<lambda>_ _ _. Some (\<lambda>w. (w, Err StopError))" 7 "runtime_tx_info_now 5" "\<lambda>d r ts. Ok d"]
  by (simp add: demo_world_def hm_get_def tx_actor_new_def run_handle_def runtime_tx_info_now_def)

text \<open>
  A caller that gives up takes the actor down with it: when the reply channel
  of a \<open>SentRunTx\<close> message is gone by the time the actor handles it (which is
  what happens when the log callback is cancelled while it waits), the
  transaction is cached but the handler fails, so the main loop ends; every
  later call is refused and changes nothing, and the cache can no longer be
  dumped.
\<close>

theorem dropped_reply_ends_actor:
  assumes "status a = Running" and "receiver_open a"
  shows "let a' = fst (handle_call ins a (SentRunTx h start end_ts kind error False))
         in hm_get (cache a') h \<noteq> None \<and>
            snd (handle_call ins a (SentRunTx h start end_ts kind error False)) = Err OneshotReceive \<and>
            handle_call ins a' m = (a', Err TxActorSendMessage)"
  using assms
  by (simp add: handle_call_def oneshot_send_def actor_terminated_def sent_run_tx_def Let_def
      split: option.splits prod.splits)

theorem dropped_reply_ends_actor_witness:
  "let a' = fst (handle_call (\<lambda>d r ts. Ok d) (tx_actor_new ()) (SentRunTx 7 5 None None None False))
   in hm_get (cache a') 7 \<noteq> None \<and>
      snd (handle_call (\<lambda>d r ts. Ok d) (tx_actor_new ()) (SentRunTx 7 5 None None None False))
        = Err OneshotReceive \<and>
      handle_call (\<lambda>d r ts. Ok d) a' (DumpCache 1 True) = (a', Err TxActorSendMessage)"
  by (rule dropped_reply_ends_actor) (simp_all add: tx_actor_new_def)

end
