(* ===== verification/Spam_Batch.thy ===== *)
theory Spam_Batch
  imports Scenario_Prepare Tx_Callback "HOL-Library.Option_ord" "HOL-Library.Signed_Division"
    "HOL-Library.Multiset"
begin

text \<open>
  The second half of \<open>crates/core/src/test_scenario.rs\<close>: sending a batch of
  payloads (\<open>execute_spam\<close>, \<open>handle_tx_outcome\<close>), collecting its results
  (\<open>collect_pending_batch\<close>) and the loop over the triggers (\<open>execute_spammer\<close>).

  A spawned task is represented by what it delivers: the messages it sends on
  the gas, nonce and success channels, the callbacks it starts, and an error on
  the error channel.  The answers of the network to the tasks of one batch are
  the record \<open>send_env\<close>; \<open>wait_event\<close>s say which branch of \<open>select!\<close> is taken
  while the tasks are awaited.
\<close>

section \<open>The outcome of one transaction\<close>

record outcome =
  oc_gas :: "u128 list"
  oc_shift :: "(address \<times> i32) list"
  oc_success :: nat
  oc_sent :: "(tx_hash \<times> named_tx_request \<times> runtime_tx_info) list"

definition outcome_none :: outcome where
  "outcome_none = \<lparr>oc_gas = [], oc_shift = [], oc_success = 0, oc_sent = []\<rparr>"

definition outcome_join :: "outcome \<Rightarrow> outcome \<Rightarrow> outcome" where
  "outcome_join p q =
     \<lparr>oc_gas = oc_gas p @ oc_gas q, oc_shift = oc_shift p @ oc_shift q,
      oc_success = oc_success p + oc_success q, oc_sent = oc_sent p @ oc_sent q\<rparr>"

definition outcomes :: "outcome list \<Rightarrow> outcome" where
  "outcomes os = foldr outcome_join os outcome_none"

definition gas_bump :: "named_tx_request \<Rightarrow> u128" where
  "gas_bump req =
     (case tx_max_fee_per_gas (ntr_tx req) of
        Some f \<Rightarrow> f
      | None \<Rightarrow> (case tx_gas_price (ntr_tx req) of Some p \<Rightarrow> p | None \<Rightarrow> 1000000000)) div 10"

definition shift_of :: "named_tx_request \<Rightarrow> i32 \<Rightarrow> (address \<times> i32) list" where
  "shift_of req k = (case tx_from (ntr_tx req) of Some a \<Rightarrow> [(a, k)] | None \<Rightarrow> [])"

definition handle_tx_outcome ::
  "tx_hash \<Rightarrow> named_tx_request \<Rightarrow> runtime_tx_info \<Rightarrow> string option \<Rightarrow> outcome" where
  "handle_tx_outcome h req extra error_msg =
     (case error_msg of
        Some msg \<Rightarrow>
          let message = to_lowercase msg;
              underpriced = str_contains message ''replacement transaction underpriced'';
              too_low = str_contains message ''nonce too low'';
              too_high = str_contains message ''nonce too high''
          in \<lparr>oc_gas = (if underpriced then [gas_bump req] else []),
              oc_shift = (if underpriced then []
                          else if too_low then shift_of req 1
                          else if too_high then shift_of req (- 1) else []),
              oc_success = 0, oc_sent = [(h, req, info_with_error extra msg)]\<rparr>
      | None \<Rightarrow> \<lparr>oc_gas = [], oc_shift = [], oc_success = 1, oc_sent = [(h, req, extra)]\<rparr>)"

section \<open>Sending a batch\<close>

datatype spam_trigger = TriggerNil | TriggerBlockNumber u64 | TriggerTick u64 | TriggerBlockHash tx_hash

text \<open>
  The answer to \<open>eth_sendRawTransactionSync\<close>: cancelled, a failed request, a body that is
  not JSON, or a body with or without an error message.
\<close>

datatype sync_answer =
    SyncCancelled
  | SyncHttpError string
  | SyncParseError string
  | SyncBody "string option"

datatype batch_answer = BatchSendFailed | BatchParseFailed | BatchBody "string option list"

record send_env =
  se_start_ms :: "tx_hash \<Rightarrow> u128"
  se_end_ms :: "tx_hash \<Rightarrow> u128"
  se_sync :: "tx_hash \<Rightarrow> sync_answer"
  se_envelope :: "tx_hash \<Rightarrow> (unit, string option) rresult \<times> (unit, string option) rresult"
  se_block_num :: "spam_trigger \<Rightarrow> u64 option"
  se_bundle :: "bundle_type \<Rightarrow> signed_tx list \<Rightarrow> u64 \<Rightarrow> (unit, core_error) rresult"
  se_batch :: "tx_hash list \<Rightarrow> batch_answer"

datatype spam_task = SpamDone outcome "core_error option" | SpamPanicked

definition sync_error_msg :: "sync_answer \<Rightarrow> string option option" where
  "sync_error_msg r =
     (case r of
        SyncCancelled \<Rightarrow> None
      | SyncHttpError e \<Rightarrow> Some (Some (''sendRawTransactionSync HTTP error: '' @ e))
      | SyncParseError e \<Rightarrow> Some (Some (''failed to parse sendRawTransactionSync response: '' @ e))
      | SyncBody m \<Rightarrow> Some m)"

definition send_sync :: "send_env \<Rightarrow> signed_tx \<Rightarrow> named_tx_request \<Rightarrow> spam_task" where
  "send_sync env st req =
     (let h = st_hash st;
          extra = info_with_end_timestamp (runtime_tx_info_now (se_start_ms env h)) (se_end_ms env h)
      in case sync_error_msg (se_sync env h) of
           None \<Rightarrow> SpamDone outcome_none None
         | Some m \<Rightarrow> SpamDone (handle_tx_outcome h req extra m) None)"

definition send_single :: "send_env \<Rightarrow> signed_tx \<Rightarrow> named_tx_request \<Rightarrow> spam_task" where
  "send_single env st req =
     (let h = st_hash st; extra = runtime_tx_info_now (se_start_ms env h)
      in case retry_once (fst (se_envelope env h)) (snd (se_envelope env h)) of
           Ok _ \<Rightarrow> SpamDone (handle_tx_outcome h req extra None) None
         | Err e \<Rightarrow>
             SpamDone (handle_tx_outcome h req extra
               (Some (case e of Some m \<Rightarrow> m | None \<Rightarrow> ''send_tx_envelope failed''))) None
         | Panic \<Rightarrow> SpamPanicked)"

definition bundle_block_num :: "send_env \<Rightarrow> spam_trigger \<Rightarrow> u64 option" where
  "bundle_block_num env trigger =
     (case trigger of TriggerBlockNumber n \<Rightarrow> Some n | _ \<Rightarrow> se_block_num env trigger)"

definition send_bundle ::
  "send_env \<Rightarrow> bundle_type \<Rightarrow> bool \<Rightarrow> spam_trigger \<Rightarrow> signed_tx list \<Rightarrow> named_tx_request list \<Rightarrow> spam_task" where
  "send_bundle env ty has_client trigger sts reqs =
     (case bundle_block_num env trigger of
        None \<Rightarrow> SpamPanicked
      | Some n \<Rightarrow>
          if \<not> has_client then SpamPanicked
          else
            let sent = map (\<lambda>(st, req). (st_hash st, req, runtime_tx_info_now (se_start_ms env (st_hash st))))
                         (zip sts reqs)
            in case se_bundle env ty sts (n + 1) of
                 Ok _ \<Rightarrow> SpamDone \<lparr>oc_gas = [], oc_shift = [], oc_success = 1, oc_sent = sent\<rparr> None
               | Err e \<Rightarrow> SpamDone \<lparr>oc_gas = [], oc_shift = [], oc_success = 0, oc_sent = sent\<rparr> (Some e)
               | Panic \<Rightarrow> SpamPanicked)"

fun send_payload :: "send_env \<Rightarrow> scenario \<Rightarrow> spam_trigger \<Rightarrow> execution_payload \<Rightarrow> spam_task" where
  "send_payload env s trigger (SignedTx st req) =
     (if sc_send_raw_tx_sync s then send_sync env st req else send_single env st req)"
| "send_payload env s trigger (SignedTxBundle sts reqs) =
     send_bundle env (sc_bundle_type s) (sc_bundle_client s) trigger sts reqs"

fun chunk_txs :: "execution_payload list \<Rightarrow> (signed_tx \<times> named_tx_request) list" where
  "chunk_txs [] = []"
| "chunk_txs (SignedTx st req # ps) = (st, req) # chunk_txs ps"
| "chunk_txs (SignedTxBundle sts reqs # ps) = chunk_txs ps"

text \<open>All transactions of a batched request share the start time of the first.\<close>

definition send_batch :: "send_env \<Rightarrow> execution_payload list \<Rightarrow> spam_task" where
  "send_batch env chunk =
     (let txs = chunk_txs chunk; hashes = map (st_hash \<circ> fst) txs;
          extra = runtime_tx_info_now (se_start_ms env (case hashes of h # _ \<Rightarrow> h | [] \<Rightarrow> 0))
      in case se_batch env hashes of
           BatchBody responses \<Rightarrow>
             SpamDone (outcomes (map (\<lambda>(i, st, req).
               handle_tx_outcome (st_hash st) req extra
                 (if i < length responses then responses ! i else None)) (List.enumerate 0 txs))) None
         | _ \<Rightarrow> SpamDone outcome_none None)"

fun payload_nonce :: "execution_payload \<Rightarrow> (u64 option, core_error) rresult" where
  "payload_nonce (SignedTx st req) = Ok (tx_nonce (ntr_tx req))"
| "payload_nonce (SignedTxBundle sts []) = Panic"
| "payload_nonce (SignedTxBundle sts (r # rs)) = Ok (tx_nonce (ntr_tx r))"

text \<open>The comparison is only called if there are two payloads; it panics on an empty bundle.\<close>

definition sort_payloads :: "execution_payload list \<Rightarrow> (execution_payload list, core_error) rresult" where
  "sort_payloads ps =
     (if length ps < 2 then Ok ps
      else rbind (rmapM payload_nonce ps) (\<lambda>ns. Ok (map snd (sort_key fst (zip ns ps)))))"

fun is_signed_tx :: "execution_payload \<Rightarrow> bool" where
  "is_signed_tx (SignedTx st req) = True"
| "is_signed_tx (SignedTxBundle sts reqs) = False"

definition should_batch_rpc :: "scenario \<Rightarrow> execution_payload list \<Rightarrow> bool" where
  "should_batch_rpc s ps \<longleftrightarrow>
     0 < sc_rpc_batch_size s \<and> \<not> sc_send_raw_tx_sync s \<and> list_all is_signed_tx ps"

definition count_sent :: "nat \<Rightarrow> scenario \<Rightarrow> scenario" where
  "count_sent n s = s\<lparr>sc_num_rpc_batches_sent := sc_num_rpc_batches_sent s + word_of_nat n\<rparr>"

definition execute_spam ::
  "send_env \<Rightarrow> spam_trigger \<Rightarrow> execution_payload list \<Rightarrow> spam_task list sc_action" where
  "execute_spam env trigger payloads =
     sbind (slift (sort_payloads payloads)) (\<lambda>ps.
     sbind (sget (\<lambda>s. s)) (\<lambda>s.
     if \<not> should_batch_rpc s ps
     then sbind (supdate (count_sent (length ps))) (\<lambda>_. sreturn (map (send_payload env s trigger) ps))
     else sbind (slift (chunks (unat (sc_rpc_batch_size s)) ps)) (\<lambda>cs.
          sbind (supdate (count_sent (length cs))) (\<lambda>_. sreturn (map (send_batch env) cs)))))"

section \<open>Collecting a batch\<close>

text \<open>
  The channels of a batch are bounded: a success and a gas message for each payload, a nonce message
  for each request of the first chunk.  Nothing is received from them before the tasks of the batch were awaited.
\<close>

record channel_caps =
  cap_success :: nat
  cap_gas :: nat
  cap_shift :: nat

definition batch_channels :: "execution_request list list \<Rightarrow> execution_payload list \<Rightarrow> channel_caps" where
  "batch_channels tx_req_chunks payloads =
     \<lparr>cap_success = length payloads, cap_gas = length payloads, cap_shift = length (hd tx_req_chunks)\<rparr>"

text \<open>Sending on a bounded channel that nobody reads; \<open>None\<close> once a sender has to wait for a free slot.\<close>

definition channel_send :: "nat \<Rightarrow> 'a \<Rightarrow> 'a list option \<Rightarrow> 'a list option" where
  "channel_send cap m q =
     (case q of None \<Rightarrow> None | Some ms \<Rightarrow> if length ms < cap then Some (ms @ [m]) else None)"

definition channel_sends :: "nat \<Rightarrow> 'a list \<Rightarrow> 'a list option" where
  "channel_sends cap ms = fold (channel_send cap) ms (Some [])"

record pending_batch =
  pb_tasks :: "spam_task list"
  pb_messages :: outcome
  pb_errors :: "core_error list"
  pb_channels :: channel_caps
  pb_num_payloads :: nat
  pb_tick :: nat

definition task_messages :: "spam_task \<Rightarrow> outcome" where
  "task_messages t = (case t of SpamDone m _ \<Rightarrow> m | SpamPanicked \<Rightarrow> outcome_none)"

definition task_errors :: "spam_task \<Rightarrow> core_error list" where
  "task_errors t = (case t of SpamDone _ (Some e) \<Rightarrow> [e] | _ \<Rightarrow> [])"

text \<open>The messages of a batch in the order of its tasks.\<close>

definition pending_of :: "channel_caps \<Rightarrow> spam_task list \<Rightarrow> nat \<Rightarrow> nat \<Rightarrow> pending_batch" where
  "pending_of caps tasks n tick =
     \<lparr>pb_tasks = tasks, pb_messages = outcomes (map task_messages tasks),
      pb_errors = concat (map task_errors tasks), pb_channels = caps, pb_num_payloads = n, pb_tick = tick\<rparr>"

datatype wait_event = WaitJoined | WaitError | WaitCancelled outcome

text \<open>
  Awaiting the tasks one by one; \<open>num_tasks\<close> counts the ones that did not panic.  An error
  branch without an error in the channel is not ready, so the task is joined.  Once all tasks
  are joined all their messages are in the channels; a cancelled wait comes with the messages
  that are there at that moment.
\<close>

fun wait_tasks ::
  "wait_event list \<Rightarrow> spam_task list \<Rightarrow> core_error list \<Rightarrow> nat
    \<Rightarrow> (nat \<times> outcome option, core_error) rresult" where
  "wait_tasks evs [] errors n = Ok (n, None)"
| "wait_tasks (WaitCancelled m # evs) (t # ts) errors n = Ok (n, Some m)"
| "wait_tasks (WaitError # evs) (t # ts) (e # errors) n = Err e"
| "wait_tasks evs (t # ts) errors n = wait_tasks (tl evs) ts errors (if t = SpamPanicked then n - 1 else n)"

definition add_to_gas_price :: "i128 \<Rightarrow> scenario \<Rightarrow> scenario" where
  "add_to_gas_price amount s = s\<lparr>sc_gas_price_adder := sc_gas_price_adder s + amount\<rparr>"

definition bump_gas :: "i128 \<Rightarrow> u128 \<Rightarrow> scenario \<Rightarrow> scenario" where
  "bump_gas starting gas s =
     (if gas + starting \<le>s sc_gas_price_adder s then s else add_to_gas_price gas s)"

definition collect_gas :: "u128 list \<Rightarrow> scenario \<Rightarrow> scenario" where
  "collect_gas gs s = fold (bump_gas (sc_gas_price_adder s)) gs s"

definition nonce_adjustments :: "(address \<times> i32) list \<Rightarrow> (address, i32) hmap" where
  "nonce_adjustments shifts =
     fold (\<lambda>(a, k) m. hm_insert a ((case hm_get m a of Some t \<Rightarrow> t | None \<Rightarrow> 0) + k) m) shifts hm_empty"

definition shifted_nonce :: "u64 \<Rightarrow> i32 \<Rightarrow> u64" where
  "shifted_nonce current shift =
     (if shift <s 0 then saturating_sub current (ucast (- shift))
      else saturating_add current (ucast shift))"

definition shift_nonce :: "address \<Rightarrow> i32 \<Rightarrow> (address, u64) hmap \<Rightarrow> (address, u64) hmap" where
  "shift_nonce a shift m =
     hm_insert a (shifted_nonce (case hm_get m a of Some n \<Rightarrow> n | None \<Rightarrow> 0) shift) m"

definition collect_shifts :: "(address \<times> i32) list \<Rightarrow> scenario \<Rightarrow> scenario" where
  "collect_shifts shifts s =
     s\<lparr>sc_nonces := fold (\<lambda>(a, t). shift_nonce a t) (nonce_adjustments shifts) (sc_nonces s)\<rparr>"

definition collect_success :: "nat \<Rightarrow> nat \<Rightarrow> scenario \<Rightarrow> scenario" where
  "collect_success success_count num_payloads s =
     (if success_count = num_payloads \<and> 0 <s sc_gas_price_adder s
      then add_to_gas_price (word_of_int (sint (sc_gas_price_adder s) sdiv (- 10))) s else s)"

definition apply_messages :: "pending_batch \<Rightarrow> scenario \<Rightarrow> scenario" where
  "apply_messages b s =
     collect_success (oc_success (pb_messages b)) (pb_num_payloads b)
       (collect_shifts (oc_shift (pb_messages b)) (collect_gas (oc_gas (pb_messages b)) s))"

definition await_batch_callback :: "Generator.task option \<Rightarrow> (unit, core_error) rresult" where
  "await_batch_callback on_batch_sent = (case on_batch_sent of None \<Rightarrow> Ok () | Some t \<Rightarrow> await t)"

definition arrived_batch :: "pending_batch \<Rightarrow> outcome option \<Rightarrow> pending_batch" where
  "arrived_batch b arrived = (case arrived of None \<Rightarrow> b | Some m \<Rightarrow> b\<lparr>pb_messages := m\<rparr>)"

definition collect_pending_batch ::
  "wait_event list \<Rightarrow> Generator.task option \<Rightarrow> pending_batch \<Rightarrow> unit sc_action" where
  "collect_pending_batch evs on_batch_sent b =
     sbind (slift (wait_tasks evs (pb_tasks b) (pb_errors b) (length (pb_tasks b)))) (\<lambda>(num_tasks, arrived).
     sbind (slift (await_batch_callback on_batch_sent)) (\<lambda>_.
     supdate (apply_messages (arrived_batch b arrived))))"

section \<open>The loop over the triggers\<close>

text \<open>
  What the environment does for one trigger: the trigger, the answers of the node while its batch
  is prepared and sent, and what happens while that batch is collected, whenever that is: the
  loop collects each batch once, when the next trigger fires or after the last, and
  \<open>te_wait\<close> and \<open>te_batch_callback\<close> are the events of that one collection.
\<close>

record tick_env =
  te_trigger :: spam_trigger
  te_rpc :: rpc_env
  te_send :: send_env
  te_wait :: "wait_event list"
  te_batch_callback :: "Generator.task option"

definition collect_with :: "(tick_env \<times> pending_batch) option \<Rightarrow> unit sc_action" where
  "collect_with pending =
     (case pending of
        None \<Rightarrow> sreturn ()
      | Some (env, b) \<Rightarrow> collect_pending_batch (te_wait env) (te_batch_callback env) b)"

definition send_tick ::
  "ext \<Rightarrow> execution_request list list \<Rightarrow> nat \<Rightarrow> tick_env \<Rightarrow> pending_batch sc_action" where
  "send_tick x tx_req_chunks tick env =
     sbind (slift (index_at tx_req_chunks (tick mod max (length tx_req_chunks) 1))) (\<lambda>chunk.
     sbind (prepare_spam x (te_rpc env) chunk) (\<lambda>payloads.
     if payloads = [] \<or> hd tx_req_chunks = [] then slift Panic
     else sbind (execute_spam (te_send env) (te_trigger env) payloads) (\<lambda>tasks.
          sreturn (pending_of (batch_channels tx_req_chunks payloads) tasks (length payloads) tick))))"

fun spammer_loop ::
  "ext \<Rightarrow> execution_request list list \<Rightarrow> nat \<Rightarrow> (tick_env \<times> pending_batch) option \<Rightarrow> tick_env list
    \<Rightarrow> unit sc_action" where
  "spammer_loop x tx_req_chunks tick pending [] = collect_with pending"
| "spammer_loop x tx_req_chunks tick pending (env # envs) =
     sbind (collect_with pending) (\<lambda>_.
     sbind (send_tick x tx_req_chunks tick env) (\<lambda>b.
     spammer_loop x tx_req_chunks (tick + 1) (Some (env, b)) envs))"

definition execute_spammer ::
  "ext \<Rightarrow> execution_request list list \<Rightarrow> tick_env list \<Rightarrow> unit sc_action" where
  "execute_spammer x tx_req_chunks envs = spammer_loop x tx_req_chunks 0 None envs"

section \<open>Lemmas: nonce corrections\<close>

definition total_shift :: "address \<Rightarrow> (address \<times> i32) list \<Rightarrow> i32" where
  "total_shift a shifts = sum_list (map snd (filter (\<lambda>(b, _). b = a) shifts))"

lemma nonce_adjustments_fold:
  "hm_get (fold (\<lambda>(a, k) m. hm_insert a ((case hm_get m a of Some t \<Rightarrow> t | None \<Rightarrow> 0) + k) m) shifts m) a =
     (if a \<in> fst ` set shifts
      then Some ((case hm_get m a of Some t \<Rightarrow> t | None \<Rightarrow> 0) + total_shift a shifts) else hm_get m a)"
proof (induction shifts arbitrary: m)
  case (Cons p shifts)
  obtain b k where p: "p = (b, k)" by (cases p)
  from Cons [of "hm_insert b ((case hm_get m b of Some t \<Rightarrow> t | None \<Rightarrow> 0) + k) m"] show ?case
    by (auto simp: p total_shift_def ac_simps)
       (metis (mono_tags, lifting) case_prodE filter_False fst_conv image_eqI list.simps(8) sum_list.Nil)
qed (simp add: total_shift_def)

lemma nonce_adjustments_get:
  "hm_get (nonce_adjustments shifts) a =
     (if a \<in> fst ` set shifts then Some (total_shift a shifts) else None)"
  by (simp add: nonce_adjustments_def nonce_adjustments_fold)

lemma nonce_adjustments_wf: "hm_wf (nonce_adjustments shifts)"
proof -
  have "hm_wf m \<Longrightarrow> hm_wf (fold (\<lambda>(a, k) m. hm_insert a ((case hm_get m a of Some t \<Rightarrow> t | None \<Rightarrow> 0) + k) m) shifts m)"
    for m by (induction shifts arbitrary: m) auto
  then show ?thesis by (simp add: nonce_adjustments_def)
qed

lemma fold_shift_nonce:
  assumes "hm_wf adj"
  shows "hm_get (fold (\<lambda>(a, t). shift_nonce a t) adj m) a =
    (case hm_get adj a of
       Some t \<Rightarrow> Some (shifted_nonce (case hm_get m a of Some n \<Rightarrow> n | None \<Rightarrow> 0) t)
     | None \<Rightarrow> hm_get m a)"
  using assms
proof (induction adj arbitrary: m)
  case (Cons p adj)
  obtain b t where p: "p = (b, t)" by (cases p)
  with Cons.prems have wf: "hm_wf adj" and none: "hm_get adj b = None"
    by (auto simp: hm_wf_def hm_get_def map_of_eq_None_iff)
  have "hm_get (p # adj) a = (if a = b then Some t else hm_get adj a)" by (simp add: p hm_get_def)
  with Cons.IH [OF wf, of "shift_nonce b t m"] none show ?case
    by (auto simp: p shift_nonce_def split: option.splits)
qed (simp add: hm_get_def)

definition corrected :: "(address \<times> i32) list \<Rightarrow> address \<Rightarrow> u64 option \<Rightarrow> u64 option" where
  "corrected shifts a n =
     (if a \<in> fst ` set shifts
      then Some (shifted_nonce (case n of Some k \<Rightarrow> k | None \<Rightarrow> 0) (total_shift a shifts)) else n)"

lemma collect_shifts_get:
  "hm_get (sc_nonces (collect_shifts shifts s)) a = corrected shifts a (hm_get (sc_nonces s) a)"
  by (simp add: collect_shifts_def fold_shift_nonce [OF nonce_adjustments_wf] nonce_adjustments_get
      corrected_def split: option.splits)

lemma total_shift_mset: "mset ms = mset ms' \<Longrightarrow> total_shift a ms = total_shift a ms'"
  unfolding total_shift_def sum_mset_sum_list [symmetric] mset_map mset_filter by simp

section \<open>Lemmas: the gas price adder\<close>

text \<open>The accumulated bump as a function on numbers.\<close>

definition bump_total :: "nat list \<Rightarrow> nat" where
  "bump_total gs = fold (\<lambda>g acc. if g \<le> acc then acc else acc + g) gs 0"

lemma bump_fold_bounds:
  fixes acc :: nat
  defines "f \<equiv> \<lambda>g (acc :: nat). if g \<le> acc then acc else acc + g"
  shows "acc \<le> fold f gs acc \<and> fold f gs acc \<le> acc + sum_list gs \<and> (\<forall>g \<in> set gs. g \<le> fold f gs acc)"
proof (induction gs arbitrary: acc)
  case (Cons g gs)
  have "g \<le> f g acc" "acc \<le> f g acc" "f g acc \<le> acc + g" by (simp_all add: f_def)
  with Cons.IH [of "f g acc"] show ?case by (auto intro: order_trans)
qed simp

lemma sint_small:
  fixes w :: "128 word"
  assumes "unat w < 2 ^ 127"
  shows "sint w = int (unat w)"
proof -
  have "int (unat w) < int (2 ^ 127)" using assms by (simp only: of_nat_less_iff)
  then have "int (unat w) < 2 ^ 127" by (simp only: of_nat_power of_nat_numeral)
  moreover have "- (2 ^ 127) \<le> int (unat w)" by (rule order_trans [of _ 0]) simp_all
  ultimately have "signed_take_bit 127 (int (unat w)) = int (unat w)"
    by (intro signed_take_bit_int_eq_self)
  then show ?thesis unfolding sint_uint uint_nat by simp
qed

lemma bump_fold:
  assumes "unat (sc_gas_price_adder s) = unat st + acc"
    and "unat st + acc + sum_list (map unat gs) < 2 ^ 127"
  shows "unat (sc_gas_price_adder (fold (bump_gas st) gs s))
    = unat st + fold (\<lambda>g acc. if g \<le> acc then acc else acc + g) (map unat gs) acc"
  using assms
proof (induction gs arbitrary: s acc)
  case (Cons g gs)
  have small: "unat g + unat st < 2 ^ 127" "unat (sc_gas_price_adder s) < 2 ^ 127"
    using Cons.prems by auto
  then have sum: "unat (g + st) = unat g + unat st" by (simp add: unat_word_ariths)
  have cond: "g + st \<le>s sc_gas_price_adder s \<longleftrightarrow> unat g \<le> acc"
    using small sum Cons.prems(1) by (simp add: word_sle_eq sint_small flip: of_nat_add)
  have new: "unat (sc_gas_price_adder (bump_gas st g s)) = unat st + (if unat g \<le> acc then acc else acc + unat g)"
    using Cons.prems unfolding bump_gas_def cond
    by (simp add: add_to_gas_price_def unat_word_ariths)
  show ?case
    using Cons.IH [OF new] Cons.prems(2) by (simp split: if_splits)
qed simp

lemma collect_gas_total:
  assumes "unat (sc_gas_price_adder s) + sum_list (map unat gs) < 2 ^ 127"
  shows "unat (sc_gas_price_adder (collect_gas gs s))
    = unat (sc_gas_price_adder s) + bump_total (map unat gs)"
  using bump_fold [of s "sc_gas_price_adder s" 0 gs] assms by (simp add: collect_gas_def bump_total_def)

lemma decay:
  fixes a :: i128
  assumes "unat a < 2 ^ 127"
  shows "unat (a + word_of_int (sint a sdiv (- 10))) = unat a - unat a div 10"
proof -
  have "sint a sdiv (- 10) = - int (unat a div 10)"
    by (simp only: sint_small [OF assms]) (simp add: signed_divide_int_def sgn_if zdiv_int)
  then have "a + word_of_int (sint a sdiv (- 10)) = a - word_of_nat (unat a div 10)" by simp
  moreover have "unat (word_of_nat (unat a div 10) :: i128) = unat a div 10"
    using assms by (simp add: unat_of_nat)
  moreover have "(word_of_nat (unat a div 10) :: i128) \<le> a"
    unfolding word_le_nat_alt calculation(2) by simp
  ultimately show ?thesis by (simp add: unat_sub)
qed

lemma collect_shifts_adder [simp]: "sc_gas_price_adder (collect_shifts shifts s) = sc_gas_price_adder s"
  by (simp add: collect_shifts_def)

section \<open>Lemmas: accounting of a batch\<close>

definition fits :: "execution_payload list \<Rightarrow> outcome \<Rightarrow> bool" where
  "fits ps m \<longleftrightarrow>
     length (oc_gas m) + oc_success m \<le> length ps \<and> length (oc_shift m) + oc_success m \<le> length ps \<and>
     mset (map fst (oc_sent m)) \<subseteq># mset (map st_hash (concat (map payload_txs ps)))"

lemma fits_none [simp]: "fits ps outcome_none"
  by (simp add: fits_def outcome_none_def)

lemma fits_join: "fits ps m \<Longrightarrow> fits qs k \<Longrightarrow> fits (ps @ qs) (outcome_join m k)"
  by (auto simp: fits_def outcome_join_def intro: subset_mset.add_mono)

lemma fits_outcomes: "list_all2 fits pss ms \<Longrightarrow> fits (concat pss) (outcomes ms)"
  unfolding outcomes_def by (induction rule: list_all2_induct) (simp_all add: fits_join)

lemma fits_mset: "mset ps = mset qs \<Longrightarrow> fits ps m = fits qs m"
proof -
  assume perm: "mset ps = mset qs"
  have "mset (map st_hash (concat (map payload_txs l))) = (\<Sum>p\<in>#mset l. mset (map st_hash (payload_txs p)))" for l
    by (induction l) simp_all
  with perm show ?thesis unfolding fits_def by (metis size_mset)
qed

lemma fits_handle: "fits [SignedTx st req] (handle_tx_outcome (st_hash st) req' extra e)"
  by (auto simp: fits_def handle_tx_outcome_def Let_def shift_of_def split: option.splits)

lemma send_payload_fits: "fits [p] (task_messages (send_payload env s trigger p))"
proof (cases p)
  case (SignedTx st req)
  then show ?thesis
    by (auto simp: send_sync_def send_single_def task_messages_def Let_def fits_handle
        split: option.splits rresult.splits)
next
  case (SignedTxBundle sts reqs)
  have "mset (map fst (map (\<lambda>(st, req). (st_hash st, req, t st)) (zip sts reqs))) \<subseteq># mset (map st_hash sts)"
    for t :: "signed_tx \<Rightarrow> runtime_tx_info"
  proof (induction sts reqs rule: list_induct2')
    case (4 st sts r reqs)
    then show ?case by simp
  qed simp_all
  with SignedTxBundle show ?thesis
    by (auto simp: send_bundle_def task_messages_def fits_def outcome_none_def Let_def
        multiset.map_comp split: option.splits rresult.splits)
qed

lemma chunk_txs_payloads:
  "list_all is_signed_tx ps \<Longrightarrow> ps = map (\<lambda>(st, req). SignedTx st req) (chunk_txs ps)"
  by (induction ps rule: chunk_txs.induct) auto

lemma send_batch_fits:
  assumes "list_all is_signed_tx ps"
  shows "fits ps (task_messages (send_batch env ps))"
proof -
  let ?txs = "chunk_txs ps"
  have "list_all2 fits (map (\<lambda>(st, req). [SignedTx st req]) ?txs)
      (map (\<lambda>(i, st, req). handle_tx_outcome (st_hash st) req extra (f i)) (List.enumerate k ?txs))"
    for extra k and f :: "nat \<Rightarrow> string option"
    by (rule list_all2_all_nthI) (auto simp: nth_enumerate_eq fits_handle split: prod.splits)
  from fits_outcomes [OF this] have
    "fits (map (\<lambda>(st, req). SignedTx st req) ?txs)
      (outcomes (map (\<lambda>(i, st, req). handle_tx_outcome (st_hash st) req extra (f i)) (List.enumerate k ?txs)))"
    for extra k and f :: "nat \<Rightarrow> string option"
    by (simp add: case_prod_unfold)
  then have ok: "fits ps
      (outcomes (map (\<lambda>(i, st, req). handle_tx_outcome (st_hash st) req extra (f i)) (List.enumerate k ?txs)))"
    for extra k and f :: "nat \<Rightarrow> string option"
    unfolding chunk_txs_payloads [OF assms, symmetric] .
  show ?thesis
    unfolding send_batch_def task_messages_def Let_def by (auto simp: ok split: batch_answer.splits)
qed

lemma sort_payloads_perm: "sort_payloads ps = Ok qs \<Longrightarrow> mset qs = mset ps"
proof -
  assume s: "sort_payloads ps = Ok qs"
  have "mset (map snd (sort_key fst (zip ns ps))) = mset ps" if "length ns = length ps" for ns :: "u64 option list"
    using that by (metis map_snd_zip mset_map mset_sort)
  with s show ?thesis by (auto simp: sort_payloads_def split: if_splits dest!: rmapM_length)
qed

section \<open>Lemmas: the loop\<close>

lemma sbind_assoc: "sbind (sbind m f) g = sbind m (\<lambda>a. sbind (f a) g)"
  by (rule ext) (simp add: sbind_def split: prod.splits rresult.splits)

lemma sbind_return: "sbind m sreturn = m"
  by (rule ext) (simp add: sbind_def sreturn_def split: prod.splits rresult.splits)

text \<open>The reference: one batch after the other, each collected before the next is prepared.\<close>

fun spam_batches ::
  "ext \<Rightarrow> execution_request list list \<Rightarrow> nat \<Rightarrow> tick_env list \<Rightarrow> unit sc_action" where
  "spam_batches x tx_req_chunks tick [] = sreturn ()"
| "spam_batches x tx_req_chunks tick (env # envs) =
     sbind (send_tick x tx_req_chunks tick env) (\<lambda>b.
     sbind (collect_pending_batch (te_wait env) (te_batch_callback env) b) (\<lambda>_.
     spam_batches x tx_req_chunks (tick + 1) envs))"

lemma spammer_loop_eq:
  "spammer_loop x cs tick pending envs
    = sbind (collect_with pending) (\<lambda>_. spam_batches x cs tick envs)"
proof (induction envs arbitrary: tick pending)
  case (Cons env envs)
  then show ?case by (simp add: sbind_assoc) (simp add: collect_with_def)
qed (simp add: sbind_return)

lemma execute_spammer_eq: "execute_spammer x cs envs = spam_batches x cs 0 envs"
  by (rule ext) (simp add: execute_spammer_def spammer_loop_eq collect_with_def sbind_def sreturn_def)

lemma bump_gas_nonces: "sc_nonces (bump_gas st g s) = sc_nonces s \<and> same_accounts s (bump_gas st g s)"
  by (simp add: bump_gas_def add_to_gas_price_def same_accounts_def)

lemma collect_gas_nonces: "sc_nonces (collect_gas gs s) = sc_nonces s \<and> same_accounts s (collect_gas gs s)"
proof -
  have "sc_nonces (fold (bump_gas st) gs s) = sc_nonces s \<and> same_accounts s (fold (bump_gas st) gs s)" for st
    by (induction gs arbitrary: s) (use bump_gas_nonces in \<open>auto simp: same_accounts_def\<close>)
  then show ?thesis by (simp add: collect_gas_def)
qed

lemma apply_messages_nonces:
  "hm_get (sc_nonces (apply_messages b s)) a = corrected (oc_shift (pb_messages b)) a (hm_get (sc_nonces s) a)"
  "same_accounts s (apply_messages b s)"
proof -
  have 1: "sc_nonces (collect_success c n s') = sc_nonces s'" "same_accounts s' (collect_success c n s')" for c n s'
    by (simp_all add: collect_success_def add_to_gas_price_def same_accounts_def)
  have 2: "same_accounts s' (collect_shifts k s')" for k s'
    by (simp add: collect_shifts_def same_accounts_def)
  show "hm_get (sc_nonces (apply_messages b s)) a
      = corrected (oc_shift (pb_messages b)) a (hm_get (sc_nonces s) a)"
    by (simp add: apply_messages_def 1 collect_shifts_get collect_gas_nonces)
  show "same_accounts s (apply_messages b s)"
    using collect_gas_nonces [of "oc_gas (pb_messages b)" s] 1(2) 2
    by (simp add: apply_messages_def same_accounts_def)
qed

text \<open>
  The abstract account of nonces: a map from senders to next nonces.  A batch takes
  the next nonces of its senders and then applies the corrections.
\<close>

type_synonym ledger = "address \<Rightarrow> u64 option"

type_synonym batch = "signed_tx list \<times> (address \<times> i32) list"

definition ledger_of :: "scenario \<Rightarrow> ledger" where
  "ledger_of s = hm_get (sc_nonces s)"

definition ledger_takes :: "ledger \<Rightarrow> signed_tx list \<Rightarrow> address \<Rightarrow> bool" where
  "ledger_takes l sts a \<longleftrightarrow>
     (case l a of None \<Rightarrow> sent_nonces a sts = [] | Some n \<Rightarrow> consecutive n (sent_nonces a sts))"

definition ledger_tick :: "batch \<Rightarrow> ledger \<Rightarrow> ledger" where
  "ledger_tick b l a =
     corrected (snd b) a (map_option (\<lambda>n. n + word_of_nat (length (sent_nonces a (fst b)))) (l a))"

text \<open>
  What a run sends: for each trigger the signed transactions of the payloads prepared for it,
  and the nonce corrections received for them.
\<close>

definition tick_batch ::
  "ext \<Rightarrow> execution_request list list \<Rightarrow> nat \<Rightarrow> tick_env \<Rightarrow> scenario \<Rightarrow> batch" where
  "tick_batch x tx_req_chunks tick env s =
     (case prepare_spam x (te_rpc env) (tx_req_chunks ! (tick mod max (length tx_req_chunks) 1)) s of
        (_, Ok payloads) \<Rightarrow> concat (map payload_txs payloads)
      | _ \<Rightarrow> [],
      case send_tick x tx_req_chunks tick env s of
        (_, Ok b) \<Rightarrow>
          (case wait_tasks (te_wait env) (pb_tasks b) (pb_errors b) (length (pb_tasks b)) of
             Ok (n, arrived) \<Rightarrow> oc_shift (pb_messages (arrived_batch b arrived))
           | _ \<Rightarrow> [])
      | _ \<Rightarrow> [])"

fun spam_history ::
  "ext \<Rightarrow> execution_request list list \<Rightarrow> nat \<Rightarrow> tick_env list \<Rightarrow> scenario \<Rightarrow> batch list" where
  "spam_history x tx_req_chunks tick [] s = []"
| "spam_history x tx_req_chunks tick (env # envs) s =
     tick_batch x tx_req_chunks tick env s #
     (case sbind (send_tick x tx_req_chunks tick env)
             (collect_pending_batch (te_wait env) (te_batch_callback env)) s of
        (s', Ok _) \<Rightarrow> spam_history x tx_req_chunks (tick + 1) envs s'
      | _ \<Rightarrow> [])"

fun ledger_run :: "ledger \<Rightarrow> batch list \<Rightarrow> address \<Rightarrow> bool" where
  "ledger_run l [] a = True"
| "ledger_run l (b # bs) a \<longleftrightarrow> ledger_takes l (fst b) a \<and> ledger_run (ledger_tick b l) bs a"

lemma execute_spam_Ok:
  assumes "execute_spam env trigger ps s = (s', Ok tasks)"
  obtains qs where "sort_payloads ps = Ok qs" "\<not> should_batch_rpc s qs"
      "s' = count_sent (length qs) s" "tasks = map (send_payload env s trigger) qs"
    | qs cs where "sort_payloads ps = Ok qs" "should_batch_rpc s qs"
      "chunks (unat (sc_rpc_batch_size s)) qs = (Ok cs :: (_, core_error) rresult)"
      "s' = count_sent (length cs) s" "tasks = map (send_batch env) cs"
proof -
  obtain qs where qs: "sort_payloads ps = Ok qs"
    using assms by (cases "sort_payloads ps") (simp_all add: execute_spam_def sbind_def slift_def)
  note unfold = execute_spam_def sbind_def slift_def sget_def supdate_def sreturn_def
  show thesis
  proof (cases "should_batch_rpc s qs")
    case True
    with qs assms obtain cs where "chunks (unat (sc_rpc_batch_size s)) qs = (Ok cs :: (_, core_error) rresult)"
      "s' = count_sent (length cs) s" "tasks = map (send_batch env) cs"
      by (cases "chunks (unat (sc_rpc_batch_size s)) qs :: (_, core_error) rresult") (simp_all add: unfold)
    with qs True that(2) show thesis by blast
  next
    case False
    with qs assms that(1) show thesis by (simp add: unfold)
  qed
qed

lemma execute_spam_nonces:
  "execute_spam env trigger ps s = (s', Ok tasks) \<Longrightarrow> sc_nonces s' = sc_nonces s \<and> same_accounts s s'"
  by (erule execute_spam_Ok) (simp_all add: count_sent_def same_accounts_def)

lemma prepare_spam_prepared:
  assumes "prepare_spam x env reqs s = (s', Ok payloads)"
  shows "prepared s s' (concat (map payload_txs payloads))"
proof -
  from assms obtain s1 gp bp where prices: "spam_gas_prices env s = (s1, Ok (gp, bp))"
    and fold: "smapM (prepare_payload x env gp bp) reqs s1 = (s', Ok payloads)"
    by (auto simp: prepare_spam_def)
  have "prepared s s1 (concat (map payload_txs []))"
    using spam_gas_prices_accounts [OF prices] by (simp add: prepared_refl)
  from smapM_inv [where P = "\<lambda>s' ps. prepared s s' (concat (map payload_txs ps))", OF fold this]
  show ?thesis using prepare_payload_step by auto
qed

text \<open>One tick, sent and collected, is one step of the ledger.\<close>

lemma tick_is_ledger_step:
  assumes "send_tick x cs tick env s = (s1, Ok b)"
    and "collect_pending_batch (te_wait env) cb b s1 = (s2, Ok ())"
  shows "same_accounts s s2 \<and> (\<forall>a. a \<noteq> sg_address (sc_setcode_signer s) \<longrightarrow>
    ledger_takes (ledger_of s) (fst (tick_batch x cs tick env s)) a \<and>
    ledger_of s2 a = ledger_tick (tick_batch x cs tick env s) (ledger_of s) a)"
proof -
  from assms(1) obtain payloads s0 tasks where
    prep: "prepare_spam x (te_rpc env) (cs ! (tick mod max (length cs) 1)) s = (s0, Ok payloads)"
    and exec: "execute_spam (te_send env) (te_trigger env) payloads s0 = (s1, Ok tasks)"
    and b: "b = pending_of (batch_channels cs payloads) tasks (length payloads) tick"
    by (auto simp: send_tick_def slift_def index_at_def split: if_splits)
  let ?sts = "concat (map payload_txs payloads)"
  from prepare_spam_prepared [OF prep] have p: "prepared s s0 ?sts" .
  from assms(2) obtain n arrived where
    wait: "wait_tasks (te_wait env) (pb_tasks b) (pb_errors b) (length (pb_tasks b)) = Ok (n, arrived)"
    and s2: "s2 = apply_messages (arrived_batch b arrived) s1"
    by (auto simp: collect_pending_batch_def)
  let ?shifts = "oc_shift (pb_messages (arrived_batch b arrived))"
  have batch: "tick_batch x cs tick env s = (?sts, ?shifts)"
    unfolding tick_batch_def prep by (simp add: assms(1) wait)
  note e = execute_spam_nonces [OF exec]
  have "ledger_takes (ledger_of s) ?sts a \<and> ledger_of s2 a = ledger_tick (?sts, ?shifts) (ledger_of s) a"
    if "a \<noteq> sg_address (sc_setcode_signer s)" for a
  proof -
    from p that have run: "sender_run s s0 ?sts a" by (simp add: prepared_def)
    show ?thesis
    proof (cases "hm_get (sc_nonces s) a")
      case None
      with run e show ?thesis
        by (simp add: sender_run_def ledger_takes_def ledger_of_def ledger_tick_def s2 apply_messages_nonces)
    next
      case (Some n)
      with run e show ?thesis
        by (simp add: sender_run_def ledger_takes_def ledger_of_def ledger_tick_def s2 apply_messages_nonces)
    qed
  qed
  moreover have "same_accounts s s2"
    using p e apply_messages_nonces(2) [of s1] by (simp add: s2 prepared_def same_accounts_def)
  ultimately show ?thesis unfolding batch by simp
qed

lemma ledger_run_cong: "ledger_run l bs a \<Longrightarrow> l a = l' a \<Longrightarrow> ledger_run l' bs a"
proof (induction bs arbitrary: l l')
  case (Cons b bs)
  then have "ledger_tick b l a = ledger_tick b l' a" "ledger_takes l' (fst b) a"
    by (simp_all add: ledger_tick_def ledger_takes_def)
  with Cons.IH [of "ledger_tick b l" "ledger_tick b l'"] Cons.prems(1) show ?case by simp
qed simp

lemma ledger_fold_cong: "l a = l' a \<Longrightarrow> fold ledger_tick bs l a = fold ledger_tick bs l' a"
proof (induction bs arbitrary: l l')
  case (Cons b bs)
  then have "ledger_tick b l a = ledger_tick b l' a" by (simp add: ledger_tick_def)
  with Cons.IH [of "ledger_tick b l" "ledger_tick b l'"] show ?case by simp
qed simp

lemma spam_batches_ledger:
  assumes "spam_batches x cs tick envs s = (s', Ok ())"
  shows "let bs = spam_history x cs tick envs s in length bs = length envs \<and>
    (\<forall>a. a \<noteq> sg_address (sc_setcode_signer s) \<longrightarrow>
      ledger_run (ledger_of s) bs a \<and> ledger_of s' a = fold ledger_tick bs (ledger_of s) a)"
  using assms
proof (induction envs arbitrary: tick s)
  case (Cons env envs)
  then obtain s1 b s2 where 1: "send_tick x cs tick env s = (s1, Ok b)"
    and 2: "collect_pending_batch (te_wait env) (te_batch_callback env) b s1 = (s2, Ok ())"
    and 3: "spam_batches x cs (tick + 1) envs s2 = (s', Ok ())" by auto
  define c where "c = tick_batch x cs tick env s"
  define bs where "bs = spam_history x cs (tick + 1) envs s2"
  have history: "spam_history x cs tick (env # envs) s = c # bs"
    by (simp add: c_def bs_def sbind_def 1 2)
  from tick_is_ledger_step [OF 1 2] have same: "same_accounts s s2"
    and c: "\<And>a. a \<noteq> sg_address (sc_setcode_signer s) \<Longrightarrow>
      ledger_takes (ledger_of s) (fst c) a \<and> ledger_of s2 a = ledger_tick c (ledger_of s) a"
    unfolding c_def by blast+
  from Cons.IH [OF 3] same have len: "length bs = length envs"
    and bs: "\<And>a. a \<noteq> sg_address (sc_setcode_signer s) \<Longrightarrow>
      ledger_run (ledger_of s2) bs a \<and> ledger_of s' a = fold ledger_tick bs (ledger_of s2) a"
    by (auto simp: same_accounts_def bs_def Let_def)
  show ?case unfolding history Let_def
  proof (intro conjI allI impI)
    fix a assume a: "a \<noteq> sg_address (sc_setcode_signer s)"
    show "ledger_run (ledger_of s) (c # bs) a"
      using c [OF a] bs [OF a] ledger_run_cong [of "ledger_of s2" bs a] by simp
    show "ledger_of s' a = fold ledger_tick (c # bs) (ledger_of s) a"
      using c [OF a] bs [OF a] ledger_fold_cong [of "ledger_of s2" a "ledger_tick c (ledger_of s)" bs] by simp
  qed (simp add: len)
qed simp

section \<open>Lemmas: the channels of a batch\<close>

lemma channel_sends_fit: "length ms \<le> cap \<Longrightarrow> channel_sends cap ms = Some ms"
proof (induction ms rule: rev_induct)
  case (snoc m ms)
  then have "fold (channel_send cap) ms (Some []) = Some ms" by (simp add: channel_sends_def)
  with snoc.prems show ?case by (simp add: channel_sends_def channel_send_def)
qed (simp add: channel_sends_def)

lemma send_tick_Ok:
  assumes "send_tick x cs tick env s = (s', Ok b)"
  obtains s1 payloads tasks where
    "prepare_spam x (te_rpc env) (cs ! (tick mod max (length cs) 1)) s = (s1, Ok payloads)"
    and "tick mod max (length cs) 1 < length cs"
    and "execute_spam (te_send env) (te_trigger env) payloads s1 = (s', Ok tasks)"
    and "b = pending_of (batch_channels cs payloads) tasks (length payloads) tick"
proof -
  define i where "i = tick mod max (length cs) 1"
  from assms that show thesis
    unfolding send_tick_def i_def [symmetric] by (auto simp: slift_def index_at_def split: if_splits)
qed

lemma prepare_spam_length: "prepare_spam x env reqs s = (s', Ok payloads) \<Longrightarrow> length payloads = length reqs"
  by (auto simp: prepare_spam_def dest!: smapM_length)

lemma chunk_length_le: "c \<in> set (chunks_ne n xs) \<Longrightarrow> length c \<le> length xs"
proof (induction n xs rule: chunks_ne.induct)
  case (1 n xs)
  then show ?case by (subst (asm) (2) chunks_ne.simps) (auto split: if_splits)
qed

lemma hd_chunks_longest: "c \<in> set (chunks_ne n xs) \<Longrightarrow> length c \<le> length (hd (chunks_ne n xs))"
proof (induction n xs rule: chunks_ne.induct)
  case (1 n xs)
  show ?case
  proof (cases "n = 0 \<or> xs = []")
    case False
    then have eq: "chunks_ne n xs = take n xs # chunks_ne n (drop n xs)" by (simp add: chunks_ne.simps [of n xs])
    have "length d \<le> n \<and> length d \<le> length xs - n" if "d \<in> set (chunks_ne n (drop n xs))" for d
      using chunk_sizes [OF that] chunk_length_le [OF that] by simp
    with 1(2) show ?thesis by (fastforce simp: eq)
  qed (use 1(2) in \<open>auto simp: chunks_ne.simps [of n xs]\<close>)
qed

lemma spam_chunks_first_longest:
  "get_spam_tx_chunks g w txs_per_period num_periods = Ok cs \<Longrightarrow> c \<in> set cs \<Longrightarrow> length c \<le> length (hd cs)"
  by (auto simp: get_spam_tx_chunks_def chunks_def hd_chunks_longest split: if_splits)

lemma execute_spam_fits:
  assumes "execute_spam env trigger payloads s = (s', Ok tasks)"
  shows "fits payloads (outcomes (map task_messages tasks))"
  using assms
proof (cases rule: execute_spam_Ok)
  case (1 qs)
  have "list_all2 fits (map (\<lambda>p. [p]) qs) (map task_messages tasks)"
    by (simp add: 1 list_all2_conv_all_nth send_payload_fits)
  from fits_outcomes [OF this] fits_mset [OF sort_payloads_perm [OF 1(1)]] show ?thesis by simp
next
  case (2 qs cs)
  then have cat: "concat cs = qs" by (auto simp: chunks_def concat_chunks split: if_splits)
  have "list_all is_signed_tx qs" using 2(2) by (simp add: should_batch_rpc_def)
  then have "\<forall>c \<in> set cs. list_all is_signed_tx c" by (auto simp: cat [symmetric] list_all_iff)
  then have "list_all2 fits cs (map task_messages tasks)"
    by (simp add: 2 list_all2_conv_all_nth send_batch_fits)
  from fits_outcomes [OF this] fits_mset [OF sort_payloads_perm [OF 2(1)]] show ?thesis by (simp add: cat)
qed

section \<open>Properties\<close>

text \<open>
  C10. The spam loop refines the nonce ledger.  If a run over the given triggers
  succeeds, it has one batch per trigger, the transactions signed for it with the
  corrections received for them, and for every account other
  than the one signing authorizations: each batch takes exactly the next nonces
  of the account, consecutively and without gap, and after it the account's next
  nonce is the one after the last taken, corrected by the accumulated shifts of
  that batch; the final nonce map is the result of all batches in order.
\<close>

theorem spammer_refines_ledger:
  assumes "execute_spammer x tx_req_chunks envs s = (s', Ok ())"
  shows "let bs = spam_history x tx_req_chunks 0 envs s in length bs = length envs \<and>
    (\<forall>a. a \<noteq> sg_address (sc_setcode_signer s) \<longrightarrow>
      ledger_run (ledger_of s) bs a \<and> ledger_of s' a = fold ledger_tick bs (ledger_of s) a)"
  using assms unfolding execute_spammer_eq by (rule spam_batches_ledger)

text \<open>
  C13. Nonce corrections do not depend on the order in which the tasks of a batch
  deliver them: for any two arrival orders of the same corrections the nonce of
  every account is the same, namely its nonce shifted once, with saturation, by
  the sum of its corrections.
\<close>

theorem nonce_shifts_any_order:
  assumes "mset shifts = mset shifts'"
  shows "hm_get (sc_nonces (collect_shifts shifts s)) a = hm_get (sc_nonces (collect_shifts shifts' s)) a \<and>
    hm_get (sc_nonces (collect_shifts shifts s)) a =
      (if a \<in> fst ` set shifts
       then Some (shifted_nonce (case hm_get (sc_nonces s) a of Some n \<Rightarrow> n | None \<Rightarrow> 0)
                   (sum_list (map snd (filter (\<lambda>(b, _). b = a) shifts))))
       else hm_get (sc_nonces s) a)"
proof -
  have "set shifts = set shifts'" using assms by (rule mset_eq_setD)
  with total_shift_mset [OF assms, of a] show ?thesis
    unfolding collect_shifts_get corrected_def by (simp add: total_shift_def)
qed

theorem nonce_shifts_any_order_witness:
  "hm_get (sc_nonces (collect_shifts [(7, 1), (8, - 1), (7, 1)] demo_scenario)) 7 =
   hm_get (sc_nonces (collect_shifts [(7, 1), (7, 1), (8, - 1)] demo_scenario)) 7"
  using nonce_shifts_any_order [of "[(7, 1), (8, - 1), (7, 1)]" "[(7, 1), (7, 1), (8, - 1)]" demo_scenario 7]
  by (simp add: add_mset_commute)

text \<open>
  C15. The gas price adder moves within bounds.  While it is not negative and the
  requested bumps do not overflow, collecting a batch raises it by at least the
  largest requested bump and at most the sum of all; if no bump was requested
  and all payloads were sent, it loses a tenth, rounded down, so it never
  becomes negative.
\<close>

theorem gas_adder_bounds:
  assumes "unat (sc_gas_price_adder s) + sum_list (map unat (oc_gas (pb_messages b))) < 2 ^ 127"
    and "oc_success (pb_messages b) + length (oc_gas (pb_messages b)) \<le> pb_num_payloads b"
  shows "let a0 = unat (sc_gas_price_adder s); gs = map unat (oc_gas (pb_messages b));
             a1 = unat (sc_gas_price_adder (apply_messages b s))
         in if gs = []
            then a1 = (if oc_success (pb_messages b) = pb_num_payloads b then a0 - a0 div 10 else a0)
            else a0 + Max (set gs) \<le> a1 \<and> a1 \<le> a0 + sum_list gs"
proof -
  let ?gs = "oc_gas (pb_messages b)"
  define s1 where "s1 = collect_shifts (oc_shift (pb_messages b)) (collect_gas ?gs s)"
  have s1: "unat (sc_gas_price_adder s1) = unat (sc_gas_price_adder s) + bump_total (map unat ?gs)"
    using collect_gas_total [OF assms(1)] by (simp add: s1_def)
  have bounds: "bump_total (map unat ?gs) \<le> sum_list (map unat ?gs)"
      "\<forall>g \<in> set (map unat ?gs). g \<le> bump_total (map unat ?gs)"
    using bump_fold_bounds [of 0 "map unat ?gs"] by (simp_all add: bump_total_def)
  have small: "unat (sc_gas_price_adder s1) < 2 ^ 127" using s1 bounds(1) assms(1) by linarith
  have app: "apply_messages b s = collect_success (oc_success (pb_messages b)) (pb_num_payloads b) s1"
    by (simp add: apply_messages_def s1_def)
  show ?thesis
  proof (cases "?gs = []")
    case True
    then have "unat (sc_gas_price_adder s1) = unat (sc_gas_price_adder s)" using s1 by (simp add: bump_total_def)
    moreover have "0 <s sc_gas_price_adder s1 \<longleftrightarrow> unat (sc_gas_price_adder s1) \<noteq> 0"
      unfolding word_sless_alt sint_small [OF small] signed_0
      by (simp only: of_nat_0_less_iff neq0_conv)
    ultimately show ?thesis
      using True decay [OF small]
      by (cases "unat (sc_gas_price_adder s) = 0")
        (simp_all add: Let_def app collect_success_def add_to_gas_price_def)
  next
    case False
    then have "oc_success (pb_messages b) \<noteq> pb_num_payloads b" using assms(2) by auto
    then have "sc_gas_price_adder (apply_messages b s) = sc_gas_price_adder s1"
      by (simp add: app collect_success_def)
    with False s1 bounds show ?thesis by (simp add: Let_def)
  qed
qed

text \<open>
  C14. The channels of a batch never block its tasks, and each transaction is accounted for at most
  once.  For the chunks that \<open>get_spam_tx_chunks\<close> cuts, of which the first is the longest, and the
  batch sent for any trigger: in whatever order the tasks send their messages, all of them fit the success and
  gas channels, whose capacity is the number of payloads, and the nonce channel, whose capacity is the
  length of the first chunk, although nothing is received before the tasks are awaited.  A payload sends at
  most one success or gas message and at most one success or nonce message, and each transaction of the
  payloads is handed to the callback at most once, whatever the grouping of the tasks.  The error channel has
  one slot; it is read while the tasks are awaited, and the first error ends the collection, so nothing is claimed for it.
\<close>

theorem batch_accounting:
  assumes "get_spam_tx_chunks g w txs_per_period num_periods = Ok tx_req_chunks"
    and "send_tick x tx_req_chunks tick env s = (s', Ok b)"
    and "mset gas = mset (oc_gas (pb_messages b))" and "mset shifts = mset (oc_shift (pb_messages b))"
  shows "let m = pb_messages b; caps = pb_channels b
         in channel_sends (cap_success caps) (replicate (oc_success m) ()) = Some (replicate (oc_success m) ()) \<and>
            channel_sends (cap_gas caps) gas = Some gas \<and>
            channel_sends (cap_shift caps) shifts = Some shifts \<and>
            length (oc_gas m) + oc_success m \<le> pb_num_payloads b \<and>
            length (oc_shift m) + oc_success m \<le> pb_num_payloads b \<and>
            (\<exists>s1 payloads. prepare_spam x (te_rpc env) (tx_req_chunks ! (tick mod max (length tx_req_chunks) 1)) s
                = (s1, Ok payloads) \<and> pb_num_payloads b = length payloads \<and>
              mset (map fst (oc_sent m)) \<subseteq># mset (map st_hash (concat (map payload_txs payloads))))"
proof -
  from send_tick_Ok [OF assms(2)] obtain s1 payloads tasks where
    prep: "prepare_spam x (te_rpc env) (tx_req_chunks ! (tick mod max (length tx_req_chunks) 1)) s = (s1, Ok payloads)"
    and i: "tick mod max (length tx_req_chunks) 1 < length tx_req_chunks"
    and exec: "execute_spam (te_send env) (te_trigger env) payloads s1 = (s', Ok tasks)"
    and b: "b = pending_of (batch_channels tx_req_chunks payloads) tasks (length payloads) tick" .
  have m: "fits payloads (pb_messages b)" using execute_spam_fits [OF exec] by (simp add: b pending_of_def)
  have "length payloads \<le> length (hd tx_req_chunks)"
    using prepare_spam_length [OF prep] spam_chunks_first_longest [OF assms(1) nth_mem [OF i]] by simp
  moreover have "length gas = length (oc_gas (pb_messages b))" "length shifts = length (oc_shift (pb_messages b))"
    using assms(3,4) by (metis size_mset)+
  moreover have "pb_channels b = batch_channels tx_req_chunks payloads" "pb_num_payloads b = length payloads"
    by (simp_all add: b pending_of_def)
  ultimately show ?thesis
    using m prep by (auto simp: Let_def fits_def batch_channels_def channel_sends_fit)
qed

section \<open>Instances\<close>

definition demo_send :: send_env where
  "demo_send = \<lparr>se_start_ms = (\<lambda>h. 1000), se_end_ms = (\<lambda>h. 2000), se_sync = (\<lambda>h. SyncCancelled),
     se_envelope = (\<lambda>h. (Ok (), Ok ())), se_block_num = (\<lambda>t. Some 1), se_bundle = (\<lambda>ty sts n. Ok ()),
     se_batch = (\<lambda>hs. BatchBody [])\<rparr>"

definition demo_tick :: tick_env where
  "demo_tick = \<lparr>te_trigger = TriggerTick 0, te_rpc = demo_rpc, te_send = demo_send, te_wait = [],
     te_batch_callback = None\<rparr>"

lemma demo_prepare_one:
  "\<exists>s' st req. prepare_spam x demo_rpc [ExTx demo_req] demo_scenario = (s', Ok [SignedTx st req]) \<and>
     sc_rpc_batch_size s' = 0 \<and> \<not> sc_send_raw_tx_sync s'"
proof -
  let ?s = "demo_scenario\<lparr>sc_last_fetched_gas_price := Some 100\<rparr>"
  have "\<exists>s' st. prepare_and_sign x demo_rpc 100 0 demo_req ?s = (s', Ok st) \<and>
      sc_rpc_batch_size s' = 0 \<and> \<not> sc_send_raw_tx_sync s'"
    by (simp add: prepare_and_sign_def prepare_tx_request_def demo_req_def runtime_ok_or_def
        sbind_def slift_def sget_def supdate_def sreturn_def named_tx_request_new_def
        tx_request_default_def update_gas_map_def Let_def gas_limit_of_def estimate_request_def
        build_tx_def demo_rpc_def hm_contains_def demo_scenario_def
        hm_get_def [where m = "[(7, v)]" for v] hm_get_def [where m = "[(7, v), w]" for v w] )
  then show ?thesis
    unfolding prepare_spam_def sbind_def [of "spam_gas_prices demo_rpc"] demo_prices
    by (auto simp: sbind_def sreturn_def)
qed

lemma demo_spammer:
  "\<exists>s'. execute_spammer x [[ExTx demo_req]] [demo_tick] demo_scenario = (s', Ok ())"
proof -
  obtain s' st req where
    p: "prepare_spam x demo_rpc [ExTx demo_req] demo_scenario = (s', Ok [SignedTx st req])"
    and flags: "sc_rpc_batch_size s' = 0" "\<not> sc_send_raw_tx_sync s'"
    using demo_prepare_one by blast
  have "execute_spam demo_send t [SignedTx st req] s' =
      (count_sent 1 s', Ok [send_single demo_send st req])" for t
    using flags by (simp add: execute_spam_def sort_payloads_def should_batch_rpc_def sbind_def slift_def
        sget_def supdate_def sreturn_def)
  then have "\<exists>b. send_tick x [[ExTx demo_req]] 0 demo_tick demo_scenario = (count_sent 1 s', Ok b) \<and>
      pb_errors b = [] \<and> pb_tasks b = [send_single demo_send st req]"
    using p by (simp add: send_tick_def demo_tick_def sbind_def slift_def sreturn_def index_at_def
        pending_of_def task_errors_def send_single_def demo_send_def retry_once_def Let_def)
  then show ?thesis
    by (auto simp: execute_spammer_eq sbind_def collect_pending_batch_def slift_def supdate_def sreturn_def
        demo_tick_def await_batch_callback_def)
qed

theorem spammer_refines_ledger_witness:
  "\<exists>s'. execute_spammer demo_ext [[ExTx demo_req]] [demo_tick] demo_scenario = (s', Ok ()) \<and>
     ledger_takes (ledger_of demo_scenario)
       (fst (tick_batch demo_ext [[ExTx demo_req]] 0 demo_tick demo_scenario)) 7 \<and>
     ledger_of s' 7 = ledger_tick (tick_batch demo_ext [[ExTx demo_req]] 0 demo_tick demo_scenario)
       (ledger_of demo_scenario) 7"
proof -
  obtain s' where r: "execute_spammer demo_ext [[ExTx demo_req]] [demo_tick] demo_scenario = (s', Ok ())"
    using demo_spammer by blast
  have "7 \<noteq> sg_address (sc_setcode_signer demo_scenario)" by (simp add: demo_scenario_def)
  with spammer_refines_ledger [OF r]
  have "let bs = spam_history demo_ext [[ExTx demo_req]] 0 [demo_tick] demo_scenario in
      length bs = 1 \<and> ledger_run (ledger_of demo_scenario) bs 7 \<and>
      ledger_of s' 7 = fold ledger_tick bs (ledger_of demo_scenario) 7" unfolding Let_def by force
  then show ?thesis using r by (intro exI [of _ s']) (auto simp: Let_def split: prod.splits rresult.splits)
qed

theorem gas_adder_bounds_witness:
  "let b = \<lparr>pb_tasks = [], pb_messages = outcome_none\<lparr>oc_gas := [30, 70]\<rparr>, pb_errors = [],
            pb_channels = batch_channels [] [], pb_num_payloads = 2, pb_tick = 0\<rparr>;
       a1 = unat (sc_gas_price_adder (apply_messages b demo_scenario))
   in 70 \<le> a1 \<and> a1 \<le> 100"
  using gas_adder_bounds [of demo_scenario "\<lparr>pb_tasks = [], pb_messages = outcome_none\<lparr>oc_gas := [30, 70]\<rparr>,
      pb_errors = [], pb_channels = batch_channels [] [], pb_num_payloads = 2, pb_tick = 0\<rparr>"]
  by (simp add: outcome_none_def demo_scenario_def Let_def)

text \<open>One request per period, sent by a tick: the one success message fills its channel.\<close>

definition demo_batch_scenario :: scenario where
  "demo_batch_scenario = demo_scenario\<lparr>sc_signer_map := [(demo_sender, \<lparr>sg_key = [1], sg_address = demo_sender\<rparr>)],
     sc_nonces := [(demo_sender, 4)], sc_setcode_signer := \<lparr>sg_key = [1], sg_address = demo_sender\<rparr>\<rparr>"

lemma demo_prepare_chunk:
  "\<exists>s' st req. prepare_spam x demo_rpc [ExTx (named_tx_request_new demo_request None None)] demo_batch_scenario
     = (s', Ok [SignedTx st req]) \<and> sc_rpc_batch_size s' = 0 \<and> \<not> sc_send_raw_tx_sync s'"
proof -
  let ?s = "demo_batch_scenario\<lparr>sc_last_fetched_gas_price := Some 100\<rparr>"
  have prices: "spam_gas_prices demo_rpc demo_batch_scenario = (?s, Ok (100, 0))"
    by (simp add: spam_gas_prices_def fetch_blob_gas_price_def fetch_gas_price_def fetch_with_cache_def
        sbind_def sget_def sreturn_def demo_rpc_def demo_batch_scenario_def demo_scenario_def adjusted_gas_price_def)
  have "\<exists>s' st. prepare_and_sign x demo_rpc 100 0 (named_tx_request_new demo_request None None) ?s
      = (s', Ok st) \<and> sc_rpc_batch_size s' = 0 \<and> \<not> sc_send_raw_tx_sync s'"
    by (simp add: prepare_and_sign_def prepare_tx_request_def demo_request_def runtime_ok_or_def
        sbind_def slift_def sget_def supdate_def sreturn_def named_tx_request_new_def
        tx_request_default_def update_gas_map_def Let_def gas_limit_of_def estimate_request_def
        check_code_def build_tx_def demo_rpc_def hm_contains_def demo_scenario_def demo_batch_scenario_def
        hm_get_def [where m = "[(demo_sender, v)]" for v])
  then show ?thesis
    unfolding prepare_spam_def sbind_def [of "spam_gas_prices demo_rpc"] prices
    by (auto simp: sbind_def sreturn_def)
qed

theorem batch_accounting_witness:
  "\<exists>cs s' b. get_spam_tx_chunks demo_gen () 1 4 = Ok cs \<and> send_tick demo_ext cs 0 demo_tick demo_batch_scenario = (s', Ok b)
     \<and> oc_success (pb_messages b) = 1 \<and> cap_success (pb_channels b) = 1 \<and> cap_shift (pb_channels b) = 1
     \<and> channel_sends (cap_success (pb_channels b)) [()] = Some [()]"
proof -
  let ?r = "ExTx (named_tx_request_new Generator.demo_request None None)"
  obtain cs where cs: "get_spam_tx_chunks demo_gen () 1 4 = Ok cs" "cs \<noteq> []" "hd cs = [?r]"
    using demo_load_none by (simp add: get_spam_tx_chunks_def chunks_def chunks_ne.simps)
  obtain s' st req where p: "prepare_spam demo_ext demo_rpc [?r] demo_batch_scenario = (s', Ok [SignedTx st req])"
    and flags: "sc_rpc_batch_size s' = 0" "\<not> sc_send_raw_tx_sync s'"
    using demo_prepare_chunk by blast
  have "execute_spam demo_send t [SignedTx st req] s' = (count_sent 1 s', Ok [send_single demo_send st req])" for t
    using flags by (simp add: execute_spam_def sort_payloads_def should_batch_rpc_def sbind_def slift_def
        sget_def supdate_def sreturn_def)
  with p cs(2,3) obtain b where b: "send_tick demo_ext cs 0 demo_tick demo_batch_scenario = (count_sent 1 s', Ok b)"
      "pb_channels b = batch_channels cs [SignedTx st req]" "oc_success (pb_messages b) = 1"
    by (auto simp: send_tick_def demo_tick_def sbind_def slift_def sreturn_def index_at_def hd_conv_nth
        pending_of_def task_messages_def send_single_def demo_send_def retry_once_def Let_def
        handle_tx_outcome_def outcomes_def outcome_join_def outcome_none_def)
  from batch_accounting [OF cs(1) b(1) refl refl] b cs show ?thesis
    by (auto simp: Let_def batch_channels_def)
qed

end
