(* ===== verification/Spammer.thy ===== *)
theory Spammer
  imports Spam_Batch
begin

text \<open>
  \<open>crates/core/src/spammer\<close>: the \<open>Spammer\<close> trait with \<open>spam_rpc\<close>, the timed and
  the blockwise spammer.  \<open>spam_rpc\<close> runs two tasks: the main task prepares and
  sends the batches, a background task advances the chain through the engine
  when an authenticated provider is configured.  Their interaction through the
  two flags of \<open>SpamRunContext\<close> is a step relation; what the main task does
  between the flags is a function on the scenario.
\<close>

section \<open>Triggers\<close>

definition timed_triggers :: "nat \<Rightarrow> spam_trigger list" where
  "timed_triggers n = map (\<lambda>i. TriggerTick (word_of_nat i)) [0..<n]"

definition blockwise_triggers :: "tx_hash list list \<Rightarrow> spam_trigger list" where
  "blockwise_triggers polls = map TriggerBlockHash (concat polls)"

definition timed_duration_units :: "u64 \<Rightarrow> spam_duration" where
  "timed_duration_units periods = Seconds periods"

definition blockwise_duration_units :: "u64 \<Rightarrow> spam_duration" where
  "blockwise_duration_units periods = Blocks periods"

section \<open>The two tasks and their flags\<close>

record spam_run_context =
  done_sending :: bool
  done_fcu :: bool

definition spam_run_context_new :: spam_run_context where
  "spam_run_context_new = \<lparr>done_sending = False, done_fcu = False\<rparr>"

datatype fcu_task = FcuLooping | FcuEnded "(unit, core_error) rresult"

datatype main_task = MainSending | MainAwaitsFcu | MainAfterFcu | MainReturned "(unit, core_error) rresult"

record rpc_run =
  rr_ctx :: spam_run_context
  rr_fcu :: fcu_task
  rr_main :: main_task

definition rpc_run_new :: rpc_run where
  "rpc_run_new = \<lparr>rr_ctx = spam_run_context_new, rr_fcu = FcuLooping, rr_main = MainSending\<rparr>"

text \<open>\<open>auth\<close> says that the scenario has an authenticated provider.\<close>

inductive rpc_step :: "bool \<Rightarrow> rpc_run \<Rightarrow> rpc_run \<Rightarrow> bool" for auth where
  fcu_no_provider:
    "rr_fcu r = FcuLooping \<Longrightarrow> \<not> auth \<Longrightarrow> rpc_step auth r (r\<lparr>rr_fcu := FcuEnded (Ok ())\<rparr>)"
| fcu_sees_done:
    "rr_fcu r = FcuLooping \<Longrightarrow> auth \<Longrightarrow> done_fcu (rr_ctx r)
      \<Longrightarrow> rpc_step auth r (r\<lparr>rr_fcu := FcuEnded (Ok ())\<rparr>)"
| fcu_advances:
    "rr_fcu r = FcuLooping \<Longrightarrow> auth \<Longrightarrow> \<not> done_fcu (rr_ctx r) \<Longrightarrow> done_sending (rr_ctx r)
      \<Longrightarrow> rpc_step auth r r"
| fcu_advance_fails:
    "rr_fcu r = FcuLooping \<Longrightarrow> auth \<Longrightarrow> \<not> done_fcu (rr_ctx r) \<Longrightarrow> done_sending (rr_ctx r)
      \<Longrightarrow> rpc_step auth r (r\<lparr>rr_ctx := (rr_ctx r)\<lparr>done_fcu := True\<rparr>,
            rr_fcu := FcuEnded (Err (CoreCallback (AuthProviderError e)))\<rparr>)"
| fcu_sleeps:
    "rr_fcu r = FcuLooping \<Longrightarrow> auth \<Longrightarrow> \<not> done_fcu (rr_ctx r) \<Longrightarrow> \<not> done_sending (rr_ctx r)
      \<Longrightarrow> rpc_step auth r r"
| main_fails:
    "rr_main r = MainSending \<Longrightarrow> rpc_step auth r (r\<lparr>rr_main := MainReturned (Err e)\<rparr>)"
| main_sent:
    "rr_main r = MainSending
      \<Longrightarrow> rpc_step auth r (r\<lparr>rr_ctx := (rr_ctx r)\<lparr>done_sending := True\<rparr>, rr_main := MainAwaitsFcu\<rparr>)"
| main_joins_ok:
    "rr_main r = MainAwaitsFcu \<Longrightarrow> rr_fcu r = FcuEnded (Ok ())
      \<Longrightarrow> rpc_step auth r (r\<lparr>rr_ctx := (rr_ctx r)\<lparr>done_fcu := True\<rparr>, rr_main := MainAfterFcu\<rparr>)"
| main_joins_err:
    "rr_main r = MainAwaitsFcu \<Longrightarrow> rr_fcu r = FcuEnded (Err e)
      \<Longrightarrow> rpc_step auth r (r\<lparr>rr_main := MainReturned (Err e)\<rparr>)"
| main_metrics_fail:
    "rr_main r = MainAfterFcu \<Longrightarrow> rpc_step auth r (r\<lparr>rr_main := MainReturned (Err e)\<rparr>)"
| main_done:
    "rr_main r = MainAfterFcu \<Longrightarrow> rpc_step auth r (r\<lparr>rr_main := MainReturned (Ok ())\<rparr>)"

inductive rpc_reachable :: "bool \<Rightarrow> rpc_run \<Rightarrow> bool" for auth where
  rpc_start: "rpc_reachable auth rpc_run_new"
| rpc_next: "rpc_reachable auth r \<Longrightarrow> rpc_step auth r r' \<Longrightarrow> rpc_reachable auth r'"

inductive_cases rpc_stepE: "rpc_step auth r r'"

section \<open>What the main task does\<close>

record 'd metrics_db =
  md_num_runs :: "'d \<Rightarrow> (u64, db_error) rresult"
  md_insert_latency :: "'d \<Rightarrow> u64 \<Rightarrow> (string \<times> bucket list) list \<Rightarrow> ('d, db_error) rresult"

definition run_id_or_count ::
  "'d metrics_db \<Rightarrow> 'd \<Rightarrow> u64 option \<Rightarrow> (u64, core_error) rresult" where
  "run_id_or_count ops d run_id =
     rbind (rmap_err CoreDb (md_num_runs ops d)) (\<lambda>n. Ok (case run_id of Some i \<Rightarrow> i | None \<Rightarrow> n))"

text \<open>
  \<open>envs\<close> are the answers of the network at each trigger, \<open>fcu\<close> is the result of the
  background task, \<open>metrics\<close> the collected latencies, \<open>arrival\<close> the order in which
  the node answers the final nonce queries.
\<close>

definition spam_rpc ::
  "ext \<Rightarrow> 'w gen \<Rightarrow> 'w \<Rightarrow> 'd metrics_db \<Rightarrow> u64 \<Rightarrow> u64 \<Rightarrow> u64 option \<Rightarrow> tick_env list
    \<Rightarrow> (unit, core_error) rresult \<Rightarrow> (string \<times> bucket list) list \<Rightarrow> rpc_env \<Rightarrow> address list
    \<Rightarrow> (scenario \<times> 'd, unit, core_error) action" where
  "spam_rpc x g w ops txs_per_period num_periods run_id envs fcu metrics env arrival = (\<lambda>(s, d).
     case rbind (run_id_or_count ops d run_id) (\<lambda>rid.
            rbind (get_spam_tx_chunks g w txs_per_period num_periods) (\<lambda>cs. Ok (rid, cs))) of
       Err e \<Rightarrow> ((s, d), Err e)
     | Panic \<Rightarrow> ((s, d), Panic)
     | Ok (rid, cs) \<Rightarrow>
         (case execute_spammer x cs (take (unat num_periods) envs) s of
            (s', Err e) \<Rightarrow> ((s', d), Err e)
          | (s', Panic) \<Rightarrow> ((s', d), Panic)
          | (s', Ok _) \<Rightarrow>
              (case rbind fcu (\<lambda>_. rmap_err CoreDb (md_insert_latency ops d rid metrics)) of
                 Err e \<Rightarrow> ((s', d), Err e)
               | Panic \<Rightarrow> ((s', d), Panic)
               | Ok d' \<Rightarrow> ((sync_nonces env arrival s', d'), Ok ()))))"

section \<open>Lemmas\<close>

definition fcu_invariant :: "rpc_run \<Rightarrow> bool" where
  "fcu_invariant r \<longleftrightarrow>
     rr_fcu r \<noteq> FcuEnded (Ok ()) \<and> rr_main r \<noteq> MainAfterFcu \<and> rr_main r \<noteq> MainReturned (Ok ()) \<and>
     (done_fcu (rr_ctx r) \<longrightarrow> (\<exists>e. rr_fcu r = FcuEnded (Err e)))"

lemma fcu_invariant_step: "rpc_step True r r' \<Longrightarrow> fcu_invariant r \<Longrightarrow> fcu_invariant r'"
  by (erule rpc_stepE) (auto simp: fcu_invariant_def)

lemma fcu_invariant_reachable: "rpc_reachable True r \<Longrightarrow> fcu_invariant r"
proof (induction rule: rpc_reachable.induct)
  case rpc_start
  then show ?case by (simp add: fcu_invariant_def rpc_run_new_def spam_run_context_new_def)
next
  case (rpc_next r r')
  then show ?case by (blast intro: fcu_invariant_step)
qed

lemma no_provider_fcu: "rpc_reachable False r \<Longrightarrow> rr_fcu r = FcuLooping \<or> rr_fcu r = FcuEnded (Ok ())"
proof (induction rule: rpc_reachable.induct)
  case (rpc_next r r')
  from rpc_next.hyps(2) show ?case by (rule rpc_stepE) (use rpc_next.IH in auto)
qed (simp add: rpc_run_new_def)

section \<open>Properties\<close>

text \<open>
  C16. With an authenticated provider a spam run never succeeds.  In every
  interleaving of the two tasks, as long as no call of \<open>advance_chain\<close> fails,
  the background task never ends, and the main task, once all batches are sent,
  waits for it forever: \<open>done_fcu\<close>, which would end the loop, is only set after
  the loop has been awaited.  Without a provider, every state in which the main
  task waits leads to a successful return in at most three steps.
\<close>

theorem fcu_loop_blocks_run:
  "(rpc_reachable True r \<longrightarrow>
      rr_main r \<noteq> MainReturned (Ok ()) \<and> rr_fcu r \<noteq> FcuEnded (Ok ())) \<and>
   (rpc_reachable False r \<and> rr_main r = MainAwaitsFcu \<longrightarrow>
      (\<exists>r1 r2 r3. (r1 = r \<or> rpc_step False r r1) \<and> rpc_step False r1 r2 \<and> rpc_step False r2 r3 \<and>
         rr_main r3 = MainReturned (Ok ())))"
proof (intro conjI impI)
  assume "rpc_reachable True r"
  then show "rr_main r \<noteq> MainReturned (Ok ())" "rr_fcu r \<noteq> FcuEnded (Ok ())"
    using fcu_invariant_reachable by (auto simp: fcu_invariant_def)
next
  assume r: "rpc_reachable False r \<and> rr_main r = MainAwaitsFcu"
  define r1 where "r1 = r\<lparr>rr_fcu := FcuEnded (Ok ())\<rparr>"
  define r2 where "r2 = r1\<lparr>rr_ctx := (rr_ctx r1)\<lparr>done_fcu := True\<rparr>, rr_main := MainAfterFcu\<rparr>"
  define r3 where "r3 = r2\<lparr>rr_main := MainReturned (Ok ())\<rparr>"
  have "r1 = r \<or> rpc_step False r r1"
    using no_provider_fcu [of r] r unfolding r1_def by (auto intro: rpc_step.fcu_no_provider)
  moreover have "rpc_step False r1 r2"
    unfolding r2_def by (rule rpc_step.main_joins_ok) (simp_all add: r1_def r)
  moreover have "rpc_step False r2 r3"
    unfolding r3_def by (rule rpc_step.main_done) (simp add: r2_def)
  ultimately show "\<exists>r1 r2 r3. (r1 = r \<or> rpc_step False r r1) \<and> rpc_step False r1 r2 \<and> rpc_step False r2 r3 \<and>
      rr_main r3 = MainReturned (Ok ())"
    by (metis r3_def rpc_run.select_convs(3) rpc_run.surjective rpc_run.update_convs(3))
qed

theorem fcu_loop_blocks_run_witness:
  "rpc_reachable False (rpc_run_new\<lparr>rr_ctx := spam_run_context_new\<lparr>done_sending := True\<rparr>,
      rr_main := MainAwaitsFcu\<rparr>) \<and>
   (\<exists>r2 r3. rpc_step False r2 r3 \<and> rr_main r3 = MainReturned (Ok ()))"
proof -
  let ?r = "rpc_run_new\<lparr>rr_ctx := spam_run_context_new\<lparr>done_sending := True\<rparr>, rr_main := MainAwaitsFcu\<rparr>"
  have "rpc_step False rpc_run_new (rpc_run_new\<lparr>rr_ctx := (rr_ctx rpc_run_new)\<lparr>done_sending := True\<rparr>,
      rr_main := MainAwaitsFcu\<rparr>)"
    by (rule rpc_step.main_sent) (simp add: rpc_run_new_def)
  then have "rpc_reachable False ?r"
    using rpc_reachable.rpc_next [OF rpc_reachable.rpc_start] by (simp add: rpc_run_new_def)
  moreover have "rr_main ?r = MainAwaitsFcu" by simp
  ultimately show ?thesis using fcu_loop_blocks_run [of ?r] by blast
qed

end
