(* ===== verification/Campaign.thy ===== *)
theory Campaign
  imports Float64 Rust_Strings
begin

text \<open>
  \<open>crates/testfile/src/campaign.rs\<close>: campaigns, their validation, the normal form
  of their stages, and \<open>resolve\<close>, which distributes the rate of a stage over the
  scenarios of its mix.  Reading the TOML file is not modelled; shares are
  \<open>f64\<close> values with the rounding of \<open>Float64\<close>.
\<close>

section \<open>Configuration\<close>

datatype campaign_mode = Tps | Tpb

record campaign_mix_entry =
  cm_scenario :: string
  cm_share_pct :: f64

record campaign_stage =
  cst_name :: string
  cst_duration :: "u64 option"
  cst_rate :: "u64 option"
  cst_mix :: "campaign_mix_entry list"

record campaign_spam =
  csp_mode :: campaign_mode
  csp_rate :: "u64 option"
  csp_duration :: "u64 option"
  csp_seed :: "u64 option"
  csp_stage_timeout :: "u64 option"
  csp_stage :: "campaign_stage list"
  csp_mix :: "campaign_mix_entry list option"

record campaign_config =
  cc_name :: string
  cc_description :: "string option"
  cc_spam :: campaign_spam

record resolved_mix_entry =
  rm_scenario :: string
  rm_share_pct :: f64
  rm_rate :: u64

record resolved_stage =
  rs_name :: string
  rs_rate :: u64
  rs_duration :: u64
  rs_stage_timeout :: "u64 option"
  rs_mix :: "resolved_mix_entry list"

datatype campaign_error =
    NameEmpty
  | SpamRateMissing
  | SpamDurationMissing nat string
  | MixSharesSumInvalid string
  | StageMixEmpty nat string
  | SpamMixEmpty
  | SpamStageOrMixUndefined
  | ShorthandRequiresSpamDuration
  | ConflictingMixAndStage
  | RateDistributionExceedsLimit string u64 u64

section \<open>Scenarios, normal form and validation\<close>

fun dedup :: "'a list \<Rightarrow> 'a list" where
  "dedup [] = []"
| "dedup [a] = [a]"
| "dedup (a # b # xs) = (if a = b then dedup (b # xs) else a # dedup (b # xs))"

definition setup_scenarios :: "campaign_config \<Rightarrow> string list" where
  "setup_scenarios cfg =
     (let spam = cc_spam cfg;
          of_mix = (case csp_mix spam of Some mix \<Rightarrow> map cm_scenario mix | None \<Rightarrow> [])
      in dedup (of_mix @ concat (map (\<lambda>st. map cm_scenario (cst_mix st)) (csp_stage spam))))"

definition normalized_stages :: "campaign_spam \<Rightarrow> (campaign_stage list, campaign_error) rresult" where
  "normalized_stages spam =
     (if csp_stage spam \<noteq> [] then
        (if csp_mix spam \<noteq> None then Err ConflictingMixAndStage else Ok (csp_stage spam))
      else (case csp_mix spam of
              Some mix \<Rightarrow>
                if mix = [] then Err SpamMixEmpty
                else rbind (ok_or (csp_duration spam) ShorthandRequiresSpamDuration) (\<lambda>duration.
                  Ok [\<lparr>cst_name = ''steady'', cst_duration = Some duration, cst_rate = csp_rate spam,
                       cst_mix = mix\<rparr>])
            | None \<Rightarrow> Err SpamStageOrMixUndefined))"

definition validate_stage :: "campaign_spam \<Rightarrow> nat \<times> campaign_stage \<Rightarrow> (unit, campaign_error) rresult" where
  "validate_stage spam = (\<lambda>(idx, stage).
     if cst_mix stage = [] then Err (StageMixEmpty idx (cst_name stage))
     else if cst_duration stage = None \<and> csp_duration spam = None
     then Err (SpamDurationMissing idx (cst_name stage))
     else Ok ())"

definition campaign_validate :: "campaign_config \<Rightarrow> (unit, campaign_error) rresult" where
  "campaign_validate cfg =
     (if trim (cc_name cfg) = [] then Err NameEmpty
      else rbind (normalized_stages (cc_spam cfg)) (\<lambda>stages.
           rmap (\<lambda>_. ()) (rmapM (validate_stage (cc_spam cfg)) (List.enumerate 0 stages))))"

section \<open>Distributing a rate\<close>

definition first_rate :: "u64 \<Rightarrow> f64 \<Rightarrow> campaign_mix_entry \<Rightarrow> u64" where
  "first_rate rate mix_sum mix =
     f64_to_u64 (f64_round (f64_mul (f64_of_u64 rate) (f64_div (cm_share_pct mix) mix_sum)))"

definition has_share :: "campaign_mix_entry \<Rightarrow> bool" where
  "has_share mix = f64_less (Fin 0) (cm_share_pct mix)"

text \<open>\<open>max_by_key\<close> returns the last of several maximal elements.\<close>

definition max_index :: "u64 list \<Rightarrow> (nat \<times> u64) option" where
  "max_index rates =
     fold (\<lambda>(i, r) best. case best of
             None \<Rightarrow> Some (i, r)
           | Some (j, q) \<Rightarrow> if q \<le> r then Some (i, r) else best)
       (List.enumerate 0 rates) None"

definition give_one :: "nat \<Rightarrow> u64 list \<Rightarrow> u64 list" where
  "give_one zero_idx rates =
     (case max_index (take (length rates - 1) rates) of
        Some (max_idx, _) \<Rightarrow>
          if 1 < rates ! max_idx
          then (rates[max_idx := rates ! max_idx - 1])[zero_idx := 1]
          else rates
      | None \<Rightarrow> rates)"

definition raise_zero_rates :: "u64 \<Rightarrow> campaign_mix_entry list \<Rightarrow> u64 list \<Rightarrow> u64 list" where
  "raise_zero_rates rate mix rates =
     (let non_zero_mixes = length (filter has_share mix)
      in if 0 < non_zero_mixes \<and> word_of_nat non_zero_mixes \<le> rate
         then fold give_one
                (map fst (filter (\<lambda>(idx, m, r). has_share m \<and> r = 0) (List.enumerate 0 (zip mix rates)))) rates
         else rates)"

definition mix_entry :: "campaign_mix_entry \<Rightarrow> u64 \<Rightarrow> resolved_mix_entry" where
  "mix_entry mix rate =
     \<lparr>rm_scenario = cm_scenario mix, rm_share_pct = cm_share_pct mix, rm_rate = rate\<rparr>"

text \<open>The last entry gets what is left; the warning about its drift is output only.\<close>

fun assign_rates ::
  "string \<Rightarrow> u64 \<Rightarrow> u64 \<Rightarrow> (campaign_mix_entry \<times> u64) list
    \<Rightarrow> (resolved_mix_entry list, campaign_error) rresult" where
  "assign_rates name rate assigned [] = Ok []"
| "assign_rates name rate assigned [(mix, r)] =
     (if rate < assigned then Err (RateDistributionExceedsLimit name assigned rate)
      else Ok [mix_entry mix (saturating_sub rate assigned)])"
| "assign_rates name rate assigned ((mix, r) # e # es) =
     rmap (\<lambda>ms. mix_entry mix r # ms) (assign_rates name rate (saturating_add assigned r) (e # es))"

definition resolve_stage ::
  "campaign_spam \<Rightarrow> nat \<times> campaign_stage \<Rightarrow> (resolved_stage, campaign_error) rresult" where
  "resolve_stage spam = (\<lambda>(idx, stage).
     rbind (ok_or (csp_duration spam) (SpamDurationMissing idx (cst_name stage))) (\<lambda>default_duration.
     let mix = cst_mix stage; mix_sum = f64_sum (map cm_share_pct mix)
     in if f64_le mix_sum f64_epsilon then Err (MixSharesSumInvalid (cst_name stage))
        else rbind (ok_or (csp_rate spam) SpamRateMissing) (\<lambda>default_rate.
          let duration = (case cst_duration stage of Some d \<Rightarrow> d | None \<Rightarrow> default_duration);
              rate = (case cst_rate stage of Some r \<Rightarrow> r | None \<Rightarrow> default_rate);
              rates = raise_zero_rates rate mix (map (first_rate rate mix_sum) mix)
          in rmap (\<lambda>ms. \<lparr>rs_name = cst_name stage, rs_rate = rate, rs_duration = duration,
                         rs_stage_timeout = csp_stage_timeout spam, rs_mix = ms\<rparr>)
               (assign_rates (cst_name stage) rate 0 (zip mix rates)))))"

definition resolve :: "campaign_config \<Rightarrow> (resolved_stage list, campaign_error) rresult" where
  "resolve cfg =
     rbind (normalized_stages (cc_spam cfg)) (\<lambda>stages.
       rmapM (resolve_stage (cc_spam cfg)) (List.enumerate 0 stages))"

section \<open>Lemmas\<close>

lemma normalized_nonempty: "normalized_stages spam = Ok ss \<Longrightarrow> ss \<noteq> []"
  by (auto simp: normalized_stages_def split: if_splits option.splits)

lemma length_give_one [simp]: "length (give_one i rates) = length rates"
  by (simp add: give_one_def split: option.splits)

lemma length_raise_zero_rates [simp]: "length (raise_zero_rates rate mix rates) = length rates"
proof -
  have "length (fold give_one is rates) = length rates" for "is"
    by (induction "is" arbitrary: rates) simp_all
  then show ?thesis by (simp add: raise_zero_rates_def Let_def)
qed

lemma assign_rates_shape:
  "assign_rates name rate assigned xs = Ok ms
    \<Longrightarrow> map rm_scenario ms = map (cm_scenario \<circ> fst) xs \<and> map rm_share_pct ms = map (cm_share_pct \<circ> fst) xs"
  by (induction name rate assigned xs arbitrary: ms rule: assign_rates.induct)
     (auto simp: mix_entry_def split: if_splits)

lemma assign_rates_total:
  assumes "assign_rates name rate assigned xs = Ok ms" and "xs \<noteq> []" and "rate \<noteq> - 1"
  shows "unat assigned + (\<Sum>m\<leftarrow>ms. unat (rm_rate m)) = unat rate"
  using assms
proof (induction name rate assigned xs arbitrary: ms rule: assign_rates.induct)
  case (2 name rate assigned mix r)
  then show ?case by (auto simp: mix_entry_def word_le_nat_alt not_less split: if_splits)
next
  case (3 name rate assigned mix r e es)
  from "3.prems"(1) obtain ns where
    ns: "assign_rates name rate (saturating_add assigned r) (e # es) = Ok ns" "ms = mix_entry mix r # ns" by auto
  have *: "unat (saturating_add assigned r) + (\<Sum>m\<leftarrow>ns. unat (rm_rate m)) = unat rate"
    using "3.IH" [OF ns(1)] "3.prems"(3) by simp
  have "unat rate < unat (- 1 :: u64)"
    using "3.prems"(3) by (metis word_not_simps(3) word_less_nat_alt word_order.not_eq_extremum)
  with * have "unat (saturating_add assigned r) < 2 ^ 64 - 1" by (simp add: unat_max_word)
  then have "unat (saturating_add assigned r) = unat assigned + unat r"
    by (simp add: unat_saturating_add)
  with * ns(2) show ?case by (simp add: mix_entry_def)
qed simp

lemma resolve_stage_Ok:
  assumes "resolve_stage spam (idx, stage) = Ok r"
  obtains default_duration default_rate where
    "csp_duration spam = Some default_duration" "csp_rate spam = Some default_rate" "cst_mix stage \<noteq> []"
    "rs_name r = cst_name stage"
    "rs_duration r = (case cst_duration stage of Some d \<Rightarrow> d | None \<Rightarrow> default_duration)"
    "rs_rate r = (case cst_rate stage of Some q \<Rightarrow> q | None \<Rightarrow> default_rate)"
    "assign_rates (cst_name stage) (rs_rate r) 0
       (zip (cst_mix stage) (raise_zero_rates (rs_rate r) (cst_mix stage)
          (map (first_rate (rs_rate r) (f64_sum (map cm_share_pct (cst_mix stage)))) (cst_mix stage))))
       = Ok (rs_mix r)"
proof -
  have "f64_le (f64_sum []) f64_epsilon"
    by (simp add: f64_sum_def f64_le_def f64_epsilon_def)
  then have "cst_mix stage \<noteq> []" using assms by (auto simp: resolve_stage_def Let_def)
  with assms that show thesis by (auto simp: resolve_stage_def Let_def split: if_splits)
qed

definition stage_resolved :: "campaign_stage \<Rightarrow> resolved_stage \<Rightarrow> bool" where
  "stage_resolved stage r \<longleftrightarrow>
     rs_name r = cst_name stage \<and>
     (\<forall>d. cst_duration stage = Some d \<longrightarrow> rs_duration r = d) \<and>
     (\<forall>q. cst_rate stage = Some q \<longrightarrow> rs_rate r = q) \<and>
     map rm_scenario (rs_mix r) = map cm_scenario (cst_mix stage) \<and>
     map rm_share_pct (rs_mix r) = map cm_share_pct (cst_mix stage) \<and>
     (rs_rate r \<noteq> - 1 \<longrightarrow> (\<Sum>m\<leftarrow>rs_mix r. unat (rm_rate m)) = unat (rs_rate r))"

lemma map_comp_fst_zip: "length xs = length ys \<Longrightarrow> map (f \<circ> fst) (zip xs ys) = map f xs"
  by (induction xs ys rule: list_induct2) simp_all

lemma resolve_stage_resolved:
  assumes "resolve_stage spam (idx, stage) = Ok r"
  shows "stage_resolved stage r"
proof -
  from assms obtain dd dr where
    st: "cst_mix stage \<noteq> []" "rs_name r = cst_name stage"
      "rs_duration r = (case cst_duration stage of Some d \<Rightarrow> d | None \<Rightarrow> dd)"
      "rs_rate r = (case cst_rate stage of Some q \<Rightarrow> q | None \<Rightarrow> dr)"
    and ar: "assign_rates (cst_name stage) (rs_rate r) 0
       (zip (cst_mix stage) (raise_zero_rates (rs_rate r) (cst_mix stage)
          (map (first_rate (rs_rate r) (f64_sum (map cm_share_pct (cst_mix stage)))) (cst_mix stage))))
       = Ok (rs_mix r)"
    by (rule resolve_stage_Ok)
  define rates where "rates = raise_zero_rates (rs_rate r) (cst_mix stage)
      (map (first_rate (rs_rate r) (f64_sum (map cm_share_pct (cst_mix stage)))) (cst_mix stage))"
  have len: "length (cst_mix stage) = length rates" by (simp add: rates_def)
  have ne: "zip (cst_mix stage) rates \<noteq> []" using len st(1) by (cases "cst_mix stage"; cases rates) auto
  have ar': "assign_rates (cst_name stage) (rs_rate r) 0 (zip (cst_mix stage) rates) = Ok (rs_mix r)"
    using ar by (simp only: rates_def)
  have "rs_rate r \<noteq> - 1 \<longrightarrow> (\<Sum>m\<leftarrow>rs_mix r. unat (rm_rate m)) = unat (rs_rate r)"
    using assign_rates_total [OF ar' ne] by simp
  moreover have "map rm_scenario (rs_mix r) = map cm_scenario (cst_mix stage)"
    "map rm_share_pct (rs_mix r) = map cm_share_pct (cst_mix stage)"
    using assign_rates_shape [OF ar'] len by (simp_all add: map_comp_fst_zip)
  ultimately show ?thesis using st(2-4) by (simp add: stage_resolved_def)
qed

lemma enumerate_nth_in: "i < length xs \<Longrightarrow> List.enumerate 0 xs ! i = (i, xs ! i)"
  by (simp add: nth_enumerate_eq)

section \<open>Properties\<close>

text \<open>
  C29. Resolving a campaign distributes exactly the rate of each stage.  If
  \<open>resolve\<close> succeeds there is one resolved stage per stage of the normal form, in
  order, with the duration and rate the stage sets itself; its entries are the
  scenarios and shares of the mix in order, and their rates add up to the rate of
  the stage without overflow (unless the rate is the largest 64-bit number).
\<close>

theorem resolved_rates_total:
  assumes "resolve cfg = Ok rs"
  shows "\<exists>ss. normalized_stages (cc_spam cfg) = Ok ss \<and> list_all2 stage_resolved ss rs"
proof -
  from assms obtain ss where ss: "normalized_stages (cc_spam cfg) = Ok ss"
    and rs: "rmapM (resolve_stage (cc_spam cfg)) (List.enumerate 0 ss) = Ok rs"
    by (auto simp: resolve_def)
  from rs have all: "list_all2 (\<lambda>x r. resolve_stage (cc_spam cfg) x = Ok r) (List.enumerate 0 ss) rs"
    by (simp add: rmapM_eq_Ok)
  have "list_all2 stage_resolved ss rs"
  proof (rule list_all2_all_nthI)
    from list_all2_lengthD [OF all] show len: "length ss = length rs" by simp
    fix i assume i: "i < length ss"
    with all have "resolve_stage (cc_spam cfg) (List.enumerate 0 ss ! i) = Ok (rs ! i)"
      by (auto dest: list_all2_nthD)
    with i show "stage_resolved (ss ! i) (rs ! i)"
      by (simp add: enumerate_nth_in resolve_stage_resolved)
  qed
  with ss show ?thesis by blast
qed

text \<open>
  The defaults for duration and rate are required although every stage may
  set its own.  Without a default duration, or without a default rate, resolving
  any well-formed campaign fails, whatever its stages set; validation only asks
  for the default duration if a stage has none.
\<close>

theorem resolve_requires_defaults:
  assumes "normalized_stages (cc_spam cfg) = Ok ss"
    and "csp_duration (cc_spam cfg) = None \<or> csp_rate (cc_spam cfg) = None"
  shows "(\<exists>e. resolve cfg = Err e) \<and>
    (csp_duration (cc_spam cfg) = None \<longrightarrow> resolve cfg = Err (SpamDurationMissing 0 (cst_name (hd ss))))"
proof -
  from normalized_nonempty [OF assms(1)] obtain s ss' where ss: "ss = s # ss'" by (cases ss) auto
  have "\<exists>e. resolve_stage (cc_spam cfg) (0, s) = Err e"
    using assms(2) by (cases "csp_duration (cc_spam cfg)") (auto simp: resolve_stage_def Let_def)
  moreover have "resolve_stage (cc_spam cfg) (0, s) = Err (SpamDurationMissing 0 (cst_name s))"
    if "csp_duration (cc_spam cfg) = None"
    using that by (simp add: resolve_stage_def)
  ultimately show ?thesis
    using assms(1) ss by (auto simp: resolve_def enumerate_simps)
qed

text \<open>
  A scenario with a positive share can end up without any transactions.  In a
  stage with two scenarios, if the rounded rate of the first one is zero it stays
  zero and the last one gets the whole rate, even if the rate is large enough to
  give both at least one: the second pass only takes from entries before the
  last one, and here there is no other.
\<close>

theorem small_share_gets_nothing:
  assumes "resolve_stage spam (idx, stage) = Ok r" and "cst_mix stage = [small, large]"
    and "first_rate (rs_rate r) (f64_sum (map cm_share_pct (cst_mix stage))) small = 0"
  shows "map rm_rate (rs_mix r) = [0, rs_rate r]"
proof -
  from assms(1) have ar: "assign_rates (cst_name stage) (rs_rate r) 0
       (zip (cst_mix stage) (raise_zero_rates (rs_rate r) (cst_mix stage)
          (map (first_rate (rs_rate r) (f64_sum (map cm_share_pct (cst_mix stage)))) (cst_mix stage))))
       = Ok (rs_mix r)" by (rule resolve_stage_Ok)
  have one: "give_one i [0, q] = [0, q]" for i q
    by (simp add: give_one_def max_index_def)
  have "fold give_one is [0, q] = [0, q]" for "is" q
    by (induction "is") (simp_all add: one)
  then have "raise_zero_rates rate mix [0, q] = [0, q]" for rate mix q
    by (simp add: raise_zero_rates_def Let_def)
  with ar [symmetric] assms(2,3) show ?thesis
    by (simp add: mix_entry_def saturating_sub_def saturating_add_def split: if_splits)
qed

section \<open>Instances\<close>

definition demo_mix :: "campaign_mix_entry list" where
  "demo_mix = [\<lparr>cm_scenario = ''small.toml'', cm_share_pct = Fin (1 / 4)\<rparr>,
     \<lparr>cm_scenario = ''large.toml'', cm_share_pct = Fin (511 / 4)\<rparr>]"

definition demo_stage :: campaign_stage where
  "demo_stage = \<lparr>cst_name = ''ramp'', cst_duration = Some 10, cst_rate = Some 100, cst_mix = demo_mix\<rparr>"

definition demo_spam :: "u64 option \<Rightarrow> campaign_spam" where
  "demo_spam default_duration =
     \<lparr>csp_mode = Tps, csp_rate = Some 5, csp_duration = default_duration, csp_seed = None,
      csp_stage_timeout = None, csp_stage = [demo_stage], csp_mix = None\<rparr>"

definition demo_campaign :: "u64 option \<Rightarrow> campaign_config" where
  "demo_campaign default_duration =
     \<lparr>cc_name = ''demo'', cc_description = None, cc_spam = demo_spam default_duration\<rparr>"

lemma demo_mix_sum: "f64_sum (map cm_share_pct demo_mix) = Fin 128"
  using f64_of_rat_exact [of 1 2] f64_of_rat_exact [of 128 0]
  by (simp add: f64_sum_def demo_mix_def)

lemma demo_first_rates: "map (first_rate 100 (Fin 128)) demo_mix = [0, 100]"
proof -
  have fl: "\<lfloor>12839 / 128 :: rat\<rfloor> = 100" by (simp add: floor_eq_iff)
  show ?thesis
    using f64_of_rat_exact [of 1 9] f64_of_rat_exact [of 511 9] f64_of_rat_exact [of 100 0]
      f64_of_rat_exact [of 25 7] f64_of_rat_exact [of 12775 7]
    by (simp add: first_rate_def demo_mix_def f64_of_u64_def round_half_away_def fl)
qed

definition demo_resolved :: resolved_stage where
  "demo_resolved = \<lparr>rs_name = ''ramp'', rs_rate = 100, rs_duration = 10, rs_stage_timeout = None,
     rs_mix = [mix_entry (demo_mix ! 0) 0, mix_entry (demo_mix ! 1) 100]\<rparr>"

lemma demo_resolve_stage: "resolve_stage (demo_spam (Some 60)) (0, demo_stage) = Ok demo_resolved"
proof -
  have "raise_zero_rates 100 demo_mix [0, 100] = [0, 100]"
    by (simp add: raise_zero_rates_def Let_def demo_mix_def give_one_def max_index_def has_share_def)
  moreover have "zip demo_mix [0, 100 :: u64] = [(demo_mix ! 0, 0), (demo_mix ! 1, 100)]"
    by (simp add: demo_mix_def)
  moreover have "\<not> f64_le (Fin 128) f64_epsilon" by (simp add: f64_le_def f64_epsilon_def)
  ultimately show ?thesis
    by (simp add: resolve_stage_def demo_spam_def demo_stage_def demo_mix_sum demo_first_rates Let_def
        demo_resolved_def saturating_sub_def saturating_add_def)
qed

lemma demo_normalized: "normalized_stages (cc_spam (demo_campaign d)) = Ok [demo_stage]"
  by (simp add: normalized_stages_def demo_campaign_def demo_spam_def)

lemma demo_resolve: "resolve (demo_campaign (Some 60)) = Ok [demo_resolved]"
  using demo_normalized [of "Some 60"] demo_resolve_stage
  by (simp add: resolve_def demo_campaign_def enumerate_simps)

theorem resolved_rates_total_witness:
  "resolve (demo_campaign (Some 60)) = Ok [demo_resolved] \<and> stage_resolved demo_stage demo_resolved"
  using resolved_rates_total [OF demo_resolve] demo_resolve by (simp add: demo_normalized)

theorem resolve_requires_defaults_witness:
  "campaign_validate (demo_campaign None) = Ok () \<and> cst_duration demo_stage = Some 10 \<and>
   resolve (demo_campaign None) = Err (SpamDurationMissing 0 ''ramp'')"
proof -
  have none: "csp_duration (cc_spam (demo_campaign None)) = None"
    by (simp add: demo_campaign_def demo_spam_def)
  with resolve_requires_defaults [OF demo_normalized, of None]
  have "resolve (demo_campaign None) = Err (SpamDurationMissing 0 ''ramp'')"
    by (simp add: demo_stage_def)
  moreover have "campaign_validate (demo_campaign None) = Ok ()"
    using demo_normalized [of None]
    by (simp add: campaign_validate_def demo_campaign_def enumerate_simps validate_stage_def demo_stage_def
        demo_mix_def trim_def trim_start_def is_ws_def)
  ultimately show ?thesis by (simp add: demo_stage_def)
qed

theorem small_share_gets_nothing_witness:
  "length (filter has_share demo_mix) = 2 \<and> (2 :: u64) \<le> rs_rate demo_resolved \<and>
   map rm_rate (rs_mix demo_resolved) = [0, 100]"
proof -
  have "cst_mix demo_stage = [demo_mix ! 0, demo_mix ! 1]" by (simp add: demo_stage_def demo_mix_def)
  moreover have "first_rate (rs_rate demo_resolved) (f64_sum (map cm_share_pct (cst_mix demo_stage))) (demo_mix ! 0) = 0"
    using arg_cong [OF demo_first_rates, of hd]
    by (simp add: demo_resolved_def demo_stage_def demo_mix_sum) (simp add: demo_mix_def)
  ultimately have "map rm_rate (rs_mix demo_resolved) = [0, rs_rate demo_resolved]"
    by (rule small_share_gets_nothing [OF demo_resolve_stage])
  then show ?thesis by (simp add: demo_resolved_def demo_mix_def has_share_def)
qed

end
