(* ===== verification/Report_Charts.thy ===== *)
theory Report_Charts
  imports Db_Types
begin

text \<open>
  The charts of a report, \<open>crates/report/src/chart\<close>, and the number formats of
  \<open>crates/report/src/util.rs\<close>.  A chart is built from the transactions of a run
  (or their receipts) and turned into the labels and counts that the page shows.

  A vector index is a \<open>nat\<close> (\<open>usize\<close> has 64 bits) and every counter a \<open>u64\<close> that
  wraps.  A \<open>BTreeMap\<close> is its list of entries in the order of the keys.  The
  allocation of a vector is not bounded here.
\<close>

section \<open>Formats\<close>

text \<open>\<open>{:.1}\<close> of a non-negative number: the exact value rounded to one decimal.\<close>

fun fmt_1 :: "f64 \<Rightarrow> string" where
  "fmt_1 (Fin x) = (let n = nat (round_half_even (x * 10)) in show_nat (n div 10) @ ''.'' @ show_nat (n mod 10))"
| "fmt_1 PInf = ''inf''"
| "fmt_1 NInf = ''-inf''"
| "fmt_1 NaN = ''NaN''"

definition abbreviate_num :: "u64 \<Rightarrow> string" where
  "abbreviate_num num =
     (if 1000000 \<le> num then fmt_1 (f64_div (f64_of_u64 num) (Fin 1000000)) @ ''M''
      else if 1000 \<le> num then show_nat (unat (num div 1000)) @ ''k''
      else show_nat (unat num))"

definition mean :: "u64 list \<Rightarrow> f64 option" where
  "mean data =
     (if length data > 0
      then Some (f64_div (f64_sum (map f64_of_u64 data)) (f64_of_rat (of_nat (length data))))
      else None)"

text \<open>The square root of a finite non-negative number, correctly rounded.\<close>

fun isqrt :: "nat \<Rightarrow> nat" where
  "isqrt n = (if n = 0 then 0 else let s = 2 * isqrt (n div 4) in if (s + 1) * (s + 1) \<le> n then s + 1 else s)"

declare isqrt.simps [simp del]

fun f64_sqrt :: "f64 \<Rightarrow> f64" where
  "f64_sqrt (Fin x) =
     (if x = 0 then Fin 0 else if x < 0 then NaN
      else let e = max (ilog2 x div 2 - 52) (- 1074); y = x / pow2 (2 * e); r = isqrt (nat \<lfloor>y\<rfloor>)
           in Fin (of_nat (if (of_nat r + 1 / 2) * (of_nat r + 1 / 2) \<le> y then r + 1 else r) * pow2 e))"
| "f64_sqrt PInf = PInf"
| "f64_sqrt NInf = NaN"
| "f64_sqrt NaN = NaN"

definition std_deviation :: "u64 list \<Rightarrow> f64 option" where
  "std_deviation data =
     (case mean data of
        None \<Rightarrow> None
      | Some data_mean \<Rightarrow>
          let squares = map (\<lambda>v. let diff = f64_sub data_mean (f64_of_u64 v) in f64_mul diff diff) data
          in Some (f64_sqrt (f64_div (f64_sum squares) (f64_of_rat (of_nat (length data))))))"

section \<open>Growing histograms\<close>

text \<open>\<open>Vec::resize\<close>, used to grow.\<close>

definition grow :: "'a list \<Rightarrow> nat \<Rightarrow> 'a \<Rightarrow> 'a list" where
  "grow xs n v = xs @ replicate (n - length xs) v"

record hist =
  hi_buckets :: "string list"
  hi_counts :: "u64 list"
  hi_max_count :: u64

definition hist_empty :: hist where
  "hist_empty = \<lparr>hi_buckets = [], hi_counts = [], hi_max_count = 0\<rparr>"

definition hist_add :: "string \<Rightarrow> (nat \<Rightarrow> string) \<Rightarrow> hist \<Rightarrow> nat \<Rightarrow> hist" where
  "hist_add pad label h bucket_index =
     (let buckets = (if length (hi_buckets h) \<le> bucket_index
                     then grow (hi_buckets h) (bucket_index + 1) pad else hi_buckets h);
          counts = (if length (hi_buckets h) \<le> bucket_index
                    then grow (hi_counts h) (bucket_index + 1) 0 else hi_counts h);
          n = counts ! bucket_index + 1
      in \<lparr>hi_buckets = buckets[bucket_index := label bucket_index],
          hi_counts = counts[bucket_index := n],
          hi_max_count = (if hi_max_count h < n then n else hi_max_count h)\<rparr>)"

definition keep_cells :: "(string \<Rightarrow> u64 \<Rightarrow> bool) \<Rightarrow> hist \<Rightarrow> hist" where
  "keep_cells keep h =
     (let cells = filter (\<lambda>(b, c). keep b c) (zip (hi_buckets h) (hi_counts h))
      in h\<lparr>hi_buckets := map fst cells, hi_counts := map snd cells\<rparr>)"

subsection \<open>Time to inclusion\<close>

record time_to_inclusion_chart =
  ti_inclusion_times_ms :: "u64 list"
  ti_bucket_size_ms :: u64

definition inclusion_time :: "run_tx \<Rightarrow> u64 option" where
  "inclusion_time tx =
     (case rt_end_timestamp_ms tx of
        None \<Rightarrow> None
      | Some end_ms \<Rightarrow>
          let dumb_base = (if end_ms < rt_start_timestamp_ms tx then rt_start_timestamp_ms tx - end_ms else 0)
          in Some (end_ms + dumb_base - rt_start_timestamp_ms tx))"

definition time_to_inclusion_new :: "run_tx list \<Rightarrow> u64 \<Rightarrow> time_to_inclusion_chart" where
  "time_to_inclusion_new run_txs bucket_size_ms =
     \<lparr>ti_inclusion_times_ms = List.map_filter inclusion_time run_txs, ti_bucket_size_ms = bucket_size_ms\<rparr>"

definition range_label :: "u64 \<Rightarrow> u64 \<Rightarrow> string \<Rightarrow> string" where
  "range_label lo hi unit_text = show_nat (unat lo) @ '' - '' @ show_nat (unat hi) @ '' '' @ unit_text"

definition tti_label :: "u64 \<Rightarrow> nat \<Rightarrow> string" where
  "tti_label bucket_size i =
     (let start_ms = word_of_nat i * bucket_size; end_ms = start_ms + bucket_size
      in if bucket_size mod 1000 = 0 then range_label (start_ms div 1000) (end_ms div 1000) ''s''
         else range_label start_ms end_ms ''ms'')"

definition tti_step :: "u64 \<Rightarrow> hist \<Rightarrow> u64 \<Rightarrow> (hist, 'e) rresult" where
  "tti_step bucket_size h tti_ms =
     (if bucket_size = 0 then Panic else Ok (hist_add [] (tti_label bucket_size) h (unat (tti_ms div bucket_size))))"

definition time_to_inclusion_data :: "time_to_inclusion_chart \<Rightarrow> (hist, 'e) rresult" where
  "time_to_inclusion_data c =
     rmap (keep_cells (\<lambda>bucket count. bucket \<noteq> [] \<and> 0 < count))
       (rfoldl (tti_step (ti_bucket_size_ms c)) hist_empty (ti_inclusion_times_ms c))"

subsection \<open>Time to flashblock inclusion\<close>

definition flashblock_tti_new :: "run_tx list \<Rightarrow> u64 list option" where
  "flashblock_tti_new run_txs =
     (let latencies = List.map_filter rt_flashblock_latency_ms run_txs
      in if latencies = [] then None else Some latencies)"

definition fb_label :: "nat \<Rightarrow> string" where
  "fb_label i = range_label (word_of_nat i * 100) (word_of_nat i * 100 + 100) ''ms''"

fun first_index :: "('a \<Rightarrow> bool) \<Rightarrow> 'a list \<Rightarrow> nat option" where
  "first_index p [] = None"
| "first_index p (x # xs) = (if p x then Some 0 else map_option Suc (first_index p xs))"

definition last_index :: "('a \<Rightarrow> bool) \<Rightarrow> 'a list \<Rightarrow> nat option" where
  "last_index p xs = map_option (\<lambda>i. length xs - 1 - i) (first_index p (rev xs))"

definition label_gaps :: "nat \<Rightarrow> nat \<Rightarrow> string list \<Rightarrow> string list" where
  "label_gaps lo hi buckets =
     map (\<lambda>(i, b). if lo \<le> i \<and> i \<le> hi \<and> b = [] then fb_label i else b)
       (enumerate 0 buckets)"

definition flashblock_tti_data :: "u64 list \<Rightarrow> hist" where
  "flashblock_tti_data latencies =
     (let h = foldl (\<lambda>h latency. hist_add [] fb_label h (unat (latency div 100))) hist_empty latencies
      in case (first_index (\<lambda>c. 0 < c) (hi_counts h), last_index (\<lambda>c. 0 < c) (hi_counts h)) of
           (Some lo, Some hi) \<Rightarrow>
             h\<lparr>hi_buckets := take (hi + 1 - lo) (drop lo (label_gaps lo hi (hi_buckets h))),
               hi_counts := take (hi + 1 - lo) (drop lo (hi_counts h))\<rparr>
         | _ \<Rightarrow> h)"

subsection \<open>Flashblock index\<close>

definition flashblock_index_new :: "run_tx list \<Rightarrow> u64 list option" where
  "flashblock_index_new run_txs =
     (let indices = List.map_filter rt_flashblock_index run_txs
      in if indices = [] then None else Some indices)"

definition max_or_zero :: "u64 list \<Rightarrow> u64" where
  "max_or_zero xs = foldl max 0 xs"

definition flashblock_index_data :: "u64 list \<Rightarrow> hist" where
  "flashblock_index_data indices =
     (let max_index = unat (max_or_zero indices);
          counts = foldl (\<lambda>cs i. cs[unat i := cs ! unat i + 1]) (replicate (max_index + 1) 0) indices
      in \<lparr>hi_buckets = map show_nat [0..<max_index + 1], hi_counts = counts,
          hi_max_count = max_or_zero counts\<rparr>)"

subsection \<open>Gas used per transaction\<close>

definition gas_bucket :: "u64 \<Rightarrow> u64 \<Rightarrow> nat" where
  "gas_bucket width gas = unat ((gas + (width - gas mod width)) div width)"

definition gas_label :: "u64 \<Rightarrow> nat \<Rightarrow> string" where
  "gas_label width i =
     abbreviate_num (word_of_nat i * width) @ '' - '' @ abbreviate_num (word_of_nat (i + 1) * width)"

definition gas_step :: "u64 \<Rightarrow> hist \<Rightarrow> u64 \<Rightarrow> (hist, 'e) rresult" where
  "gas_step width h gas =
     (if width = 0 then Panic else Ok (hist_add ''0'' (gas_label width) h (gas_bucket width gas)))"

definition tx_gas_used_data :: "u64 list \<Rightarrow> u64 \<Rightarrow> (hist, 'e) rresult" where
  "tx_gas_used_data gas_used width =
     rmap (keep_cells (\<lambda>_ count. count \<noteq> 0)) (rfoldl (gas_step width) hist_empty gas_used)"

section \<open>Ordered maps\<close>

fun bt_insert :: "'k::linorder \<Rightarrow> 'v \<Rightarrow> ('k \<times> 'v) list \<Rightarrow> ('k \<times> 'v) list" where
  "bt_insert k v [] = [(k, v)]"
| "bt_insert k v ((k', v') # m) =
     (if k < k' then (k, v) # (k', v') # m
      else if k = k' then (k, v) # m
      else (k', v') # bt_insert k v m)"

definition bt_collect :: "('k::linorder \<times> 'v) list \<Rightarrow> ('k \<times> 'v) list" where
  "bt_collect kvs = foldl (\<lambda>m (k, v). bt_insert k v m) [] kvs"

subsection \<open>Pending transactions\<close>

definition second_bounds :: "run_tx list \<Rightarrow> u64 \<times> u64" where
  "second_bounds run_txs =
     foldl (\<lambda>(lo, hi) tx.
       (min lo (rt_start_timestamp_ms tx div 1000),
        max hi ((case rt_end_timestamp_ms tx of Some e \<Rightarrow> e | None \<Rightarrow> 0) div 1000))) (- 1, 0) run_txs"

definition pending_at :: "run_tx list \<Rightarrow> u64 \<Rightarrow> u64" where
  "pending_at run_txs t =
     (let t_ms = t * 1000; t_ms_end = t_ms + 1000
      in word_of_nat (length (filter (\<lambda>tx.
           rt_start_timestamp_ms tx < t_ms_end \<and>
           t_ms < (case rt_end_timestamp_ms tx of Some e \<Rightarrow> e | None \<Rightarrow> - 1)) run_txs)))"

definition pending_txs_new :: "run_tx list \<Rightarrow> (u64 \<times> u64) list" where
  "pending_txs_new run_txs =
     (case second_bounds run_txs of (lo, hi) \<Rightarrow>
        foldl (\<lambda>m t. bt_insert t (pending_at run_txs t) m) []
          (map word_of_nat [unat (saturating_sub lo 1)..<unat (hi + 1)]))"

record pending_txs_data =
  pd_timestamps :: "u64 list"
  pd_pending_txs :: "u64 list"

definition pending_txs_echart :: "(u64 \<times> u64) list \<Rightarrow> pending_txs_data" where
  "pending_txs_echart m =
     foldl (\<lambda>d (t, c). \<lparr>pd_timestamps = pd_timestamps d @ [t], pd_pending_txs = pd_pending_txs d @ [c]\<rparr>)
       \<lparr>pd_timestamps = [], pd_pending_txs = []\<rparr> m"

subsection \<open>Gas per block\<close>

record block_header =
  bh_number :: u64
  bh_gas_used :: u64
  bh_gas_limit :: u64
  bh_timestamp :: u64
  bh_tx_hashes :: "tx_hash list"

record gas_per_block_data =
  gb_blocks :: "u64 list"
  gb_gas_used :: "u64 list"
  gb_max_gas_used :: u64

definition gas_per_block_new :: "block_header list \<Rightarrow> (u64 \<times> u64) list" where
  "gas_per_block_new blocks = bt_collect (map (\<lambda>b. (bh_number b, bh_gas_used b)) blocks)"

definition gas_per_block_echart :: "(u64 \<times> u64) list \<Rightarrow> gas_per_block_data" where
  "gas_per_block_echart m =
     \<lparr>gb_blocks = map fst m, gb_gas_used = map snd m, gb_max_gas_used = max_or_zero (map snd m)\<rparr>"

section \<open>RPC latency\<close>

text \<open>
  \<open>Display\<close> of a non-negative number: the shortest digits that read back as the same number,
  and among those the nearest; without an exponent.
\<close>

fun ilog10_up :: "nat \<Rightarrow> nat" where
  "ilog10_up n = (if n < 10 then 0 else Suc (ilog10_up (n div 10)))"

declare ilog10_up.simps [simp del]

definition pow10 :: "int \<Rightarrow> rat" where
  "pow10 e = (if 0 \<le> e then 10 ^ nat e else 1 / 10 ^ nat (- e))"

definition ilog10 :: "rat \<Rightarrow> int" where
  "ilog10 x =
     (if 1 \<le> x then int (ilog10_up (nat \<lfloor>x\<rfloor>)) else - int (Suc (ilog10_up (nat (\<lceil>1 / x\<rceil> - 1)))))"

definition candidates :: "rat \<Rightarrow> int \<Rightarrow> int list" where
  "candidates x s =
     (let y = x * pow10 s; lo = \<lfloor>y\<rfloor>; hi = \<lceil>y\<rceil>;
          ms = (if y - of_int lo \<le> of_int hi - y then [lo, hi] else [hi, lo])
      in filter (\<lambda>m. f64_of_rat (of_int m * pow10 (- s)) = Fin x) ms)"

fun shortest :: "nat \<Rightarrow> rat \<Rightarrow> int \<Rightarrow> int \<times> int" where
  "shortest 0 x s = (\<lfloor>x * pow10 s\<rfloor>, s)"
| "shortest (Suc n) x s = (case candidates x s of m # _ \<Rightarrow> (m, s) | [] \<Rightarrow> shortest n x (s + 1))"

definition show_decimal :: "int \<Rightarrow> int \<Rightarrow> string" where
  "show_decimal m s =
     (if s \<le> 0 then show_nat (nat m * 10 ^ nat (- s))
      else let p = 10 ^ nat s; frac = show_nat (nat m mod p)
           in show_nat (nat m div p) @ ''.'' @ replicate (nat s - length frac) (CHR ''0'') @ frac)"

fun f64_display :: "f64 \<Rightarrow> string" where
  "f64_display (Fin x) =
     (if x = 0 then ''0'' else case shortest 17 x (- ilog10 x) of (m, s) \<Rightarrow> show_decimal m s)"
| "f64_display PInf = ''inf''"
| "f64_display NInf = ''-inf''"
| "f64_display NaN = ''NaN''"

record latency_quantiles =
  lq_p50 :: f64
  lq_p90 :: f64
  lq_p99 :: f64

record latency_data =
  ld_buckets :: "string list"
  ld_counts :: "u64 list"
  ld_quantiles :: latency_quantiles

definition latency_labels :: "bucket list \<Rightarrow> string list" where
  "latency_labels buckets =
     map (\<lambda>(lower, b). f64_display (f64_mul lower (Fin 1000)) @ '' - '' @
                       f64_display (f64_mul (upper_bound b) (Fin 1000)))
       (zip (Fin 0 # map upper_bound buckets) buckets)"

definition latency_counts :: "bucket list \<Rightarrow> u64 list" where
  "latency_counts buckets =
     map (\<lambda>(before, b). cumulative_count b - before) (zip (0 # map cumulative_count buckets) buckets)"

definition latency_echart :: "bucket list \<Rightarrow> latency_data" where
  "latency_echart buckets =
     \<lparr>ld_buckets = latency_labels buckets, ld_counts = latency_counts buckets,
      ld_quantiles =
        \<lparr>lq_p50 = f64_mul (estimate_quantile buckets (f64_of_rat (5 / 10))) (Fin 1000),
         lq_p90 = f64_mul (estimate_quantile buckets (f64_of_rat (9 / 10))) (Fin 1000),
         lq_p99 = f64_mul (estimate_quantile buckets (f64_of_rat (99 / 100))) (Fin 1000)\<rparr>\<rparr>"

section \<open>Lemmas: the histogram built by growing is the counting histogram\<close>

definition hist_width :: "nat list \<Rightarrow> nat" where
  "hist_width idxs = foldr (\<lambda>i n. max (Suc i) n) idxs 0"

definition peak_count :: "nat list \<Rightarrow> nat" where
  "peak_count idxs = Max (insert 0 (count_list idxs ` set idxs))"

definition hist_ref :: "string \<Rightarrow> (nat \<Rightarrow> string) \<Rightarrow> nat list \<Rightarrow> hist" where
  "hist_ref pad label idxs =
     \<lparr>hi_buckets = map (\<lambda>i. if i \<in> set idxs then label i else pad) [0..<hist_width idxs],
      hi_counts = map (\<lambda>i. word_of_nat (count_list idxs i)) [0..<hist_width idxs],
      hi_max_count = word_of_nat (peak_count idxs)\<rparr>"

lemma hist_width_snoc: "hist_width (xs @ [x]) = max (hist_width xs) (Suc x)"
proof -
  have "foldr (\<lambda>i n. max (Suc i) n) xs m = max (foldr (\<lambda>i n. max (Suc i) n) xs 0) m" for m
    by (induction xs) (auto simp: max.assoc)
  from this [of "Suc x"] show ?thesis by (simp add: hist_width_def)
qed

lemma less_hist_width: "i \<in> set xs \<Longrightarrow> i < hist_width xs"
  by (induction xs) (auto simp: hist_width_def)

lemma count_list_snoc: "count_list (xs @ [x]) i = count_list xs i + (if i = x then 1 else 0)"
  by (induction xs) auto

lemma count_list_le_length: "count_list xs i \<le> length xs"
  by (induction xs) auto

lemma peak_count_le: "peak_count xs \<le> length xs"
  unfolding peak_count_def using count_list_le_length by (subst Max_le_iff) auto

lemma peak_count_snoc: "peak_count (xs @ [x]) = max (peak_count xs) (count_list xs x + 1)"
proof (rule antisym)
  have "count_list (xs @ [x]) i \<le> max (peak_count xs) (count_list xs x + 1)" if "i \<in> set xs \<or> i = x" for i
  proof (cases "i = x")
    case False
    with that have "count_list xs i \<le> peak_count xs" unfolding peak_count_def by (intro Max_ge) auto
    with False show ?thesis by (simp add: count_list_snoc)
  qed (simp add: count_list_snoc)
  then show "peak_count (xs @ [x]) \<le> max (peak_count xs) (count_list xs x + 1)"
    unfolding peak_count_def [of "xs @ [x]"] by (subst Max_le_iff) auto
  have up: "count_list (xs @ [x]) i \<le> peak_count (xs @ [x])" if "i \<in> set xs \<or> i = x" for i
    unfolding peak_count_def using that by (intro Max_ge) auto
  have "count_list xs i \<le> peak_count (xs @ [x])" if "i \<in> set xs" for i
    using up [of i] that by (simp add: count_list_snoc)
  then have "peak_count xs \<le> peak_count (xs @ [x])" unfolding peak_count_def [of xs] by (subst Max_le_iff) auto
  with up [of x] show "max (peak_count xs) (count_list xs x + 1) \<le> peak_count (xs @ [x])"
    by (simp add: count_list_snoc)
qed

lemma count_list_0: "i \<notin> set xs \<Longrightarrow> count_list xs i = 0"
  by (simp add: count_list_0_iff)

lemma less_word_of_nat:
  "m < 2 ^ 64 \<Longrightarrow> n < 2 ^ 64 \<Longrightarrow> (word_of_nat m :: u64) < word_of_nat n \<longleftrightarrow> m < n"
  by (simp add: word_less_nat_alt unat_of_nat)

lemma hist_add_ref:
  assumes "length xs + 1 < 2 ^ 64"
  shows "hist_add pad label (hist_ref pad label xs) x = hist_ref pad label (xs @ [x])"
proof -
  let ?n = "hist_width xs" and ?h = "hist_ref pad label xs"
  let ?bs = "if ?n \<le> x then grow (hi_buckets ?h) (x + 1) pad else hi_buckets ?h"
  let ?cs = "if ?n \<le> x then grow (hi_counts ?h) (x + 1) 0 else hi_counts ?h"
  have len: "length ?bs = max ?n (Suc x)" "length ?cs = max ?n (Suc x)"
    by (auto simp: grow_def hist_ref_def max_def)
  have bs: "?bs ! i = (if i \<in> set xs then label i else pad)" if "i < max ?n (Suc x)" for i
    using that less_hist_width [of i xs] by (auto simp: grow_def hist_ref_def nth_append)
  have cs: "?cs ! i = word_of_nat (count_list xs i)" if "i < max ?n (Suc x)" for i
    using that less_hist_width [of i xs]
    by (cases "i \<in> set xs") (auto simp: grow_def hist_ref_def nth_append count_list_0)
  have n: "?cs ! x + 1 = word_of_nat (count_list xs x + 1)" by (simp add: cs)
  have "count_list xs x + 1 < 2 ^ 64" "peak_count xs < 2 ^ 64"
    using assms count_list_le_length [of xs x] peak_count_le [of xs] by linarith+
  then have m: "(if (word_of_nat (peak_count xs) :: u64) < word_of_nat (count_list xs x + 1)
      then word_of_nat (count_list xs x + 1) else word_of_nat (peak_count xs)) = (word_of_nat (peak_count (xs @ [x])) :: u64)"
    using less_word_of_nat [of "peak_count xs" "count_list xs x + 1"] by (simp add: peak_count_snoc max_def)
  have b: "?bs[x := label x] = hi_buckets (hist_ref pad label (xs @ [x]))"
    by (rule nth_equalityI) (auto simp: len bs hist_width_snoc hist_ref_def nth_list_update simp del: upt_Suc)
  have c: "?cs[x := ?cs ! x + 1] = hi_counts (hist_ref pad label (xs @ [x]))"
    unfolding n by (rule nth_equalityI)
      (auto simp: len cs hist_width_snoc hist_ref_def nth_list_update count_list_snoc simp del: upt_Suc)
  have same: "length (hi_buckets ?h) = ?n" "hi_max_count ?h = word_of_nat (peak_count xs)"
    by (simp_all add: hist_ref_def)
  have "hist_add pad label ?h x = \<lparr>hi_buckets = ?bs[x := label x], hi_counts = ?cs[x := ?cs ! x + 1],
      hi_max_count = (if hi_max_count ?h < ?cs ! x + 1 then ?cs ! x + 1 else hi_max_count ?h)\<rparr>"
    by (simp only: hist_add_def Let_def same(1))
  also have "\<dots> = hist_ref pad label (xs @ [x])"
    unfolding b c unfolding n unfolding same(2) m by (simp add: hist_ref_def)
  finally show ?thesis .
qed

lemma hist_fold_ref:
  "length xs < 2 ^ 64 \<Longrightarrow> foldl (hist_add pad label) hist_empty xs = hist_ref pad label xs"
proof (induction xs rule: rev_induct)
  case Nil
  then show ?case by (simp add: hist_empty_def hist_ref_def hist_width_def peak_count_def)
next
  case (snoc x xs)
  then show ?case by (simp add: hist_add_ref)
qed

text \<open>The cells that remain when the empty ones are dropped: the indices that occur, in order.\<close>

lemma occurring_indices: "filter (\<lambda>i. i \<in> set xs) [0..<hist_width xs] = sorted_list_of_set (set xs)"
proof (rule sorted_distinct_set_unique)
  show "set (filter (\<lambda>i. i \<in> set xs) [0..<hist_width xs]) = set (sorted_list_of_set (set xs))"
    using less_hist_width by auto
qed (simp_all add: sorted_wrt_filter)

lemma word_count_pos:
  "length xs < 2 ^ 64 \<Longrightarrow> (0 < (word_of_nat (count_list xs i) :: u64)) \<longleftrightarrow> i \<in> set xs"
proof -
  assume "length xs < 2 ^ 64"
  then have "count_list xs i < 2 ^ 64" using count_list_le_length [of xs i] by linarith
  then have "(0 :: u64) < word_of_nat (count_list xs i) \<longleftrightarrow> 0 < count_list xs i"
    using less_word_of_nat [of 0 "count_list xs i"] by simp
  also have "\<dots> \<longleftrightarrow> i \<in> set xs" using count_list_0_iff [of xs i] by auto
  finally show ?thesis .
qed

lemma unat_count:
  "length xs < 2 ^ 64 \<Longrightarrow> unat (word_of_nat (count_list xs i) :: u64) = count_list xs i"
  using count_list_le_length [of xs i] by (simp add: unat_of_nat)

definition counted :: "(nat \<Rightarrow> string) \<Rightarrow> nat list \<Rightarrow> hist" where
  "counted label idxs =
     (let cells = sorted_list_of_set (set idxs)
      in \<lparr>hi_buckets = map label cells, hi_counts = map (\<lambda>i. word_of_nat (count_list idxs i)) cells,
          hi_max_count = word_of_nat (peak_count idxs)\<rparr>)"

lemma keep_cells_ref:
  assumes "length xs < 2 ^ 64" and "\<And>i. i \<in> set xs \<Longrightarrow> keep (label i) (word_of_nat (count_list xs i))"
    and "\<And>b. \<not> keep b 0"
  shows "keep_cells keep (hist_ref pad label xs) = counted label xs"
proof -
  let ?cell = "\<lambda>i. (if i \<in> set xs then label i else pad, word_of_nat (count_list xs i) :: u64)"
  have "(case ?cell i of (b, c) \<Rightarrow> keep b c) \<longleftrightarrow> i \<in> set xs" for i
    using assms(2,3) by (cases "i \<in> set xs") (auto simp: count_list_0)
  then have "filter (\<lambda>(b, c). keep b c) (map ?cell [0..<hist_width xs])
      = map ?cell (filter (\<lambda>i. i \<in> set xs) [0..<hist_width xs])"
    by (simp add: filter_map comp_def)
  then have cells: "filter (\<lambda>(b, c). keep b c) (map ?cell [0..<hist_width xs])
      = map ?cell (sorted_list_of_set (set xs))" by (simp only: occurring_indices)
  have zip: "zip (hi_buckets (hist_ref pad label xs)) (hi_counts (hist_ref pad label xs))
      = map ?cell [0..<hist_width xs]"
    by (simp add: hist_ref_def zip_map_map zip_same_conv_map)
  show ?thesis
    unfolding keep_cells_def zip cells Let_def by (simp add: hist_ref_def counted_def comp_def Let_def)
qed

lemma keep_positive:
  assumes "length xs < 2 ^ 64"
  shows "(\<And>i. label i \<noteq> []) \<Longrightarrow>
      keep_cells (\<lambda>bucket count. bucket \<noteq> [] \<and> 0 < count) (hist_ref pad label xs) = counted label xs"
    and "keep_cells (\<lambda>_ count. count \<noteq> 0) (hist_ref pad label xs) = counted label xs"
  using word_count_pos [OF assms] by (auto intro!: keep_cells_ref [OF assms] simp: word_gt_0)

lemma rfoldl_total: "(\<And>s x. f s x = Ok (g s x)) \<Longrightarrow> rfoldl f s xs = Ok (foldl g s xs)"
  by (induction xs arbitrary: s) auto

lemma foldl_index: "foldl (\<lambda>h x. f h (k x)) h xs = foldl f h (map k xs)"
  by (induction xs arbitrary: h) auto

lemma range_label_nonempty [simp]: "range_label lo hi u \<noteq> []"
  by (simp add: range_label_def)

lemma tti_label_nonempty [simp]: "tti_label s i \<noteq> []"
  by (simp add: tti_label_def Let_def)

lemma sum_counts: "(\<Sum>i\<leftarrow>sorted_list_of_set (set xs). count_list xs i) = length xs"
proof -
  have "(\<Sum>i\<leftarrow>sorted_list_of_set (set xs). count_list xs i) = (\<Sum>i\<in>set xs. count_list xs i)"
    by (simp add: sum_list_distinct_conv_sum_set)
  then show ?thesis by (simp add: sum_count_set)
qed

lemma time_to_inclusion_counted:
  assumes "bucket_size \<noteq> 0" and "length (List.map_filter inclusion_time txs) < 2 ^ 64"
  shows "time_to_inclusion_data (time_to_inclusion_new txs bucket_size)
    = (Ok (counted (tti_label bucket_size)
        (map (\<lambda>t. unat (t div bucket_size)) (List.map_filter inclusion_time txs))) :: (hist, 'e) rresult)"
proof -
  let ?ts = "List.map_filter inclusion_time txs" and ?k = "\<lambda>t. unat (t div bucket_size)"
  have "rfoldl (tti_step bucket_size) hist_empty ?ts
      = (Ok (foldl (\<lambda>h t. hist_add [] (tti_label bucket_size) h (?k t)) hist_empty ?ts) :: (hist, 'e) rresult)"
    using assms(1) by (intro rfoldl_total) (simp add: tti_step_def)
  also have "\<dots> = Ok (hist_ref [] (tti_label bucket_size) (map ?k ?ts))"
    using assms(2)
    by (simp add: foldl_index [where k = ?k] hist_fold_ref)
  finally show ?thesis
    using assms(2) by (simp add: time_to_inclusion_data_def time_to_inclusion_new_def keep_positive)
qed

lemma count_list_map: "count_list (map k ts) i = length (filter (\<lambda>t. k t = i) ts)"
  by (induction ts) auto

lemma length_map_filter: "length (List.map_filter f xs) = length (filter (\<lambda>x. f x \<noteq> None) xs)"
  by (induction xs) (auto simp: List.map_filter_def)

lemma hi_buckets_counted: "hi_buckets (counted label xs) = map label (sorted_list_of_set (set xs))"
  by (simp add: counted_def Let_def)

lemma counted_facts:
  assumes "length xs < 2 ^ 64"
  shows "map unat (hi_counts (counted label xs)) = map (count_list xs) (sorted_list_of_set (set xs))"
    and "sum_list (map unat (hi_counts (counted label xs))) = length xs"
    and "unat (hi_max_count (counted label xs)) = Max (insert 0 (set (map unat (hi_counts (counted label xs)))))"
proof -
  show cs: "map unat (hi_counts (counted label xs)) = map (count_list xs) (sorted_list_of_set (set xs))"
    using unat_count [OF assms] by (simp add: counted_def Let_def)
  show "sum_list (map unat (hi_counts (counted label xs))) = length xs"
    unfolding cs by (rule sum_counts)
  have "peak_count xs < 2 ^ 64" using peak_count_le [of xs] assms by linarith
  then have "unat (hi_max_count (counted label xs)) = peak_count xs"
    by (simp add: counted_def Let_def unat_of_nat)
  then show "unat (hi_max_count (counted label xs)) = Max (insert 0 (set (map unat (hi_counts (counted label xs)))))"
    unfolding cs by (simp add: peak_count_def)
qed

section \<open>Properties of the histograms\<close>

lemma inclusion_time_eq:
  "inclusion_time tx = map_option (\<lambda>e. if e < rt_start_timestamp_ms tx then 0 else e - rt_start_timestamp_ms tx)
     (rt_end_timestamp_ms tx)"
  by (auto simp: inclusion_time_def Let_def split: option.splits)

text \<open>
  C31. The time-to-inclusion chart is the histogram of the landed transactions: for
  a non-zero bucket size, the buckets shown are exactly those that contain a
  transaction, in increasing order and with their range as label; each count is
  the number of transactions whose inclusion time (zero when the clocks
  disagree) falls into that range; the counts add up to the landed
  transactions, and the maximum is the largest of them.
\<close>

theorem time_to_inclusion_histogram:
  assumes "bucket_size \<noteq> 0" and "length txs < 2 ^ 64"
  shows "\<exists>h. time_to_inclusion_data (time_to_inclusion_new txs bucket_size) = (Ok h :: (hist, unit) rresult) \<and>
    (let times = List.map_filter inclusion_time txs;
         cells = sorted_list_of_set (set (map (\<lambda>t. unat t div unat bucket_size) times))
     in hi_buckets h = map (tti_label bucket_size) cells \<and>
        map unat (hi_counts h) = map (\<lambda>i. length (filter (\<lambda>t. unat t div unat bucket_size = i) times)) cells) \<and>
    sum_list (map unat (hi_counts h)) = length (filter (\<lambda>tx. rt_end_timestamp_ms tx \<noteq> None) txs) \<and>
    unat (hi_max_count h) = Max (insert 0 (set (map unat (hi_counts h))))"
proof -
  let ?ts = "List.map_filter inclusion_time txs"
  let ?xs = "map (\<lambda>t. unat t div unat bucket_size) ?ts"
  have landed: "length ?ts = length (filter (\<lambda>tx. rt_end_timestamp_ms tx \<noteq> None) txs)"
    by (simp add: length_map_filter inclusion_time_eq)
  also have "\<dots> < 2 ^ 64" using assms(2) length_filter_le [of _ txs] by (rule le_less_trans [rotated])
  finally have short: "length ?ts < 2 ^ 64" .
  then have len: "length ?xs < 2 ^ 64" by simp
  from time_to_inclusion_counted [OF assms(1) short]
  have "time_to_inclusion_data (time_to_inclusion_new txs bucket_size)
      = (Ok (counted (tti_label bucket_size) ?xs) :: (hist, unit) rresult)" by (simp add: unat_div_distrib)
  then show ?thesis
    using counted_facts [OF len, of "tti_label bucket_size"] landed
    by (simp add: hi_buckets_counted count_list_map Let_def del: set_map)
qed

theorem time_to_inclusion_histogram_witness:
  "\<exists>h. time_to_inclusion_data (time_to_inclusion_new [] 100) = (Ok h :: (hist, unit) rresult) \<and>
     sum_list (map unat (hi_counts h)) = 0"
  using time_to_inclusion_histogram [of 100 "[]"] by auto

text \<open>
  The gas chart shows every transaction in the wrong bucket: the gas is rounded up
  to the next multiple of the width before it is divided, so that a transaction
  is counted one bucket above its own, under a label whose lower end is already
  above the gas it used.
\<close>

theorem tx_gas_used_shifted:
  assumes "width \<noteq> 0" and "\<And>g. g \<in> set gas_used \<Longrightarrow> unat g + unat width < 2 ^ 64"
    and "length gas_used < 2 ^ 64"
  shows "tx_gas_used_data gas_used width
      = (Ok (counted (gas_label width) (map (\<lambda>g. unat g div unat width + 1) gas_used)) :: (hist, unit) rresult)
    \<and> (\<forall>g \<in> set gas_used. unat g < (unat g div unat width + 1) * unat width)"
proof
  have w: "0 < unat width" using assms(1) by (simp add: unat_gt_0)
  have idx: "gas_bucket width g = unat g div unat width + 1" if "g \<in> set gas_used" for g
  proof -
    have "unat (g mod width) < unat width" using w by (simp add: unat_mod_distrib)
    then have d: "unat (width - g mod width) = unat width - unat g mod unat width"
      by (simp add: unat_sub_if' unat_mod_distrib)
    have "unat (g + (width - g mod width)) = unat g + (unat width - unat g mod unat width)"
      using assms(2) [OF that] by (subst unat_add_lem [THEN iffD1]) (simp_all add: d)
    also have "\<dots> = (unat g div unat width + 1) * unat width"
      unfolding add_mult_distrib mult_1
      using div_mult_mod_eq [of "unat g" "unat width"] mod_less_divisor [OF w, of "unat g"] by linarith
    finally show ?thesis using w by (simp add: gas_bucket_def unat_div_distrib)
  qed
  let ?xs = "map (\<lambda>g. unat g div unat width + 1) gas_used"
  have xs: "map (gas_bucket width) gas_used = ?xs" by (rule map_cong [OF refl]) (rule idx)
  have "rfoldl (gas_step width) hist_empty gas_used
      = (Ok (foldl (\<lambda>h g. hist_add ''0'' (gas_label width) h (gas_bucket width g)) hist_empty gas_used)
          :: (hist, unit) rresult)"
    using assms(1) by (intro rfoldl_total) (simp add: gas_step_def)
  also have "\<dots> = Ok (hist_ref ''0'' (gas_label width) ?xs)"
    unfolding foldl_index [where k = "gas_bucket width"] xs using assms(3) by (subst hist_fold_ref) simp_all
  finally show "tx_gas_used_data gas_used width = (Ok (counted (gas_label width) ?xs) :: (hist, unit) rresult)"
    using assms(3) by (simp add: tx_gas_used_data_def keep_positive)
  show "\<forall>g \<in> set gas_used. unat g < (unat g div unat width + 1) * unat width"
    using w by (metis dividend_less_div_times add.commute mult.commute Suc_eq_plus1 div_less_iff_less_mult lessI)
qed

theorem tx_gas_used_shifted_witness:
  "tx_gas_used_data [21000] 4000
    = (Ok \<lparr>hi_buckets = [''24k - 28k''], hi_counts = [1], hi_max_count = 1\<rparr> :: (hist, unit) rresult)"
  using tx_gas_used_shifted [of 4000 "[21000]"]
  by (simp add: counted_def gas_label_def abbreviate_num_def peak_count_def show_nat_big show_nat_small digit_char_def char_of_def bit_0)

section \<open>Lemmas: ordered maps\<close>

definition bt_wf :: "('k::linorder \<times> 'v) list \<Rightarrow> bool" where
  "bt_wf m \<longleftrightarrow> sorted_wrt (<) (map fst m)"

lemma bt_keys_insert: "set (map fst (bt_insert k v m)) = insert k (set (map fst m))"
  by (induction k v m rule: bt_insert.induct) auto

lemma bt_wf_Nil [simp, wf_intros]: "bt_wf []" "bt_wf [(k, v)]"
  by (simp_all add: bt_wf_def)

lemma bt_wf_insert [simp, wf_intros]: "bt_wf m \<Longrightarrow> bt_wf (bt_insert k v m)"
proof (induction k v m rule: bt_insert.induct)
  case (2 k v k' v' m)
  show ?case
  proof (cases "k' < k")
    case True
    with 2 have "bt_wf (bt_insert k v m)" by (auto simp: bt_wf_def)
    with 2 True bt_keys_insert [of k v m] show ?thesis by (auto simp: bt_wf_def)
  next
    case False
    with 2 show ?thesis by (auto simp: bt_wf_def dest: order.strict_trans)
  qed
qed (simp add: bt_wf_def)

lemma bt_get_insert [simp]:
  "bt_wf m \<Longrightarrow> map_of (bt_insert k v m) j = (if j = k then Some v else map_of m j)"
proof (induction k v m rule: bt_insert.induct)
  case (2 k v k' v' m)
  have wf: "bt_wf m" using 2(2) by (simp add: bt_wf_def)
  have "k \<notin> fst ` set m" if "k \<le> k'"
    using 2(2) that by (force simp: bt_wf_def)
  then show ?case using 2(1) wf by (auto simp: map_of_eq_None_iff)
qed simp

lemma bt_insert_last:
  "(\<And>j. j \<in> set (map fst m) \<Longrightarrow> j < k) \<Longrightarrow> bt_insert k v m = m @ [(k, v)]"
proof (induction m)
  case (Cons kv m)
  obtain k' v' where kv: "kv = (k', v')" by force
  from Cons.prems [of k'] have "k' < k" by (simp add: kv)
  moreover from this have "\<not> k < k'" "k \<noteq> k'" by auto
  ultimately show ?case using Cons by (simp add: kv)
qed simp

lemma bt_wf_collect [simp]: "bt_wf (bt_collect kvs)"
  unfolding bt_collect_def by (induction kvs rule: rev_induct) (auto split: prod.splits)

lemma bt_get_collect: "map_of (bt_collect kvs) k = map_of (rev kvs) k"
proof (induction kvs rule: rev_induct)
  case (snoc kv kvs)
  obtain k' v' where kv: "kv = (k', v')" by force
  from bt_get_insert [OF bt_wf_collect [of kvs], of k' v' k] snoc show ?case
    by (simp add: bt_collect_def kv)
qed (simp add: bt_collect_def)

section \<open>Properties of the other charts\<close>

lemma foldl_bt_ascending:
  "sorted_wrt (<) ts \<Longrightarrow> foldl (\<lambda>m t. bt_insert t (f t) m) [] ts = map (\<lambda>t. (t, f t)) ts"
proof (induction ts rule: rev_induct)
  case (snoc t ts)
  then have "foldl (\<lambda>m t. bt_insert t (f t) m) [] ts = map (\<lambda>t. (t, f t)) ts"
    by (simp add: sorted_wrt_append)
  moreover have "bt_insert t (f t) (map (\<lambda>t. (t, f t)) ts) = map (\<lambda>t. (t, f t)) ts @ [(t, f t)]"
    using snoc.prems by (intro bt_insert_last) (auto simp: sorted_wrt_append)
  ultimately show ?case by simp
qed simp

lemma sorted_word_range:
  "b \<le> 2 ^ 64 \<Longrightarrow> sorted_wrt (<) (map (word_of_nat :: nat \<Rightarrow> u64) [a..<b])"
  by (auto simp: sorted_wrt_map sorted_wrt_iff_nth_less less_word_of_nat simp del: of_nat_add)

lemma pending_echart_eq: "pending_txs_echart m = \<lparr>pd_timestamps = map fst m, pd_pending_txs = map snd m\<rparr>"
  unfolding pending_txs_echart_def by (induction m rule: rev_induct) (auto split: prod.splits)

lemma pending_chart_eq:
  "second_bounds run_txs = (lo, hi) \<Longrightarrow> pending_txs_echart (pending_txs_new run_txs)
    = (let ts = map word_of_nat [unat (saturating_sub lo 1)..<unat (hi + 1)]
       in \<lparr>pd_timestamps = ts, pd_pending_txs = map (pending_at run_txs) ts\<rparr>)"
proof -
  assume b: "second_bounds run_txs = (lo, hi)"
  have "unat (hi + 1) \<le> 2 ^ 64" using unsigned_less [where 'a = nat, of "hi + 1"] by simp
  from foldl_bt_ascending [OF sorted_word_range [OF this], of "pending_at run_txs" "unat (saturating_sub lo 1)"] show ?thesis
    by (simp add: pending_txs_new_def b pending_echart_eq Let_def comp_def)
qed

lemma second_bounds_unlanded:
  assumes "list_all (\<lambda>tx. rt_end_timestamp_ms tx = None) run_txs"
  shows "snd (second_bounds run_txs) = 0"
    and "list_all (\<lambda>tx. n \<le> rt_start_timestamp_ms tx div 1000) run_txs \<Longrightarrow> n \<le> fst (second_bounds run_txs)"
proof -
  let ?f = "\<lambda>(lo, hi) tx. (min lo (rt_start_timestamp_ms tx div 1000),
        max hi ((case rt_end_timestamp_ms tx of Some e \<Rightarrow> e | None \<Rightarrow> 0) div 1000))"
  have "snd (foldl ?f (lo, 0) run_txs) = 0" for lo :: u64
    using assms by (induction run_txs arbitrary: lo) auto
  then show "snd (second_bounds run_txs) = 0" by (simp add: second_bounds_def)
  have "list_all (\<lambda>tx. n \<le> rt_start_timestamp_ms tx div 1000) run_txs \<Longrightarrow> n \<le> lo \<Longrightarrow>
      n \<le> fst (foldl ?f (lo, hi) run_txs)" for lo hi
    by (induction run_txs arbitrary: lo hi) auto
  then show "list_all (\<lambda>tx. n \<le> rt_start_timestamp_ms tx div 1000) run_txs \<Longrightarrow> n \<le> fst (second_bounds run_txs)"
    by (simp add: second_bounds_def)
qed

text \<open>
  When none of the transactions of a run has landed, the pending-transactions chart
  is empty, although every one of them is pending in every second from its start:
  the range of seconds shown ends at the last landing, which counts as zero.
\<close>

theorem pending_chart_empty_without_landing:
  assumes "list_all (\<lambda>tx. rt_end_timestamp_ms tx = None) run_txs"
    and "list_all (\<lambda>tx. 2 \<le> rt_start_timestamp_ms tx div 1000) run_txs"
    and "list_all (\<lambda>tx. rt_start_timestamp_ms tx < t * 1000 + 1000) run_txs" and "t * 1000 < - 1"
  shows "pending_txs_echart (pending_txs_new run_txs) = \<lparr>pd_timestamps = [], pd_pending_txs = []\<rparr>
    \<and> pending_at run_txs t = word_of_nat (length run_txs)"
proof
  obtain lo hi where b: "second_bounds run_txs = (lo, hi)" by force
  from second_bounds_unlanded [OF assms(1)] assms(2) b have "hi = 0" "2 \<le> lo" by auto
  then have "1 \<le> unat (saturating_sub lo 1)"
    by (auto simp: saturating_sub_def word_le_nat_alt unat_sub)
  with pending_chart_eq [OF b] \<open>hi = 0\<close>
  show "pending_txs_echart (pending_txs_new run_txs) = \<lparr>pd_timestamps = [], pd_pending_txs = []\<rparr>"
    by (simp add: Let_def)
  have "filter (\<lambda>tx. rt_start_timestamp_ms tx < t * 1000 + 1000 \<and>
      t * 1000 < (case rt_end_timestamp_ms tx of Some e \<Rightarrow> e | None \<Rightarrow> - 1)) run_txs = run_txs"
    using assms by (intro filter_True) (auto simp: list_all_iff)
  then show "pending_at run_txs t = word_of_nat (length run_txs)"
    by (simp only: pending_at_def Let_def)
qed

definition demo_pending_tx :: run_tx where
  "demo_pending_tx = \<lparr>rt_tx_hash = 7, rt_start_timestamp_ms = 5000, rt_end_timestamp_ms = None,
     rt_block_number = None, rt_gas_used = None, rt_kind = None, rt_error = None,
     rt_flashblock_latency_ms = None, rt_flashblock_index = None\<rparr>"

theorem pending_chart_empty_without_landing_witness:
  "pending_txs_echart (pending_txs_new [demo_pending_tx]) = \<lparr>pd_timestamps = [], pd_pending_txs = []\<rparr>
   \<and> pending_at [demo_pending_tx] 5 = 1"
  using pending_chart_empty_without_landing [of "[demo_pending_tx]" 5]
  by (simp add: demo_pending_tx_def)

lemma latency_counts_Cons:
  "map (\<lambda>(before, b). cumulative_count b - before) (zip (n # map cumulative_count bs) bs)
     = (case bs of [] \<Rightarrow> [] | b # bs' \<Rightarrow> (cumulative_count b - n) #
         map (\<lambda>(before, b). cumulative_count b - before) (zip (cumulative_count b # map cumulative_count bs') bs'))"
  by (cases bs) auto

text \<open>
  The bars of a latency chart account for every call: for cumulative buckets the
  bars are the differences of neighbouring buckets, there is one per bucket
  and label, and they add up to the total number of calls.
\<close>

theorem latency_bars_total:
  assumes "sorted (map cumulative_count buckets)"
  shows "length (ld_counts (latency_echart buckets)) = length buckets
    \<and> length (ld_buckets (latency_echart buckets)) = length buckets
    \<and> sum_list (map unat (ld_counts (latency_echart buckets)))
      = (if buckets = [] then 0 else unat (cumulative_count (last buckets)))"
proof -
  have "sorted (n # map cumulative_count bs) \<Longrightarrow>
      unat n + sum_list (map unat (map (\<lambda>(before, b). cumulative_count b - before)
        (zip (n # map cumulative_count bs) bs)))
      = (if bs = [] then unat n else unat (cumulative_count (last bs)))" for n bs
  proof (induction bs arbitrary: n)
    case (Cons b bs)
    from Cons.prems have "unat n \<le> unat (cumulative_count b)" by (simp add: word_le_nat_alt)
    then have "unat n + unat (cumulative_count b - n) = unat (cumulative_count b)"
      by (simp add: unat_sub_if')
    then show ?case using Cons by (simp add: latency_counts_Cons [of n "b # bs"] flip: add.assoc)
  qed simp
  from this [of 0 buckets] assms show ?thesis
    by (simp add: latency_echart_def latency_counts_def latency_labels_def)
qed

theorem latency_bars_total_witness:
  "sum_list (map unat (ld_counts (latency_echart [bucket_new (Fin 1) 3, bucket_new (Fin 2) 5]))) = 5"
  using latency_bars_total [of "[bucket_new (Fin 1) 3, bucket_new (Fin 2) 5]"]
  by (simp add: bucket_new_def)

lemma first_index_Some:
  assumes "i < length xs" and "p (xs ! i)" and "\<And>j. j < i \<Longrightarrow> \<not> p (xs ! j)"
  shows "first_index p xs = Some i"
  using assms
proof (induction xs arbitrary: i)
  case (Cons x xs)
  show ?case
  proof (cases i)
    case (Suc k)
    have "\<not> p x" using Cons.prems(3) [of 0] Suc by simp
    moreover have "first_index p xs = Some k"
      using Cons.IH [of k] Cons.prems Suc by (metis Suc_less_eq length_Cons nth_Cons_Suc)
    ultimately show ?thesis using Suc by simp
  qed (use Cons in simp)
qed simp

lemma last_index_Some:
  assumes "i < length xs" and "p (xs ! i)" and "\<And>j. i < j \<Longrightarrow> j < length xs \<Longrightarrow> \<not> p (xs ! j)"
  shows "last_index p xs = Some i"
proof -
  have "first_index p (rev xs) = Some (length xs - 1 - i)"
    using assms by (intro first_index_Some) (auto simp: rev_nth)
  with assms(1) show ?thesis by (simp add: last_index_def)
qed

lemma hist_width_Max: "xs \<noteq> [] \<Longrightarrow> hist_width xs = Suc (Max (set xs))"
proof (induction xs)
  case (Cons x xs)
  then show ?case by (cases "xs = []") (auto simp: hist_width_def)
qed simp

lemma populated_range:
  assumes "xs \<noteq> []" and "length xs < 2 ^ 64"
  shows "first_index (\<lambda>c. 0 < c) (hi_counts (hist_ref pad label xs)) = Some (Min (set xs))"
    and "last_index (\<lambda>c. 0 < c) (hi_counts (hist_ref pad label xs)) = Some (Max (set xs))"
proof -
  let ?cs = "hi_counts (hist_ref pad label xs)"
  have len: "length ?cs = Suc (Max (set xs))" by (simp add: hist_ref_def hist_width_Max [OF assms(1)])
  have pos: "0 < ?cs ! i \<longleftrightarrow> i \<in> set xs" if "i \<le> Max (set xs)" for i
    using word_count_pos [OF assms(2), of i] that
    by (simp add: hist_ref_def hist_width_Max [OF assms(1)] del: upt_Suc)
  have le: "Min (set xs) \<le> Max (set xs)" using assms(1) by (meson Max_ge Min_in List.finite_set set_empty)
  show "first_index (\<lambda>c. 0 < c) ?cs = Some (Min (set xs))"
  proof (rule first_index_Some)
    show "0 < ?cs ! Min (set xs)" using pos [OF le] assms(1) Min_in [of "set xs"] by simp
    fix j assume j: "j < Min (set xs)"
    then have "j \<notin> set xs" using Min_le [of "set xs" j] by (metis List.finite_set leD)
    with pos [of j] j le show "\<not> 0 < ?cs ! j" by linarith
  qed (use le in \<open>simp only: len less_Suc_eq_le\<close>)
  show "last_index (\<lambda>c. 0 < c) ?cs = Some (Max (set xs))"
    using assms(1) pos by (intro last_index_Some) (auto simp: len)
qed

lemma label_gaps_ref:
  assumes "xs \<noteq> []"
  shows "drop (Min (set xs)) (label_gaps (Min (set xs)) (Max (set xs)) (hi_buckets (hist_ref [] fb_label xs)))
    = map fb_label [Min (set xs)..<Max (set xs) + 1]"
  by (rule nth_equalityI)
    (auto simp: label_gaps_def hist_ref_def hist_width_Max [OF assms] nth_enumerate_eq simp del: upt_Suc)

lemma sum_counts_range: "(\<Sum>i\<leftarrow>[Min (set xs)..<Max (set xs) + 1]. count_list xs i) = length xs"
proof -
  have "(\<Sum>i\<leftarrow>[Min (set xs)..<Max (set xs) + 1]. count_list xs i)
      = (\<Sum>i \<in> {Min (set xs)..Max (set xs)}. count_list xs i)"
    by (simp add: sum_list_distinct_conv_sum_set atLeastLessThanSuc_atLeastAtMost del: upt_Suc)
  also have "\<dots> = (\<Sum>i \<in> set xs. count_list xs i)"
    by (rule sum.mono_neutral_right) (auto simp: count_list_0)
  finally show ?thesis by (simp add: sum_count_set)
qed

text \<open>
  The flashblock latency chart has no gaps: its bars are the 100 ms ranges from
  the first to the last that contains a transaction, each labelled with its range and with the
  number of transactions in it, zero included; the counts add up to the transactions.
\<close>

theorem flashblock_chart_contiguous:
  assumes "latencies \<noteq> []" and "length latencies < 2 ^ 64"
  shows "let xs = map (\<lambda>l. unat l div 100) latencies; cells = [Min (set xs)..<Max (set xs) + 1];
      h = flashblock_tti_data latencies
    in hi_buckets h = map fb_label cells \<and> map unat (hi_counts h) = map (count_list xs) cells
       \<and> sum_list (map unat (hi_counts h)) = length latencies"
proof -
  define xs where "xs = map (\<lambda>l. unat l div 100) latencies"
  have xs: "xs \<noteq> []" "length xs < 2 ^ 64" "length xs = length latencies" using assms by (simp_all add: xs_def)
  let ?h = "hist_ref [] fb_label xs"
  have h: "foldl (\<lambda>h l. hist_add [] fb_label h (unat (l div 100))) hist_empty latencies = ?h"
    unfolding foldl_index [where k = "\<lambda>l. unat (l div 100)"]
    using hist_fold_ref [OF xs(2)] by (simp add: unat_div_distrib xs_def)
  have counts: "take (Max (set xs) + 1 - Min (set xs)) (drop (Min (set xs)) (hi_counts ?h))
      = map (\<lambda>i. word_of_nat (count_list xs i)) [Min (set xs)..<Max (set xs) + 1]"
    by (simp add: hist_ref_def hist_width_Max [OF xs(1)] drop_map take_map del: upt_Suc)
  have d: "flashblock_tti_data latencies = ?h\<lparr>hi_buckets := map fb_label [Min (set xs)..<Max (set xs) + 1],
      hi_counts := map (\<lambda>i. word_of_nat (count_list xs i)) [Min (set xs)..<Max (set xs) + 1]\<rparr>"
    unfolding flashblock_tti_data_def h Let_def populated_range [OF xs(1,2)]
    using counts by (simp add: label_gaps_ref [OF xs(1)] del: upt_Suc)
  have "map unat (hi_counts (flashblock_tti_data latencies)) = map (count_list xs) [Min (set xs)..<Max (set xs) + 1]"
    unfolding d using unat_count [OF xs(2)] by (simp del: upt_Suc)
  moreover from this have "sum_list (map unat (hi_counts (flashblock_tti_data latencies))) = length latencies"
    using sum_counts_range [of xs] xs(3) by simp
  ultimately show ?thesis unfolding xs_def [symmetric] Let_def by (simp add: d del: upt_Suc)
qed

theorem flashblock_chart_contiguous_witness:
  "sum_list (map unat (hi_counts (flashblock_tti_data [50, 350]))) = 2"
proof -
  have "sum_list (map unat (hi_counts (flashblock_tti_data [50, 350]))) = length [50 :: u64, 350]"
    by (rule flashblock_chart_contiguous [unfolded Let_def, THEN conjunct2, THEN conjunct2]) simp_all
  then show ?thesis by (simp add: eval_nat_numeral)
qed

end
