(* ===== verification/Cli_Util.thy ===== *)
theory Cli_Util
  imports Tx_Request Report_Charts
begin

text \<open>
  Helpers of the command line (\<open>crates/cli/src/util/{error,utils}.rs\<close>): durations with units,
  the data directory with the migration of the legacy one, the seed file, and the printing of
  gas amounts.  A file system is a map from paths to entries, a directory or a file with its
  text; which calls fail is a parameter.
\<close>

section \<open>Errors\<close>

datatype parse_duration_error =
    UnexpectedDigit string
  | NoFloats string
  | InvalidNumber string
  | InvalidUnits string

datatype cli_util_error =
    UtilEnvVar string
  | UtilIo string
  | UtilParseDuration parse_duration_error
  | UtilRpc string
  | UtilBuildTxFailed string
  | UtilDbBackupFailed string
  | UtilDbImportFailed string
  | UtilDbDoesNotExist
  | UtilDbExportFailed string
  | InsufficientUserFunds address u256 u256 u64

datatype setup_error =
    FundingTxFailed tx_hash string
  | FundingTxTimedOut tx_hash u64
  | InsufficientFunds "(address \<times> u256) list"
  | SetupUtil cli_util_error

section \<open>Durations\<close>

text \<open>A \<open>Duration\<close> is its number of milliseconds.\<close>

definition from_secs :: "u64 \<Rightarrow> nat" where
  "from_secs n = 1000 * unat n"

definition from_millis :: "u64 \<Rightarrow> nat" where
  "from_millis n = unat n"

fun split_number :: "string \<Rightarrow> string \<Rightarrow> string \<Rightarrow> string \<Rightarrow> (string \<times> string, parse_duration_error) rresult" where
  "split_number input num unit [] = Ok (num, unit)"
| "split_number input num unit (c # cs) =
     (if num = [] \<and> is_ws c then split_number input num unit cs
      else if is_digit c
      then (if unit = [] then split_number input (num @ [c]) unit cs else Err (UnexpectedDigit input))
      else if c = CHR ''.'' then Err (NoFloats input)
      else split_number input num (unit @ [c]) cs)"

definition duration_of :: "string \<Rightarrow> u64 \<Rightarrow> (nat, parse_duration_error) rresult" where
  "duration_of unit value =
     (if unit = [] then Ok (from_secs value)
      else if unit \<in> {''ms'', ''msec'', ''msecs'', ''millisecond'', ''milliseconds''} then Ok (from_millis value)
      else if unit \<in> {''s'', ''sec'', ''secs'', ''second'', ''seconds''} then Ok (from_secs value)
      else if unit \<in> {''m'', ''min'', ''mins'', ''minute'', ''minutes''} then Ok (from_secs (value * 60))
      else if unit \<in> {''h'', ''hr'', ''hrs'', ''hour'', ''hours''} then Ok (from_secs (value * 3600))
      else if unit \<in> {''d'', ''day'', ''days''} then Ok (from_secs (value * 86400))
      else Err (InvalidUnits unit))"

definition parse_duration :: "string \<Rightarrow> (nat, parse_duration_error) rresult" where
  "parse_duration input =
     rbind (split_number input [] [] (to_lowercase (trim input))) (\<lambda>(num_str, unit_str).
     rbind (ok_or (parse_u64 num_str) (InvalidNumber num_str)) (\<lambda>value.
     duration_of (trim unit_str) value))"

section \<open>Gas\<close>

definition f64_of_u128 :: "u128 \<Rightarrow> f64" where
  "f64_of_u128 n = f64_of_rat (of_nat (unat n))"

definition unit_divisors :: "(string \<times> f64) list" where
  "unit_divisors =
     [(''Ggas'', Fin 1000000000), (''Mgas'', Fin 1000000), (''Kgas'', Fin 1000), (''gas'', Fin 1)]"

definition human_readable_gas :: "u128 \<Rightarrow> string" where
  "human_readable_gas gas =
     (let (gas_unit, divisor) =
            (case List.find (\<lambda>(_, divisor). f64_le divisor (f64_of_u128 gas)) unit_divisors of
               Some e \<Rightarrow> e | None \<Rightarrow> last unit_divisors)
      in f64_display (f64_div (f64_of_u128 gas) divisor) @ '' '' @ gas_unit)"

section \<open>The data directory\<close>

datatype fs_entry = Dir | File string

type_synonym fs = "(string, fs_entry) hmap"

record fs_env =
  fv_home :: "string option"
  fv_xdg_state_home :: "string option"
  fv_data_dir :: "string option"
  fv_create_fails :: "string \<Rightarrow> bool"
  fv_rename_fails :: bool
  fv_write_fails :: bool
  fv_read_fails :: bool

definition path_join :: "string \<Rightarrow> string \<Rightarrow> string" where
  "path_join p q = (if p = [] then q else if last p = CHR ''/'' then p @ q else p @ CHR ''/'' # q)"

text \<open>The proper prefixes of a path that end before a slash.\<close>

definition ancestors :: "string \<Rightarrow> string list" where
  "ancestors p = map (\<lambda>i. take i p) (filter (\<lambda>i. 0 < i \<and> p ! i = CHR ''/'') [0..<length p])"

definition path_exists :: "fs \<Rightarrow> string \<Rightarrow> bool" where
  "path_exists m p = hm_contains m p"

definition create_dir :: "string \<Rightarrow> fs \<Rightarrow> fs" where
  "create_dir p m = (if hm_contains m p then m else hm_insert p Dir m)"

definition is_file :: "fs \<Rightarrow> string \<Rightarrow> bool" where
  "is_file m p = (case hm_get m p of Some (File t) \<Rightarrow> True | _ \<Rightarrow> False)"

definition create_dir_all :: "fs_env \<Rightarrow> string \<Rightarrow> fs \<Rightarrow> (fs, cli_util_error) rresult" where
  "create_dir_all e p m =
     (if fv_create_fails e p \<or> list_ex (is_file m) (ancestors p @ [p])
      then Err (UtilIo ''create_dir_all'')
      else Ok (fold create_dir (ancestors p @ [p]) m))"

text \<open>Renaming a directory moves the entries below it.\<close>

definition moved :: "string \<Rightarrow> string \<Rightarrow> string \<Rightarrow> string" where
  "moved a b p = (if p = a \<or> prefix (a @ ''/'') p then b @ drop (length a) p else p)"

definition rename_dir :: "string \<Rightarrow> string \<Rightarrow> fs \<Rightarrow> fs" where
  "rename_dir a b m = map (\<lambda>(p, x). (moved a b p, x)) m"

text \<open>The parent of a joined path: the part before the last slash.\<close>

definition parent :: "string \<Rightarrow> string option" where
  "parent p = (case ancestors p of [] \<Rightarrow> None | as \<Rightarrow> Some (last as))"

definition contender_dir :: "string \<Rightarrow> string option \<Rightarrow> string" where
  "contender_dir home_dir xdg_state_home =
     (let state_home = (case xdg_state_home of
                          Some val \<Rightarrow> if val \<noteq> [] then val else path_join (path_join home_dir ''.local'') ''state''
                        | None \<Rightarrow> path_join (path_join home_dir ''.local'') ''state'')
      in path_join state_home ''contender'')"

definition resolve_default_data_dir ::
  "fs_env \<Rightarrow> string \<Rightarrow> string option \<Rightarrow> fs \<Rightarrow> (fs \<times> string, cli_util_error) rresult" where
  "resolve_default_data_dir e home_dir xdg_state_home m =
     (let dir = contender_dir home_dir xdg_state_home;
          legacy_dir = path_join home_dir ''.contender''
      in rbind (if path_exists m legacy_dir \<and> \<not> path_exists m dir
                then rbind (case parent dir of Some q \<Rightarrow> create_dir_all e q m | None \<Rightarrow> Ok m) (\<lambda>m1.
                     Ok (if fv_rename_fails e then m1 else rename_dir legacy_dir dir m1))
                else Ok m) (\<lambda>m2.
         rbind (create_dir_all e dir m2) (\<lambda>m3. Ok (m3, dir))))"

definition default_data_dir :: "fs_env \<Rightarrow> fs \<Rightarrow> (fs \<times> string, cli_util_error) rresult" where
  "default_data_dir e m =
     rbind (ok_or (fv_home e) (UtilEnvVar ''HOME'')) (\<lambda>home_dir.
       resolve_default_data_dir e home_dir (fv_xdg_state_home e) m)"

definition resolve_data_dir :: "fs_env \<Rightarrow> string option \<Rightarrow> fs \<Rightarrow> (fs \<times> string, cli_util_error) rresult" where
  "resolve_data_dir e cli_arg m =
     (case (cli_arg, fv_data_dir e) of
        (Some dir, _) \<Rightarrow> rbind (create_dir_all e dir m) (\<lambda>m'. Ok (m', dir))
      | (None, Some dir) \<Rightarrow> rbind (create_dir_all e dir m) (\<lambda>m'. Ok (m', dir))
      | (None, None) \<Rightarrow> default_data_dir e m)"

definition init_reports_dir :: "fs_env \<Rightarrow> string \<Rightarrow> fs \<Rightarrow> (fs \<times> string, 'e) rresult" where
  "init_reports_dir e data_dir m =
     (case create_dir_all e (path_join data_dir ''reports'') m of
        Ok m' \<Rightarrow> Ok (m', path_join data_dir ''reports'') | _ \<Rightarrow> Panic)"

definition db_file_in :: "string \<Rightarrow> string" where
  "db_file_in data_dir = path_join data_dir ''contender.db''"

text \<open>The seed file; \<open>fresh\<close> are the random bytes in hexadecimal.\<close>

definition load_seedfile ::
  "fs_env \<Rightarrow> string \<Rightarrow> string \<Rightarrow> fs \<Rightarrow> fs \<times> (string, string) rresult" where
  "load_seedfile e fresh data_dir m =
     (let seed_path = path_join data_dir ''seed''
      in if \<not> path_exists m seed_path \<and> fv_write_fails e then (m, Err ''write'')
         else let m' = (if path_exists m seed_path then m else hm_insert seed_path (File fresh) m)
              in (m', if fv_read_fails e then Err ''read''
                      else case hm_get m' seed_path of
                             Some (File t) \<Rightarrow> Ok (''0x'' @ t)
                           | _ \<Rightarrow> Err ''read''))"

section \<open>Lemmas\<close>

lemma split_number_digits:
  "list_all is_digit ds \<Longrightarrow> split_number input num [] (ds @ cs) = split_number input (num @ ds) [] cs"
  by (induction ds arbitrary: num) (auto dest: is_digit_props)

lemma split_number_unit:
  "num \<noteq> [] \<Longrightarrow> list_all (\<lambda>c. \<not> is_digit c \<and> c \<noteq> CHR ''.'') cs
    \<Longrightarrow> split_number input num unit cs = Ok (num, unit @ cs)"
  by (induction cs arbitrary: unit) auto

lemma to_lowercase_id: "list_all (\<lambda>c. is_digit c \<or> is_ws c) s \<Longrightarrow> to_lowercase s = s"
  by (auto simp: to_lowercase_def list_all_iff to_lower_def is_digit_def is_ws_def Let_def intro!: map_idI)

text \<open>The milliseconds of a unit, in the spellings the command line accepts.\<close>

definition unit_ms :: "(string \<times> nat) list" where
  "unit_ms =
     map (\<lambda>u. (u, 1)) [''ms'', ''msec'', ''msecs'', ''millisecond'', ''milliseconds''] @
     map (\<lambda>u. (u, 1000)) [''s'', ''sec'', ''secs'', ''second'', ''seconds''] @
     map (\<lambda>u. (u, 60000)) [''m'', ''min'', ''mins'', ''minute'', ''minutes''] @
     map (\<lambda>u. (u, 3600000)) [''h'', ''hr'', ''hrs'', ''hour'', ''hours''] @
     map (\<lambda>u. (u, 86400000)) [''d'', ''day'', ''days'']"

lemma unit_ms_chars:
  "(u, k) \<in> set unit_ms \<Longrightarrow> u \<noteq> [] \<and> list_all (\<lambda>c. \<not> is_ws c \<and> \<not> is_digit c \<and> c \<noteq> CHR ''.'') u"
  by (auto simp: unit_ms_def is_ws_def is_digit_def)

lemma from_secs_scaled: "unat n * k < 2 ^ 64 \<Longrightarrow> from_secs (n * word_of_nat k) = unat n * (1000 * k)"
  by (simp add: from_secs_def unat_word_ariths unat_of_nat mod_mult_right_eq)

lemmas from_secs_units =
  from_secs_scaled [of _ 60, simplified] from_secs_scaled [of _ 3600, simplified]
  from_secs_scaled [of _ 86400, simplified]

lemma ws_not_dot: "\<not> is_ws (CHR ''.'')"
  by (simp add: is_ws_def)

lemma duration_of_units:
  assumes "(u, ms) \<in> set unit_ms" and "unat n * (ms div 1000) < 2 ^ 64"
  shows "duration_of u n = Ok (unat n * ms)"
  using assms unfolding unit_ms_def
  by (simp, elim disjE conjE) (simp_all add: duration_of_def from_millis_def from_secs_def [of n] from_secs_units)

lemma parse_duration_split:
  assumes "list_all is_ws before" and "list_all is_ws between" and "list_all is_ws after"
    and "unit = [] \<longrightarrow> between = []" and "list_all (\<lambda>c. \<not> is_ws c \<and> \<not> is_digit c \<and> c \<noteq> CHR ''.'') (to_lowercase unit)"
  shows "split_number input [] [] (to_lowercase (trim (before @ show_nat n @ between @ unit @ after)))
    = Ok (show_nat n, between @ to_lowercase unit)"
proof -
  have digits: "list_all is_digit (show_nat n)" by (rule show_nat_digits)
  have ws: "is_ws (to_lower c) = is_ws c" for c by simp
  have unit_ws: "\<not> is_ws c" if "c \<in> set unit" for c
    using assms(5) that by (auto simp: list_all_iff to_lowercase_def)
  let ?core = "show_nat n @ between @ unit"
  have "trim (before @ ?core @ after) = ?core"
  proof (rule trim_surround)
    show "\<not> is_ws (hd ?core)" using digits is_digit_props by (cases "show_nat n") auto
    show "\<not> is_ws (last ?core)"
    proof (cases "unit = []")
      case True
      with assms(4) digits is_digit_props show ?thesis by (cases "show_nat n" rule: rev_cases) auto
    next
      case False
      with unit_ws [of "last unit"] show ?thesis by simp
    qed
  qed (use assms(1,3) in simp_all)
  moreover have "to_lowercase ?core = show_nat n @ between @ to_lowercase unit"
    using digits assms(2) to_lowercase_id [of "show_nat n @ between"]
    by (auto simp: to_lowercase_def list_all_iff)
  moreover have "list_all (\<lambda>c. \<not> is_digit c \<and> c \<noteq> CHR ''.'') (between @ to_lowercase unit)"
    using assms(2,5) is_digit_props ws_not_dot by (auto simp: list_all_iff)
  ultimately show ?thesis
    using split_number_digits [OF digits, of input "[]"] split_number_unit [of "show_nat n"] by simp
qed

section \<open>Properties\<close>

text \<open>
  A duration is read as it is written: a number below \<open>2 ^ 64\<close>, optional blanks and one of the
  accepted units in any case, with blanks around, is that many times the unit, as long as the number
  of seconds fits 64 bits; without a unit it is a number of seconds.
\<close>

theorem parse_duration_reads_units:
  assumes "list_all is_ws before" and "list_all is_ws between" and "list_all is_ws after"
    and "(to_lowercase unit, ms) \<in> set unit_ms \<or> unit = [] \<and> between = [] \<and> ms = 1000"
    and "unat n * (ms div 1000) < 2 ^ 64"
  shows "parse_duration (before @ show_nat (unat (n :: u64)) @ between @ unit @ after) = Ok (unat n * ms)"
proof -
  from assms(4) have chars: "list_all (\<lambda>c. \<not> is_ws c \<and> \<not> is_digit c \<and> c \<noteq> CHR ''.'') (to_lowercase unit)"
    "unit = [] \<longrightarrow> between = []"
    using unit_ms_chars [of "to_lowercase unit" ms] by (auto simp: to_lowercase_def)
  have trim: "trim (between @ to_lowercase unit) = to_lowercase unit"
  proof (cases "unit = []")
    case True
    with chars(2) show ?thesis by (simp add: trim_def trim_start_def to_lowercase_def)
  next
    case False
    then have ne: "to_lowercase unit \<noteq> []" by (simp add: to_lowercase_def)
    with chars(1) have "\<not> is_ws (hd (to_lowercase unit))" "\<not> is_ws (last (to_lowercase unit))"
      by (simp_all add: list_all_iff)
    with trim_surround [OF ne, of between "[]"] assms(2) show ?thesis by simp
  qed
  note parsed = parse_duration_split [OF assms(1-3) chars(2,1), of _ "unat n"]
  have "duration_of (to_lowercase unit) n = Ok (unat n * ms)"
    using assms(4)
  proof
    assume "unit = [] \<and> between = [] \<and> ms = 1000"
    then show ?thesis by (simp add: duration_of_def from_secs_def to_lowercase_def)
  qed (rule duration_of_units [OF _ assms(5)])
  then show ?thesis by (simp add: parse_duration_def parsed parse_u64_show trim)
qed

theorem parse_duration_reads_units_witness:
  "parse_duration (''  '' @ show_nat (unat (90 :: u64)) @ '' '' @ ''Mins'' @ []) = Ok 5400000"
proof -
  have "to_lowercase ''Mins'' = ''mins''" by code_simp
  then show ?thesis
    by (subst parse_duration_reads_units [where ms = 60000]) (simp_all add: unit_ms_def is_ws_def)
qed

section \<open>The migration of the legacy directory\<close>

definition below :: "string \<Rightarrow> string \<Rightarrow> bool" where
  "below a p \<longleftrightarrow> p = a \<or> prefix (a @ ''/'') p"

lemma below_iff: "below a p \<longleftrightarrow> (\<exists>rest. p = a @ rest \<and> (rest = [] \<or> hd rest = CHR ''/''))"
  by (auto simp: below_def prefix_def) (metis list.collapse)

lemma moved_below: "below a (a @ rest) \<Longrightarrow> moved a b (a @ rest) = b @ rest"
  by (simp add: moved_def below_def)

lemma moved_other: "\<not> below a p \<Longrightarrow> moved a b p = p"
  by (simp add: moved_def below_def)

lemma map_of_map_key:
  assumes "\<forall>p \<in> fst ` set m. f p = q \<longleftrightarrow> p = q0"
  shows "map_of (map (\<lambda>(p, x). (f p, x)) m) q = map_of m q0"
  using assms by (induction m) (auto split: if_splits)

lemma rename_dir_get:
  assumes "\<And>p. below b p \<Longrightarrow> hm_get m p = None" and "rest = [] \<or> hd rest = CHR ''/''"
  shows "hm_get (rename_dir a b m) (b @ rest) = hm_get m (a @ rest)"
  unfolding hm_get_def rename_dir_def
proof (rule map_of_map_key, rule ballI)
  fix p assume "p \<in> fst ` set m"
  then have "\<not> below b p" using assms(1) hm_keys_iff [of p m] by (auto simp: hm_keys_def)
  moreover have "below b (b @ rest)" using assms(2) by (auto simp: below_iff)
  moreover have "below a (a @ rest)" using assms(2) by (auto simp: below_iff)
  ultimately show "moved a b p = b @ rest \<longleftrightarrow> p = a @ rest"
  proof (cases "below a p")
    case True
    then obtain r where "p = a @ r" by (auto simp: below_iff)
    with True moved_below [of a r b] show ?thesis by simp
  next
    case False
    with \<open>\<not> below b p\<close> \<open>below b (b @ rest)\<close> \<open>below a (a @ rest)\<close> moved_other [of a p b] show ?thesis by auto
  qed
qed

lemma rename_dir_gone:
  assumes "\<not> below a b" and "\<not> below b a" and "below a p"
  shows "hm_get (rename_dir a b m) p = None"
proof -
  have "\<not> below a (moved a b q)" for q
  proof (cases "below a q")
    case True
    then obtain rest where q: "q = a @ rest" and rest: "rest = [] \<or> hd rest = CHR ''/''" by (auto simp: below_iff)
    with True have "moved a b q = b @ rest" by (simp add: moved_below)
    moreover have "\<not> below a (b @ rest)"
    proof
      assume "below a (b @ rest)"
      then obtain r where r: "b @ rest = a @ r" "r = [] \<or> hd r = CHR ''/''" by (auto simp: below_iff)
      from r(1) consider us where "b = a @ us" "r = us @ rest" | us where "a = b @ us" "rest = us @ r"
        by (auto simp: append_eq_append_conv2)
      then show False
      proof cases
        case 1
        with r(2) have "us = [] \<or> hd us = CHR ''/''" by (cases us) auto
        with 1(1) assms(1) show False unfolding below_iff by blast
      next
        case 2
        with rest have "us = [] \<or> hd us = CHR ''/''" by (cases us) auto
        with 2(1) assms(2) show False unfolding below_iff by blast
      qed
    qed
    ultimately show ?thesis by simp
  qed (simp add: moved_other)
  then have "p \<notin> fst ` set (rename_dir a b m)"
    using assms(3) by (auto simp: rename_dir_def)
  then show ?thesis by (simp add: hm_get_def map_of_eq_None_iff)
qed

lemma create_dirs_get:
  "hm_get (fold create_dir ps m) p = (case hm_get m p of Some x \<Rightarrow> Some x | None \<Rightarrow> if p \<in> set ps then Some Dir else None)"
  by (induction ps arbitrary: m) (auto simp: create_dir_def hm_contains_def split: option.splits)

lemma create_dir_all_get:
  assumes "create_dir_all e p m = Ok m'"
  shows "hm_get m' q = (case hm_get m q of Some x \<Rightarrow> Some x | None \<Rightarrow> if q \<in> set (ancestors p @ [p]) then Some Dir else None)"
proof -
  from assms have "m' = fold create_dir (ancestors p @ [p]) m" by (simp add: create_dir_all_def split: if_splits)
  then show ?thesis by (simp only: create_dirs_get)
qed

lemma ancestors_not_below:
  assumes "q \<in> set (ancestors p)" and "\<not> below a p"
  shows "\<not> below a q" and "\<not> below p q"
proof -
  from assms(1) obtain i where i: "q = take i p" "0 < i" "i < length p" "p ! i = CHR ''/''"
    by (auto simp: ancestors_def)
  have "below a p" if "below a q"
  proof -
    from that obtain rest where rest: "q = a @ rest" "rest = [] \<or> hd rest = CHR ''/''" by (auto simp: below_iff)
    have "p = a @ (rest @ drop i p)" using i(1) rest(1) by (metis append.assoc append_take_drop_id)
    moreover have "hd (rest @ drop i p) = CHR ''/''" using rest(2) i(3,4) by (cases rest) (auto simp: hd_drop_conv_nth)
    ultimately show ?thesis by (auto simp: below_iff)
  qed
  with assms(2) show "\<not> below a q" by blast
  have "length q < length p" using i by simp
  then show "\<not> below p q" by (auto simp: below_iff)
qed

lemma parent_ancestor:
  assumes "parent p = Some q" and "r \<in> set (ancestors q @ [q])" and "\<not> below a p"
  shows "\<not> below a r" and "\<not> below p r"
proof -
  from assms(1) have q: "q \<in> set (ancestors p)" by (auto simp: parent_def split: list.splits)
  note nq = ancestors_not_below [OF q assms(3)]
  show "\<not> below a r" using assms(2) nq(1) ancestors_not_below(1) [of r q a] by auto
  show "\<not> below p r" using assms(2) nq(2) ancestors_not_below(1) [of r q p] by auto
qed

text \<open>
  The legacy data directory is migrated without loss: if it exists and nothing is at the new
  place, then after the default directory was resolved every entry of the legacy directory, the
  database and the seed with it, is found under the new directory, and the legacy one is gone.  (The
  new place must not lie inside the legacy directory, and the renaming must succeed.)
\<close>

theorem legacy_data_migrated:
  assumes "resolve_default_data_dir e home xdg m = Ok (m', dir)" and "\<not> fv_rename_fails e"
    and "path_exists m (path_join home ''.contender'')"
    and "\<forall>p. below (contender_dir home xdg) p \<longrightarrow> hm_get m p = None"
    and "\<not> below (path_join home ''.contender'') (contender_dir home xdg)"
  shows "dir = contender_dir home xdg
    \<and> (\<forall>rest. rest = [] \<or> hd rest = CHR ''/'' \<longrightarrow> hm_get m' (dir @ rest) = hm_get m (path_join home ''.contender'' @ rest))
    \<and> (\<forall>p. below (path_join home ''.contender'') p \<longrightarrow> hm_get m' p = None)"
proof -
  let ?dir = "contender_dir home xdg" and ?legacy = "path_join home ''.contender''"
  have none: "\<not> path_exists m ?dir" using assms(4) by (simp add: path_exists_def hm_contains_def below_def)
  then obtain m1 where m1: "(case parent ?dir of Some q \<Rightarrow> create_dir_all e q m | None \<Rightarrow> Ok m) = Ok m1"
    and m': "create_dir_all e ?dir (rename_dir ?legacy ?dir m1) = Ok m'" and dir: "dir = ?dir"
    using assms(1-3) by (auto simp: resolve_default_data_dir_def Let_def split: if_splits)
  have apart: "\<not> below ?dir ?legacy" using assms(3,4) by (auto simp: path_exists_def hm_contains_def)
  have same: "hm_get m1 p = hm_get m p" if "below ?dir p \<or> below ?legacy p" for p
    using m1 that parent_ancestor [OF _ _ assms(5), of _ p] create_dir_all_get [of e _ m m1 p]
    by (auto split: option.splits if_splits)
  have extra: "hm_get m' p = (case hm_get (rename_dir ?legacy ?dir m1) p of
      Some x \<Rightarrow> Some x | None \<Rightarrow> if p \<in> set (ancestors ?dir @ [?dir]) then Some Dir else None)" for p
    using m' by (rule create_dir_all_get)
  have moved: "hm_get (rename_dir ?legacy ?dir m1) (?dir @ rest) = hm_get m (?legacy @ rest)"
    if "rest = [] \<or> hd rest = CHR ''/''" for rest
    using rename_dir_get [of ?dir m1 rest ?legacy] assms(4) same that by (auto simp: below_iff)
  have "hm_get m' (?dir @ rest) = hm_get m (?legacy @ rest)" if "rest = [] \<or> hd rest = CHR ''/''" for rest
  proof (cases "rest = []")
    case True
    with moved [of "[]"] assms(3) extra [of ?dir] show ?thesis
      by (auto simp: path_exists_def hm_contains_def)
  next
    case False
    have "?dir @ rest \<notin> set (ancestors ?dir @ [?dir])"
      using False ancestors_not_below(2) [of "?dir @ rest" ?dir] assms(5) that by (auto simp: below_iff)
    with extra [of "?dir @ rest"] moved [OF that] show ?thesis by (simp split: option.splits)
  qed
  moreover have "hm_get m' p = None" if "below ?legacy p" for p
    using extra [of p] rename_dir_gone [OF assms(5) apart that, of m1] that ancestors_not_below(1) [OF _ assms(5), of p]
      assms(5) by auto
  ultimately show ?thesis using dir by blast
qed

definition demo_fs :: fs where
  "demo_fs = [(''/h'', Dir), (''/h/.contender'', Dir), (''/h/.contender/contender.db'', File ''data'')]"

definition demo_fs_env :: fs_env where
  "demo_fs_env = \<lparr>fv_home = Some ''/h'', fv_xdg_state_home = None, fv_data_dir = None,
     fv_create_fails = (\<lambda>_. False), fv_rename_fails = False, fv_write_fails = False, fv_read_fails = False\<rparr>"

theorem legacy_data_migrated_witness:
  "\<exists>m'. resolve_default_data_dir demo_fs_env ''/h'' None demo_fs = Ok (m', ''/h/.local/state/contender'')
    \<and> hm_get m' ''/h/.local/state/contender/contender.db'' = Some (File ''data'')"
proof -
  have "case resolve_default_data_dir demo_fs_env ''/h'' None demo_fs of
      Ok (m', d) \<Rightarrow> d = ''/h/.local/state/contender'' | _ \<Rightarrow> False" by code_simp
  then have run: "\<exists>m'. resolve_default_data_dir demo_fs_env ''/h'' None demo_fs = Ok (m', ''/h/.local/state/contender'')"
    by (auto split: rresult.splits prod.splits)
  have dirs: "contender_dir ''/h'' None = ''/h/.local/state/contender''" "path_join ''/h'' ''.contender'' = ''/h/.contender''"
    by code_simp+
  have free: "hm_get demo_fs p = None" if "below ''/h/.local/state/contender'' p" for p
    using that by (auto simp: demo_fs_def hm_get_def below_iff)
  from run obtain m' where m': "resolve_default_data_dir demo_fs_env ''/h'' None demo_fs = Ok (m', ''/h/.local/state/contender'')"
    by blast
  have "\<not> below ''/h/.contender'' ''/h/.local/state/contender''" by (simp add: below_def)
  moreover have "path_exists demo_fs ''/h/.contender''" by code_simp
  moreover have "\<not> fv_rename_fails demo_fs_env" by code_simp
  ultimately have "hm_get m' (''/h/.local/state/contender'' @ ''/contender.db'') = hm_get demo_fs (''/h/.contender'' @ ''/contender.db'')"
    using legacy_data_migrated [OF m'] free unfolding dirs by auto
  with m' show ?thesis by (auto simp: demo_fs_def hm_get_def)
qed

end
