(* ===== verification/Cli_Spam.thy ===== *)
theory Cli_Spam
  imports Scenario_Prepare Campaign Cli_Util
begin

text \<open>
  The \<open>setup\<close> and \<open>spam\<close> commands of the command line
  (\<open>crates/cli/src/commands/{common,setup,spam}.rs\<close> and the key checks of
  \<open>crates/cli/src/util/utils.rs\<close>): arguments, the derivation of seeds and agent
  pools, and \<open>init_scenario\<close>, which checks the arguments against the scenario and
  produces the parameters of the \<open>TestScenario\<close>.  What the commands ask from
  outside (files, the node, funding, deployments) is the record \<open>cli_env\<close>.
\<close>

section \<open>Arguments and errors\<close>

datatype args_error =
    BuilderUrlRequiredForBundles
  | ArgsBundleTypeInvalid
  | EngineArgsRequired "string option" "string option"
  | EngineProviderUninitialized string
  | MinBalanceInsufficient u256 u256
  | ScenarioFileBuiltinConflict
  | SpamNotFound
  | SpamRateNotFound
  | TransactionsPerDurationInsufficient u64 u64
  | TxTypeInvalid tx_type tx_type
  | ArgsUrlParse string

datatype cli_error =
    CliAborted
  | CliParamsInvalid runtime_param_error
  | CliAuthProvider string
  | CliArgs args_error
  | CliAdmin string
  | CliCore core_error
  | CliCustomContractArgs string
  | CliDb sqlite_error
  | CliDbVersion
  | CliIo string
  | CliTaskJoin
  | CliParseHex string
  | CliTestFile campaign_error
  | CliReport string
  | CliRpc string bool
  | CliSetup setup_error
  | CliServerStartup string
  | CliUtil cli_util_error

definition is_recoverable :: "cli_error \<Rightarrow> bool" where
  "is_recoverable e = (case e of CliRpc _ transport \<Rightarrow> transport | _ \<Rightarrow> False)"

record auth_args =
  aa_auth_rpc_url :: "string option"
  aa_jwt_secret :: "string option"
  aa_use_op :: bool

record send_txs_args =
  st_env :: "(string \<times> string) list option"
  st_min_balance :: u256
  st_private_keys :: "string list option"
  st_rpc_url :: string
  st_txs_url :: "string option"
  st_scenario_label :: "string option"
  st_seed :: "string option"
  st_bundle_type :: bundle_type
  st_gas_price :: "u256 option"
  st_tx_type :: tx_type
  st_accounts_per_agent :: "u64 option"
  st_override_senders :: bool
  st_call_forkchoice :: bool
  st_auth_args :: auth_args

record send_spam_args =
  sp_txs_per_second :: "u64 option"
  sp_txs_per_block :: "u64 option"
  sp_duration :: u64
  sp_builder_url :: "string option"
  sp_pending_timeout :: u64
  sp_run_forever :: bool

record spam_cli_args =
  ca_spam :: send_spam_args
  ca_testfile :: "string option"
  ca_rpc :: send_txs_args
  ca_ignore_receipts :: bool
  ca_optimistic_nonces :: bool
  ca_gen_report :: bool
  ca_skip_setup :: bool
  ca_rpc_batch_size :: u64
  ca_send_raw_tx_sync :: bool
  ca_flashblocks_ws_url :: "string option"
  ca_report_interval :: "u64 option"

text \<open>A builtin scenario is its kind and the test configuration it expands to.\<close>

datatype builtin_kind = BuiltinBlobs | BuiltinSetCode | BuiltinOther string

datatype spam_scenario = Testfile string | Builtin builtin_kind test_config

fun is_builtin :: "spam_scenario \<Rightarrow> bool" where
  "is_builtin (Testfile f) = False"
| "is_builtin (Builtin k c) = True"

datatype spam_rate = TxsPerBlock u64 | TxsPerSecond u64

definition spam_rate_of :: "send_spam_args \<Rightarrow> (spam_rate, args_error) rresult" where
  "spam_rate_of a =
     (case (sp_txs_per_second a, sp_txs_per_block a) of
        (Some tps, None) \<Rightarrow> Ok (TxsPerSecond tps)
      | (None, Some tpb) \<Rightarrow> Ok (TxsPerBlock tpb)
      | _ \<Rightarrow> Err SpamRateNotFound)"

definition cli_env_vars_parser :: "string \<Rightarrow> (string \<times> string, string) rresult" where
  "cli_env_vars_parser s =
     rbind (ok_or (find_char (CHR ''='') s) ''Invalid KEY=VALUE: No \"=\" found'') (\<lambda>i.
       if i = 0 then Err ''Empty Key: No Key found'' else Ok (take i s, drop (Suc i) s))"

section \<open>The environment of a command\<close>

record cli_env =
  ce_load_testconfig :: "string \<Rightarrow> (test_config, cli_error) rresult"
  ce_seedfile :: "(string, cli_error) rresult"
  ce_engine_provider :: "(unit, cli_error) rresult"
  ce_signer_of_key :: "string \<Rightarrow> signer option"
  ce_block_time :: "(u64, cli_error) rresult"
  ce_fund :: "address list \<Rightarrow> (unit, cli_error) rresult"
  ce_new_scenario :: "(unit, cli_error) rresult"
  ce_setup_cost :: "(u256, cli_error) rresult"
  ce_run_setup :: "(unit, cli_error) rresult"
  ce_max_spam_cost :: "(u256, cli_error) rresult"

definition engine_params :: "cli_env \<Rightarrow> auth_args \<Rightarrow> bool \<Rightarrow> (bool, cli_error) rresult" where
  "engine_params env a call_forkchoice =
     (if call_forkchoice \<and> (aa_auth_rpc_url a = None \<or> aa_jwt_secret a = None)
      then Err (CliArgs (EngineArgsRequired (aa_auth_rpc_url a) (aa_jwt_secret a)))
      else if aa_auth_rpc_url a \<noteq> None \<and> aa_jwt_secret a \<noteq> None
      then rbind (ce_engine_provider env) (\<lambda>_. Ok call_forkchoice)
      else Ok False)"

definition DEFAULT_PRV_KEYS :: "string list" where
  "DEFAULT_PRV_KEYS =
    [''0xac0974bec39a17e36ba4a6b4d238ff944bacb478cbed5efcae784d7bf4f2ff80'',
     ''0x59c6995e998f97a5a0044966f0945389dc9e86dae88c7a8412f4603b6b78690d'',
     ''0x5de4111afa1a4b94908f83103eb1f1706367c2e68ca870fc3fb9a804cdab365a'',
     ''0x7c852118294e51e653712a81e05800f419141751be58f605c371e15141b007a6'',
     ''0x47e179ec197488593b187f80a00eb0da91f1b9d0b13f8733639f19c30a34926a'',
     ''0x8b3a350cf5c34c9194ca85829a2df0ec3153be0318b5e2d3348e872092edffba'',
     ''0x92db14e403b83dfe3df233f83dfa3a0d7096f21ca9b0d6d6b8d88b2b4ec1564e'',
     ''0x4bbbf85ce3377467afe5d46f804f221813b2bb87f24d81f60f1fcdbf7cbf4356'',
     ''0xdbda1821b80551c9d65939329250298aa3472ba22feea921c0cf5d620ea67b97'',
     ''0x2a871d0798f97d79848a013d4936a73bf4cc922c825d33c1cf7073dff6d409c6'']"

definition get_signers_with_defaults ::
  "(string \<Rightarrow> signer option) \<Rightarrow> string list option \<Rightarrow> (signer list, 'e) rresult" where
  "get_signers_with_defaults signer_of private_keys =
     rmapM (\<lambda>k. expect (signer_of k)) (unwrap_or_default private_keys @ DEFAULT_PRV_KEYS)"

text \<open>The panics of \<open>check_private_keys\<close>: a \<open>from\<close> that is no address, or has no key.\<close>

definition check_private_key ::
  "ext \<Rightarrow> signer list \<Rightarrow> function_call_definition \<Rightarrow> (unit, 'e) rresult" where
  "check_private_key x prv_keys d =
     (case fd_from d of
        None \<Rightarrow> Ok ()
      | Some from_text \<Rightarrow>
          if prefix ''{'' from_text then Ok ()
          else (case x_parse_address x from_text of
                  Ok a \<Rightarrow> if list_all (\<lambda>k. sg_address k \<noteq> a) prv_keys then Panic else Ok ()
                | _ \<Rightarrow> Panic))"

definition check_private_keys_fns ::
  "ext \<Rightarrow> function_call_definition list \<Rightarrow> signer list \<Rightarrow> (unit, 'e) rresult" where
  "check_private_keys_fns x fn_calls prv_keys =
     rmap (\<lambda>_. ()) (rmapM (check_private_key x prv_keys) fn_calls)"

definition check_private_keys :: "ext \<Rightarrow> test_config \<Rightarrow> signer list \<Rightarrow> (unit, 'e) rresult" where
  "check_private_keys x cfg prv_keys =
     (case tc_spam cfg of
        None \<Rightarrow> Panic
      | Some spam \<Rightarrow>
          check_private_keys_fns x (unwrap_or_default (tc_setup cfg) @ concat (map spam_calls spam)) prv_keys)"

fun scenario_testconfig :: "cli_env \<Rightarrow> spam_scenario \<Rightarrow> (test_config, cli_error) rresult" where
  "scenario_testconfig env (Testfile f) = ce_load_testconfig env f"
| "scenario_testconfig env (Builtin k cfg) = Ok cfg"

definition testconfig ::
  "ext \<Rightarrow> cli_env \<Rightarrow> send_txs_args \<Rightarrow> spam_scenario \<Rightarrow> (test_config, cli_error) rresult" where
  "testconfig x env a scenario =
     rbind (scenario_testconfig env scenario) (\<lambda>cfg.
       if st_override_senders a
       then rbind (get_signers_with_defaults (ce_signer_of_key env) (st_private_keys a)) (\<lambda>sgs.
            rbind (index_at sgs 0) (\<lambda>sg. Ok (override_senders x cfg (sg_address sg))))
       else Ok cfg)"

definition merged_env :: "test_config \<Rightarrow> send_txs_args \<Rightarrow> test_config" where
  "merged_env cfg a =
     cfg\<lparr>tc_env := Some (hm_extend (unwrap_or_default (tc_env cfg)) (unwrap_or_default (st_env a)))\<rparr>"

section \<open>Seeds and agent pools of the two commands\<close>

text \<open>\<open>unwrap_or\<close> evaluates its argument: the seed file is read even if a seed is given.\<close>

definition command_seed ::
  "(string \<Rightarrow> nat \<Rightarrow> u256 option) \<Rightarrow> cli_env \<Rightarrow> string option \<Rightarrow> (rand_seed, cli_error) rresult" where
  "command_seed from_str_radix env seed_arg =
     rbind (ce_seedfile env) (\<lambda>stored.
       seed_from_str from_str_radix (case seed_arg of Some s \<Rightarrow> s | None \<Rightarrow> stored))"

definition setup_agent_spec :: "send_txs_args \<Rightarrow> agent_spec" where
  "setup_agent_spec a =
     (let n = unat (case st_accounts_per_agent a of Some k \<Rightarrow> k | None \<Rightarrow> 1)
      in agent_spec_default\<lparr>as_create_accounts := n, as_setup_accounts := n, as_spam_accounts := 0\<rparr>)"

definition spam_agent_spec :: "spam_scenario \<Rightarrow> send_txs_args \<Rightarrow> agent_spec" where
  "spam_agent_spec scenario a =
     (let n = unat (case st_accounts_per_agent a of Some k \<Rightarrow> k | None \<Rightarrow> 10);
          num_setup_create_agents = (if is_builtin scenario then 1 else 0)
      in agent_spec_default\<lparr>as_create_accounts := num_setup_create_agents,
           as_setup_accounts := num_setup_create_agents, as_spam_accounts := n\<rparr>)"

section \<open>\<open>init_scenario\<close>\<close>

definition txs_per_duration :: "send_spam_args \<Rightarrow> test_config \<Rightarrow> u64" where
  "txs_per_duration a cfg =
     (case sp_txs_per_block a of
        Some n \<Rightarrow> n
      | None \<Rightarrow> (case sp_txs_per_second a of
                   Some n \<Rightarrow> n
                 | None \<Rightarrow> word_of_nat (length (unwrap_or_default (tc_spam cfg)))))"

definition clamp_batch_size :: "spam_cli_args \<Rightarrow> u64 \<Rightarrow> u64" where
  "clamp_batch_size a tpd =
     (let n = (if ca_send_raw_tx_sync a \<and> 0 < ca_rpc_batch_size a then 0 else ca_rpc_batch_size a)
      in if 0 < n then (if tpd = 0 then 0 else if tpd < n then tpd else n) else n)"

fun blob_data_of :: "spam_request \<Rightarrow> string option" where
  "blob_data_of (SpamBundle txs) = None"
| "blob_data_of (SpamTx d) = fd_blob_data d"

fun authorization_of :: "spam_request \<Rightarrow> string option" where
  "authorization_of (SpamBundle txs) = None"
| "authorization_of (SpamTx d) = fd_authorization_address d"

definition check_spam_steps ::
  "spam_scenario \<Rightarrow> spam_cli_args \<Rightarrow> test_config \<Rightarrow> (unit, cli_error) rresult" where
  "check_spam_steps scenario a cfg =
     (case tc_spam cfg of
        None \<Rightarrow> Ok ()
      | Some spam \<Rightarrow>
          let ty = st_tx_type (ca_rpc a)
          in if spam = [] then Err (CliArgs SpamNotFound)
             else if sp_builder_url (ca_spam a) = None \<and> list_ex is_bundle spam
             then Err (CliArgs BuilderUrlRequiredForBundles)
             else if is_builtin scenario then Ok ()
             else if list_ex (\<lambda>sp. blob_data_of sp \<noteq> None) spam \<and> ty \<noteq> Eip4844
             then Err (CliArgs (TxTypeInvalid ty Eip4844))
             else if list_ex (\<lambda>sp. authorization_of sp \<noteq> None) spam \<and> ty \<noteq> Eip7702
             then Err (CliArgs (TxTypeInvalid ty Eip7702))
             else Ok ())"

definition scenario_tx_type :: "spam_scenario \<Rightarrow> tx_type \<Rightarrow> tx_type" where
  "scenario_tx_type scenario ty =
     (case scenario of
        Builtin BuiltinBlobs _ \<Rightarrow> Eip4844
      | Builtin BuiltinSetCode _ \<Rightarrow> Eip7702
      | _ \<Rightarrow> ty)"

record scenario_params =
  pa_config :: test_config
  pa_seed :: rand_seed
  pa_signers :: "signer list"
  pa_agent_spec :: agent_spec
  pa_agents :: agent_store
  pa_tx_type :: tx_type
  pa_bundle_type :: bundle_type
  pa_builder_url :: "string option"
  pa_pending_timeout_secs :: u64
  pa_sync_nonces :: bool
  pa_rpc_batch_size :: u64
  pa_gas_price :: "u256 option"
  pa_label :: "string option"
  pa_send_raw_tx_sync :: bool

definition run_builtin_setup ::
  "cli_env \<Rightarrow> spam_scenario \<Rightarrow> spam_cli_args \<Rightarrow> (unit, cli_error) rresult" where
  "run_builtin_setup env scenario a =
     (if is_builtin scenario \<and> \<not> ca_skip_setup a
      then rbind (ce_setup_cost env) (\<lambda>setup_cost.
           if st_min_balance (ca_rpc a) < setup_cost
           then Err (CliArgs (MinBalanceInsufficient (st_min_balance (ca_rpc a)) setup_cost))
           else ce_run_setup env)
      else Ok ())"

definition check_spam_cost :: "cli_env \<Rightarrow> spam_cli_args \<Rightarrow> (unit, cli_error) rresult" where
  "check_spam_cost env a =
     rbind (ce_max_spam_cost env) (\<lambda>cost.
       let total_cost = ucast (sp_duration (ca_spam a)) * cost
       in if st_min_balance (ca_rpc a) < total_cost
          then Err (CliArgs (MinBalanceInsufficient (st_min_balance (ca_rpc a)) total_cost))
          else Ok ())"

text \<open>
  The order of the checks is that of the source.  \<open>keccak\<close> and \<open>signer_of\<close> derive the
  signers of the agent pools.
\<close>

definition init_scenario ::
  "ext \<Rightarrow> (u8 list \<Rightarrow> u8 list) \<Rightarrow> signer_fn \<Rightarrow> cli_env \<Rightarrow> spam_scenario \<Rightarrow> spam_cli_args \<Rightarrow> rand_seed
    \<Rightarrow> (scenario_params, cli_error) rresult" where
  "init_scenario x keccak signer_of env scenario a s =
     rbind (testconfig x env (ca_rpc a) scenario) (\<lambda>cfg0.
     rbind (engine_params env (st_auth_args (ca_rpc a)) (st_call_forkchoice (ca_rpc a))) (\<lambda>_.
     let sp = ca_spam a;
         tpd = txs_per_duration sp cfg0;
         spam_len = (word_of_nat (length (unwrap_or_default (tc_spam cfg0))) :: u64)
     in if tpd * sp_duration sp < spam_len
        then Err (CliArgs (TransactionsPerDurationInsufficient spam_len tpd))
        else
     rbind (check_spam_steps scenario a cfg0) (\<lambda>_.
     rbind (get_signers_with_defaults (ce_signer_of_key env) (st_private_keys (ca_rpc a))) (\<lambda>user_signers.
     rbind (ce_block_time env) (\<lambda>block_time.
     let cfg = merged_env cfg0 (ca_rpc a) in
     rbind (check_private_keys x cfg user_signers) (\<lambda>_.
     if sp_txs_per_block sp \<noteq> None \<and> sp_txs_per_second sp \<noteq> None then Panic
     else if sp_txs_per_block sp = None \<and> sp_txs_per_second sp = None then Panic
     else
     rbind (build_agent_store keccak signer_of cfg s (spam_agent_spec scenario (ca_rpc a))) (\<lambda>agents.
     rbind (if st_override_senders (ca_rpc a) then Ok () else ce_fund env (all_signer_addresses agents)) (\<lambda>_.
     rbind (ce_new_scenario env) (\<lambda>_.
     rbind (run_builtin_setup env scenario a) (\<lambda>_.
     rbind (check_spam_cost env a) (\<lambda>_.
     Ok \<lparr>pa_config = cfg, pa_seed = s, pa_signers = user_signers,
         pa_agent_spec = spam_agent_spec scenario (ca_rpc a), pa_agents = agents,
         pa_tx_type = scenario_tx_type scenario (st_tx_type (ca_rpc a)),
         pa_bundle_type = st_bundle_type (ca_rpc a), pa_builder_url = sp_builder_url sp,
         pa_pending_timeout_secs = sp_pending_timeout sp * block_time,
         pa_sync_nonces = (\<not> ca_optimistic_nonces a),
         pa_rpc_batch_size = clamp_batch_size a tpd, pa_gas_price = st_gas_price (ca_rpc a),
         pa_label = st_scenario_label (ca_rpc a), pa_send_raw_tx_sync = ca_send_raw_tx_sync a\<rparr>)))))))))))"

text \<open>\<open>spam\<close> tries \<open>init_scenario\<close> up to three times; \<open>attempts\<close> are the results of the tries.\<close>

fun init_with_retries :: "('a, cli_error) rresult list \<Rightarrow> nat \<Rightarrow> cli_error option \<Rightarrow> ('a, cli_error) rresult" where
  "init_with_retries attempts 0 last_err = (case last_err of Some e \<Rightarrow> Err e | None \<Rightarrow> Panic)"
| "init_with_retries [] (Suc n) last_err = Err CliAborted"
| "init_with_retries (r # rs) (Suc n) last_err =
     (case r of
        Ok s \<Rightarrow> Ok s
      | Err e \<Rightarrow> if \<not> is_recoverable e then Err e else init_with_retries rs n (Some e)
      | Panic \<Rightarrow> Panic)"

section \<open>The run\<close>

datatype typed_spammer = BlockwiseSpammer | TimedSpammer u64

definition choose_spammer ::
  "send_spam_args \<Rightarrow> (typed_spammer \<times> u64 \<times> spam_duration, cli_error) rresult" where
  "choose_spammer sp =
     (case sp_txs_per_block sp of
        Some n \<Rightarrow> Ok (BlockwiseSpammer, n, Blocks (sp_duration sp))
      | None \<Rightarrow>
          (case sp_txs_per_second sp of
             Some n \<Rightarrow> Ok (TimedSpammer 1, n, Seconds (sp_duration sp))
           | None \<Rightarrow> Err (CliArgs SpamRateNotFound)))"

datatype typed_callback = CallbackLog bool | CallbackNil

definition spam_callback_default :: "bool \<Rightarrow> bool \<Rightarrow> bool \<Rightarrow> typed_callback" where
  "spam_callback_default log_txs send_fcu has_rpc_client =
     (if has_rpc_client \<and> log_txs then CallbackLog send_fcu else CallbackNil)"

record campaign_context =
  cx_campaign_id :: "string option"
  cx_campaign_name :: "string option"
  cx_stage_name :: "string option"
  cx_scenario_name :: "string option"

fun base_scenario_name :: "spam_scenario \<Rightarrow> string" where
  "base_scenario_name (Testfile f) = f"
| "base_scenario_name (Builtin BuiltinBlobs c) = ''blobs''"
| "base_scenario_name (Builtin BuiltinSetCode c) = ''setCode (eip-7702)''"
| "base_scenario_name (Builtin (BuiltinOther title) c) = title"

definition spam_run_request_of ::
  "spam_scenario \<Rightarrow> spam_cli_args \<Rightarrow> campaign_context \<Rightarrow> u64 \<Rightarrow> u64 \<Rightarrow> spam_duration \<Rightarrow> u64 \<Rightarrow> spam_run_request" where
  "spam_run_request_of scenario a cx block_time txs_per_batch duration timestamp =
     \<lparr>srq_timestamp = timestamp, srq_tx_count = txs_per_batch * sp_duration (ca_spam a),
      srq_scenario_name = (case cx_scenario_name cx of Some n \<Rightarrow> n | None \<Rightarrow> base_scenario_name scenario),
      srq_campaign_id = cx_campaign_id cx, srq_campaign_name = cx_campaign_name cx,
      srq_stage_name = cx_stage_name cx, srq_rpc_url = st_rpc_url (ca_rpc a),
      srq_txs_per_duration = txs_per_batch, srq_duration = duration,
      srq_pending_timeout_secs = block_time * sp_pending_timeout (ca_spam a)\<rparr>"

section \<open>Lemmas\<close>

lemma clamp_batch_size_le: "clamp_batch_size a tpd \<le> tpd"
  by (auto simp: clamp_batch_size_def Let_def not_less)

lemma clamp_batch_size_sync: "ca_send_raw_tx_sync a \<Longrightarrow> clamp_batch_size a tpd = 0"
  by (auto simp: clamp_batch_size_def Let_def word_gt_0)

definition has_private_key :: "ext \<Rightarrow> signer list \<Rightarrow> function_call_definition \<Rightarrow> bool" where
  "has_private_key x sgs d =
     (case fd_from d of
        None \<Rightarrow> True
      | Some t \<Rightarrow> prefix ''{'' t \<or>
          (case x_parse_address x t of Ok a \<Rightarrow> list_ex (\<lambda>k. sg_address k = a) sgs | _ \<Rightarrow> False))"

lemma check_private_keys_fns_Ok:
  "check_private_keys_fns x ds sgs = (Ok u :: (unit, 'e) rresult) \<Longrightarrow> list_all (has_private_key x sgs) ds"
proof -
  assume "check_private_keys_fns x ds sgs = (Ok u :: (unit, 'e) rresult)"
  then obtain us where "list_all2 (\<lambda>d v. check_private_key x sgs d = (Ok v :: (unit, 'e) rresult)) ds us"
    by (auto simp: check_private_keys_fns_def rmapM_eq_Ok)
  moreover have "check_private_key x sgs d = (Ok v :: (unit, 'e) rresult) \<Longrightarrow> has_private_key x sgs d" for d v
    by (auto simp: check_private_key_def has_private_key_def list_all_iff list_ex_iff
        split: option.splits if_splits rresult.splits)
  ultimately show ?thesis by (auto simp: list_all2_conv_all_nth list_all_length)
qed

lemma check_private_keys_Ok:
  assumes "check_private_keys x cfg sgs = Ok u"
  obtains spam where "tc_spam cfg = Some spam"
    "list_all (has_private_key x sgs) (unwrap_or_default (tc_setup cfg) @ concat (map spam_calls spam))"
  using assms by (auto simp: check_private_keys_def split: option.splits dest: check_private_keys_fns_Ok)

lemma check_spam_steps_Ok:
  assumes "check_spam_steps scenario a cfg = Ok u" and "tc_spam cfg = Some spam"
  shows "spam \<noteq> [] \<and> (list_ex is_bundle spam \<longrightarrow> sp_builder_url (ca_spam a) \<noteq> None) \<and>
    (\<not> is_builtin scenario \<longrightarrow>
      (list_ex (\<lambda>sp. blob_data_of sp \<noteq> None) spam \<longrightarrow> st_tx_type (ca_rpc a) = Eip4844) \<and>
      (list_ex (\<lambda>sp. authorization_of sp \<noteq> None) spam \<longrightarrow> st_tx_type (ca_rpc a) = Eip7702))"
  using assms by (auto simp: check_spam_steps_def Let_def split: if_splits)

lemma merged_env_fields [simp]:
  "tc_spam (merged_env cfg a) = tc_spam cfg" "tc_setup (merged_env cfg a) = tc_setup cfg"
  by (simp_all add: merged_env_def)

lemma scenario_tx_type_file [simp]: "\<not> is_builtin scenario \<Longrightarrow> scenario_tx_type scenario ty = ty"
  by (cases scenario) (simp_all add: scenario_tx_type_def)

lemma txs_per_duration_cong: "tc_spam cfg = tc_spam cfg' \<Longrightarrow> txs_per_duration a cfg = txs_per_duration a cfg'"
  by (simp add: txs_per_duration_def split: option.splits)

lemma init_scenario_Ok:
  assumes "init_scenario x keccak signer_of env scenario a s = Ok p"
  obtains cfg0 u v where
    "check_spam_steps scenario a cfg0 = Ok u"
    "check_private_keys x (pa_config p) (pa_signers p) = (Ok v :: (unit, cli_error) rresult)"
    "pa_config p = merged_env cfg0 (ca_rpc a)"
    "\<not> txs_per_duration (ca_spam a) cfg0 * sp_duration (ca_spam a)
       < word_of_nat (length (unwrap_or_default (tc_spam cfg0)))"
    "(sp_txs_per_block (ca_spam a) = None) \<noteq> (sp_txs_per_second (ca_spam a) = None)"
    "build_agent_store keccak signer_of (pa_config p) s (spam_agent_spec scenario (ca_rpc a)) = (Ok (pa_agents p) :: (_, cli_error) rresult)"
    "check_spam_cost env a = Ok ()"
    "pa_tx_type p = scenario_tx_type scenario (st_tx_type (ca_rpc a))"
    "pa_builder_url p = sp_builder_url (ca_spam a)"
    "pa_rpc_batch_size p = clamp_batch_size a (txs_per_duration (ca_spam a) cfg0)"
  using assms unfolding init_scenario_def Let_def by (auto split: if_splits)

section \<open>Properties\<close>

text \<open>
  C39. A scenario is only started with consistent arguments.  If \<open>init_scenario\<close>
  succeeds, exactly one of the two rates is set; there are spam steps and the
  rate and duration cover them; bundles have a builder; blob and set-code steps
  of a test file are sent with the transaction type they need; every literal
  sender of a setup or spam step has a private key; the JSON-RPC batch size is at
  most the rate and zero in synchronous mode; and the minimum balance covers the
  estimated cost of the run.
\<close>

theorem init_scenario_checked:
  assumes "init_scenario x keccak signer_of env scenario a s = Ok p"
  shows "let sp = ca_spam a; rate = txs_per_duration sp (pa_config p) in
    ((sp_txs_per_block sp = None) \<noteq> (sp_txs_per_second sp = None)) \<and>
    pa_rpc_batch_size p \<le> rate \<and> (ca_send_raw_tx_sync a \<longrightarrow> pa_rpc_batch_size p = 0) \<and>
    (\<exists>cost. ce_max_spam_cost env = Ok cost \<and> ucast (sp_duration sp) * cost \<le> st_min_balance (ca_rpc a)) \<and>
    (\<exists>spam. tc_spam (pa_config p) = Some spam \<and> spam \<noteq> [] \<and>
      word_of_nat (length spam) \<le> rate * sp_duration sp \<and>
      (list_ex is_bundle spam \<longrightarrow> pa_builder_url p \<noteq> None) \<and>
      (\<not> is_builtin scenario \<longrightarrow>
        (list_ex (\<lambda>r. blob_data_of r \<noteq> None) spam \<longrightarrow> pa_tx_type p = Eip4844) \<and>
        (list_ex (\<lambda>r. authorization_of r \<noteq> None) spam \<longrightarrow> pa_tx_type p = Eip7702)) \<and>
      list_all (has_private_key x (pa_signers p))
        (unwrap_or_default (tc_setup (pa_config p)) @ concat (map spam_calls spam)))"
proof -
  from assms obtain cfg0 u v where
    steps: "check_spam_steps scenario a cfg0 = Ok u"
    and keys: "check_private_keys x (pa_config p) (pa_signers p) = (Ok v :: (unit, cli_error) rresult)"
    and cfg: "pa_config p = merged_env cfg0 (ca_rpc a)"
    and rate: "\<not> txs_per_duration (ca_spam a) cfg0 * sp_duration (ca_spam a)
       < word_of_nat (length (unwrap_or_default (tc_spam cfg0)))"
    and one: "(sp_txs_per_block (ca_spam a) = None) \<noteq> (sp_txs_per_second (ca_spam a) = None)"
    and cost: "check_spam_cost env a = Ok ()"
    and ty: "pa_tx_type p = scenario_tx_type scenario (st_tx_type (ca_rpc a))"
    and url: "pa_builder_url p = sp_builder_url (ca_spam a)"
    and batch: "pa_rpc_batch_size p = clamp_batch_size a (txs_per_duration (ca_spam a) cfg0)"
    by (rule init_scenario_Ok)
  from keys obtain spam where spam: "tc_spam (pa_config p) = Some spam"
    and key: "list_all (has_private_key x (pa_signers p))
        (unwrap_or_default (tc_setup (pa_config p)) @ concat (map spam_calls spam))"
    by (rule check_private_keys_Ok)
  have spam0: "tc_spam cfg0 = Some spam" using spam by (simp add: cfg)
  have same: "txs_per_duration (ca_spam a) (pa_config p) = txs_per_duration (ca_spam a) cfg0"
    by (rule txs_per_duration_cong) (simp add: spam spam0)
  have "\<exists>c. ce_max_spam_cost env = Ok c \<and> ucast (sp_duration (ca_spam a)) * c \<le> st_min_balance (ca_rpc a)"
    using cost by (auto simp: check_spam_cost_def Let_def not_less split: if_splits)
  moreover have "word_of_nat (length spam) \<le> txs_per_duration (ca_spam a) (pa_config p) * sp_duration (ca_spam a)"
    using rate by (simp add: same spam0 unwrap_or_default_def)
  moreover have "pa_rpc_batch_size p \<le> txs_per_duration (ca_spam a) (pa_config p)"
    by (simp add: batch same clamp_batch_size_le)
  moreover have "ca_send_raw_tx_sync a \<longrightarrow> pa_rpc_batch_size p = 0"
    by (simp add: batch clamp_batch_size_sync)
  ultimately show ?thesis
    using check_spam_steps_Ok [OF steps spam0] one key spam by (simp add: Let_def url ty)
qed

section \<open>Instances\<close>

lemma merged_env_pools:
  "get_create_pools (merged_env cfg a) = get_create_pools cfg"
  "get_setup_pools (merged_env cfg a) = get_setup_pools cfg"
  "get_spam_pools (merged_env cfg a) = get_spam_pools cfg"
  by (simp_all add: merged_env_def get_create_pools_def get_setup_pools_def get_spam_pools_def
      get_create_steps_def get_setup_steps_def get_spam_steps_def)

definition demo_cli_env :: cli_env where
  "demo_cli_env =
     \<lparr>ce_load_testconfig = (\<lambda>f. Ok demo_config), ce_seedfile = Ok ''0x1'', ce_engine_provider = Ok (),
      ce_signer_of_key = (\<lambda>k. Some \<lparr>sg_key = [], sg_address = 1\<rparr>), ce_block_time = Ok 2,
      ce_fund = (\<lambda>as. Ok ()), ce_new_scenario = Ok (), ce_setup_cost = Ok 0, ce_run_setup = Ok (),
      ce_max_spam_cost = Ok 5\<rparr>"

definition demo_rpc_args :: send_txs_args where
  "demo_rpc_args =
     \<lparr>st_env = None, st_min_balance = 1000, st_private_keys = None, st_rpc_url = ''http://localhost:8545'',
      st_txs_url = None, st_scenario_label = None, st_seed = None, st_bundle_type = BundleL1,
      st_gas_price = None, st_tx_type = Eip1559, st_accounts_per_agent = None,
      st_override_senders = False, st_call_forkchoice = False,
      st_auth_args = \<lparr>aa_auth_rpc_url = None, aa_jwt_secret = None, aa_use_op = False\<rparr>\<rparr>"

definition demo_spam_args :: spam_cli_args where
  "demo_spam_args =
     \<lparr>ca_spam = \<lparr>sp_txs_per_second = Some 4, sp_txs_per_block = None, sp_duration = 3,
         sp_builder_url = None, sp_pending_timeout = 12, sp_run_forever = False\<rparr>,
      ca_testfile = None, ca_rpc = demo_rpc_args, ca_ignore_receipts = False,
      ca_optimistic_nonces = False, ca_gen_report = False, ca_skip_setup = False, ca_rpc_batch_size = 9,
      ca_send_raw_tx_sync = False, ca_flashblocks_ws_url = None, ca_report_interval = None\<rparr>"

lemma demo_spam_store:
  "\<exists>agents. build_agent_store keccak demo_signer_of (merged_env demo_config a) s
     (spam_agent_spec (Testfile f) demo_rpc_args) = Ok agents"
proof -
  have "\<exists>st. signer_store_new keccak demo_signer_of 10 s ''spammers'' Spammer = (Ok st :: (_, 'a) rresult)"
    by (rule demo_signers_total) simp
  then show ?thesis
    by (simp add: build_agent_store_def pool_max_signers_def pools_with_counts_def demo_pools merged_env_pools
        pool_entry_def hm_insert_def build_step_def add_new_agent_def spam_agent_spec_def agent_spec_default_def
        demo_rpc_args_def)
qed

lemma demo_init:
  "\<exists>p. init_scenario demo_ext keccak demo_signer_of demo_cli_env (Testfile f) demo_spam_args s = Ok p \<and>
     pa_config p = merged_env demo_config demo_rpc_args"
proof -
  have cfg: "testconfig demo_ext demo_cli_env demo_rpc_args (Testfile f) = Ok demo_config"
    by (simp add: testconfig_def demo_cli_env_def demo_rpc_args_def)
  have spam: "tc_spam demo_config = Some [SpamTx (function_call_new ''0x00'')]" "tc_setup demo_config = None"
    by (simp_all add: demo_config_def with_spam_def test_config_new_def)
  have signers: "\<exists>sgs. get_signers_with_defaults (ce_signer_of_key demo_cli_env) ks = (Ok sgs :: (_, cli_error) rresult)" for ks
    unfolding get_signers_with_defaults_def by (rule rmapM_exists) (simp add: demo_cli_env_def expect_def)
  have keys: "check_private_keys demo_ext (merged_env demo_config demo_rpc_args) sgs = (Ok () :: (_, cli_error) rresult)" for sgs
    by (simp add: check_private_keys_def spam check_private_keys_fns_def check_private_key_def
        function_call_new_def unwrap_or_default_def)
  have steps: "check_spam_steps (Testfile f) demo_spam_args demo_config = Ok ()"
    by (simp add: check_spam_steps_def spam demo_spam_args_def demo_rpc_args_def Let_def function_call_new_def)
  have eng: "engine_params demo_cli_env (st_auth_args demo_rpc_args) (st_call_forkchoice demo_rpc_args) = Ok False"
    by (simp add: engine_params_def demo_rpc_args_def)
  have rate: "\<not> txs_per_duration (ca_spam demo_spam_args) demo_config * sp_duration (ca_spam demo_spam_args)
      < word_of_nat (length (unwrap_or_default (tc_spam demo_config)))"
    by (simp add: txs_per_duration_def demo_spam_args_def spam unwrap_or_default_def)
  have cost: "check_spam_cost demo_cli_env demo_spam_args = Ok ()"
    "run_builtin_setup demo_cli_env (Testfile f) demo_spam_args = Ok ()"
    by (simp_all add: check_spam_cost_def demo_cli_env_def demo_spam_args_def demo_rpc_args_def
        run_builtin_setup_def)
  have env: "ce_block_time demo_cli_env = Ok 2" "ce_fund demo_cli_env as = Ok ()"
    "ce_new_scenario demo_cli_env = Ok ()" "ca_rpc demo_spam_args = demo_rpc_args"
    "sp_txs_per_block (ca_spam demo_spam_args) = None" "sp_txs_per_second (ca_spam demo_spam_args) = Some 4" for as
    by (simp_all add: demo_cli_env_def demo_spam_args_def)
  obtain sgs where "get_signers_with_defaults (ce_signer_of_key demo_cli_env) (st_private_keys demo_rpc_args)
      = (Ok sgs :: (_, cli_error) rresult)" using signers by blast
  moreover obtain agents where "build_agent_store keccak demo_signer_of (merged_env demo_config demo_rpc_args) s
     (spam_agent_spec (Testfile f) demo_rpc_args) = (Ok agents :: (_, cli_error) rresult)"
    using demo_spam_store by blast
  ultimately show ?thesis
    by (simp add: init_scenario_def Let_def env cfg eng rate steps keys cost)
qed

theorem init_scenario_checked_witness:
  "\<exists>p. init_scenario demo_ext (\<lambda>b. b) demo_signer_of demo_cli_env (Testfile ''s.toml'') demo_spam_args
      (seed_from_u256 1) = Ok p \<and> pa_rpc_batch_size p \<le> 4"
proof -
  obtain p where p: "init_scenario demo_ext (\<lambda>b. b) demo_signer_of demo_cli_env (Testfile ''s.toml'') demo_spam_args
      (seed_from_u256 1) = Ok p" using demo_init by blast
  have "txs_per_duration (ca_spam demo_spam_args) cfg = 4" for cfg
    by (simp add: txs_per_duration_def demo_spam_args_def)
  with init_scenario_checked [OF p] p show ?thesis unfolding Let_def by auto
qed

end
