(* ===== verification/Campaign_Run.thy ===== *)
theory Campaign_Run
  imports Cli_Spam
begin

text \<open>
  \<open>crates/cli/src/commands/campaign.rs\<close>: running a campaign.  The seed of every
  scenario is derived from the campaign's seed, the stage name and the position
  in the mix; a setup phase prepares the test-file scenarios, then the stages run
  one after the other, the scenarios of a stage in parallel.

  The commands a campaign starts (\<open>setup\<close>, \<open>init_scenario\<close>, \<open>spam_inner\<close>) act on a
  world \<open>'w\<close>; they are the fields of \<open>campaign_ops\<close>.  The runs of one stage that
  are joined together are one operation which returns the result of every task.
\<close>

section \<open>Arguments and names\<close>

record campaign_cli_args =
  cl_campaign :: string
  cl_rpc :: send_txs_args
  cl_builder_url :: "string option"
  cl_pending_timeout :: u64
  cl_rpc_batch_size :: u64
  cl_ignore_receipts :: bool
  cl_optimistic_nonces :: bool
  cl_gen_report :: bool
  cl_skip_setup :: bool
  cl_send_raw_tx_sync :: bool
  cl_run_forever :: bool
  cl_flashblocks_ws_url :: "string option"

definition bump_seed :: "(u8 list \<Rightarrow> u8 list) \<Rightarrow> string \<Rightarrow> string \<Rightarrow> string" where
  "bump_seed keccak base_seed stage_name =
     show_nat (be_val (map2 or (keccak (bytes_of_string base_seed)) (keccak (bytes_of_string stage_name))))"

function trim_start_matches :: "string \<Rightarrow> string \<Rightarrow> string" where
  "trim_start_matches s pat =
     (if pat \<noteq> [] \<and> prefix pat s then trim_start_matches (drop (length pat) s) pat else s)"
  by pat_completeness auto

termination trim_start_matches
  by (relation "measure (\<lambda>(s, pat). length s)") (auto simp: prefix_def)

declare trim_start_matches.simps [simp del]

definition strip_builtin_name :: "string \<Rightarrow> string" where
  "strip_builtin_name name = trim_start_matches (trim name) ''builtin:''"

datatype builtin_ref = RefErc20 | RefRevert | RefStress | RefUniV2

definition parse_builtin_reference :: "string \<Rightarrow> builtin_ref option" where
  "parse_builtin_reference name =
     (let norm = to_lowercase (strip_builtin_name name)
      in if norm = ''erc20'' then Some RefErc20
         else if norm = ''revert'' \<or> norm = ''reverts'' then Some RefRevert
         else if norm = ''stress'' then Some RefStress
         else if norm = ''uni_v2'' \<or> norm = ''univ2'' \<or> norm = ''uni-v2'' then Some RefUniV2
         else None)"

section \<open>The environment\<close>

record ('w, 'sc) campaign_ops =
  co_from_file :: "string \<Rightarrow> (campaign_config, cli_error) rresult"
  co_env :: cli_env
  co_from_str_radix :: "string \<Rightarrow> nat \<Rightarrow> u256 option"
  co_setup :: "spam_scenario \<Rightarrow> send_txs_args \<Rightarrow> rand_seed \<Rightarrow> ('w, unit, cli_error) action"
  co_builtin :: "builtin_ref \<Rightarrow> u64 option \<Rightarrow> rand_seed \<Rightarrow> spam_rate \<Rightarrow> (spam_scenario, cli_error) rresult"
  co_init :: "spam_scenario \<Rightarrow> spam_cli_args \<Rightarrow> rand_seed \<Rightarrow> ('w, 'sc, cli_error) action"
  co_spam :: "('sc \<times> spam_cli_args \<times> campaign_context) list
    \<Rightarrow> ('w, (u64 option, cli_error) rresult list, cli_error) action"
  co_timed_out :: "resolved_stage \<Rightarrow> ('w \<Rightarrow> 'w) option"
  co_report :: "u64 \<Rightarrow> u64 \<Rightarrow> ('w, unit, cli_error) action"

section \<open>Checking the stages\<close>

text \<open>
  The message of the insufficient-rate error contains \<open>spam_len.div_ceil(duration)\<close>, which
  panics for a duration of zero; otherwise the message is left out.
\<close>

definition validate_mix ::
  "cli_env \<Rightarrow> resolved_stage \<Rightarrow> resolved_mix_entry \<Rightarrow> (unit, cli_error) rresult" where
  "validate_mix env stage mix =
     (if rm_rate mix = 0 then Ok ()
      else if parse_builtin_reference (rm_scenario mix) \<noteq> None then Ok ()
      else rbind (ce_load_testconfig env (rm_scenario mix)) (\<lambda>cfg.
        let spam_len = (word_of_nat (length (unwrap_or_default (tc_spam cfg))) :: u64)
        in if spam_len = 0
           then Err (CliParamsInvalid (InvalidArgs ''no spam entries defined''))
           else if rm_rate mix * rs_duration stage < spam_len
           then (if rs_duration stage = 0 then Panic
                 else Err (CliParamsInvalid (InvalidArgs ''insufficient transactions'')))
           else Ok ()))"

definition validate_stage_rates :: "cli_env \<Rightarrow> resolved_stage list \<Rightarrow> (unit, cli_error) rresult" where
  "validate_stage_rates env stages =
     rmap (\<lambda>_. ()) (rmapM (\<lambda>stage. rmapM (validate_mix env stage) (rs_mix stage)) stages)"

section \<open>The setup phase\<close>

definition base_seed_of :: "cli_env \<Rightarrow> campaign_cli_args \<Rightarrow> campaign_config \<Rightarrow> (string, cli_error) rresult" where
  "base_seed_of env args cfg =
     rbind (ce_seedfile env) (\<lambda>stored. Ok (case st_seed (cl_rpc args) of
        Some s \<Rightarrow> s
      | None \<Rightarrow> (case csp_seed (cc_spam cfg) of Some n \<Rightarrow> show_nat (unat n) | None \<Rightarrow> stored)))"

definition setup_entries :: "resolved_stage list \<Rightarrow> (resolved_stage \<times> nat \<times> resolved_mix_entry) list" where
  "setup_entries stages =
     concat (map (\<lambda>stage. map (Pair stage)
       (filter (\<lambda>(idx, mix). rm_rate mix \<noteq> 0 \<and> parse_builtin_reference (rm_scenario mix) = None)
          (List.enumerate 0 (rs_mix stage)))) stages)"

definition setup_args ::
  "(u8 list \<Rightarrow> u8 list) \<Rightarrow> campaign_cli_args \<Rightarrow> string \<Rightarrow> resolved_stage \<Rightarrow> nat \<Rightarrow> send_txs_args" where
  "setup_args keccak args base_seed stage mix_idx =
     (cl_rpc args)\<lparr>st_seed := Some (bump_seed keccak (bump_seed keccak base_seed (rs_name stage)) (show_nat mix_idx)),
        st_accounts_per_agent := (case st_accounts_per_agent (cl_rpc args) of None \<Rightarrow> Some 10 | Some n \<Rightarrow> Some n)\<rparr>"

definition setup_phase ::
  "('w, 'sc) campaign_ops \<Rightarrow> (u8 list \<Rightarrow> u8 list) \<Rightarrow> campaign_cli_args \<Rightarrow> string \<Rightarrow> resolved_stage list
    \<Rightarrow> ('w, unit, cli_error) action" where
  "setup_phase ops keccak args base_seed stages =
     (if cl_skip_setup args then sreturn ()
      else sbind (smapM (\<lambda>(stage, idx, mix).
             let a = setup_args keccak args base_seed stage idx
             in sbind (slift (command_seed (co_from_str_radix ops) (co_env ops) (st_seed a))) (\<lambda>s.
                co_setup ops (Testfile (rm_scenario mix)) a s)) (setup_entries stages)) (\<lambda>_. sreturn ()))"

section \<open>One stage\<close>

definition create_spam_cli_args ::
  "string option \<Rightarrow> campaign_cli_args \<Rightarrow> campaign_mode \<Rightarrow> u64 \<Rightarrow> u64 \<Rightarrow> bool \<Rightarrow> spam_cli_args" where
  "create_spam_cli_args testfile args mode rate duration skip_setup =
     \<lparr>ca_spam = \<lparr>sp_txs_per_second = (if mode = Tps then Some rate else None),
         sp_txs_per_block = (if mode = Tpb then Some rate else None), sp_duration = duration,
         sp_builder_url = cl_builder_url args, sp_pending_timeout = cl_pending_timeout args,
         sp_run_forever = False\<rparr>,
      ca_testfile = testfile, ca_rpc = cl_rpc args, ca_ignore_receipts = cl_ignore_receipts args,
      ca_optimistic_nonces = cl_optimistic_nonces args, ca_gen_report = False, ca_skip_setup = skip_setup,
      ca_rpc_batch_size = cl_rpc_batch_size args, ca_send_raw_tx_sync = cl_send_raw_tx_sync args,
      ca_flashblocks_ws_url = cl_flashblocks_ws_url args, ca_report_interval = None\<rparr>"

definition to_context :: "string \<Rightarrow> campaign_config \<Rightarrow> resolved_stage \<Rightarrow> resolved_mix_entry \<Rightarrow> campaign_context" where
  "to_context campaign_id cfg stage mix =
     \<lparr>cx_campaign_id = Some campaign_id, cx_campaign_name = Some (cc_name cfg),
      cx_stage_name = Some (rs_name stage), cx_scenario_name = Some (rm_scenario mix)\<rparr>"

definition prepare_scenario ::
  "('w, 'sc) campaign_ops \<Rightarrow> (u8 list \<Rightarrow> u8 list) \<Rightarrow> campaign_cli_args \<Rightarrow> campaign_config \<Rightarrow> resolved_stage
    \<Rightarrow> string \<Rightarrow> nat \<times> resolved_mix_entry \<Rightarrow> (spam_scenario \<times> spam_cli_args \<times> rand_seed, cli_error) rresult" where
  "prepare_scenario ops keccak cargs cfg stage stage_seed = (\<lambda>(mix_idx, mix).
     let scenario_seed = bump_seed keccak stage_seed (show_nat mix_idx);
         args = cargs\<lparr>cl_rpc := (cl_rpc cargs)\<lparr>st_seed := Some scenario_seed\<rparr>\<rparr>;
         builtin = parse_builtin_reference (rm_scenario mix);
         skip_setup = (if builtin \<noteq> None then cl_skip_setup args else True);
         mode = csp_mode (cc_spam cfg);
         a = create_spam_cli_args (Some (rm_scenario mix)) args mode (rm_rate mix) (rs_duration stage) skip_setup
     in rbind (seed_from_str (co_from_str_radix ops) scenario_seed) (\<lambda>rand_seed.
        rbind (case builtin of
                 Some b \<Rightarrow> co_builtin ops b (st_accounts_per_agent (cl_rpc cargs)) rand_seed
                   (case mode of Tps \<Rightarrow> TxsPerSecond (rm_rate mix) | Tpb \<Rightarrow> TxsPerBlock (rm_rate mix))
               | None \<Rightarrow> Ok (Testfile (rm_scenario mix))) (\<lambda>scenario.
        rbind (command_seed (co_from_str_radix ops) (co_env ops) (st_seed (ca_rpc a))) (\<lambda>s.
        Ok (scenario, a, s)))))"

definition active_scenarios :: "resolved_stage \<Rightarrow> (nat \<times> resolved_mix_entry) list" where
  "active_scenarios stage = filter (\<lambda>(idx, mix). 0 < rm_rate mix) (List.enumerate 0 (rs_mix stage))"

definition joined :: "(u64 option, cli_error) rresult \<Rightarrow> (u64 option, cli_error) rresult" where
  "joined r = (case r of Panic \<Rightarrow> Err CliTaskJoin | _ \<Rightarrow> r)"

definition execute_stage ::
  "('w, 'sc) campaign_ops \<Rightarrow> (u8 list \<Rightarrow> u8 list) \<Rightarrow> campaign_cli_args \<Rightarrow> campaign_config \<Rightarrow> resolved_stage
    \<Rightarrow> string \<Rightarrow> string \<Rightarrow> ('w, u64 list, cli_error) action" where
  "execute_stage ops keccak args cfg stage campaign_id stage_seed =
     (let active = active_scenarios stage
      in if active = []
         then slift (Err (CliParamsInvalid (InvalidArgs ''no scenarios with non-zero rate after resolution'')))
         else
         sbind (smapM (\<lambda>(idx, mix).
             sbind (slift (prepare_scenario ops keccak args cfg stage stage_seed (idx, mix))) (\<lambda>(scenario, a, s).
             sbind (co_init ops scenario a s) (\<lambda>sc.
             sreturn (sc, a, to_context campaign_id cfg stage mix)))) active) (\<lambda>runs.
         sbind (co_spam ops runs) (\<lambda>results.
         sbind (slift (rmapM (if length active = 1 then (\<lambda>r. r) else joined) results)) (\<lambda>ids.
         sreturn (List.map_filter (\<lambda>i. i) ids)))))"

section \<open>The campaign\<close>

definition campaign_stage_run ::
  "('w, 'sc) campaign_ops \<Rightarrow> (u8 list \<Rightarrow> u8 list) \<Rightarrow> campaign_cli_args \<Rightarrow> campaign_config \<Rightarrow> string \<Rightarrow> string
    \<Rightarrow> resolved_stage \<Rightarrow> ('w, u64 list, cli_error) action" where
  "campaign_stage_run ops keccak args cfg campaign_id base_seed stage =
     (if st_override_senders (cl_rpc args) \<and> 1 < length (rs_mix stage)
      then slift (Err (CliParamsInvalid (InvalidArgs ''override-senders with multiple mix entries'')))
      else (case (if rs_stage_timeout stage = None then None else co_timed_out ops stage) of
              Some partial \<Rightarrow>
                (\<lambda>w. (partial w, Err (CliParamsInvalid (InvalidArgs ''stage exceeded timeout''))))
            | None \<Rightarrow>
                execute_stage ops keccak args cfg stage campaign_id (bump_seed keccak base_seed (rs_name stage))))"

text \<open>
  \<open>passes\<close> is the number of passes that end before the user interrupts the campaign.  The
  interrupted pass has completed \<open>fst interrupt\<close> stages, and the next stage has had the effect
  \<open>snd interrupt\<close>.
\<close>

fun campaign_loop ::
  "('w, 'sc) campaign_ops \<Rightarrow> (u8 list \<Rightarrow> u8 list) \<Rightarrow> campaign_cli_args \<Rightarrow> campaign_config \<Rightarrow> string \<Rightarrow> string
    \<Rightarrow> resolved_stage list \<Rightarrow> nat \<times> ('w \<Rightarrow> 'w) \<Rightarrow> nat \<Rightarrow> u64 list \<Rightarrow> ('w, u64 list, cli_error) action" where
  "campaign_loop ops keccak args cfg campaign_id base_seed stages interrupt 0 run_ids =
     sbind (smapM (campaign_stage_run ops keccak args cfg campaign_id base_seed) (take (fst interrupt) stages)) (\<lambda>idss.
     sbind (supdate (snd interrupt)) (\<lambda>_. sreturn (run_ids @ concat idss)))"
| "campaign_loop ops keccak args cfg campaign_id base_seed stages interrupt (Suc passes) run_ids =
     sbind (smapM (campaign_stage_run ops keccak args cfg campaign_id base_seed) stages) (\<lambda>idss.
       let ids = run_ids @ concat idss
       in if cl_run_forever args
          then campaign_loop ops keccak args cfg campaign_id base_seed stages interrupt passes ids
          else sreturn ids)"

definition report_range :: "u64 list \<Rightarrow> (u64 \<times> u64) option" where
  "report_range run_ids =
     (if run_ids = [] then None
      else let ids = sort run_ids in Some (last ids, last ids - hd ids))"

definition campaign_report ::
  "('w, 'sc) campaign_ops \<Rightarrow> campaign_cli_args \<Rightarrow> u64 list \<Rightarrow> ('w, unit, cli_error) action" where
  "campaign_report ops args run_ids =
     (if cl_gen_report args
      then (case report_range run_ids of
              None \<Rightarrow> sreturn ()
            | Some (last_run, preceding) \<Rightarrow> co_report ops last_run preceding)
      else sreturn ())"

definition run_campaign ::
  "('w, 'sc) campaign_ops \<Rightarrow> (u8 list \<Rightarrow> u8 list) \<Rightarrow> campaign_cli_args \<Rightarrow> string \<Rightarrow> nat \<times> ('w \<Rightarrow> 'w) \<Rightarrow> nat
    \<Rightarrow> ('w, unit, cli_error) action" where
  "run_campaign ops keccak args campaign_id interrupt passes =
     sbind (slift (co_from_file ops (cl_campaign args))) (\<lambda>cfg.
     sbind (slift (rmap_err CliTestFile (resolve cfg))) (\<lambda>stages.
     sbind (slift (validate_stage_rates (co_env ops) stages)) (\<lambda>_.
     sbind (slift (base_seed_of (co_env ops) args cfg)) (\<lambda>base_seed.
     sbind (setup_phase ops keccak args base_seed stages) (\<lambda>_.
     sbind (campaign_loop ops keccak args cfg campaign_id base_seed stages interrupt passes []) (\<lambda>run_ids.
     campaign_report ops args run_ids))))))"

section \<open>Lemmas\<close>

text \<open>The seed both phases use for an entry of a mix.\<close>

definition entry_seed :: "(u8 list \<Rightarrow> u8 list) \<Rightarrow> string \<Rightarrow> resolved_stage \<Rightarrow> nat \<Rightarrow> string" where
  "entry_seed keccak base_seed stage idx =
     bump_seed keccak (bump_seed keccak base_seed (rs_name stage)) (show_nat idx)"

lemma setup_args_seed [simp]: "st_seed (setup_args keccak args base_seed stage idx) = Some (entry_seed keccak base_seed stage idx)"
  by (simp add: setup_args_def entry_seed_def)

lemma setup_accounts:
  "as_create_accounts (setup_agent_spec (setup_args keccak args base_seed stage idx))
     = unat (case st_accounts_per_agent (cl_rpc args) of Some k \<Rightarrow> k | None \<Rightarrow> 10)"
  "as_setup_accounts (setup_agent_spec (setup_args keccak args base_seed stage idx))
     = unat (case st_accounts_per_agent (cl_rpc args) of Some k \<Rightarrow> k | None \<Rightarrow> 10)"
  "as_spam_accounts (setup_agent_spec a) = 0"
  by (simp_all add: setup_agent_spec_def setup_args_def Let_def split: option.splits)

lemma prepare_scenario_Ok:
  assumes "prepare_scenario ops keccak args cfg stage (bump_seed keccak base_seed (rs_name stage)) (idx, mix)
      = Ok (scenario, a, s)"
  shows "st_seed (ca_rpc a) = Some (entry_seed keccak base_seed stage idx) \<and>
    st_accounts_per_agent (ca_rpc a) = st_accounts_per_agent (cl_rpc args) \<and>
    command_seed (co_from_str_radix ops) (co_env ops) (Some (entry_seed keccak base_seed stage idx)) = Ok s \<and>
    (parse_builtin_reference (rm_scenario mix) = None \<longrightarrow> scenario = Testfile (rm_scenario mix) \<and> ca_skip_setup a)"
  using assms by (auto simp: prepare_scenario_def Let_def create_spam_cli_args_def entry_seed_def
      split: option.splits)

lemma spam_accounts:
  assumes "st_accounts_per_agent a = st_accounts_per_agent b"
  shows "as_create_accounts (spam_agent_spec (Testfile f) a) = 0" "as_setup_accounts (spam_agent_spec (Testfile f) a) = 0"
    "as_spam_accounts (spam_agent_spec (Testfile f) a)
      = unat (case st_accounts_per_agent b of Some k \<Rightarrow> k | None \<Rightarrow> 10)"
  using assms by (simp_all add: spam_agent_spec_def Let_def)

lemma active_in_setup_entries:
  assumes "stage \<in> set stages" and "(idx, mix) \<in> set (active_scenarios stage)"
    and "parse_builtin_reference (rm_scenario mix) = None"
  shows "(stage, idx, mix) \<in> set (setup_entries stages)"
  using assms by (auto simp: setup_entries_def active_scenarios_def word_gt_0 image_iff)

section \<open>Properties\<close>

text \<open>
  C28. The setup phase of a campaign prepares the accounts the spam phase uses.
  For every test-file scenario a stage spams with, the setup phase has an entry
  for the same scenario whose command has the same seed; and in a scenario file
  whose setup or create steps name a pool that the spam steps name too, the pool
  of the setup command and the pool of the spam command have the same signers
  (or both are empty), whatever number of accounts is requested.  The setup phase
  itself is left out under \<open>--skip-setup\<close>; then nothing is claimed.
\<close>

theorem setup_prepares_spam_accounts:
  assumes "stage \<in> set stages" and "(idx, mix) \<in> set (active_scenarios stage)"
    and "parse_builtin_reference (rm_scenario mix) = None"
    and "prepare_scenario ops keccak args cfg stage (bump_seed keccak base_seed (rs_name stage)) (idx, mix)
      = Ok (scenario, a, s)"
    and "build_agent_store keccak signer_of tc s (setup_agent_spec (setup_args keccak args base_seed stage idx))
      = (Ok setup_store :: (agent_store, 'e) rresult)"
    and "build_agent_store keccak signer_of tc s (spam_agent_spec scenario (ca_rpc a))
      = (Ok spam_store :: (agent_store, 'e) rresult)"
    and "p \<in> set (get_create_pools tc) \<union> set (get_setup_pools tc)" and "p \<in> set (get_spam_pools tc)"
  shows "(stage, idx, mix) \<in> set (setup_entries stages) \<and> scenario = Testfile (rm_scenario mix) \<and>
    command_seed (co_from_str_radix ops) (co_env ops) (st_seed (setup_args keccak args base_seed stage idx)) = Ok s \<and>
    map_option ss_signers (get_agent setup_store p) = map_option ss_signers (get_agent spam_store p)"
proof -
  note prep = prepare_scenario_Ok [OF assms(4)]
  then have tf: "scenario = Testfile (rm_scenario mix)" using assms(3) by blast
  let ?n = "unat (case st_accounts_per_agent (cl_rpc args) of Some k \<Rightarrow> k | None \<Rightarrow> 10)"
  have A: "(case get_agent setup_store p of Some x \<Rightarrow> length (ss_signers x) | None \<Rightarrow> 0) = ?n"
    using agent_store_counts [OF assms(5), of p] assms(7,8)
    unfolding setup_accounts by auto
  have B: "(case get_agent spam_store p of Some x \<Rightarrow> length (ss_signers x) | None \<Rightarrow> 0) = ?n"
    using agent_store_counts [OF assms(6), of p] assms(7,8) spam_accounts [of "ca_rpc a" "cl_rpc args"] prep
    by (simp add: tf)
  have "map_option ss_signers (get_agent setup_store p) = map_option ss_signers (get_agent spam_store p)"
    using A B by (intro agent_stores_agree_on [OF assms(5,6)]) simp
  with prep tf active_in_setup_entries [OF assms(1-3)] show ?thesis by simp
qed

text \<open>
  The report of a campaign covers all of its runs: every run id lies between
  the last run minus the number of preceding runs and the last run, both ends
  are runs of the campaign, and there is no report if there was no run.
\<close>

lemma report_covers_runs:
  "(case report_range run_ids of
      None \<Rightarrow> run_ids = []
    | Some (last_run, preceding) \<Rightarrow>
        last_run \<in> set run_ids \<and> last_run - preceding \<in> set run_ids \<and> preceding \<le> last_run \<and>
        list_all (\<lambda>i. last_run - preceding \<le> i \<and> i \<le> last_run) run_ids)"
proof (cases "run_ids = []")
  case False
  let ?ids = "sort run_ids"
  have set: "set ?ids = set run_ids" and srt: "sorted ?ids" by simp_all
  then have ne: "?ids \<noteq> []" using False by (metis set_empty)
  have lo: "hd ?ids \<le> i" if "i \<in> set ?ids" for i
    using that srt by (cases ?ids) auto
  have hi: "i \<le> last ?ids" if "i \<in> set ?ids" for i
  proof -
    from that obtain k where "k < length ?ids" "?ids ! k = i" unfolding in_set_conv_nth by blast
    with sorted_nth_mono [OF srt, of k "length ?ids - 1"] ne show ?thesis by (simp add: last_conv_nth)
  qed
  have "hd ?ids \<in> set run_ids" "last ?ids \<in> set run_ids" using ne set by (metis hd_in_set, metis last_in_set)
  moreover have "last ?ids - hd ?ids \<le> last ?ids"
    using hi [OF hd_in_set [OF ne]] by (simp add: word_sub_le)
  ultimately show ?thesis
    using lo hi set False by (simp add: report_range_def Let_def list_all_iff)
qed (simp add: report_range_def)

text \<open>A stage of zero seconds is not rejected but makes the check panic.\<close>

lemma validate_zero_duration:
  assumes "rm_rate mix \<noteq> 0" and "parse_builtin_reference (rm_scenario mix) = None"
    and "ce_load_testconfig env (rm_scenario mix) = Ok cfg"
    and "0 < length (unwrap_or_default (tc_spam cfg))" "length (unwrap_or_default (tc_spam cfg)) < 2 ^ 64"
    and "rs_duration stage = 0"
  shows "validate_mix env stage mix = Panic"
proof -
  have "(word_of_nat (length (unwrap_or_default (tc_spam cfg))) :: u64) \<noteq> 0"
    using assms(4,5) by (simp add: word_of_nat_eq_0_iff nat_dvd_not_less del: length_greater_0_conv)
  with assms show ?thesis by (simp add: validate_mix_def Let_def word_gt_0)
qed

section \<open>Instances\<close>

definition demo_ops :: "(unit, unit) campaign_ops" where
  "demo_ops =
     \<lparr>co_from_file = (\<lambda>f. Ok (demo_campaign (Some 60))), co_env = demo_cli_env,
      co_from_str_radix = (\<lambda>s r. Some 1), co_setup = (\<lambda>sc a s. sreturn ()),
      co_builtin = (\<lambda>b n s r. Ok (Testfile [])), co_init = (\<lambda>sc a s. sreturn ()),
      co_spam = (\<lambda>rs. sreturn []), co_timed_out = (\<lambda>st. None), co_report = (\<lambda>l p. sreturn ())\<rparr>"

definition demo_cli :: campaign_cli_args where
  "demo_cli =
     \<lparr>cl_campaign = ''c.toml'', cl_rpc = demo_rpc_args, cl_builder_url = None, cl_pending_timeout = 12,
      cl_rpc_batch_size = 0, cl_ignore_receipts = False, cl_optimistic_nonces = False,
      cl_gen_report = False, cl_skip_setup = False, cl_send_raw_tx_sync = False, cl_run_forever = False,
      cl_flashblocks_ws_url = None\<rparr>"

definition demo_shared_config :: test_config where
  "demo_shared_config =
     with_setup (with_spam test_config_new [SpamTx (function_call_new ''0x00'')])
       [with_from_pool (function_call_new ''0x00'') ''spammers'']"

lemma demo_shared_pools: "get_create_pools demo_shared_config = []"
  "get_setup_pools demo_shared_config = [''spammers'']" "get_spam_pools demo_shared_config = [''spammers'']"
  by (simp_all add: demo_shared_config_def with_spam_def with_setup_def test_config_new_def get_create_pools_def
      get_setup_pools_def get_spam_pools_def get_create_steps_def get_setup_steps_def with_from_pool_def
      get_spam_steps_def unwrap_or_default_def sort_dedup_def List.map_filter_def
      default_call_pool_def function_call_new_def)

lemma demo_shared_store:
  assumes "max (as_setup_accounts spec) (as_spam_accounts spec) = 10"
  shows "\<exists>agents. build_agent_store keccak demo_signer_of demo_shared_config s spec = Ok agents"
proof -
  have "\<exists>st. signer_store_new keccak demo_signer_of 10 s ''spammers'' cls = (Ok st :: (_, 'a) rresult)" for cls
    by (rule demo_signers_total) simp
  with assms show ?thesis
    by (simp add: build_agent_store_def pool_max_signers_def pools_with_counts_def demo_shared_pools
        pool_entry_def hm_insert_def hm_get_def build_step_def add_new_agent_def)
qed

definition demo_entry :: resolved_mix_entry where
  "demo_entry = \<lparr>rm_scenario = ''large.toml'', rm_share_pct = Fin (511 / 4), rm_rate = 100\<rparr>"

lemma demo_large: "rm_scenario demo_entry = ''large.toml''" "active_scenarios demo_resolved = [(1, demo_entry)]"
  by (simp_all add: demo_resolved_def mix_entry_def demo_mix_def active_scenarios_def enumerate_simps demo_entry_def)

lemma demo_not_builtin: "parse_builtin_reference ''large.toml'' = None"
  by (simp add: parse_builtin_reference_def Let_def strip_builtin_name_def trim_def trim_start_def is_ws_def
      trim_start_matches.simps to_lowercase_def to_lower_def)

lemma demo_prepared:
  "\<exists>a s. prepare_scenario demo_ops keccak demo_cli (demo_campaign (Some 60)) demo_resolved
     seed_text (1, demo_entry) = Ok (Testfile ''large.toml'', a, s) \<and>
     st_accounts_per_agent (ca_rpc a) = None"
  by (simp add: prepare_scenario_def Let_def demo_large demo_not_builtin demo_ops_def seed_from_str_def
      command_seed_def demo_cli_env_def create_spam_cli_args_def demo_cli_def demo_rpc_args_def
      split: if_splits)

theorem setup_prepares_spam_accounts_witness:
  "\<exists>(a :: spam_cli_args) s setup_store spam_store.
     build_agent_store (\<lambda>b. b) demo_signer_of demo_shared_config s
       (setup_agent_spec (setup_args (\<lambda>b. b) demo_cli ''1'' demo_resolved 1))
       = (Ok setup_store :: (agent_store, unit) rresult) \<and>
     build_agent_store (\<lambda>b. b) demo_signer_of demo_shared_config s
       (spam_agent_spec (Testfile ''large.toml'') (ca_rpc a)) = (Ok spam_store :: (agent_store, unit) rresult) \<and>
     map_option ss_signers (get_agent setup_store ''spammers'')
       = map_option ss_signers (get_agent spam_store ''spammers'')"
proof -
  obtain a s where prep: "prepare_scenario demo_ops (\<lambda>b. b) demo_cli (demo_campaign (Some 60)) demo_resolved
      (bump_seed (\<lambda>b. b) ''1'' (rs_name demo_resolved)) (1, demo_entry) = Ok (Testfile ''large.toml'', a, s)"
    and acc: "st_accounts_per_agent (ca_rpc a) = None" using demo_prepared by blast
  obtain A where A: "build_agent_store (\<lambda>b. b) demo_signer_of demo_shared_config s
      (setup_agent_spec (setup_args (\<lambda>b. b) demo_cli ''1'' demo_resolved 1)) = (Ok A :: (agent_store, unit) rresult)"
    using demo_shared_store [of "setup_agent_spec (setup_args (\<lambda>b. b) demo_cli ''1'' demo_resolved 1)"]
    by (auto simp: setup_accounts demo_cli_def demo_rpc_args_def)
  obtain B where B: "build_agent_store (\<lambda>b. b) demo_signer_of demo_shared_config s
      (spam_agent_spec (Testfile ''large.toml'') (ca_rpc a)) = (Ok B :: (agent_store, unit) rresult)"
    using demo_shared_store [of "spam_agent_spec (Testfile ''large.toml'') (ca_rpc a)"]
    by (auto simp: spam_agent_spec_def acc)
  have "demo_resolved \<in> set [demo_resolved]" "(1, demo_entry) \<in> set (active_scenarios demo_resolved)"
    "parse_builtin_reference (rm_scenario demo_entry) = None"
    by (simp_all add: demo_large demo_not_builtin)
  from setup_prepares_spam_accounts [OF this prep A B, of "''spammers''"]
  have "map_option ss_signers (get_agent A ''spammers'') = map_option ss_signers (get_agent B ''spammers'')"
    by (simp add: demo_shared_pools)
  with A B show ?thesis by blast
qed

end
