(* ===== verification/Scenario_Setup.thy ===== *)
theory Scenario_Setup
  imports Scenario_Prepare Sqlite_Db
begin

text \<open>
  Deployments and setup transactions of \<open>crates/core/src/test_scenario.rs\<close>:
  \<open>deploy_contract\<close>, \<open>deploy_contracts\<close> and \<open>run_setup\<close>, whose callbacks are run by
  the create and setup plans of the generator, and the accounting of
  \<open>estimate_setup_cost\<close>.

  The world of a callback is a database \<open>'d\<close> and a chain \<open>'c\<close>.  The answers of the
  node are the record \<open>node\<close>: sending a transaction gives the chain after it and
  its receipt, and \<open>nd_code_polls\<close> lists the answers to the polls of
  \<open>eth_getCode\<close> made before the time limit.
\<close>

section \<open>The node\<close>

record deploy_receipt =
  dr_tx_hash :: tx_hash
  dr_contract_address :: "address option"
  dr_status :: bool

record 'c node =
  nd_gas_price :: "'c \<Rightarrow> (u128, string) rresult"
  nd_chain_id :: "'c \<Rightarrow> (u64, string) rresult"
  nd_estimate_gas :: "'c \<Rightarrow> tx_request \<Rightarrow> (u64, string) rresult"
  nd_sign :: "tx_request \<Rightarrow> signer \<Rightarrow> (tx_hash, string) rresult"
  nd_send :: "'c \<Rightarrow> tx_request \<Rightarrow> 'c \<times> (deploy_receipt, core_error) rresult"
  nd_code_polls :: "'c \<Rightarrow> address \<Rightarrow> u8 list list"

type_synonym ('d, 'k, 'e) named_store = "'d \<Rightarrow> named_tx list \<Rightarrow> 'k \<Rightarrow> ('d, 'e) rresult"

section \<open>Deploying a contract\<close>

definition max_wait_secs :: u64 where
  "max_wait_secs = 10"

fun wait_for_code :: "address \<Rightarrow> u8 list list \<Rightarrow> (unit, core_error) rresult" where
  "wait_for_code a [] = Err (CoreRuntime (ContractCodeNotVisible a max_wait_secs))"
| "wait_for_code a (code # polls) = (if code \<noteq> [] then Ok () else wait_for_code a polls)"

definition send_and_confirm ::
  "'c node \<Rightarrow> tx_request \<Rightarrow> signer \<Rightarrow> ('d \<times> 'c, deploy_receipt, core_error) action" where
  "send_and_confirm nd tx sg = (\<lambda>(d, ch).
     case nd_sign nd tx sg of
       Ok _ \<Rightarrow> (case nd_send nd ch tx of (ch', r) \<Rightarrow> ((d, ch'), r))
     | Err e \<Rightarrow> ((d, ch), Err (CoreTransactionBuilderEth e))
     | Panic \<Rightarrow> ((d, ch), Panic))"

definition record_named ::
  "('d, 'k, 'e) named_store \<Rightarrow> ('e \<Rightarrow> db_error) \<Rightarrow> 'k \<Rightarrow> named_tx \<Rightarrow> ('d \<times> 'c, unit, core_error) action" where
  "record_named ins conv chain t = (\<lambda>(d, ch).
     case ins d [t] chain of
       Ok d' \<Rightarrow> ((d', ch), Ok ())
     | Err e \<Rightarrow> ((d, ch), Err (CoreDb (conv e)))
     | Panic \<Rightarrow> ((d, ch), Panic))"

record extra_tx_params =
  ex_gas_price :: u128
  ex_blob_gas_price :: u128
  ex_chain_id :: u64

definition deploy_contract ::
  "('d, 'k, 'e) named_store \<Rightarrow> ('e \<Rightarrow> db_error) \<Rightarrow> 'c node \<Rightarrow> 'k \<Rightarrow> string option \<Rightarrow> tx_type
    \<Rightarrow> extra_tx_params \<Rightarrow> signer \<Rightarrow> named_tx_request \<Rightarrow> ('d \<times> 'c, unit, core_error) action" where
  "deploy_contract ins conv nd chain label ty extra sg tx_req =
     sbind (sget snd) (\<lambda>ch.
     sbind (slift (rmap_err CoreRpc (nd_estimate_gas nd ch (ntr_tx tx_req)))) (\<lambda>gas_limit.
     let tx = complete_tx_request (ntr_tx tx_req) ty (ex_gas_price extra) (ex_gas_price extra div 10) gas_limit
                (ex_chain_id extra) (ex_blob_gas_price extra)
     in sbind (send_and_confirm nd tx sg) (\<lambda>receipt.
        let contract_address = (case dr_contract_address receipt of Some a \<Rightarrow> a | None \<Rightarrow> 0)
        in sbind (sget snd) (\<lambda>ch'.
           sbind (slift (wait_for_code contract_address (nd_code_polls nd ch' contract_address))) (\<lambda>_.
           case ntr_name tx_req of
             Some name \<Rightarrow>
               record_named ins conv chain
                 (named_tx_new (scenario_db_key name label) (dr_tx_hash receipt) (dr_contract_address receipt))
           | None \<Rightarrow> sreturn ())))))"

section \<open>Callbacks and plans\<close>

text \<open>A spawned task: its world afterwards and its result; a panic is a join error.\<close>

definition spawn_task ::
  "('w, unit, core_error) action \<Rightarrow> 'w \<Rightarrow> 'w \<times> Generator.task option" where
  "spawn_task m w =
     (case m w of
        (w', Ok _) \<Rightarrow> (w', Some TaskOk)
      | (w', Err e) \<Rightarrow> (w', Some (TaskErr e))
      | (w', Panic) \<Rightarrow> (w', Some TaskJoinErr))"

definition on_create ::
  "('d, 'k, 'e) named_store \<Rightarrow> ('e \<Rightarrow> db_error) \<Rightarrow> 'c node \<Rightarrow> 'k \<Rightarrow> string option \<Rightarrow> scenario
    \<Rightarrow> extra_tx_params \<Rightarrow> ('d \<times> 'c) callback" where
  "on_create ins conv nd chain label s extra w tx_req =
     rbind (ok_or (tx_from (ntr_tx tx_req)) (CoreRuntime (NamedTxMissingFromAddress tx_req))) (\<lambda>from_addr.
     rbind (expect (hm_get (sc_signer_map s) from_addr)) (\<lambda>wallet.
     Ok (spawn_task (deploy_contract ins conv nd chain label (sc_tx_type s) extra wallet tx_req) w)))"

text \<open>The generator methods of \<open>TestScenario\<close>: the plan reads the scenario's own fields.\<close>

definition scenario_gen :: "'w gen \<Rightarrow> scenario \<Rightarrow> 'w gen" where
  "scenario_gen g s =
     g\<lparr>g_chain_id := sc_chain_id s, g_nonce_map := sc_nonces s, g_setcode_signer := sc_setcode_signer s\<rparr>"

definition deploy_contracts ::
  "('d, 'k, 'e) named_store \<Rightarrow> ('e \<Rightarrow> db_error) \<Rightarrow> 'c node \<Rightarrow> 'k \<Rightarrow> ('d \<times> 'c) gen \<Rightarrow> rpc_env
    \<Rightarrow> scenario \<Rightarrow> 'd \<times> 'c \<Rightarrow> ('d \<times> 'c \<times> scenario, core_error) rresult" where
  "deploy_contracts ins conv nd chain g env s = (\<lambda>(d, ch).
     rbind (rmap_err CoreRpc (nd_gas_price nd ch)) (\<lambda>gas_price.
     case fetch_blob_gas_price env s of (s1, r) \<Rightarrow>
     rbind r (\<lambda>blob_gas_price.
     rbind (rmap_err CoreRpc (nd_chain_id nd ch)) (\<lambda>chain_id.
     let extra = \<lparr>ex_gas_price = gas_price, ex_blob_gas_price = blob_gas_price, ex_chain_id = chain_id\<rparr>
     in rbind (load_txs (scenario_gen g s1) (d, ch)
                 (PlanCreate (on_create ins conv nd chain (g_label g) s1 extra))) (\<lambda>((d', ch'), txs, nonces).
        Ok (d', ch', s1\<lparr>sc_nonces := nonces\<rparr>))))))"

section \<open>Setup transactions\<close>

text \<open>
  The task of a setup step.  If no gas limit is given and the estimate fails the step is
  skipped without an error.
\<close>

definition setup_tx ::
  "('d, 'k, 'e) named_store \<Rightarrow> ('e \<Rightarrow> db_error) \<Rightarrow> 'c node \<Rightarrow> 'k \<Rightarrow> (tx_hash \<Rightarrow> string) \<Rightarrow> tx_type
    \<Rightarrow> u128 \<Rightarrow> u64 \<Rightarrow> signer \<Rightarrow> named_tx_request \<Rightarrow> ('d \<times> 'c, unit, core_error) action" where
  "setup_tx ins conv nd chain hash_text ty blob_base_fee chain_id sg tx_req =
     sbind (sget snd) (\<lambda>ch.
     sbind (slift (rmap_err CoreRpc (nd_gas_price nd ch))) (\<lambda>gas_price.
     case (case tx_gas (ntr_tx tx_req) of
             Some gas \<Rightarrow> Ok gas | None \<Rightarrow> nd_estimate_gas nd ch (ntr_tx tx_req)) of
       Panic \<Rightarrow> slift Panic
     | Err _ \<Rightarrow> sreturn ()
     | Ok gas_limit \<Rightarrow>
         let tx = complete_tx_request (ntr_tx tx_req) ty gas_price (gas_price div 10) gas_limit chain_id blob_base_fee
         in sbind (send_and_confirm nd tx sg) (\<lambda>receipt.
            if \<not> dr_status receipt
            then slift (Err (CoreRuntime (SetupTxReverted
                   (case ntr_name tx_req of
                      Some n \<Rightarrow> n | None \<Rightarrow> (case ntr_kind tx_req of Some k \<Rightarrow> k | None \<Rightarrow> []))
                   (hash_text (dr_tx_hash receipt)))))
            else (case ntr_name tx_req of
                    Some name \<Rightarrow>
                      record_named ins conv chain
                        (named_tx_new name (dr_tx_hash receipt) (dr_contract_address receipt))
                  | None \<Rightarrow> sreturn ()))))"

definition on_setup ::
  "('d, 'k, 'e) named_store \<Rightarrow> ('e \<Rightarrow> db_error) \<Rightarrow> 'c node \<Rightarrow> 'k \<Rightarrow> (tx_hash \<Rightarrow> string) \<Rightarrow> scenario
    \<Rightarrow> u128 \<Rightarrow> ('d \<times> 'c) callback" where
  "on_setup ins conv nd chain hash_text s blob_base_fee w tx_req =
     rbind (ok_or (tx_from (ntr_tx tx_req)) (CoreRuntime (NamedTxMissingFromAddress tx_req))) (\<lambda>from_addr.
     rbind (ok_or (hm_get (sc_signer_map s) from_addr) (CoreRuntime (PrivateKeyMissing from_addr))) (\<lambda>sg.
     Ok (spawn_task (setup_tx ins conv nd chain hash_text (sc_tx_type s) blob_base_fee (sc_chain_id s) sg tx_req) w)))"

definition run_setup ::
  "('d, 'k, 'e) named_store \<Rightarrow> ('e \<Rightarrow> db_error) \<Rightarrow> 'c node \<Rightarrow> 'k \<Rightarrow> (tx_hash \<Rightarrow> string) \<Rightarrow> ('d \<times> 'c) gen
    \<Rightarrow> rpc_env \<Rightarrow> scenario \<Rightarrow> 'd \<times> 'c \<Rightarrow> ('d \<times> 'c \<times> scenario, core_error) rresult" where
  "run_setup ins conv nd chain hash_text g env s w =
     (case fetch_blob_gas_price env s of (s1, r) \<Rightarrow>
      rbind r (\<lambda>blob_base_fee.
      rbind (load_txs (scenario_gen g s1) w
               (PlanSetup (on_setup ins conv nd chain hash_text s1 blob_base_fee))) (\<lambda>((d', ch'), txs, nonces).
      Ok (d', ch', s1\<lparr>sc_nonces := nonces\<rparr>))))"

section \<open>The cost of a setup\<close>

definition fund_amount :: "nat \<Rightarrow> u256" where
  "fund_amount n = (if 999 \<le> n then word_of_nat (999999 * 10 ^ 18 div n) else word_of_nat (1000 * 10 ^ 18))"

definition setup_cost :: "(address \<times> u256) list \<Rightarrow> (address \<Rightarrow> u256) \<Rightarrow> u256" where
  "setup_cost start_balances new_balance =
     sum_list (map (\<lambda>(a, start). if start \<le> new_balance a then 0 else start - new_balance a) start_balances)"

section \<open>Lemmas: deployments\<close>

lemma wait_for_code_Ok: "wait_for_code a polls = Ok () \<longleftrightarrow> (\<exists>code \<in> set polls. code \<noteq> [])"
  by (induction polls) auto

lemma wait_for_code_Err:
  "list_all (\<lambda>code. code = []) polls \<Longrightarrow>
     wait_for_code a polls = Err (CoreRuntime (ContractCodeNotVisible a max_wait_secs))"
  by (induction polls) auto

lemma send_and_confirm_Ok [simp]:
  "send_and_confirm nd tx sg (d, ch) = ((d', ch'), Ok receipt) \<longleftrightarrow>
     d' = d \<and> nd_send nd ch tx = (ch', Ok receipt) \<and> (\<exists>h. nd_sign nd tx sg = Ok h)"
  by (auto simp: send_and_confirm_def split: rresult.splits prod.splits)

lemma record_named_Ok [simp]:
  "record_named ins conv chain t (d, ch) = ((d', ch'), Ok u) \<longleftrightarrow> ins d [t] chain = Ok d' \<and> ch' = ch"
  by (auto simp: record_named_def split: rresult.splits)

text \<open>The polls at the zero address find no code: no contract is deployed there.\<close>

definition no_code_at_zero :: "'c node \<Rightarrow> bool" where
  "no_code_at_zero nd \<longleftrightarrow> (\<forall>ch. list_all (\<lambda>code. code = []) (nd_code_polls nd ch 0))"

text \<open>An address at which the node has shown code.\<close>

definition code_seen :: "'c node \<Rightarrow> address \<Rightarrow> bool" where
  "code_seen nd a \<longleftrightarrow> (\<exists>ch. \<exists>code \<in> set (nd_code_polls nd ch a). code \<noteq> [])"

lemma code_seen_not_zero: "no_code_at_zero nd \<Longrightarrow> code_seen nd a \<Longrightarrow> a \<noteq> 0"
  by (auto simp: no_code_at_zero_def code_seen_def list_all_iff)

lemma deploy_contract_Ok:
  assumes "deploy_contract ins conv nd chain label ty extra sg tx (d, ch) = ((d', ch'), Ok ())"
    and "no_code_at_zero nd"
  shows "\<exists>h a. code_seen nd a \<and>
    (case ntr_name tx of
       Some n \<Rightarrow> ins d [named_tx_new (scenario_db_key n label) h (Some a)] chain = Ok d'
     | None \<Rightarrow> d' = d)"
proof -
  from assms(1) obtain ch1 and receipt :: deploy_receipt where
    polls: "wait_for_code (case dr_contract_address receipt of Some a \<Rightarrow> a | None \<Rightarrow> 0)
      (nd_code_polls nd ch1 (case dr_contract_address receipt of Some a \<Rightarrow> a | None \<Rightarrow> 0)) = Ok ()"
    and rec: "(case ntr_name tx of
        Some n \<Rightarrow> record_named ins conv chain
          (named_tx_new (scenario_db_key n label) (dr_tx_hash receipt) (dr_contract_address receipt))
      | None \<Rightarrow> sreturn ()) (d, ch1) = ((d', ch'), Ok ())"
    unfolding deploy_contract_def Let_def sbind_Ok sget_Ok slift_Ok by auto
  from polls obtain a where "code_seen nd a" and "dr_contract_address receipt = Some a"
    using assms(2) code_seen_not_zero
    by (cases "dr_contract_address receipt") (fastforce simp: wait_for_code_Ok code_seen_def)+
  with rec show ?thesis by (cases "ntr_name tx") auto
qed

lemma spawn_await_Ok:
  "call_and_await cb w tx = Ok w' \<Longrightarrow> cb w tx = Ok (spawn_task m w) \<Longrightarrow> m w = (w', Ok ())"
  by (auto simp: call_and_await_def spawn_task_def await_def
      split: rresult.splits prod.splits)

lemma on_create_Ok:
  assumes "call_and_await (on_create ins conv nd chain label s extra) w tx = Ok w'"
  obtains sg where "deploy_contract ins conv nd chain label (sc_tx_type s) extra sg tx w = (w', Ok ())"
proof -
  from assms obtain sg where
    "on_create ins conv nd chain label s extra w tx
       = Ok (spawn_task (deploy_contract ins conv nd chain label (sc_tx_type s) extra sg tx) w)"
    by (auto simp: call_and_await_def on_create_def)
  from spawn_await_Ok [OF assms this] that show ?thesis by blast
qed

lemma assign_nonce_name: "assign_nonce g w m tx = Ok (tx', m') \<Longrightarrow> ntr_name tx' = ntr_name tx"
  by (auto simp: assign_nonce_def)

lemma create_step_Ok:
  assumes "create_step g cb s d = Ok s'"
  shows "\<exists>tx. ntr_name tx = Some (cc_name (cd_contract d)) \<and>
    call_and_await cb (ps_world s) tx = Ok (ps_world s')"
proof -
  from assms obtain m and strict :: create_definition_strict and req tx nonces w' where
    "make_strict_create g d 0 = Ok strict"
    and tx: "assign_nonce g (ps_world s) (ps_nonces s)
      (builder_with_name (named_tx_request_new req None None) (cs_name strict)) = Ok (tx, nonces)"
    and "call_and_await cb (ps_world s) tx = Ok (ps_world s')"
    by (auto simp: create_step_def Let_def)
  then show ?thesis
    using assign_nonce_name [OF tx] by (auto simp: make_strict_create_def builder_with_name_def)
qed

context db_ops
begin

text \<open>A name is bound to a contract whose code was seen.\<close>

definition deployed :: "'n node \<Rightarrow> 'c \<Rightarrow> 'd \<Rightarrow> string \<Rightarrow> bool" where
  "deployed nd chain d key \<longleftrightarrow>
     (\<exists>t a. get_named d key chain = Ok (Some t) \<and> nt_address t = Some a \<and> code_seen nd a)"

lemma deployed_insert:
  assumes "invar d" and "storable chain t" and "insert_named d [t] chain = Ok d'"
    and "nt_address t = Some a" and "code_seen nd a"
  shows "deployed nd chain d' (nt_name t)"
    and "deployed nd chain d key \<Longrightarrow> deployed nd chain d' key"
  using get_named_insert [OF assms(1) _ assms(3)] assms(2,4,5) by (auto simp: deployed_def)

lemma create_step_deploys:
  assumes "create_step g (on_create insert_named conv nd chain label s extra) p d = Ok p'"
    and "no_code_at_zero nd" and "\<And>t. nt_address t \<noteq> None \<Longrightarrow> storable chain t" and "invar (fst (ps_world p))"
  shows "invar (fst (ps_world p'))"
    and "deployed nd chain (fst (ps_world p')) (scenario_db_key (cc_name (cd_contract d)) label)"
    and "deployed nd chain (fst (ps_world p)) key \<Longrightarrow> deployed nd chain (fst (ps_world p')) key"
proof -
  obtain tx where tx: "ntr_name tx = Some (cc_name (cd_contract d))"
    "call_and_await (on_create insert_named conv nd chain label s extra) (ps_world p) tx = Ok (ps_world p')"
    using create_step_Ok [OF assms(1)] by blast
  obtain sg where "deploy_contract insert_named conv nd chain label (sc_tx_type s) extra sg tx (ps_world p)
      = (ps_world p', Ok ())"
    using on_create_Ok [OF tx(2)] by blast
  then have "deploy_contract insert_named conv nd chain label (sc_tx_type s) extra sg tx
      (fst (ps_world p), snd (ps_world p)) = ((fst (ps_world p'), snd (ps_world p')), Ok ())" by simp
  from deploy_contract_Ok [OF this assms(2)] tx(1) obtain h a where a: "code_seen nd a"
    and ins: "insert_named (fst (ps_world p)) [named_tx_new (scenario_db_key (cc_name (cd_contract d)) label) h (Some a)]
        chain = Ok (fst (ps_world p'))" by auto
  let ?t = "named_tx_new (scenario_db_key (cc_name (cd_contract d)) label) h (Some a)"
  have t: "nt_address ?t = Some a" "nt_name ?t = scenario_db_key (cc_name (cd_contract d)) label"
    by (simp_all add: named_tx_new_def)
  then have st: "storable chain ?t" using assms(3) by simp
  show "invar (fst (ps_world p'))" using invar_insert [OF assms(4) _ ins] st by simp
  show "deployed nd chain (fst (ps_world p')) (scenario_db_key (cc_name (cd_contract d)) label)"
    using deployed_insert(1) [OF assms(4) st ins t(1) a] by (simp add: t)
  show "deployed nd chain (fst (ps_world p)) key \<Longrightarrow> deployed nd chain (fst (ps_world p')) key"
    using deployed_insert(2) [OF assms(4) st ins t(1) a] .
qed

lemma create_plan_deploys:
  assumes "rfoldl (create_step g (on_create insert_named conv nd chain label s extra)) p ds = Ok p'"
    and "no_code_at_zero nd" and "\<And>t. nt_address t \<noteq> None \<Longrightarrow> storable chain t" and "invar (fst (ps_world p))"
  shows "invar (fst (ps_world p')) \<and>
    (\<forall>d \<in> set ds. deployed nd chain (fst (ps_world p')) (scenario_db_key (cc_name (cd_contract d)) label))
    \<and> (\<forall>key. deployed nd chain (fst (ps_world p)) key \<longrightarrow> deployed nd chain (fst (ps_world p')) key)"
  using assms(1,4)
proof (induction ds arbitrary: p)
  case (Cons d ds)
  from Cons.prems(1) obtain q where
    q: "create_step g (on_create insert_named conv nd chain label s extra) p d = Ok q"
    and rest: "rfoldl (create_step g (on_create insert_named conv nd chain label s extra)) q ds = Ok p'" by auto
  note step = create_step_deploys [OF q assms(2,3) Cons.prems(2)]
  from Cons.IH [OF rest step(1)] step(2,3) show ?case by auto
qed simp

lemma deploy_contracts_plan:
  assumes "deploy_contracts insert_named conv nd chain g env s (d, ch) = Ok (d', ch', s')"
    and "no_code_at_zero nd" and "\<And>t. nt_address t \<noteq> None \<Longrightarrow> storable chain t" and "invar d"
  shows "invar d' \<and> (\<forall>step \<in> set (get_create_steps (g_conf g)).
    deployed nd chain d' (scenario_db_key (cc_name (cd_contract step)) (g_label g)))"
proof -
  have conf: "g_conf (scenario_gen g s1) = g_conf g" for s1 by (simp add: scenario_gen_def)
  from assms(1) obtain s1 and extra :: extra_tx_params and p' :: "('d \<times> 'a) plan_state" where
    plan: "rfoldl (create_step (scenario_gen g s1) (on_create insert_named conv nd chain (g_label g) s1 extra))
      (plan_init (scenario_gen g s1) (d, ch)) (get_create_steps (g_conf g)) = Ok p'"
    and world: "(d', ch') = ps_world p'"
    by (cases "fetch_blob_gas_price env s")
      (auto simp: deploy_contracts_def load_txs_def load_plan_def Let_def conf)
  from world have d': "d' = fst (ps_world p')" by (metis fst_conv)
  have "invar (fst (ps_world (plan_init (scenario_gen g s1) (d, ch))))"
    using assms(4) by (simp add: plan_init_def)
  from create_plan_deploys [OF plan assms(2,3) this] d' show ?thesis by auto
qed

lemmas deploy_contracts_invar = deploy_contracts_plan [THEN conjunct1]

lemma deploy_contracts_deploys:
  assumes "deploy_contracts insert_named conv nd chain g env s (d, ch) = Ok (d', ch', s')"
    and "no_code_at_zero nd" and "\<And>t. nt_address t \<noteq> None \<Longrightarrow> storable chain t" and "invar d"
    and "step \<in> set (get_create_steps (g_conf g))"
  shows "invar d'" and "deployed nd chain d' (scenario_db_key (cc_name (cd_contract step)) (g_label g))"
  using deploy_contracts_plan [OF assms(1-4)] assms(5) by blast+

end

lemma db_ops_sqlite:
  "hex_laws c \<Longrightarrow> db_ops (sqlite_insert_named e c raw_select) (sqlite_get_named e c) storable_named db_inv"
  by (unfold_locales; rule hex_laws.get_named_law)

section \<open>Properties\<close>

text \<open>
  C9. After the create steps of a scenario have run, every contract they
  name can be referred to by a placeholder: for each create step the name, under
  the key of the scenario's label, is in the database of that chain with an
  address at which the node has shown code, and looking up the placeholder gives
  the digits of that address.  The database invariant is kept.
\<close>

theorem deployed_contracts_resolve:
  assumes "hex_laws c"
    and "deploy_contracts (sqlite_insert_named e c raw_select) db_error_of_sqlite nd (url, genesis) g env s (d, ch)
      = Ok (d', ch', s')"
    and "no_code_at_zero nd" and "plain_text url" and "db_inv d"
    and "step \<in> set (get_create_steps (g_conf g))"
    and "cc_name (cd_contract step) \<notin> {SENDER_KEY, SETCODE_KEY}"
  shows "db_inv d' \<and> (\<exists>a. code_seen nd a \<and>
    lookup_placeholder x (\<lambda>k. rmap_err db_error_of_sqlite (sqlite_get_named e c d' k (url, genesis)))
      (g_label g) hm_empty (cc_name (cd_contract step))
    = Ok (hm_insert (cc_name (cd_contract step)) (x_address_hex x a) hm_empty))"
proof -
  have store: "db_ops (sqlite_insert_named e c raw_select) (sqlite_get_named e c) storable_named db_inv"
    using assms(1) by (rule db_ops_sqlite)
  have "nt_address t \<noteq> None \<Longrightarrow> storable_named (url, genesis) t" for t
    using assms(4) by (simp add: storable_named_def)
  note dep = db_ops.deploy_contracts_deploys [OF store assms(2,3) this assms(5,6)]
  from dep(2) obtain t a where "sqlite_get_named e c d' (scenario_db_key (cc_name (cd_contract step)) (g_label g))
      (url, genesis) = Ok (Some t)" "nt_address t = Some a" "code_seen nd a"
    by (auto simp: db_ops.deployed_def [OF store])
  then have "lookup_placeholder x (\<lambda>k. rmap_err db_error_of_sqlite (sqlite_get_named e c d' k (url, genesis)))
      (g_label g) hm_empty (cc_name (cd_contract step))
    = Ok (hm_insert (cc_name (cd_contract step)) (x_address_hex x a) hm_empty)"
    using assms(7) by (simp add: lookup_placeholder_def hm_contains_def)
  with dep(1) \<open>code_seen nd a\<close> show ?thesis by blast
qed

definition demo_create :: create_definition where
  "demo_create = create_definition_new \<lparr>cc_bytecode = ''60'', cc_name = ''weth''\<rparr>"

definition demo_create_gen :: "(sqlite_db \<times> unit) gen" where
  "demo_create_gen =
     \<lparr>g_conf = with_create test_config_new [demo_create],
      g_ext = demo_ext, g_seed = seed_from_u256 1,
      g_agents = [(''admin'', \<lparr>ss_signers = [\<lparr>sg_key = [1], sg_address = 7\<rparr>], ss_agent_class = Deployer\<rparr>)], g_chain_id = 1,
      g_nonce_map = [], g_setcode_signer = \<lparr>sg_key = [], sg_address = 0\<rparr>, g_label = Some ''v2'',
      g_lookup = (\<lambda>w k. Ok None), g_tx_count = (\<lambda>w a. Ok 5), g_sign = (\<lambda>s a. Ok []),
      g_g1_mul = (\<lambda>n. ([], [])), g_g2_mul = (\<lambda>n. (([], []), ([], [])))\<rparr>"

definition demo_node :: "unit node" where
  "demo_node =
     \<lparr>nd_gas_price = (\<lambda>ch. Ok 10), nd_chain_id = (\<lambda>ch. Ok 1),
      nd_estimate_gas = (\<lambda>ch tx. if tx_to tx = Some TxCreate then Ok 50000 else Err ''reverted''),
      nd_sign = (\<lambda>tx sg. Ok 1),
      nd_send = (\<lambda>ch tx. ((), Ok \<lparr>dr_tx_hash = 1, dr_contract_address = Some 0xAB, dr_status = True\<rparr>)),
      nd_code_polls = (\<lambda>ch a. if a = 0xAB then [[], [0x60]] else [[]])\<rparr>"

lemma demo_create_steps:
  "get_create_steps (with_create test_config_new [demo_create]) = [demo_create\<lparr>cd_from_pool := Some ''admin''\<rparr>]"
  by (simp add: get_create_steps_def with_create_def unwrap_or_default_def
      default_create_pool_def demo_create_def create_definition_new_def)

lemma demo_find_create:
  "find_create_placeholders demo_ext lk l (demo_create\<lparr>cd_from_pool := Some ''admin''\<rparr>) m = Ok m"
  by (simp add: find_create_placeholders_def find_in_all_def demo_create_def create_definition_new_def opt_list_def
      find_placeholder_values_def num_placeholders_def)

text \<open>A generator for the contract above whose deployer pool signs with account 7.\<close>

definition demo_deployer :: "'w gen \<Rightarrow> bool" where
  "demo_deployer g \<longleftrightarrow>
     g_conf g = with_create test_config_new [demo_create] \<and> g_ext g = demo_ext
     \<and> (\<exists>st. get_agent (g_agents g) ''admin'' = Some st \<and> ss_signers st \<noteq> []
            \<and> list_all (\<lambda>sg. sg_address sg = 7) (ss_signers st))
     \<and> (\<forall>w a. \<exists>n. g_tx_count g w a = Ok n)"

definition named_ready :: "sqlite_db \<Rightarrow> bool" where
  "named_ready d \<longleftrightarrow> ''rpc_urls'' \<in> set (tables d) \<and> ''named_txs'' \<in> set (tables d)"

definition can_deploy :: "scenario \<Rightarrow> bool" where
  "can_deploy s \<longleftrightarrow> hm_get (sc_signer_map s) 7 \<noteq> None \<and> sc_tx_type s = Eip1559"

lemma demo_create_gen_deployer: "demo_deployer demo_create_gen"
  by (simp add: demo_deployer_def demo_create_gen_def get_agent_def hm_get_def)

lemma demo_deployer_scenario: "demo_deployer (scenario_gen g s) = demo_deployer g"
  by (simp add: demo_deployer_def scenario_gen_def)

lemma demo_sender:
  assumes "demo_deployer g"
  shows "pool_sender (g_agents g) ''admin'' 0 = Ok 7"
proof -
  from assms obtain st where "get_agent (g_agents g) ''admin'' = Some st" "ss_signers st \<noteq> []"
    "list_all (\<lambda>sg. sg_address sg = 7) (ss_signers st)" by (auto simp: demo_deployer_def)
  then show ?thesis by (simp add: pool_sender_def get_address_def get_signer_def list_all_length)
qed

lemma demo_create_request:
  assumes "demo_deployer g"
  shows "\<exists>st r. make_strict_create g (demo_create\<lparr>cd_from_pool := Some ''admin''\<rparr>) 0 = Ok st
    \<and> cs_name st = ''weth'' \<and> template_contract_deploy demo_ext st [] = Ok r
    \<and> tx_from r = Some 7 \<and> tx_to r = Some TxCreate"
  using assms demo_sender [OF assms]
  by (simp add: make_strict_create_def demo_deployer_def resolve_sender_def demo_create_def create_definition_new_def
      template_contract_deploy_def deploy_bytecode_def) (simp add: demo_ext_def)

lemma demo_insert_any:
  assumes "named_ready d" and "plain_text url"
  shows "\<exists>d'. sqlite_insert_named demo_env std_codec (\<lambda>d s. Panic) d ts (url, h) = Ok d' \<and> named_ready d'"
proof -
  have rows: "tables (fold (insert_named_row std_codec i) ts d) = tables d" for i d
    by (induction ts arbitrary: d) (simp_all add: insert_named_row_def)
  have urls: "tables (insert_or_ignore_rpc_url d u x) = tables d" for u x
    by (simp add: insert_or_ignore_rpc_url_def)
  show ?thesis
    using assms by (simp add: named_ready_def sqlite_insert_named_def insert_named_txs_def get_rpc_url_id_def
        on_table_def get_pool_def demo_tables find_rpc_url_insert hex_laws.show_lower [OF std_codec_laws] Let_def rows urls)
qed

lemma demo_create_callback:
  assumes "tx_from (ntr_tx tx) = Some 7" and "tx_to (ntr_tx tx) = Some TxCreate" and "can_deploy s"
    and "named_ready d" and "plain_text url"
  shows "\<exists>d'. call_and_await (on_create (sqlite_insert_named demo_env std_codec (\<lambda>d s. Panic))
    db_error_of_sqlite demo_node (url, h) label s extra) (d, ()) tx = Ok (d', ()) \<and> named_ready d'"
proof -
  obtain ins where ins: "sqlite_insert_named demo_env std_codec (\<lambda>d s. Panic) d ts (url, h) = Ok (ins ts) \<and> named_ready (ins ts)"
    for ts using demo_insert_any [OF assms(4,5), of _ h] by metis
  obtain sg where "hm_get (sc_signer_map s) 7 = Some sg" using assms(3) by (auto simp: can_deploy_def)
  with assms(1,2,4) ins show ?thesis
    by (auto simp: call_and_await_def on_create_def spawn_task_def deploy_contract_def
        sbind_def sget_def slift_def demo_node_def send_and_confirm_def record_named_def await_def sreturn_def Let_def
        split: option.splits)
qed

lemma demo_deploys:
  assumes "demo_deployer g" and "get_env (g_conf g) = []" and "can_deploy s" and "named_ready d" and "plain_text url"
  shows "\<exists>d' s'. deploy_contracts (sqlite_insert_named demo_env std_codec (\<lambda>d s. Panic)) db_error_of_sqlite demo_node
    (url, h) g env s (d, ()) = Ok (d', (), s') \<and> named_ready d' \<and> can_deploy s'"
proof -
  let ?g = "scenario_gen g s"
  have dep: "demo_deployer ?g" using assms(1) by (simp add: demo_deployer_scenario)
  then have conf: "g_conf ?g = with_create test_config_new [demo_create]" "g_ext ?g = demo_ext"
    and env: "get_env (with_create test_config_new [demo_create]) = []"
    using assms(1,2) by (simp_all add: demo_deployer_def)
  obtain st r where st: "make_strict_create ?g (demo_create\<lparr>cd_from_pool := Some ''admin''\<rparr>) 0 = Ok st"
      "cs_name st = ''weth''" "template_contract_deploy demo_ext st [] = Ok r"
    and r: "tx_from r = Some 7" "tx_to r = Some TxCreate"
    using demo_create_request [OF dep] by blast
  have fetch: "fetch_blob_gas_price env s = (s, Ok 0)" using assms(3) by (simp add: fetch_blob_gas_price_def can_deploy_def)
  obtain n where n: "g_tx_count ?g (d, ()) 7 = Ok n" using dep by (auto simp: demo_deployer_def)
  obtain tx m where tx: "assign_nonce ?g (d, ()) (g_nonce_map ?g)
       (builder_with_name (named_tx_request_new r None None) ''weth'') = Ok (tx, m)"
      "tx_from (ntr_tx tx) = Some 7" "tx_to (ntr_tx tx) = Some TxCreate"
    using r n by (cases "hm_get (g_nonce_map ?g) 7")
      (simp_all add: assign_nonce_def builder_with_name_def named_tx_request_new_def hm_contains_def)
  obtain d' where run: "call_and_await (on_create (sqlite_insert_named demo_env std_codec (\<lambda>d s. Panic))
      db_error_of_sqlite demo_node (url, h) (g_label g) s
      \<lparr>ex_gas_price = 10, ex_blob_gas_price = 0, ex_chain_id = 1\<rparr>) (d, ()) tx = Ok (d', ())" "named_ready d'"
    using demo_create_callback [OF tx(2,3) assms(3-5)] by blast
  have "nd_gas_price demo_node () = Ok 10" "nd_chain_id demo_node () = Ok 1" by (simp_all add: demo_node_def)
  with run(2) assms(3) show ?thesis
    by (simp add: deploy_contracts_def load_txs_def load_plan_def conf demo_create_steps demo_find_create env
        st fetch tx run(1) plan_init_def create_step_def can_deploy_def)
qed

lemma demo_start: "demo_deployer demo_create_gen" "can_deploy demo_scenario" "named_ready demo_db"
  "get_env (g_conf demo_create_gen) = []" "plain_text ''http://a''"
proof -
  show "demo_deployer demo_create_gen" by (rule demo_create_gen_deployer)
qed (simp_all add: can_deploy_def demo_scenario_def hm_get_def named_ready_def demo_tables
      demo_create_gen_def get_env_def with_create_def test_config_new_def unwrap_or_default_def demo_url)

theorem deployed_contracts_resolve_witness:
  "\<exists>d' ch' s' a. deploy_contracts (sqlite_insert_named demo_env std_codec (\<lambda>d s. Panic)) db_error_of_sqlite demo_node
     (''http://a'', 5) demo_create_gen demo_rpc demo_scenario (demo_db, ()) = Ok (d', ch', s') \<and>
   lookup_placeholder demo_ext (\<lambda>k. rmap_err db_error_of_sqlite (sqlite_get_named demo_env std_codec d' k (''http://a'', 5)))
      (Some ''v2'') [] ''weth'' = Ok [(''weth'', x_address_hex demo_ext a)]"
proof -
  obtain d' ch' s' where ok: "deploy_contracts (sqlite_insert_named demo_env std_codec (\<lambda>d s. Panic)) db_error_of_sqlite
    demo_node (''http://a'', 5) demo_create_gen demo_rpc demo_scenario (demo_db, ()) = Ok (d', ch', s')"
    using demo_deploys [OF demo_start(1,4,2,3,5)] by blast
  have names: "cc_name (cd_contract demo_create) = ''weth''" "g_label demo_create_gen = Some ''v2''"
    "g_conf demo_create_gen = with_create test_config_new [demo_create]"
    by (simp_all add: demo_create_def create_definition_new_def demo_create_gen_def)
  have "no_code_at_zero demo_node" by (simp add: no_code_at_zero_def demo_node_def)
  from deployed_contracts_resolve [OF std_codec_laws ok this demo_url(1) demo_db_inv,
      of "demo_create\<lparr>cd_from_pool := Some ''admin''\<rparr>" demo_ext] ok
  show ?thesis
    by (auto simp: demo_create_steps names SENDER_KEY_def SETCODE_KEY_def hm_insert_def)
qed









text \<open>
  The simulation's funding fits the admin account of the fork, which holds a
  million ether: whatever the number of senders, the amounts sent to them stay
  at or below 999999 ether in total, and the amount is not zero for up to 10^23
  senders.
\<close>

theorem simulation_funding_fits:
  "n * unat (fund_amount n) \<le> 999999 * 10 ^ 18 \<and> (n \<le> 10 ^ 23 \<longrightarrow> 0 < unat (fund_amount n))"
proof -
  have "(999999 * 10 ^ 18) div n \<le> (999999 * 10 ^ 18 :: nat)" by simp
  also have "\<dots> < 2 ^ 256" by simp
  finally have small: "unat (word_of_nat (999999 * 10 ^ 18 div n) :: u256) = 999999 * 10 ^ 18 div n"
    by (subst unat_of_nat) simp
  show ?thesis
  proof (cases "999 \<le> n")
    case True
    have "n * (999999 * 10 ^ 18 div n) \<le> 999999 * 10 ^ 18" by (rule times_div_less_eq_dividend)
    moreover have "n \<le> 10 ^ 23 \<Longrightarrow> 0 < 999999 * 10 ^ 18 div n" using True by (simp add: div_greater_zero_iff)
    ultimately show ?thesis using True small by (simp add: fund_amount_def)
  next
    case False
    then show ?thesis by (simp add: fund_amount_def)
  qed
qed

end
