(* ===== verification/Orchestrator.thy ===== *)
theory Orchestrator
  imports Scenario_Setup Spammer
begin

text \<open>
  \<open>crates/core/src/orchestrator.rs\<close>: the context with its builder, and the
  \<open>Contender\<close> that initializes a scenario and runs spammers on it; with
  \<open>TestScenario::new\<close>, \<open>estimate_setup_cost\<close> and \<open>prepare_for_run\<close> of
  \<open>crates/core/src/test_scenario.rs\<close> and \<open>fund_signers\<close> of
  \<open>crates/core/src/agent_controller.rs\<close>.

  The lifecycle of the code is in its types: \<open>Contender\<close> has a marker type, and
  only \<open>initialize\<close> turns \<open>Uninitialized\<close> into \<open>Initialized\<close>.  Here the marker is the
  datatype \<open>contender_state\<close>.  A \<open>select!\<close> on a cancellation token is an optional
  argument: the state of the world at which the token wins, or \<open>None\<close>.
\<close>

section \<open>A new scenario\<close>

record test_scenario_params =
  tp_rpc_url :: string
  tp_builder_rpc_url :: "string option"
  tp_txs_rpc_url :: "string option"
  tp_signers :: "signer list"
  tp_agent_spec :: agent_spec
  tp_tx_type :: tx_type
  tp_bundle_type :: bundle_type
  tp_pending_tx_timeout :: u64
  tp_sync_nonces_after_batch :: bool
  tp_rpc_batch_size :: u64
  tp_gas_price :: "u256 option"
  tp_scenario_label :: "string option"
  tp_send_raw_tx_sync :: bool

text \<open>
  What creating a scenario asks the network; \<open>ne_arrival\<close> is the order of the nonce answers,
  \<open>ne_actor\<close> the result of starting the actor and its flush loop.  The scenario record does not
  hold the clients, so the endpoint for raw transactions (\<open>tp_txs_rpc_url\<close>), the extra message
  handles and the flashblocks endpoint do not show in the result.
\<close>

record new_env =
  ne_genesis :: "(tx_hash option, string) rresult"
  ne_chain_id :: "(u64, string) rresult"
  ne_builder_chain_id :: "(u64, core_error) rresult"
  ne_rpc :: rpc_env
  ne_actor :: "(unit, core_error) rresult"
  ne_block_time :: "(u64, core_error) rresult"
  ne_arrival :: "address list \<Rightarrow> address list"

definition insert_signers :: "(address, signer) hmap \<Rightarrow> signer list \<Rightarrow> (address, signer) hmap" where
  "insert_signers m signers = fold (\<lambda>s. hm_insert (sg_address s) s) signers m"

definition scenario_new ::
  "(u8 list \<Rightarrow> u8 list) \<Rightarrow> signer_fn \<Rightarrow> test_config \<Rightarrow> rand_seed \<Rightarrow> new_env \<Rightarrow> test_scenario_params
    \<Rightarrow> (agent_store \<times> scenario, core_error) rresult" where
  "scenario_new keccak signer_of cfg rs env p =
     rbind (build_agent_store keccak signer_of cfg rs (tp_agent_spec p)) (\<lambda>agents.
     rbind (generate_setcode_signer keccak signer_of rs) (\<lambda>(setcode_signer, _).
     rbind (rmap_err CoreRpc (ne_genesis env)) (\<lambda>genesis.
     rbind (ok_or genesis (CoreRuntime GenesisBlockMissing)) (\<lambda>_.
     let signer_map = insert_signers (insert_signers hm_empty (tp_signers p))
                        (concat (map ss_signers (hm_values agents)));
         nonces = sync_nonces_with (ne_rpc env) hm_empty
                    (ne_arrival env (hm_keys signer_map @ [sg_address setcode_signer]))
     in rbind (rmap_err CoreRpc (ne_chain_id env)) (\<lambda>chain_id.
        rbind (if tp_builder_rpc_url p \<noteq> None then ne_builder_chain_id env else Ok chain_id) (\<lambda>builder_id.
        if chain_id \<noteq> builder_id then Err (CoreRuntime (ChainIdMismatch chain_id builder_id)) else
        rbind (ne_actor env) (\<lambda>_.
        rbind (ne_block_time env) (\<lambda>_.
        Ok (agents,
            \<lparr>sc_signer_map = signer_map, sc_nonces = nonces, sc_chain_id = chain_id, sc_gas_limits = hm_empty,
             sc_tx_type = tp_tx_type p, sc_setcode_signer = setcode_signer, sc_gas_price = tp_gas_price p,
             sc_gas_price_adder = 0, sc_last_fetched_gas_price = None, sc_last_fetched_blob_gas_price = None,
             sc_bundle_client = (tp_builder_rpc_url p \<noteq> None), sc_bundle_type = tp_bundle_type p,
             sc_rpc_batch_size = tp_rpc_batch_size p, sc_send_raw_tx_sync = tp_send_raw_tx_sync p,
             sc_num_rpc_batches_sent = 0, sc_should_sync_nonces = tp_sync_nonces_after_batch p\<rparr>)))))))))"

section \<open>Funding\<close>

record 'c funding_env =
  fe_gas_price :: "'c \<Rightarrow> (u128, string) rresult"
  fe_tx_count :: "'c \<Rightarrow> address \<Rightarrow> (u64, string) rresult"
  fe_chain_id :: "'c \<Rightarrow> (u64, string) rresult"
  fe_sign :: "tx_request \<Rightarrow> signer \<Rightarrow> (tx_hash, string) rresult"
  fe_send :: "'c \<Rightarrow> tx_request \<Rightarrow> 'c \<times> (tx_hash, core_error) rresult"
  fe_watch :: "'c \<Rightarrow> tx_hash \<Rightarrow> 'c \<times> (unit, core_error) rresult"

definition fund_signers_send ::
  "'c funding_env \<Rightarrow> signer \<Rightarrow> u256 \<Rightarrow> signer_store \<Rightarrow> ('c, unit, core_error) action" where
  "fund_signers_send fe funder amount st =
     sbind (\<lambda>ch. (ch, rmap_err CoreRpc (fe_gas_price fe ch))) (\<lambda>gas_price.
     sbind (\<lambda>ch. (ch, rmap_err CoreRpc (fe_tx_count fe ch (sg_address funder)))) (\<lambda>nonce.
     sbind (\<lambda>ch. (ch, rmap_err CoreRpc (fe_chain_id fe ch))) (\<lambda>chain_id.
     let requests = fund_signers st (sg_address funder) amount gas_price nonce chain_id
     in sbind (slift (rmapM (\<lambda>tx. rmap_err CoreTransactionBuilderEth (fe_sign fe tx funder)) requests)) (\<lambda>_.
        sbind (smapM (\<lambda>tx ch. fe_send fe ch tx) requests) (\<lambda>sent.
        sbind (smapM (\<lambda>h ch. fe_watch fe ch h) sent) (\<lambda>_. sreturn ()))))))"

definition fund_agents ::
  "'c funding_env \<Rightarrow> signer \<Rightarrow> u256 \<Rightarrow> agent_store \<Rightarrow> ('c, unit, core_error) action" where
  "fund_agents fe funder amount agents =
     sbind (smapM (fund_signers_send fe funder amount) (hm_values agents)) (\<lambda>_. sreturn ())"

section \<open>The context and its builder\<close>

record contender_ctx =
  cx_config :: test_config
  cx_seeder :: rand_seed
  cx_rpc_url :: string
  cx_builder_rpc_url :: "string option"
  cx_agent_spec :: agent_spec
  cx_user_signers :: "signer list"
  cx_tx_type :: tx_type
  cx_bundle_type :: bundle_type
  cx_pending_tx_timeout :: u64
  cx_funding :: u256
  cx_sync_nonces_after_batch :: bool
  cx_rpc_batch_size :: u64
  cx_scenario_label :: "string option"
  cx_send_raw_tx_sync :: bool
  cx_txs_rpc_url :: "string option"

definition SMOL_AMOUNT :: u256 where
  "SMOL_AMOUNT = word_of_nat (10 ^ 18) div 100"

text \<open>\<open>Url::from_str\<close> is the parameter \<open>valid_url\<close>; \<open>default_signers\<close> are those of the default keys.\<close>

definition builder ::
  "(string \<Rightarrow> bool) \<Rightarrow> signer list \<Rightarrow> test_config \<Rightarrow> rand_seed \<Rightarrow> string \<Rightarrow> (contender_ctx, 'e) rresult" where
  "builder valid_url default_signers cfg seeder rpc_url =
     (if \<not> valid_url rpc_url then Panic
      else Ok \<lparr>cx_config = cfg, cx_seeder = seeder, cx_rpc_url = rpc_url, cx_builder_rpc_url = None,
               cx_agent_spec = agent_spec_default, cx_user_signers = default_signers, cx_tx_type = Eip1559,
               cx_bundle_type = BundleL1, cx_pending_tx_timeout = 12, cx_funding = SMOL_AMOUNT,
               cx_sync_nonces_after_batch = False, cx_rpc_batch_size = 0, cx_scenario_label = None,
               cx_send_raw_tx_sync = False, cx_txs_rpc_url = None\<rparr>)"

definition builder_simple ::
  "(string \<Rightarrow> bool) \<Rightarrow> signer list \<Rightarrow> rand_seed \<Rightarrow> test_config \<Rightarrow> string \<Rightarrow> (contender_ctx, 'e) rresult" where
  "builder_simple valid_url default_signers fresh_seed cfg rpc_url =
     (if get_create_steps cfg \<noteq> [] \<or> get_setup_steps cfg \<noteq> [] then Panic
      else builder valid_url default_signers cfg fresh_seed rpc_url)"

definition set_builder_rpc_url :: "contender_ctx \<Rightarrow> string \<Rightarrow> contender_ctx" where
  "set_builder_rpc_url cx url = cx\<lparr>cx_builder_rpc_url := Some url\<rparr>"

definition set_txs_rpc_url :: "contender_ctx \<Rightarrow> string \<Rightarrow> contender_ctx" where
  "set_txs_rpc_url cx url = cx\<lparr>cx_txs_rpc_url := Some url\<rparr>"

definition set_agent_spec :: "contender_ctx \<Rightarrow> agent_spec \<Rightarrow> contender_ctx" where
  "set_agent_spec cx spec = cx\<lparr>cx_agent_spec := spec\<rparr>"

definition set_user_signers :: "contender_ctx \<Rightarrow> signer list \<Rightarrow> contender_ctx" where
  "set_user_signers cx signers = cx\<lparr>cx_user_signers := signers\<rparr>"

definition set_tx_type :: "contender_ctx \<Rightarrow> tx_type \<Rightarrow> contender_ctx" where
  "set_tx_type cx t = cx\<lparr>cx_tx_type := t\<rparr>"

definition set_bundle_type :: "contender_ctx \<Rightarrow> bundle_type \<Rightarrow> contender_ctx" where
  "set_bundle_type cx b = cx\<lparr>cx_bundle_type := b\<rparr>"

definition set_pending_tx_timeout :: "contender_ctx \<Rightarrow> u64 \<Rightarrow> contender_ctx" where
  "set_pending_tx_timeout cx t = cx\<lparr>cx_pending_tx_timeout := t\<rparr>"

definition set_funding :: "contender_ctx \<Rightarrow> u256 \<Rightarrow> contender_ctx" where
  "set_funding cx f = cx\<lparr>cx_funding := f\<rparr>"

definition set_seeder :: "contender_ctx \<Rightarrow> rand_seed \<Rightarrow> contender_ctx" where
  "set_seeder cx s = cx\<lparr>cx_seeder := s\<rparr>"

definition set_scenario_label :: "contender_ctx \<Rightarrow> string \<Rightarrow> contender_ctx" where
  "set_scenario_label cx l = cx\<lparr>cx_scenario_label := Some l\<rparr>"

definition set_sync_nonces_after_batch :: "contender_ctx \<Rightarrow> bool \<Rightarrow> contender_ctx" where
  "set_sync_nonces_after_batch cx b = cx\<lparr>cx_sync_nonces_after_batch := b\<rparr>"

text \<open>\<open>build\<close> creates the tables and ignores an error of that.\<close>

definition build :: "('d \<Rightarrow> ('d, 'e) rresult) \<Rightarrow> contender_ctx \<Rightarrow> 'd \<Rightarrow> 'd \<times> contender_ctx" where
  "build make_tables cx d = (case make_tables d of Ok d' \<Rightarrow> (d', cx) | _ \<Rightarrow> (d, cx))"

definition scenario_params_of :: "contender_ctx \<Rightarrow> test_scenario_params" where
  "scenario_params_of cx =
     \<lparr>tp_rpc_url = cx_rpc_url cx, tp_builder_rpc_url = cx_builder_rpc_url cx,
      tp_txs_rpc_url = cx_txs_rpc_url cx, tp_signers = cx_user_signers cx,
      tp_agent_spec = cx_agent_spec cx, tp_tx_type = cx_tx_type cx, tp_bundle_type = cx_bundle_type cx,
      tp_pending_tx_timeout = cx_pending_tx_timeout cx,
      tp_sync_nonces_after_batch = cx_sync_nonces_after_batch cx, tp_rpc_batch_size = cx_rpc_batch_size cx,
      tp_gas_price = None, tp_scenario_label = cx_scenario_label cx,
      tp_send_raw_tx_sync = cx_send_raw_tx_sync cx\<rparr>"

definition build_scenario ::
  "(u8 list \<Rightarrow> u8 list) \<Rightarrow> signer_fn \<Rightarrow> new_env \<Rightarrow> contender_ctx \<Rightarrow> (agent_store \<times> scenario, core_error) rresult" where
  "build_scenario keccak signer_of env cx =
     scenario_new keccak signer_of (cx_config cx) (cx_seeder cx) env (scenario_params_of cx)"

section \<open>The estimated cost of a setup\<close>

text \<open>
  A chain that transactions are sent to, the target or the fork of a simulation: its node, the key of
  its names in the database, the generator's access to it, what a new scenario asks it, and the
  funding calls.
\<close>

record ('d, 'c, 'k) site =
  si_node :: "'c node"
  si_chain :: 'k
  si_gen :: "('d \<times> 'c) gen"
  si_new :: new_env
  si_fund :: "'c funding_env"

text \<open>The generator of a scenario with the configuration of the context on a chain.\<close>

definition site_gen :: "contender_ctx \<Rightarrow> agent_store \<Rightarrow> ('d, 'c, 'k) site \<Rightarrow> ('d \<times> 'c) gen" where
  "site_gen cx agents si =
     (si_gen si)\<lparr>g_conf := cx_config cx, g_seed := cx_seeder cx, g_agents := agents, g_label := cx_scenario_label cx\<rparr>"

text \<open>
  The fork: the gas price of the target (read unless the user gave one), the result of spawning
  anvil and waiting for it, its endpoint and chain, the order of the nonce answers, the balances,
  the rich account, whether the token is cancelled during the simulation, and the initial state.
\<close>

record ('d, 'c, 'k) fork =
  fk_gas_price :: "(u128, string) rresult"
  fk_spawn :: "(unit, core_error) rresult"
  fk_url :: string
  fk_site :: "('d, 'c, 'k) site"
  fk_arrival :: "address list"
  fk_balance :: "'c \<Rightarrow> address \<Rightarrow> (u256, string) rresult"
  fk_admin :: signer
  fk_cancelled :: bool
  fk_state :: 'c

definition simulation_signers :: "signer \<Rightarrow> agent_store \<Rightarrow> scenario \<Rightarrow> signer list" where
  "simulation_signers admin agents s = (if agents = [] then admin # hm_values (sc_signer_map s) else [admin])"

definition simulation_params ::
  "contender_ctx \<Rightarrow> ('d, 'c, 'k) fork \<Rightarrow> agent_store \<Rightarrow> scenario \<Rightarrow> test_scenario_params" where
  "simulation_params cx fk agents s =
     \<lparr>tp_rpc_url = fk_url fk, tp_builder_rpc_url = None, tp_txs_rpc_url = None,
      tp_signers = simulation_signers (fk_admin fk) agents s, tp_agent_spec = cx_agent_spec cx,
      tp_tx_type = sc_tx_type s, tp_bundle_type = sc_bundle_type s,
      tp_pending_tx_timeout = cx_pending_tx_timeout cx, tp_sync_nonces_after_batch = sc_should_sync_nonces s,
      tp_rpc_batch_size = sc_rpc_batch_size s, tp_gas_price = sc_gas_price s,
      tp_scenario_label = cx_scenario_label cx, tp_send_raw_tx_sync = sc_send_raw_tx_sync s\<rparr>"

definition balances_before ::
  "('c \<Rightarrow> address \<Rightarrow> (u256, string) rresult) \<Rightarrow> 'c \<Rightarrow> u256 \<Rightarrow> address list \<Rightarrow> ((address, u256) hmap, core_error) rresult" where
  "balances_before balance ch amount addresses =
     rfoldl (\<lambda>m a. rbind (rmap_err CoreRpc (balance ch a)) (\<lambda>b. Ok (hm_insert a (b + amount) m))) hm_empty addresses"

definition simulated_cost ::
  "('c \<Rightarrow> address \<Rightarrow> (u256, string) rresult) \<Rightarrow> 'c \<Rightarrow> (address \<times> u256) list \<Rightarrow> (u256, core_error) rresult" where
  "simulated_cost balance ch start_balances =
     rfoldl (\<lambda>total (a, start).
       rbind (rmap_err CoreRpc (balance ch a)) (\<lambda>new_balance.
       Ok (if start \<le> new_balance then total else total + (start - new_balance)))) 0 start_balances"

text \<open>Deployments and setup on the fork, with the nonces synchronised in between.\<close>

definition simulate_setup ::
  "('d, 'k, 'e) named_store \<Rightarrow> ('e \<Rightarrow> db_error) \<Rightarrow> (tx_hash \<Rightarrow> string) \<Rightarrow> contender_ctx \<Rightarrow> ('d, 'c, 'k) fork
    \<Rightarrow> agent_store \<Rightarrow> scenario \<Rightarrow> 'd \<times> 'c \<Rightarrow> ('d \<times> 'c, core_error) rresult" where
  "simulate_setup ins conv hash_text cx fk agents sim w =
     (let si = fk_site fk; env = ne_rpc (si_new si); g = site_gen cx agents si
      in if fk_cancelled fk then Err (CoreRuntime InitializationCancelled)
         else rbind (deploy_contracts ins conv (si_node si) (si_chain si) g env sim w) (\<lambda>(d2, ch2, sim2).
              rbind (run_setup ins conv (si_node si) (si_chain si) hash_text g env
                       (sync_nonces env (fk_arrival fk) sim2) (d2, ch2)) (\<lambda>(d3, ch3, _). Ok (d3, ch3))))"

definition estimate_setup_cost ::
  "(u8 list \<Rightarrow> u8 list) \<Rightarrow> signer_fn \<Rightarrow> ('d, 'k, 'e) named_store \<Rightarrow> ('e \<Rightarrow> db_error) \<Rightarrow> (tx_hash \<Rightarrow> string)
    \<Rightarrow> contender_ctx \<Rightarrow> ('d, 'c, 'k) fork \<Rightarrow> agent_store \<Rightarrow> scenario \<Rightarrow> 'd \<Rightarrow> ('d \<times> u256, core_error) rresult" where
  "estimate_setup_cost keccak signer_of ins conv hash_text cx fk agents s d =
     rbind (case sc_gas_price s of Some p \<Rightarrow> (if unat p < 2 ^ 128 then Ok (ucast p) else Panic)
                                 | None \<Rightarrow> rmap_err CoreRpc (fk_gas_price fk)) (\<lambda>_.
     rbind (fk_spawn fk) (\<lambda>_.
     rbind (scenario_new keccak signer_of (cx_config cx) (cx_seeder cx) (si_new (fk_site fk))
              (simulation_params cx fk agents s)) (\<lambda>(sim_agents, sim).
     let addresses = all_signer_addresses sim_agents; amount = fund_amount (length addresses)
     in rbind (balances_before (fk_balance fk) (fk_state fk) amount addresses) (\<lambda>start_balances.
        case fund_agents (si_fund (fk_site fk)) (fk_admin fk) amount sim_agents (fk_state fk) of (ch1, r) \<Rightarrow>
        rbind r (\<lambda>_.
        rbind (simulate_setup ins conv hash_text cx fk sim_agents sim (d, ch1)) (\<lambda>(d', ch').
        rbind (simulated_cost (fk_balance fk) ch' start_balances) (\<lambda>cost. Ok (d', cost))))))))"

section \<open>Initialization\<close>

datatype lifecycle_phase = PhaseUninitialized | PhaseInitialized

datatype contender_state = Uninitialized | Initialized agent_store scenario

record contender =
  ct_ctx :: contender_ctx
  ct_state :: contender_state

definition contender_new :: "contender_ctx \<Rightarrow> contender" where
  "contender_new cx = \<lparr>ct_ctx = cx, ct_state = Uninitialized\<rparr>"

fun phase_of :: "contender_state \<Rightarrow> lifecycle_phase" where
  "phase_of Uninitialized = PhaseUninitialized"
| "phase_of (Initialized agents s) = PhaseInitialized"

definition phase :: "contender \<Rightarrow> lifecycle_phase" where
  "phase c = phase_of (ct_state c)"

definition funder :: "contender \<Rightarrow> signer option" where
  "funder c = (case cx_user_signers (ct_ctx c) of [] \<Rightarrow> None | s # _ \<Rightarrow> Some s)"

definition min_balance :: "contender \<Rightarrow> u256" where
  "min_balance c = cx_funding (ct_ctx c)"

text \<open>
  The simulation shares the database of the scenario, so initialization goes on with the database
  it leaves.  \<open>interrupted\<close> says that the token wins; \<open>show_ether\<close> prints an amount.
\<close>

definition initialize_inner ::
  "(u8 list \<Rightarrow> u8 list) \<Rightarrow> signer_fn \<Rightarrow> ('d, 'k, 'e) named_store \<Rightarrow> ('e \<Rightarrow> db_error) \<Rightarrow> (tx_hash \<Rightarrow> string)
    \<Rightarrow> (u256 \<Rightarrow> string) \<Rightarrow> ('d, 'c, 'k) site \<Rightarrow> ('d, 'c, 'k) fork \<Rightarrow> contender_ctx \<Rightarrow> agent_store \<Rightarrow> scenario
    \<Rightarrow> 'd \<times> 'c \<Rightarrow> ('d \<times> 'c \<times> contender, core_error) rresult" where
  "initialize_inner keccak signer_of ins conv hash_text show_ether si fk cx agents s = (\<lambda>(d, ch).
     rbind (estimate_setup_cost keccak signer_of ins conv hash_text cx fk agents s d) (\<lambda>(d1, setup_cost).
     if cx_funding cx < setup_cost
     then Err (CoreRuntime (InvalidParams (InvalidArgs
            (''configured funding ('' @ show_ether (cx_funding cx) @
             '') is insufficient for estimated setup cost ('' @ show_ether setup_cost @
             ''). Increase --min-balance or funding amount.''))))
     else case (if hm_values agents = [] then (ch, Ok ())
                else case cx_user_signers cx of
                       [] \<Rightarrow> (ch, Panic)
                     | f # _ \<Rightarrow> fund_agents (si_fund si) f (cx_funding cx) agents ch) of (ch1, r) \<Rightarrow>
          let env = ne_rpc (si_new si); g = site_gen cx agents si
          in rbind r (\<lambda>_.
             rbind (deploy_contracts ins conv (si_node si) (si_chain si) g env s (d1, ch1)) (\<lambda>(d2, ch2, s2).
             rbind (run_setup ins conv (si_node si) (si_chain si) hash_text g env s2 (d2, ch2)) (\<lambda>(d3, ch3, s3).
             Ok (d3, ch3, \<lparr>ct_ctx = cx, ct_state = Initialized agents s3\<rparr>))))))"

definition initialize ::
  "(u8 list \<Rightarrow> u8 list) \<Rightarrow> signer_fn \<Rightarrow> ('d, 'k, 'e) named_store \<Rightarrow> ('e \<Rightarrow> db_error) \<Rightarrow> (tx_hash \<Rightarrow> string)
    \<Rightarrow> (u256 \<Rightarrow> string) \<Rightarrow> ('d, 'c, 'k) site \<Rightarrow> ('d, 'c, 'k) fork \<Rightarrow> bool \<Rightarrow> contender
    \<Rightarrow> 'd \<times> 'c \<Rightarrow> ('d \<times> 'c \<times> contender, core_error) rresult" where
  "initialize keccak signer_of ins conv hash_text show_ether si fk interrupted c w =
     rbind (build_scenario keccak signer_of (si_new si) (ct_ctx c)) (\<lambda>(agents, s).
       if interrupted then Err (CoreRuntime InitializationCancelled)
       else initialize_inner keccak signer_of ins conv hash_text show_ether si fk (ct_ctx c) agents s w)"

section \<open>Spamming\<close>

record run_opts =
  ro_txs_per_period :: u64
  ro_periods :: u64
  ro_name :: string
  ro_report_interval_secs :: "u64 option"
  ro_fund_interval_secs :: "u64 option"

definition run_opts_default :: run_opts where
  "run_opts_default = \<lparr>ro_txs_per_period = 10, ro_periods = 1, ro_name = ''Unknown'',
     ro_report_interval_secs = None, ro_fund_interval_secs = None\<rparr>"

definition set_txs_per_period :: "run_opts \<Rightarrow> u64 \<Rightarrow> run_opts" where
  "set_txs_per_period opts n = opts\<lparr>ro_txs_per_period := n\<rparr>"

definition set_periods :: "run_opts \<Rightarrow> u64 \<Rightarrow> run_opts" where
  "set_periods opts n = opts\<lparr>ro_periods := n\<rparr>"

definition set_name :: "run_opts \<Rightarrow> string \<Rightarrow> run_opts" where
  "set_name opts n = opts\<lparr>ro_name := n\<rparr>"

definition set_report_interval_secs :: "run_opts \<Rightarrow> u64 \<Rightarrow> run_opts" where
  "set_report_interval_secs opts secs = opts\<lparr>ro_report_interval_secs := Some secs\<rparr>"

definition set_fund_interval_secs :: "run_opts \<Rightarrow> u64 \<Rightarrow> run_opts" where
  "set_fund_interval_secs opts secs = opts\<lparr>ro_fund_interval_secs := Some secs\<rparr>"

definition create_spam_run_request :: "run_opts \<Rightarrow> u64 \<Rightarrow> string \<Rightarrow> u64 \<Rightarrow> spam_duration \<Rightarrow> spam_run_request" where
  "create_spam_run_request opts now rpc_url pending_timeout duration =
     \<lparr>srq_timestamp = now, srq_tx_count = ro_periods opts * ro_txs_per_period opts, srq_scenario_name = ro_name opts,
      srq_campaign_id = None, srq_campaign_name = None, srq_stage_name = None, srq_rpc_url = rpc_url,
      srq_txs_per_duration = ro_txs_per_period opts, srq_duration = duration,
      srq_pending_timeout_secs = pending_timeout\<rparr>"

text \<open>
  A message handle: whether its actor still receives messages, whether its flush loop has
  ended, and the context that was sent to it.
\<close>

record msg_handle =
  mh_alive :: bool
  mh_flush_complete :: bool
  mh_ctx :: "actor_context option"

record 'd spam_state =
  sp_scenario :: scenario
  sp_db :: 'd
  sp_cancelled :: bool
  sp_handles :: "(string, msg_handle) hmap"

definition restart_flush :: "msg_handle \<Rightarrow> (msg_handle, core_error) rresult" where
  "restart_flush h =
     (if mh_alive h then Ok (h\<lparr>mh_flush_complete := False\<rparr>) else Err (CoreCallback TxActorSendMessage))"

definition init_handle :: "actor_context \<Rightarrow> msg_handle \<Rightarrow> (msg_handle, core_error) rresult" where
  "init_handle ac h = (if mh_alive h then Ok (h\<lparr>mh_ctx := Some ac\<rparr>) else Err (CoreCallback TxActorSendMessage))"

fun each_handle ::
  "(msg_handle \<Rightarrow> (msg_handle, core_error) rresult) \<Rightarrow> (string, msg_handle) hmap
    \<Rightarrow> (string, msg_handle) hmap \<times> (unit, core_error) rresult" where
  "each_handle f [] = ([], Ok ())"
| "each_handle f ((k, h) # hs) =
     (case f h of
        Ok h' \<Rightarrow> (case each_handle f hs of (hs', r) \<Rightarrow> ((k, h') # hs', r))
      | Err e \<Rightarrow> ((k, h) # hs, Err e)
      | Panic \<Rightarrow> ((k, h) # hs, Panic))"

definition on_handles ::
  "(msg_handle \<Rightarrow> (msg_handle, core_error) rresult) \<Rightarrow> ('d spam_state, unit, core_error) action" where
  "on_handles f st = (case each_handle f (sp_handles st) of (hs, r) \<Rightarrow> (st\<lparr>sp_handles := hs\<rparr>, r))"

definition prepare_for_run :: "('d spam_state, unit, core_error) action" where
  "prepare_for_run st =
     (if \<not> sp_cancelled st then (st, Ok ())
      else on_handles restart_flush (st\<lparr>sp_cancelled := False\<rparr>))"

text \<open>
  What happens to the actors while a run is going on.  The loop of an actor ends when one of its message handlers
  fails, for instance because the caller dropped the reply channel, or when it is stopped; from
  then on nothing receives its messages.  A flush loop ends when its actor is gone or when all receipts were
  collected after the token was cancelled; while the node does not answer, or gives no new blocks for a
  cache that is not empty, it goes on.
\<close>

record actors_fate =
  af_dies :: "string \<Rightarrow> bool"
  af_flush_ends :: "string \<Rightarrow> bool"

definition actors_after :: "actors_fate \<Rightarrow> 'd spam_state \<Rightarrow> 'd spam_state" where
  "actors_after fate st =
     st\<lparr>sp_handles := map (\<lambda>(k, h). (k, h\<lparr>mh_alive := (mh_alive h \<and> \<not> af_dies fate k)\<rparr>)) (sp_handles st)\<rparr>"

text \<open>Waiting for every flush loop; it never returns if one of them does not end.\<close>

definition await_flush :: "actors_fate \<Rightarrow> 'd spam_state \<Rightarrow> 'd spam_state option" where
  "await_flush fate st =
     (if list_all (\<lambda>(k, _). af_flush_ends fate k) (sp_handles st)
      then Some (st\<lparr>sp_handles := map (\<lambda>(k, h). (k, h\<lparr>mh_flush_complete := True\<rparr>)) (sp_handles st)\<rparr>)
      else None)"

text \<open>\<open>run\<close> is the \<open>spam_rpc\<close> of the chosen spammer, \<open>interrupted\<close> the state at which an external token wins.\<close>

definition run_or_interrupt ::
  "(scenario \<times> 'd) option \<Rightarrow> (scenario \<times> 'd, unit, core_error) action \<Rightarrow> (scenario \<times> 'd, unit, core_error) action" where
  "run_or_interrupt interrupted run w = (case interrupted of Some w' \<Rightarrow> (w', Ok ()) | None \<Rightarrow> run w)"

text \<open>
  The end of a run: the token is cancelled, the flush loops are awaited and restarted, and an error of the restart is
  returned instead of the result of the run.  A call that does not return is \<open>None\<close>.
\<close>

definition run_and_finish ::
  "actors_fate \<Rightarrow> (scenario \<times> 'd) option \<Rightarrow> (scenario \<times> 'd, unit, core_error) action
    \<Rightarrow> 'd spam_state \<Rightarrow> ('d spam_state \<times> (unit, core_error) rresult) option" where
  "run_and_finish fate interrupted run st =
     (case run_or_interrupt interrupted run (sp_scenario st, sp_db st) of
        ((s', d'), Panic) \<Rightarrow> Some (actors_after fate (st\<lparr>sp_scenario := s', sp_db := d'\<rparr>), Panic)
      | ((s', d'), result) \<Rightarrow>
          map_option (sbind prepare_for_run (\<lambda>_. slift result))
            (await_flush fate (actors_after fate (st\<lparr>sp_scenario := s', sp_db := d', sp_cancelled := True\<rparr>))))"

definition spam_setup ::
  "('d \<Rightarrow> spam_run_request \<Rightarrow> ('d \<times> u64, db_error) rresult) \<Rightarrow> (u64, string) rresult
    \<Rightarrow> spam_run_request \<Rightarrow> u64 \<Rightarrow> ('d spam_state, u64, core_error) action" where
  "spam_setup ins_run block_number req pending_timeout =
     sbind prepare_for_run (\<lambda>_ st.
       case ins_run (sp_db st) req of
         Err e \<Rightarrow> (st, Err (CoreDb e))
       | Panic \<Rightarrow> (st, Panic)
       | Ok (d, run_id) \<Rightarrow>
           sbind (slift (rmap_err CoreRpc block_number)) (\<lambda>current_block.
           sbind (on_handles (init_handle
                    (with_pending_tx_timeout (actor_context_new current_block run_id) pending_timeout))) (\<lambda>_.
           sreturn run_id))
           (st\<lparr>sp_db := d\<rparr>))"

definition spam ::
  "('d \<Rightarrow> spam_run_request \<Rightarrow> ('d \<times> u64, db_error) rresult) \<Rightarrow> (u64, string) rresult
    \<Rightarrow> (u64 \<Rightarrow> (scenario \<times> 'd, unit, core_error) action) \<Rightarrow> actors_fate \<Rightarrow> (scenario \<times> 'd) option
    \<Rightarrow> spam_run_request \<Rightarrow> u64 \<Rightarrow> 'd spam_state \<Rightarrow> ('d spam_state \<times> (unit, core_error) rresult) option" where
  "spam ins_run block_number run fate interrupted req pending_timeout st =
     (case spam_setup ins_run block_number req pending_timeout st of
        (st', Ok run_id) \<Rightarrow> run_and_finish fate interrupted (run run_id) st'
      | (st', Err e) \<Rightarrow> Some (st', Err e)
      | (st', Panic) \<Rightarrow> Some (st', Panic))"

definition spam_with_rpc ::
  "('d \<Rightarrow> spam_run_request \<Rightarrow> ('d \<times> u64, db_error) rresult) \<Rightarrow> (u64, string) rresult \<Rightarrow> ext \<Rightarrow> 'w gen \<Rightarrow> 'w
    \<Rightarrow> 'd metrics_db \<Rightarrow> (u64 \<Rightarrow> spam_duration) \<Rightarrow> tick_env list \<Rightarrow> (unit, core_error) rresult
    \<Rightarrow> (string \<times> bucket list) list \<Rightarrow> rpc_env \<Rightarrow> address list \<Rightarrow> actors_fate \<Rightarrow> (scenario \<times> 'd) option \<Rightarrow> u64
    \<Rightarrow> contender_ctx \<Rightarrow> run_opts \<Rightarrow> 'd spam_state \<Rightarrow> ('d spam_state \<times> (unit, core_error) rresult) option" where
  "spam_with_rpc ins_run block_number x g w ops duration_units envs fcu metrics env arrival fate interrupted now cx opts =
     spam ins_run block_number
       (\<lambda>run_id. spam_rpc x g w ops (ro_txs_per_period opts) (ro_periods opts) (Some run_id) envs fcu metrics env arrival)
       fate interrupted
       (create_spam_run_request opts now (cx_rpc_url cx) (cx_pending_tx_timeout cx) (duration_units (ro_periods opts)))
       (cx_pending_tx_timeout cx)"

definition fund_accounts ::
  "'c funding_env \<Rightarrow> contender \<Rightarrow> agent_class \<Rightarrow> u256 \<Rightarrow> ('c, unit, core_error) action" where
  "fund_accounts fe c cls amount =
     (case (ct_state c, cx_user_signers (ct_ctx c)) of
        (Initialized agents s, f # _) \<Rightarrow>
          (case get_class agents cls of
             Some st \<Rightarrow> fund_signers_send fe f amount st
           | None \<Rightarrow> sreturn ())
      | _ \<Rightarrow> slift Panic)"

section \<open>Lemmas: setup leaves the names alone\<close>

text \<open>The steps of a setup plan have no name, so their tasks record nothing in the database.\<close>

lemma setup_tx_db:
  assumes "ntr_name tx = None"
  shows "fst (fst (setup_tx ins conv nd chain hash_text ty fee chain_id sg tx (d, ch))) = d"
  using assms
  by (auto simp: setup_tx_def sbind_def sget_def slift_def sreturn_def send_and_confirm_def Let_def
      split: rresult.splits prod.splits option.splits)

lemma on_setup_db:
  assumes "ntr_name tx = None" and "on_setup ins conv nd chain hash_text s fee w tx = Ok (w', h)"
  shows "fst w' = fst w"
proof -
  from assms(2) obtain sg where
    "spawn_task (setup_tx ins conv nd chain hash_text (sc_tx_type s) fee (sc_chain_id s) sg tx) w = (w', h)"
    by (auto simp: on_setup_def)
  then show ?thesis
    using setup_tx_db [OF assms(1), of ins conv nd chain hash_text "sc_tx_type s" fee "sc_chain_id s" sg "fst w" "snd w"]
    by (auto simp: spawn_task_def split: rresult.splits prod.splits)
qed

lemma setup_account_db:
  assumes "setup_account g (on_setup ins conv nd chain hash_text s fee) fd p i = Ok p'"
  shows "fst (ps_world p') = fst (ps_world p)"
proof -
  from assms obtain req tx nonces w' h where
    tx: "assign_nonce g (ps_world p) (ps_nonces p) (named_tx_request_new req None (fd_kind fd)) = Ok (tx, nonces)"
    and cb: "on_setup ins conv nd chain hash_text s fee (ps_world p) tx = Ok (w', h)" and p': "ps_world p' = w'"
    by (auto simp: setup_account_def)
  have "ntr_name tx = None" using assign_nonce_name [OF tx] by (simp add: named_tx_request_new_def)
  from on_setup_db [OF this cb] p' show ?thesis by simp
qed

lemma setup_step_db:
  assumes "setup_step g (on_setup ins conv nd chain hash_text s fee) p fd = Ok p'"
  shows "fst (ps_world p') = fst (ps_world p)"
proof -
  from assms obtain m indices where
    "rfoldl (setup_account g (on_setup ins conv nd chain hash_text s fee) fd) (p\<lparr>ps_map := m\<rparr>) indices = Ok p'"
    by (auto simp: setup_step_def)
  then show ?thesis
    by (rule rfoldl_inv [where P = "\<lambda>q. fst (ps_world q) = fst (ps_world p)"]) (auto dest: setup_account_db)
qed

lemma run_setup_db:
  assumes "run_setup ins conv nd chain hash_text g env s (d, ch) = Ok (d', ch', s')"
  shows "d' = d"
proof -
  from assms obtain s1 fee and p' :: "('a \<times> 'b) plan_state" where
    plan: "rfoldl (setup_step (scenario_gen g s1) (on_setup ins conv nd chain hash_text s1 fee))
      (plan_init (scenario_gen g s1) (d, ch)) (get_setup_steps (g_conf (scenario_gen g s1))) = Ok p'"
    and world: "(d', ch') = ps_world p'"
    by (cases "fetch_blob_gas_price env s") (auto simp: run_setup_def load_txs_def load_plan_def)
  from plan have "fst (ps_world p') = d"
    by (rule rfoldl_inv [where P = "\<lambda>q. fst (ps_world q) = d"]) (auto simp: plan_init_def dest: setup_step_db)
  with world show ?thesis by (metis fst_conv)
qed

lemma simulate_setup_Ok:
  assumes "simulate_setup ins conv hash_text cx fk agents sim w = Ok (d', ch')"
  shows "\<exists>sim' ch2. deploy_contracts ins conv (si_node (fk_site fk)) (si_chain (fk_site fk))
      (site_gen cx agents (fk_site fk)) (ne_rpc (si_new (fk_site fk))) sim w = Ok (d', ch2, sim')"
proof -
  from assms obtain d2 ch2 sim2 s3 where
    dep: "deploy_contracts ins conv (si_node (fk_site fk)) (si_chain (fk_site fk))
      (site_gen cx agents (fk_site fk)) (ne_rpc (si_new (fk_site fk))) sim w = Ok (d2, ch2, sim2)"
    and set: "run_setup ins conv (si_node (fk_site fk)) (si_chain (fk_site fk)) hash_text (site_gen cx agents (fk_site fk))
      (ne_rpc (si_new (fk_site fk))) (sync_nonces (ne_rpc (si_new (fk_site fk))) (fk_arrival fk) sim2) (d2, ch2)
      = Ok (d', ch', s3)"
    by (auto simp: simulate_setup_def Let_def split: if_splits)
  with run_setup_db [OF set] show ?thesis by blast
qed

lemma estimate_setup_cost_Ok:
  assumes "estimate_setup_cost keccak signer_of ins conv hash_text cx fk agents s d = Ok (d1, cost)"
  shows "\<exists>sim_agents sim sim' ch1 ch2. deploy_contracts ins conv (si_node (fk_site fk)) (si_chain (fk_site fk))
      (site_gen cx sim_agents (fk_site fk)) (ne_rpc (si_new (fk_site fk))) sim (d, ch1) = Ok (d1, ch2, sim')"
proof -
  from assms obtain sim_agents sim ch1 ch' where
    "simulate_setup ins conv hash_text cx fk sim_agents sim (d, ch1) = Ok (d1, ch')"
    by (auto simp: estimate_setup_cost_def Let_def case_prod_beta)
  from simulate_setup_Ok [OF this] show ?thesis by blast
qed

lemma initialize_Ok:
  assumes "initialize keccak signer_of ins conv hash_text show_ether si fk interrupted c (d, ch) = Ok (d', ch', c')"
  shows "\<exists>agents s d1 setup_cost ch1 ch2 s2 s3.
    build_scenario keccak signer_of (si_new si) (ct_ctx c) = Ok (agents, s) \<and> \<not> interrupted
    \<and> estimate_setup_cost keccak signer_of ins conv hash_text (ct_ctx c) fk agents s d = Ok (d1, setup_cost)
    \<and> setup_cost \<le> cx_funding (ct_ctx c)
    \<and> deploy_contracts ins conv (si_node si) (si_chain si) (site_gen (ct_ctx c) agents si) (ne_rpc (si_new si)) s
        (d1, ch1) = Ok (d', ch2, s2)
    \<and> c' = \<lparr>ct_ctx = ct_ctx c, ct_state = Initialized agents s3\<rparr>"
proof -
  from assms obtain agents s where built: "build_scenario keccak signer_of (si_new si) (ct_ctx c) = Ok (agents, s)"
    and go: "\<not> interrupted"
    and inner: "initialize_inner keccak signer_of ins conv hash_text show_ether si fk (ct_ctx c) agents s (d, ch)
      = Ok (d', ch', c')"
    by (auto simp: initialize_def split: if_splits)
  from inner obtain d1 setup_cost ch1 d2 ch2 s2 s3 where
    cost: "estimate_setup_cost keccak signer_of ins conv hash_text (ct_ctx c) fk agents s d = Ok (d1, setup_cost)"
      "setup_cost \<le> cx_funding (ct_ctx c)"
    and dep: "deploy_contracts ins conv (si_node si) (si_chain si) (site_gen (ct_ctx c) agents si) (ne_rpc (si_new si)) s
        (d1, ch1) = Ok (d2, ch2, s2)"
    and set: "run_setup ins conv (si_node si) (si_chain si) hash_text (site_gen (ct_ctx c) agents si) (ne_rpc (si_new si))
        s2 (d2, ch2) = Ok (d', ch', s3)"
    and c': "c' = \<lparr>ct_ctx = ct_ctx c, ct_state = Initialized agents s3\<rparr>"
    by (auto simp: initialize_inner_def not_less Let_def split: if_splits prod.splits)
  from run_setup_db [OF set] dep have "deploy_contracts ins conv (si_node si) (si_chain si)
      (site_gen (ct_ctx c) agents si) (ne_rpc (si_new si)) s (d1, ch1) = Ok (d', ch2, s2)" by simp
  with built go cost c' show ?thesis by blast
qed

section \<open>Lemmas: the message handles\<close>

definition handles_ready :: "'d spam_state \<Rightarrow> bool" where
  "handles_ready st \<longleftrightarrow> (\<forall>h \<in> snd ` set (sp_handles st). mh_alive h \<and> \<not> mh_flush_complete h)"

definition run_ready :: "'d spam_state \<Rightarrow> bool" where
  "run_ready st \<longleftrightarrow> \<not> sp_cancelled st \<and> handles_ready st"

lemma each_handle_total:
  assumes "\<And>h. h \<in> snd ` set hs \<Longrightarrow> f h = Ok (k h)"
  shows "each_handle f hs = (map (\<lambda>(n, h). (n, k h)) hs, Ok ())"
  using assms
proof (induction hs)
  case (Cons nh hs)
  obtain n h where nh: "nh = (n, h)" by force
  from Cons.prems [of h] Cons.IH Cons.prems show ?case by (simp add: nh)
qed simp

lemma restart_all:
  assumes "\<forall>h \<in> snd ` set (sp_handles st). mh_alive h"
  shows "on_handles restart_flush st
    = (st\<lparr>sp_handles := map (\<lambda>(n, h). (n, h\<lparr>mh_flush_complete := False\<rparr>)) (sp_handles st)\<rparr>, Ok ())"
proof -
  have "each_handle restart_flush (sp_handles st)
      = (map (\<lambda>(n, h). (n, h\<lparr>mh_flush_complete := False\<rparr>)) (sp_handles st), Ok ())"
    using assms by (intro each_handle_total) (auto simp: restart_flush_def)
  then show ?thesis by (simp only: on_handles_def prod.case)
qed

lemma init_all:
  assumes "\<forall>h \<in> snd ` set (sp_handles st). mh_alive h"
  shows "on_handles (init_handle ac) st
    = (st\<lparr>sp_handles := map (\<lambda>(n, h). (n, h\<lparr>mh_ctx := Some ac\<rparr>)) (sp_handles st)\<rparr>, Ok ())"
proof -
  have "each_handle (init_handle ac) (sp_handles st)
      = (map (\<lambda>(n, h). (n, h\<lparr>mh_ctx := Some ac\<rparr>)) (sp_handles st), Ok ())"
    using assms by (intro each_handle_total) (auto simp: init_handle_def)
  then show ?thesis by (simp only: on_handles_def prod.case)
qed

text \<open>A restart or a message stops at the first handle whose actor is gone.\<close>

lemma each_handle_lost:
  assumes "\<exists>h \<in> snd ` set hs. \<not> mh_alive h"
    and "\<And>h. f h = (if mh_alive h then Ok (g h) else Err e)" and "\<And>h. mh_alive (g h) = mh_alive h"
  shows "\<exists>hs'. each_handle f hs = (hs', Err e) \<and> (\<exists>h \<in> snd ` set hs'. \<not> mh_alive h)"
  using assms(1)
proof (induction hs)
  case (Cons nh hs)
  obtain n h where nh: "nh = (n, h)" by force
  show ?case
  proof (cases "mh_alive h")
    case True
    with Cons obtain hs' where "each_handle f hs = (hs', Err e)" "\<exists>h \<in> snd ` set hs'. \<not> mh_alive h" by (auto simp: nh)
    with True assms(2) [of h] show ?thesis by (auto simp: nh)
  qed (use assms(2) [of h] in \<open>simp add: nh\<close>)
qed simp

lemma restart_lost:
  assumes "\<exists>h \<in> snd ` set (sp_handles st). \<not> mh_alive h"
  shows "\<exists>hs. on_handles restart_flush st = (st\<lparr>sp_handles := hs\<rparr>, Err (CoreCallback TxActorSendMessage))
    \<and> (\<exists>h \<in> snd ` set hs. \<not> mh_alive h)"
  using each_handle_lost [OF assms, of restart_flush "\<lambda>h. h\<lparr>mh_flush_complete := False\<rparr>"]
  by (auto simp: restart_flush_def on_handles_def split: prod.splits)

lemma init_lost:
  assumes "\<exists>h \<in> snd ` set (sp_handles st). \<not> mh_alive h"
  shows "\<exists>hs. on_handles (init_handle ac) st = (st\<lparr>sp_handles := hs\<rparr>, Err (CoreCallback TxActorSendMessage))
    \<and> (\<exists>h \<in> snd ` set hs. \<not> mh_alive h)"
  using each_handle_lost [OF assms, of "init_handle ac" "\<lambda>h. h\<lparr>mh_ctx := Some ac\<rparr>"]
  by (auto simp: init_handle_def on_handles_def split: prod.splits)

text \<open>The state a contender is left in when an actor is gone: the token is fresh, so nothing restarts the actor.\<close>

definition actor_lost :: "'d spam_state \<Rightarrow> bool" where
  "actor_lost st \<longleftrightarrow> \<not> sp_cancelled st \<and> (\<exists>h \<in> snd ` set (sp_handles st). \<not> mh_alive h)"

lemma actor_lost_not_ready: "actor_lost st \<Longrightarrow> \<not> run_ready st"
  by (auto simp: actor_lost_def run_ready_def handles_ready_def)

text \<open>Which actors of a run are gone after it, and which flush loops never end.\<close>

definition some_die :: "actors_fate \<Rightarrow> 'd spam_state \<Rightarrow> bool" where
  "some_die fate st \<longleftrightarrow> (\<exists>k \<in> fst ` set (sp_handles st). af_dies fate k)"

definition all_flush :: "actors_fate \<Rightarrow> 'd spam_state \<Rightarrow> bool" where
  "all_flush fate st \<longleftrightarrow> (\<forall>k \<in> fst ` set (sp_handles st). af_flush_ends fate k)"

lemma finish_run:
  assumes "\<forall>h \<in> snd ` set (sp_handles st). mh_alive h" and "sp_cancelled st"
  shows "if all_flush fate st
    then \<exists>st'. map_option (sbind prepare_for_run (\<lambda>_. slift r)) (await_flush fate (actors_after fate st))
           = Some (st', if some_die fate st then Err (CoreCallback TxActorSendMessage) else r)
         \<and> (if some_die fate st then actor_lost st' else run_ready st')
         \<and> sp_scenario st' = sp_scenario st \<and> sp_db st' = sp_db st
    else map_option (sbind prepare_for_run (\<lambda>_. slift r)) (await_flush fate (actors_after fate st)) = None"
proof (cases "all_flush fate st")
  case True
  let ?hs = "map (\<lambda>(k, h). (k, h\<lparr>mh_alive := \<not> af_dies fate k, mh_flush_complete := True\<rparr>)) (sp_handles st)"
  have upd: "map (\<lambda>(k, h). (k, h\<lparr>mh_flush_complete := True\<rparr>)) (sp_handles (actors_after fate st)) = ?hs"
    using assms(1) by (auto simp: actors_after_def)
  have flush: "list_all (\<lambda>(k, _). af_flush_ends fate k) (sp_handles (actors_after fate st))"
    using True by (auto simp: actors_after_def all_flush_def list_all_iff)
  have "sp_handles (actors_after fate st) = map (\<lambda>(k, h). (k, h\<lparr>mh_alive := (mh_alive h \<and> \<not> af_dies fate k)\<rparr>)) (sp_handles st)"
    by (simp add: actors_after_def)
  have wait: "await_flush fate (actors_after fate st) = Some (st\<lparr>sp_handles := ?hs\<rparr>)"
    using flush upd by (simp add: await_flush_def) (simp add: actors_after_def)
  let ?st = "st\<lparr>sp_handles := ?hs, sp_cancelled := False\<rparr>"
  have prep: "prepare_for_run (st\<lparr>sp_handles := ?hs\<rparr>) = on_handles restart_flush ?st"
    using assms(2) by (simp add: prepare_for_run_def)
  show ?thesis
  proof (cases "some_die fate st")
    case dead: True
    then have "\<exists>h \<in> snd ` set (sp_handles ?st). \<not> mh_alive h" by (force simp: some_die_def)
    from restart_lost [OF this] True dead wait prep show ?thesis
      by (force simp: sbind_def slift_def actor_lost_def)
  next
    case False
    then have "\<forall>h \<in> snd ` set (sp_handles ?st). mh_alive h" by (force simp: some_die_def)
    from restart_all [OF this] True False wait prep show ?thesis
      by (auto simp: sbind_def slift_def run_ready_def handles_ready_def some_die_def)
  qed
next
  case False
  then have "\<not> list_all (\<lambda>(k, _). af_flush_ends fate k) (sp_handles (actors_after fate st))"
    by (force simp: actors_after_def all_flush_def list_all_iff)
  with False show ?thesis by (simp add: await_flush_def)
qed

section \<open>Properties\<close>

text \<open>
  C8. A \<open>Contender\<close> that comes out of a successful \<open>initialize\<close> is ready for spamming: it is in the
  initialized phase with the context it had, and the initialization was not cancelled; the simulated setup cost does not
  exceed the configured funding; the database is well-formed; and every contract of its create steps can be
  referred to by name, with an address at which the node has shown code, in the database as
  it is after the setup transactions.  It is assumed that neither the target node nor the simulated fork
  reports code at the zero address, that both chains are recorded under URLs that need no quoting, and that the database was
  well-formed before.
\<close>

theorem initialized_contender_ready:
  assumes "hex_laws c"
    and "initialize keccak signer_of (sqlite_insert_named e c raw_select) db_error_of_sqlite hash_text show_ether
      si fk interrupted ct (d, ch) = Ok (d', ch', ct')"
    and "no_code_at_zero (si_node si)" and "no_code_at_zero (si_node (fk_site fk))"
    and "plain_text (fst (si_chain si))" and "plain_text (fst (si_chain (fk_site fk)))" and "db_inv d"
  shows "phase ct' = PhaseInitialized \<and> ct_ctx ct' = ct_ctx ct \<and> \<not> interrupted \<and> db_inv d'
    \<and> (\<exists>agents s d1 setup_cost. build_scenario keccak signer_of (si_new si) (ct_ctx ct) = Ok (agents, s)
        \<and> estimate_setup_cost keccak signer_of (sqlite_insert_named e c raw_select) db_error_of_sqlite hash_text
            (ct_ctx ct) fk agents s d = Ok (d1, setup_cost)
        \<and> setup_cost \<le> cx_funding (ct_ctx ct))
    \<and> (\<forall>step \<in> set (get_create_steps (cx_config (ct_ctx ct))). \<exists>t a.
        sqlite_get_named e c d' (scenario_db_key (cc_name (cd_contract step)) (cx_scenario_label (ct_ctx ct)))
          (si_chain si) = Ok (Some t)
        \<and> nt_address t = Some a \<and> code_seen (si_node si) a)"
proof -
  let ?ins = "sqlite_insert_named e c raw_select"
  from initialize_Ok [OF assms(2)] obtain agents s d1 setup_cost ch1 ch2 s2 s3 where
    init: "build_scenario keccak signer_of (si_new si) (ct_ctx ct) = Ok (agents, s)" "\<not> interrupted"
      "estimate_setup_cost keccak signer_of ?ins db_error_of_sqlite hash_text (ct_ctx ct) fk agents s d = Ok (d1, setup_cost)"
      "setup_cost \<le> cx_funding (ct_ctx ct)"
      "ct' = \<lparr>ct_ctx = ct_ctx ct, ct_state = Initialized agents s3\<rparr>"
    and dep: "deploy_contracts ?ins db_error_of_sqlite (si_node si) (si_chain si) (site_gen (ct_ctx ct) agents si)
      (ne_rpc (si_new si)) s (d1, ch1) = Ok (d', ch2, s2)"
    by blast
  from estimate_setup_cost_Ok [OF init(3)] obtain sa sim sim' c1 c2 where
    simdep: "deploy_contracts ?ins db_error_of_sqlite (si_node (fk_site fk)) (si_chain (fk_site fk))
      (site_gen (ct_ctx ct) sa (fk_site fk)) (ne_rpc (si_new (fk_site fk))) sim (d, c1) = Ok (d1, c2, sim')" by blast
  have store: "db_ops ?ins (sqlite_get_named e c) storable_named db_inv"
    using assms(1) by (rule db_ops_sqlite)
  have st: "plain_text (fst k) \<Longrightarrow> nt_address t \<noteq> None \<Longrightarrow> storable_named k t" for k t
    by (simp add: storable_named_def)
  have inv1: "db_inv d1"
    by (rule db_ops.deploy_contracts_invar [OF store simdep assms(4) st [OF assms(6)] assms(7)])
  have inv: "db_inv d'" by (rule db_ops.deploy_contracts_invar [OF store dep assms(3) st [OF assms(5)] inv1])
  have gen: "g_conf (site_gen (ct_ctx ct) agents si) = cx_config (ct_ctx ct)"
    "g_label (site_gen (ct_ctx ct) agents si) = cx_scenario_label (ct_ctx ct)" by (simp_all add: site_gen_def)
  have "\<exists>t a. sqlite_get_named e c d' (scenario_db_key (cc_name (cd_contract step)) (cx_scenario_label (ct_ctx ct)))
      (si_chain si) = Ok (Some t) \<and> nt_address t = Some a \<and> code_seen (si_node si) a"
    if "step \<in> set (get_create_steps (cx_config (ct_ctx ct)))" for step
    using db_ops.deploy_contracts_deploys(2) [OF store dep assms(3) st [OF assms(5)] inv1, unfolded gen, OF _ that]
    by (simp add: db_ops.deployed_def [OF store])
  with init inv show ?thesis by (simp add: phase_def)
qed

text \<open>A run that has its actors starts, unless the database or the node fails.\<close>

lemma spam_setup_ready:
  assumes "run_ready st"
  shows "case spam_setup ins_run block_number req timeout st of
      (st1, Ok run_id) \<Rightarrow> run_ready st1 \<and> sp_scenario st1 = sp_scenario st \<and> map fst (sp_handles st1) = map fst (sp_handles st)
        \<and> (\<exists>n. ins_run (sp_db st) req = Ok (sp_db st1, run_id) \<and> block_number = Ok n)
    | (st1, _) \<Rightarrow> run_ready st1 \<and> \<not> (\<exists>d run_id n. ins_run (sp_db st) req = Ok (d, run_id) \<and> block_number = Ok n)"
proof -
  have prep: "prepare_for_run st = (st, Ok ())" using assms by (simp add: prepare_for_run_def run_ready_def)
  have init: "on_handles (init_handle ac) (st\<lparr>sp_db := d\<rparr>)
      = (st\<lparr>sp_db := d, sp_handles := map (\<lambda>(n, h). (n, h\<lparr>mh_ctx := Some ac\<rparr>)) (sp_handles st)\<rparr>, Ok ())" for ac d
    using init_all [of "st\<lparr>sp_db := d\<rparr>" ac] assms by (simp add: run_ready_def handles_ready_def)
  have ready: "run_ready (st\<lparr>sp_db := d\<rparr>)" for d using assms by (simp add: run_ready_def handles_ready_def)
  have ready': "run_ready (st\<lparr>sp_db := d, sp_handles := map (\<lambda>p. (fst p, (snd p)\<lparr>mh_ctx := Some ac\<rparr>)) (sp_handles st)\<rparr>)" for ac d
    using assms by (auto simp: run_ready_def handles_ready_def)
  show ?thesis
    by (auto simp: spam_setup_def sbind_def prep slift_def sreturn_def init ready ready' assms comp_def case_prod_unfold
        split: rresult.splits)
qed

text \<open>
  C11. A spam run leaves the \<open>Contender\<close> ready for the next one unless an actor is lost in it.  Let the run
  start with a live token and live actors.  If it cannot start because the database or the node answers with an
  error, it ends with them.  Once started, whether the spammer succeeds, fails or is cancelled from
  outside: the call returns exactly if every flush loop ends; if no actor was lost it
  returns the spammer's own result and leaves a live token, live actors and running flush loops; if one was lost
  it returns the error of the message that could not be sent instead, and leaves the lost actor behind a fresh token.
  A panic of the spammer ends the call at once.
\<close>

theorem spam_keeps_ready:
  assumes "run_ready st"
  shows "if \<exists>d run_id n. ins_run (sp_db st) req = Ok (d, run_id) \<and> block_number = Ok n
    then \<forall>d run_id n. ins_run (sp_db st) req = Ok (d, run_id) \<and> block_number = Ok n \<longrightarrow>
      (case run_or_interrupt interrupted (run run_id) (sp_scenario st, d) of ((s1, d1), res) \<Rightarrow>
        if res = Panic
        then \<exists>st'. spam ins_run block_number run fate interrupted req timeout st = Some (st', Panic) \<and> sp_db st' = d1
        else if all_flush fate st
        then \<exists>st'. spam ins_run block_number run fate interrupted req timeout st
               = Some (st', if some_die fate st then Err (CoreCallback TxActorSendMessage) else res)
             \<and> (if some_die fate st then actor_lost st' else run_ready st') \<and> sp_scenario st' = s1 \<and> sp_db st' = d1
        else spam ins_run block_number run fate interrupted req timeout st = None)
    else \<exists>st' r. spam ins_run block_number run fate interrupted req timeout st = Some (st', r) \<and> run_ready st' \<and> r \<noteq> Ok ()"
proof -
  obtain st1 r1 where su: "spam_setup ins_run block_number req timeout st = (st1, r1)" by force
  note start = spam_setup_ready [OF assms, where ins_run = ins_run and block_number = block_number and req = req and timeout = timeout,
      unfolded su prod.case]
  show ?thesis
  proof (cases r1)
    case (Ok run_id)
    with start have ready: "run_ready st1" "sp_scenario st1 = sp_scenario st" "map fst (sp_handles st1) = map fst (sp_handles st)"
      and ins: "ins_run (sp_db st) req = Ok (sp_db st1, run_id)" and "\<exists>n. block_number = Ok n" by auto
    have keys: "fst ` set (sp_handles st1) = fst ` set (sp_handles st)" using ready(3) by (metis set_map)
    obtain s1 d1 res where run: "run_or_interrupt interrupted (run run_id) (sp_scenario st, sp_db st1) = ((s1, d1), res)"
      by (metis surj_pair)
    let ?st = "st1\<lparr>sp_scenario := s1, sp_db := d1, sp_cancelled := True\<rparr>"
    have alive: "\<forall>h \<in> snd ` set (sp_handles ?st). mh_alive h" using ready(1) by (auto simp: run_ready_def handles_ready_def)
    have same: "all_flush fate ?st = all_flush fate st" "some_die fate ?st = some_die fate st"
      using keys by (simp_all add: all_flush_def some_die_def)
    note fin = finish_run [OF alive, of fate res, unfolded same]
    have spam: "spam ins_run block_number run fate interrupted req timeout st = run_and_finish fate interrupted (run run_id) st1"
      by (simp add: spam_def su Ok)
    show ?thesis
      using fin run ins \<open>\<exists>n. block_number = Ok n\<close> unfolding spam
      by (cases res) (auto simp: run_and_finish_def ready(2) actors_after_def)
  qed (use start in \<open>auto simp: spam_def su\<close>)
qed

definition demo_spam_state :: "unit spam_state" where
  "demo_spam_state = \<lparr>sp_scenario = demo_scenario, sp_db = (), sp_cancelled = False,
     sp_handles = [(''default'', \<lparr>mh_alive = True, mh_flush_complete = False, mh_ctx = None\<rparr>)]\<rparr>"

definition demo_fate :: "bool \<Rightarrow> actors_fate" where
  "demo_fate dies = \<lparr>af_dies = (\<lambda>k. dies), af_flush_ends = (\<lambda>k. True)\<rparr>"

text \<open>The same failing run, with its actor alive and with its actor lost.\<close>

theorem spam_keeps_ready_witness:
  "let run = \<lambda>dies. spam (\<lambda>d r. Ok (d, 1)) (Ok 5) (\<lambda>i w. (w, Err (CoreRpc ''down''))) (demo_fate dies) None
         (create_spam_run_request run_opts_default 0 ''http://a'' 12 (Seconds 1)) 12 demo_spam_state
   in (\<exists>st'. run False = Some (st', Err (CoreRpc ''down'')) \<and> run_ready st')
      \<and> (\<exists>st'. run True = Some (st', Err (CoreCallback TxActorSendMessage)) \<and> actor_lost st')"
proof -
  have "run_ready demo_spam_state" by (simp add: run_ready_def handles_ready_def demo_spam_state_def)
  note ready = spam_keeps_ready [OF this, where ins_run = "\<lambda>d r. Ok (d, 1)" and block_number = "Ok 5"
      and run = "\<lambda>i w. (w, Err (CoreRpc ''down''))" and interrupted = None and timeout = 12
      and req = "create_spam_run_request run_opts_default 0 ''http://a'' 12 (Seconds 1)"]
  have "all_flush (demo_fate b) demo_spam_state" "some_die (demo_fate b) demo_spam_state = b" for b
    by (simp_all add: all_flush_def some_die_def demo_fate_def demo_spam_state_def)
  with ready [where fate = "demo_fate False"] ready [where fate = "demo_fate True"] show ?thesis
    by (auto simp: run_or_interrupt_def Let_def)
qed

text \<open>Any number of further calls of \<open>spam\<close>, each with its own node answers, fate of the actors and request.\<close>

fun later_runs ::
  "('d \<Rightarrow> spam_run_request \<Rightarrow> ('d \<times> u64, db_error) rresult) \<Rightarrow> (u64 \<Rightarrow> (scenario \<times> 'd, unit, core_error) action)
    \<Rightarrow> (u64 \<times> actors_fate \<times> (scenario \<times> 'd) option \<times> spam_run_request \<times> u64) list
    \<Rightarrow> 'd spam_state \<Rightarrow> ('d spam_state \<times> (unit, core_error) rresult list) option" where
  "later_runs ins_run run [] st = Some (st, [])"
| "later_runs ins_run run ((block_number, fate, interrupted, req, timeout) # calls) st =
     (case spam ins_run (Ok block_number) run fate interrupted req timeout st of
        None \<Rightarrow> None
      | Some (st', r) \<Rightarrow> map_option (\<lambda>(st'', rs). (st'', r # rs)) (later_runs ins_run run calls st'))"

fun insert_runs :: "('d \<Rightarrow> spam_run_request \<Rightarrow> ('d \<times> u64, db_error) rresult) \<Rightarrow> spam_run_request list \<Rightarrow> 'd \<Rightarrow> 'd option" where
  "insert_runs ins_run [] d = Some d"
| "insert_runs ins_run (req # reqs) d =
     (case ins_run d req of Ok (d', _) \<Rightarrow> insert_runs ins_run reqs d' | _ \<Rightarrow> None)"

lemma lost_actor_fails_run:
  assumes "actor_lost st" and "ins_run (sp_db st) req = Ok (d, run_id)"
  shows "\<exists>st'. spam ins_run (Ok n) run fate interrupted req timeout st
      = Some (st', Err (CoreCallback TxActorSendMessage)) \<and> actor_lost st' \<and> sp_db st' = d \<and> sp_scenario st' = sp_scenario st"
proof -
  let ?ac = "with_pending_tx_timeout (actor_context_new n run_id) timeout"
  have "\<exists>h \<in> snd ` set (sp_handles (st\<lparr>sp_db := d\<rparr>)). \<not> mh_alive h" using assms(1) by (auto simp: actor_lost_def)
  from init_lost [OF this, of ?ac] obtain hs where
    init: "on_handles (init_handle ?ac) (st\<lparr>sp_db := d\<rparr>) = (st\<lparr>sp_db := d, sp_handles := hs\<rparr>, Err (CoreCallback TxActorSendMessage))"
    and lost: "\<exists>h \<in> snd ` set hs. \<not> mh_alive h" by auto
  have "prepare_for_run st = (st, Ok ())" using assms(1) by (simp add: prepare_for_run_def actor_lost_def)
  then have "spam_setup ins_run (Ok n) req timeout st
      = (st\<lparr>sp_db := d, sp_handles := hs\<rparr>, Err (CoreCallback TxActorSendMessage))"
    by (simp add: spam_setup_def sbind_def slift_def assms(2) init)
  with lost assms(1) show ?thesis by (simp add: spam_def actor_lost_def)
qed

text \<open>
  C12. A lost actor fails every later run.  In the state that a run with a lost actor leaves behind, each further call of
  \<open>spam\<close> skips the restart because the token is fresh, adds its run to the database, fails at the lost
  actor when the contexts are set, before the spammer has started, and leaves the contender in that state again.
  So it is for every sequence of further calls for which the database and the node answer: all of them fail with the
  same error, and the database has a run for each.
\<close>

theorem lost_actor_fails_later_runs:
  assumes "actor_lost st" and "insert_runs ins_run (map (\<lambda>(_, _, _, req, _). req) calls) (sp_db st) = Some d"
  shows "\<exists>st'. later_runs ins_run run calls st
      = Some (st', replicate (length calls) (Err (CoreCallback TxActorSendMessage)))
    \<and> actor_lost st' \<and> sp_db st' = d \<and> sp_scenario st' = sp_scenario st"
  using assms
proof (induction calls arbitrary: st)
  case (Cons c calls)
  obtain n fate interrupted req timeout where c: "c = (n, fate, interrupted, req, timeout)" by (metis prod_cases5)
  from Cons.prems(2) obtain d1 run_id where ins: "ins_run (sp_db st) req = Ok (d1, run_id)"
    and rest: "insert_runs ins_run (map (\<lambda>(_, _, _, req, _). req) calls) d1 = Some d"
    by (auto simp: c split: rresult.splits prod.splits)
  from lost_actor_fails_run [where ins_run = ins_run and run = run, OF Cons.prems(1) ins]
  obtain st1 where st1: "spam ins_run (Ok n) run fate interrupted req timeout st = Some (st1, Err (CoreCallback TxActorSendMessage))"
    "actor_lost st1" "sp_db st1 = d1" "sp_scenario st1 = sp_scenario st" by metis
  with Cons.IH [OF st1(2)] rest show ?case by (auto simp: c)
qed simp

theorem lost_actor_fails_later_runs_witness:
  "let lost = demo_spam_state\<lparr>sp_handles := [(''default'', \<lparr>mh_alive = False, mh_flush_complete = True, mh_ctx = None\<rparr>)]\<rparr>;
       req = create_spam_run_request run_opts_default 0 ''http://a'' 12 (Seconds 1)
   in \<exists>st'. later_runs (\<lambda>d r. Ok (d, 1)) (\<lambda>i w. (w, Ok ())) (replicate 2 (5, demo_fate False, None, req, 12)) lost
      = Some (st', [Err (CoreCallback TxActorSendMessage), Err (CoreCallback TxActorSendMessage)]) \<and> actor_lost st'"
proof -
  let ?lost = "demo_spam_state\<lparr>sp_handles := [(''default'', \<lparr>mh_alive = False, mh_flush_complete = True, mh_ctx = None\<rparr>)]\<rparr>"
  let ?calls = "replicate 2 (5, demo_fate False, None, create_spam_run_request run_opts_default 0 ''http://a'' 12 (Seconds 1), 12)"
  have two: "replicate 2 x = [x, x]" for x :: 'a by (simp add: numeral_2_eq_2)
  have "actor_lost ?lost" by (simp add: actor_lost_def demo_spam_state_def)
  from lost_actor_fails_later_runs [OF this, where ins_run = "\<lambda>d r. Ok (d, 1)" and run = "\<lambda>i w. (w, Ok ())" and d = "()"
      and calls = ?calls]
  show ?thesis by (auto simp: Let_def two simp del: later_runs.simps)
qed

section \<open>An initialization that succeeds\<close>

definition demo_ctx :: contender_ctx where
  "demo_ctx = \<lparr>cx_config = with_create test_config_new [demo_create], cx_seeder = seed_from_u256 1,
     cx_rpc_url = ''http://a'', cx_builder_rpc_url = None, cx_agent_spec = agent_spec_default,
     cx_user_signers = [\<lparr>sg_key = [1], sg_address = 7\<rparr>], cx_tx_type = Eip1559, cx_bundle_type = BundleL1,
     cx_pending_tx_timeout = 12, cx_funding = SMOL_AMOUNT, cx_sync_nonces_after_batch = False,
     cx_rpc_batch_size = 0, cx_scenario_label = Some ''v2'', cx_send_raw_tx_sync = False, cx_txs_rpc_url = None\<rparr>"

definition demo_key :: signer_fn where
  "demo_key k = Some \<lparr>sg_key = k, sg_address = 7\<rparr>"

definition demo_site :: "string \<Rightarrow> (sqlite_db, unit, string \<times> tx_hash) site" where
  "demo_site url =
     \<lparr>si_node = demo_node, si_chain = (url, 5), si_gen = demo_create_gen,
      si_new = \<lparr>ne_genesis = Ok (Some 5), ne_chain_id = Ok 1, ne_builder_chain_id = Ok 1, ne_rpc = demo_rpc,
                ne_actor = Ok (), ne_block_time = Ok 1, ne_arrival = (\<lambda>as. as)\<rparr>,
      si_fund = \<lparr>fe_gas_price = (\<lambda>_. Ok 1), fe_tx_count = (\<lambda>_ _. Ok 0), fe_chain_id = (\<lambda>_. Ok 1),
                 fe_sign = (\<lambda>_ _. Ok 0), fe_send = (\<lambda>ch _. (ch, Ok 0)), fe_watch = (\<lambda>ch _. (ch, Ok ()))\<rparr>\<rparr>"

definition demo_fork :: "(sqlite_db, unit, string \<times> tx_hash) fork" where
  "demo_fork =
     \<lparr>fk_gas_price = Ok 1, fk_spawn = Ok (), fk_url = ''http://fork'', fk_site = demo_site ''http://fork'',
      fk_arrival = [], fk_balance = (\<lambda>_ _. Ok (- 1)), fk_admin = \<lparr>sg_key = [9], sg_address = 9\<rparr>,
      fk_cancelled = False, fk_state = ()\<rparr>"

lemma demo_site_fields:
  "si_node (demo_site url) = demo_node" "si_chain (demo_site url) = (url, 5)" "ne_rpc (si_new (demo_site url)) = demo_rpc"
  by (simp_all add: demo_site_def)

lemma demo_fund_agents: "fund_agents (si_fund (demo_site url)) f amount agents ch = (ch, Ok ())"
proof -
  let ?fe = "si_fund (demo_site url)"
  have each: "smapM (\<lambda>x ch. (ch, Ok (f x) :: (_, core_error) rresult)) xs ch = (ch, Ok (map f xs))" for f :: "'x \<Rightarrow> 'y" and xs and ch :: unit
    by (induction xs) (simp_all add: sbind_def sreturn_def)
  have sign: "rmapM (\<lambda>x. Ok (h x)) xs = (Ok (map h xs) :: (_, core_error) rresult)" for h :: "'x \<Rightarrow> 'y" and xs
    by (induction xs) simp_all
  have "fund_signers_send ?fe f amount st = (\<lambda>ch. (ch, Ok ()))" for st
    using sign [of "\<lambda>_ :: tx_request. 0 :: tx_hash"] each [of "\<lambda>_ :: tx_request. 0 :: tx_hash"]
      each [of "\<lambda>_ :: tx_hash. ()"]
    by (simp add: fund_signers_send_def demo_site_def sbind_def slift_def sreturn_def fun_eq_iff Let_def)
  then have "fund_signers_send ?fe f amount = (\<lambda>st ch. (ch, Ok ()))" by (simp add: fun_eq_iff)
  with each [of "\<lambda>_ :: signer_store. ()"] show ?thesis by (simp add: fund_agents_def sbind_def sreturn_def)
qed

lemma demo_create_pools:
  "get_create_pools (with_create test_config_new [demo_create]) = [''admin'']"
  "get_setup_pools (with_create test_config_new [demo_create]) = []"
  "get_spam_pools (with_create test_config_new [demo_create]) = []"
  "get_setup_steps (with_create test_config_new [demo_create]) = []"
  "get_env (with_create test_config_new [demo_create]) = []"
proof -
  show "get_create_pools (with_create test_config_new [demo_create]) = [''admin'']"
    by (simp add: get_create_pools_def demo_create_steps sort_dedup_def List.map_filter_def)
qed (simp_all add: get_setup_pools_def get_spam_pools_def get_setup_steps_def
      get_spam_steps_def unwrap_or_default_def sort_dedup_def List.map_filter_def with_create_def test_config_new_def
      get_env_def)

lemma demo_agents:
  "\<exists>st. build_agent_store keccak demo_key (with_create test_config_new [demo_create]) rs agent_spec_default
      = (Ok [(''admin'', st)] :: (agent_store, 'e) rresult)
    \<and> ss_signers st \<noteq> [] \<and> list_all (\<lambda>sg. sg_address sg = 7) (ss_signers st)"
proof -
  obtain st where st: "signer_store_new keccak demo_key 1 rs ''admin'' Deployer = (Ok st :: (_, 'e) rresult)"
    using signer_store_new_total [of demo_key "''admin''" keccak 1 rs Deployer] by (auto simp: demo_key_def)
  then have "length (ss_signers st) = 1" by (rule signer_store_new_length)
  moreover from st have "sg_address sg = 7" if "sg \<in> set (ss_signers st)" for sg
    using that by (auto simp: signer_store_new_def demo_key_def rmapM_eq_Ok in_set_conv_nth list_all2_conv_all_nth)
      (metis signer.select_convs(2))
  ultimately show ?thesis using st
    by (auto simp: build_agent_store_def pool_max_signers_def pools_with_counts_def demo_create_pools pool_entry_def
        hm_insert_def build_step_def add_new_agent_def add_agent_def agent_spec_default_def list_all_iff)
qed

lemma demo_scenario_new:
  assumes "tp_agent_spec p = agent_spec_default" and "tp_builder_rpc_url p = None" and "tp_tx_type p = Eip1559"
    and "tp_gas_price p = None"
  shows "\<exists>st s. scenario_new keccak demo_key (with_create test_config_new [demo_create]) rs (si_new (demo_site url)) p
      = Ok ([(''admin'', st)], s)
    \<and> can_deploy s \<and> sc_gas_price s = None \<and> ss_signers st \<noteq> [] \<and> list_all (\<lambda>sg. sg_address sg = 7) (ss_signers st)"
proof -
  obtain st where st: "build_agent_store keccak demo_key (with_create test_config_new [demo_create]) rs agent_spec_default
      = (Ok [(''admin'', st)] :: (agent_store, core_error) rresult)"
    "ss_signers st \<noteq> []" "list_all (\<lambda>sg. sg_address sg = 7) (ss_signers st)" using demo_agents by blast
  obtain vs where vs: "seed_values keccak rs 9001 None None = (Ok vs :: (_, core_error) rresult)"
    using seed_values_default by blast
  then have "length vs = 9001" by (rule seed_values_length)
  then have "vs \<noteq> []" by auto
  have fold: "hm_get (insert_signers m sgs) 7 \<noteq> None" if "list_all (\<lambda>sg. sg_address sg = 7) sgs" "sgs \<noteq> []" for m sgs
    using that by (induction sgs arbitrary: m rule: rev_induct) (auto simp: insert_signers_def)
  from st(2,3) have "hm_get (insert_signers m (concat (map ss_signers (hm_values [(''admin'', st)])))) 7 \<noteq> None" for m
    using fold by (simp add: hm_values_def)
  with st vs \<open>vs \<noteq> []\<close> assms show ?thesis
    by (simp add: scenario_new_def generate_setcode_signer_def demo_key_def demo_site_def can_deploy_def Let_def)
qed

lemma demo_site_deployer:
  assumes "cx_config cx = with_create test_config_new [demo_create]"
    and "ss_signers st \<noteq> []" and "list_all (\<lambda>sg. sg_address sg = 7) (ss_signers st)"
  shows "demo_deployer (site_gen cx [(''admin'', st)] (demo_site url))"
    and "get_env (g_conf (site_gen cx agents (demo_site url))) = []"
    and "get_setup_steps (g_conf (scenario_gen (site_gen cx agents (demo_site url)) s)) = []"
  using assms demo_create_gen_deployer
  by (simp_all add: demo_deployer_def site_gen_def demo_site_def get_agent_def hm_get_def demo_create_pools scenario_gen_def)

lemma run_setup_nothing:
  assumes "can_deploy s" and "get_setup_steps (g_conf (scenario_gen g s)) = []"
  shows "\<exists>s'. run_setup ins conv nd chain hash_text g env s (d, ch) = Ok (d, ch, s')"
  using assms by (simp add: run_setup_def load_txs_def load_plan_def plan_init_def await_pending_def
      fetch_blob_gas_price_def can_deploy_def)

lemma demo_balances:
  "\<exists>m. balances_before (fk_balance demo_fork) ch amount addresses = Ok m"
  "simulated_cost (fk_balance demo_fork) ch m = Ok 0"
proof -
  have "\<exists>m'. rfoldl (\<lambda>m a. rbind (rmap_err CoreRpc (fk_balance demo_fork ch a)) (\<lambda>b. Ok (hm_insert a (b + amount) m))) m
      addresses = Ok m'" for m
    by (induction addresses arbitrary: m) (simp_all add: demo_fork_def)
  then show "\<exists>m. balances_before (fk_balance demo_fork) ch amount addresses = Ok m" by (simp add: balances_before_def)
  have "start \<le> - 1" for start :: u256 using word_order.extremum by simp
  then show "simulated_cost (fk_balance demo_fork) ch m = Ok 0"
    by (induction m) (auto simp: simulated_cost_def demo_fork_def)
qed

lemma demo_simulation:
  assumes "cx_config cx = with_create test_config_new [demo_create]" and "can_deploy sim" and "named_ready d"
    and "ss_signers st \<noteq> []" and "list_all (\<lambda>sg. sg_address sg = 7) (ss_signers st)"
  shows "\<exists>d' ch'. simulate_setup (sqlite_insert_named demo_env std_codec (\<lambda>d s. Panic)) db_error_of_sqlite hash_text cx
    demo_fork [(''admin'', st)] sim (d, ()) = Ok (d', ch') \<and> named_ready d'"
proof -
  let ?g = "site_gen cx [(''admin'', st)] (demo_site ''http://fork'')"
  have url: "plain_text ''http://fork''" by (simp add: plain_text_def)
  obtain d2 s2 where dep: "deploy_contracts (sqlite_insert_named demo_env std_codec (\<lambda>d s. Panic)) db_error_of_sqlite demo_node
      (''http://fork'', 5) ?g demo_rpc sim (d, ()) = Ok (d2, (), s2)" "named_ready d2" "can_deploy s2"
    using demo_deploys [OF demo_site_deployer(1,2) [OF assms(1,4,5)] assms(2,3) url] by blast
  have "can_deploy (sync_nonces demo_rpc [] s2)" using dep(3) by (simp add: can_deploy_def sync_nonces_def)
  then have "\<exists>s3. run_setup (sqlite_insert_named demo_env std_codec (\<lambda>d s. Panic)) db_error_of_sqlite demo_node
      (''http://fork'', 5) hash_text ?g demo_rpc (sync_nonces demo_rpc [] s2) (d2, ()) = Ok (d2, (), s3)"
    by (rule run_setup_nothing) (rule demo_site_deployer(3) [OF assms(1,4,5)])
  with dep demo_site_fields show ?thesis
    by (simp add: simulate_setup_def Let_def) (auto simp: demo_fork_def demo_site_fields)
qed

lemma demo_estimate:
  assumes "cx_config cx = with_create test_config_new [demo_create]" and "cx_agent_spec cx = agent_spec_default"
    and "can_deploy s" and "sc_gas_price s = None" and "named_ready d"
  shows "\<exists>d'. estimate_setup_cost keccak demo_key (sqlite_insert_named demo_env std_codec (\<lambda>d s. Panic)) db_error_of_sqlite
    hash_text cx demo_fork agents s d = Ok (d', 0) \<and> named_ready d'"
proof -
  let ?p = "simulation_params cx demo_fork agents s"
  have site: "fk_site demo_fork = demo_site ''http://fork''" "fk_spawn demo_fork = Ok ()" "fk_gas_price demo_fork = Ok 1"
    by (simp_all add: demo_fork_def)
  have "tp_agent_spec ?p = agent_spec_default" "tp_builder_rpc_url ?p = None" "tp_tx_type ?p = Eip1559" "tp_gas_price ?p = None"
    using assms(2-4) by (simp_all add: simulation_params_def can_deploy_def)
  from demo_scenario_new [OF this] obtain st sim where sim:
    "scenario_new keccak demo_key (with_create test_config_new [demo_create]) (cx_seeder cx)
      (si_new (demo_site ''http://fork'')) ?p = Ok ([(''admin'', st)], sim)"
    "can_deploy sim" "ss_signers st \<noteq> []" "list_all (\<lambda>sg. sg_address sg = 7) (ss_signers st)" by blast
  let ?as = "all_signer_addresses [(''admin'', st)]"
  obtain m where m: "balances_before (fk_balance demo_fork) () (fund_amount (length ?as)) ?as = Ok m"
    using demo_balances(1) by blast
  obtain d' ch' where run: "simulate_setup (sqlite_insert_named demo_env std_codec (\<lambda>d s. Panic)) db_error_of_sqlite hash_text
      cx demo_fork [(''admin'', st)] sim (d, ()) = Ok (d', ch')" "named_ready d'"
    using demo_simulation [OF assms(1) sim(2) assms(5) sim(3,4)] by blast
  show ?thesis
    using run(2) by (simp add: estimate_setup_cost_def assms(1,4) site sim(1) m demo_fund_agents run(1) demo_balances(2) Let_def)
qed

lemma demo_initialize:
  "\<exists>d' ct'. initialize (\<lambda>b. b) demo_key (sqlite_insert_named demo_env std_codec (\<lambda>d s. Panic)) db_error_of_sqlite
     (show_hash std_codec) (\<lambda>_. []) (demo_site ''http://a'') demo_fork False (contender_new demo_ctx) (demo_db, ())
     = Ok (d', (), ct')"
proof -
  let ?p = "scenario_params_of demo_ctx"
  have ctx: "cx_config demo_ctx = with_create test_config_new [demo_create]" "cx_agent_spec demo_ctx = agent_spec_default"
    and f: "cx_user_signers demo_ctx = [\<lparr>sg_key = [1], sg_address = 7\<rparr>]"
    by (simp_all add: demo_ctx_def)
  have "tp_agent_spec ?p = agent_spec_default" "tp_builder_rpc_url ?p = None" "tp_tx_type ?p = Eip1559" "tp_gas_price ?p = None"
    by (simp_all add: scenario_params_of_def demo_ctx_def)
  from demo_scenario_new [OF this] obtain st s where s:
    "build_scenario (\<lambda>b. b) demo_key (si_new (demo_site ''http://a'')) demo_ctx = Ok ([(''admin'', st)], s)"
    "can_deploy s" "sc_gas_price s = None" "ss_signers st \<noteq> []" "list_all (\<lambda>sg. sg_address sg = 7) (ss_signers st)"
    unfolding build_scenario_def ctx(1) by blast
  note d = demo_site_deployer [OF ctx(1) s(4,5)]
  obtain d1 where est: "estimate_setup_cost (\<lambda>b. b) demo_key (sqlite_insert_named demo_env std_codec (\<lambda>d s. Panic))
      db_error_of_sqlite (show_hash std_codec) demo_ctx demo_fork [(''admin'', st)] s demo_db = Ok (d1, 0)" "named_ready d1"
    using demo_estimate [OF ctx s(2,3) demo_start(3)] by blast
  obtain d2 s2 where dep: "deploy_contracts (sqlite_insert_named demo_env std_codec (\<lambda>d s. Panic)) db_error_of_sqlite demo_node
      (''http://a'', 5) (site_gen demo_ctx [(''admin'', st)] (demo_site ''http://a'')) demo_rpc s (d1, ()) = Ok (d2, (), s2)"
      "can_deploy s2"
    using demo_deploys [OF d(1,2) s(2) est(2) demo_start(5)] by blast
  have "\<exists>s3. run_setup (sqlite_insert_named demo_env std_codec (\<lambda>d s. Panic)) db_error_of_sqlite demo_node
      (''http://a'', 5) (show_hash std_codec) (site_gen demo_ctx [(''admin'', st)] (demo_site ''http://a'')) demo_rpc s2
      (d2, ()) = Ok (d2, (), s3)" by (rule run_setup_nothing [OF dep(2) d(3)])
  with dep(1) show ?thesis
    by (auto simp: initialize_def initialize_inner_def contender_new_def s(1) est(1) f hm_values_def demo_fund_agents
        demo_site_fields Let_def)
qed

theorem initialized_contender_ready_witness:
  "\<exists>d' ct' t. initialize (\<lambda>b. b) demo_key (sqlite_insert_named demo_env std_codec (\<lambda>d s. Panic)) db_error_of_sqlite
     (show_hash std_codec) (\<lambda>_. []) (demo_site ''http://a'') demo_fork False (contender_new demo_ctx) (demo_db, ())
     = Ok (d', (), ct')
   \<and> phase ct' = PhaseInitialized
   \<and> sqlite_get_named demo_env std_codec d' ''weth_v2'' (''http://a'', 5) = Ok (Some t)"
proof -
  obtain d' ct' where init: "initialize (\<lambda>b. b) demo_key (sqlite_insert_named demo_env std_codec (\<lambda>d s. Panic))
     db_error_of_sqlite (show_hash std_codec) (\<lambda>_. []) (demo_site ''http://a'') demo_fork False (contender_new demo_ctx)
     (demo_db, ()) = Ok (d', (), ct')" using demo_initialize by blast
  have node: "no_code_at_zero demo_node" by (simp add: no_code_at_zero_def demo_node_def)
  have url: "plain_text (fst (si_chain (fk_site demo_fork)))" "no_code_at_zero (si_node (fk_site demo_fork))"
    using node by (simp_all add: demo_fork_def demo_site_fields plain_text_def)
  have ctx: "get_create_steps (cx_config (ct_ctx (contender_new demo_ctx))) = [demo_create\<lparr>cd_from_pool := Some ''admin''\<rparr>]"
    "cx_scenario_label (ct_ctx (contender_new demo_ctx)) = Some ''v2''" "cc_name (cd_contract demo_create) = ''weth''"
    by (simp_all add: contender_new_def demo_ctx_def demo_create_steps) (simp add: demo_create_def create_definition_new_def)
  from initialized_contender_ready [OF std_codec_laws init _ url(2) _ url(1) demo_db_inv] init node demo_start(5)
  show ?thesis unfolding ctx(1) by (auto simp: ctx demo_site_fields scenario_db_key_def)
qed

end
