(* ===== verification/Report_Heatmap.thy ===== *)
theory Report_Heatmap
  imports Report_Charts Rust_State
begin

text \<open>
  The storage heatmap of a report, \<open>crates/report/src/chart/heatmap.rs\<close>: how often
  each storage slot was touched in each block, read from the pre-state traces of
  the transactions, and the condensed matrix that the page shows.  A storage slot
  is its 32 bytes read as a number, which orders slots as the bytes do.  The
  counters are 64-bit words.
\<close>

section \<open>Traces\<close>

text \<open>
  What \<open>try_into_pre_state_frame\<close> and \<open>as_default\<close> make of a trace: the touched slots of each
  account, a diff, or a trace of another kind.
\<close>

datatype geth_trace = PreStateDefault "(address \<times> u256 list) list" | PreStateDiff | OtherTrace

record tx_trace_receipt =
  tr_trace :: geth_trace
  tr_block_number :: "u64 option"
  tr_transaction_hash :: tx_hash
  tr_gas_used :: u64

datatype heatmap_error = ReceiptMissingBlockNum tx_hash | DecodePrestateTraceFrame geth_trace

type_synonym slot_counts = "(u64 \<times> (u256 \<times> u64) list) list"

definition count_slot :: "u64 \<Rightarrow> slot_counts \<Rightarrow> u256 \<Rightarrow> slot_counts" where
  "count_slot block_num m slot =
     (case map_of m block_num of
        Some slot_map \<Rightarrow>
          bt_insert block_num
            (bt_insert slot (case map_of slot_map slot of Some v \<Rightarrow> v + 1 | None \<Rightarrow> 1) slot_map) m
      | None \<Rightarrow> bt_insert block_num (bt_insert slot 1 []) m)"

definition copy_slot_access_map ::
  "slot_counts \<Rightarrow> tx_trace_receipt \<Rightarrow> (slot_counts, heatmap_error) rresult" where
  "copy_slot_access_map m t =
     rbind (ok_or (tr_block_number t) (ReceiptMissingBlockNum (tr_transaction_hash t))) (\<lambda>block_num.
       case tr_trace t of
         OtherTrace \<Rightarrow> Ok m
       | PreStateDiff \<Rightarrow> Err (DecodePrestateTraceFrame (tr_trace t))
       | PreStateDefault accounts \<Rightarrow>
           Ok (foldl (\<lambda>m (_, slots). foldl (count_slot block_num) m slots) m accounts))"

definition heatmap_new :: "tx_trace_receipt list \<Rightarrow> (slot_counts, heatmap_error) rresult" where
  "heatmap_new trace_data = rfoldl copy_slot_access_map [] trace_data"

section \<open>The matrix\<close>

definition MAX_BLOCKS :: nat where
  "MAX_BLOCKS = 100"

definition MAX_SLOTS :: nat where
  "MAX_SLOTS = 100"

definition get_hex_slots :: "slot_counts \<Rightarrow> u256 list" where
  "get_hex_slots m = sort (remdups (concat (map (map fst \<circ> snd) m)))"

definition slot_total :: "slot_counts \<Rightarrow> u256 \<Rightarrow> u64" where
  "slot_total m slot = sum_list (List.map_filter (\<lambda>(_, slot_map). map_of slot_map slot) m)"

definition condense_blocks :: "u64 list \<Rightarrow> u64 list \<times> nat" where
  "condense_blocks all_blocks =
     (if MAX_BLOCKS < length all_blocks
      then let bucket_size = (length all_blocks + MAX_BLOCKS - 1) div MAX_BLOCKS
           in (map hd (chunks_ne bucket_size all_blocks), bucket_size)
      else (all_blocks, 1))"

definition condense_slots :: "slot_counts \<Rightarrow> u256 list \<Rightarrow> u256 list" where
  "condense_slots m all_slots =
     (if MAX_SLOTS < length all_slots
      then sort (map fst (take MAX_SLOTS
             (sort_key (\<lambda>(_, n). - 1 - n) (map (\<lambda>slot. (slot, slot_total m slot)) all_slots))))
      else all_slots)"

definition cell_count :: "slot_counts \<Rightarrow> u64 list \<Rightarrow> u256 \<Rightarrow> u64" where
  "cell_count m bucket_blocks slot =
     sum_list (List.map_filter
       (\<lambda>block. case map_of m block of Some slot_map \<Rightarrow> map_of slot_map slot | None \<Rightarrow> None) bucket_blocks)"

record heatmap_data =
  hx_blocks :: "u64 list"
  hx_slots :: "string list"
  hx_matrix :: "(nat \<times> nat \<times> u64) list"
  hx_max_accesses :: u64

definition add_cell ::
  "slot_counts \<Rightarrow> nat \<Rightarrow> u64 list \<Rightarrow> (nat \<times> nat \<times> u64) list \<times> u64 \<Rightarrow> nat \<times> u256
    \<Rightarrow> (nat \<times> nat \<times> u64) list \<times> u64" where
  "add_cell m i bucket_blocks = (\<lambda>(matrix, max_accesses) (j, slot).
     let count = cell_count m bucket_blocks slot
     in (if 0 < count then matrix @ [(i, j, count)] else matrix,
         if max_accesses < count then count else max_accesses))"

definition heatmap_echart :: "slot_counts \<Rightarrow> heatmap_data" where
  "heatmap_echart m =
     (let all_blocks = map fst m; all_slots = get_hex_slots m
      in case condense_blocks all_blocks of (blocks, block_bucket_size) \<Rightarrow>
         let slots = condense_slots m all_slots
         in case foldl (\<lambda>acc (i, bucket_blocks). foldl (add_cell m i bucket_blocks) acc (enumerate 0 slots))
                   ([], 0) (enumerate 0 (chunks_ne block_bucket_size all_blocks)) of
              (matrix, max_accesses) \<Rightarrow>
                \<lparr>hx_blocks = blocks, hx_slots = map (\<lambda>h. show_hex_padded 64 (unat h)) slots,
                  hx_matrix = matrix, hx_max_accesses = max_accesses\<rparr>)"

section \<open>Lemmas: counting\<close>

definition heat_wf :: "slot_counts \<Rightarrow> bool" where
  "heat_wf m \<longleftrightarrow> bt_wf m \<and> (\<forall>b sm. map_of m b = Some sm \<longrightarrow> bt_wf sm)"

definition accesses_at :: "slot_counts \<Rightarrow> u64 \<Rightarrow> u256 \<Rightarrow> u64" where
  "accesses_at m b s =
     (case map_of m b of None \<Rightarrow> 0 | Some sm \<Rightarrow> (case map_of sm s of None \<Rightarrow> 0 | Some v \<Rightarrow> v))"

text \<open>The accesses of the traces, one entry for every slot that a transaction touched in a block.\<close>

definition trace_accesses :: "tx_trace_receipt \<Rightarrow> (u64 \<times> u256) list" where
  "trace_accesses t =
     (case (tr_block_number t, tr_trace t) of
        (Some b, PreStateDefault accounts) \<Rightarrow> map (Pair b) (concat (map snd accounts))
      | _ \<Rightarrow> [])"

lemma count_slot_wf: "heat_wf m \<Longrightarrow> heat_wf (count_slot b m s)"
  by (auto simp: heat_wf_def count_slot_def split: option.splits if_splits)

lemma count_slot_at:
  "heat_wf m \<Longrightarrow> accesses_at (count_slot b m s) b' s' = accesses_at m b' s' + (if (b, s) = (b', s') then 1 else 0)"
  by (auto simp: heat_wf_def count_slot_def accesses_at_def split: option.splits)

lemma count_slots_at:
  assumes "heat_wf m"
  shows "heat_wf (foldl (count_slot b) m slots)"
    and "accesses_at (foldl (count_slot b) m slots) b' s'
      = accesses_at m b' s' + word_of_nat (count_list (map (Pair b) slots) (b', s'))"
  using assms
proof (induction slots arbitrary: m)
  case (Cons s slots)
  { case 1 with Cons show ?case by (simp add: count_slot_wf) }
  { case 2 with Cons show ?case by (auto simp: count_slot_wf count_slot_at) }
qed simp_all

lemma fold_accounts: "foldl (\<lambda>m (_, slots). foldl f m slots) m accounts = foldl f m (concat (map snd accounts))"
  by (induction accounts arbitrary: m) auto

lemma copy_slot_access_map_at:
  assumes "copy_slot_access_map m t = Ok m'" and "heat_wf m"
  shows "heat_wf m'"
    and "accesses_at m' b s = accesses_at m b s + word_of_nat (count_list (trace_accesses t) (b, s))"
  using assms(1) count_slots_at [OF assms(2)] assms(2)
  by (cases "tr_trace t"; cases "tr_block_number t";
      auto simp: copy_slot_access_map_def trace_accesses_def fold_accounts)+

lemma heatmap_new_at:
  assumes "heatmap_new traces = Ok m"
  shows "heat_wf m" and "accesses_at m b s = word_of_nat (count_list (concat (map trace_accesses traces)) (b, s))"
proof -
  have "heat_wf m \<and> accesses_at m b s
      = accesses_at m0 b s + word_of_nat (count_list (concat (map trace_accesses traces)) (b, s))"
    if "rfoldl copy_slot_access_map m0 traces = Ok m" and "heat_wf m0" for m0
    using that
  proof (induction traces arbitrary: m0)
    case (Cons t traces)
    from Cons.prems(1) obtain m1 where "copy_slot_access_map m0 t = Ok m1"
      and "rfoldl copy_slot_access_map m1 traces = Ok m" by auto
    with Cons.IH copy_slot_access_map_at [of m0 t m1] Cons.prems(2) show ?case
      by (auto simp: count_list_append)
  qed simp
  from this [of "[]"] assms show "heat_wf m"
    and "accesses_at m b s = word_of_nat (count_list (concat (map trace_accesses traces)) (b, s))"
    by (auto simp: heatmap_new_def heat_wf_def accesses_at_def)
qed

lemma cell_count_at: "cell_count m blocks slot = (\<Sum>b\<leftarrow>blocks. accesses_at m b slot)"
  by (induction blocks)
    (auto simp: cell_count_def accesses_at_def List.map_filter_def split: option.splits)

section \<open>Lemmas: the matrix\<close>

lemma add_cells_set:
  "x \<in> set (fst (foldl (add_cell m i bucket) (matrix, n) js)) \<longleftrightarrow>
     x \<in> set matrix \<or> (\<exists>(j, slot) \<in> set js. x = (i, j, cell_count m bucket slot) \<and> 0 < cell_count m bucket slot)"
proof (induction js arbitrary: matrix n)
  case (Cons js_0 js)
  obtain j slot where js_0: "js_0 = (j, slot)" by force
  let ?c = "cell_count m bucket slot"
  obtain matrix' n' where acc: "add_cell m i bucket (matrix, n) (j, slot) = (matrix', n')" by force
  then have "x \<in> set matrix' \<longleftrightarrow> x \<in> set matrix \<or> (x = (i, j, ?c) \<and> 0 < ?c)"
    by (auto simp: add_cell_def Let_def split: if_splits)
  then show ?case by (simp add: js_0 acc Cons.IH)
qed simp

lemma add_rows_set:
  "x \<in> set (fst (foldl (\<lambda>acc (i, bucket). foldl (add_cell m i bucket) acc js) (matrix, n) rows)) \<longleftrightarrow>
     x \<in> set matrix \<or> (\<exists>(i, bucket) \<in> set rows. \<exists>(j, slot) \<in> set js.
         x = (i, j, cell_count m bucket slot) \<and> 0 < cell_count m bucket slot)"
proof (induction rows arbitrary: matrix n)
  case (Cons row rows)
  obtain i bucket where row: "row = (i, bucket)" by force
  obtain matrix' n' where acc: "foldl (add_cell m i bucket) (matrix, n) js = (matrix', n')" by force
  then have "x \<in> set matrix' \<longleftrightarrow> x \<in> set matrix \<or>
      (\<exists>(j, slot) \<in> set js. x = (i, j, cell_count m bucket slot) \<and> 0 < cell_count m bucket slot)"
    using add_cells_set [of x m i bucket matrix n js] by simp
  then show ?case by (simp add: row acc Cons.IH)
qed simp

lemma chunks_count: "0 < n \<Longrightarrow> length xs \<le> k * n \<Longrightarrow> length (chunks_ne n xs) \<le> k"
proof (induction k arbitrary: xs)
  case (Suc k)
  then show ?case by (subst chunks_ne.simps) (auto intro: Suc.IH)
qed simp

lemma div_ceil_bound: "0 < (k :: nat) \<Longrightarrow> n \<le> k * ((n + k - 1) div k)"
  using dividend_less_times_div [of k "n + k - 1"] by linarith

lemma condense_blocks_bound: "length (fst (condense_blocks bs)) \<le> MAX_BLOCKS"
proof -
  let ?n = "(length bs + MAX_BLOCKS - 1) div MAX_BLOCKS"
  have "length bs \<le> MAX_BLOCKS * ?n \<and> (MAX_BLOCKS < length bs \<longrightarrow> 0 < ?n)"
    using div_ceil_bound [of MAX_BLOCKS "length bs"] by (auto simp: MAX_BLOCKS_def div_greater_zero_iff)
  then show ?thesis
    using chunks_count [of ?n bs MAX_BLOCKS] by (auto simp: condense_blocks_def Let_def)
qed

lemma condense_slots_top:
  assumes "MAX_SLOTS < length all_slots"
  obtains ps where "condense_slots m all_slots = sort (map fst (take MAX_SLOTS ps))"
    and "set ps = (\<lambda>s. (s, slot_total m s)) ` set all_slots" and "length ps = length all_slots"
    and "sorted_wrt (\<lambda>(_, n) (_, n'). n' \<le> n) ps"
proof -
  let ?ps = "sort_key (\<lambda>(_, n). - 1 - n) (map (\<lambda>slot. (slot, slot_total m slot)) all_slots)"
  have rev: "(- 1 :: u64) - n \<le> - 1 - n' \<longleftrightarrow> n' \<le> n" for n n'
  proof -
    have "unat n \<le> unat (- 1 :: u64)" "unat n' \<le> unat (- 1 :: u64)"
      using word_order.extremum [of n] word_order.extremum [of n'] by (simp_all only: word_le_nat_alt)
    then show ?thesis by (simp add: word_le_nat_alt unat_sub) linarith
  qed
  have "sorted (map (\<lambda>(_, n). - 1 - n) ?ps)" by simp
  then have "sorted_wrt (\<lambda>(_, n) (_, n'). n' \<le> n) ?ps"
    by (simp add: sorted_map rev case_prod_unfold)
  with assms that [of ?ps] show thesis by (simp add: condense_slots_def)
qed

lemma condense_slots_bound: "length (condense_slots m all_slots) \<le> MAX_SLOTS"
  by (simp add: condense_slots_def)

lemma hottest_kept:
  assumes "s \<in> set all_slots" and "s \<notin> set (condense_slots m all_slots)"
    and "s' \<in> set (condense_slots m all_slots)"
  shows "slot_total m s \<le> slot_total m s'"
proof -
  have big: "MAX_SLOTS < length all_slots" using assms(1,2) by (auto simp: condense_slots_def split: if_splits)
  obtain ps where
    kept: "condense_slots m all_slots = sort (map fst (take MAX_SLOTS ps))"
    and ps: "set ps = (\<lambda>s. (s, slot_total m s)) ` set all_slots"
    and srt: "sorted_wrt (\<lambda>(_, n) (_, n'). n' \<le> n) ps"
    by (rule condense_slots_top [OF big])
  from assms(3) kept obtain n' where in': "(s', n') \<in> set (take MAX_SLOTS ps)" by auto
  then have "(s', n') \<in> set ps" by (meson in_set_takeD)
  then have n': "n' = slot_total m s'" using ps by auto
  have "(s, slot_total m s) \<in> set ps" using assms(1) ps by auto
  moreover have "(s, slot_total m s) \<notin> set (take MAX_SLOTS ps)" 
    using assms(2) unfolding kept by (metis fst_conv image_eqI set_map set_sort)
  ultimately have "(s, slot_total m s) \<in> set (drop MAX_SLOTS ps)"
    by (metis Un_iff append_take_drop_id set_append)
  moreover have "sorted_wrt (\<lambda>(_, n) (_, n'). n' \<le> n) (take MAX_SLOTS ps @ drop MAX_SLOTS ps)" using srt by simp
  ultimately show ?thesis using in' n' unfolding sorted_wrt_append by fastforce
qed

lemma ex_enumerate: "(\<exists>p \<in> set (enumerate 0 xs). P p) \<longleftrightarrow> (\<exists>i < length xs. P (i, xs ! i))"
  by (auto simp: in_set_enumerate_eq Bex_def)

section \<open>Properties\<close>

text \<open>
  The heatmap shows the accesses of the traces: a cell is in the matrix exactly when the
  slot of its row was touched in a block of its column, and its value is the number
  of times the traced transactions touched that slot in those blocks.
\<close>

theorem heatmap_cells:
  assumes "heatmap_new traces = Ok m"
  shows "let columns = chunks_ne (snd (condense_blocks (map fst m))) (map fst m);
      slots = condense_slots m (get_hex_slots m);
      touched = (\<lambda>b s. word_of_nat (count_list (concat (map trace_accesses traces)) (b, s)))
    in (i, j, c) \<in> set (hx_matrix (heatmap_echart m)) \<longleftrightarrow>
      i < length columns \<and> j < length slots \<and> c = (\<Sum>b\<leftarrow>columns ! i. touched b (slots ! j)) \<and> 0 < c"
proof -
  let ?columns = "chunks_ne (snd (condense_blocks (map fst m))) (map fst m)"
  let ?slots = "condense_slots m (get_hex_slots m)"
  have matrix: "hx_matrix (heatmap_echart m) = fst (foldl (\<lambda>acc (i, bucket). foldl (add_cell m i bucket) acc
      (enumerate 0 ?slots)) ([], 0) (enumerate 0 ?columns))"
    by (simp add: heatmap_echart_def Let_def split: prod.splits)
  show ?thesis
    unfolding Let_def matrix add_rows_set cell_count_at heatmap_new_at(2) [OF assms]
    by (auto simp: ex_enumerate)
qed

text \<open>
  C32. The heatmap has at most a hundred columns and a hundred rows, for every count map, and the rows it
  keeps are the hottest: a slot that is left out was touched at most as
  often, over all blocks, as any slot that is shown. Nothing is dropped while there is room: up to a
  hundred slots are all shown.
\<close>

theorem heatmap_keeps_hottest:
  "length (hx_slots (heatmap_echart m)) \<le> MAX_SLOTS \<and> length (hx_blocks (heatmap_echart m)) \<le> MAX_BLOCKS
   \<and> hx_slots (heatmap_echart m) = map (\<lambda>h. show_hex_padded 64 (unat h)) (condense_slots m (get_hex_slots m))
   \<and> (length (get_hex_slots m) \<le> MAX_SLOTS \<longrightarrow> set (condense_slots m (get_hex_slots m)) = set (get_hex_slots m))
   \<and> (s \<in> set (get_hex_slots m) \<longrightarrow> s \<notin> set (condense_slots m (get_hex_slots m))
        \<longrightarrow> s' \<in> set (condense_slots m (get_hex_slots m)) \<longrightarrow> slot_total m s \<le> slot_total m s')"
proof -
  have slots: "hx_slots (heatmap_echart m) = map (\<lambda>h. show_hex_padded 64 (unat h)) (condense_slots m (get_hex_slots m))"
    by (simp add: heatmap_echart_def Let_def split: prod.splits)
  have "length (hx_blocks (heatmap_echart m)) \<le> MAX_BLOCKS"
    using condense_blocks_bound [of "map fst m"] by (auto simp: heatmap_echart_def Let_def split: prod.splits)
  moreover have "set (condense_slots m (get_hex_slots m)) = set (get_hex_slots m)"
    if "length (get_hex_slots m) \<le> MAX_SLOTS"
    using that by (simp add: condense_slots_def)
  ultimately show ?thesis
    unfolding slots using condense_slots_bound [of m "get_hex_slots m"] hottest_kept [of s "get_hex_slots m" m s'] by simp
qed

definition demo_traces :: "tx_trace_receipt list" where
  "demo_traces =
     [\<lparr>tr_trace = PreStateDefault [(7, [1, 2])], tr_block_number = Some 5, tr_transaction_hash = 1, tr_gas_used = 21000\<rparr>,
      \<lparr>tr_trace = PreStateDefault [(7, [1])], tr_block_number = Some 5, tr_transaction_hash = 2, tr_gas_used = 21000\<rparr>]"

lemma demo_heatmap: "heatmap_new demo_traces = Ok [(5, [(1, 2), (2, 1)])]"
  by (simp add: heatmap_new_def demo_traces_def copy_slot_access_map_def count_slot_def)

theorem heatmap_cells_witness:
  "(0, 0, 2) \<in> set (hx_matrix (heatmap_echart [(5, [(1, 2), (2, 1)])]))"
  using heatmap_cells [OF demo_heatmap, of 0 0 2]
  by (simp add: condense_blocks_def condense_slots_def MAX_BLOCKS_def MAX_SLOTS_def get_hex_slots_def
      chunks_ne.simps demo_traces_def trace_accesses_def)

definition demo_hot :: slot_counts where
  "demo_hot = [(1, map (\<lambda>i. (word_of_nat i, word_of_nat i)) [0..<101])]"

theorem heatmap_keeps_hottest_witness:
  "\<exists>s s'. s \<in> set (get_hex_slots demo_hot) \<and> s \<notin> set (condense_slots demo_hot (get_hex_slots demo_hot)) \<and>
     s' \<in> set (condense_slots demo_hot (get_hex_slots demo_hot)) \<and> slot_total demo_hot s \<le> slot_total demo_hot s'"
proof -
  let ?all = "get_hex_slots demo_hot" and ?kept = "condense_slots demo_hot (get_hex_slots demo_hot)"
  have "inj_on (word_of_nat :: nat \<Rightarrow> u256) {0..<101}"
  proof (rule inj_onI)
    fix x y :: nat
    assume xy: "x \<in> {0..<101}" "y \<in> {0..<101}" and eq: "(word_of_nat x :: u256) = word_of_nat y"
    from xy have "unat (word_of_nat x :: u256) = x" "unat (word_of_nat y :: u256) = y"
      by (simp_all add: unat_of_nat)
    with eq show "x = y" by metis
  qed
  then have "card (set ?all) = 101" by (simp add: get_hex_slots_def demo_hot_def image_image card_image)
  moreover have "distinct ?all" by (simp add: get_hex_slots_def)
  ultimately have len: "length ?all = 101" by (simp add: distinct_card)
  have "card (set ?kept) \<le> 100"
    using condense_slots_bound [of demo_hot ?all] card_length [of ?kept] by (simp add: MAX_SLOTS_def)
  with \<open>card (set ?all) = 101\<close> have "\<not> set ?all \<subseteq> set ?kept"
    using card_mono [of "set ?kept" "set ?all"] by force
  then obtain s where s: "s \<in> set ?all" "s \<notin> set ?kept" by blast
  have "length ?kept = 100" using len by (simp add: condense_slots_def MAX_SLOTS_def)
  then obtain s' where "s' \<in> set ?kept" by (cases ?kept) auto
  with s heatmap_keeps_hottest [of demo_hot s s'] show ?thesis by blast
qed

end
