(* ===== verification/Report_Blocks.thy ===== *)
theory Report_Blocks
  imports Report_Heatmap Scenario_Defs
begin

text \<open>
  The block and trace data of a report, \<open>crates/report/src/block_trace.rs\<close>, and
  \<open>get_block_time\<close> of \<open>crates/core/src/util.rs\<close>.  The answers of the node are the
  record \<open>report_node\<close>.  Blocks and traces are fetched by concurrent tasks and
  arrive over a channel in any order: \<open>rn_block_order\<close> and \<open>rn_trace_order\<close> give
  the order of arrival.  A task that panics or fails is ignored by the code, which
  drops what it would have sent.
\<close>

record trace_receipt_answer =
  ra_block_number :: "u64 option"
  ra_gas_used :: u64

record report_node =
  rn_block_number :: "(u64, string) rresult"
  rn_block :: "u64 \<Rightarrow> (block_header option, string) rresult"
  rn_latest :: "(block_header option, string) rresult"
  rn_trace :: "tx_hash \<Rightarrow> (geth_trace, string) rresult"
  rn_receipt :: "tx_hash \<Rightarrow> (trace_receipt_answer option, string) rresult"
  rn_block_order :: "block_header list \<Rightarrow> block_header list"
  rn_trace_order :: "tx_trace_receipt list \<Rightarrow> tx_trace_receipt list"

datatype report_error =
    RepCore core_error
  | RepDb db_error
  | RepHeatmap heatmap_error
  | InvalidRunId u64
  | RepIo string
  | RepRpc string
  | RunDoesNotExist u64
  | CampaignNotFound string

section \<open>Block time\<close>

definition get_block_time :: "report_node \<Rightarrow> (u64, core_error) rresult" where
  "get_block_time nd =
     rbind (rmap_err CoreRpc (rn_block_number nd)) (\<lambda>block_num.
       if 2 \<le> block_num
       then rbind (rmapM (\<lambda>i. rmap_err CoreRpc (rn_block nd i)) [1, 2]) (\<lambda>answers.
              case List.map_filter (map_option bh_timestamp) answers of
                [t1, t2] \<Rightarrow> Ok (max (t2 - t1) 1)
              | _ \<Rightarrow> Ok 1)
       else Ok 1)"

section \<open>Blocks\<close>

text \<open>The channel panics when its capacity is zero or above the limit of its semaphore.\<close>

definition MAX_PERMITS :: u64 where
  "MAX_PERMITS = - 1 div 8"

definition block_answer :: "report_node \<Rightarrow> u64 \<Rightarrow> block_header option" where
  "block_answer nd n = (case rn_block nd n of Ok b \<Rightarrow> b | _ \<Rightarrow> None)"

definition get_blocks :: "report_node \<Rightarrow> u64 \<Rightarrow> u64 \<Rightarrow> (block_header list, report_error) rresult" where
  "get_blocks nd min_block max_block =
     (let capacity = max_block - min_block + 1
      in if capacity = 0 \<or> MAX_PERMITS < capacity then Panic
         else Ok (rn_block_order nd (List.map_filter (block_answer nd)
                (map word_of_nat [unat min_block..<unat max_block + 1]))))"

definition estimate_block_data ::
  "report_node \<Rightarrow> (u64 \<Rightarrow> (spam_run option, db_error) rresult) \<Rightarrow> u64 \<Rightarrow> u64
    \<Rightarrow> (block_header list, report_error) rresult" where
  "estimate_block_data nd get_run start_run_id end_run_id =
     rbind (rmap_err RepDb (get_run start_run_id)) (\<lambda>sr.
     rbind (ok_or sr (RunDoesNotExist start_run_id)) (\<lambda>start_run.
     rbind (rmap_err RepDb (get_run end_run_id)) (\<lambda>er.
     rbind (ok_or er (RunDoesNotExist end_run_id)) (\<lambda>end_run.
     let start_timestamp = sr_timestamp start_run div 1000; end_timestamp = sr_timestamp end_run div 1000
     in rbind (rmap_err RepCore (get_block_time nd)) (\<lambda>block_time.
        let add_seconds = (case sr_duration end_run of Seconds secs \<Rightarrow> secs | Blocks blocks \<Rightarrow> blocks * block_time)
        in rbind (rmap_err RepRpc (rn_latest nd)) (\<lambda>latest.
           rbind (expect latest) (\<lambda>recent_block.
           let start_block_delta = (bh_timestamp recent_block - start_timestamp) div block_time;
               start_block = saturating_sub (bh_number recent_block) start_block_delta;
               end_time_delta = end_timestamp - start_timestamp + add_seconds;
               end_block = start_block + end_time_delta div block_time
           in get_blocks nd start_block end_block)))))))"

definition block_bounds :: "u64 list \<Rightarrow> u64 \<times> u64" where
  "block_bounds bns = foldl (\<lambda>(lo, hi) bn. (min lo bn, max hi bn)) (- 1, 0) bns"

definition get_block_data :: "report_node \<Rightarrow> run_tx list \<Rightarrow> (block_header list, report_error) rresult" where
  "get_block_data nd txs =
     (let bns = List.map_filter rt_block_number txs
      in if bns = [] then Ok []
         else case block_bounds bns of (min_block, max_block) \<Rightarrow>
                get_blocks nd (saturating_sub min_block 3) (saturating_add max_block 3))"

section \<open>Traces\<close>

definition trace_answer :: "report_node \<Rightarrow> tx_hash \<Rightarrow> tx_trace_receipt option" where
  "trace_answer nd h =
     (case (rn_trace nd h, rn_receipt nd h) of
        (Ok trace, Ok (Some r)) \<Rightarrow>
          Some \<lparr>tr_trace = trace, tr_block_number = ra_block_number r, tr_transaction_hash = h,
                tr_gas_used = ra_gas_used r\<rparr>
      | _ \<Rightarrow> None)"

definition get_block_traces ::
  "report_node \<Rightarrow> block_header list \<Rightarrow> (tx_trace_receipt list, report_error) rresult" where
  "get_block_traces nd full_blocks =
     (let hashes = concat (map bh_tx_hashes full_blocks)
      in if hashes = [] then Ok [] else Ok (rn_trace_order nd (List.map_filter (trace_answer nd) hashes)))"

section \<open>Lemmas\<close>

lemma get_block_time_pos: "get_block_time nd = Ok t \<Longrightarrow> 1 \<le> t"
proof -
  have "(case ts of [t1, t2] \<Rightarrow> Ok (max (t2 - t1) 1) | _ \<Rightarrow> Ok 1) = (Ok t :: (u64, core_error) rresult) \<Longrightarrow> 1 \<le> t"
    for ts by (auto split: list.split_asm)
  then show "get_block_time nd = Ok t \<Longrightarrow> 1 \<le> t"
    by (auto simp: get_block_time_def simp del: rmapM.simps split: if_splits)
qed

lemma block_bounds_fold:
  "foldl (\<lambda>(lo, hi) bn. (min lo bn, max hi bn)) (lo, hi) bns = (lo', hi') \<Longrightarrow>
     lo' \<le> lo \<and> hi \<le> hi' \<and> (\<forall>bn \<in> set bns. lo' \<le> bn \<and> bn \<le> hi')" for lo hi :: u64
proof (induction bns arbitrary: lo hi)
  case (Cons bn bns)
  from Cons.IH [of "min lo bn" "max hi bn"] Cons.prems show ?case by auto
qed simp

lemma map_filter_mem: "y \<in> set (List.map_filter f xs) \<longleftrightarrow> (\<exists>x \<in> set xs. f x = Some y)"
  by (force simp: List.map_filter_def image_iff)

lemma word_range_mem: "x \<in> set (map word_of_nat [unat lo..<unat hi + 1]) \<longleftrightarrow> lo \<le> x \<and> x \<le> hi" for x :: u64
proof
  assume "lo \<le> x \<and> x \<le> hi"
  then have "unat x \<in> {unat lo..<unat hi + 1}" by (simp add: word_le_nat_alt)
  then have "word_of_nat (unat x) \<in> set (map word_of_nat [unat lo..<unat hi + 1] :: u64 list)"
    unfolding set_map set_upt by (rule imageI)
  then show "x \<in> set (map word_of_nat [unat lo..<unat hi + 1])" by simp
next
  assume "x \<in> set (map word_of_nat [unat lo..<unat hi + 1])"
  then obtain n where "x = word_of_nat n" "unat lo \<le> n" "n \<le> unat hi" by auto
  moreover from this have "n < 2 ^ 64" using unsigned_less [where 'a = nat, of hi] by simp
  ultimately show "lo \<le> x \<and> x \<le> hi" by (simp add: word_le_nat_alt unat_of_nat)
qed

lemma get_blocks_mem:
  assumes "get_blocks nd lo hi = Ok blocks" and "lo \<le> n" and "n \<le> hi" and "rn_block nd n = Ok (Some b)"
    and "\<And>bs. set (rn_block_order nd bs) = set bs"
  shows "b \<in> set blocks"
proof -
  have "n \<in> set (map word_of_nat [unat lo..<unat hi + 1])" using assms(2,3) by (simp only: word_range_mem)
  moreover have "block_answer nd n = Some b" using assms(4) by (simp add: block_answer_def)
  ultimately have "b \<in> set (List.map_filter (block_answer nd) (map word_of_nat [unat lo..<unat hi + 1]))"
    unfolding map_filter_mem by blast
  moreover have "blocks = rn_block_order nd (List.map_filter (block_answer nd) (map word_of_nat [unat lo..<unat hi + 1]))"
    using assms(1) unfolding get_blocks_def Let_def by (simp del: upt_Suc split: if_splits)
  ultimately show ?thesis using assms(5) by simp
qed

text \<open>
  The blocks of a report contain every block in which a transaction of its runs landed
  and that the node can serve, whatever the order in which the answers
  arrive.
\<close>

theorem block_data_covers_txs:
  assumes "get_block_data nd txs = Ok blocks" and "tx \<in> set txs" and "rt_block_number tx = Some n"
    and "rn_block nd n = Ok (Some b)" and "\<And>bs. set (rn_block_order nd bs) = set bs"
  shows "b \<in> set blocks"
proof -
  let ?bns = "List.map_filter rt_block_number txs"
  have n: "n \<in> set ?bns" using assms(2,3) by (auto simp: map_filter_mem)
  obtain lo hi where b: "block_bounds ?bns = (lo, hi)" by force
  from block_bounds_fold [OF b [unfolded block_bounds_def]] n have "lo \<le> n" "n \<le> hi" by auto
  then have "saturating_sub lo 3 \<le> n" "n \<le> saturating_add hi 3"
    using unsigned_less [where 'a = nat, of n] by (simp_all add: word_le_nat_alt unat_saturating_add)
  moreover have "get_blocks nd (saturating_sub lo 3) (saturating_add hi 3) = Ok blocks"
    using assms(1) n b by (cases "?bns = []") (simp_all add: get_block_data_def Let_def)
  ultimately show ?thesis using get_blocks_mem assms(4,5) by blast
qed

definition demo_report_block :: block_header where
  "demo_report_block = \<lparr>bh_number = 2, bh_gas_used = 21000, bh_gas_limit = 30000000, bh_timestamp = 12, bh_tx_hashes = [7]\<rparr>"

definition demo_report_node :: report_node where
  "demo_report_node =
     \<lparr>rn_block_number = Ok 3, rn_block = (\<lambda>n. Ok (if n = 2 then Some demo_report_block else None)),
      rn_latest = Ok (Some demo_report_block), rn_trace = (\<lambda>h. Err ''unsupported''), rn_receipt = (\<lambda>h. Ok None),
      rn_block_order = rev, rn_trace_order = id\<rparr>"

definition demo_landed_tx :: run_tx where
  "demo_landed_tx = demo_pending_tx\<lparr>rt_end_timestamp_ms := Some 7000, rt_block_number := Some 2\<rparr>"

lemma demo_get_block_data: "\<exists>blocks. get_block_data demo_report_node [demo_landed_tx] = Ok blocks"
  by (simp add: get_block_data_def demo_landed_tx_def block_bounds_def Let_def get_blocks_def MAX_PERMITS_def
      saturating_sub_def saturating_add_def List.map_filter_def)

theorem block_data_covers_txs_witness:
  "\<exists>blocks. get_block_data demo_report_node [demo_landed_tx] = Ok blocks \<and> demo_report_block \<in> set blocks"
proof -
  obtain blocks where ok: "get_block_data demo_report_node [demo_landed_tx] = Ok blocks"
    using demo_get_block_data by blast
  have "demo_report_block \<in> set blocks"
    by (rule block_data_covers_txs [OF ok, of demo_landed_tx 2])
      (simp_all add: demo_landed_tx_def demo_report_node_def)
  with ok show ?thesis by blast
qed

end
