(* ===== verification/Report_Command.thy ===== *)
theory Report_Command
  imports Report_Blocks "HOL-Library.List_Lexorder" "HOL-Library.Char_ord" "HOL-Library.Product_Lexorder"
begin

text \<open>
  The report of a range of runs and of a campaign, \<open>crates/report/src/command.rs\<close>:
  the selection of the runs, the metrics, the merged latency buckets, the charts
  of a report, and the totals of a campaign.  The queries on the database are the
  record \<open>report_db\<close> (the database is only read); files, the regular output and
  the order in which a \<open>HashSet\<close> is iterated are the record \<open>report_io\<close>.
\<close>

section \<open>Parameters\<close>

record report_params =
  rp_last_run_id :: "u64 option"
  rp_preceding_runs :: u64
  rp_use_json :: bool
  rp_skip_tx_traces :: bool
  rp_time_to_inclusion_bucket :: u64

definition report_params_default :: report_params where
  "report_params_default =
     \<lparr>rp_last_run_id = None, rp_preceding_runs = 0, rp_use_json = False, rp_skip_tx_traces = False,
      rp_time_to_inclusion_bucket = 1000\<rparr>"

definition with_last_run_id :: "report_params \<Rightarrow> u64 \<Rightarrow> report_params" where
  "with_last_run_id p i = p\<lparr>rp_last_run_id := Some i\<rparr>"

definition with_preceding_runs :: "report_params \<Rightarrow> u64 \<Rightarrow> report_params" where
  "with_preceding_runs p n = p\<lparr>rp_preceding_runs := n\<rparr>"

definition with_use_json :: "report_params \<Rightarrow> bool \<Rightarrow> report_params" where
  "with_use_json p b = p\<lparr>rp_use_json := b\<rparr>"

definition with_skip_tx_traces :: "report_params \<Rightarrow> bool \<Rightarrow> report_params" where
  "with_skip_tx_traces p b = p\<lparr>rp_skip_tx_traces := b\<rparr>"

definition with_time_to_inclusion_bucket :: "report_params \<Rightarrow> u64 \<Rightarrow> report_params" where
  "with_time_to_inclusion_bucket p n = p\<lparr>rp_time_to_inclusion_bucket := n\<rparr>"

section \<open>What a report reads and writes\<close>

record report_db =
  rb_num_runs :: "(u64, db_error) rresult"
  rb_get_run :: "u64 \<Rightarrow> (spam_run option, db_error) rresult"
  rb_get_run_txs :: "u64 \<Rightarrow> (run_tx list, db_error) rresult"
  rb_get_latency_metrics :: "u64 \<Rightarrow> string \<Rightarrow> (bucket list, db_error) rresult"
  rb_get_runs_by_campaign :: "string \<Rightarrow> (spam_run list, db_error) rresult"

record 'a metric =
  mt_description :: "string option"
  mt_value :: 'a

definition metric_new :: "'a \<Rightarrow> string option \<Rightarrow> 'a metric" where
  "metric_new v d = \<lparr>mt_description = d, mt_value = v\<rparr>"

record gas_quantiles =
  gq_p50 :: u128
  gq_p90 :: u128
  gq_p95 :: u128
  gq_p99 :: u128

record rpc_latency_quantiles =
  rl_p50 :: u64
  rl_p90 :: u64
  rl_p99 :: u64
  rl_method :: string

record runtime_params =
  rtp_txs_per_duration :: u64
  rtp_duration_value :: u64
  rtp_duration_unit :: string
  rtp_timeout :: u64

record spam_run_metrics =
  sm_peak_gas :: "u64 metric"
  sm_gas_quantiles :: gas_quantiles
  sm_peak_tx_count :: "u64 metric"
  sm_average_block_time_secs :: "f64 metric"
  sm_latency_quantiles :: "rpc_latency_quantiles list"
  sm_runtime_params :: "runtime_params list"
  sm_total_txs :: "u64 metric"
  sm_successful_txs :: "u64 metric"
  sm_failed_txs :: "u64 metric"

record campaign_metadata =
  cm_id :: "string option"
  cm_name :: "string option"
  cm_stage :: "string option"
  cm_scenario :: "string option"

record chart_data =
  ch_heatmap :: heatmap_data
  ch_gas_per_block :: gas_per_block_data
  ch_time_to_inclusion :: hist
  ch_tx_gas_used :: hist
  ch_pending_txs :: pending_txs_data
  ch_latency_charts :: "(string \<times> latency_data) list"
  ch_flashblock_time_to_inclusion :: "hist option"
  ch_flashblock_index :: "hist option"

record report_metadata =
  rm_scenario_name :: string
  rm_start_run_id :: u64
  rm_end_run_id :: u64
  rm_start_block :: u64
  rm_end_block :: u64
  rm_rpc_url :: string
  rm_metrics :: spam_run_metrics
  rm_chart_data :: chart_data
  rm_campaign :: "campaign_metadata option"

record report_io =
  io_make_dir :: "(unit, string) rresult"
  io_save_csv :: "u64 \<Rightarrow> run_tx list \<Rightarrow> (unit, string) rresult"
  io_cached :: "(tx_trace_receipt list \<times> block_header list, string) rresult option"
  io_save_cache :: "tx_trace_receipt list \<Rightarrow> block_header list \<Rightarrow> (unit, string) rresult"
  io_valid_url :: "string \<Rightarrow> bool"
  io_name_order :: "string list \<Rightarrow> string list"
  io_write_report :: "bool \<Rightarrow> report_metadata \<Rightarrow> (unit, string) rresult"

section \<open>The runs of a report\<close>

definition run_ids :: "u64 \<Rightarrow> u64 \<Rightarrow> u64 list" where
  "run_ids start_run_id end_run_id = map word_of_nat [unat start_run_id..<unat end_run_id + 1]"

definition resolve_end_run :: "u64 \<Rightarrow> report_params \<Rightarrow> (u64, report_error) rresult" where
  "resolve_end_run num_runs params =
     (case rp_last_run_id params of
        Some i \<Rightarrow> if i = 0 \<or> num_runs < i then Err (InvalidRunId i) else Ok i
      | None \<Rightarrow> Ok num_runs)"

definition collect_txs ::
  "report_db \<Rightarrow> report_io \<Rightarrow> u64 list \<Rightarrow> (run_tx list, report_error) rresult" where
  "collect_txs rdb io ids =
     rfoldl (\<lambda>all_txs i.
       rbind (rmap_err RepDb (rb_get_run_txs rdb i)) (\<lambda>txs.
       rbind (rmap_err RepIo (io_save_csv io i txs)) (\<lambda>_.
       Ok (all_txs @ txs)))) [] ids"

definition runtime_params_of :: "spam_run \<Rightarrow> runtime_params" where
  "runtime_params_of run =
     \<lparr>rtp_txs_per_duration = sr_txs_per_duration run, rtp_duration_value = duration_value (sr_duration run),
      rtp_duration_unit = duration_unit (sr_duration run), rtp_timeout = sr_timeout run\<rparr>"

definition collect_runs ::
  "report_db \<Rightarrow> string \<Rightarrow> u64 list \<Rightarrow> (runtime_params list \<times> spam_run list, report_error) rresult" where
  "collect_runs rdb rpc_url ids =
     rfoldl (\<lambda>(ps, runs) i.
       rbind (rmap_err RepDb (rb_get_run rdb i)) (\<lambda>r.
       case r of
         Some run \<Rightarrow>
           if sr_rpc_url run \<noteq> rpc_url then Ok (ps, runs)
           else Ok (ps @ [runtime_params_of run], runs @ [run])
       | None \<Rightarrow> Ok (ps, runs))) ([], []) ids"

definition report_campaign_context :: "spam_run list \<Rightarrow> campaign_metadata option" where
  "report_campaign_context run_data =
     (case List.find (\<lambda>run. sr_campaign_id run \<noteq> None) (rev run_data) of
        Some run \<Rightarrow>
          Some \<lparr>cm_id = sr_campaign_id run, cm_name = sr_campaign_name run, cm_stage = sr_stage_name run,
                cm_scenario = Some (sr_scenario_name run)\<rparr>
      | None \<Rightarrow> None)"

text \<open>The replacement of \<open>.*/(.*)\.toml$\<close> by its group; a dot does not match a line feed.\<close>

definition after_last :: "char \<Rightarrow> string \<Rightarrow> string" where
  "after_last c s = rev (takeWhile (\<lambda>d. d \<noteq> c) (rev s))"

definition scenario_stem :: "string \<Rightarrow> string" where
  "scenario_stem v =
     (let line = after_last (CHR 0x0A) v; base = after_last (CHR ''/'') line
      in case strip_suffix base ''.toml'' of
           Some stem \<Rightarrow> if CHR ''/'' \<in> set line then take (length v - length line) v @ stem else v
         | None \<Rightarrow> v)"

definition join_names :: "string list \<Rightarrow> string" where
  "join_names names =
     (case names of [] \<Rightarrow> [] | n # ns \<Rightarrow> foldl (\<lambda>acc v. acc @ '', '' @ v) n ns)"

section \<open>Metrics\<close>

definition quantile_index :: "nat \<Rightarrow> rat \<Rightarrow> nat" where
  "quantile_index len q =
     min (unat (saturating_sub (f64_to_u64 (f64_ceil (f64_mul (f64_of_rat (of_nat len)) (f64_of_rat q)))) 1)) (len - 1)"

definition gas_quantiles_of :: "block_header list \<Rightarrow> gas_quantiles" where
  "gas_quantiles_of blocks =
     (let gas_values = sort (map (\<lambda>b. ucast (bh_gas_used b) :: u128) blocks); len = length gas_values
      in if gas_values = [] then \<lparr>gq_p50 = 0, gq_p90 = 0, gq_p95 = 0, gq_p99 = 0\<rparr>
         else \<lparr>gq_p50 = gas_values ! quantile_index len (5 / 10), gq_p90 = gas_values ! quantile_index len (9 / 10),
               gq_p95 = gas_values ! quantile_index len (95 / 100), gq_p99 = gas_values ! quantile_index len (99 / 100)\<rparr>)"

definition block_time_deltas :: "block_header list \<Rightarrow> u64 list" where
  "block_time_deltas blocks =
     (let ts = sort (map bh_timestamp blocks) in map (\<lambda>(a, b). b - a) (zip ts (drop 1 ts)))"

definition average_block_time :: "block_header list \<Rightarrow> f64" where
  "average_block_time blocks =
     f64_div (f64_of_u64 (sum_list (block_time_deltas blocks)))
       (f64_of_u64 (max (word_of_nat (length blocks) - 1) 1))"

definition latency_methods :: "string list" where
  "latency_methods =
     [''eth_sendRawTransaction'', ''eth_sendRawTransactionSync'', ''eth_blockNumber'', ''eth_chainId'',
      ''eth_estimateGas'', ''eth_gasPrice'', ''eth_getBlockByNumber'', ''eth_getBlockReceipts'',
      ''eth_getTransactionCount'', ''eth_sendBundle'']"

definition f64_eq :: "f64 \<Rightarrow> f64 \<Rightarrow> bool" where
  "f64_eq a b \<longleftrightarrow> a = b \<and> a \<noteq> NaN"

fun merge_bucket :: "bucket list \<Rightarrow> bucket \<Rightarrow> bucket list" where
  "merge_bucket [] b = [b]"
| "merge_bucket (e # es) b =
     (if f64_eq (upper_bound e) (upper_bound b)
      then e\<lparr>cumulative_count := cumulative_count e + cumulative_count b\<rparr> # es
      else e # merge_bucket es b)"

definition canonical_latency ::
  "report_db \<Rightarrow> u64 list \<Rightarrow> string \<Rightarrow> (bucket list, report_error) rresult" where
  "canonical_latency rdb ids rpc_method =
     rfoldl (\<lambda>acc i. rmap (foldl merge_bucket acc) (rmap_err RepDb (rb_get_latency_metrics rdb i rpc_method)))
       [] ids"

definition canonical_latency_map ::
  "report_db \<Rightarrow> u64 list \<Rightarrow> ((string \<times> bucket list) list, report_error) rresult" where
  "canonical_latency_map rdb ids =
     rfoldl (\<lambda>m rpc_method. rmap (\<lambda>bs. bt_insert rpc_method bs m) (canonical_latency rdb ids rpc_method))
       [] latency_methods"

definition has_latency :: "bucket list \<Rightarrow> bool" where
  "has_latency bs = (bs \<noteq> [] \<and> 0 < cumulative_count (last bs))"

fun f64_round_ties_even :: "f64 \<Rightarrow> f64" where
  "f64_round_ties_even (Fin x) = Fin (of_int (round_half_even x))"
| "f64_round_ties_even a = a"

definition to_ms :: "f64 \<Rightarrow> u64" where
  "to_ms latency = f64_to_u64 (f64_round_ties_even (f64_mul latency (Fin 1000)))"

definition latency_quantiles_of :: "(string \<times> bucket list) list \<Rightarrow> rpc_latency_quantiles list" where
  "latency_quantiles_of m =
     map (\<lambda>(rpc_method, bs).
            \<lparr>rl_p50 = to_ms (estimate_quantile bs (f64_of_rat (5 / 10))),
             rl_p90 = to_ms (estimate_quantile bs (f64_of_rat (9 / 10))),
             rl_p99 = to_ms (estimate_quantile bs (f64_of_rat (99 / 100))), rl_method = rpc_method\<rparr>)
       (filter (\<lambda>(_, bs). has_latency bs) m)"

text \<open>\<open>{:.2}\<close> of a non-negative number.\<close>

fun fmt_2 :: "f64 \<Rightarrow> string" where
  "fmt_2 (Fin x) =
     (let n = nat (round_half_even (x * 100)); frac = show_nat (n mod 100)
      in show_nat (n div 100) @ ''.'' @ replicate (2 - length frac) (CHR ''0'') @ frac)"
| "fmt_2 PInf = ''inf''"
| "fmt_2 NInf = ''-inf''"
| "fmt_2 NaN = ''NaN''"

definition failure_rate_desc :: "u64 \<Rightarrow> u64 \<Rightarrow> string option" where
  "failure_rate_desc failed_txs total_txs =
     (if 0 < total_txs
      then Some (fmt_2 (f64_mul (f64_div (f64_of_u64 failed_txs) (f64_of_u64 total_txs)) (Fin 100)) @ ''%'')
      else None)"

definition stability_desc :: "f64 \<Rightarrow> string" where
  "stability_desc dev =
     (if f64_eq dev (Fin 0) then ''stable''
      else ''unstable ('' @ [CHR 0xCF, CHR 0x83] @ ''='' @ fmt_2 dev @ '')'')"

definition metrics_of ::
  "run_tx list \<Rightarrow> block_header list \<Rightarrow> (string \<times> bucket list) list \<Rightarrow> runtime_params list
    \<Rightarrow> (spam_run_metrics, 'e) rresult" where
  "metrics_of all_txs blocks latency params_list =
     (let peak_gas = max_or_zero (map bh_gas_used blocks);
          block_gas_limit = (case blocks of [] \<Rightarrow> 30000000 | b # _ \<Rightarrow> bh_gas_limit b);
          peak_tx_count = word_of_nat (foldl max 0 (map (length \<circ> bh_tx_hashes) blocks));
          dev = (case std_deviation (block_time_deltas blocks) of Some d \<Rightarrow> d | None \<Rightarrow> Fin 0);
          total_txs = word_of_nat (length all_txs);
          failed_txs = word_of_nat (length (filter (\<lambda>tx. rt_error tx \<noteq> None) all_txs))
      in if block_gas_limit = 0 then Panic
         else Ok \<lparr>sm_peak_gas = metric_new peak_gas
                    (Some (show_nat (unat (peak_gas * 100 div block_gas_limit)) @ ''%'')),
                  sm_gas_quantiles = gas_quantiles_of blocks,
                  sm_peak_tx_count = metric_new peak_tx_count None,
                  sm_average_block_time_secs = metric_new (average_block_time blocks) (Some (stability_desc dev)),
                  sm_latency_quantiles = latency_quantiles_of latency,
                  sm_runtime_params = params_list,
                  sm_total_txs = metric_new total_txs None,
                  sm_successful_txs = metric_new (saturating_sub total_txs failed_txs) None,
                  sm_failed_txs = metric_new failed_txs (failure_rate_desc failed_txs total_txs)\<rparr>)"

section \<open>The report\<close>

definition latency_charts_of :: "(string \<times> bucket list) list \<Rightarrow> (string \<times> latency_data) list" where
  "latency_charts_of m =
     List.map_filter (\<lambda>rpc_method.
       case map_of m rpc_method of
         None \<Rightarrow> None
       | Some bs \<Rightarrow> if has_latency bs then Some (rpc_method, latency_echart bs) else None)
     [''eth_sendRawTransaction'', ''eth_sendRawTransactionSync'']"

definition charts_of ::
  "run_tx list \<Rightarrow> tx_trace_receipt list \<Rightarrow> block_header list \<Rightarrow> (string \<times> bucket list) list \<Rightarrow> u64
    \<Rightarrow> (chart_data, report_error) rresult" where
  "charts_of all_txs traces blocks latency bucket =
     rbind (rmap_err RepHeatmap (heatmap_new traces)) (\<lambda>heatmap.
     rbind (time_to_inclusion_data (time_to_inclusion_new all_txs bucket)) (\<lambda>tti.
     rbind (tx_gas_used_data (map tr_gas_used traces) 4000) (\<lambda>gas_used.
     Ok \<lparr>ch_heatmap = heatmap_echart heatmap,
         ch_gas_per_block = gas_per_block_echart (gas_per_block_new blocks),
         ch_time_to_inclusion = tti, ch_tx_gas_used = gas_used,
         ch_pending_txs = pending_txs_echart (pending_txs_new all_txs),
         ch_latency_charts = latency_charts_of latency,
         ch_flashblock_time_to_inclusion = map_option flashblock_tti_data (flashblock_tti_new all_txs),
         ch_flashblock_index = map_option flashblock_index_data (flashblock_index_new all_txs)\<rparr>)))"

definition block_and_trace_data ::
  "report_db \<Rightarrow> report_io \<Rightarrow> report_node \<Rightarrow> report_params \<Rightarrow> u64 \<Rightarrow> u64 \<Rightarrow> run_tx list
    \<Rightarrow> (tx_trace_receipt list \<times> block_header list, report_error) rresult" where
  "block_and_trace_data rdb io nd params start_run_id end_run_id all_txs =
     (case io_cached io of
        Some cached \<Rightarrow> rmap_err RepIo cached
      | None \<Rightarrow>
          rbind (if all_txs = [] then estimate_block_data nd (rb_get_run rdb) start_run_id end_run_id
                 else get_block_data nd all_txs) (\<lambda>blocks.
          rbind (if rp_skip_tx_traces params then Ok [] else get_block_traces nd blocks) (\<lambda>traces.
          Ok (traces, blocks))))"

definition report ::
  "report_db \<Rightarrow> report_io \<Rightarrow> report_node \<Rightarrow> report_params \<Rightarrow> (report_metadata option, report_error) rresult" where
  "report rdb io nd params =
     rbind (rmap_err RepDb (rb_num_runs rdb)) (\<lambda>num_runs.
     rbind (rmap_err RepIo (io_make_dir io)) (\<lambda>_.
     if num_runs = 0 then Ok None else
     rbind (resolve_end_run num_runs params) (\<lambda>end_run_id.
     rbind (rmap_err RepDb (rb_get_run rdb end_run_id)) (\<lambda>r.
     rbind (ok_or r (RunDoesNotExist end_run_id)) (\<lambda>end_run.
     let rpc_url = sr_rpc_url end_run; start_run_id = end_run_id - rp_preceding_runs params;
         ids = run_ids start_run_id end_run_id
     in rbind (collect_txs rdb io ids) (\<lambda>all_txs.
        rbind (collect_runs rdb rpc_url ids) (\<lambda>(params_list, run_data).
        if \<not> io_valid_url io rpc_url then Panic else
        rbind (block_and_trace_data rdb io nd params start_run_id end_run_id all_txs) (\<lambda>(traces, blocks).
        rbind (rmap_err RepIo (io_save_cache io traces blocks)) (\<lambda>_.
        rbind (canonical_latency_map rdb ids) (\<lambda>latency.
        rbind (metrics_of all_txs blocks latency params_list) (\<lambda>metrics.
        rbind (charts_of all_txs traces blocks latency (rp_time_to_inclusion_bucket params)) (\<lambda>charts.
        let meta = \<lparr>rm_scenario_name = join_names (map scenario_stem
                      (io_name_order io (remdups (map sr_scenario_name run_data)))),
                    rm_start_run_id = start_run_id, rm_end_run_id = end_run_id,
                    rm_start_block = (case blocks of [] \<Rightarrow> 0 | b # _ \<Rightarrow> bh_number b),
                    rm_end_block = (if blocks = [] then 0 else bh_number (last blocks)),
                    rm_rpc_url = rpc_url, rm_metrics = metrics, rm_chart_data = charts,
                    rm_campaign = report_campaign_context run_data\<rparr>
        in rbind (rmap_err RepIo (io_write_report io (rp_use_json params) meta)) (\<lambda>_. Ok (Some meta))))))))))))))"

section \<open>Lemmas\<close>

lemma run_ids_empty: "end_run_id < start_run_id \<Longrightarrow> run_ids start_run_id end_run_id = []"
  by (simp add: run_ids_def word_less_nat_alt)

lemma quantile_index_less: "0 < n \<Longrightarrow> quantile_index n q < n"
  by (simp add: quantile_index_def min_less_iff_disj)

lemma max_or_zero_ge: "x \<in> set xs \<Longrightarrow> x \<le> max_or_zero xs"
proof -
  have "y \<le> foldl max y xs \<and> (\<forall>x \<in> set xs. x \<le> foldl max y xs)" for y :: u64
  proof (induction xs arbitrary: y)
    case (Cons a xs)
    from Cons.IH [of "max y a"] show ?case by auto
  qed simp
  then show "x \<in> set xs \<Longrightarrow> x \<le> max_or_zero xs" by (simp add: max_or_zero_def)
qed

lemma ucast_mono_128: "a \<le> b \<Longrightarrow> (ucast a :: u128) \<le> ucast b" for a b :: u64
  by transfer (simp add: min_def)

lemma sorted_gas_nth:
  assumes "i < length blocks"
  shows "sort (map (\<lambda>b. ucast (bh_gas_used b) :: u128) blocks) ! i \<in> (\<lambda>b. ucast (bh_gas_used b)) ` set blocks
    \<and> sort (map (\<lambda>b. ucast (bh_gas_used b) :: u128) blocks) ! i \<le> ucast (max_or_zero (map bh_gas_used blocks))"
proof -
  let ?s = "sort (map (\<lambda>b. ucast (bh_gas_used b) :: u128) blocks)"
  have "?s ! i \<in> set ?s" using assms by (intro nth_mem) simp
  then obtain b where b: "b \<in> set blocks" "?s ! i = ucast (bh_gas_used b)" by auto
  then have "?s ! i \<le> ucast (max_or_zero (map bh_gas_used blocks))"
    by (simp add: ucast_mono_128 max_or_zero_ge)
  with b show ?thesis by auto
qed

section \<open>Properties\<close>

text \<open>
  Asking for more preceding runs than there are does not give the report of all runs:
  the first run id wraps below zero, no run is collected, and the report fails
  with the error that this huge run id does not exist.
\<close>

theorem preceding_runs_underflow:
  assumes "rb_num_runs rdb = Ok n" and "n \<noteq> 0" and "io_make_dir io = Ok ()"
    and "resolve_end_run n params = Ok end_run_id" and "rb_get_run rdb end_run_id = Ok (Some run)"
    and "end_run_id < rp_preceding_runs params" and "io_valid_url io (sr_rpc_url run)" and "io_cached io = None"
    and "rb_get_run rdb (end_run_id - rp_preceding_runs params) = Ok None"
  shows "report rdb io nd params = Err (RunDoesNotExist (end_run_id - rp_preceding_runs params))"
proof -
  let ?start = "end_run_id - rp_preceding_runs params"
  have "unat end_run_id < unat ?start"
    using assms(6) unsigned_less [where 'a = nat, of "rp_preceding_runs params"]
    by (simp add: unat_sub_if' word_less_nat_alt)
  then have "run_ids ?start end_run_id = []" by (intro run_ids_empty) (simp add: word_less_nat_alt)
  then show ?thesis
    using assms by (simp add: report_def Let_def collect_txs_def collect_runs_def block_and_trace_data_def
        estimate_block_data_def)
qed

definition demo_run :: spam_run where
  "demo_run = \<lparr>sr_id = 1, sr_timestamp = 5000, sr_tx_count = 1, sr_scenario_name = ''scenarios/erc20.toml'',
     sr_campaign_id = None, sr_campaign_name = None, sr_stage_name = None, sr_rpc_url = ''http://a'',
     sr_txs_per_duration = 1, sr_duration = Seconds 1, sr_timeout = 5\<rparr>"

definition demo_report_db :: report_db where
  "demo_report_db = \<lparr>rb_num_runs = Ok 1, rb_get_run = (\<lambda>i. Ok (if i = 1 then Some demo_run else None)),
     rb_get_run_txs = (\<lambda>i. Ok []), rb_get_latency_metrics = (\<lambda>i m. Ok []),
     rb_get_runs_by_campaign = (\<lambda>c. Ok [])\<rparr>"

definition demo_io :: report_io where
  "demo_io = \<lparr>io_make_dir = Ok (), io_save_csv = (\<lambda>i txs. Ok ()), io_cached = None,
     io_save_cache = (\<lambda>t b. Ok ()), io_valid_url = (\<lambda>u. True), io_name_order = (\<lambda>ns. ns),
     io_write_report = (\<lambda>j m. Ok ())\<rparr>"

theorem preceding_runs_underflow_witness:
  "report demo_report_db demo_io demo_report_node (with_preceding_runs report_params_default 3)
    = Err (RunDoesNotExist (- 2))"
  using preceding_runs_underflow [of demo_report_db 1 demo_io "with_preceding_runs report_params_default 3" 1 demo_run]
  by (simp add: demo_report_db_def demo_io_def with_preceding_runs_def report_params_default_def resolve_end_run_def)

text \<open>
  The gas quantiles of a report are gas values of its blocks and never exceed the peak gas:
  for every non-empty list of blocks the computed positions are in range.
\<close>

theorem gas_quantiles_bounded:
  assumes "blocks \<noteq> []"
  shows "\<forall>q \<in> {gq_p50 (gas_quantiles_of blocks), gq_p90 (gas_quantiles_of blocks),
      gq_p95 (gas_quantiles_of blocks), gq_p99 (gas_quantiles_of blocks)}.
    q \<in> (\<lambda>b. ucast (bh_gas_used b)) ` set blocks \<and> q \<le> ucast (max_or_zero (map bh_gas_used blocks))"
proof -
  have "quantile_index (length blocks) q < length blocks" for q
    using assms by (intro quantile_index_less) simp
  note at = sorted_gas_nth [OF this]
  have "sort (map (\<lambda>b. ucast (bh_gas_used b) :: u128) blocks) \<noteq> []"
    using assms by (metis length_0_conv length_map length_sort)
  then show ?thesis
    using at [of "5 / 10"] at [of "9 / 10"] at [of "95 / 100"] at [of "99 / 100"]
    by (simp add: gas_quantiles_of_def Let_def)
qed

theorem gas_quantiles_bounded_witness:
  "gq_p99 (gas_quantiles_of [demo_report_block]) \<le> 21000"
  using gas_quantiles_bounded [of "[demo_report_block]"] by (simp add: demo_report_block_def max_or_zero_def)

text \<open>
  The transactions of a report are accounted for: the failed and the successful ones
  add up to all transactions of the runs in the range.
\<close>

theorem metrics_account_for_txs:
  assumes "metrics_of all_txs blocks latency params_list = Ok metrics" and "length all_txs < 2 ^ 64"
  shows "unat (mt_value (sm_successful_txs metrics)) + unat (mt_value (sm_failed_txs metrics)) = length all_txs
    \<and> unat (mt_value (sm_total_txs metrics)) = length all_txs
    \<and> unat (mt_value (sm_failed_txs metrics)) = length (filter (\<lambda>tx. rt_error tx \<noteq> None) all_txs)"
proof -
  have le: "length (filter (\<lambda>tx. rt_error tx \<noteq> None) all_txs) \<le> length all_txs" by simp
  with assms(2) have "length (filter (\<lambda>tx. rt_error tx \<noteq> None) all_txs) < 2 ^ 64" by linarith
  then show ?thesis
    using assms le
    by (auto simp: metrics_of_def Let_def metric_new_def unat_of_nat split: if_splits)
qed

definition demo_failed_tx :: run_tx where
  "demo_failed_tx = demo_pending_tx\<lparr>rt_error := Some ''reverted''\<rparr>"

theorem metrics_account_for_txs_witness:
  "\<exists>metrics. metrics_of [demo_failed_tx, demo_landed_tx] [] [] [] = (Ok metrics :: (spam_run_metrics, unit) rresult) \<and>
     unat (mt_value (sm_successful_txs metrics)) = 1"
proof -
  obtain metrics where ok: "metrics_of [demo_failed_tx, demo_landed_tx] [] [] [] = (Ok metrics :: (spam_run_metrics, unit) rresult)"
    by (simp add: metrics_of_def Let_def)
  from metrics_account_for_txs [OF ok] ok show ?thesis
    by (auto simp: demo_failed_tx_def demo_landed_tx_def demo_pending_tx_def)
qed

lemma merge_bucket_sum:
  assumes "u \<noteq> NaN"
  shows "(\<Sum>b\<leftarrow>filter (\<lambda>b. upper_bound b = u) (merge_bucket bs b'). cumulative_count b)
    = (\<Sum>b\<leftarrow>filter (\<lambda>b. upper_bound b = u) bs. cumulative_count b)
      + (if upper_bound b' = u then cumulative_count b' else 0)"
  using assms by (induction bs) (auto simp: f64_eq_def algebra_simps)

lemma merge_bucket_bounds:
  "upper_bound b \<noteq> NaN \<Longrightarrow> distinct (map upper_bound bs) \<Longrightarrow>
     distinct (map upper_bound (merge_bucket bs b)) \<and>
     set (map upper_bound (merge_bucket bs b)) = insert (upper_bound b) (set (map upper_bound bs))"
  by (induction bs) (auto simp: f64_eq_def)

lemma merge_buckets_inv:
  assumes "\<forall>b \<in> set new. upper_bound b \<noteq> NaN" and "distinct (map upper_bound acc)"
  shows "distinct (map upper_bound (foldl merge_bucket acc new))"
    and "u \<noteq> NaN \<Longrightarrow> (\<Sum>b\<leftarrow>filter (\<lambda>b. upper_bound b = u) (foldl merge_bucket acc new). cumulative_count b)
      = (\<Sum>b\<leftarrow>filter (\<lambda>b. upper_bound b = u) (acc @ new). cumulative_count b)"
  using assms
proof (induction new arbitrary: acc)
  case (Cons b new)
  { case 1 with Cons show ?case using merge_bucket_bounds [of b acc] by simp }
  { case 2 with Cons show ?case using merge_bucket_bounds [of b acc] merge_bucket_sum [of u acc b]
      by (simp add: algebra_simps) }
qed simp_all

lemma merge_bounds_subset:
  "set (map upper_bound (foldl merge_bucket acc new)) \<subseteq> set (map upper_bound acc) \<union> upper_bound ` set new"
proof (induction new arbitrary: acc)
  case (Cons b new)
  have "set (map upper_bound (merge_bucket acc b)) \<subseteq> insert (upper_bound b) (set (map upper_bound acc))"
    by (induction acc) auto
  with Cons.IH [of "merge_bucket acc b"] show ?case by auto
qed simp

lemma filter_distinct_key:
  "b \<in> set xs \<Longrightarrow> distinct (map f xs) \<Longrightarrow> filter (\<lambda>c. f c = f b) xs = [b]"
proof (induction xs)
  case (Cons x xs)
  show ?case
  proof (cases "b = x")
    case True
    have "filter (\<lambda>c. f c = f x) xs = []" 
      using Cons.prems(2) by (auto simp: filter_empty_conv) (metis imageI)
    with True show ?thesis by simp
  next
    case False
    with Cons have "f x \<noteq> f b" by auto
    with Cons False show ?thesis by simp
  qed
qed simp

text \<open>
  The latency buckets of several runs are merged by their upper bound: no bound
  occurs twice in the result, and the count at a bound is the sum of the counts that
  the runs of the range have there.
\<close>

theorem merged_latency_sums:
  assumes "canonical_latency rdb ids rpc_method = Ok merged"
    and "\<forall>i \<in> set ids. rb_get_latency_metrics rdb i rpc_method = Ok (metrics i)"
    and "\<forall>i \<in> set ids. \<forall>b \<in> set (metrics i). upper_bound b \<noteq> NaN"
  shows "distinct (map upper_bound merged) \<and>
    (\<forall>b \<in> set merged. cumulative_count b
      = (\<Sum>c\<leftarrow>filter (\<lambda>c. upper_bound c = upper_bound b) (concat (map metrics ids)). cumulative_count c))"
proof -
  have fold: "merged = foldl merge_bucket [] (concat (map metrics ids))"
  proof -
    have "rfoldl (\<lambda>acc i. rmap (foldl merge_bucket acc) (rmap_err RepDb (rb_get_latency_metrics rdb i rpc_method)))
        acc ids = Ok (foldl merge_bucket acc (concat (map metrics ids)))" for acc
      using assms(2) by (induction ids arbitrary: acc) auto
    with assms(1) show ?thesis by (simp add: canonical_latency_def)
  qed
  let ?all = "concat (map metrics ids)"
  have ok: "\<forall>b \<in> set ?all. upper_bound b \<noteq> NaN" using assms(3) by auto
  note inv = merge_buckets_inv [OF ok, of "[]", folded fold, simplified]
  have "set (map upper_bound merged) \<subseteq> upper_bound ` set ?all"
    unfolding fold using merge_bounds_subset [of "[]" ?all] by simp
  have "cumulative_count b = (\<Sum>c\<leftarrow>filter (\<lambda>c. upper_bound c = upper_bound b) ?all. cumulative_count c)"
    if b: "b \<in> set merged" for b
  proof -
    have "upper_bound b \<noteq> NaN" using b \<open>set (map upper_bound merged) \<subseteq> _\<close> ok by auto
    moreover have "filter (\<lambda>c. upper_bound c = upper_bound b) merged = [b]"
      using b inv(1) by (rule filter_distinct_key)
    ultimately show ?thesis using inv(2) [of "upper_bound b"] by simp
  qed
  with inv(1) show ?thesis by blast
qed

theorem merged_latency_sums_witness:
  "\<exists>merged. canonical_latency
      (demo_report_db\<lparr>rb_get_latency_metrics := (\<lambda>i m. Ok [bucket_new (Fin 1) 3, bucket_new PInf 4])\<rparr>) [1, 2] ''eth_chainId''
    = Ok merged \<and> distinct (map upper_bound merged)"
proof -
  let ?db = "demo_report_db\<lparr>rb_get_latency_metrics := (\<lambda>i m. Ok [bucket_new (Fin 1) 3, bucket_new PInf 4])\<rparr>"
  obtain merged where ok: "canonical_latency ?db [1, 2] ''eth_chainId'' = Ok merged"
    by (simp add: canonical_latency_def)
  have "distinct (map upper_bound merged)"
    using merged_latency_sums [OF ok, of "\<lambda>_. [bucket_new (Fin 1) 3, bucket_new PInf 4]"]
    by (simp add: bucket_new_def)
  with ok show ?thesis by blast
qed

end
