(* ===== verification/Report_Campaign.thy ===== *)
theory Report_Campaign
  imports Report_Command
begin

text \<open>
  The summary of a campaign, \<open>report_campaign\<close> of \<open>crates/report/src/command.rs\<close>:
  every run of the campaign gets its own report and adds to the totals of the
  campaign and of its (stage, scenario) pair.  The files of the summary are not
  modelled; the time format of \<open>chrono\<close> is a parameter.
\<close>

section \<open>Accumulators\<close>

record accumulator =
  ac_total_tx :: u64
  ac_total_errors :: u64
  ac_start_ms :: "u128 option"
  ac_end_ms :: "u128 option"

definition accumulator_default :: accumulator where
  "accumulator_default = \<lparr>ac_total_tx = 0, ac_total_errors = 0, ac_start_ms = None, ac_end_ms = None\<rparr>"

definition combine_opt :: "('a \<Rightarrow> 'a \<Rightarrow> 'a) \<Rightarrow> 'a option \<Rightarrow> 'a option \<Rightarrow> 'a option" where
  "combine_opt f current v =
     (case v of None \<Rightarrow> current | Some x \<Rightarrow> Some (case current of None \<Rightarrow> x | Some c \<Rightarrow> f c x))"

definition add_run :: "accumulator \<Rightarrow> u64 \<Rightarrow> u64 \<Rightarrow> u128 option \<Rightarrow> u128 option \<Rightarrow> accumulator" where
  "add_run acc tx errors start_ms end_ms =
     \<lparr>ac_total_tx = saturating_add (ac_total_tx acc) tx,
      ac_total_errors = saturating_add (ac_total_errors acc) errors,
      ac_start_ms = combine_opt min (ac_start_ms acc) start_ms,
      ac_end_ms = combine_opt max (ac_end_ms acc) end_ms\<rparr>"

definition accumulated_secs :: "accumulator \<Rightarrow> u64" where
  "accumulated_secs acc =
     (case (ac_start_ms acc, ac_end_ms acc) of
        (Some s, Some e) \<Rightarrow> if s < e then ucast ((e - s) div 1000) else 0
      | _ \<Rightarrow> 0)"

definition round_2 :: "f64 \<Rightarrow> f64" where
  "round_2 raw = f64_div (f64_round (f64_mul raw (Fin 100))) (Fin 100)"

definition ratio_or_zero :: "u64 \<Rightarrow> u64 \<Rightarrow> f64" where
  "ratio_or_zero n d = (if 0 < d then round_2 (f64_div (f64_of_u64 n) (f64_of_u64 d)) else Fin 0)"

record campaign_overall =
  co_total_tx_count :: u64
  co_total_error_count :: u64
  co_error_rate :: f64
  co_campaign_start_time :: "string option"
  co_campaign_end_time :: "string option"
  co_campaign_duration_secs :: u64
  co_avg_tps :: f64

definition into_overall :: "(u128 \<Rightarrow> string) \<Rightarrow> accumulator \<Rightarrow> campaign_overall" where
  "into_overall rfc3339 acc =
     (let duration_secs = accumulated_secs acc
      in \<lparr>co_total_tx_count = ac_total_tx acc, co_total_error_count = ac_total_errors acc,
          co_error_rate = ratio_or_zero (ac_total_errors acc) (ac_total_tx acc),
          co_campaign_start_time = map_option rfc3339 (ac_start_ms acc),
          co_campaign_end_time = map_option rfc3339 (ac_end_ms acc),
          co_campaign_duration_secs = duration_secs,
          co_avg_tps = ratio_or_zero (ac_total_tx acc) duration_secs\<rparr>)"

record stage_scenario_summary =
  ss_stage_name :: string
  ss_scenario_name :: string
  ss_total_tx_count :: u64
  ss_total_error_count :: u64
  ss_error_rate :: f64
  ss_duration_secs :: u64
  ss_avg_tps :: f64

definition into_summary :: "accumulator \<Rightarrow> string \<Rightarrow> string \<Rightarrow> stage_scenario_summary" where
  "into_summary acc stage scenario_key =
     (let duration_secs = accumulated_secs acc
      in \<lparr>ss_stage_name = stage, ss_scenario_name = scenario_key,
          ss_total_tx_count = ac_total_tx acc, ss_total_error_count = ac_total_errors acc,
          ss_error_rate = ratio_or_zero (ac_total_errors acc) (ac_total_tx acc),
          ss_duration_secs = duration_secs, ss_avg_tps = ratio_or_zero (ac_total_tx acc) duration_secs\<rparr>)"

section \<open>The counts and times of a run\<close>

definition tx_and_error_counts :: "run_tx list \<Rightarrow> u64 \<Rightarrow> u64 \<times> u64" where
  "tx_and_error_counts run_txs fallback_tx_count =
     (if run_txs = [] then (fallback_tx_count, 0)
      else (word_of_nat (length run_txs),
            word_of_nat (length (filter (\<lambda>tx. rt_error tx \<noteq> None) run_txs))))"

definition saturating_mul :: "u64 \<Rightarrow> u64 \<Rightarrow> u64" where
  "saturating_mul a b = (if unat a * unat b < 2 ^ 64 then a * b else - 1)"

definition tx_end_ms :: "run_tx \<Rightarrow> u64" where
  "tx_end_ms t = (case rt_end_timestamp_ms t of Some e \<Rightarrow> e | None \<Rightarrow> rt_start_timestamp_ms t)"

definition run_time_bounds :: "spam_run \<Rightarrow> run_tx list \<Rightarrow> u128 option \<times> u128 option" where
  "run_time_bounds run run_txs =
     (case run_txs of
        t # ts \<Rightarrow>
          (Some (foldl min (ucast (rt_start_timestamp_ms t)) (map (\<lambda>t. ucast (rt_start_timestamp_ms t)) ts)),
           Some (foldl max (ucast (tx_end_ms t)) (map (\<lambda>t. ucast (tx_end_ms t)) ts)))
      | [] \<Rightarrow>
          (Some (ucast (sr_timestamp run)),
           Some (saturating_add (ucast (sr_timestamp run))
             (ucast (saturating_mul (duration_value (sr_duration run)) 1000)))))"

record run_figures =
  rf_tx_count :: u64
  rf_error_count :: u64
  rf_start_ms :: "u128 option"
  rf_end_ms :: "u128 option"
  rf_logs_complete :: bool

definition figures_of_run :: "spam_run \<Rightarrow> run_tx list \<Rightarrow> run_figures" where
  "figures_of_run run run_txs =
     (case tx_and_error_counts run_txs (sr_tx_count run) of (txs_from_logs, errors_from_logs) \<Rightarrow>
      let logs_complete = (run_txs \<noteq> [] \<and> sr_tx_count run \<le> txs_from_logs)
      in case run_time_bounds run (if logs_complete then run_txs else []) of (start_ms, end_ms) \<Rightarrow>
         \<lparr>rf_tx_count = (if logs_complete then txs_from_logs else sr_tx_count run),
          rf_error_count = (if logs_complete then errors_from_logs else 0),
          rf_start_ms = start_ms, rf_end_ms = end_ms, rf_logs_complete = logs_complete\<rparr>)"

section \<open>The summary\<close>

record campaign_run_summary =
  rs_run_id :: u64
  rs_scenario_name :: string
  rs_stage_name :: "string option"
  rs_tx_count :: u64
  rs_duration :: string
  rs_report_path :: string

record campaign_state =
  cs_summaries :: "campaign_run_summary list"
  cs_totals :: "(string \<times> (string \<times> u64) list) list"
  cs_overall :: accumulator
  cs_stages :: "((string \<times> string) \<times> accumulator) list"
  cs_logs_incomplete :: bool

definition campaign_init :: campaign_state where
  "campaign_init = \<lparr>cs_summaries = [], cs_totals = [], cs_overall = accumulator_default, cs_stages = [],
     cs_logs_incomplete = False\<rparr>"

definition bt_get_or :: "('k \<times> 'v) list \<Rightarrow> 'k \<Rightarrow> 'v \<Rightarrow> 'v" where
  "bt_get_or m k d = (case map_of m k of Some v \<Rightarrow> v | None \<Rightarrow> d)"

definition stage_key :: "spam_run \<Rightarrow> string" where
  "stage_key run = (case sr_stage_name run of Some s \<Rightarrow> s | None \<Rightarrow> ''unspecified-stage'')"

definition add_total ::
  "(string \<times> (string \<times> u64) list) list \<Rightarrow> string \<Rightarrow> string \<Rightarrow> u64 \<Rightarrow> (string \<times> (string \<times> u64) list) list" where
  "add_total totals stage scenario_key n =
     (let m = bt_get_or totals stage []
      in bt_insert stage (bt_insert scenario_key
           (case map_of m scenario_key of Some count \<Rightarrow> count + n | None \<Rightarrow> n) m) totals)"

definition summarize_run :: "campaign_state \<Rightarrow> spam_run \<Rightarrow> run_tx list \<Rightarrow> campaign_state" where
  "summarize_run st run run_txs =
     (let f = figures_of_run run run_txs; key = (stage_key run, sr_scenario_name run);
          i = show_nat (unat (sr_id run))
      in \<lparr>cs_summaries = cs_summaries st @
            [\<lparr>rs_run_id = sr_id run, rs_scenario_name = sr_scenario_name run, rs_stage_name = sr_stage_name run,
              rs_tx_count = rf_tx_count f, rs_duration = fmt_duration (sr_duration run),
              rs_report_path = ''report-'' @ i @ ''-'' @ i @ ''.html''\<rparr>],
          cs_totals = add_total (cs_totals st) (fst key) (snd key) (rf_tx_count f),
          cs_overall = add_run (cs_overall st) (rf_tx_count f) (rf_error_count f) (rf_start_ms f) (rf_end_ms f),
          cs_stages = bt_insert key
            (add_run (bt_get_or (cs_stages st) key accumulator_default)
               (rf_tx_count f) (rf_error_count f) (rf_start_ms f) (rf_end_ms f)) (cs_stages st),
          cs_logs_incomplete = (cs_logs_incomplete st \<or> \<not> rf_logs_complete f)\<rparr>)"

definition campaign_run_params :: "report_params \<Rightarrow> spam_run \<Rightarrow> report_params" where
  "campaign_run_params params run =
     with_last_run_id
       (with_time_to_inclusion_bucket
         (with_skip_tx_traces report_params_default (rp_skip_tx_traces params))
         (rp_time_to_inclusion_bucket params)) (sr_id run)"

definition campaign_step ::
  "report_db \<Rightarrow> report_io \<Rightarrow> report_node \<Rightarrow> report_params \<Rightarrow> campaign_state \<Rightarrow> spam_run
    \<Rightarrow> (campaign_state, report_error) rresult" where
  "campaign_step rdb io nd params st run =
     rbind (report rdb io nd (campaign_run_params params run)) (\<lambda>_.
     rbind (rmap_err RepDb (rb_get_run_txs rdb (sr_id run))) (\<lambda>run_txs.
     Ok (summarize_run st run run_txs)))"

record campaign_report_summary =
  cr_campaign_id :: string
  cr_campaign_name :: "string option"
  cr_runs :: "campaign_run_summary list"
  cr_totals_by_stage :: "(string \<times> (string \<times> u64) list) list"
  cr_overall :: campaign_overall
  cr_stage_scenario :: "stage_scenario_summary list"
  cr_logs_incomplete :: bool

definition report_campaign ::
  "(u128 \<Rightarrow> string) \<Rightarrow> report_db \<Rightarrow> report_io \<Rightarrow> report_node \<Rightarrow> string \<Rightarrow> report_params
    \<Rightarrow> (campaign_report_summary, report_error) rresult" where
  "report_campaign rfc3339 rdb io nd campaign_id params =
     rbind (rmap_err RepDb (rb_get_runs_by_campaign rdb campaign_id)) (\<lambda>runs.
     if runs = [] then Err (CampaignNotFound campaign_id) else
     rbind (rmap_err RepIo (io_make_dir io)) (\<lambda>_.
     rbind (rfoldl (campaign_step rdb io nd params) campaign_init runs) (\<lambda>st.
     Ok \<lparr>cr_campaign_id = campaign_id, cr_campaign_name = sr_campaign_name (hd runs),
         cr_runs = cs_summaries st, cr_totals_by_stage = cs_totals st,
         cr_overall = into_overall rfc3339 (cs_overall st),
         cr_stage_scenario = map (\<lambda>((stage, scenario_key), acc). into_summary acc stage scenario_key) (cs_stages st),
         cr_logs_incomplete = cs_logs_incomplete st\<rparr>)))"

section \<open>Lemmas: totals\<close>

lemma bt_insert_sum:
  fixes g :: "'v \<Rightarrow> nat"
  assumes "bt_wf m"
  shows "(\<Sum>(_, v)\<leftarrow>bt_insert k w m. g v) + (case map_of m k of Some v \<Rightarrow> g v | None \<Rightarrow> 0)
    = (\<Sum>(_, v)\<leftarrow>m. g v) + g w"
  using assms
proof (induction k w m rule: bt_insert.induct)
  case (2 k v k' v' m)
  have wf: "bt_wf m" using 2(2) by (simp add: bt_wf_def)
  have "map_of m k = None" if "k \<le> k'"
    using 2(2) that by (force simp: bt_wf_def map_of_eq_None_iff)
  then show ?case using 2(1) wf by (auto split: option.splits)
qed simp

lemma bt_get_le_sum: "map_of m k = Some v \<Longrightarrow> g v \<le> (\<Sum>(_, v)\<leftarrow>m. g v)" for g :: "'v \<Rightarrow> nat"
  by (induction m) (auto split: if_splits)

definition runs_tx_total :: "campaign_run_summary list \<Rightarrow> nat" where
  "runs_tx_total rs = (\<Sum>r\<leftarrow>rs. unat (rs_tx_count r))"

definition stages_tx_total :: "((string \<times> string) \<times> accumulator) list \<Rightarrow> nat" where
  "stages_tx_total m = (\<Sum>(_, acc)\<leftarrow>m. unat (ac_total_tx acc))"

definition totals_agree :: "campaign_state \<Rightarrow> bool" where
  "totals_agree st \<longleftrightarrow> bt_wf (cs_stages st) \<and>
     (runs_tx_total (cs_summaries st) < 2 ^ 64 \<longrightarrow>
        unat (ac_total_tx (cs_overall st)) = runs_tx_total (cs_summaries st) \<and>
        stages_tx_total (cs_stages st) = runs_tx_total (cs_summaries st))"

lemma add_run_total:
  "unat (ac_total_tx acc) + unat n < 2 ^ 64 \<Longrightarrow>
     unat (ac_total_tx (add_run acc n errs s e)) = unat (ac_total_tx acc) + unat n"
  by (simp add: add_run_def unat_saturating_add)

lemma totals_agree_step:
  assumes "totals_agree st"
  shows "totals_agree (summarize_run st run run_txs)"
proof -
  let ?f = "figures_of_run run run_txs" and ?key = "(stage_key run, sr_scenario_name run)"
  let ?n = "rf_tx_count ?f" and ?old = "bt_get_or (cs_stages st) ?key accumulator_default"
  let ?total = "runs_tx_total (cs_summaries st)"
  let ?acc = "add_run ?old ?n (rf_error_count ?f) (rf_start_ms ?f) (rf_end_ms ?f)"
  have wf: "bt_wf (cs_stages st)" using assms by (simp add: totals_agree_def)
  have new: "runs_tx_total (cs_summaries (summarize_run st run run_txs)) = ?total + unat ?n"
    by (simp add: summarize_run_def Let_def runs_tx_total_def)
  have "unat (ac_total_tx (cs_overall (summarize_run st run run_txs))) = ?total + unat ?n
      \<and> stages_tx_total (cs_stages (summarize_run st run run_txs)) = ?total + unat ?n"
    if small: "?total + unat ?n < 2 ^ 64"
  proof
    from assms small have eqs: "unat (ac_total_tx (cs_overall st)) = ?total" "stages_tx_total (cs_stages st) = ?total"
      by (simp_all add: totals_agree_def)
    from small eqs(1) show "unat (ac_total_tx (cs_overall (summarize_run st run run_txs))) = ?total + unat ?n"
      by (simp add: summarize_run_def Let_def add_run_total)
    have old: "unat (ac_total_tx ?old) = (case map_of (cs_stages st) ?key of Some v \<Rightarrow> unat (ac_total_tx v) | None \<Rightarrow> 0)"
      by (simp add: bt_get_or_def accumulator_default_def split: option.splits)
    also have "\<dots> \<le> ?total"
      using bt_get_le_sum [of "cs_stages st" ?key _ "\<lambda>acc. unat (ac_total_tx acc)"] eqs(2)
      by (auto simp: stages_tx_total_def split: option.splits)
    finally have "unat (ac_total_tx ?acc) = unat (ac_total_tx ?old) + unat ?n" using small by (simp add: add_run_total)
    with bt_insert_sum [OF wf, of "\<lambda>acc. unat (ac_total_tx acc)" ?key ?acc] old eqs(2)
    show "stages_tx_total (cs_stages (summarize_run st run run_txs)) = ?total + unat ?n"
      by (simp add: summarize_run_def Let_def stages_tx_total_def)
  qed
  moreover have "bt_wf (cs_stages (summarize_run st run run_txs))"
    using wf by (simp add: summarize_run_def Let_def)
  ultimately show ?thesis by (simp add: totals_agree_def new)
qed

subsection \<open>The totals of a (stage, scenario) pair\<close>

text \<open>
  The runs of a pair, their transactions, and the nested total stored for the pair.
\<close>

definition summary_stage :: "campaign_run_summary \<Rightarrow> string" where
  "summary_stage s = (case rs_stage_name s of Some x \<Rightarrow> x | None \<Rightarrow> ''unspecified-stage'')"

definition pair_runs :: "campaign_run_summary list \<Rightarrow> string \<Rightarrow> string \<Rightarrow> campaign_run_summary list" where
  "pair_runs rs stage scenario_key = filter (\<lambda>s. summary_stage s = stage \<and> rs_scenario_name s = scenario_key) rs"

definition nested_total :: "(string \<times> (string \<times> u64) list) list \<Rightarrow> string \<Rightarrow> string \<Rightarrow> u64 option" where
  "nested_total totals stage scenario_key =
     (case map_of totals stage of None \<Rightarrow> None | Some m \<Rightarrow> map_of m scenario_key)"

text \<open>A stored total fits a list of runs: none when there is no run, their sum otherwise.\<close>

definition total_fits :: "u64 option \<Rightarrow> campaign_run_summary list \<Rightarrow> bool" where
  "total_fits t rs = (case t of None \<Rightarrow> rs = [] | Some n \<Rightarrow> rs \<noteq> [] \<and> unat n = runs_tx_total rs)"

definition pairs_agree :: "campaign_state \<Rightarrow> bool" where
  "pairs_agree st \<longleftrightarrow> runs_tx_total (cs_summaries st) < 2 ^ 64 \<longrightarrow>
     (\<forall>stage scenario_key.
        total_fits (nested_total (cs_totals st) stage scenario_key) (pair_runs (cs_summaries st) stage scenario_key) \<and>
        total_fits (map_option ac_total_tx (map_of (cs_stages st) (stage, scenario_key)))
          (pair_runs (cs_summaries st) stage scenario_key))"

lemma pair_runs_le: "runs_tx_total (pair_runs rs stage scenario_key) \<le> runs_tx_total rs"
  by (induction rs) (auto simp: pair_runs_def runs_tx_total_def)

lemma total_fits_add:
  assumes "total_fits t rs" and "runs_tx_total rs + unat (rs_tx_count s) < 2 ^ 64"
  shows "total_fits (Some (case t of Some c \<Rightarrow> c + rs_tx_count s | None \<Rightarrow> rs_tx_count s)) (rs @ [s])"
  using assms unat_add_lem [of "the t" "rs_tx_count s"]
  by (auto simp: total_fits_def runs_tx_total_def split: option.splits)

text \<open>The nested totals over all pairs.\<close>

definition nested_sum :: "(string \<times> (string \<times> u64) list) list \<Rightarrow> nat" where
  "nested_sum totals = (\<Sum>(_, m)\<leftarrow>totals. \<Sum>(_, n)\<leftarrow>m. unat n)"

definition nested_agree :: "campaign_state \<Rightarrow> bool" where
  "nested_agree st \<longleftrightarrow> bt_wf (cs_totals st) \<and> (\<forall>(_, m) \<in> set (cs_totals st). bt_wf m) \<and>
     (runs_tx_total (cs_summaries st) < 2 ^ 64 \<longrightarrow> nested_sum (cs_totals st) = runs_tx_total (cs_summaries st))"

lemma add_total_wf:
  assumes "bt_wf totals" and "\<forall>(_, m) \<in> set totals. bt_wf m"
  shows "bt_wf (add_total totals stage scenario_key n) \<and> (\<forall>(_, m) \<in> set (add_total totals stage scenario_key n). bt_wf m)"
proof -
  have "bt_wf (bt_get_or totals stage [])"
    using assms(2) by (auto simp: bt_get_or_def split: option.splits dest: map_of_SomeD)
  moreover have "set (bt_insert k v m) \<subseteq> insert (k, v) (set m)" for k :: string and v :: "(string \<times> u64) list" and m
    by (induction k v m rule: bt_insert.induct) auto
  ultimately show ?thesis using assms unfolding add_total_def Let_def by (fastforce intro!: bt_wf_insert)
qed

lemma nested_sum_add:
  assumes wf: "bt_wf totals" "\<forall>(_, m) \<in> set totals. bt_wf m" and small: "nested_sum totals + unat n < 2 ^ 64"
  shows "nested_sum (add_total totals stage scenario_key n) = nested_sum totals + unat n"
proof -
  let ?g = "\<lambda>m. \<Sum>(_, n)\<leftarrow>m. unat (n :: u64)" and ?m = "bt_get_or totals stage []"
  let ?v = "case map_of ?m scenario_key of Some count \<Rightarrow> count + n | None \<Rightarrow> n"
  have m: "bt_wf ?m" using wf(2) by (auto simp: bt_get_or_def split: option.splits dest: map_of_SomeD)
  have le: "?g ?m \<le> nested_sum totals"
    using bt_get_le_sum [of totals stage _ ?g] by (auto simp: bt_get_or_def nested_sum_def split: option.splits)
  have "unat ?v = (case map_of ?m scenario_key of Some count \<Rightarrow> unat count | None \<Rightarrow> 0) + unat n"
  proof (cases "map_of ?m scenario_key")
    case (Some c)
    have "unat c \<le> ?g ?m" using bt_get_le_sum [OF Some, of unat] by simp
    with le small have "unat c + unat n < 2 ^ 64" by linarith
    then show ?thesis using Some unat_add_lem [of c n] by simp
  qed simp
  with bt_insert_sum [OF m, of unat scenario_key ?v]
  have "?g (bt_insert scenario_key ?v ?m) = ?g ?m + unat n" by linarith
  moreover have "(case map_of totals stage of Some v \<Rightarrow> ?g v | None \<Rightarrow> 0) = ?g ?m"
    by (simp add: bt_get_or_def split: option.splits)
  ultimately show ?thesis
    using bt_insert_sum [OF wf(1), of ?g stage "bt_insert scenario_key ?v ?m"]
    by (simp add: add_total_def Let_def nested_sum_def)
qed

lemma nested_agree_step:
  assumes "nested_agree st"
  shows "nested_agree (summarize_run st run run_txs)"
proof -
  let ?n = "rf_tx_count (figures_of_run run run_txs)"
  have "runs_tx_total (cs_summaries (summarize_run st run run_txs)) = runs_tx_total (cs_summaries st) + unat ?n"
    "cs_totals (summarize_run st run run_txs) = add_total (cs_totals st) (stage_key run) (sr_scenario_name run) ?n"
    by (simp_all add: summarize_run_def Let_def runs_tx_total_def)
  with assms add_total_wf [of "cs_totals st" "stage_key run" "sr_scenario_name run" ?n]
    nested_sum_add [of "cs_totals st" ?n "stage_key run" "sr_scenario_name run"]
  show ?thesis by (simp add: nested_agree_def)
qed

lemma nested_total_add:
  assumes wf: "bt_wf totals" "\<forall>(_, m) \<in> set totals. bt_wf m"
  shows "nested_total (add_total totals stage scenario_key n) stage' scenario_key' =
     (if stage' = stage \<and> scenario_key' = scenario_key
      then Some (case nested_total totals stage scenario_key of Some c \<Rightarrow> c + n | None \<Rightarrow> n)
      else nested_total totals stage' scenario_key')"
proof -
  have "bt_wf (bt_get_or totals stage [])"
    using wf(2) by (auto simp: bt_get_or_def split: option.splits dest: map_of_SomeD)
  then show ?thesis
    using wf(1) by (auto simp: nested_total_def add_total_def Let_def bt_get_or_def split: option.splits)
qed

lemma pairs_agree_step:
  assumes "pairs_agree st" and wf: "nested_agree st" "totals_agree st"
  shows "pairs_agree (summarize_run st run run_txs)"
proof -
  let ?st = "summarize_run st run run_txs" and ?n = "rf_tx_count (figures_of_run run run_txs)"
  let ?key = "(stage_key run, sr_scenario_name run)"
  obtain s where new: "cs_summaries ?st = cs_summaries st @ [s]"
    and s: "rs_tx_count s = ?n" "summary_stage s = stage_key run" "rs_scenario_name s = sr_scenario_name run"
    by (simp add: summarize_run_def Let_def summary_stage_def stage_key_def)
  obtain e x y where upd: "cs_totals ?st = add_total (cs_totals st) (stage_key run) (sr_scenario_name run) ?n"
      "cs_stages ?st = bt_insert ?key (add_run (bt_get_or (cs_stages st) ?key accumulator_default) ?n e x y) (cs_stages st)"
    by (simp add: summarize_run_def Let_def)
  have "total_fits (nested_total (cs_totals ?st) a b) (pair_runs (cs_summaries ?st) a b) \<and>
      total_fits (map_option ac_total_tx (map_of (cs_stages ?st) (a, b))) (pair_runs (cs_summaries ?st) a b)"
    if small: "runs_tx_total (cs_summaries ?st) < 2 ^ 64" for a b
  proof -
    let ?rs = "pair_runs (cs_summaries st) a b"
    have runs: "pair_runs (cs_summaries ?st) a b = (if (a, b) = ?key then ?rs @ [s] else ?rs)"
      using s by (auto simp: new pair_runs_def)
    have fits: "runs_tx_total ?rs + unat ?n < 2 ^ 64"
      using small pair_runs_le [of "cs_summaries st" a b] s(1) by (simp add: new runs_tx_total_def)
    have old: "total_fits (nested_total (cs_totals st) a b) ?rs"
      "total_fits (map_option ac_total_tx (map_of (cs_stages st) (a, b))) ?rs"
      using assms(1) small by (simp_all add: pairs_agree_def new runs_tx_total_def)
    have "total_fits (nested_total (cs_totals ?st) a b) (pair_runs (cs_summaries ?st) a b)"
      using old(1) total_fits_add [OF old(1), of s, unfolded s(1)] fits wf(1)
      by (auto simp: runs upd(1) nested_total_add nested_agree_def)
    moreover have "total_fits (Some (ac_total_tx (add_run (bt_get_or (cs_stages st) (a, b) accumulator_default) ?n e x y))) (?rs @ [s])"
      using old(2) fits add_run_total [of "bt_get_or (cs_stages st) (a, b) accumulator_default" ?n e x y] s(1)
      by (auto simp: total_fits_def bt_get_or_def accumulator_default_def runs_tx_total_def split: option.splits)
    ultimately show ?thesis using old(2) wf(2) by (auto simp: runs upd(2) totals_agree_def)
  qed
  then show ?thesis by (simp add: pairs_agree_def)
qed

lemma campaign_state_agrees:
  assumes "rfoldl (campaign_step rdb io nd params) campaign_init runs = Ok st"
  shows "totals_agree st \<and> pairs_agree st \<and> nested_agree st"
proof -
  have "totals_agree campaign_init \<and> pairs_agree campaign_init \<and> nested_agree campaign_init"
    by (simp add: totals_agree_def pairs_agree_def nested_agree_def campaign_init_def runs_tx_total_def stages_tx_total_def
        nested_sum_def accumulator_default_def total_fits_def nested_total_def pair_runs_def)
  then show ?thesis
    by (rule rfoldl_inv [where P = "\<lambda>st. totals_agree st \<and> pairs_agree st \<and> nested_agree st", OF assms])
      (auto simp: campaign_step_def totals_agree_step pairs_agree_step nested_agree_step)
qed

section \<open>Properties\<close>

text \<open>
  C30. The totals of a campaign report agree: as long as the transactions of all runs fit into
  64 bits, the campaign total is the sum over the runs, and both the summaries of the
  (stage, scenario) pairs and the nested totals by stage add up to it; the nested total of a
  pair is present exactly if the pair has a run, and is the sum over the runs of that pair, as is
  the count in its summary. A run with no stage counts for \<open>unspecified-stage\<close>.
\<close>

theorem campaign_totals_agree:
  assumes "report_campaign rfc3339 rdb io nd campaign_id params = Ok r"
    and "(\<Sum>s\<leftarrow>cr_runs r. unat (rs_tx_count s)) < 2 ^ 64"
  shows "unat (co_total_tx_count (cr_overall r)) = (\<Sum>s\<leftarrow>cr_runs r. unat (rs_tx_count s))
    \<and> (\<Sum>s\<leftarrow>cr_stage_scenario r. unat (ss_total_tx_count s)) = (\<Sum>s\<leftarrow>cr_runs r. unat (rs_tx_count s))
    \<and> (\<Sum>(_, m)\<leftarrow>cr_totals_by_stage r. \<Sum>(_, n)\<leftarrow>m. unat n) = (\<Sum>s\<leftarrow>cr_runs r. unat (rs_tx_count s))
    \<and> (\<forall>stage scenario_key.
         case nested_total (cr_totals_by_stage r) stage scenario_key of
           None \<Rightarrow> pair_runs (cr_runs r) stage scenario_key = []
         | Some n \<Rightarrow> pair_runs (cr_runs r) stage scenario_key \<noteq> []
             \<and> unat n = (\<Sum>s\<leftarrow>pair_runs (cr_runs r) stage scenario_key. unat (rs_tx_count s)))
    \<and> (\<forall>s \<in> set (cr_stage_scenario r). unat (ss_total_tx_count s)
         = (\<Sum>x\<leftarrow>pair_runs (cr_runs r) (ss_stage_name s) (ss_scenario_name s). unat (rs_tx_count x)))"
proof -
  from assms(1) obtain runs st where
    fold: "rfoldl (campaign_step rdb io nd params) campaign_init runs = Ok st"
    and r: "cr_runs r = cs_summaries st" "cr_overall r = into_overall rfc3339 (cs_overall st)"
      "cr_stage_scenario r = map (\<lambda>((stage, scenario_key), acc). into_summary acc stage scenario_key) (cs_stages st)"
      "cr_totals_by_stage r = cs_totals st"
    by (auto simp: report_campaign_def split: if_splits)
  note ag = campaign_state_agrees [OF fold]
  have small: "runs_tx_total (cs_summaries st) < 2 ^ 64" using assms(2) by (simp add: r(1) runs_tx_total_def)
  have sums: "(\<Sum>s\<leftarrow>cr_stage_scenario r. unat (ss_total_tx_count s)) = stages_tx_total (cs_stages st)"
    by (simp add: r(3) stages_tx_total_def into_summary_def Let_def case_prod_unfold comp_def)
  have pair: "total_fits (nested_total (cs_totals st) a b) (pair_runs (cs_summaries st) a b)" for a b
    using ag small by (simp add: pairs_agree_def)
  have each: "unat (ac_total_tx acc) = runs_tx_total (pair_runs (cs_summaries st) a b)" if "((a, b), acc) \<in> set (cs_stages st)" for a b acc
  proof -
    have "distinct (map fst (cs_stages st))" using ag by (auto simp: totals_agree_def bt_wf_def strict_sorted_iff)
    with that have "map_of (cs_stages st) (a, b) = Some acc" by simp
    moreover have "total_fits (map_option ac_total_tx (map_of (cs_stages st) (a, b))) (pair_runs (cs_summaries st) a b)"
      using ag small by (simp add: pairs_agree_def)
    ultimately show ?thesis by (simp add: total_fits_def)
  qed
  show ?thesis
  proof (intro conjI allI ballI)
    show "case nested_total (cr_totals_by_stage r) a b of None \<Rightarrow> pair_runs (cr_runs r) a b = []
        | Some n \<Rightarrow> pair_runs (cr_runs r) a b \<noteq> [] \<and> unat n = (\<Sum>s\<leftarrow>pair_runs (cr_runs r) a b. unat (rs_tx_count s))" for a b
      using pair [of a b] by (simp add: r(1,4) total_fits_def runs_tx_total_def split: option.splits)
  next
    fix s assume "s \<in> set (cr_stage_scenario r)"
    then show "unat (ss_total_tx_count s) = (\<Sum>x\<leftarrow>pair_runs (cr_runs r) (ss_stage_name s) (ss_scenario_name s). unat (rs_tx_count x))"
      using each by (auto simp: r(1,3) into_summary_def Let_def runs_tx_total_def)
  qed (use ag small sums in \<open>simp_all add: totals_agree_def nested_agree_def r(1,2,4) runs_tx_total_def into_overall_def Let_def nested_sum_def\<close>)
qed

definition demo_campaign_db :: report_db where
  "demo_campaign_db = demo_report_db\<lparr>rb_get_runs_by_campaign := (\<lambda>c. Ok [demo_run])\<rparr>"

definition demo_cached_io :: report_io where
  "demo_cached_io = demo_io\<lparr>io_cached := Some (Ok ([], []))\<rparr>"

lemma demo_latency_map: "\<exists>m. canonical_latency_map demo_campaign_db ids = Ok m"
proof -
  have "canonical_latency demo_campaign_db ids rpc_method = Ok []" for rpc_method
    by (induction ids) (simp_all add: canonical_latency_def demo_campaign_db_def demo_report_db_def)
  then have "\<exists>t. rfoldl (\<lambda>m rpc_method. rmap (\<lambda>bs. bt_insert rpc_method bs m)
      (canonical_latency demo_campaign_db ids rpc_method)) [] latency_methods = Ok t \<and> True"
    by (intro rfoldl_Ok) simp_all
  then show ?thesis by (simp add: canonical_latency_map_def)
qed

lemma demo_campaign_db_fields:
  "rb_num_runs demo_campaign_db = Ok 1" "rb_get_run demo_campaign_db 1 = Ok (Some demo_run)"
  "rb_get_run_txs demo_campaign_db i = Ok []" "rb_get_runs_by_campaign demo_campaign_db c = Ok [demo_run]"
  by (simp_all add: demo_campaign_db_def demo_report_db_def)

lemma demo_report: "\<exists>meta. report demo_campaign_db demo_cached_io nd (with_last_run_id report_params_default 1) = Ok meta"
proof -
  obtain m where m: "canonical_latency_map demo_campaign_db [1] = Ok m" using demo_latency_map by blast
  have ids: "run_ids 1 1 = [1]" by (simp add: run_ids_def)
  obtain c where c: "charts_of [] [] [] m 1000 = Ok c"
    by (simp add: charts_of_def heatmap_new_def time_to_inclusion_data_def time_to_inclusion_new_def
        List.map_filter_def tx_gas_used_data_def)
  obtain x where x: "metrics_of [] [] m [runtime_params_of demo_run] = (Ok x :: (spam_run_metrics, report_error) rresult)"
    by (simp add: metrics_of_def Let_def)
  show ?thesis
    by (simp add: report_def Let_def with_last_run_id_def report_params_default_def resolve_end_run_def ids
        demo_cached_io_def demo_io_def block_and_trace_data_def collect_txs_def collect_runs_def
        demo_campaign_db_fields m c x)
qed

theorem campaign_totals_agree_witness:
  "\<exists>r. report_campaign (\<lambda>_. []) demo_campaign_db demo_cached_io demo_report_node ''c1'' report_params_default = Ok r
     \<and> unat (co_total_tx_count (cr_overall r)) = 1
     \<and> (\<Sum>(_, m)\<leftarrow>cr_totals_by_stage r. \<Sum>(_, n)\<leftarrow>m. unat n) = 1"
proof -
  have "campaign_run_params report_params_default demo_run = with_last_run_id report_params_default 1"
    by (simp add: campaign_run_params_def with_time_to_inclusion_bucket_def with_skip_tx_traces_def
        with_last_run_id_def report_params_default_def demo_run_def)
  then obtain meta where "report demo_campaign_db demo_cached_io demo_report_node
      (campaign_run_params report_params_default demo_run) = Ok meta" using demo_report by metis
  then have st: "rfoldl (campaign_step demo_campaign_db demo_cached_io demo_report_node report_params_default) campaign_init
      [demo_run] = Ok (summarize_run campaign_init demo_run [])"
    by (simp add: campaign_step_def demo_campaign_db_fields)
  have "\<exists>r. report_campaign (\<lambda>_. []) demo_campaign_db demo_cached_io demo_report_node ''c1'' report_params_default = Ok r
      \<and> cr_runs r = cs_summaries (summarize_run campaign_init demo_run [])"
    unfolding report_campaign_def demo_campaign_db_fields using st
    by (simp add: demo_cached_io_def demo_io_def del: rfoldl.simps)
  then obtain r where r: "report_campaign (\<lambda>_. []) demo_campaign_db demo_cached_io demo_report_node ''c1''
      report_params_default = Ok r" "cr_runs r = cs_summaries (summarize_run campaign_init demo_run [])" by blast
  have "(\<Sum>s\<leftarrow>cr_runs r. unat (rs_tx_count s)) = 1"
    by (simp add: r(2) summarize_run_def Let_def campaign_init_def figures_of_run_def tx_and_error_counts_def
        demo_run_def split: prod.splits)
  with campaign_totals_agree [OF r(1)] r(1) show ?thesis by auto
qed

end
