(* ===== verification/Core_Util.thy ===== *)
theory Core_Util
  imports Report_Charts Agents
begin

text \<open>
  Helpers of \<open>crates/core/src/util.rs\<close>: the blob fee, the signers of the default keys, and the
  progress report that is logged during a run.
\<close>

definition get_blob_fee_maybe :: "(u128, 'e) rresult \<Rightarrow> tx_type \<Rightarrow> u128" where
  "get_blob_fee_maybe blob_base_fee ty =
     (if ty \<noteq> Eip4844 then 0 else case blob_base_fee of Ok fee \<Rightarrow> fee | _ \<Rightarrow> 0)"

definition default_signers :: "(string \<Rightarrow> signer option) \<Rightarrow> string list \<Rightarrow> (signer list, 'e) rresult" where
  "default_signers signer_of_key keys = rmapM (\<lambda>k. expect (signer_of_key k)) keys"

record spam_progress_report =
  pg_elapsed_s :: u64
  pg_txs_sent :: u64
  pg_txs_confirmed :: u64
  pg_txs_failed :: u64
  pg_current_tps :: f64

definition progress_report :: "(run_tx list, 'e) rresult \<Rightarrow> u64 \<Rightarrow> u64 option \<Rightarrow> spam_progress_report option" where
  "progress_report run_txs elapsed_s planned_tx_count =
     (case run_txs of
        Ok txs \<Rightarrow>
          (let txs_confirmed = word_of_nat (length (filter (\<lambda>tx. rt_block_number tx \<noteq> None \<and> rt_error tx = None) txs));
               txs_failed = word_of_nat (length (filter (\<lambda>tx. rt_error tx \<noteq> None) txs));
               txs_sent = max (txs_confirmed + txs_failed)
                            (min (case planned_tx_count of Some n \<Rightarrow> n | None \<Rightarrow> 0) (txs_confirmed + txs_failed));
               current_tps = (if 0 < elapsed_s then f64_div (f64_of_u64 txs_confirmed) (f64_of_u64 elapsed_s) else Fin 0)
           in Some \<lparr>pg_elapsed_s = elapsed_s, pg_txs_sent = txs_sent, pg_txs_confirmed = txs_confirmed,
                    pg_txs_failed = txs_failed,
                    pg_current_tps = f64_div (f64_round (f64_mul current_tps (Fin 10))) (Fin 10)\<rparr>)
      | _ \<Rightarrow> None)"

lemma max_min_absorb: "max a (min x a) = (a :: 'a :: linorder)"
  by (simp add: max.absorb1)

lemma no_pending_confirmed:
  "filter (\<lambda>tx. (\<exists>y. rt_block_number tx = Some y) \<and> rt_error tx = None)
     (filter (\<lambda>tx. rt_block_number tx = None \<and> rt_error tx = None) txs) = []"
  by (auto simp: filter_empty_conv)

lemma no_pending_failed:
  "filter (\<lambda>tx. \<exists>y. rt_error tx = Some y) (filter (\<lambda>tx. rt_block_number tx = None \<and> rt_error tx = None) txs) = []"
  by (auto simp: filter_empty_conv)

text \<open>
  The number of sent transactions in a progress report does not depend on the plan: it is the
  number of confirmed and failed ones, so transactions that are still pending are not counted.
\<close>

theorem progress_sent_ignores_plan:
  assumes "progress_report (Ok txs :: (_, 'e) rresult) elapsed_s planned = Some r"
  shows "pg_txs_sent r = pg_txs_confirmed r + pg_txs_failed r
    \<and> progress_report (Ok (txs @ filter (\<lambda>tx. rt_block_number tx = None \<and> rt_error tx = None) later) :: (_, 'e) rresult)
        elapsed_s planned' = Some r"
  using assms by (auto simp: progress_report_def Let_def max_min_absorb no_pending_confirmed no_pending_failed
    simp del: filter_filter)

theorem progress_sent_ignores_plan_witness:
  "\<exists>r. progress_report (Ok [] :: (run_tx list, unit) rresult) 5 (Some 100) = Some r \<and> pg_txs_sent r = 0"
proof -
  obtain r where r: "progress_report (Ok [] :: (run_tx list, unit) rresult) 5 (Some 100) = Some r"
    by (simp add: progress_report_def Let_def)
  from progress_sent_ignores_plan [OF r, of "[]"] r show ?thesis by (auto simp: progress_report_def Let_def)
qed

end
