(* ===== verification/Cli_Fund.thy ===== *)
theory Cli_Fund
  imports Cli_Spam Core_Util Rust_State
begin

text \<open>
  Funding of accounts by the command line (\<open>fund_account\<close>, \<open>fund_accounts\<close> and
  \<open>find_insufficient_balances\<close> of \<open>crates/cli/src/util/utils.rs\<close>).

  The node is the record \<open>fund_client\<close> over a chain \<open>'c\<close>.  The funding tasks run concurrently, at most
  \<open>FUNDING_CONCURRENCY_LIMIT\<close> at a time; \<open>order\<close> is the order in which they get their answers from the
  node, and the calls of one task to the node are one step.  Each task hands the hash of its transaction to a bounded channel
  that is only drained after all tasks were awaited; a task that finds the channel full waits there and keeps its
  permit, and a task that gets no permit never starts.
  \<open>None\<close> is the result of a call that does not return.  The calls to the node and to the engine themselves return.
\<close>

section \<open>The node\<close>

datatype watch_result = Confirmed | WatchFailed string | WatchTimedOut

text \<open>An RPC error is its text and whether it is a transport error.\<close>

type_synonym rpc_failure = "string \<times> bool"

record 'c fund_client =
  fc_balance :: "'c \<Rightarrow> address \<Rightarrow> (u256, rpc_failure) rresult"
  fc_tx_count :: "'c \<Rightarrow> address \<Rightarrow> (u64, rpc_failure) rresult"
  fc_gas_price :: "'c \<Rightarrow> (u128, rpc_failure) rresult"
  fc_chain_id :: "'c \<Rightarrow> (u64, rpc_failure) rresult"
  fc_blob_base_fee :: "'c \<Rightarrow> (u128, rpc_failure) rresult"
  fc_sign :: "tx_request \<Rightarrow> signer \<Rightarrow> (tx_hash, string) rresult"
  fc_send :: "'c \<Rightarrow> tx_request \<Rightarrow> 'c \<times> (tx_hash, rpc_failure) rresult"
  fc_watch :: "'c \<Rightarrow> tx_hash \<Rightarrow> 'c \<times> watch_result"
  fc_advance :: "'c \<Rightarrow> 'c \<times> (unit, string) rresult"

definition util_rpc :: "rpc_failure \<Rightarrow> cli_util_error" where
  "util_rpc e = UtilRpc (fst e)"

definition cli_rpc :: "rpc_failure \<Rightarrow> cli_error" where
  "cli_rpc e = CliRpc (fst e) (snd e)"

section \<open>One account\<close>

definition is_balance_sufficient ::
  "'c fund_client \<Rightarrow> 'c \<Rightarrow> address \<Rightarrow> u256 \<Rightarrow> (bool \<times> u256, cli_util_error) rresult" where
  "is_balance_sufficient cl ch a min_balance =
     rbind (rmap_err util_rpc (fc_balance cl ch a)) (\<lambda>balance. Ok (min_balance \<le> balance, balance))"

definition find_insufficient_balances ::
  "'c fund_client \<Rightarrow> 'c \<Rightarrow> address list \<Rightarrow> u256 \<Rightarrow> ((address \<times> u256) list, cli_util_error) rresult" where
  "find_insufficient_balances cl ch addresses min_balance =
     rfoldl (\<lambda>acc a. rbind (is_balance_sufficient cl ch a min_balance) (\<lambda>(balance_sufficient, balance).
       Ok (if balance_sufficient then acc else acc @ [(a, balance)]))) [] addresses"

text \<open>The transaction count is asked for even if a nonce is given.\<close>

definition fund_tx ::
  "signer \<Rightarrow> address \<Rightarrow> u256 \<Rightarrow> u64 \<Rightarrow> tx_type \<Rightarrow> u128 \<Rightarrow> u128 \<Rightarrow> u64 \<Rightarrow> tx_request" where
  "fund_tx sender recipient amount nonce ty gas_price blob_gas_price chain_id =
     complete_tx_request
       (tx_request_default\<lparr>tx_from := Some (sg_address sender), tx_to := Some (TxCall recipient),
          tx_value := Some amount, tx_nonce := Some nonce, tx_chain_id := Some chain_id\<rparr>)
       ty gas_price (gas_price div 10) 21000 chain_id blob_gas_price"

definition fund_account ::
  "'c fund_client \<Rightarrow> signer \<Rightarrow> address \<Rightarrow> u256 \<Rightarrow> u64 option \<Rightarrow> tx_type \<Rightarrow> ('c, tx_hash, cli_util_error) action" where
  "fund_account cl sender recipient amount nonce ty ch =
     (case rbind (rmap_err util_rpc (fc_gas_price cl ch)) (\<lambda>gas_price.
           let blob_gas_price = get_blob_fee_maybe (fc_blob_base_fee cl ch) ty
           in rbind (rmap_err util_rpc (fc_tx_count cl ch (sg_address sender))) (\<lambda>count.
              rbind (rmap_err util_rpc (fc_chain_id cl ch)) (\<lambda>chain_id.
              let tx = fund_tx sender recipient amount (case nonce of Some n \<Rightarrow> n | None \<Rightarrow> count) ty gas_price
                         blob_gas_price chain_id
              in rbind (rmap_err UtilBuildTxFailed (fc_sign cl tx sender)) (\<lambda>_. Ok tx)))) of
        Ok tx \<Rightarrow> (case fc_send cl ch tx of (ch', r) \<Rightarrow> (ch', rmap_err util_rpc r))
      | Err e \<Rightarrow> (ch, Err e)
      | Panic \<Rightarrow> (ch, Panic))"

section \<open>All accounts\<close>

definition mempool_errors :: "string list" where
  "mempool_errors = [''already known'', ''replacement transaction underpriced'', ''transaction already imported'']"

definition in_mempool :: "string \<Rightarrow> bool" where
  "in_mempool e = list_ex (\<lambda>m. str_contains (to_lowercase e) m) mempool_errors"

datatype fund_outcome = FundSent tx_hash | FundSkipped | FundFailed cli_error

fun fund_outcome_of :: "(tx_hash, cli_util_error) rresult \<Rightarrow> fund_outcome" where
  "fund_outcome_of (Ok h) = FundSent h"
| "fund_outcome_of (Err (UtilRpc e)) = (if in_mempool e then FundSkipped else FundFailed (CliUtil (UtilRpc e)))"
| "fund_outcome_of (Err e) = FundFailed (CliUtil e)"
| "fund_outcome_of Panic = FundFailed CliTaskJoin"

definition FUNDING_CHANNEL_CAPACITY :: nat where
  "FUNDING_CHANNEL_CAPACITY = 9000"

definition FUNDING_CONCURRENCY_LIMIT :: nat where
  "FUNDING_CONCURRENCY_LIMIT = 25"

text \<open>A task has not got its permit, waits for room in the channel with a permit, or has ended.\<close>

datatype task_state = TaskWaiting | TaskBlocked tx_hash | TaskDone fund_outcome

record 'c fund_state =
  fs_chain :: 'c
  fs_channel :: "tx_hash list"
  fs_tasks :: "task_state list"

fun is_blocked :: "task_state \<Rightarrow> bool" where
  "is_blocked (TaskBlocked h) = True"
| "is_blocked _ = False"

definition blocked_tasks :: "'c fund_state \<Rightarrow> nat" where
  "blocked_tasks st = length (filter is_blocked (fs_tasks st))"

definition end_task :: "nat \<Rightarrow> fund_outcome \<Rightarrow> 'c fund_state \<Rightarrow> 'c fund_state" where
  "end_task i out st =
     (case out of
        FundSent h \<Rightarrow>
          if length (fs_channel st) < FUNDING_CHANNEL_CAPACITY
          then st\<lparr>fs_channel := fs_channel st @ [h], fs_tasks := (fs_tasks st)[i := TaskDone out]\<rparr>
          else st\<lparr>fs_tasks := (fs_tasks st)[i := TaskBlocked h]\<rparr>
      | _ \<Rightarrow> st\<lparr>fs_tasks := (fs_tasks st)[i := TaskDone out]\<rparr>)"

definition run_task ::
  "'c fund_client \<Rightarrow> signer \<Rightarrow> u256 \<Rightarrow> tx_type \<Rightarrow> u64 \<Rightarrow> address list \<Rightarrow> nat \<Rightarrow> 'c fund_state \<Rightarrow> 'c fund_state" where
  "run_task cl sender amount ty nonce accounts i st =
     (if i < length (fs_tasks st) \<and> fs_tasks st ! i = TaskWaiting \<and> blocked_tasks st < FUNDING_CONCURRENCY_LIMIT
      then (case fund_account cl sender (accounts ! i) amount (Some (nonce + word_of_nat i)) ty (fs_chain st) of
              (ch, r) \<Rightarrow> end_task i (fund_outcome_of r) (st\<lparr>fs_chain := ch\<rparr>))
      else st)"

definition fund_tasks ::
  "'c fund_client \<Rightarrow> signer \<Rightarrow> u256 \<Rightarrow> tx_type \<Rightarrow> u64 \<Rightarrow> address list \<Rightarrow> nat list \<Rightarrow> 'c \<Rightarrow> 'c fund_state" where
  "fund_tasks cl sender amount ty nonce accounts order ch =
     fold (run_task cl sender amount ty nonce accounts) order
       \<lparr>fs_chain = ch, fs_channel = [], fs_tasks = replicate (length accounts) TaskWaiting\<rparr>"

text \<open>Awaiting the tasks in the order they were spawned; a task that has not ended is awaited for ever.\<close>

fun join_tasks :: "task_state list \<Rightarrow> (unit, cli_error) rresult option" where
  "join_tasks [] = Some (Ok ())"
| "join_tasks (TaskDone (FundFailed e) # ts) = Some (Err e)"
| "join_tasks (TaskDone _ # ts) = join_tasks ts"
| "join_tasks (_ # ts) = None"

fun watch_txs :: "'c fund_client \<Rightarrow> tx_hash list \<Rightarrow> ('c, unit, cli_error) action" where
  "watch_txs cl [] ch = (ch, Ok ())"
| "watch_txs cl (h # hs) ch =
     (case fc_watch cl ch h of
        (ch', Confirmed) \<Rightarrow> watch_txs cl hs ch'
      | (ch', WatchFailed e) \<Rightarrow> (ch', Err (CliSetup (FundingTxFailed h e)))
      | (ch', WatchTimedOut) \<Rightarrow> (ch', Err (CliSetup (FundingTxTimedOut h 24))))"

record engine_access =
  en_available :: bool
  en_call_fcu :: bool

definition watch_chunk :: "'c fund_client \<Rightarrow> engine_access \<Rightarrow> tx_hash list \<Rightarrow> ('c, unit, cli_error) action" where
  "watch_chunk cl en hs =
     sbind (if \<not> en_call_fcu en then sreturn ()
            else if en_available en then (\<lambda>ch. case fc_advance cl ch of (ch', r) \<Rightarrow> (ch', rmap_err CliAuthProvider r))
            else slift (Err (CliArgs (EngineProviderUninitialized ''required to advance chain'')))) (\<lambda>_.
     watch_txs cl hs)"

definition confirm_txs :: "'c fund_client \<Rightarrow> engine_access \<Rightarrow> tx_hash list \<Rightarrow> ('c, unit, cli_error) action" where
  "confirm_txs cl en hs = sbind (smapM (watch_chunk cl en) (chunks_ne 100 hs)) (\<lambda>_. sreturn ())"

definition insufficient_user_funds :: "address \<Rightarrow> u256 \<Rightarrow> u256 \<Rightarrow> u64 \<Rightarrow> cli_error" where
  "insufficient_user_funds sender have need chain_id = CliUtil (InsufficientUserFunds sender have need chain_id)"

text \<open>The checks before the first transaction: the accounts to fund, in order, and the next nonce.\<close>

definition check_funds ::
  "'c fund_client \<Rightarrow> 'c \<Rightarrow> signer \<Rightarrow> address list \<Rightarrow> u256 \<Rightarrow> (address list \<times> u64, cli_error) rresult" where
  "check_funds cl ch fund_with recipients min_balance =
     rbind (rmap_err CliUtil (find_insufficient_balances cl ch recipients min_balance)) (\<lambda>found.
     let insufficient = sort_key fst found
     in rbind (rmap_err cli_rpc (fc_tx_count cl ch (sg_address fund_with))) (\<lambda>admin_nonce.
        rbind (rmap_err cli_rpc (fc_gas_price cl ch)) (\<lambda>gas_price.
        let gas_cost_per_tx = 21000 * ucast (gas_price + gas_price div 10)
        in rbind (rmap_err cli_rpc (fc_chain_id cl ch)) (\<lambda>chain_id.
           let total_cost = word_of_nat (length insufficient) * (min_balance + gas_cost_per_tx)
           in rbind (rmap_err CliUtil (is_balance_sufficient cl ch (sg_address fund_with) total_cost)) (\<lambda>(enough, balance).
              if \<not> enough then Err (insufficient_user_funds (sg_address fund_with) balance total_cost chain_id)
              else rbind (rmap_err CliUtil (is_balance_sufficient cl ch (sg_address fund_with)
                            (min_balance * word_of_nat (length insufficient)))) (\<lambda>(enough', balance').
                   if \<not> enough' then Err (insufficient_user_funds (sg_address fund_with) balance' min_balance chain_id)
                   else Ok (map fst insufficient, admin_nonce)))))))"

definition fund_accounts_cli ::
  "'c fund_client \<Rightarrow> address list \<Rightarrow> signer \<Rightarrow> u256 \<Rightarrow> tx_type \<Rightarrow> engine_access \<Rightarrow> nat list \<Rightarrow> 'c
    \<Rightarrow> ('c \<times> (unit, cli_error) rresult) option" where
  "fund_accounts_cli cl recipients fund_with min_balance ty en order ch =
     (case check_funds cl ch fund_with recipients min_balance of
        Ok (accounts, admin_nonce) \<Rightarrow>
          (let st = fund_tasks cl fund_with min_balance ty admin_nonce accounts order ch
           in map_option (\<lambda>r. case r of
                 Ok _ \<Rightarrow> confirm_txs cl en (fs_channel st) (fs_chain st)
               | Err e \<Rightarrow> (fs_chain st, Err e)
               | Panic \<Rightarrow> (fs_chain st, Panic)) (join_tasks (fs_tasks st)))
      | Err e \<Rightarrow> Some (ch, Err e)
      | Panic \<Rightarrow> Some (ch, Panic))"

section \<open>Properties of a node\<close>

text \<open>
  What the code relies on of a node, for the funding account \<open>sender\<close>: the hash of a sent
  transaction identifies it, a confirmed transaction stays executed, the balance of another account
  does not fall while the funding runs, and an executed transfer has been paid out.
\<close>

definition funded :: "'c fund_client \<Rightarrow> 'c \<Rightarrow> u256 \<Rightarrow> address \<Rightarrow> bool" where
  "funded cl ch amount a \<longleftrightarrow> (\<exists>b \<ge> amount. fc_balance cl ch a = Ok b)"

definition node_grows :: "'c fund_client \<Rightarrow> ('c \<Rightarrow> tx_hash \<Rightarrow> bool) \<Rightarrow> address \<Rightarrow> 'c \<Rightarrow> 'c \<Rightarrow> bool" where
  "node_grows cl executed sender ch ch' \<longleftrightarrow>
     (\<forall>h. executed ch h \<longrightarrow> executed ch' h) \<and>
     (\<forall>amount a. a \<noteq> sender \<longrightarrow> funded cl ch amount a \<longrightarrow> funded cl ch' amount a)"

definition node_ok ::
  "'c fund_client \<Rightarrow> (tx_hash \<Rightarrow> tx_request) \<Rightarrow> ('c \<Rightarrow> tx_hash \<Rightarrow> bool) \<Rightarrow> address \<Rightarrow> bool" where
  "node_ok cl tx_of executed sender \<longleftrightarrow>
     (\<forall>ch tx ch' h. fc_send cl ch tx = (ch', Ok h) \<longrightarrow> tx_of h = tx) \<and>
     (\<forall>ch h ch'. fc_watch cl ch h = (ch', Confirmed) \<longrightarrow> executed ch' h) \<and>
     (\<forall>ch tx. node_grows cl executed sender ch (fst (fc_send cl ch tx))) \<and>
     (\<forall>ch h. node_grows cl executed sender ch (fst (fc_watch cl ch h))) \<and>
     (\<forall>ch. node_grows cl executed sender ch (fst (fc_advance cl ch))) \<and>
     (\<forall>ch h a amount. executed ch h \<and> tx_from (tx_of h) = Some sender \<and> tx_to (tx_of h) = Some (TxCall a) \<and>
        tx_value (tx_of h) = Some amount \<and> a \<noteq> sender \<longrightarrow> funded cl ch amount a)"

lemma node_grows_refl [simp]: "node_grows cl executed sender ch ch"
  by (simp add: node_grows_def)

lemma node_grows_trans [trans]:
  "node_grows cl executed sender ch1 ch2 \<Longrightarrow> node_grows cl executed sender ch2 ch3 \<Longrightarrow>
   node_grows cl executed sender ch1 ch3"
  by (simp add: node_grows_def)

lemma node_grows_funded:
  "node_grows cl executed sender ch ch' \<Longrightarrow> a \<noteq> sender \<Longrightarrow> funded cl ch amount a \<Longrightarrow> funded cl ch' amount a"
  by (simp add: node_grows_def)

section \<open>Lemmas\<close>

lemma found_balances:
  assumes "find_insufficient_balances cl ch as amount = Ok found"
  shows "\<forall>a \<in> set as. a \<in> fst ` set found \<or> funded cl ch amount a"
proof -
  have step: "rfoldl (\<lambda>acc a. rbind (is_balance_sufficient cl ch a amount) (\<lambda>(sufficient, balance).
      Ok (if sufficient then acc else acc @ [(a, balance)]))) acc as = Ok found \<Longrightarrow>
    fst ` set acc \<subseteq> fst ` set found \<and> (\<forall>a \<in> set as. a \<in> fst ` set found \<or> funded cl ch amount a)" for acc
  proof (induction as arbitrary: acc)
    case (Cons a as)
    from Cons.prems obtain sufficient balance
      where b: "is_balance_sufficient cl ch a amount = Ok (sufficient, balance)" and
        rest: "rfoldl (\<lambda>acc a. rbind (is_balance_sufficient cl ch a amount) (\<lambda>(sufficient, balance).
          Ok (if sufficient then acc else acc @ [(a, balance)])))
          (if sufficient then acc else acc @ [(a, balance)]) as = Ok found" by auto
    from Cons.IH [OF rest] b show ?case
      by (auto simp: is_balance_sufficient_def funded_def split: if_splits)
  qed simp
  from step [of "[]"] assms show ?thesis by (simp add: find_insufficient_balances_def)
qed

lemma check_funds_accounts:
  assumes "check_funds cl ch fund_with recipients amount = Ok (accounts, nonce)"
  shows "\<forall>a \<in> set recipients. a \<in> set accounts \<or> funded cl ch amount a"
  using assms found_balances
  by (fastforce simp: check_funds_def Let_def split: if_splits prod.splits)

lemma fund_tx_fields [simp]:
  "tx_from (fund_tx sender a amount nonce ty gp bp chain_id) = Some (sg_address sender)"
  "tx_to (fund_tx sender a amount nonce ty gp bp chain_id) = Some (TxCall a)"
  "tx_value (fund_tx sender a amount nonce ty gp bp chain_id) = Some amount"
  by (cases ty; simp add: fund_tx_def)+

lemma fund_account_grows:
  assumes "node_ok cl tx_of executed s"
  shows "node_grows cl executed s ch (fst (fund_account cl sender a amount nonce ty ch))"
  using assms by (auto simp: fund_account_def node_ok_def split: rresult.splits prod.splits) (metis fst_conv)

lemma fund_account_tx:
  assumes "node_ok cl tx_of executed s" and "fund_account cl sender a amount nonce ty ch = (ch', Ok h)"
  shows "tx_from (tx_of h) = Some (sg_address sender) \<and> tx_to (tx_of h) = Some (TxCall a)
    \<and> tx_value (tx_of h) = Some amount"
  using assms by (auto simp: fund_account_def node_ok_def Let_def split: rresult.splits prod.splits)

lemma fund_outcome_of_sent: "fund_outcome_of r = FundSent h \<longleftrightarrow> r = Ok h"
  by (cases r rule: fund_outcome_of.cases) auto

text \<open>The steps of the tasks keep the books: what is in the channel, who is blocked and who has no permit.\<close>

lemma run_task_cases:
  obtains "run_task cl sender amount ty nonce accounts i st = st"
      "i < length (fs_tasks st) \<Longrightarrow> fs_tasks st ! i = TaskWaiting \<Longrightarrow> FUNDING_CONCURRENCY_LIMIT \<le> blocked_tasks st"
    | ch r where "i < length (fs_tasks st)" "fs_tasks st ! i = TaskWaiting" "blocked_tasks st < FUNDING_CONCURRENCY_LIMIT"
      "fund_account cl sender (accounts ! i) amount (Some (nonce + word_of_nat i)) ty (fs_chain st) = (ch, r)"
      "run_task cl sender amount ty nonce accounts i st = end_task i (fund_outcome_of r) (st\<lparr>fs_chain := ch\<rparr>)"
proof (cases "i < length (fs_tasks st) \<and> fs_tasks st ! i = TaskWaiting \<and> blocked_tasks st < FUNDING_CONCURRENCY_LIMIT")
  case True
  obtain ch r where "fund_account cl sender (accounts ! i) amount (Some (nonce + word_of_nat i)) ty (fs_chain st) = (ch, r)"
    by (metis surj_pair)
  with True that(2) show thesis by (simp add: run_task_def)
next
  case False
  then show thesis using that(1) by (auto simp: run_task_def)
qed

lemma end_task_chain [simp]: "fs_chain (end_task i out st) = fs_chain st"
  "length (fs_tasks (end_task i out st)) = length (fs_tasks st)"
  by (simp_all add: end_task_def split: fund_outcome.splits)

lemma filter_update:
  "i < length xs \<Longrightarrow> \<not> P (xs ! i) \<Longrightarrow> length (filter P (xs[i := x])) = length (filter P xs) + (if P x then 1 else 0)"
proof (induction xs arbitrary: i)
  case (Cons y ys)
  then show ?case by (cases i) auto
qed simp

definition sent_count :: "'c fund_state \<Rightarrow> nat" where
  "sent_count st = length (filter (\<lambda>t. \<exists>h. t = TaskDone (FundSent h)) (fs_tasks st))"

definition tasks_inv :: "'c fund_state \<Rightarrow> bool" where
  "tasks_inv st \<longleftrightarrow> length (fs_channel st) = sent_count st \<and> length (fs_channel st) \<le> FUNDING_CHANNEL_CAPACITY
     \<and> blocked_tasks st \<le> FUNDING_CONCURRENCY_LIMIT
     \<and> (0 < blocked_tasks st \<longrightarrow> length (fs_channel st) = FUNDING_CHANNEL_CAPACITY)"

lemma end_task_inv:
  assumes "tasks_inv st" and "i < length (fs_tasks st)" and "fs_tasks st ! i = TaskWaiting"
    and "blocked_tasks st < FUNDING_CONCURRENCY_LIMIT"
  shows "tasks_inv (end_task i out st) \<and> blocked_tasks st \<le> blocked_tasks (end_task i out st)"
proof -
  have "\<not> is_blocked (fs_tasks st ! i)" "\<not> (\<exists>h. fs_tasks st ! i = TaskDone (FundSent h))" using assms(3) by simp_all
  note upd = filter_update [OF assms(2), of is_blocked, OF this(1)]
    filter_update [OF assms(2), of "\<lambda>t. \<exists>h. t = TaskDone (FundSent h)", OF this(2)]
  have "blocked_tasks (st\<lparr>fs_tasks := (fs_tasks st)[i := t]\<rparr>) = blocked_tasks st + (if is_blocked t then 1 else 0)"
    "blocked_tasks (st\<lparr>fs_channel := c, fs_tasks := (fs_tasks st)[i := t]\<rparr>) = blocked_tasks st + (if is_blocked t then 1 else 0)"
    "sent_count (st\<lparr>fs_tasks := (fs_tasks st)[i := t]\<rparr>) = sent_count st + (if \<exists>h. t = TaskDone (FundSent h) then 1 else 0)"
    "sent_count (st\<lparr>fs_channel := c, fs_tasks := (fs_tasks st)[i := t]\<rparr>)
      = sent_count st + (if \<exists>h. t = TaskDone (FundSent h) then 1 else 0)" for t c
    unfolding blocked_tasks_def sent_count_def using upd by simp_all
  then show ?thesis using assms(1,4) by (auto simp: end_task_def tasks_inv_def split: fund_outcome.splits)
qed

lemma run_task_inv:
  assumes "tasks_inv st"
  shows "tasks_inv (run_task cl sender amount ty nonce accounts i st)
    \<and> blocked_tasks st \<le> blocked_tasks (run_task cl sender amount ty nonce accounts i st)
    \<and> length (fs_tasks (run_task cl sender amount ty nonce accounts i st)) = length (fs_tasks st)"
proof (cases rule: run_task_cases [of cl sender amount ty nonce accounts i st])
  case (2 ch r)
  have "tasks_inv (st\<lparr>fs_chain := ch\<rparr>)" "blocked_tasks (st\<lparr>fs_chain := ch\<rparr>) = blocked_tasks st"
    using assms unfolding tasks_inv_def blocked_tasks_def sent_count_def by auto
  with end_task_inv [OF this(1), of i "fund_outcome_of r"] 2(1-3) show ?thesis by (simp add: 2(5))
qed (use assms in simp)

text \<open>A task whose turn has come is still waiting only if all permits are held by blocked tasks.\<close>

lemma run_task_turn:
  assumes "tasks_inv st" and st': "st' = run_task cl sender amount ty nonce accounts i st"
  shows "j < length (fs_tasks st) \<Longrightarrow> fs_tasks st' ! j = TaskWaiting \<Longrightarrow>
    fs_tasks st ! j = TaskWaiting \<and> (j = i \<longrightarrow> blocked_tasks st' = FUNDING_CONCURRENCY_LIMIT)"
proof (cases rule: run_task_cases [of cl sender amount ty nonce accounts i st])
  case 1
  assume "j < length (fs_tasks st)" "fs_tasks st' ! j = TaskWaiting"
  with 1 assms show ?thesis by (auto simp: tasks_inv_def)
next
  case (2 ch r)
  assume "j < length (fs_tasks st)" "fs_tasks st' ! j = TaskWaiting"
  with 2 show ?thesis
    by (cases "j = i") (auto simp: st' end_task_def split: fund_outcome.splits if_splits)
qed

lemma fold_tasks_inv:
  assumes "tasks_inv st" and "st' = fold (run_task cl sender amount ty nonce accounts) order st"
  shows "tasks_inv st' \<and> blocked_tasks st \<le> blocked_tasks st' \<and> length (fs_tasks st') = length (fs_tasks st)
    \<and> (\<forall>j < length (fs_tasks st). fs_tasks st' ! j = TaskWaiting \<longrightarrow>
         fs_tasks st ! j = TaskWaiting \<and> (j \<in> set order \<longrightarrow> blocked_tasks st' = FUNDING_CONCURRENCY_LIMIT))"
  using assms
proof (induction order arbitrary: st)
  case (Cons i order)
  define st1 where "st1 = run_task cl sender amount ty nonce accounts i st"
  have one: "tasks_inv st1" "blocked_tasks st \<le> blocked_tasks st1" "length (fs_tasks st1) = length (fs_tasks st)"
    using run_task_inv [OF Cons.prems(1)] by (simp_all add: st1_def)
  note rest = Cons.IH [OF one(1)] and turn = run_task_turn [OF Cons.prems(1) st1_def]
  have st': "st' = fold (run_task cl sender amount ty nonce accounts) order st1" using Cons.prems(2) by (simp add: st1_def)
  have "blocked_tasks st' \<le> FUNDING_CONCURRENCY_LIMIT" using rest [OF st'] by (simp add: tasks_inv_def)
  with one rest [OF st'] turn show ?case by (fastforce intro: order_antisym order_trans)
qed simp

lemma fund_tasks_inv:
  assumes "st = fund_tasks cl sender amount ty nonce accounts order ch"
  shows "tasks_inv st \<and> length (fs_tasks st) = length accounts
    \<and> (\<forall>j < length accounts. fs_tasks st ! j = TaskWaiting \<longrightarrow> j \<in> set order \<longrightarrow> blocked_tasks st = FUNDING_CONCURRENCY_LIMIT)"
proof -
  let ?init = "\<lparr>fs_chain = ch, fs_channel = [], fs_tasks = replicate (length accounts) TaskWaiting\<rparr>"
  have "tasks_inv ?init" by (simp add: tasks_inv_def blocked_tasks_def sent_count_def)
  from fold_tasks_inv [OF this assms [unfolded fund_tasks_def]] show ?thesis by simp
qed

text \<open>What the node has seen of the tasks: every hash in the channel, or of a task that ended, is of the task's transfer.\<close>

definition tasks_paid ::
  "(tx_hash \<Rightarrow> tx_request) \<Rightarrow> signer \<Rightarrow> u256 \<Rightarrow> address list \<Rightarrow> 'c fund_state \<Rightarrow> bool" where
  "tasks_paid tx_of sender amount accounts st \<longleftrightarrow> length (fs_tasks st) = length accounts \<and>
     (\<forall>i < length accounts. \<forall>h. fs_tasks st ! i = TaskDone (FundSent h) \<longrightarrow> h \<in> set (fs_channel st) \<and>
        tx_from (tx_of h) = Some (sg_address sender) \<and> tx_to (tx_of h) = Some (TxCall (accounts ! i)) \<and>
        tx_value (tx_of h) = Some amount)"

lemma end_task_paid:
  assumes "tasks_paid tx_of sender amount accounts st" and "i < length accounts"
    and "\<And>h. out = FundSent h \<Longrightarrow> tx_from (tx_of h) = Some (sg_address sender)
      \<and> tx_to (tx_of h) = Some (TxCall (accounts ! i)) \<and> tx_value (tx_of h) = Some amount"
  shows "tasks_paid tx_of sender amount accounts (end_task i out st)"
  using assms by (auto simp: tasks_paid_def end_task_def nth_list_update split: fund_outcome.splits)

lemma fund_tasks_spec:
  assumes ok: "node_ok cl tx_of executed s" and "st = fund_tasks cl sender amount ty nonce accounts order ch"
  shows "node_grows cl executed s ch (fs_chain st) \<and> tasks_paid tx_of sender amount accounts st"
proof -
  have step: "node_grows cl executed s ch (fs_chain (run_task cl sender amount ty nonce accounts i st))
      \<and> tasks_paid tx_of sender amount accounts (run_task cl sender amount ty nonce accounts i st)"
    if "node_grows cl executed s ch (fs_chain st)" "tasks_paid tx_of sender amount accounts st" for i st
  proof (cases rule: run_task_cases [of cl sender amount ty nonce accounts i st])
    case (2 ch1 r)
    have grows: "node_grows cl executed s (fs_chain st) ch1" using fund_account_grows [OF ok] 2(4) by (metis fst_conv)
    have "tasks_paid tx_of sender amount accounts (st\<lparr>fs_chain := ch1\<rparr>)" using that(2) by (simp add: tasks_paid_def)
    moreover have "i < length accounts" using 2(1) that(2) by (simp add: tasks_paid_def)
    ultimately have "tasks_paid tx_of sender amount accounts (end_task i (fund_outcome_of r) (st\<lparr>fs_chain := ch1\<rparr>))"
      using fund_account_tx [OF ok] 2(4) by (intro end_task_paid) (simp_all add: fund_outcome_of_sent)
    with grows that(1) show ?thesis unfolding 2(5) by (auto intro: node_grows_trans)
  qed (use that in simp)
  have run: "node_grows cl executed s ch (fs_chain (fold (run_task cl sender amount ty nonce accounts) order st))
      \<and> tasks_paid tx_of sender amount accounts (fold (run_task cl sender amount ty nonce accounts) order st)"
    if "node_grows cl executed s ch (fs_chain st)" "tasks_paid tx_of sender amount accounts st" for st
    using that
  proof (induction order arbitrary: st)
    case (Cons i order)
    from Cons.IH step [OF Cons.prems] show ?case by simp
  qed simp
  show ?thesis unfolding assms(2) fund_tasks_def by (rule run) (simp_all add: tasks_paid_def)
qed

lemma join_tasks_Ok:
  "join_tasks ts = Some (Ok u) \<longleftrightarrow> (\<forall>t \<in> set ts. \<exists>out. t = TaskDone out \<and> (\<forall>e. out \<noteq> FundFailed e))"
proof (induction ts)
  case (Cons t ts)
  show ?case
  proof (cases t)
    case (TaskDone out)
    with Cons show ?thesis by (cases out) auto
  qed auto
qed simp

text \<open>The task at \<open>i\<close> has not ended, and the tasks spawned before it have, without failure.\<close>

definition awaited_for_ever :: "task_state list \<Rightarrow> nat \<Rightarrow> bool" where
  "awaited_for_ever ts i \<longleftrightarrow> i < length ts \<and> (\<forall>out. ts ! i \<noteq> TaskDone out) \<and>
     (\<forall>j < i. \<exists>out. ts ! j = TaskDone out \<and> (\<forall>e. out \<noteq> FundFailed e))"

lemma awaited_Cons:
  "(\<exists>i. awaited_for_ever (t # ts) i) \<longleftrightarrow>
     (case t of TaskDone (FundFailed e) \<Rightarrow> False | TaskDone _ \<Rightarrow> \<exists>i. awaited_for_ever ts i | _ \<Rightarrow> True)"
proof -
  have "awaited_for_ever (t # ts) i \<longleftrightarrow> (case i of 0 \<Rightarrow> \<forall>out. t \<noteq> TaskDone out
      | Suc k \<Rightarrow> (\<exists>out. t = TaskDone out \<and> (\<forall>e. out \<noteq> FundFailed e)) \<and> awaited_for_ever ts k)" for i
    by (cases i) (auto simp: awaited_for_ever_def less_Suc_eq_0_disj)
  then show ?thesis
    by (cases t rule: task_state.exhaust; simp split: fund_outcome.splits)
      (metis nat.simps(4) nat.simps(5) old.nat.exhaust fund_outcome.distinct)+
qed

lemma join_tasks_hangs: "join_tasks ts = None \<longleftrightarrow> (\<exists>i. awaited_for_ever ts i)"
proof (induction ts rule: join_tasks.induct)
  case 1 then show ?case by (simp add: awaited_for_ever_def)
qed (simp_all only: awaited_Cons join_tasks.simps task_state.case fund_outcome.case simp_thms option.distinct)

lemma stuck_tasks:
  assumes "TaskWaiting \<in> set ts \<longrightarrow> length (filter is_blocked ts) = 25"
  shows "(\<exists>t \<in> set ts. \<forall>out. t \<noteq> TaskDone out) \<longleftrightarrow> 0 < length (filter is_blocked ts)"
proof
  assume "\<exists>t \<in> set ts. \<forall>out. t \<noteq> TaskDone out"
  then obtain t where t: "t \<in> set ts" "\<forall>out. t \<noteq> TaskDone out" by blast
  show "0 < length (filter is_blocked ts)"
  proof (cases t)
    case (TaskBlocked h)
    with t(1) have "TaskBlocked h \<in> set (filter is_blocked ts)" by simp
    then show ?thesis by (rule length_pos_if_in_set)
  qed (use t assms in auto)
next
  assume "0 < length (filter is_blocked ts)"
  then obtain t where "t \<in> set ts" "is_blocked t" by (metis filter_False length_greater_0_conv)
  then show "\<exists>t \<in> set ts. \<forall>out. t \<noteq> TaskDone out" by (intro bexI [of _ t]) (cases t, auto)
qed

lemma sent_or_blocked:
  "length (filter (\<lambda>t. \<exists>h. t = TaskDone (FundSent h)) ts) + length (filter is_blocked ts) \<le> length ts"
  by (induction ts) auto

lemma awaited_first:
  assumes "\<forall>e. TaskDone (FundFailed e) \<notin> set ts" and "\<exists>t \<in> set ts. \<forall>out. t \<noteq> TaskDone out"
  shows "\<exists>i. awaited_for_ever ts i"
proof -
  from assms(2) obtain k where "k < length ts \<and> (\<forall>out. ts ! k \<noteq> TaskDone out)" by (auto simp: in_set_conv_nth)
  then obtain i where i: "i < length ts \<and> (\<forall>out. ts ! i \<noteq> TaskDone out)"
    and least: "\<forall>j < i. \<not> (j < length ts \<and> (\<forall>out. ts ! j \<noteq> TaskDone out))"
    using exists_least_iff [of "\<lambda>k. k < length ts \<and> (\<forall>out. ts ! k \<noteq> TaskDone out)"] by blast
  have "\<exists>out. ts ! j = TaskDone out \<and> (\<forall>e. out \<noteq> FundFailed e)" if "j < i" for j
    using least that i assms(1) by (metis nth_mem order_less_trans)
  with i show ?thesis by (auto simp: awaited_for_ever_def)
qed

lemma watch_txs_Ok:
  assumes ok: "node_ok cl tx_of executed s"
  shows "watch_txs cl hs ch = (ch', Ok u) \<Longrightarrow> node_grows cl executed s ch ch' \<and> (\<forall>h \<in> set hs. executed ch' h)"
proof (induction hs arbitrary: ch)
  case (Cons h hs)
  then obtain ch1 where w: "fc_watch cl ch h = (ch1, Confirmed)" and rest: "watch_txs cl hs ch1 = (ch', Ok u)"
    by (auto split: prod.splits watch_result.splits)
  have "executed ch1 h" "node_grows cl executed s ch ch1"
    using ok w unfolding node_ok_def by (blast, metis fst_conv)
  with Cons.IH [OF rest] show ?case by (auto simp: node_grows_def)
qed simp

lemma watch_chunk_Ok:
  assumes ok: "node_ok cl tx_of executed s" and run: "watch_chunk cl en hs ch = (ch', Ok u)"
  shows "node_grows cl executed s ch ch' \<and> (\<forall>h \<in> set hs. executed ch' h)"
proof -
  have adv: "node_grows cl executed s c (fst (fc_advance cl c))" for c using ok by (simp add: node_ok_def)
  from run obtain ch1 where "node_grows cl executed s ch ch1" and "watch_txs cl hs ch1 = (ch', Ok u)"
    using adv [of ch] by (auto simp: watch_chunk_def split: if_splits prod.splits) (blast intro: node_grows_refl)
  with watch_txs_Ok [OF ok] show ?thesis by (blast intro: node_grows_trans)
qed

lemma confirm_txs_Ok:
  assumes ok: "node_ok cl tx_of executed s" and run: "confirm_txs cl en hs ch = (ch', Ok u)"
  shows "node_grows cl executed s ch ch' \<and> (\<forall>h \<in> set hs. executed ch' h)"
proof -
  have step: "smapM (watch_chunk cl en) cs ch = (ch', Ok us) \<Longrightarrow>
      node_grows cl executed s ch ch' \<and> (\<forall>h \<in> set (concat cs). executed ch' h)" for cs us
  proof (induction cs arbitrary: ch us)
    case (Cons c cs)
    then obtain ch1 v vs where c: "watch_chunk cl en c ch = (ch1, Ok v)"
      and rest: "smapM (watch_chunk cl en) cs ch1 = (ch', Ok vs)" by auto
    with watch_chunk_Ok [OF ok c] Cons.IH [OF rest] show ?case by (auto simp: node_grows_def)
  qed simp
  from run step [of "chunks_ne 100 hs"] show ?thesis by (auto simp: confirm_txs_def concat_chunks)
qed

section \<open>Theorems\<close>

text \<open>
  C21. When the funding of the accounts succeeds, in whatever order its tasks run, every recipient other than the funding
  account has the minimum balance at the end, unless the node refused its transaction as one that was already in the
  mempool: such a transaction is not waited for.
\<close>

theorem funding_reaches_recipients:
  assumes "node_ok cl tx_of executed (sg_address fund_with)"
    and "check_funds cl ch fund_with recipients min_balance = Ok (accounts, admin_nonce)"
    and "st = fund_tasks cl fund_with min_balance ty admin_nonce accounts order ch"
    and "fund_accounts_cli cl recipients fund_with min_balance ty en order ch = Some (ch', Ok ())"
    and "a \<in> set recipients" and "a \<noteq> sg_address fund_with"
  shows "funded cl ch' min_balance a \<or> (a, TaskDone FundSkipped) \<in> set (zip accounts (fs_tasks st))"
proof -
  let ?s = "sg_address fund_with"
  from assms(4) obtain r where r: "join_tasks (fs_tasks st) = Some r"
    "(case r of Ok _ \<Rightarrow> confirm_txs cl en (fs_channel st) (fs_chain st)
       | Err e \<Rightarrow> (fs_chain st, Err e) | Panic \<Rightarrow> (fs_chain st, Panic)) = (ch', Ok ())"
    unfolding fund_accounts_cli_def assms(2) rresult.case prod.case assms(3) [symmetric] Let_def by auto
  then have "join_tasks (fs_tasks st) = Some (Ok ())"
    and confirm: "confirm_txs cl en (fs_channel st) (fs_chain st) = (ch', Ok ())" by (cases r; simp)+
  then have ended: "\<And>t. t \<in> set (fs_tasks st) \<Longrightarrow> \<exists>out. t = TaskDone out \<and> (\<forall>e. out \<noteq> FundFailed e)"
    by (simp add: join_tasks_Ok)
  from fund_tasks_spec [OF assms(1,3)] have grown: "node_grows cl executed ?s ch (fs_chain st)"
    and paid: "tasks_paid tx_of fund_with min_balance accounts st" by simp_all
  note confirmed = confirm_txs_Ok [OF assms(1) confirm]
  have grows: "node_grows cl executed ?s ch ch'" using grown confirmed by (blast intro: node_grows_trans)
  show ?thesis
  proof (cases "a \<in> set accounts")
    case False
    then have "funded cl ch min_balance a" using check_funds_accounts [OF assms(2)] assms(5) by blast
    with grows assms(6) show ?thesis by (blast intro: node_grows_funded)
  next
    case True
    then obtain i where i: "i < length accounts" "a = accounts ! i" by (auto simp: in_set_conv_nth)
    with paid have len: "i < length (fs_tasks st)" by (simp add: tasks_paid_def)
    from ended [OF nth_mem [OF len]] obtain out where out: "fs_tasks st ! i = TaskDone out" "\<forall>e. out \<noteq> FundFailed e" by blast
    show ?thesis
    proof (cases out)
      case (FundSent h)
      with paid i out(1) have "h \<in> set (fs_channel st)"
        "tx_from (tx_of h) = Some ?s \<and> tx_to (tx_of h) = Some (TxCall a) \<and> tx_value (tx_of h) = Some min_balance"
        by (auto simp: tasks_paid_def)
      with confirmed assms(1,6) show ?thesis unfolding node_ok_def by blast
    next
      case FundSkipped
      with i len out(1) show ?thesis by (metis in_set_zip fst_conv snd_conv)
    qed (use out(2) in blast)
  qed
qed

text \<open>A node that executes a transaction when it is watched, for one recipient and for many.\<close>

definition demo_funder :: signer where
  "demo_funder = \<lparr>sg_key = [], sg_address = 7\<rparr>"

definition demo_client :: "(tx_request \<Rightarrow> bool) \<Rightarrow> bool fund_client" where
  "demo_client accepts =
     \<lparr>fc_balance = \<lambda>ch a. Ok (if a = 7 then 100000 else if ch then 10 else 0),
      fc_tx_count = \<lambda>ch a. Ok 3, fc_gas_price = \<lambda>ch. Ok 0, fc_chain_id = \<lambda>ch. Ok 1,
      fc_blob_base_fee = \<lambda>ch. Ok 0, fc_sign = \<lambda>tx s. Ok 1,
      fc_send = \<lambda>ch tx. (ch, if accepts tx then Ok 1 else Err (''rejected'', False)),
      fc_watch = \<lambda>ch h. (True, Confirmed), fc_advance = \<lambda>ch. (ch, Ok ())\<rparr>"

definition demo_funding_tx :: tx_request where
  "demo_funding_tx = fund_tx demo_funder 5 10 3 Eip1559 0 0 1"

definition demo_funding :: "(tx_request \<Rightarrow> bool) \<Rightarrow> nat \<Rightarrow> (bool \<times> (unit, cli_error) rresult) option" where
  "demo_funding accepts n =
     fund_accounts_cli (demo_client accepts) (replicate n 5) demo_funder 10 Eip1559
       \<lparr>en_available = False, en_call_fcu = False\<rparr> [0..<n] False"

lemma demo_node_ok: "node_ok (demo_client (\<lambda>tx. tx = demo_funding_tx)) (\<lambda>h. demo_funding_tx) (\<lambda>ch h. ch) 7"
  by (auto simp: node_ok_def node_grows_def funded_def demo_client_def demo_funding_tx_def)

lemma demo_insufficient:
  "find_insufficient_balances (demo_client accepts) False (replicate n 5) 10 = Ok (replicate n (5, 0))"
proof -
  have "rfoldl (\<lambda>acc a. rbind (is_balance_sufficient (demo_client accepts) False a 10) (\<lambda>(sufficient, balance).
      Ok (if sufficient then acc else acc @ [(a, balance)]))) acc (replicate n 5) = Ok (acc @ replicate n (5, 0))" for acc
    by (induction n arbitrary: acc) (simp_all add: is_balance_sufficient_def demo_client_def)
  then show ?thesis by (simp add: find_insufficient_balances_def)
qed

lemma demo_check:
  assumes "word_of_nat n * 10 \<le> (100000 :: u256)"
  shows "check_funds (demo_client accepts) False demo_funder (replicate n 5) 10 = Ok (replicate n 5, 3)"
proof -
  have "sort_key fst (replicate n (5 :: address, 0 :: u256)) = replicate n (5, 0)"
    by (induction n) (auto intro: insort_is_Cons)
  then show ?thesis
    using assms unfolding check_funds_def Let_def demo_insufficient
    by (simp add: is_balance_sufficient_def demo_client_def demo_funder_def mult.commute)
qed

theorem funding_reaches_recipients_witness:
  "demo_funding (\<lambda>tx. tx = demo_funding_tx) 1 = Some (True, Ok ()) \<and>
   funded (demo_client (\<lambda>tx. tx = demo_funding_tx)) True 10 5"
proof -
  let ?cl = "demo_client (\<lambda>tx. tx = demo_funding_tx)"
  have tasks: "fund_tasks ?cl demo_funder 10 Eip1559 3 (replicate 1 5) [0..<1] False
      = \<lparr>fs_chain = False, fs_channel = [1], fs_tasks = [TaskDone (FundSent 1)]\<rparr>"
    by (simp add: fund_tasks_def run_task_def end_task_def blocked_tasks_def FUNDING_CONCURRENCY_LIMIT_def
        FUNDING_CHANNEL_CAPACITY_def fund_account_def demo_client_def demo_funding_tx_def get_blob_fee_maybe_def Let_def)
  have check: "check_funds ?cl False demo_funder (replicate 1 5) 10 = Ok (replicate 1 5, 3)"
    by (rule demo_check) simp
  have run: "fund_accounts_cli ?cl (replicate 1 5) demo_funder 10 Eip1559
      \<lparr>en_available = False, en_call_fcu = False\<rparr> [0..<1] False = Some (True, Ok ())"
    unfolding fund_accounts_cli_def check using tasks
    by (simp add: confirm_txs_def chunks_ne.simps watch_chunk_def sbind_def sreturn_def demo_client_def)
  from funding_reaches_recipients [OF _ check refl run, of "\<lambda>h. demo_funding_tx" "\<lambda>ch h. ch" 5] demo_node_ok run tasks
  show ?thesis by (simp add: demo_funder_def demo_funding_def)
qed

text \<open>
  C22. When funding returns.  Let every account to fund have its task, and let the tasks get their answers in any
  order.  The channel never holds more than its 9000 slots, at most 25 tasks are blocked at it, and
  only when it is full; a task never starts only if 25 are blocked.  The call does not return exactly if some task is blocked or never
  starts and no task spawned before it failed: tasks are awaited in the order they were spawned, so an earlier failure is
  returned instead.  So with up to 9000 accounts the call always returns, and if no task fails it returns
  exactly if the transactions that the node accepted, those in the channel and those of blocked tasks, are at most 9000:
  the receiver only starts to read after all tasks have been awaited.  Single requests to the node are taken to be
  answered, and calls of \<open>advance_chain\<close> in the confirmation phase to return.
\<close>

theorem funding_returns_iff_channel_fits:
  assumes "check_funds cl ch fund_with recipients min_balance = Ok (accounts, admin_nonce)"
    and "set order = {..<length accounts}"
    and "st = fund_tasks cl fund_with min_balance ty admin_nonce accounts order ch"
  shows "length (fs_channel st) \<le> 9000 \<and> blocked_tasks st \<le> 25 \<and> (0 < blocked_tasks st \<longrightarrow> length (fs_channel st) = 9000)
    \<and> (TaskWaiting \<in> set (fs_tasks st) \<longrightarrow> blocked_tasks st = 25)
    \<and> (fund_accounts_cli cl recipients fund_with min_balance ty en order ch = None \<longleftrightarrow> (\<exists>i. awaited_for_ever (fs_tasks st) i))
    \<and> (length accounts \<le> 9000 \<longrightarrow> fund_accounts_cli cl recipients fund_with min_balance ty en order ch \<noteq> None)
    \<and> ((\<forall>e. TaskDone (FundFailed e) \<notin> set (fs_tasks st)) \<longrightarrow>
        (fund_accounts_cli cl recipients fund_with min_balance ty en order ch = None
           \<longleftrightarrow> 9000 < length (fs_channel st) + blocked_tasks st))"
proof -
  from fund_tasks_inv [OF assms(3)] have inv: "tasks_inv st" "length (fs_tasks st) = length accounts"
    and "\<forall>j < length accounts. fs_tasks st ! j = TaskWaiting \<longrightarrow> blocked_tasks st = 25"
    by (auto simp: assms(2) FUNDING_CONCURRENCY_LIMIT_def)
  then have waiting: "TaskWaiting \<in> set (fs_tasks st) \<longrightarrow> blocked_tasks st = 25" by (metis in_set_conv_nth)
  from inv(1) have books: "length (fs_channel st) \<le> 9000" "blocked_tasks st \<le> 25"
      "0 < blocked_tasks st \<longrightarrow> length (fs_channel st) = 9000" "length (fs_channel st) = sent_count st"
    unfolding tasks_inv_def FUNDING_CONCURRENCY_LIMIT_def FUNDING_CHANNEL_CAPACITY_def by blast+
  have none: "fund_accounts_cli cl recipients fund_with min_balance ty en order ch = None
      \<longleftrightarrow> (\<exists>i. awaited_for_ever (fs_tasks st) i)"
    using assms(1,3) by (simp add: fund_accounts_cli_def Let_def join_tasks_hangs)
  have stuck: "(\<exists>t \<in> set (fs_tasks st). \<forall>out. t \<noteq> TaskDone out) \<longleftrightarrow> 0 < blocked_tasks st"
    using waiting unfolding blocked_tasks_def by (simp add: stuck_tasks)
  have "sent_count st + blocked_tasks st \<le> length accounts"
    unfolding inv(2) [symmetric] sent_count_def blocked_tasks_def by (rule sent_or_blocked)
  then have few: "length accounts \<le> 9000 \<Longrightarrow> blocked_tasks st = 0" using books by linarith
  have some: "(\<exists>i. awaited_for_ever (fs_tasks st) i) \<Longrightarrow> 0 < blocked_tasks st"
    using stuck by (auto simp: awaited_for_ever_def dest: nth_mem)
  have every: "(\<exists>i. awaited_for_ever (fs_tasks st) i) \<longleftrightarrow> 0 < blocked_tasks st"
    if "\<forall>e. TaskDone (FundFailed e) \<notin> set (fs_tasks st)"
    using awaited_first [OF that] stuck some by blast
  show ?thesis unfolding none
  proof (intro conjI impI)
    assume "length accounts \<le> 9000"
    with few some show "\<not> (\<exists>i. awaited_for_ever (fs_tasks st) i)" by auto
  next
    assume "\<forall>e. TaskDone (FundFailed e) \<notin> set (fs_tasks st)"
    from every [OF this] books(1,3) show "(\<exists>i. awaited_for_ever (fs_tasks st) i) \<longleftrightarrow> 9000 < length (fs_channel st) + blocked_tasks st"
      by auto
  qed (use books waiting in simp_all)
qed

text \<open>With a node that accepts everything, 9000 accounts are funded and 9001 are not: the last task stays at the full channel.\<close>

definition demo_sent :: "task_state \<Rightarrow> bool" where
  "demo_sent t \<longleftrightarrow> t = TaskWaiting \<or> is_blocked t \<or> t = TaskDone (FundSent 1)"

lemma demo_tasks_sent:
  "list_all demo_sent (fs_tasks (fund_tasks (demo_client (\<lambda>_. True)) demo_funder 10 Eip1559 3 (replicate n 5) order False))"
proof -
  let ?run = "run_task (demo_client (\<lambda>_. True)) demo_funder 10 Eip1559 3 (replicate n 5)"
  have step: "list_all demo_sent (fs_tasks (?run i st))" if "list_all demo_sent (fs_tasks st)" for i st
  proof -
    obtain ch where call: "fund_account (demo_client (\<lambda>_. True)) demo_funder (replicate n 5 ! i) 10 (Some (3 + word_of_nat i))
        Eip1559 (fs_chain st) = (ch, Ok 1)"
      by (simp add: fund_account_def demo_client_def Let_def)
    have "list_all demo_sent ((fs_tasks st)[i := t])" if "demo_sent t" for t
      using \<open>list_all demo_sent (fs_tasks st)\<close> that set_update_subset_insert [of "fs_tasks st" i t] by (auto simp: list_all_iff)
    with that show ?thesis by (simp add: run_task_def call end_task_def) (simp add: demo_sent_def)
  qed
  have "list_all demo_sent (fs_tasks (fold ?run order st))" if "list_all demo_sent (fs_tasks st)" for st
    using that
  proof (induction order arbitrary: st)
    case (Cons i order)
    from Cons.IH [OF step [OF Cons.prems]] show ?case by simp
  qed simp
  moreover have "list_all demo_sent (replicate n TaskWaiting)" by (simp add: list_all_iff demo_sent_def)
  ultimately show ?thesis unfolding fund_tasks_def by simp
qed

theorem funding_returns_iff_channel_fits_witness:
  "demo_funding (\<lambda>_. True) 9001 = None \<and> demo_funding (\<lambda>_. True) 9000 \<noteq> None"
proof -
  have "n \<le> 9001 \<Longrightarrow> demo_funding (\<lambda>_. True) n = None \<longleftrightarrow> 9000 < n" for n
  proof -
    assume "n \<le> 9001"
    then have "word_of_nat n * 10 \<le> (100000 :: u256)"
      by (simp add: word_le_nat_alt unat_word_ariths unat_of_nat)
    define st where "st = fund_tasks (demo_client (\<lambda>_. True)) demo_funder 10 Eip1559 3 (replicate n 5) [0..<n] False"
    have fates: "\<forall>t \<in> set (fs_tasks st). demo_sent t"
      using demo_tasks_sent [of n "[0..<n]"] by (simp add: st_def list_all_iff)
    have len: "length (fs_tasks st) = n" "tasks_inv st" using fund_tasks_inv [OF st_def] by simp_all
    have ord: "set [0..<n] = {..<length (replicate n (5 :: address))}" by auto
    note ret = funding_returns_iff_channel_fits [OF demo_check [OF \<open>word_of_nat n * 10 \<le> 100000\<close>] ord st_def,
        of "\<lparr>en_available = False, en_call_fcu = False\<rparr>"]
    have none: "\<forall>e. TaskDone (FundFailed e) \<notin> set (fs_tasks st)" using fates by (force simp: demo_sent_def)
    have "9000 < length (fs_channel st) + blocked_tasks st" if "9000 < n"
    proof (rule ccontr)
      assume "\<not> ?thesis"
      with ret have free: "blocked_tasks st = 0" "TaskWaiting \<notin> set (fs_tasks st)" by linarith+
      from free(1) have "\<forall>t \<in> set (fs_tasks st). \<not> is_blocked t" by (simp add: blocked_tasks_def filter_empty_conv)
      with free(2) fates have "\<forall>t \<in> set (fs_tasks st). \<exists>h. t = TaskDone (FundSent h)" unfolding demo_sent_def by metis
      then have "sent_count st = n" using len(1) by (simp add: sent_count_def filter_id_conv)
      with len(2) that \<open>\<not> ?thesis\<close> show False by (simp add: tasks_inv_def)
    qed
    moreover have "demo_funding (\<lambda>_. True) n \<noteq> None" if "n \<le> 9000" 
      using ret that unfolding demo_funding_def length_replicate by blast
    ultimately show "demo_funding (\<lambda>_. True) n = None \<longleftrightarrow> 9000 < n"
      using ret none unfolding demo_funding_def by (metis not_less)
  qed
  from this [of 9001] this [of 9000] show ?thesis by simp
qed

end
