(* ===== verification/Rpc_Method.thy ===== *)
theory Rpc_Method
  imports Tx_Request
begin

text \<open>
  The JSON-RPC methods of the command \<open>contender rpc\<close> (\<open>crates/cli/src/commands/rpc.rs\<close>): the
  arguments of each method, its name and the parameters of its request.  How alloy writes an
  address, a hash, bytes, a 256-bit number and a block number or tag as JSON strings is the record
  \<open>serializers\<close>.  The fields of an object are in the order of the declaration.
\<close>

datatype json = JNull | JBool bool | JNum int | JStr string | JArr "json list" | JObj "(string \<times> json) list"

datatype block_number_or_tag = Latest | Finalized | Safe | Earliest | Pending | Number u64

record serializers =
  sz_address :: "address \<Rightarrow> string"
  sz_b256 :: "tx_hash \<Rightarrow> string"
  sz_bytes :: "u8 list \<Rightarrow> string"
  sz_u256 :: "u256 \<Rightarrow> string"
  sz_block :: "block_number_or_tag \<Rightarrow> string"

section \<open>Arguments\<close>

record tx_call_object =
  tc_from :: address
  tc_to :: address
  tc_input :: "u8 list"
  tc_gas :: "u256 option"
  tc_gas_price :: "u256 option"
  tc_value :: "u256 option"
  tc_nonce :: "u64 option"

record log_filter_object =
  lf_from_block :: "block_number_or_tag option"
  lf_to_block :: "block_number_or_tag option"
  lf_address :: "address option"
  lf_topics :: "tx_hash list option"
  lf_block_hash :: "tx_hash option"

record eth_get_balance_args =
  gb_address :: address
  gb_block :: "block_number_or_tag option"

record eth_get_transaction_count_args =
  gtc_address :: address
  gtc_block :: "block_number_or_tag option"

record eth_get_code_args =
  gc_address :: address
  gc_block :: "block_number_or_tag option"

record eth_get_storage_at_args =
  gsa_address :: address
  gsa_position :: u256
  gsa_block :: "block_number_or_tag option"

record eth_get_block_by_number_args =
  gbn_block :: block_number_or_tag
  gbn_full_txs :: bool

record eth_get_block_by_hash_args =
  gbh_hash :: tx_hash
  gbh_full_txs :: bool

record eth_get_transaction_by_hash_args =
  gth_hash :: tx_hash

record eth_get_transaction_receipt_args =
  gtr_hash :: tx_hash

record eth_get_block_transaction_count_by_number_args =
  btn_block :: block_number_or_tag

record eth_get_block_transaction_count_by_hash_args =
  bth_hash :: tx_hash

record web3_sha3_args =
  sha_data :: "u8 list"

record eth_sign_args =
  sgn_address :: address
  sgn_message :: "u8 list"

record eth_sign_transaction_args =
  sgt_tx :: tx_call_object

record eth_get_transaction_by_block_hash_and_index_args =
  tbh_block_hash :: tx_hash
  tbh_index :: u256

record eth_get_transaction_by_block_number_and_index_args =
  tbn_block :: block_number_or_tag
  tbn_index :: u256

record eth_get_uncle_count_by_block_hash_args =
  uch_hash :: tx_hash

record eth_get_uncle_count_by_block_number_args =
  ucn_block :: block_number_or_tag

record eth_get_uncle_by_block_hash_and_index_args =
  ubh_block_hash :: tx_hash
  ubh_index :: u256

record eth_get_uncle_by_block_number_and_index_args =
  ubn_block :: block_number_or_tag
  ubn_index :: u256

record eth_uninstall_filter_args =
  unf_filter_id :: u256

record eth_get_filter_changes_args =
  gfc_filter_id :: u256

record eth_get_filter_logs_args =
  gfl_filter_id :: u256

record eth_new_filter_args =
  nwf_filter :: log_filter_object

record eth_call_args =
  cal_tx :: tx_call_object
  cal_block :: "block_number_or_tag option"

record eth_estimate_gas_args =
  est_tx :: tx_call_object
  est_block :: "block_number_or_tag option"

record eth_send_transaction_args =
  snd_tx :: tx_call_object

record eth_get_logs_args =
  glg_filter :: log_filter_object

datatype rpc_method_subcommand =
    EthBlockNumber
  | EthChainId
  | EthGasPrice
  | EthSyncing
  | EthAccounts
  | EthProtocolVersion
  | EthCoinbase
  | EthMining
  | EthHashrate
  | EthNewBlockFilter
  | EthNewPendingTransactionFilter
  | NetVersion
  | NetListening
  | NetPeerCount
  | Web3ClientVersion
  | Web3Sha3 web3_sha3_args
  | EthGetBalance eth_get_balance_args
  | EthGetTransactionCount eth_get_transaction_count_args
  | EthGetCode eth_get_code_args
  | EthGetStorageAt eth_get_storage_at_args
  | EthGetBlockByNumber eth_get_block_by_number_args
  | EthGetBlockByHash eth_get_block_by_hash_args
  | EthGetTransactionByHash eth_get_transaction_by_hash_args
  | EthGetTransactionByBlockHashAndIndex eth_get_transaction_by_block_hash_and_index_args
  | EthGetTransactionByBlockNumberAndIndex eth_get_transaction_by_block_number_and_index_args
  | EthGetTransactionReceipt eth_get_transaction_receipt_args
  | EthGetBlockTransactionCountByNumber eth_get_block_transaction_count_by_number_args
  | EthGetBlockTransactionCountByHash eth_get_block_transaction_count_by_hash_args
  | EthGetUncleCountByBlockHash eth_get_uncle_count_by_block_hash_args
  | EthGetUncleCountByBlockNumber eth_get_uncle_count_by_block_number_args
  | EthGetUncleByBlockHashAndIndex eth_get_uncle_by_block_hash_and_index_args
  | EthGetUncleByBlockNumberAndIndex eth_get_uncle_by_block_number_and_index_args
  | EthSign eth_sign_args
  | EthSignTransaction eth_sign_transaction_args
  | EthUninstallFilter eth_uninstall_filter_args
  | EthGetFilterChanges eth_get_filter_changes_args
  | EthGetFilterLogs eth_get_filter_logs_args
  | EthCall eth_call_args
  | EthEstimateGas eth_estimate_gas_args
  | EthSendTransaction eth_send_transaction_args
  | EthGetLogs eth_get_logs_args
  | EthNewFilter eth_new_filter_args

primrec method_name :: "rpc_method_subcommand \<Rightarrow> string" where
  "method_name EthBlockNumber = ''eth_blockNumber''"
| "method_name EthChainId = ''eth_chainId''"
| "method_name EthGasPrice = ''eth_gasPrice''"
| "method_name EthSyncing = ''eth_syncing''"
| "method_name EthAccounts = ''eth_accounts''"
| "method_name EthProtocolVersion = ''eth_protocolVersion''"
| "method_name EthCoinbase = ''eth_coinbase''"
| "method_name EthMining = ''eth_mining''"
| "method_name EthHashrate = ''eth_hashrate''"
| "method_name EthNewBlockFilter = ''eth_newBlockFilter''"
| "method_name EthNewPendingTransactionFilter = ''eth_newPendingTransactionFilter''"
| "method_name NetVersion = ''net_version''"
| "method_name NetListening = ''net_listening''"
| "method_name NetPeerCount = ''net_peerCount''"
| "method_name Web3ClientVersion = ''web3_clientVersion''"
| "method_name (Web3Sha3 a) = ''web3_sha3''"
| "method_name (EthGetBalance a) = ''eth_getBalance''"
| "method_name (EthGetTransactionCount a) = ''eth_getTransactionCount''"
| "method_name (EthGetCode a) = ''eth_getCode''"
| "method_name (EthGetStorageAt a) = ''eth_getStorageAt''"
| "method_name (EthGetBlockByNumber a) = ''eth_getBlockByNumber''"
| "method_name (EthGetBlockByHash a) = ''eth_getBlockByHash''"
| "method_name (EthGetTransactionByHash a) = ''eth_getTransactionByHash''"
| "method_name (EthGetTransactionByBlockHashAndIndex a) = ''eth_getTransactionByBlockHashAndIndex''"
| "method_name (EthGetTransactionByBlockNumberAndIndex a) = ''eth_getTransactionByBlockNumberAndIndex''"
| "method_name (EthGetTransactionReceipt a) = ''eth_getTransactionReceipt''"
| "method_name (EthGetBlockTransactionCountByNumber a) = ''eth_getBlockTransactionCountByNumber''"
| "method_name (EthGetBlockTransactionCountByHash a) = ''eth_getBlockTransactionCountByHash''"
| "method_name (EthGetUncleCountByBlockHash a) = ''eth_getUncleCountByBlockHash''"
| "method_name (EthGetUncleCountByBlockNumber a) = ''eth_getUncleCountByBlockNumber''"
| "method_name (EthGetUncleByBlockHashAndIndex a) = ''eth_getUncleByBlockHashAndIndex''"
| "method_name (EthGetUncleByBlockNumberAndIndex a) = ''eth_getUncleByBlockNumberAndIndex''"
| "method_name (EthSign a) = ''eth_sign''"
| "method_name (EthSignTransaction a) = ''eth_signTransaction''"
| "method_name (EthUninstallFilter a) = ''eth_uninstallFilter''"
| "method_name (EthGetFilterChanges a) = ''eth_getFilterChanges''"
| "method_name (EthGetFilterLogs a) = ''eth_getFilterLogs''"
| "method_name (EthCall a) = ''eth_call''"
| "method_name (EthEstimateGas a) = ''eth_estimateGas''"
| "method_name (EthSendTransaction a) = ''eth_sendTransaction''"
| "method_name (EthGetLogs a) = ''eth_getLogs''"
| "method_name (EthNewFilter a) = ''eth_newFilter''"

section \<open>Objects\<close>

text \<open>A field that is \<open>None\<close> is left out (\<open>skip_serializing_if\<close>).\<close>

definition opt_field :: "string \<Rightarrow> ('a \<Rightarrow> json) \<Rightarrow> 'a option \<Rightarrow> (string \<times> json) list" where
  "opt_field k f v = (case v of Some x \<Rightarrow> [(k, f x)] | None \<Rightarrow> [])"

definition tx_call_value :: "serializers \<Rightarrow> tx_call_object \<Rightarrow> json" where
  "tx_call_value z t =
     JObj ([(''from'', JStr (sz_address z (tc_from t))), (''to'', JStr (sz_address z (tc_to t))),
            (''input'', JStr (sz_bytes z (tc_input t)))] @
           opt_field ''gas'' (\<lambda>n. JStr (sz_u256 z n)) (tc_gas t) @
           opt_field ''gasPrice'' (\<lambda>n. JStr (sz_u256 z n)) (tc_gas_price t) @
           opt_field ''value'' (\<lambda>n. JStr (sz_u256 z n)) (tc_value t) @
           opt_field ''nonce'' (\<lambda>n. JNum (uint n)) (tc_nonce t))"

definition filter_value :: "serializers \<Rightarrow> log_filter_object \<Rightarrow> json" where
  "filter_value z f =
     JObj (opt_field ''fromBlock'' (\<lambda>b. JStr (sz_block z b)) (lf_from_block f) @
           opt_field ''toBlock'' (\<lambda>b. JStr (sz_block z b)) (lf_to_block f) @
           opt_field ''address'' (\<lambda>a. JStr (sz_address z a)) (lf_address f) @
           opt_field ''topics'' (\<lambda>ts. JArr (map (\<lambda>t. JStr (sz_b256 z t)) ts)) (lf_topics f) @
           opt_field ''blockHash'' (\<lambda>h. JStr (sz_b256 z h)) (lf_block_hash f))"

section \<open>Parameters\<close>

definition push_param :: "json list \<Rightarrow> json \<Rightarrow> json list" where
  "push_param out v = out @ [v]"

definition push_optional :: "('a \<Rightarrow> json) \<Rightarrow> json list \<Rightarrow> 'a option \<Rightarrow> json list" where
  "push_optional f out v = (case v of Some inner \<Rightarrow> push_param out (f inner) | None \<Rightarrow> out)"

definition tx_object_params :: "serializers \<Rightarrow> tx_call_object \<Rightarrow> block_number_or_tag option \<Rightarrow> json list" where
  "tx_object_params z tx block =
     push_optional (\<lambda>b. JStr (sz_block z b)) (push_param [] (tx_call_value z tx)) block"

definition single_param :: "json \<Rightarrow> json list" where
  "single_param v = push_param [] v"

definition addr_block_params :: "serializers \<Rightarrow> address \<Rightarrow> block_number_or_tag option \<Rightarrow> json list" where
  "addr_block_params z address block =
     push_optional (\<lambda>b. JStr (sz_block z b)) (push_param [] (JStr (sz_address z address))) block"

primrec method_params :: "serializers \<Rightarrow> rpc_method_subcommand \<Rightarrow> json list" where
  "method_params z EthBlockNumber = []"
| "method_params z EthChainId = []"
| "method_params z EthGasPrice = []"
| "method_params z EthSyncing = []"
| "method_params z EthAccounts = []"
| "method_params z EthProtocolVersion = []"
| "method_params z EthCoinbase = []"
| "method_params z EthMining = []"
| "method_params z EthHashrate = []"
| "method_params z EthNewBlockFilter = []"
| "method_params z EthNewPendingTransactionFilter = []"
| "method_params z NetVersion = []"
| "method_params z NetListening = []"
| "method_params z NetPeerCount = []"
| "method_params z Web3ClientVersion = []"
| "method_params z (Web3Sha3 a) = single_param (JStr (sz_bytes z (sha_data a)))"
| "method_params z (EthGetBalance a) = addr_block_params z (gb_address a) (gb_block a)"
| "method_params z (EthGetTransactionCount a) = addr_block_params z (gtc_address a) (gtc_block a)"
| "method_params z (EthGetCode a) = addr_block_params z (gc_address a) (gc_block a)"
| "method_params z (EthGetStorageAt a) =
     push_optional (\<lambda>b. JStr (sz_block z b))
       (push_param (push_param [] (JStr (sz_address z (gsa_address a)))) (JStr (sz_u256 z (gsa_position a)))) (gsa_block a)"
| "method_params z (EthGetBlockByNumber a) =
     push_param (push_param [] (JStr (sz_block z (gbn_block a)))) (JBool (gbn_full_txs a))"
| "method_params z (EthGetBlockByHash a) =
     push_param (push_param [] (JStr (sz_b256 z (gbh_hash a)))) (JBool (gbh_full_txs a))"
| "method_params z (EthGetTransactionByHash a) = single_param (JStr (sz_b256 z (gth_hash a)))"
| "method_params z (EthGetTransactionByBlockHashAndIndex a) =
     push_param (push_param [] (JStr (sz_b256 z (tbh_block_hash a)))) (JStr (sz_u256 z (tbh_index a)))"
| "method_params z (EthGetTransactionByBlockNumberAndIndex a) =
     push_param (push_param [] (JStr (sz_block z (tbn_block a)))) (JStr (sz_u256 z (tbn_index a)))"
| "method_params z (EthGetTransactionReceipt a) = single_param (JStr (sz_b256 z (gtr_hash a)))"
| "method_params z (EthGetBlockTransactionCountByNumber a) = single_param (JStr (sz_block z (btn_block a)))"
| "method_params z (EthGetBlockTransactionCountByHash a) = single_param (JStr (sz_b256 z (bth_hash a)))"
| "method_params z (EthGetUncleCountByBlockHash a) = single_param (JStr (sz_b256 z (uch_hash a)))"
| "method_params z (EthGetUncleCountByBlockNumber a) = single_param (JStr (sz_block z (ucn_block a)))"
| "method_params z (EthGetUncleByBlockHashAndIndex a) =
     push_param (push_param [] (JStr (sz_b256 z (ubh_block_hash a)))) (JStr (sz_u256 z (ubh_index a)))"
| "method_params z (EthGetUncleByBlockNumberAndIndex a) =
     push_param (push_param [] (JStr (sz_block z (ubn_block a)))) (JStr (sz_u256 z (ubn_index a)))"
| "method_params z (EthSign a) =
     push_param (push_param [] (JStr (sz_address z (sgn_address a)))) (JStr (sz_bytes z (sgn_message a)))"
| "method_params z (EthSignTransaction a) = tx_object_params z (sgt_tx a) None"
| "method_params z (EthUninstallFilter a) = single_param (JStr (sz_u256 z (unf_filter_id a)))"
| "method_params z (EthGetFilterChanges a) = single_param (JStr (sz_u256 z (gfc_filter_id a)))"
| "method_params z (EthGetFilterLogs a) = single_param (JStr (sz_u256 z (gfl_filter_id a)))"
| "method_params z (EthCall a) = tx_object_params z (cal_tx a) (cal_block a)"
| "method_params z (EthEstimateGas a) = tx_object_params z (est_tx a) (est_block a)"
| "method_params z (EthSendTransaction a) = tx_object_params z (snd_tx a) None"
| "method_params z (EthGetLogs a) = single_param (filter_value z (glg_filter a))"
| "method_params z (EthNewFilter a) = single_param (filter_value z (nwf_filter a))"

definition to_params :: "serializers \<Rightarrow> rpc_method_subcommand \<Rightarrow> json" where
  "to_params z m = JArr (method_params z m)"

section \<open>Lemmas\<close>

text \<open>Every serializer is injective: two different values are written differently.\<close>

definition serializers_ok :: "serializers \<Rightarrow> bool" where
  "serializers_ok z \<longleftrightarrow> inj (sz_address z) \<and> inj (sz_b256 z) \<and> inj (sz_bytes z) \<and> inj (sz_u256 z) \<and> inj (sz_block z)"

fun obj_get :: "json \<Rightarrow> string \<Rightarrow> json option" where
  "obj_get (JObj m) k = map_of m k"
| "obj_get _ k = None"

lemma map_of_opt_field [simp]: "map_of (opt_field k f v) k' = (if k = k' then map_option f v else None)"
  by (simp add: opt_field_def split: option.splits)

lemma map_option_inj: "\<forall>x y. f x = f y \<longrightarrow> x = y \<Longrightarrow> map_option f v = map_option f w \<longleftrightarrow> v = w"
  by (cases v; cases w) auto

lemma serializers_inj:
  assumes "serializers_ok z"
  shows "sz_address z a = sz_address z a' \<longleftrightarrow> a = a'" "sz_b256 z h = sz_b256 z h' \<longleftrightarrow> h = h'"
    "sz_bytes z bs = sz_bytes z bs' \<longleftrightarrow> bs = bs'" "sz_u256 z n = sz_u256 z n' \<longleftrightarrow> n = n'"
    "sz_block z b = sz_block z b' \<longleftrightarrow> b = b'"
  using assms by (auto simp: serializers_ok_def inj_eq)

lemma topics_inj:
  assumes "serializers_ok z"
  shows "map (\<lambda>t. JStr (sz_b256 z t)) ts = map (\<lambda>t. JStr (sz_b256 z t)) ts' \<longleftrightarrow> ts = ts'"
  using assms by (intro inj_map_eq_map) (simp add: serializers_inj inj_def)

lemma tx_call_value_fields:
  "obj_get (tx_call_value z t) ''from'' = Some (JStr (sz_address z (tc_from t)))"
  "obj_get (tx_call_value z t) ''to'' = Some (JStr (sz_address z (tc_to t)))"
  "obj_get (tx_call_value z t) ''input'' = Some (JStr (sz_bytes z (tc_input t)))"
  "obj_get (tx_call_value z t) ''gas'' = map_option (\<lambda>n. JStr (sz_u256 z n)) (tc_gas t)"
  "obj_get (tx_call_value z t) ''gasPrice'' = map_option (\<lambda>n. JStr (sz_u256 z n)) (tc_gas_price t)"
  "obj_get (tx_call_value z t) ''value'' = map_option (\<lambda>n. JStr (sz_u256 z n)) (tc_value t)"
  "obj_get (tx_call_value z t) ''nonce'' = map_option (\<lambda>n. JNum (uint n)) (tc_nonce t)"
  by (simp_all add: tx_call_value_def map_add_def split: option.splits)

lemma filter_value_fields:
  "obj_get (filter_value z f) ''fromBlock'' = map_option (\<lambda>b. JStr (sz_block z b)) (lf_from_block f)"
  "obj_get (filter_value z f) ''toBlock'' = map_option (\<lambda>b. JStr (sz_block z b)) (lf_to_block f)"
  "obj_get (filter_value z f) ''address'' = map_option (\<lambda>a. JStr (sz_address z a)) (lf_address f)"
  "obj_get (filter_value z f) ''topics'' = map_option (\<lambda>ts. JArr (map (\<lambda>t. JStr (sz_b256 z t)) ts)) (lf_topics f)"
  "obj_get (filter_value z f) ''blockHash'' = map_option (\<lambda>h. JStr (sz_b256 z h)) (lf_block_hash f)"
  by (simp_all add: filter_value_def map_add_def split: option.splits)

lemma tx_call_value_inj:
  assumes "serializers_ok z"
  shows "tx_call_value z t = tx_call_value z u \<longleftrightarrow> t = (u :: tx_call_object)"
proof
  assume "tx_call_value z t = tx_call_value z u"
  then have "obj_get (tx_call_value z t) k = obj_get (tx_call_value z u) k" for k by simp
  from this [of "''from''"] this [of "''to''"] this [of "''input''"] this [of "''gas''"]
    this [of "''gasPrice''"] this [of "''value''"] this [of "''nonce''"]
  show "t = u"
    by (intro tx_call_object.equality)
       (simp_all add: tx_call_value_fields map_option_inj serializers_inj [OF assms] word_uint_eq_iff [symmetric])
qed simp

lemma filter_value_inj:
  assumes "serializers_ok z"
  shows "filter_value z f = filter_value z g \<longleftrightarrow> f = (g :: log_filter_object)"
proof
  assume "filter_value z f = filter_value z g"
  then have "obj_get (filter_value z f) k = obj_get (filter_value z g) k" for k by simp
  from this [of "''fromBlock''"] this [of "''toBlock''"] this [of "''address''"] this [of "''topics''"]
    this [of "''blockHash''"]
  show "f = g"
    by (intro log_filter_object.equality)
       (simp_all add: filter_value_fields map_option_inj serializers_inj [OF assms] topics_inj [OF assms])
qed simp

lemma push_optional_inj:
  assumes "\<forall>x y. f x = f y \<longrightarrow> x = y"
  shows "push_optional f [a] v = push_optional f [b] w \<longleftrightarrow> a = b \<and> v = w"
    "push_optional f [a, c] v = push_optional f [b, d] w \<longleftrightarrow> a = b \<and> c = d \<and> v = w"
  using assms by (auto simp: push_optional_def push_param_def split: option.splits)

lemmas args_equality =
  eth_get_balance_args.equality eth_get_transaction_count_args.equality
  eth_get_code_args.equality eth_get_storage_at_args.equality
  eth_get_block_by_number_args.equality eth_get_block_by_hash_args.equality
  eth_get_transaction_by_hash_args.equality eth_get_transaction_receipt_args.equality
  eth_get_block_transaction_count_by_number_args.equality
  eth_get_block_transaction_count_by_hash_args.equality web3_sha3_args.equality
  eth_sign_args.equality eth_sign_transaction_args.equality
  eth_get_transaction_by_block_hash_and_index_args.equality
  eth_get_transaction_by_block_number_and_index_args.equality
  eth_get_uncle_count_by_block_hash_args.equality
  eth_get_uncle_count_by_block_number_args.equality
  eth_get_uncle_by_block_hash_and_index_args.equality
  eth_get_uncle_by_block_number_and_index_args.equality
  eth_uninstall_filter_args.equality eth_get_filter_changes_args.equality
  eth_get_filter_logs_args.equality eth_new_filter_args.equality eth_call_args.equality
  eth_estimate_gas_args.equality eth_send_transaction_args.equality
  eth_get_logs_args.equality

lemmas params_defs = push_param_def single_param_def addr_block_params_def tx_object_params_def

section \<open>Theorems\<close>

text \<open>
  The request determines the command: two subcommands that send the same method with the same
  parameters are equal, so no argument is lost or confused on the way to the node.
\<close>

theorem request_determines_subcommand:
  assumes "serializers_ok z" and "method_name m = method_name m'" and "to_params z m = to_params z m'"
  shows "m = m'"
proof -
  note inj = serializers_inj [OF assms(1)] tx_call_value_inj [OF assms(1)] filter_value_inj [OF assms(1)]
  have opt: "push_optional (\<lambda>b. JStr (sz_block z b)) [a] v = push_optional (\<lambda>b. JStr (sz_block z b)) [b] w
      \<longleftrightarrow> a = b \<and> v = w"
    "push_optional (\<lambda>b. JStr (sz_block z b)) [a, c] v = push_optional (\<lambda>b. JStr (sz_block z b)) [b, d] w
      \<longleftrightarrow> a = b \<and> c = d \<and> v = w" for a b c d v w
    by (simp_all add: push_optional_inj inj)
  from assms(2,3) show ?thesis
    by (cases m; cases m'; simp add: to_params_def params_defs opt inj; auto intro!: args_equality)
qed

definition decimal_serializers :: serializers where
  "decimal_serializers =
     \<lparr>sz_address = \<lambda>a. show_nat (unat a), sz_b256 = \<lambda>h. show_nat (unat h),
      sz_bytes = map (\<lambda>b. char_of (unat b)), sz_u256 = \<lambda>n. show_nat (unat n),
      sz_block = \<lambda>b. case b of
          Latest \<Rightarrow> ''latest'' | Finalized \<Rightarrow> ''finalized'' | Safe \<Rightarrow> ''safe'' | Earliest \<Rightarrow> ''earliest''
        | Pending \<Rightarrow> ''pending'' | Number n \<Rightarrow> CHR ''#'' # show_nat (unat n)\<rparr>"

lemma show_nat_inj: "show_nat m = show_nat n \<longleftrightarrow> m = n"
  by (metis digits_val_show_nat)

lemma decimal_serializers_ok: "serializers_ok decimal_serializers"
proof -
  have "inj (\<lambda>b :: u8. char_of (unat b) :: char)"
  proof (rule injI)
    fix a b :: u8
    assume "(char_of (unat a) :: char) = char_of (unat b)"
    then have "unat a mod 256 = unat b mod 256" by (metis of_char_of)
    moreover have "unat a < 256" "unat b < 256" using unsigned_less [of a] unsigned_less [of b] by simp_all
    ultimately show "a = b" by (simp add: word_unat_eq_iff)
  qed
  then have "inj (map (\<lambda>b :: u8. char_of (unat b) :: char))" by simp
  then show ?thesis
    by (auto simp: serializers_ok_def decimal_serializers_def inj_def show_nat_inj word_unat_eq_iff [symmetric]
        split: block_number_or_tag.splits)
qed

theorem request_determines_subcommand_witness:
  "to_params decimal_serializers (EthGetBalance \<lparr>gb_address = 1, gb_block = Some Latest\<rparr>) \<noteq>
   to_params decimal_serializers (EthGetBalance \<lparr>gb_address = 1, gb_block = None\<rparr>)"
  using request_determines_subcommand [OF decimal_serializers_ok,
      of "EthGetBalance \<lparr>gb_address = 1, gb_block = Some Latest\<rparr>" "EthGetBalance \<lparr>gb_address = 1, gb_block = None\<rparr>"]
  by auto

end
