(* ===== verification/Rpc_Command.thy ===== *)
theory Rpc_Command
  imports Rpc_Method Cli_Spam Report_Command Sqlite_Db
begin

text \<open>
  The command \<open>contender rpc\<close> (\<open>run_rpc_spam\<close> of \<open>crates/cli/src/commands/rpc.rs\<close>): it sends one
  request at a fixed rate, counts the answers, and stores the run with the latency metrics.  Also
  the logging layer of the RPC client (\<open>crates/core/src/provider.rs\<close>), the latency metrics of a
  Prometheus registry (\<open>crates/core/src/buckets.rs\<close>) and the report of such a run.

  The node, the clock and the content of the Prometheus registry are the record \<open>rpc_env\<close>; the
  database is the model of the SQLite store.
\<close>

section \<open>Metrics\<close>

record metric_bucket =
  mb_upper_bound :: f64
  mb_cumulative_count :: "u64 option"

record latency_metric =
  lm_labels :: "(string \<times> string) list"
  lm_buckets :: "metric_bucket list"
  lm_sample_count :: u64
  lm_sample_sum :: f64

record metric_family =
  mf_name :: string
  mf_metrics :: "latency_metric list"

definition RPC_REQUEST_LATENCY_ID :: string where
  "RPC_REQUEST_LATENCY_ID = ''rpc_request_latency_seconds''"

definition buckets_of_metric :: "latency_metric \<Rightarrow> bucket list" where
  "buckets_of_metric m =
     List.map_filter (\<lambda>b. map_option (\<lambda>n. bucket_from (mb_upper_bound b, n)) (mb_cumulative_count b)) (lm_buckets m)"

definition collect_metric :: "(string \<times> bucket list) list \<Rightarrow> latency_metric \<Rightarrow> (string \<times> bucket list) list" where
  "collect_metric latency_map m =
     (case lm_labels m of
        [] \<Rightarrow> latency_map
      | (name, value) # _ \<Rightarrow>
          if name \<noteq> ''rpc_method'' then latency_map else bt_insert value (buckets_of_metric m) latency_map)"

definition collect_latency_from_registry :: "metric_family list \<Rightarrow> (string \<times> bucket list) list" where
  "collect_latency_from_registry families =
     foldl (\<lambda>latency_map mf. if mf_name mf \<noteq> RPC_REQUEST_LATENCY_ID then latency_map
                             else foldl collect_metric latency_map (mf_metrics mf)) [] families"

definition collect_latency_metrics :: "metric_family list option \<Rightarrow> (string \<times> bucket list) list" where
  "collect_latency_metrics registry =
     (case registry of Some families \<Rightarrow> collect_latency_from_registry families | None \<Rightarrow> [])"

subsection \<open>The logging layer\<close>

text \<open>
  A request of the client: one method, or a batch.  The latency of an answered request is observed
  under its method; that of a batch under the empty name.  \<open>histogram\<close> is the list of the observed
  label and seconds, \<open>None\<close> while the metrics are not initialised.
\<close>

datatype request_packet = Single string | Batch

definition logged_method :: "request_packet \<Rightarrow> string" where
  "logged_method req = (case req of Single m \<Rightarrow> m | Batch \<Rightarrow> [])"

definition call ::
  "request_packet \<Rightarrow> ('r, 'e) rresult \<Rightarrow> f64 \<Rightarrow> (string \<times> f64) list option
    \<Rightarrow> (string \<times> f64) list option \<times> ('r, 'e) rresult" where
  "call req answer elapsed histogram =
     ((case answer of Ok _ \<Rightarrow> map_option (\<lambda>h. h @ [(logged_method req, elapsed)]) histogram | _ \<Rightarrow> histogram), answer)"

text \<open>A second initialisation leaves the metrics of the first in place.\<close>

definition init_metrics :: "(string \<times> f64) list option \<Rightarrow> (string \<times> f64) list option" where
  "init_metrics histogram = (case histogram of None \<Rightarrow> Some [] | Some h \<Rightarrow> Some h)"

section \<open>The printed latency\<close>

record latency_summary =
  ls_count :: u64
  ls_avg :: f64
  ls_quantiles :: "(string \<times> f64) list"

definition summary_of :: "latency_metric \<Rightarrow> latency_summary" where
  "summary_of m =
     (let count = lm_sample_count m
      in \<lparr>ls_count = count, ls_avg = f64_div (lm_sample_sum m) (f64_of_u64 count),
          ls_quantiles = List.map_filter (\<lambda>(label, quantile).
              let target = f64_to_u64 (f64_mul quantile (f64_of_u64 count))
              in map_option (\<lambda>b. (label, mb_upper_bound b))
                   (List.find (\<lambda>b. target \<le> (case mb_cumulative_count b of Some n \<Rightarrow> n | None \<Rightarrow> 0)) (lm_buckets m)))
            [(''p50'', f64_of_rat (5 / 10)), (''p90'', f64_of_rat (9 / 10)),
             (''p95'', f64_of_rat (95 / 100)), (''p99'', f64_of_rat (99 / 100))]\<rparr>)"

text \<open>A metric of the method with no sample ends the output.\<close>

fun print_latency_summary :: "string \<Rightarrow> latency_metric list \<Rightarrow> latency_summary list" where
  "print_latency_summary rpc_method [] = []"
| "print_latency_summary rpc_method (m # ms) =
     (if \<not> list_ex (\<lambda>(name, value). name = ''rpc_method'' \<and> value = rpc_method) (lm_labels m)
      then print_latency_summary rpc_method ms
      else if lm_sample_count m = 0 then []
      else summary_of m # print_latency_summary rpc_method ms)"

section \<open>The report\<close>

record rpc_report_metadata =
  rm_method :: string
  rm_rpc_url :: string
  rm_run_id :: u64
  rm_rps :: u64
  rm_duration_secs :: u64
  rm_total_requests :: u64
  rm_success_count :: u64
  rm_error_count :: u64
  rm_latency_quantiles :: rpc_latency_quantiles
  rm_latency_chart :: latency_data

record report_files =
  rf_env :: fs_env
  rf_render :: "rpc_report_metadata \<Rightarrow> (string, string) rresult"
  rf_browser_none :: bool
  rf_open :: "string \<Rightarrow> (unit, string) rresult"

definition build_rpc_html_report ::
  "report_files \<Rightarrow> rpc_report_metadata \<Rightarrow> string \<Rightarrow> (fs, string, string) action" where
  "build_rpc_html_report io meta reports_dir m =
     (case rf_render io meta of
        Ok html \<Rightarrow>
          (let path = path_join reports_dir (''rpc-report-'' @ show_nat (unat (rm_run_id meta)) @ ''.html'')
           in if fv_write_fails (rf_env io) then (m, Err ''write'') else (hm_insert path (File html) m, Ok path))
      | Err e \<Rightarrow> (m, Err e)
      | Panic \<Rightarrow> (m, Panic))"

definition ensure_reports_dir :: "report_files \<Rightarrow> string \<Rightarrow> (fs, unit, string) action" where
  "ensure_reports_dir io reports_dir m =
     (if path_exists m reports_dir then (m, Ok ())
      else case create_dir_all (rf_env io) reports_dir m of
             Ok m' \<Rightarrow> (m', Ok ()) | Err e \<Rightarrow> (m, Err ''create_dir_all'') | Panic \<Rightarrow> (m, Panic))"

definition report_rpc :: "report_files \<Rightarrow> rpc_report_metadata \<Rightarrow> string \<Rightarrow> (fs, unit, string) action" where
  "report_rpc io meta data_dir =
     (let reports_dir = path_join data_dir ''reports''
      in sbind (ensure_reports_dir io reports_dir) (\<lambda>_.
         sbind (build_rpc_html_report io meta reports_dir) (\<lambda>report_path.
         if rf_browser_none io then sreturn () else slift (rf_open io report_path))))"

section \<open>The command\<close>

record rpc_cli_args =
  ra_rpc_url :: string
  ra_rps :: u64
  ra_duration :: u64
  ra_gen_report :: bool
  ra_method :: rpc_method_subcommand

datatype task_result = TaskAnswer json | TaskRpcError string | TaskJoinError string

record rpc_env =
  re_serializers :: serializers
  re_answer :: "string \<Rightarrow> json \<Rightarrow> nat \<Rightarrow> task_result"
  re_registry :: "task_result list \<Rightarrow> metric_family list option"
  re_collected :: "task_result list \<Rightarrow> latency_metric list"
  re_now_secs :: u64
  re_sql :: sql_env
  re_float_literal :: "f64 \<Rightarrow> f64 option"
  re_exec_raw :: raw_sql
  re_latency_statement :: "string \<Rightarrow> bucket \<Rightarrow> string"
  re_files :: report_files

text \<open>
  \<open>Duration::from_secs_f64\<close> in nanoseconds: it panics on a value that is not finite, is negative or
  does not fit, and rounds to the nearest nanosecond.
\<close>

fun from_secs_f64 :: "f64 \<Rightarrow> (nat, 'e) rresult" where
  "from_secs_f64 (Fin x) =
     (if x < 0 \<or> 2 ^ 64 \<le> x then Panic else Ok (nat (round_half_even (x * 10 ^ 9))))"
| "from_secs_f64 _ = Panic"

text \<open>The ticker of the run: \<open>tokio::time::interval\<close> panics on a period of zero.\<close>

definition request_interval :: "u64 \<Rightarrow> (nat, 'e) rresult" where
  "request_interval rps =
     rbind (from_secs_f64 (f64_div (Fin 1) (f64_of_u64 rps))) (\<lambda>period. if period = 0 then Panic else Ok period)"

definition run_requests :: "rpc_env \<Rightarrow> string \<Rightarrow> json \<Rightarrow> u64 \<Rightarrow> task_result list" where
  "run_requests env rpc_method params count = map (re_answer env rpc_method params) [0..<unat count]"

fun join_result :: "u64 \<times> u64 \<Rightarrow> task_result \<Rightarrow> u64 \<times> u64" where
  "join_result (success, errors) (TaskAnswer v) = (success + 1, errors)"
| "join_result (success, errors) (TaskRpcError e) = (success, errors + 1)"
| "join_result (success, errors) (TaskJoinError e) = (success, errors + 1)"

record rpc_world =
  wd_db :: sqlite_db
  wd_fs :: fs
  wd_printed :: "(string \<times> u64 \<times> u64 \<times> u64 \<times> latency_summary list) list"

definition rpc_run_request :: "rpc_env \<Rightarrow> rpc_cli_args \<Rightarrow> string \<Rightarrow> spam_run_request" where
  "rpc_run_request env args rpc_method =
     \<lparr>srq_timestamp = re_now_secs env, srq_tx_count = 0, srq_scenario_name = ''rpc:'' @ rpc_method,
      srq_campaign_id = None, srq_campaign_name = None, srq_stage_name = None,
      srq_rpc_url = ra_rpc_url args, srq_txs_per_duration = ra_rps args,
      srq_duration = Seconds (ra_duration args), srq_pending_timeout_secs = 0\<rparr>"

definition to_ms_round :: "f64 \<Rightarrow> u64" where
  "to_ms_round v = f64_to_u64 (f64_round (f64_mul v (Fin 1000)))"

definition rpc_metadata ::
  "rpc_cli_args \<Rightarrow> string \<Rightarrow> u64 \<Rightarrow> u64 \<Rightarrow> u64 \<Rightarrow> u64 \<Rightarrow> (string \<times> bucket list) list \<Rightarrow> rpc_report_metadata" where
  "rpc_metadata args rpc_method run_id count success errors latency_map =
     (let buckets = (case map_of latency_map rpc_method of Some bs \<Rightarrow> bs | None \<Rightarrow> [])
      in \<lparr>rm_method = rpc_method, rm_rpc_url = ra_rpc_url args, rm_run_id = run_id, rm_rps = ra_rps args,
          rm_duration_secs = ra_duration args, rm_total_requests = count, rm_success_count = success,
          rm_error_count = errors,
          rm_latency_quantiles =
            \<lparr>rl_p50 = to_ms_round (estimate_quantile buckets (f64_of_rat (5 / 10))),
             rl_p90 = to_ms_round (estimate_quantile buckets (f64_of_rat (9 / 10))),
             rl_p99 = to_ms_round (estimate_quantile buckets (f64_of_rat (99 / 100))), rl_method = rpc_method\<rparr>,
          rm_latency_chart = latency_echart buckets\<rparr>)"

definition store_rpc_run ::
  "rpc_env \<Rightarrow> rpc_cli_args \<Rightarrow> string \<Rightarrow> (string \<times> bucket list) list \<Rightarrow> (rpc_world, u64, cli_error) action" where
  "store_rpc_run env args rpc_method latency_map w =
     (case insert_run (re_sql env) (wd_db w) (rpc_run_request env args rpc_method) of
        Ok (d, run_id) \<Rightarrow>
          (case insert_latency_metrics (re_sql env) (re_float_literal env) (re_exec_raw env)
                  (re_latency_statement env) d run_id latency_map of
             Ok d' \<Rightarrow> (w\<lparr>wd_db := d'\<rparr>, Ok run_id)
           | Err e \<Rightarrow> (w\<lparr>wd_db := d\<rparr>, Err (CliDb e))
           | Panic \<Rightarrow> (w\<lparr>wd_db := d\<rparr>, Panic))
      | Err e \<Rightarrow> (w, Err (CliDb e))
      | Panic \<Rightarrow> (w, Panic))"

definition report_run :: "rpc_env \<Rightarrow> string \<Rightarrow> rpc_report_metadata \<Rightarrow> (rpc_world, unit, cli_error) action" where
  "report_run env data_dir meta w =
     (case report_rpc (re_files env) meta data_dir (wd_fs w) of
        (m, r) \<Rightarrow> (w\<lparr>wd_fs := m\<rparr>, rmap_err CliReport r))"

definition run_rpc_spam :: "rpc_env \<Rightarrow> string \<Rightarrow> rpc_cli_args \<Rightarrow> (rpc_world, unit, cli_error) action" where
  "run_rpc_spam env data_dir args =
     (let rpc_method = method_name (ra_method args);
          params = to_params (re_serializers env) (ra_method args);
          count = ra_rps args * ra_duration args
      in sbind (slift (request_interval (ra_rps args))) (\<lambda>_.
         let results = run_requests env rpc_method params count;
             (success, errors) = foldl join_result (0, 0) results;
             latency_map = collect_latency_metrics (re_registry env results)
         in sbind (supdate (\<lambda>w. w\<lparr>wd_printed := wd_printed w @
                     [(rpc_method, count, success, errors,
                       print_latency_summary rpc_method (re_collected env results))]\<rparr>)) (\<lambda>_.
            sbind (store_rpc_run env args rpc_method latency_map) (\<lambda>run_id.
            if ra_gen_report args
            then report_run env data_dir (rpc_metadata args rpc_method run_id count success errors latency_map)
            else sreturn ()))))"

section \<open>Lemmas\<close>

lemma join_result_count:
  "fst (foldl join_result (s, e) rs) + snd (foldl join_result (s, e) rs) = s + e + word_of_nat (length rs)"
proof (induction rs arbitrary: s e)
  case (Cons r rs)
  obtain s' e' where j: "join_result (s, e) r = (s', e')" by fastforce
  then have "s' + e' = s + e + 1" by (cases r) (auto simp: algebra_simps)
  with Cons [of s' e'] j show ?case by (simp add: algebra_simps)
qed simp

definition latency_row :: "u64 \<Rightarrow> string \<Rightarrow> bucket \<Rightarrow> latency_row" where
  "latency_row run_id rpc_method b =
     \<lparr>lt_run_id = unat run_id, lt_upper_bound_secs = upper_bound b,
      lt_count = sql_literal (cumulative_count b), lt_method = rpc_method\<rparr>"

text \<open>Metrics that SQLite stores as they are.\<close>

definition storable_metrics :: "(f64 \<Rightarrow> f64 option) \<Rightarrow> (string \<times> bucket list) list \<Rightarrow> bool" where
  "storable_metrics float_literal metrics \<longleftrightarrow>
     list_all (\<lambda>(rpc_method, bs). plain_text rpc_method \<and>
       list_all (\<lambda>b. float_literal (upper_bound b) = Some (upper_bound b) \<and> unat (cumulative_count b) < 2 ^ 63) bs) metrics"

definition latency_rows :: "u64 \<Rightarrow> (string \<times> bucket list) list \<Rightarrow> latency_row list" where
  "latency_rows run_id metrics = concat (map (\<lambda>(rpc_method, bs). map (latency_row run_id rpc_method) bs) metrics)"

lemma exec_latency_rows:
  assumes "plain_text rpc_method"
    and "list_all (\<lambda>b. float_literal (upper_bound b) = Some (upper_bound b) \<and> unat (cumulative_count b) < 2 ^ 63) bs"
    and "rfoldl (exec_latency e float_literal exec_raw statement run_id rpc_method) d bs = Ok d'"
  shows "d' = d\<lparr>tbl_latency := tbl_latency d @ map (latency_row run_id rpc_method) bs\<rparr>"
  using assms(2,3)
proof (induction bs arbitrary: d)
  case (Cons b bs)
  from Cons.prems obtain d1 where d1: "exec_latency e float_literal exec_raw statement run_id rpc_method d b = Ok d1"
    and rest: "rfoldl (exec_latency e float_literal exec_raw statement run_id rpc_method) d1 bs = Ok d'" by auto
  have "d1 = d\<lparr>tbl_latency := tbl_latency d @ [latency_row run_id rpc_method b]\<rparr>"
    using d1 assms(1) Cons.prems(1) by (auto simp: exec_latency_def latency_row_def split: if_splits)
  with Cons.IH [OF _ rest] Cons.prems(1) show ?case by simp
qed simp

lemma insert_latency_rows:
  assumes "insert_latency_metrics e float_literal exec_raw statement d run_id metrics = Ok d'"
    and "storable_metrics float_literal metrics"
  shows "d' = d\<lparr>tbl_latency := tbl_latency d @ latency_rows run_id metrics\<rparr>"
proof -
  have "rfoldl (\<lambda>d (rpc_method, buckets).
      rfoldl (exec_latency e float_literal exec_raw statement run_id rpc_method) d buckets) d metrics = Ok d'"
    using assms(1) by (simp add: insert_latency_metrics_def)
  then show ?thesis using assms(2)
  proof (induction metrics arbitrary: d)
    case (Cons x metrics)
    obtain rpc_method bs where x: "x = (rpc_method, bs)" by fastforce
    with Cons.prems obtain d1
      where d1: "rfoldl (exec_latency e float_literal exec_raw statement run_id rpc_method) d bs = Ok d1"
        and rest: "rfoldl (\<lambda>d (rpc_method, buckets).
          rfoldl (exec_latency e float_literal exec_raw statement run_id rpc_method) d buckets) d1 metrics = Ok d'" by auto
    have ok: "plain_text rpc_method"
      "list_all (\<lambda>b. float_literal (upper_bound b) = Some (upper_bound b) \<and> unat (cumulative_count b) < 2 ^ 63) bs"
      "storable_metrics float_literal metrics" using Cons.prems(2) x by (auto simp: storable_metrics_def)
    from Cons.IH [OF rest ok(3)] exec_latency_rows [OF ok(1,2) d1] x
    show ?case by (simp add: latency_rows_def)
  qed (simp add: latency_rows_def)
qed

lemma read_latency_rows:
  assumes "storable_metrics float_literal metrics"
  shows "rmapM (\<lambda>r. rmap (\<lambda>n. bucket_from (lt_upper_bound_secs r, n)) (get_u64 (lt_count r)))
      (filter (\<lambda>r. lt_method r = rpc_method) (latency_rows run_id metrics))
    = (Ok (concat (map snd (filter (\<lambda>(k, _). k = rpc_method) metrics))) :: (_, sqlite_error) rresult)"
  using assms
proof (induction metrics)
  case (Cons x metrics)
  obtain k bs where x: "x = (k, bs)" by fastforce
  have bucket: "rmap (\<lambda>n. bucket_from (lt_upper_bound_secs (latency_row run_id k b), n)) (get_u64 (lt_count (latency_row run_id k b)))
      = (Ok b :: (_, sqlite_error) rresult)" if "b \<in> set bs" for b
    using Cons.prems that x
    by (simp add: storable_metrics_def list_all_iff latency_row_def sql_literal_def rmap_def bucket_from_def bucket_new_def)
  have here: "rmapM (\<lambda>r. rmap (\<lambda>n. bucket_from (lt_upper_bound_secs r, n)) (get_u64 (lt_count r)))
      (map (latency_row run_id k) bs) = (Ok bs :: (_, sqlite_error) rresult)"
    using bucket by (induction bs) (simp_all add: rmap_def)
  have same: "filter (\<lambda>r. lt_method r = rpc_method) (map (latency_row run_id k) bs)
      = (if k = rpc_method then map (latency_row run_id k) bs else [])"
    by (induction bs) (simp_all add: latency_row_def)
  have "storable_metrics float_literal metrics" using Cons.prems by (simp add: storable_metrics_def)
  then show ?case
    using Cons.IH here by (auto simp: x latency_rows_def same rmapM_append rmap_def)
qed (simp add: latency_rows_def)

text \<open>The collected map has each method once.\<close>

lemma collect_latency_wf: "bt_wf (collect_latency_metrics registry)"
proof -
  have metric: "bt_wf m \<Longrightarrow> bt_wf (collect_metric m x)" for m x
    by (auto simp: collect_metric_def split: list.splits)
  have metrics: "bt_wf m \<Longrightarrow> bt_wf (foldl collect_metric m xs)" for m xs
    by (induction xs arbitrary: m) (simp_all add: metric)
  have "bt_wf m \<Longrightarrow> bt_wf (foldl (\<lambda>m mf. if mf_name mf \<noteq> RPC_REQUEST_LATENCY_ID then m
      else foldl collect_metric m (mf_metrics mf)) m fs)" for m and fs :: "metric_family list"
    by (induction fs arbitrary: m) (simp_all add: metrics)
  from this [OF bt_wf_Nil(1)] show ?thesis
    unfolding collect_latency_metrics_def collect_latency_from_registry_def by (simp split: option.split)
qed

lemma bt_wf_lookup:
  assumes "bt_wf m"
  shows "concat (map snd (filter (\<lambda>(k, _). k = x) m)) = (case map_of m x of Some v \<Rightarrow> v | None \<Rightarrow> [])"
proof -
  have "distinct (map fst m)" using assms by (simp add: bt_wf_def strict_sorted_iff)
  then show ?thesis
  proof (induction m)
    case (Cons p m)
    obtain k v where p: "p = (k, v)" by fastforce
    have "filter (\<lambda>(k', _). k' = k) m = []" using Cons.prems p by (force simp: filter_empty_conv)
    with Cons p show ?case by auto
  qed simp
qed

text \<open>
  A database with all tables, whose runs are numbered, and whose latency rows belong to runs.
\<close>

definition rpc_db_ok :: "sql_env \<Rightarrow> sqlite_db \<Rightarrow> bool" where
  "rpc_db_ok e d \<longleftrightarrow> db_inv d \<and> other_last_rowid e = None \<and> length (tbl_runs d) < 2 ^ 62 \<and>
     ''latency'' \<in> set (tables d) \<and> list_all (\<lambda>r. lt_run_id r \<le> length (tbl_runs d)) (tbl_latency d)"

lemma insert_run_effect:
  assumes "insert_run e d r = Ok (d', i)" and "rpc_db_ok e d"
  shows "pool_available e \<and> tables d' = tables d \<and> tbl_latency d' = tbl_latency d
    \<and> unat i = Suc (length (tbl_runs d)) \<and> unat i < 2 ^ 63"
proof -
  have ids: "next_rowid (map rw_id (tbl_runs d)) = Suc (length (tbl_runs d))"
    using assms(2) by (simp add: rpc_db_ok_def db_inv_def next_rowid_from_1)
  have "unat (word_of_nat (Suc (length (tbl_runs d))) :: u64) = Suc (length (tbl_runs d))"
    using assms(2) by (simp only: unat_of_nat) (simp add: rpc_db_ok_def)
  then show ?thesis using assms ids by (auto simp: insert_run_def rpc_db_ok_def Let_def)
qed

lemma stored_run:
  assumes "store_rpc_run env args rpc_method latency_map w = (w', Ok run_id)"
    and "rpc_db_ok (re_sql env) (wd_db w)" and "storable_metrics (re_float_literal env) latency_map"
  obtains d1 where "insert_run (re_sql env) (wd_db w) (rpc_run_request env args rpc_method) = Ok (d1, run_id)"
    and "wd_db w' = d1\<lparr>tbl_latency := tbl_latency (wd_db w) @ latency_rows run_id latency_map\<rparr>"
proof -
  from assms(1) obtain d1 d' where ins: "insert_run (re_sql env) (wd_db w) (rpc_run_request env args rpc_method) = Ok (d1, run_id)"
    and lat: "insert_latency_metrics (re_sql env) (re_float_literal env) (re_exec_raw env) (re_latency_statement env)
        d1 run_id latency_map = Ok d'"
    and w': "wd_db w' = d'"
    by (auto simp: store_rpc_run_def split: rresult.splits)
  with insert_latency_rows [OF lat assms(3)] insert_run_effect [OF ins assms(2)] that show thesis by simp
qed

lemma stored_run_row:
  assumes "store_rpc_run env args rpc_method latency_map w = (w', Ok run_id)"
    and "rpc_db_ok (re_sql env) (wd_db w)" and "storable_metrics (re_float_literal env) latency_map"
  shows "get_run (re_sql env) (wd_db w') run_id = Ok (Some
    \<lparr>sr_id = run_id, sr_timestamp = re_now_secs env, sr_tx_count = 0,
     sr_scenario_name = ''rpc:'' @ rpc_method, sr_campaign_id = None, sr_campaign_name = None,
     sr_stage_name = None, sr_rpc_url = ra_rpc_url args, sr_txs_per_duration = ra_rps args,
     sr_duration = Seconds (ra_duration args), sr_timeout = 0\<rparr>)"
proof -
  from stored_run [OF assms] obtain d1
    where ins: "insert_run (re_sql env) (wd_db w) (rpc_run_request env args rpc_method) = Ok (d1, run_id)"
    and w': "wd_db w' = d1\<lparr>tbl_latency := tbl_latency (wd_db w) @ latency_rows run_id latency_map\<rparr>" .
  have "get_run (re_sql env) (wd_db w') run_id = get_run (re_sql env) d1 run_id"
    by (simp add: w' get_run_def on_table_def)
  then show ?thesis using run_roundtrip [OF _ ins] assms(2) by (simp add: rpc_db_ok_def rpc_run_request_def)
qed

lemma stored_latency:
  assumes "store_rpc_run env args rpc_method latency_map w = (w', Ok run_id)"
    and "rpc_db_ok (re_sql env) (wd_db w)" and "storable_metrics (re_float_literal env) latency_map"
    and "bt_wf latency_map"
  shows "get_latency_metrics (re_sql env) (wd_db w') run_id m
    = Ok (case map_of latency_map m of Some bs \<Rightarrow> bs | None \<Rightarrow> [])"
proof -
  from stored_run [OF assms(1-3)] obtain d1
    where ins: "insert_run (re_sql env) (wd_db w) (rpc_run_request env args rpc_method) = Ok (d1, run_id)"
    and w': "wd_db w' = d1\<lparr>tbl_latency := tbl_latency (wd_db w) @ latency_rows run_id latency_map\<rparr>" .
  note eff = insert_run_effect [OF ins assms(2)]
  have "filter (\<lambda>r. lt_run_id r = unat run_id \<and> lt_method r = m) (tbl_latency (wd_db w)) = []"
    using eff assms(2) by (auto simp: filter_empty_conv rpc_db_ok_def list_all_iff)
  moreover have "filter (\<lambda>r. lt_run_id r = unat run_id \<and> lt_method r = m) (latency_rows run_id latency_map)
      = filter (\<lambda>r. lt_method r = m) (latency_rows run_id latency_map)"
    by (rule filter_cong) (auto simp: latency_rows_def latency_row_def)
  ultimately show ?thesis
    using eff assms(2) read_latency_rows [OF assms(3)] bt_wf_lookup [OF assms(4)]
    by (simp add: get_latency_metrics_def w' rpc_db_ok_def sql_param_def)
qed

section \<open>Theorems\<close>

text \<open>
  C27. A finished run of the command is recorded and accounts for every request: the numbers of
  successes and errors that it prints add up to the number of requests, rate times duration; the
  run is stored under a new id with the method in its name, the rate and the duration; and reading
  the latency metrics of that id gives, for every method, the buckets that the registry had at the
  end.  The text of the method names and the bounds of the buckets have to be values that SQLite
  gives back.
\<close>

theorem rpc_run_recorded:
  assumes "rpc_db_ok (re_sql env) (wd_db w)"
    and "results = run_requests env (method_name (ra_method args))
       (to_params (re_serializers env) (ra_method args)) (ra_rps args * ra_duration args)"
    and "latency_map = collect_latency_metrics (re_registry env results)"
    and "storable_metrics (re_float_literal env) latency_map"
    and "run_rpc_spam env data_dir args w = (w', Ok ())"
  shows "length results = unat (ra_rps args * ra_duration args) \<and>
    (\<exists>success errors summary run_id.
      wd_printed w' = wd_printed w @
        [(method_name (ra_method args), ra_rps args * ra_duration args, success, errors, summary)] \<and>
      success + errors = ra_rps args * ra_duration args \<and>
      unat run_id = Suc (length (tbl_runs (wd_db w))) \<and>
      get_run (re_sql env) (wd_db w') run_id = Ok (Some
        \<lparr>sr_id = run_id, sr_timestamp = re_now_secs env, sr_tx_count = 0,
         sr_scenario_name = ''rpc:'' @ method_name (ra_method args), sr_campaign_id = None,
         sr_campaign_name = None, sr_stage_name = None, sr_rpc_url = ra_rpc_url args,
         sr_txs_per_duration = ra_rps args, sr_duration = Seconds (ra_duration args), sr_timeout = 0\<rparr>) \<and>
      (\<forall>m. get_latency_metrics (re_sql env) (wd_db w') run_id m
         = Ok (case map_of latency_map m of Some bs \<Rightarrow> bs | None \<Rightarrow> [])))"
proof -
  let ?m = "method_name (ra_method args)" and ?n = "ra_rps args * ra_duration args"
  obtain success errors where counts: "foldl join_result (0, 0) results = (success, errors)" by fastforce
  have len: "length results = unat ?n" by (simp add: assms(2) run_requests_def)
  let ?w1 = "w\<lparr>wd_printed := wd_printed w @ [(?m, ?n, success, errors,
      print_latency_summary ?m (re_collected env results))]\<rparr>"
  from assms(5) obtain w2 run_id where store: "store_rpc_run env args ?m latency_map ?w1 = (w2, Ok run_id)"
    and rest: "(if ra_gen_report args
         then report_run env data_dir (rpc_metadata args ?m run_id ?n success errors latency_map)
         else sreturn ()) w2 = (w', Ok ())"
    using counts unfolding run_rpc_spam_def Let_def assms(2,3) by simp blast
  have db: "rpc_db_ok (re_sql env) (wd_db ?w1)" using assms(1) by simp
  have same: "wd_db w' = wd_db w2 \<and> wd_printed w' = wd_printed w2"
    using rest by (auto simp: report_run_def split: if_splits prod.splits)
  moreover have "wd_printed w2 = wd_printed ?w1"
    using store by (auto simp: store_rpc_run_def split: rresult.splits)
  moreover have "success + errors = ?n" using join_result_count [of 0 0 results] counts len by simp
  moreover have "unat run_id = Suc (length (tbl_runs (wd_db w)))"
  proof -
    from stored_run [OF store db assms(4)] obtain d1
      where "insert_run (re_sql env) (wd_db ?w1) (rpc_run_request env args ?m) = Ok (d1, run_id)" .
    from insert_run_effect [OF this db] show ?thesis by simp
  qed
  ultimately show ?thesis
    using len stored_run_row [OF store db assms(4)]
      stored_latency [OF store db assms(4) collect_latency_wf [of "re_registry env results", folded assms(3)]]
    by auto
qed

definition demo_metric :: latency_metric where
  "demo_metric = \<lparr>lm_labels = [(''rpc_method'', ''eth_chainId'')],
     lm_buckets = [\<lparr>mb_upper_bound = Fin 1, mb_cumulative_count = Some 2\<rparr>],
     lm_sample_count = 2, lm_sample_sum = Fin 1\<rparr>"

definition demo_rpc_env :: rpc_env where
  "demo_rpc_env =
     \<lparr>re_serializers = decimal_serializers,
      re_answer = \<lambda>rpc_method params i. if i = 0 then TaskAnswer (JStr ''0x1'') else TaskRpcError ''overloaded'',
      re_registry = \<lambda>results. Some [\<lparr>mf_name = RPC_REQUEST_LATENCY_ID, mf_metrics = [demo_metric]\<rparr>],
      re_collected = \<lambda>results. [], re_now_secs = 100, re_sql = demo_env, re_float_literal = Some,
      re_exec_raw = demo_raw, re_latency_statement = \<lambda>m b. [],
      re_files = \<lparr>rf_env = \<lparr>fv_home = None, fv_xdg_state_home = None, fv_data_dir = None,
          fv_create_fails = \<lambda>p. False, fv_rename_fails = False, fv_write_fails = False, fv_read_fails = False\<rparr>,
        rf_render = \<lambda>meta. Ok ''html'', rf_browser_none = True, rf_open = \<lambda>p. Ok ()\<rparr>\<rparr>"

definition demo_call_args :: rpc_cli_args where
  "demo_call_args = \<lparr>ra_rpc_url = ''http://localhost:8545'', ra_rps = 1, ra_duration = 2,
     ra_gen_report = False, ra_method = EthChainId\<rparr>"

definition demo_rpc_world :: rpc_world where
  "demo_rpc_world = \<lparr>wd_db = demo_db, wd_fs = [], wd_printed = []\<rparr>"

lemma request_interval_one: "request_interval 1 = Ok (10 ^ 9)"
proof -
  have "f64_of_rat 1 = Fin 1" using f64_of_rat_exact [of 1 0] by simp
  moreover have "round_half_even (1000000000 :: rat) = 1000000000" using round_half_even_of_int [of 1000000000] by simp
  ultimately show ?thesis by (simp add: request_interval_def f64_of_u64_def)
qed

lemma demo_collected:
  "collect_latency_metrics (re_registry demo_rpc_env results) = [(''eth_chainId'', [bucket_new (Fin 1) 2])]"
  by (simp add: demo_rpc_env_def collect_latency_metrics_def collect_latency_from_registry_def
      collect_metric_def buckets_of_metric_def demo_metric_def bucket_from_def map_filter_def)

lemma demo_rpc_run: "\<exists>w'. run_rpc_spam demo_rpc_env [] demo_call_args demo_rpc_world = (w', Ok ())"
proof -
  have "tbl_latency demo_db = []" by (simp add: demo_db_def create_tables_def new_memory_def)
  then have store: "\<exists>w'. store_rpc_run demo_rpc_env demo_call_args ''eth_chainId'' [(''eth_chainId'', [bucket_new (Fin 1) 2])]
      (demo_rpc_world\<lparr>wd_printed := out\<rparr>) = (w', Ok 1)" for out
    by (simp add: store_rpc_run_def insert_run_def insert_latency_metrics_def exec_latency_def
        rpc_run_request_def demo_rpc_env_def demo_call_args_def demo_tables Let_def sql_param_def next_rowid_def
        get_pool_def plain_text_def demo_rpc_world_def)
  have args: "ra_rps demo_call_args = 1" "ra_duration demo_call_args = 2" "ra_gen_report demo_call_args = False"
    "ra_method demo_call_args = EthChainId" "wd_db demo_rpc_world = demo_db"
    by (simp_all add: demo_call_args_def demo_rpc_world_def)
  show ?thesis
    using store by (simp add: run_rpc_spam_def Let_def args request_interval_one demo_collected split: prod.split) blast
qed

theorem rpc_run_recorded_witness:
  "\<exists>w' success errors run_id. run_rpc_spam demo_rpc_env [] demo_call_args demo_rpc_world = (w', Ok ()) \<and>
     success + errors = 2 \<and> unat (run_id :: u64) = 1 \<and>
     (\<exists>summary. wd_printed w' = [(''eth_chainId'', 2, success, errors, summary)]) \<and>
     get_latency_metrics demo_env (wd_db w') run_id ''eth_chainId'' = Ok [bucket_new (Fin 1) 2]"
proof -
  obtain w' where run: "run_rpc_spam demo_rpc_env [] demo_call_args demo_rpc_world = (w', Ok ())"
    using demo_rpc_run by blast
  have sql: "re_sql demo_rpc_env = demo_env" "re_float_literal demo_rpc_env = Some" by (simp_all add: demo_rpc_env_def)
  have "rpc_db_ok (re_sql demo_rpc_env) (wd_db demo_rpc_world)"
    using demo_db_inv by (simp add: rpc_db_ok_def sql demo_rpc_world_def demo_tables)
      (simp add: demo_db_def create_tables_def new_memory_def)
  moreover have "storable_metrics (re_float_literal demo_rpc_env) (collect_latency_metrics (re_registry demo_rpc_env results))"
    for results by (simp add: demo_collected sql storable_metrics_def plain_text_def bucket_new_def)
  ultimately show ?thesis
    using rpc_run_recorded [OF _ refl refl _ run] run
    by (force simp: demo_collected sql demo_call_args_def demo_rpc_world_def demo_tables)
qed

text \<open>A rate of zero makes the command panic before it sends a request.\<close>

lemma request_interval_zero: "request_interval 0 = Panic"
  by (simp add: request_interval_def f64_of_u64_def f64_of_rat_def rnd64_def inf_of_sign_def)

theorem rpc_zero_rate_panics:
  "run_rpc_spam env data_dir (args\<lparr>ra_rps := 0\<rparr>) w = (w, Panic)"
  by (simp add: run_rpc_spam_def request_interval_zero sbind_def slift_def Let_def)

end
