(* ===== verification/Server_Session.thy ===== *)
theory Server_Session
  imports Orchestrator
begin

text \<open>
  The sessions of the contender server (\<open>crates/cli/src/server\<close>): the parameters of its RPC methods
  (\<open>rpc_server/types.rs\<close>), its errors (\<open>error.rs\<close>) and the cache of sessions (\<open>sessions.rs\<close>).

  A cancellation token and a log channel are numbers; the server draws new ones from a counter.
  The engine client, base64, TOML and the key of a signer are the record \<open>session_env\<close>.
\<close>

section \<open>Parameters\<close>

datatype spammer_type = SpamTimed | SpamBlockwise

record spam_params =
  spm_session_id :: u64
  spm_txs_per_period :: "u64 option"
  spm_duration :: "u64 option"
  spm_spammer :: "spammer_type option"
  spm_name :: "string option"
  spm_save_receipts :: "bool option"
  spm_run_forever :: "bool option"
  spm_report_interval_secs :: "u64 option"

definition apply_opt :: "('s \<Rightarrow> 'a \<Rightarrow> 's) \<Rightarrow> 'a option \<Rightarrow> 's \<Rightarrow> 's" where
  "apply_opt f v s = (case v of Some x \<Rightarrow> f s x | None \<Rightarrow> s)"

definition as_run_opts :: "spam_params \<Rightarrow> run_opts" where
  "as_run_opts p =
     apply_opt set_report_interval_secs (spm_report_interval_secs p)
       (apply_opt set_name (spm_name p)
         (apply_opt set_periods (spm_duration p)
           (apply_opt set_txs_per_period (spm_txs_per_period p) run_opts_default)))"

record auth_params =
  ap_jwt_secret :: "u8 list"
  ap_message_version :: string
  ap_rpc_url :: string
  ap_call_fcu :: "bool option"
  ap_use_op :: "bool option"

record builder_params =
  bp_rpc_url :: string
  bp_bundle_type :: bundle_type

record agent_params =
  agp_create_accounts :: "nat option"
  agp_setup_accounts :: "nat option"
  agp_spam_accounts :: "nat option"

definition agent_spec_of :: "agent_params \<Rightarrow> agent_spec" where
  "agent_spec_of p =
     apply_opt (\<lambda>s n. s\<lparr>as_spam_accounts := n\<rparr>) (agp_spam_accounts p)
       (apply_opt (\<lambda>s n. s\<lparr>as_setup_accounts := n\<rparr>) (agp_setup_accounts p)
         (apply_opt (\<lambda>s n. s\<lparr>as_create_accounts := n\<rparr>) (agp_create_accounts p) agent_spec_default))"

record session_options =
  so_auth :: "auth_params option"
  so_builder :: "builder_params option"
  so_min_balance :: "u256 option"
  so_pending_tx_timeout :: "u64 option"
  so_tx_type :: "tx_type option"
  so_private_keys :: "u256 list option"
  so_agents :: "agent_params option"
  so_env :: "(string, string) hmap option"

definition session_options_default :: session_options where
  "session_options_default =
     \<lparr>so_auth = None, so_builder = None, so_min_balance = None, so_pending_tx_timeout = None,
      so_tx_type = None, so_private_keys = None, so_agents = None, so_env = None\<rparr>"

text \<open>A built-in scenario is its name here; it becomes a configuration in the environment.\<close>

datatype test_config_source = TomlBase64 string | JsonConfig test_config | BuiltinConfig string

record add_session_params =
  asp_name :: string
  asp_rpc_url :: string
  asp_test_config :: "test_config_source option"
  asp_options :: "session_options option"

record fund_accounts_params =
  fap_session_id :: u64
  fap_agent_class :: "agent_class option"
  fap_amount :: u256

section \<open>Sessions\<close>

datatype session_status = SessInitializing | SessReady | SessSpamming spam_params | SessFailed string

record session_info =
  info_id :: u64
  info_name :: string
  info_rpc_url :: string
  info_status :: session_status

datatype session_contender = Uninit contender | Init contender

record session =
  ses_info :: session_info
  ses_contender :: "session_contender option"
  ses_log_channel :: nat
  ses_cancel :: nat
  ses_spam_cancel :: "nat option"
  ses_funder :: "signer option"
  ses_agent_store :: "agent_store option"
  ses_rpc_client :: "string option"
  ses_min_balance :: "u256 option"

record new_session_params =
  nsp_name :: string
  nsp_rpc_url :: string
  nsp_test_config :: test_config
  nsp_options :: session_options

abbreviation ses_id :: "session \<Rightarrow> u64" where
  "ses_id s \<equiv> info_id (ses_info s)"

abbreviation ses_status :: "session \<Rightarrow> session_status" where
  "ses_status s \<equiv> info_status (ses_info s)"

definition set_status :: "session_status \<Rightarrow> session \<Rightarrow> session" where
  "set_status st s = s\<lparr>ses_info := (ses_info s)\<lparr>info_status := st\<rparr>\<rparr>"

definition fmt_status :: "session_status \<Rightarrow> string" where
  "fmt_status st =
     (case st of
        SessInitializing \<Rightarrow> ''Initializing''
      | SessReady \<Rightarrow> ''Ready''
      | SessSpamming p \<Rightarrow>
          (let opts = as_run_opts p;
               units = (case (case spm_spammer p of Some t \<Rightarrow> t | None \<Rightarrow> SpamTimed) of
                          SpamTimed \<Rightarrow> (''tps'', ''seconds'') | SpamBlockwise \<Rightarrow> (''tpb'', ''blocks''))
           in ''Spamming ('' @ show_nat (unat (ro_txs_per_period opts)) @ '' '' @ fst units @ '' for '' @
              show_nat (unat (ro_periods opts)) @ '' '' @ snd units @ '')'')
      | SessFailed err \<Rightarrow> ''Failed: '' @ err)"

section \<open>Errors\<close>

datatype contender_rpc_error =
    SessionInitializationFailed string
  | SessionNotFound u64
  | SessionNotInitialized session_info
  | SessionFailed session_info string
  | SessionBusy session_info
  | SessionNotBusy u64
  | InvalidTestConfig string
  | InvalidArguments string
  | AuthProviderError string
  | InvalidBase64 string
  | InvalidUtf8 string
  | FundingFailed string

fun error_object :: "contender_rpc_error \<Rightarrow> nat \<times> string \<times> string option" where
  "error_object (SessionInitializationFailed e) = (1, ''Failed to initialize contender session'', Some e)"
| "error_object (InvalidTestConfig e) = (2, ''Invalid test config'', Some e)"
| "error_object (InvalidBase64 e) = (3, ''Invalid base64 encoding'', Some e)"
| "error_object (InvalidUtf8 e) = (4, ''Invalid UTF-8 in config'', Some e)"
| "error_object (SessionNotFound i) = (5, ''Session '' @ show_nat (unat i) @ '' not found'', None)"
| "error_object (SessionNotInitialized info) =
     (6, ''Session '' @ show_nat (unat (info_id info)) @ '' not ready (status: '' @ fmt_status (info_status info) @
         ''); must finish initializing before performing this action'', None)"
| "error_object (SessionBusy info) =
     (7, ''Session '' @ show_nat (unat (info_id info)) @ '' is currently busy: '' @ fmt_status (info_status info), None)"
| "error_object (SessionNotBusy i) = (9, ''Session '' @ show_nat (unat i) @ '' is not currently spamming'', None)"
| "error_object (SessionFailed info e) =
     (8, ''Session '' @ show_nat (unat (info_id info)) @ '' failed with error: '' @ e, None)"
| "error_object (AuthProviderError e) = (10, ''Failed to initialize auth provider'', Some e)"
| "error_object (FundingFailed e) = (11, ''Failed to fund accounts'', Some e)"
| "error_object (InvalidArguments msg) = (400, ''Invalid arguments'', Some msg)"

section \<open>The contender of a session\<close>

record session_env =
  se_valid_url :: "string \<Rightarrow> bool"
  se_default_signers :: "signer list"
  se_signer_from_bytes :: "u256 \<Rightarrow> (signer, string) rresult"
  se_new_provider :: "auth_params \<Rightarrow> (unit, string) rresult"
  se_base64_decode :: "string \<Rightarrow> (u8 list, string) rresult"
  se_from_utf8 :: "u8 list \<Rightarrow> (string, string) rresult"
  se_parse_config :: "string \<Rightarrow> (test_config, string) rresult"
  se_builtin :: "string \<Rightarrow> string \<Rightarrow> rand_seed \<Rightarrow> (test_config, string) rresult"
  se_default_config :: test_config

definition to_testconfig ::
  "session_env \<Rightarrow> string \<Rightarrow> rand_seed \<Rightarrow> test_config_source \<Rightarrow> (test_config, contender_rpc_error) rresult" where
  "to_testconfig env rpc_url seeder src =
     (case src of
        TomlBase64 b64 \<Rightarrow>
          rbind (rmap_err InvalidBase64 (se_base64_decode env b64)) (\<lambda>bytes.
          rbind (rmap_err InvalidUtf8 (se_from_utf8 env bytes)) (\<lambda>config_str.
          rmap_err InvalidTestConfig (se_parse_config env config_str)))
      | JsonConfig config \<Rightarrow> Ok config
      | BuiltinConfig b \<Rightarrow> (case se_builtin env b rpc_url seeder of Ok config \<Rightarrow> Ok config | _ \<Rightarrow> Panic))"

definition to_new_session_params ::
  "session_env \<Rightarrow> rand_seed \<Rightarrow> add_session_params \<Rightarrow> (new_session_params, contender_rpc_error) rresult" where
  "to_new_session_params env seeder p =
     rbind (case asp_test_config p of
              Some src \<Rightarrow> to_testconfig env (asp_rpc_url p) seeder src
            | None \<Rightarrow> Ok (se_default_config env)) (\<lambda>config.
     Ok \<lparr>nsp_name = asp_name p, nsp_rpc_url = asp_rpc_url p, nsp_test_config = config,
         nsp_options = (case asp_options p of Some o' \<Rightarrow> o' | None \<Rightarrow> session_options_default)\<rparr>)"

definition session_config :: "test_config \<Rightarrow> session_options \<Rightarrow> test_config" where
  "session_config config options =
     (case so_env options of
        Some vars \<Rightarrow> with_env config (hm_extend (case tc_env config of Some m \<Rightarrow> m | None \<Rightarrow> hm_empty) vars)
      | None \<Rightarrow> config)"

definition create_contender ::
  "session_env \<Rightarrow> session_info \<Rightarrow> test_config \<Rightarrow> session_options \<Rightarrow> (contender, contender_rpc_error) rresult" where
  "create_contender env info config options =
     rbind (builder (se_valid_url env) (se_default_signers env) (session_config config options)
              (seed_from_bytes (be_bytes 8 (unat (info_id info)))) (info_rpc_url info)) (\<lambda>cx0.
     let cx1 = set_scenario_label cx0 (info_name info @ ''_'' @ show_nat (unat (info_id info)))
     in rbind (case so_auth options of
                 Some auth \<Rightarrow> rmap_err AuthProviderError (se_new_provider env auth)
               | None \<Rightarrow> Ok ()) (\<lambda>_.
        let cx2 = apply_opt (\<lambda>cx b. set_bundle_type (set_builder_rpc_url cx (bp_rpc_url b)) (bp_bundle_type b))
                    (so_builder options) cx1;
            cx3 = apply_opt set_funding (so_min_balance options) cx2;
            cx4 = apply_opt set_pending_tx_timeout (so_pending_tx_timeout options) cx3;
            cx5 = apply_opt set_tx_type (so_tx_type options) cx4
        in rbind (case so_private_keys options of
                    None \<Rightarrow> Ok cx5
                  | Some keys \<Rightarrow>
                      rbind (rmapM (\<lambda>k. rmap_err (\<lambda>e. InvalidArguments (''invalid private key detected: '' @ e))
                                          (se_signer_from_bytes env k)) keys) (\<lambda>signers.
                      Ok (set_user_signers cx5 signers))) (\<lambda>cx6.
           Ok (contender_new (apply_opt (\<lambda>cx a. set_agent_spec cx (agent_spec_of a)) (so_agents options) cx6)))))"

definition session_new ::
  "session_env \<Rightarrow> u64 \<Rightarrow> nat \<Rightarrow> new_session_params \<Rightarrow> (session, contender_rpc_error) rresult" where
  "session_new env i fresh params =
     (let info = \<lparr>info_id = i, info_name = nsp_name params, info_rpc_url = nsp_rpc_url params,
                  info_status = SessInitializing\<rparr>
      in rbind (create_contender env info (nsp_test_config params) (nsp_options params)) (\<lambda>c.
         Ok \<lparr>ses_info = info, ses_contender = Some (Uninit c), ses_log_channel = fresh, ses_cancel = fresh,
             ses_spam_cancel = None, ses_funder = None, ses_agent_store = None, ses_rpc_client = None,
             ses_min_balance = None\<rparr>))"

section \<open>The cache of sessions\<close>

text \<open>
  \<open>cc_cancelled\<close> are the cancelled tokens and \<open>cc_next\<close> the next unused number.  The log sinks are only
  changed if their lock is free at that moment (\<open>try_write\<close>).
\<close>

record session_cache =
  cc_sessions :: "session list"
  cc_log_sinks :: "(u64, nat) hmap"
  cc_cancelled :: "nat list"
  cc_next :: nat

definition cache_new :: session_cache where
  "cache_new = \<lparr>cc_sessions = [], cc_log_sinks = hm_empty, cc_cancelled = [], cc_next = 0\<rparr>"

text \<open>\<open>gen_id\<close> draws until the number is unused; with no draw left it has not returned.\<close>

fun gen_id :: "session list \<Rightarrow> u32 list \<Rightarrow> u64 option" where
  "gen_id ss [] = None"
| "gen_id ss (r # rs) =
     (let i = ucast r in if list_all (\<lambda>s. ses_id s \<noteq> i) ss then Some i else gen_id ss rs)"

definition cache_add_session ::
  "session_env \<Rightarrow> u64 \<Rightarrow> bool \<Rightarrow> new_session_params \<Rightarrow> (session_cache, session_info, contender_rpc_error) action" where
  "cache_add_session env i sinks_free params cc =
     (case session_new env i (cc_next cc) params of
        Ok s \<Rightarrow>
          (cc\<lparr>cc_log_sinks := (if sinks_free then hm_insert i (ses_log_channel s) (cc_log_sinks cc) else cc_log_sinks cc),
              cc_sessions := cc_sessions cc @ [s], cc_next := Suc (cc_next cc)\<rparr>, Ok (ses_info s))
      | Err e \<Rightarrow> (cc, Err e)
      | Panic \<Rightarrow> (cc, Panic))"

definition cache_get_session :: "session_cache \<Rightarrow> u64 \<Rightarrow> session option" where
  "cache_get_session cc i = List.find (\<lambda>s. ses_id s = i) (cc_sessions cc)"

fun update_first :: "u64 \<Rightarrow> (session \<Rightarrow> session) \<Rightarrow> session list \<Rightarrow> session list" where
  "update_first i f [] = []"
| "update_first i f (s # ss) = (if ses_id s = i then f s # ss else s # update_first i f ss)"

text \<open>A change through \<open>get_session_mut\<close>.\<close>

definition on_session :: "u64 \<Rightarrow> (session \<Rightarrow> session) \<Rightarrow> session_cache \<Rightarrow> session_cache" where
  "on_session i f cc = cc\<lparr>cc_sessions := update_first i f (cc_sessions cc)\<rparr>"

definition take_uninitialized :: "u64 \<Rightarrow> session_cache \<Rightarrow> session_cache \<times> contender option" where
  "take_uninitialized i cc =
     (case cache_get_session cc i of
        None \<Rightarrow> (cc, None)
      | Some s \<Rightarrow>
          (case ses_contender s of
             Some (Uninit c) \<Rightarrow> (on_session i (\<lambda>s. s\<lparr>ses_contender := None\<rparr>) cc, Some c)
           | _ \<Rightarrow> (cc, None)))"

definition take_initialized :: "u64 \<Rightarrow> session_cache \<Rightarrow> session_cache \<times> contender option" where
  "take_initialized i cc =
     (case cache_get_session cc i of
        None \<Rightarrow> (cc, None)
      | Some s \<Rightarrow>
          (case ses_contender s of
             Some (Init c) \<Rightarrow> (on_session i (\<lambda>s. s\<lparr>ses_contender := None\<rparr>) cc, Some c)
           | _ \<Rightarrow> (cc, None)))"

text \<open>
  Putting a contender back caches what funding needs.  The type of an initialized contender rules out
  the other state.
\<close>

definition store_initialized :: "contender \<Rightarrow> session \<Rightarrow> session" where
  "store_initialized c s =
     (case ct_state c of
        Initialized agents scenario \<Rightarrow>
          s\<lparr>ses_funder := funder c, ses_agent_store := Some agents, ses_rpc_client := Some (cx_rpc_url (ct_ctx c)),
            ses_min_balance := Some (min_balance c), ses_contender := Some (Init c)\<rparr>
      | Uninitialized \<Rightarrow> s)"

definition put_initialized :: "u64 \<Rightarrow> contender \<Rightarrow> session_cache \<Rightarrow> session_cache" where
  "put_initialized i c = on_session i (store_initialized c)"

definition cancel_token :: "nat \<Rightarrow> session_cache \<Rightarrow> session_cache" where
  "cancel_token t cc = cc\<lparr>cc_cancelled := t # cc_cancelled cc\<rparr>"

text \<open>
  Removing a session cancels its run and its subscribers; the token of the contender is that of the
  session.
\<close>

definition cache_remove_session :: "u64 \<Rightarrow> bool \<Rightarrow> session_cache \<Rightarrow> session_cache" where
  "cache_remove_session i sinks_free cc =
     (let cc1 = (case cache_get_session cc i of
                   None \<Rightarrow> cc
                 | Some s \<Rightarrow>
                     cancel_token (ses_cancel s)
                       (case ses_spam_cancel s of Some t \<Rightarrow> cancel_token t cc | None \<Rightarrow> cc))
      in cc1\<lparr>cc_log_sinks := (if sinks_free then hm_remove i (cc_log_sinks cc1) else cc_log_sinks cc1),
             cc_sessions := filter (\<lambda>s. ses_id s \<noteq> i) (cc_sessions cc1)\<rparr>)"

definition all_sessions :: "session_cache \<Rightarrow> session_info list" where
  "all_sessions cc = map ses_info (cc_sessions cc)"

definition num_sessions :: "session_cache \<Rightarrow> nat" where
  "num_sessions cc = length (cc_sessions cc)"

section \<open>Lemmas\<close>

lemma update_first_ids [simp]:
  "(\<And>s. ses_id (f s) = ses_id s) \<Longrightarrow> map ses_id (update_first i f ss) = map ses_id ss"
  by (induction ss) auto

lemma update_first_compose:
  "(\<And>s. ses_id (f s) = ses_id s) \<Longrightarrow> update_first i g (update_first i f ss) = update_first i (\<lambda>s. g (f s)) ss"
  by (induction ss) auto

lemma on_session_compose:
  "(\<And>s. ses_id (f s) = ses_id s) \<Longrightarrow> on_session i g (on_session i f cc) = on_session i (\<lambda>s. g (f s)) cc"
  by (simp add: on_session_def update_first_compose)

lemma list_all_update_first:
  assumes "list_all P ss" and "\<And>s. List.find (\<lambda>s. ses_id s = i) ss = Some s \<Longrightarrow> P s \<Longrightarrow> P (f s)"
  shows "list_all P (update_first i f ss)"
  using assms by (induction ss) (auto split: if_splits)

lemma set_update_first:
  "distinct (map ses_id ss) \<Longrightarrow> s \<in> set (update_first i f ss) \<Longrightarrow>
    (s \<in> set ss \<and> ses_id s \<noteq> i) \<or> (\<exists>s0. List.find (\<lambda>s. ses_id s = i) ss = Some s0 \<and> s = f s0)"
  by (induction ss) (auto split: if_splits simp: image_iff)

lemma find_update_first:
  "(\<And>s. ses_id (f s) = ses_id s) \<Longrightarrow>
    List.find (\<lambda>s. ses_id s = i) (update_first j f ss)
     = (if i = j then map_option f (List.find (\<lambda>s. ses_id s = i) ss) else List.find (\<lambda>s. ses_id s = i) ss)"
  by (induction ss) auto

lemma find_session_mem: "List.find (\<lambda>s. ses_id s = i) ss = Some s \<Longrightarrow> s \<in> set ss \<and> ses_id s = i"
  by (auto simp: find_Some_iff)

lemma find_session_unique:
  "distinct (map ses_id ss) \<Longrightarrow> s \<in> set ss \<Longrightarrow> List.find (\<lambda>s'. ses_id s' = ses_id s) ss = Some s"
  by (induction ss) auto

lemma gen_id_unused: "gen_id ss draws = Some i \<Longrightarrow> i \<notin> ses_id ` set ss"
  by (induction ss draws rule: gen_id.induct) (auto simp: Let_def list_all_iff split: if_splits)

lemma get_on_session [simp]:
  "(\<And>s. ses_id (f s) = ses_id s) \<Longrightarrow>
    cache_get_session (on_session j f cc) i
     = (if i = j then map_option f (cache_get_session cc i) else cache_get_session cc i)"
  by (simp add: cache_get_session_def on_session_def find_update_first)

lemma set_status_fields [simp]:
  "ses_id (set_status st s) = ses_id s" "ses_status (set_status st s) = st"
  "ses_contender (set_status st s) = ses_contender s" "ses_spam_cancel (set_status st s) = ses_spam_cancel s"
  "ses_funder (set_status st s) = ses_funder s" "ses_agent_store (set_status st s) = ses_agent_store s"
  "ses_rpc_client (set_status st s) = ses_rpc_client s" "ses_min_balance (set_status st s) = ses_min_balance s"
  "ses_cancel (set_status st s) = ses_cancel s"
  by (simp_all add: set_status_def)

lemma store_initialized_fields [simp]:
  "ses_id (store_initialized c s) = ses_id s" "ses_status (store_initialized c s) = ses_status s"
  "ses_spam_cancel (store_initialized c s) = ses_spam_cancel s" "ses_cancel (store_initialized c s) = ses_cancel s"
  by (simp_all add: store_initialized_def split: contender_state.splits)

section \<open>Sessions that can be used\<close>

text \<open>
  A session that reports \<open>Ready\<close> has its initialized contender, and whenever the contender is there,
  the data for funding is too.
\<close>

definition session_ok :: "session \<Rightarrow> bool" where
  "session_ok s \<longleftrightarrow>
     (ses_status s = SessReady \<longrightarrow> (\<exists>c. ses_contender s = Some (Init c))) \<and>
     (\<forall>c. ses_contender s = Some (Init c) \<longrightarrow> phase c = PhaseInitialized \<and> ses_agent_store s \<noteq> None \<and>
        ses_rpc_client s \<noteq> None \<and> ses_min_balance s = Some (min_balance c) \<and> ses_funder s = funder c)"

definition cache_ok :: "session_cache \<Rightarrow> bool" where
  "cache_ok cc \<longleftrightarrow> distinct (map ses_id (cc_sessions cc)) \<and> list_all session_ok (cc_sessions cc)"

lemma session_ok_store:
  assumes "phase c = PhaseInitialized"
  shows "session_ok (store_initialized c s) \<and> ses_contender (store_initialized c s) = Some (Init c)"
  using assms by (cases "ct_state c") (simp_all add: session_ok_def store_initialized_def phase_def)

lemma cache_ok_on_session:
  assumes "cache_ok cc" and "\<And>s. ses_id (f s) = ses_id s"
    and "\<And>s. cache_get_session cc i = Some s \<Longrightarrow> session_ok s \<Longrightarrow> session_ok (f s)"
  shows "cache_ok (on_session i f cc)"
  using assms by (auto simp: cache_ok_def on_session_def cache_get_session_def intro!: list_all_update_first)

lemma get_session_ok:
  assumes "cache_ok cc" and "cache_get_session cc i = Some s"
  shows "session_ok s"
proof -
  have "s \<in> set (cc_sessions cc)"
    using find_session_mem [OF assms(2) [unfolded cache_get_session_def]] by simp
  with assms(1) show ?thesis by (simp add: cache_ok_def list_all_iff)
qed

end
