(* ===== verification/Server_Rpc.thy ===== *)
theory Server_Rpc
  imports Server_Session
begin

text \<open>
  The methods of the contender server (\<open>crates/cli/src/server/rpc_server/server.rs\<close>) and their
  background tasks as steps on the shared cache.  A step is what a method or a task does while it
  holds the lock of the cache; between two steps of one task others may run.  The list \<open>sv_tasks\<close>
  holds the tasks that wait for their next step.
\<close>

section \<open>The state of the server\<close>

datatype server_task =
    InitPending u64
  | InitRunning u64 contender
  | SpamChecked spam_params
  | SpamRunning u64 nat contender
  | FundRunning u64 "signer_store option" signer u256

record server =
  sv_cache :: session_cache
  sv_tasks :: "server_task list"

definition server_new :: server where
  "server_new = \<lparr>sv_cache = cache_new, sv_tasks = []\<rparr>"

definition with_task :: "server_task \<Rightarrow> server \<Rightarrow> server" where
  "with_task t sv = sv\<lparr>sv_tasks := sv_tasks sv @ [t]\<rparr>"

definition end_task :: "server_task \<Rightarrow> server \<Rightarrow> server" where
  "end_task t sv = sv\<lparr>sv_tasks := remove1 t (sv_tasks sv)\<rparr>"

definition on_cache :: "(session_cache \<Rightarrow> session_cache) \<Rightarrow> server \<Rightarrow> server" where
  "on_cache f sv = sv\<lparr>sv_cache := f (sv_cache sv)\<rparr>"

section \<open>Queries\<close>

definition rpc_status :: "server \<Rightarrow> nat" where
  "rpc_status sv = num_sessions (sv_cache sv)"

definition rpc_get_session :: "server \<Rightarrow> u64 \<Rightarrow> session_info option" where
  "rpc_get_session sv i = map_option ses_info (cache_get_session (sv_cache sv) i)"

definition rpc_get_all_sessions :: "server \<Rightarrow> session_info list" where
  "rpc_get_all_sessions sv = all_sessions (sv_cache sv)"

section \<open>Adding and removing sessions\<close>

definition rpc_add_session ::
  "session_env \<Rightarrow> u64 \<Rightarrow> bool \<Rightarrow> add_session_params \<Rightarrow> (server, session_info, contender_rpc_error) action" where
  "rpc_add_session env i sinks_free params sv =
     (case to_new_session_params env (seed_from_bytes (be_bytes 8 (num_sessions (sv_cache sv)))) params of
        Ok new_params \<Rightarrow>
          (case cache_add_session env i sinks_free new_params (sv_cache sv) of
             (cc, Ok info) \<Rightarrow> (with_task (InitPending i) (sv\<lparr>sv_cache := cc\<rparr>), Ok info)
           | (cc, Err e) \<Rightarrow> (sv\<lparr>sv_cache := cc\<rparr>, Err e)
           | (cc, Panic) \<Rightarrow> (sv\<lparr>sv_cache := cc\<rparr>, Panic))
      | Err e \<Rightarrow> (sv, Err e)
      | Panic \<Rightarrow> (sv, Panic))"

definition init_take :: "u64 \<Rightarrow> server \<Rightarrow> server" where
  "init_take i sv =
     (let sv' = end_task (InitPending i) sv
      in case take_uninitialized i (sv_cache sv') of
           (cc, Some c) \<Rightarrow> with_task (InitRunning i c) (sv'\<lparr>sv_cache := cc\<rparr>)
         | (cc, None) \<Rightarrow> sv'\<lparr>sv_cache := cc\<rparr>)"

definition init_finish :: "u64 \<Rightarrow> contender \<Rightarrow> (contender, string) rresult \<Rightarrow> server \<Rightarrow> server" where
  "init_finish i c r sv =
     (let sv' = end_task (InitRunning i c) sv
      in case r of
           Ok initialized \<Rightarrow> on_cache (\<lambda>cc. on_session i (set_status SessReady) (put_initialized i initialized cc)) sv'
         | Err msg \<Rightarrow> on_cache (on_session i (set_status (SessFailed msg))) sv'
         | Panic \<Rightarrow> sv')"

definition rpc_remove_session :: "u64 \<Rightarrow> bool \<Rightarrow> server \<Rightarrow> server" where
  "rpc_remove_session i sinks_free = on_cache (cache_remove_session i sinks_free)"

section \<open>Spamming\<close>

definition error_if_session_not_ready :: "session \<Rightarrow> (unit, contender_rpc_error) rresult" where
  "error_if_session_not_ready s =
     (case ses_status s of
        SessFailed msg \<Rightarrow> Err (SessionFailed (ses_info s) msg)
      | SessSpamming _ \<Rightarrow> Err (SessionBusy (ses_info s))
      | SessReady \<Rightarrow> Ok ()
      | SessInitializing \<Rightarrow> Err (SessionNotInitialized (ses_info s)))"

text \<open>The check of \<open>spam\<close> under the read lock, which it then releases.\<close>

definition spam_check :: "spam_params \<Rightarrow> (server, unit, contender_rpc_error) action" where
  "spam_check p sv =
     (case cache_get_session (sv_cache sv) (spm_session_id p) of
        None \<Rightarrow> (sv, Err (SessionNotFound (spm_session_id p)))
      | Some s \<Rightarrow>
          (case error_if_session_not_ready s of
             Ok _ \<Rightarrow> (with_task (SpamChecked p) sv, Ok ())
           | Err e \<Rightarrow> (sv, Err e)
           | Panic \<Rightarrow> (sv, Panic)))"

text \<open>
  The second part of \<open>spam\<close>, under the write lock: the session becomes busy with a new token, then its
  contender is taken.
\<close>

definition make_busy :: "spam_params \<Rightarrow> nat \<Rightarrow> session \<Rightarrow> session" where
  "make_busy p token s = (set_status (SessSpamming p) s)\<lparr>ses_spam_cancel := Some token\<rparr>"

definition spam_start :: "spam_params \<Rightarrow> (server, string, contender_rpc_error) action" where
  "spam_start p sv =
     (let i = spm_session_id p; token = cc_next (sv_cache sv); sv' = end_task (SpamChecked p) sv;
          cc1 = on_session i (make_busy p token)
                  ((sv_cache sv')\<lparr>cc_next := Suc token\<rparr>)
      in case take_initialized i cc1 of
           (cc2, Some c) \<Rightarrow>
             (with_task (SpamRunning i token c) (sv'\<lparr>sv_cache := cc2\<rparr>),
              Ok (''Spamming session '' @ show_nat (unat i)))
         | (cc2, None) \<Rightarrow> (sv'\<lparr>sv_cache := cc2\<rparr>, Err (SessionNotFound i)))"

text \<open>
  The loop of a run: \<open>runs\<close> are the results of the successive spam runs and whether the token was
  cancelled after each.  \<open>None\<close>: it is still running.
\<close>

fun spam_loop :: "bool \<Rightarrow> ((unit, string) rresult \<times> bool) list \<Rightarrow> (unit, string) rresult option" where
  "spam_loop run_forever [] = None"
| "spam_loop run_forever ((r, cancelled) # runs) =
     (if \<not> run_forever \<or> r \<noteq> Ok () \<or> cancelled then Some r else spam_loop run_forever runs)"

text \<open>The end of a run; \<open>Panic\<close> of the result is a panic with the message \<open>msg\<close>.\<close>

definition spam_finish :: "u64 \<Rightarrow> nat \<Rightarrow> contender \<Rightarrow> contender \<Rightarrow> string \<Rightarrow> (unit, string) rresult \<Rightarrow> server \<Rightarrow> server" where
  "spam_finish i token c c' msg r sv =
     (let sv' = end_task (SpamRunning i token c) sv;
          done = (\<lambda>st s. (set_status st s)\<lparr>ses_spam_cancel := None\<rparr>)
      in case r of
           Ok _ \<Rightarrow> on_cache (\<lambda>cc. on_session i (done SessReady) (put_initialized i c' cc)) sv'
         | Err e \<Rightarrow> on_cache (\<lambda>cc. on_session i (done (SessFailed (''spam failed: '' @ e))) (put_initialized i c' cc)) sv'
         | Panic \<Rightarrow> on_cache (on_session i (done (SessFailed (''spam panicked: '' @ msg)))) sv')"

definition rpc_stop :: "u64 \<Rightarrow> (server, string, contender_rpc_error) action" where
  "rpc_stop i sv =
     (case cache_get_session (sv_cache sv) i of
        None \<Rightarrow> (sv, Err (SessionNotFound i))
      | Some s \<Rightarrow>
          (case ses_spam_cancel s of
             None \<Rightarrow> (sv, Err (SessionNotBusy i))
           | Some t \<Rightarrow> (on_cache (cancel_token t) sv, Ok (''Stopping session '' @ show_nat (unat i)))))"

section \<open>Funding\<close>

text \<open>Funding is allowed in every initialized state.\<close>

definition fund_allowed :: "session \<Rightarrow> (unit, contender_rpc_error) rresult" where
  "fund_allowed s =
     (case ses_status s of
        SessFailed msg \<Rightarrow> Err (SessionFailed (ses_info s) msg)
      | SessReady \<Rightarrow> Ok ()
      | SessSpamming _ \<Rightarrow> Ok ()
      | SessInitializing \<Rightarrow> Err (SessionNotInitialized (ses_info s)))"

definition rpc_fund_accounts :: "fund_accounts_params \<Rightarrow> (server, string, contender_rpc_error) action" where
  "rpc_fund_accounts p sv =
     (let i = fap_session_id p
      in case cache_get_session (sv_cache sv) i of
           None \<Rightarrow> (sv, Err (SessionNotFound i))
         | Some s \<Rightarrow>
             (case rbind (fund_allowed s) (\<lambda>_.
                   rbind (ok_or (ses_funder s) (SessionNotInitialized (ses_info s))) (\<lambda>f.
                   rbind (ok_or (ses_rpc_client s) (SessionNotInitialized (ses_info s))) (\<lambda>_.
                   rbind (ok_or (ses_agent_store s) (SessionNotInitialized (ses_info s))) (\<lambda>agents.
                   Ok (f, get_class agents (case fap_agent_class p of Some k \<Rightarrow> k | None \<Rightarrow> Spammer)))))) of
                Ok (f, agent) \<Rightarrow>
                  (with_task (FundRunning i agent f (fap_amount p)) sv,
                   Ok (''Funding accounts for session '' @ show_nat (unat i)))
              | Err e \<Rightarrow> (sv, Err e)
              | Panic \<Rightarrow> (sv, Panic)))"

text \<open>The end of a funding task: without agents of the class there is nothing to fund.\<close>

definition fund_finish :: "u64 \<Rightarrow> signer_store option \<Rightarrow> signer \<Rightarrow> u256 \<Rightarrow> (unit, string) rresult \<Rightarrow> server \<Rightarrow> server" where
  "fund_finish i agent f amount fund_result sv =
     (let sv' = end_task (FundRunning i agent f amount) sv
      in case (if agent = None then Ok () else fund_result) of
           Err e \<Rightarrow> on_cache (on_session i (set_status (SessFailed (''funding accounts failed: '' @ e)))) sv'
         | _ \<Rightarrow> sv')"

text \<open>
  One pass of the funding loop of an endless run: the spammers are funded if one of them is known to
  be below the threshold, the minimum balance and a quarter of it.  A failed query is skipped.
\<close>

definition funding_threshold :: "u256 \<Rightarrow> u256" where
  "funding_threshold minimum = minimum + minimum div 4"

definition needs_funding :: "(address \<Rightarrow> (u256, string) rresult) \<Rightarrow> agent_store \<Rightarrow> u256 \<Rightarrow> bool" where
  "needs_funding balance agents minimum =
     (case get_class agents Spammer of
        None \<Rightarrow> False
      | Some st \<Rightarrow> list_ex (\<lambda>a. case balance a of Ok b \<Rightarrow> b < funding_threshold minimum | _ \<Rightarrow> False) (all_addresses st))"

section \<open>Steps\<close>

inductive server_step :: "session_env \<Rightarrow> server \<Rightarrow> server \<Rightarrow> bool" for env where
  add: "gen_id (cc_sessions (sv_cache sv)) draws = Some i \<Longrightarrow>
    server_step env sv (fst (rpc_add_session env i free params sv))"
| init_take: "InitPending i \<in> set (sv_tasks sv) \<Longrightarrow> server_step env sv (init_take i sv)"
| init_finish: "InitRunning i c \<in> set (sv_tasks sv) \<Longrightarrow> (\<forall>c'. r = Ok c' \<longrightarrow> phase c' = PhaseInitialized) \<Longrightarrow>
    server_step env sv (init_finish i c r sv)"
| remove: "server_step env sv (rpc_remove_session i free sv)"
| check: "server_step env sv (fst (spam_check p sv))"
| start: "SpamChecked p \<in> set (sv_tasks sv) \<Longrightarrow> server_step env sv (fst (spam_start p sv))"
| finish: "SpamRunning i token c \<in> set (sv_tasks sv) \<Longrightarrow> phase c' = PhaseInitialized \<Longrightarrow>
    server_step env sv (spam_finish i token c c' msg r sv)"
| stop: "server_step env sv (fst (rpc_stop i sv))"
| fund: "server_step env sv (fst (rpc_fund_accounts p sv))"
| fund_finish: "FundRunning i agent f amount \<in> set (sv_tasks sv) \<Longrightarrow>
    server_step env sv (fund_finish i agent f amount r sv)"

inductive server_reachable :: "session_env \<Rightarrow> server \<Rightarrow> bool" for env where
  init: "server_reachable env server_new"
| step: "server_reachable env sv \<Longrightarrow> server_step env sv sv' \<Longrightarrow> server_reachable env sv'"

section \<open>The invariant under every interleaving\<close>

lemma sv_cache_simps [simp]:
  "sv_cache (with_task t sv) = sv_cache sv" "sv_cache (end_task t sv) = sv_cache sv"
  "sv_cache (on_cache f sv) = f (sv_cache sv)" "sv_tasks (on_cache f sv) = sv_tasks sv"
  "sv_tasks (with_task t sv) = sv_tasks sv @ [t]" "sv_tasks (end_task t sv) = remove1 t (sv_tasks sv)"
  by (simp_all add: with_task_def end_task_def on_cache_def)

lemma cache_ok_more [simp]:
  "cache_ok (cc\<lparr>cc_next := n\<rparr>) = cache_ok cc" "cache_ok (cc\<lparr>cc_log_sinks := m\<rparr>) = cache_ok cc"
  "cache_ok (cancel_token t cc) = cache_ok cc"
  by (simp_all add: cache_ok_def cancel_token_def)

lemma add_session_ok:
  assumes "cache_ok (sv_cache sv)" and "gen_id (cc_sessions (sv_cache sv)) draws = Some i"
  shows "cache_ok (sv_cache (fst (rpc_add_session env i free params sv)))"
proof -
  have "ses_id s = i \<and> session_ok s" if "session_new env i n p = Ok s" for n p s
    using that by (auto simp: session_new_def session_ok_def Let_def)
  then show ?thesis
    using assms gen_id_unused [OF assms(2)]
    by (auto simp: rpc_add_session_def cache_add_session_def cache_ok_def split: rresult.splits prod.splits)
qed

lemma take_uninitialized_ok:
  "cache_ok cc \<Longrightarrow> cache_ok (fst (take_uninitialized i cc))"
  by (auto simp: take_uninitialized_def session_ok_def split: option.splits session_contender.splits
      intro!: cache_ok_on_session)

lemma init_take_ok: "cache_ok (sv_cache sv) \<Longrightarrow> cache_ok (sv_cache (init_take i sv))"
  using take_uninitialized_ok [of "sv_cache sv" i]
  by (auto simp: init_take_def Let_def split: prod.splits option.splits)

lemma put_ready_ok:
  assumes "cache_ok cc" and "phase c = PhaseInitialized"
    and "\<And>s. ses_id (f s) = ses_id s"
    and "\<And>s. session_ok s \<Longrightarrow> ses_contender s = Some (Init c) \<Longrightarrow> session_ok (f s)"
  shows "cache_ok (on_session i f (put_initialized i c cc))"
  unfolding put_initialized_def
  using assms session_ok_store [OF assms(2)] by (simp add: on_session_compose cache_ok_on_session)

lemma set_status_ok:
  "session_ok s \<Longrightarrow> st \<noteq> SessReady \<or> (\<exists>c. ses_contender s = Some (Init c)) \<Longrightarrow> session_ok (set_status st s)"
  by (auto simp: session_ok_def)

lemma session_ok_spam_cancel [simp]: "session_ok (s\<lparr>ses_spam_cancel := t\<rparr>) = session_ok s"
  by (simp add: session_ok_def)

lemma cache_ok_updates:
  "cache_ok cc \<Longrightarrow> phase c = PhaseInitialized \<Longrightarrow> cache_ok (on_session i (set_status st) (put_initialized i c cc))"
  "cache_ok cc \<Longrightarrow> phase c = PhaseInitialized \<Longrightarrow>
    cache_ok (on_session i (\<lambda>s. (set_status st s)\<lparr>ses_spam_cancel := t\<rparr>) (put_initialized i c cc))"
  "cache_ok cc \<Longrightarrow> st \<noteq> SessReady \<Longrightarrow> cache_ok (on_session i (set_status st) cc)"
  "cache_ok cc \<Longrightarrow> st \<noteq> SessReady \<Longrightarrow> cache_ok (on_session i (\<lambda>s. (set_status st s)\<lparr>ses_spam_cancel := t\<rparr>) cc)"
  by (rule put_ready_ok; auto intro: set_status_ok) (rule put_ready_ok, auto intro: set_status_ok,
      (rule cache_ok_on_session; auto intro: set_status_ok)+)

lemma init_finish_ok:
  "cache_ok (sv_cache sv) \<Longrightarrow> \<forall>c'. r = Ok c' \<longrightarrow> phase c' = PhaseInitialized \<Longrightarrow>
    cache_ok (sv_cache (init_finish i c r sv))"
  by (cases r) (simp_all add: init_finish_def cache_ok_updates)

lemma spam_finish_ok:
  "cache_ok (sv_cache sv) \<Longrightarrow> phase c' = PhaseInitialized \<Longrightarrow>
    cache_ok (sv_cache (spam_finish i token c c' msg r sv))"
  by (cases r) (simp_all add: spam_finish_def Let_def cache_ok_updates)

lemma remove_session_ok: "cache_ok cc \<Longrightarrow> cache_ok (cache_remove_session i free cc)"
  by (auto simp: cache_remove_session_def cache_ok_def cancel_token_def Let_def list_all_iff
      intro: distinct_map_filter split: option.splits)

lemma make_busy_fields [simp]:
  "ses_id (make_busy p token s) = ses_id s" "ses_status (make_busy p token s) = SessSpamming p"
  "ses_spam_cancel (make_busy p token s) = Some token" "ses_contender (make_busy p token s) = ses_contender s"
  "session_ok s \<Longrightarrow> session_ok (make_busy p token s)"
  "session_ok s \<Longrightarrow> session_ok ((make_busy p token s)\<lparr>ses_contender := None\<rparr>)"
  by (auto simp: make_busy_def session_ok_def set_status_def)

text \<open>Starting a run: the status, the token and the contender of one session change.\<close>

lemma take_busy:
  "take_initialized i (on_session i (make_busy p token) cc)
   = (case cache_get_session cc i of
        Some s \<Rightarrow>
          (case ses_contender s of
             Some (Init c) \<Rightarrow>
               (on_session i (\<lambda>s. (make_busy p token s)\<lparr>ses_contender := None\<rparr>) cc, Some c)
           | _ \<Rightarrow> (on_session i (make_busy p token) cc, None))
      | None \<Rightarrow> (on_session i (make_busy p token) cc, None))"
  by (simp add: take_initialized_def on_session_compose split: option.splits session_contender.splits)

lemma get_session_next [simp]: "cache_get_session (cc\<lparr>cc_next := n\<rparr>) i = cache_get_session cc i"
  by (simp add: cache_get_session_def)

lemma spam_start_taken:
  assumes "cache_get_session (sv_cache sv) (spm_session_id p) = Some s" and "ses_contender s = Some (Init c)"
  shows "spam_start p sv =
    (let i = spm_session_id p; token = cc_next (sv_cache sv)
     in (with_task (SpamRunning i token c) ((end_task (SpamChecked p) sv)\<lparr>sv_cache :=
           on_session i (\<lambda>s. (make_busy p token s)\<lparr>ses_contender := None\<rparr>) ((sv_cache sv)\<lparr>cc_next := Suc token\<rparr>)\<rparr>),
         Ok (''Spamming session '' @ show_nat (unat i))))"
  using assms by (simp add: spam_start_def Let_def take_busy)

lemma spam_start_refused:
  assumes "cache_get_session (sv_cache sv) (spm_session_id p) = Some s" and "ses_contender s = None"
  shows "spam_start p sv =
    (let i = spm_session_id p; token = cc_next (sv_cache sv)
     in ((end_task (SpamChecked p) sv)\<lparr>sv_cache :=
           on_session i (make_busy p token) ((sv_cache sv)\<lparr>cc_next := Suc token\<rparr>)\<rparr>, Err (SessionNotFound i)))"
  using assms by (simp add: spam_start_def Let_def take_busy)

lemma spam_start_ok: "cache_ok (sv_cache sv) \<Longrightarrow> cache_ok (sv_cache (fst (spam_start p sv)))"
  by (auto simp: spam_start_def Let_def take_busy split: option.splits session_contender.splits
      intro!: cache_ok_on_session)

lemma query_steps_ok:
  "sv_cache (fst (spam_check p sv)) = sv_cache sv"
  "cache_ok (sv_cache (fst (rpc_stop i sv))) = cache_ok (sv_cache sv)"
  "sv_cache (fst (rpc_fund_accounts q sv)) = sv_cache sv"
  by (auto simp: spam_check_def rpc_stop_def rpc_fund_accounts_def Let_def
      split: option.splits rresult.splits prod.splits)

lemma fund_finish_ok: "cache_ok (sv_cache sv) \<Longrightarrow> cache_ok (sv_cache (fund_finish i agent f amount r sv))"
  by (simp add: fund_finish_def Let_def cache_ok_updates split: rresult.splits)

lemma server_step_ok: "server_step env sv sv' \<Longrightarrow> cache_ok (sv_cache sv) \<Longrightarrow> cache_ok (sv_cache sv')"
  by (induction rule: server_step.induct)
     (simp_all add: add_session_ok init_take_ok init_finish_ok rpc_remove_session_def remove_session_ok
        spam_start_ok spam_finish_ok query_steps_ok fund_finish_ok)

lemma server_reachable_ok: "server_reachable env sv \<Longrightarrow> cache_ok (sv_cache sv)"
proof (induction rule: server_reachable.induct)
  case init
  show ?case by (simp add: server_new_def cache_new_def cache_ok_def)
next
  case (step sv sv')
  then show ?case using server_step_ok by blast
qed

text \<open>The tokens in use are smaller than the next one.\<close>

definition tokens_ok :: "server \<Rightarrow> bool" where
  "tokens_ok sv \<longleftrightarrow> (\<forall>i t c. SpamRunning i t c \<in> set (sv_tasks sv) \<longrightarrow> t < cc_next (sv_cache sv))"

lemma next_simps [simp]:
  "cc_next (on_session i f cc) = cc_next cc" "cc_next (put_initialized i c cc) = cc_next cc"
  "cc_next (cancel_token t cc) = cc_next cc" "cc_next (cache_remove_session i free cc) = cc_next cc"
  "cc_next (fst (take_initialized i cc)) = cc_next cc" "cc_next (fst (take_uninitialized i cc)) = cc_next cc"
  by (simp_all add: on_session_def put_initialized_def cancel_token_def cache_remove_session_def Let_def
      take_initialized_def take_uninitialized_def split: option.splits session_contender.splits)

lemma tokens_grow:
  assumes "tokens_ok sv" and "cc_next (sv_cache sv) \<le> cc_next (sv_cache sv')"
    and "\<And>i t c. SpamRunning i t c \<in> set (sv_tasks sv') \<Longrightarrow>
      SpamRunning i t c \<in> set (sv_tasks sv) \<or> t < cc_next (sv_cache sv')"
  shows "tokens_ok sv'"
  using assms unfolding tokens_ok_def by (meson order_less_le_trans)

lemma next_step_simps [simp]:
  "cc_next (sv_cache (init_take i sv)) = cc_next (sv_cache sv)"
  "cc_next (sv_cache (init_finish i c r sv)) = cc_next (sv_cache sv)"
  "cc_next (sv_cache (spam_finish i token c c' msg q sv)) = cc_next (sv_cache sv)"
  "cc_next (sv_cache (fund_finish i agent f amount q sv)) = cc_next (sv_cache sv)"
  "cc_next (sv_cache (fst (rpc_stop i sv))) = cc_next (sv_cache sv)"
  "cc_next (sv_cache (fst (spam_start p sv))) = Suc (cc_next (sv_cache sv))"
  by (auto simp: init_take_def init_finish_def spam_finish_def fund_finish_def rpc_stop_def spam_start_def take_busy
      Let_def split: rresult.splits option.splits prod.splits session_contender.splits)
     (metis fst_conv next_simps(6))+

lemma add_session_next: "cc_next (sv_cache sv) \<le> cc_next (sv_cache (fst (rpc_add_session env i free params sv)))"
  by (auto simp: rpc_add_session_def cache_add_session_def split: rresult.splits prod.splits)

lemma new_spam_tasks:
  "SpamRunning i t c \<in> set (sv_tasks (fst (rpc_add_session env j free params sv))) \<Longrightarrow> SpamRunning i t c \<in> set (sv_tasks sv)"
  "SpamRunning i t c \<in> set (sv_tasks (init_take j sv)) \<Longrightarrow> SpamRunning i t c \<in> set (sv_tasks sv)"
  "SpamRunning i t c \<in> set (sv_tasks (init_finish j d r sv)) \<Longrightarrow> SpamRunning i t c \<in> set (sv_tasks sv)"
  "SpamRunning i t c \<in> set (sv_tasks (fst (spam_check p sv))) \<Longrightarrow> SpamRunning i t c \<in> set (sv_tasks sv)"
  "SpamRunning i t c \<in> set (sv_tasks (spam_finish j token d d' msg q sv)) \<Longrightarrow> SpamRunning i t c \<in> set (sv_tasks sv)"
  "SpamRunning i t c \<in> set (sv_tasks (fst (rpc_stop j sv))) \<Longrightarrow> SpamRunning i t c \<in> set (sv_tasks sv)"
  "SpamRunning i t c \<in> set (sv_tasks (fst (rpc_fund_accounts fp sv))) \<Longrightarrow> SpamRunning i t c \<in> set (sv_tasks sv)"
  "SpamRunning i t c \<in> set (sv_tasks (fund_finish j agent f amount q sv)) \<Longrightarrow> SpamRunning i t c \<in> set (sv_tasks sv)"
  "SpamRunning i t c \<in> set (sv_tasks (fst (spam_start p sv))) \<Longrightarrow>
     SpamRunning i t c \<in> set (sv_tasks sv) \<or> t = cc_next (sv_cache sv)"
  by (auto simp: rpc_add_session_def init_take_def init_finish_def spam_check_def spam_finish_def rpc_stop_def
      rpc_fund_accounts_def fund_finish_def spam_start_def take_busy Let_def dest: subsetD [OF set_remove1_subset]
      split: rresult.splits option.splits prod.splits session_contender.splits if_splits)

lemma server_step_tokens: "server_step env sv sv' \<Longrightarrow> tokens_ok sv \<Longrightarrow> tokens_ok sv'"
proof (induction rule: server_step.induct)
  case (start p sv)
  then show ?case by (elim tokens_grow) (auto dest: new_spam_tasks)
qed (erule tokens_grow; auto simp: query_steps_ok rpc_remove_session_def add_session_next dest: new_spam_tasks)+

lemma server_reachable_tokens: "server_reachable env sv \<Longrightarrow> tokens_ok sv"
proof (induction rule: server_reachable.induct)
  case init
  show ?case by (simp add: server_new_def tokens_ok_def)
next
  case (step sv sv')
  then show ?case using server_step_tokens by blast
qed

section \<open>Steps on other sessions\<close>

lemma get_cancel [simp]: "cache_get_session (cancel_token t cc) i = cache_get_session cc i"
  by (simp add: cache_get_session_def cancel_token_def)

lemma get_put [simp]:
  "cache_get_session (put_initialized j c cc) i
    = (if i = j then map_option (store_initialized c) (cache_get_session cc i) else cache_get_session cc i)"
  by (simp add: put_initialized_def)

lemma get_remove:
  "cache_get_session (cache_remove_session j free cc) i = (if i = j then None else cache_get_session cc i)"
proof -
  have "List.find (\<lambda>s. ses_id s = i) (filter (\<lambda>s. ses_id s \<noteq> j) ss)
      = (if i = j then None else List.find (\<lambda>s. ses_id s = i) ss)" for ss by (induction ss) auto
  then show ?thesis
    by (simp add: cache_get_session_def cache_remove_session_def cancel_token_def Let_def split: option.splits)
qed

lemma get_take_uninitialized:
  "i \<noteq> j \<Longrightarrow> cache_get_session (fst (take_uninitialized j cc)) i = cache_get_session cc i"
  by (simp add: take_uninitialized_def split: option.splits session_contender.splits)

lemma find_append_Some: "List.find P xs = Some x \<Longrightarrow> List.find P (xs @ ys) = Some x"
  by (induction xs) auto

lemma get_add:
  assumes "cache_get_session (sv_cache sv) i = Some s"
  shows "cache_get_session (sv_cache (fst (rpc_add_session env j free params sv))) i = Some s"
  using assms by (auto simp: rpc_add_session_def cache_add_session_def cache_get_session_def find_append_Some
      split: rresult.splits prod.splits)

text \<open>Another session is not changed by the steps of a task.\<close>

lemma get_other:
  assumes "i \<noteq> j"
  shows "cache_get_session (sv_cache (init_take j sv)) i = cache_get_session (sv_cache sv) i"
    "cache_get_session (sv_cache (init_finish j c r sv)) i = cache_get_session (sv_cache sv) i"
    "cache_get_session (sv_cache (spam_finish j token c c' msg q sv)) i = cache_get_session (sv_cache sv) i"
    "cache_get_session (sv_cache (fund_finish j agent f amount q sv)) i = cache_get_session (sv_cache sv) i"
    "spm_session_id p = j \<Longrightarrow>
      cache_get_session (sv_cache (fst (spam_start p sv))) i = cache_get_session (sv_cache sv) i"
proof -
  have "cache_get_session cc i = cache_get_session (sv_cache sv) i" if "take_uninitialized j (sv_cache sv) = (cc, x)" for cc x
    using get_take_uninitialized [OF assms, of "sv_cache sv"] that by simp
  then show "cache_get_session (sv_cache (init_take j sv)) i = cache_get_session (sv_cache sv) i"
    by (auto simp: init_take_def Let_def split: prod.splits option.splits)
qed (use assms in \<open>simp_all add: init_finish_def spam_finish_def fund_finish_def spam_start_def take_busy Let_def
      split: rresult.splits option.splits session_contender.splits\<close>)

lemma get_stop [simp]: "cache_get_session (sv_cache (fst (rpc_stop j sv))) i = cache_get_session (sv_cache sv) i"
  by (simp add: rpc_stop_def split: option.splits)

section \<open>Abandoned sessions\<close>

fun lifecycle_task :: "u64 \<Rightarrow> server_task \<Rightarrow> bool" where
  "lifecycle_task i (InitPending j) = (j = i)"
| "lifecycle_task i (InitRunning j c) = (j = i)"
| "lifecycle_task i (SpamRunning j t c) = (j = i)"
| "lifecycle_task i _ = False"

text \<open>The contender of the session is gone and no task will bring it back.\<close>

definition abandoned :: "u64 \<Rightarrow> server \<Rightarrow> bool" where
  "abandoned i sv \<longleftrightarrow>
     (\<exists>s. cache_get_session (sv_cache sv) i = Some s \<and> ses_contender s = None \<and>
          ses_status s \<noteq> SessReady \<and> ses_status s \<noteq> SessInitializing) \<and>
     \<not> list_ex (lifecycle_task i) (sv_tasks sv)"

lemma list_ex_remove1: "list_ex P (remove1 x xs) \<Longrightarrow> list_ex P xs"
  by (auto simp: list_ex_iff dest: subsetD [OF set_remove1_subset])

lemma no_new_lifecycle:
  assumes "\<not> list_ex (lifecycle_task i) (sv_tasks sv)"
  shows "j \<noteq> i \<Longrightarrow> \<not> list_ex (lifecycle_task i) (sv_tasks (fst (rpc_add_session env j free params sv)))"
    "j \<noteq> i \<Longrightarrow> \<not> list_ex (lifecycle_task i) (sv_tasks (init_take j sv))"
    "\<not> list_ex (lifecycle_task i) (sv_tasks (init_finish j c r sv))"
    "\<not> list_ex (lifecycle_task i) (sv_tasks (fst (spam_check p sv)))"
    "spm_session_id p \<noteq> i \<Longrightarrow> \<not> list_ex (lifecycle_task i) (sv_tasks (fst (spam_start p sv)))"
    "\<not> list_ex (lifecycle_task i) (sv_tasks (spam_finish j token c c' msg q sv))"
    "\<not> list_ex (lifecycle_task i) (sv_tasks (fst (rpc_stop j sv)))"
    "\<not> list_ex (lifecycle_task i) (sv_tasks (fst (rpc_fund_accounts fp sv)))"
    "\<not> list_ex (lifecycle_task i) (sv_tasks (fund_finish j agent f amount q sv))"
  using assms
  by (auto simp: rpc_add_session_def init_take_def init_finish_def spam_check_def spam_start_def take_busy
      spam_finish_def rpc_stop_def rpc_fund_accounts_def fund_finish_def Let_def dest: list_ex_remove1
      split: rresult.splits option.splits prod.splits session_contender.splits if_splits)

lemma abandoned_start:
  assumes "abandoned i sv" and "spm_session_id p = i"
  shows "abandoned i (fst (spam_start p sv)) \<and>
    (\<exists>s. cache_get_session (sv_cache (fst (spam_start p sv))) i = Some s \<and> ses_status s = SessSpamming p)"
proof -
  from assms(1) obtain s where "cache_get_session (sv_cache sv) i = Some s" "ses_contender s = None"
    "\<not> list_ex (lifecycle_task i) (sv_tasks sv)" by (auto simp: abandoned_def)
  with assms(2) show ?thesis by (auto simp: abandoned_def spam_start_refused Let_def dest: list_ex_remove1)
qed

lemma abandoned_fund:
  assumes "abandoned i sv"
  shows "abandoned i (fund_finish j agent f amount r sv)"
proof (cases "i = j")
  case True
  from assms obtain s where "cache_get_session (sv_cache sv) i = Some s" "ses_contender s = None"
    "ses_status s \<noteq> SessReady" "ses_status s \<noteq> SessInitializing" by (auto simp: abandoned_def)
  then have "\<exists>s. cache_get_session (sv_cache (fund_finish j agent f amount r sv)) i = Some s \<and> ses_contender s = None
      \<and> ses_status s \<noteq> SessReady \<and> ses_status s \<noteq> SessInitializing"
    using True by (auto simp: fund_finish_def Let_def split: rresult.splits)
  with assms show ?thesis by (simp add: abandoned_def no_new_lifecycle)
qed (use assms in \<open>simp add: abandoned_def get_other no_new_lifecycle\<close>)

lemma abandoned_step:
  assumes "server_step env sv sv'" and "abandoned i sv" and "cache_get_session (sv_cache sv') i \<noteq> None"
  shows "abandoned i sv'"
  using assms
proof (induction rule: server_step.induct)
  case (add sv draws j free params)
  from add.prems(1) obtain s where s: "cache_get_session (sv_cache sv) i = Some s" by (auto simp: abandoned_def)
  then have "s \<in> set (cc_sessions (sv_cache sv)) \<and> ses_id s = i"
    by (intro find_session_mem) (simp add: cache_get_session_def)
  with gen_id_unused [OF add.hyps] have "j \<noteq> i" by auto
  with add.prems(1) s show ?case by (simp add: abandoned_def get_add [OF s] no_new_lifecycle)
next
  case (init_take j sv)
  then have "i \<noteq> j" by (auto simp: abandoned_def list_ex_iff)
  with init_take.prems show ?case by (simp add: abandoned_def get_other no_new_lifecycle)
next
  case (init_finish j c sv r)
  then have "i \<noteq> j" by (auto simp: abandoned_def list_ex_iff)
  with init_finish.prems show ?case by (simp add: abandoned_def get_other no_new_lifecycle)
next
  case (start p sv)
  show ?case
  proof (cases "spm_session_id p = i")
    case False
    then have "cache_get_session (sv_cache (fst (spam_start p sv))) i = cache_get_session (sv_cache sv) i"
      by (intro get_other(5) [OF _ refl]) simp
    with start.prems False show ?thesis by (simp add: abandoned_def no_new_lifecycle)
  qed (simp add: abandoned_start start.prems)
next
  case (finish j token c sv c' msg r)
  then have "i \<noteq> j" by (auto simp: abandoned_def list_ex_iff)
  with finish.prems show ?case by (simp add: abandoned_def get_other no_new_lifecycle)
next
  case (fund_finish j agent f amount sv r)
  show ?case by (rule abandoned_fund [OF fund_finish.prems(1)])
qed (auto simp: abandoned_def query_steps_ok no_new_lifecycle get_remove rpc_remove_session_def split: if_splits)

lemma panicked_run_abandoned:
  assumes "cache_get_session (sv_cache sv) i = Some s" and "ses_contender s = None"
    and "filter (lifecycle_task i) (sv_tasks sv) = [SpamRunning i token c]"
  shows "abandoned i (spam_finish i token c c' msg Panic sv)"
proof -
  have "filter (lifecycle_task i) (remove1 (SpamRunning i token c) (sv_tasks sv)) = []"
    using assms(3) by (simp add: filter_remove1)
  then have "\<not> list_ex (lifecycle_task i) (remove1 (SpamRunning i token c) (sv_tasks sv))"
    by (simp add: filter_empty_conv list_ex_iff)
  with assms(1,2) show ?thesis by (simp add: abandoned_def spam_finish_def Let_def)
qed

section \<open>One spam call at a time\<close>

text \<open>
  The server without overlapping spam calls: the two parts of \<open>spam\<close> are one step, and a new session
  does not get the id of a removed one that still has a task.
\<close>

definition rpc_spam :: "spam_params \<Rightarrow> (server, string, contender_rpc_error) action" where
  "rpc_spam p = sbind (spam_check p) (\<lambda>_. spam_start p)"

fun task_session :: "server_task \<Rightarrow> u64" where
  "task_session (InitPending i) = i"
| "task_session (InitRunning i c) = i"
| "task_session (SpamChecked p) = spm_session_id p"
| "task_session (SpamRunning i t c) = i"
| "task_session (FundRunning i agent f amount) = i"

inductive serial_reachable :: "session_env \<Rightarrow> server \<Rightarrow> bool" for env where
  init: "serial_reachable env server_new"
| spam: "serial_reachable env sv \<Longrightarrow> serial_reachable env (fst (rpc_spam p sv))"
| other: "serial_reachable env sv \<Longrightarrow> server_step env sv sv' \<Longrightarrow> \<forall>p. SpamChecked p \<notin> set (sv_tasks sv') \<Longrightarrow>
    \<forall>i. cache_get_session (sv_cache sv) i = None \<and> cache_get_session (sv_cache sv') i \<noteq> None \<longrightarrow>
      (\<forall>t \<in> set (sv_tasks sv). task_session t \<noteq> i) \<Longrightarrow>
    serial_reachable env sv'"

fun funds :: "u64 \<Rightarrow> server_task \<Rightarrow> bool" where
  "funds i (FundRunning j agent f amount) = (j = i)"
| "funds i _ = False"

text \<open>What a session is doing: nothing, a run that owns its token, or its initialization.\<close>

definition life_ok :: "session \<Rightarrow> server_task list \<Rightarrow> bool" where
  "life_ok s ts \<longleftrightarrow>
     (case filter (lifecycle_task (ses_id s)) ts of
        [] \<Rightarrow> ses_spam_cancel s = None \<and> (\<forall>p. ses_status s \<noteq> SessSpamming p)
      | [SpamRunning i t c] \<Rightarrow> ses_spam_cancel s = Some t \<and> ses_contender s = None
      | [InitPending i] \<Rightarrow> ses_spam_cancel s = None \<and> ses_status s = SessInitializing \<and> \<not> list_ex (funds (ses_id s)) ts
      | [InitRunning i c] \<Rightarrow> ses_spam_cancel s = None \<and> ses_status s = SessInitializing \<and> \<not> list_ex (funds (ses_id s)) ts
      | _ \<Rightarrow> False)"

definition serial_inv :: "server \<Rightarrow> bool" where
  "serial_inv sv \<longleftrightarrow> cache_ok (sv_cache sv) \<and> (\<forall>p. SpamChecked p \<notin> set (sv_tasks sv)) \<and>
     (\<forall>i s. cache_get_session (sv_cache sv) i = Some s \<longrightarrow> life_ok s (sv_tasks sv))"

lemma filter_remove1_other: "\<not> P x \<Longrightarrow> filter P (remove1 x xs) = filter P xs"
  by (induction xs) auto

lemma life_ok_cong:
  "filter (lifecycle_task (ses_id s)) ts = filter (lifecycle_task (ses_id s)) ts' \<Longrightarrow>
   (list_ex (funds (ses_id s)) ts' \<Longrightarrow> list_ex (funds (ses_id s)) ts) \<Longrightarrow> life_ok s ts \<Longrightarrow> life_ok s ts'"
  by (auto simp: life_ok_def split: list.splits server_task.splits)

lemma tasks_other:
  assumes "i \<noteq> j"
  shows "filter (lifecycle_task i) (sv_tasks (fst (rpc_add_session env j free params sv))) = filter (lifecycle_task i) (sv_tasks sv)"
    "filter (lifecycle_task i) (sv_tasks (init_take j sv)) = filter (lifecycle_task i) (sv_tasks sv)"
    "filter (lifecycle_task i) (sv_tasks (init_finish j c r sv)) = filter (lifecycle_task i) (sv_tasks sv)"
    "filter (lifecycle_task i) (sv_tasks (spam_finish j token c c' msg q sv)) = filter (lifecycle_task i) (sv_tasks sv)"
    "spm_session_id p = j \<Longrightarrow> filter (lifecycle_task i) (sv_tasks (fst (spam_start p sv))) = filter (lifecycle_task i) (sv_tasks sv)"
  using assms
  by (auto simp: rpc_add_session_def init_take_def init_finish_def spam_finish_def spam_start_def take_busy Let_def
      filter_remove1_other split: rresult.splits option.splits prod.splits session_contender.splits)

lemma tasks_unchanged:
  "filter (lifecycle_task i) (sv_tasks (fst (spam_check p sv))) = filter (lifecycle_task i) (sv_tasks sv)"
  "filter (lifecycle_task i) (sv_tasks (fst (rpc_stop j sv))) = filter (lifecycle_task i) (sv_tasks sv)"
  "filter (lifecycle_task i) (sv_tasks (fst (rpc_fund_accounts fp sv))) = filter (lifecycle_task i) (sv_tasks sv)"
  "filter (lifecycle_task i) (sv_tasks (fund_finish j agent f amount q sv)) = filter (lifecycle_task i) (sv_tasks sv)"
  by (auto simp: spam_check_def rpc_stop_def rpc_fund_accounts_def fund_finish_def Let_def filter_remove1_other
      split: rresult.splits option.splits prod.splits)

lemma funds_kept:
  "list_ex (funds i) (sv_tasks (fst (rpc_add_session env j free params sv))) \<Longrightarrow> list_ex (funds i) (sv_tasks sv)"
  "list_ex (funds i) (sv_tasks (init_take j sv)) \<Longrightarrow> list_ex (funds i) (sv_tasks sv)"
  "list_ex (funds i) (sv_tasks (init_finish j c r sv)) \<Longrightarrow> list_ex (funds i) (sv_tasks sv)"
  "list_ex (funds i) (sv_tasks (spam_finish j token c c' msg q sv)) \<Longrightarrow> list_ex (funds i) (sv_tasks sv)"
  "list_ex (funds i) (sv_tasks (fst (spam_start p sv))) \<Longrightarrow> list_ex (funds i) (sv_tasks sv)"
  "list_ex (funds i) (sv_tasks (fst (spam_check p sv))) \<Longrightarrow> list_ex (funds i) (sv_tasks sv)"
  "list_ex (funds i) (sv_tasks (fst (rpc_stop j sv))) \<Longrightarrow> list_ex (funds i) (sv_tasks sv)"
  "list_ex (funds i) (sv_tasks (fund_finish j agent f amount q sv)) \<Longrightarrow> list_ex (funds i) (sv_tasks sv)"
  by (auto simp: rpc_add_session_def init_take_def init_finish_def spam_finish_def spam_start_def take_busy Let_def
      spam_check_def rpc_stop_def fund_finish_def dest: list_ex_remove1
      split: rresult.splits option.splits prod.splits session_contender.splits if_splits)

lemma get_session_id: "cache_get_session cc i = Some s \<Longrightarrow> ses_id s = i"
  unfolding cache_get_session_def by (blast dest: find_session_mem)

lemma life_member:
  assumes "life_ok s ts" and "x \<in> set ts" and "lifecycle_task (ses_id s) x"
  shows "filter (lifecycle_task (ses_id s)) ts = [x]"
proof -
  let ?f = "filter (lifecycle_task (ses_id s)) ts"
  have "length ?f \<le> 1" using assms(1) by (auto simp: life_ok_def split: list.splits server_task.splits)
  moreover have mem: "x \<in> set ?f" using assms(2,3) by simp
  ultimately obtain y where "?f = [y]" by (cases ?f) auto
  with mem show ?thesis by simp
qed

lemma serial_life:
  assumes "serial_inv sv" and "cache_get_session (sv_cache sv) i = Some s"
  shows "ses_id s = i" "life_ok s (sv_tasks sv)"
  using assms(1,2) get_session_id [OF assms(2)] by (simp_all add: serial_inv_def)

lemma life_other:
  assumes "serial_inv sv" and "cache_get_session (sv_cache sv') i = Some s"
    and "cache_get_session (sv_cache sv') i = cache_get_session (sv_cache sv) i"
    and "filter (lifecycle_task i) (sv_tasks sv') = filter (lifecycle_task i) (sv_tasks sv)"
    and "list_ex (funds i) (sv_tasks sv') \<Longrightarrow> list_ex (funds i) (sv_tasks sv)"
  shows "life_ok s (sv_tasks sv')"
  using assms life_ok_cong [of s "sv_tasks sv" "sv_tasks sv'"] get_session_id [OF assms(2)]
  by (simp add: serial_inv_def)

lemma life_init_take:
  assumes inv: "serial_inv sv" and mem: "InitPending i \<in> set (sv_tasks sv)"
    and get: "cache_get_session (sv_cache (init_take i sv)) i = Some s'"
  shows "life_ok s' (sv_tasks (init_take i sv))"
proof -
  obtain s where s: "cache_get_session (sv_cache sv) i = Some s"
    using get by (auto simp: init_take_def take_uninitialized_def Let_def split: option.splits session_contender.splits)
  note i = serial_life(1) [OF inv s] and life = serial_life(2) [OF inv s]
  have tasks: "filter (lifecycle_task i) (sv_tasks sv) = [InitPending i]" using life_member [OF life mem] i by simp
  with life i have s_ok: "ses_spam_cancel s = None" "ses_status s = SessInitializing" "\<not> list_ex (funds i) (sv_tasks sv)"
    by (simp_all add: life_ok_def)
  then have funds: "\<not> list_ex (funds i) (remove1 (InitPending i) (sv_tasks sv))" by (blast dest: list_ex_remove1)
  show ?thesis
  proof (cases "\<exists>c. ses_contender s = Some (Uninit c)")
    case True
    then obtain c where "ses_contender s = Some (Uninit c)" by blast
    then have step: "init_take i sv = with_task (InitRunning i c) ((end_task (InitPending i) sv)
        \<lparr>sv_cache := on_session i (\<lambda>s. s\<lparr>ses_contender := None\<rparr>) (sv_cache sv)\<rparr>)"
      using s by (simp add: init_take_def take_uninitialized_def Let_def)
    have s': "s' = s\<lparr>ses_contender := None\<rparr>" using get s by (simp add: step)
    show ?thesis unfolding step s' using tasks s_ok funds i by (simp add: life_ok_def filter_remove1)
  next
    case False
    then have "take_uninitialized i (sv_cache sv) = (sv_cache sv, None)"
      using s by (simp add: take_uninitialized_def split: option.splits session_contender.splits)
    then show ?thesis using s get tasks s_ok i by (simp add: life_ok_def init_take_def filter_remove1)
  qed
qed

lemma life_init_finish:
  assumes inv: "serial_inv sv" and mem: "InitRunning i c \<in> set (sv_tasks sv)"
    and get: "cache_get_session (sv_cache (init_finish i c r sv)) i = Some s'"
  shows "life_ok s' (sv_tasks (init_finish i c r sv))"
proof -
  obtain s where s: "cache_get_session (sv_cache sv) i = Some s"
    using get by (auto simp: init_finish_def Let_def split: rresult.splits)
  note i = serial_life(1) [OF inv s] and life = serial_life(2) [OF inv s]
  have "filter (lifecycle_task i) (sv_tasks sv) = [InitRunning i c]" using life_member [OF life mem] i by simp
  with life i s get show ?thesis
    by (auto simp: life_ok_def init_finish_def Let_def filter_remove1 split: rresult.splits)
qed

lemma life_spam_finish:
  assumes inv: "serial_inv sv" and mem: "SpamRunning i token c \<in> set (sv_tasks sv)"
    and get: "cache_get_session (sv_cache (spam_finish i token c c' msg r sv)) i = Some s'"
  shows "life_ok s' (sv_tasks (spam_finish i token c c' msg r sv))"
proof -
  obtain s where s: "cache_get_session (sv_cache sv) i = Some s"
    using get by (auto simp: spam_finish_def Let_def split: rresult.splits)
  note i = serial_life(1) [OF inv s] and life = serial_life(2) [OF inv s]
  have "filter (lifecycle_task i) (sv_tasks sv) = [SpamRunning i token c]" using life_member [OF life mem] i by simp
  with i s get show ?thesis
    by (auto simp: life_ok_def spam_finish_def Let_def filter_remove1 split: rresult.splits)
qed

lemma life_fund_finish:
  assumes inv: "serial_inv sv" and mem: "FundRunning i agent f amount \<in> set (sv_tasks sv)"
    and get: "cache_get_session (sv_cache (fund_finish i agent f amount r sv)) i = Some s'"
  shows "life_ok s' (sv_tasks (fund_finish i agent f amount r sv))"
proof -
  obtain s where s: "cache_get_session (sv_cache sv) i = Some s"
    using get by (auto simp: fund_finish_def Let_def split: rresult.splits)
  note i = serial_life(1) [OF inv s] and life = serial_life(2) [OF inv s]
  have s': "ses_id s' = i \<and> ses_contender s' = ses_contender s \<and> ses_spam_cancel s' = ses_spam_cancel s
      \<and> (ses_status s' = ses_status s \<or> (\<exists>e. ses_status s' = SessFailed e))"
    using get s i by (auto simp: fund_finish_def Let_def split: rresult.splits)
  have "list_ex (funds i) (sv_tasks sv)" using mem by (auto simp: list_ex_iff intro!: bexI)
  with life i s' show ?thesis
    using tasks_unchanged(4) [of i i agent f amount r sv]
    by (auto simp: life_ok_def split: list.splits server_task.splits)
qed

lemma life_fund:
  assumes inv: "serial_inv sv" and get: "cache_get_session (sv_cache (fst (rpc_fund_accounts p sv))) i = Some s"
  shows "life_ok s (sv_tasks (fst (rpc_fund_accounts p sv)))"
proof -
  have s: "cache_get_session (sv_cache sv) i = Some s" using get by (simp add: query_steps_ok)
  note i = serial_life(1) [OF inv s] and life = serial_life(2) [OF inv s]
  have "ses_status s = SessInitializing \<Longrightarrow> list_ex (funds i) (sv_tasks (fst (rpc_fund_accounts p sv))) \<Longrightarrow>
      list_ex (funds i) (sv_tasks sv)"
    using s by (auto simp: rpc_fund_accounts_def fund_allowed_def Let_def split: option.splits rresult.splits if_splits)
  with life i show ?thesis
    using tasks_unchanged(3) [of i p sv] by (auto simp: life_ok_def split: list.splits server_task.splits)
qed

lemma life_add:
  assumes inv: "serial_inv sv" and "gen_id (cc_sessions (sv_cache sv)) draws = Some j"
    and fresh: "cache_get_session (sv_cache sv) i = None \<Longrightarrow> \<forall>t \<in> set (sv_tasks sv). task_session t \<noteq> i"
    and get: "cache_get_session (sv_cache (fst (rpc_add_session env j free params sv))) i = Some s'"
  shows "life_ok s' (sv_tasks (fst (rpc_add_session env j free params sv)))"
proof (cases "cache_get_session (sv_cache sv) i")
  case (Some s)
  have "i \<noteq> j"
  proof
    assume "i = j"
    from Some have "s \<in> set (cc_sessions (sv_cache sv)) \<and> ses_id s = i"
      by (intro find_session_mem) (simp add: cache_get_session_def)
    with \<open>i = j\<close> gen_id_unused [OF assms(2)] show False by auto
  qed
  with Some get_add [OF Some] show ?thesis
    using get by (intro life_other [OF inv get]) (auto simp: tasks_other dest: funds_kept)
next
  case None
  have app: "List.find P (xs @ [x]) = Some y \<Longrightarrow> List.find P xs = None \<Longrightarrow> y = x \<and> P x" for P xs and x y :: session
    by (induction xs) (auto split: if_splits)
  have new: "ses_id s = j \<and> ses_spam_cancel s = None \<and> ses_status s = SessInitializing"
    if "session_new env j n q = Ok s" for n q s using that by (auto simp: session_new_def Let_def)
  obtain s0 n q where s0: "session_new env j n q = Ok s0" "s' = s0" "i = j"
    "sv_tasks (fst (rpc_add_session env j free params sv)) = sv_tasks sv @ [InitPending j]"
    using get None new
    by (auto simp: rpc_add_session_def cache_add_session_def cache_get_session_def
        split: rresult.splits prod.splits dest!: app)
  with None fresh have other: "\<forall>t \<in> set (sv_tasks sv). task_session t \<noteq> i" by simp
  have "lifecycle_task i t \<Longrightarrow> task_session t = i" "funds i t \<Longrightarrow> task_session t = i" for t by (cases t; simp)+
  with other have "filter (lifecycle_task i) (sv_tasks sv) = []" "\<not> list_ex (funds i) (sv_tasks sv)"
    by (auto simp: filter_empty_conv list_ex_iff)
  with s0 new [OF s0(1)] show ?thesis by (simp add: life_ok_def)
qed

lemma rpc_spam_cases:
  assumes "serial_inv sv" and "cache_get_session (sv_cache sv) (spm_session_id p) = Some s" and "ses_status s = SessReady"
  obtains c where "ses_contender s = Some (Init c)" and
    "rpc_spam p sv = (with_task (SpamRunning (spm_session_id p) (cc_next (sv_cache sv)) c)
       (sv\<lparr>sv_cache := on_session (spm_session_id p) (\<lambda>s. (make_busy p (cc_next (sv_cache sv)) s)\<lparr>ses_contender := None\<rparr>)
         ((sv_cache sv)\<lparr>cc_next := Suc (cc_next (sv_cache sv))\<rparr>)\<rparr>),
       Ok (''Spamming session '' @ show_nat (unat (spm_session_id p))))"
proof -
  have "session_ok s" using assms(1,2) by (auto simp: serial_inv_def intro: get_session_ok)
  then obtain c where c: "ses_contender s = Some (Init c)" using assms(3) by (auto simp: session_ok_def)
  have "spam_check p sv = (with_task (SpamChecked p) sv, Ok ())"
    using assms(2,3) by (simp add: spam_check_def error_if_session_not_ready_def)
  moreover have "remove1 (SpamChecked p) (sv_tasks sv @ [SpamChecked p]) = sv_tasks sv"
    using assms(1) by (simp add: serial_inv_def remove1_append)
  ultimately show thesis
    using that [OF c] spam_start_taken [of "with_task (SpamChecked p) sv" p s c] assms(2) c
    by (simp add: rpc_spam_def sbind_def Let_def with_task_def end_task_def)
qed

lemma rpc_spam_refused:
  assumes "\<nexists>s. cache_get_session (sv_cache sv) (spm_session_id p) = Some s \<and> ses_status s = SessReady"
  shows "fst (rpc_spam p sv) = sv"
  using assms by (auto simp: rpc_spam_def sbind_def spam_check_def error_if_session_not_ready_def
      split: option.splits session_status.splits)

lemma life_ready: "life_ok s ts \<Longrightarrow> session_ok s \<Longrightarrow> ses_status s = SessReady \<Longrightarrow>
    filter (lifecycle_task (ses_id s)) ts = [] \<and> ses_spam_cancel s = None"
  by (auto simp: life_ok_def session_ok_def split: list.splits server_task.splits)

lemma serial_inv_spam:
  assumes inv: "serial_inv sv"
  shows "serial_inv (fst (rpc_spam p sv))"
proof (cases "\<exists>s. cache_get_session (sv_cache sv) (spm_session_id p) = Some s \<and> ses_status s = SessReady")
  case True
  let ?i = "spm_session_id p" and ?t = "cc_next (sv_cache sv)"
  from True obtain s where s: "cache_get_session (sv_cache sv) ?i = Some s" "ses_status s = SessReady" by blast
  from rpc_spam_cases [OF inv s] obtain c where step: "fst (rpc_spam p sv) = with_task (SpamRunning ?i ?t c)
       (sv\<lparr>sv_cache := on_session ?i (\<lambda>s. (make_busy p ?t s)\<lparr>ses_contender := None\<rparr>)
         ((sv_cache sv)\<lparr>cc_next := Suc ?t\<rparr>)\<rparr>)" by (metis fst_conv)
  note i = serial_life(1) [OF inv s(1)] and life = serial_life(2) [OF inv s(1)]
  have idle: "filter (lifecycle_task ?i) (sv_tasks sv) = []"
    using life_ready [OF life _ s(2)] i inv get_session_ok [OF _ s(1)] by (simp add: serial_inv_def)
  have "life_ok s' (sv_tasks sv @ [SpamRunning ?i ?t c])"
    if get: "cache_get_session (sv_cache (fst (rpc_spam p sv))) j = Some s'" for j s'
  proof (cases "j = ?i")
    case True
    with get s(1) have s': "s' = (make_busy p ?t s)\<lparr>ses_contender := None\<rparr>" by (simp add: step)
    show ?thesis unfolding s' using i idle by (simp add: life_ok_def)
  next
    case False
    with get have s': "cache_get_session (sv_cache sv) j = Some s'" by (simp add: step)
    show ?thesis
      by (rule life_ok_cong [OF _ _ serial_life(2) [OF inv s']]) (use False serial_life(1) [OF inv s'] in auto)
  qed
  moreover have "cache_ok (sv_cache (fst (rpc_spam p sv)))"
    using inv unfolding step by (auto simp: serial_inv_def intro!: cache_ok_on_session)
  ultimately show ?thesis using inv by (simp add: serial_inv_def step)
qed (use inv in \<open>simp add: rpc_spam_refused\<close>)

lemma serial_inv_step:
  assumes "server_step env sv sv'" and inv: "serial_inv sv" and "\<forall>p. SpamChecked p \<notin> set (sv_tasks sv')"
    and "\<forall>i. cache_get_session (sv_cache sv) i = None \<and> cache_get_session (sv_cache sv') i \<noteq> None \<longrightarrow>
      (\<forall>t \<in> set (sv_tasks sv). task_session t \<noteq> i)"
  shows "serial_inv sv'"
proof -
  have "life_ok s (sv_tasks sv')" if get: "cache_get_session (sv_cache sv') i = Some s" for i s
    using assms(1) get inv assms(3,4)
  proof (induction rule: server_step.induct)
    case (add sv draws j free params)
    show ?case using add.hyps add.prems by (intro life_add) auto
  next
    case (init_take j sv)
    show ?case
    proof (cases "i = j")
      case True
      with init_take show ?thesis by (intro life_init_take) auto
    next
      case False
      show ?thesis
        by (rule life_other [OF init_take.prems(2,1)]) (use False in \<open>auto simp: get_other tasks_other dest: funds_kept\<close>)
    qed
  next
    case (init_finish j c sv r)
    show ?case
    proof (cases "i = j")
      case True
      with init_finish show ?thesis by (intro life_init_finish) auto
    next
      case False
      show ?thesis
        by (rule life_other [OF init_finish.prems(2,1)]) (use False in \<open>auto simp: get_other tasks_other dest: funds_kept\<close>)
    qed
  next
    case (remove sv j free)
    then show ?case
      by (intro life_other [where i = i]) (auto simp: rpc_remove_session_def get_remove split: if_splits)
  next
    case (check sv p)
    show ?case
      by (rule life_other [OF check.prems(2,1)]) (auto simp: query_steps_ok tasks_unchanged dest: funds_kept)
  next
    case (start p sv)
    then show ?case by (simp add: serial_inv_def)
  next
    case (finish j token c sv c' msg r)
    show ?case
    proof (cases "i = j")
      case True
      with finish show ?thesis by (intro life_spam_finish) auto
    next
      case False
      show ?thesis
        by (rule life_other [OF finish.prems(2,1)]) (use False in \<open>auto simp: get_other tasks_other dest: funds_kept\<close>)
    qed
  next
    case (stop sv j)
    show ?case
      by (rule life_other [OF stop.prems(2,1)]) (auto simp: tasks_unchanged dest: funds_kept)
  next
    case (fund sv p)
    then show ?case by (simp add: life_fund)
  next
    case (fund_finish j agent f amount sv r)
    show ?case
    proof (cases "i = j")
      case True
      with fund_finish show ?thesis by (intro life_fund_finish) auto
    next
      case False
      show ?thesis
        by (rule life_other [OF fund_finish.prems(2,1)]) (use False in \<open>auto simp: get_other tasks_unchanged dest: funds_kept\<close>)
    qed
  qed
  moreover have "cache_ok (sv_cache sv')" using server_step_ok [OF assms(1)] inv by (simp add: serial_inv_def)
  ultimately show ?thesis using assms(3) by (simp add: serial_inv_def)
qed

lemma serial_reachable_inv: "serial_reachable env sv \<Longrightarrow> serial_inv sv"
proof (induction rule: serial_reachable.induct)
  case init
  show ?case by (simp add: serial_inv_def server_new_def cache_new_def cache_ok_def cache_get_session_def)
next
  case (spam sv p)
  show ?case by (rule serial_inv_spam [OF spam.IH])
next
  case (other sv sv')
  show ?case by (rule serial_inv_step [OF other.hyps(2) other.IH other.hyps(3,4)])
qed

section \<open>Theorems\<close>

text \<open>
  C18. Whatever the server has done before, the ids of its sessions are distinct, and a session that is
  reported as ready can be used: a spam call that is not interrupted by another one is accepted,
  takes the contender of that session, and leaves the session busy with the token of the task that
  it started.
\<close>

theorem ready_session_spams:
  assumes "server_reachable env sv" and "cache_get_session (sv_cache sv) (spm_session_id p) = Some s"
    and "ses_status s = SessReady"
  shows "distinct (map info_id (rpc_get_all_sessions sv)) \<and>
    (\<exists>sv1 sv2 msg s' c token.
      spam_check p sv = (sv1, Ok ()) \<and> spam_start p sv1 = (sv2, Ok msg) \<and>
      ses_contender s = Some (Init c) \<and> phase c = PhaseInitialized \<and>
      cache_get_session (sv_cache sv2) (spm_session_id p) = Some s' \<and>
      ses_status s' = SessSpamming p \<and> ses_spam_cancel s' = Some token \<and> ses_contender s' = None \<and>
      SpamRunning (spm_session_id p) token c \<in> set (sv_tasks sv2))"
proof -
  have ok: "cache_ok (sv_cache sv)" by (rule server_reachable_ok [OF assms(1)])
  then have "session_ok s" using assms(2) by (rule get_session_ok)
  then obtain c where c: "ses_contender s = Some (Init c)" "phase c = PhaseInitialized"
    using assms(3) by (auto simp: session_ok_def)
  have check: "spam_check p sv = (with_task (SpamChecked p) sv, Ok ())"
    using assms(2,3) by (simp add: spam_check_def error_if_session_not_ready_def)
  have "distinct (map info_id (rpc_get_all_sessions sv))"
    using ok by (simp add: rpc_get_all_sessions_def all_sessions_def cache_ok_def comp_def)
  with check c assms(2) spam_start_taken [of "with_task (SpamChecked p) sv" p s c]
  show ?thesis by (simp add: Let_def)
qed

text \<open>
  C20. Two overlapping spam calls on one session: both find it ready, the first starts a run, and the
  second is then answered with "not found", but it has replaced the token of the session.  A later
  \<open>stop\<close> is answered with success and does not cancel the run that is going on.
\<close>

theorem second_spam_call_detaches_stop:
  assumes "server_reachable env sv" and "SpamRunning i t c \<in> set (sv_tasks sv)"
    and "SpamChecked p \<in> set (sv_tasks sv)" and "spm_session_id p = i"
    and "cache_get_session (sv_cache sv) i = Some s" and "ses_contender s = None"
    and "spam_start p sv = (sv1, answer)" and "rpc_stop i sv1 = (sv2, stopped)"
  shows "answer = Err (SessionNotFound i) \<and> stopped = Ok (''Stopping session '' @ show_nat (unat i)) \<and>
    SpamRunning i t c \<in> set (sv_tasks sv2) \<and>
    (t \<in> set (cc_cancelled (sv_cache sv2)) \<longleftrightarrow> t \<in> set (cc_cancelled (sv_cache sv)))"
proof -
  have "t < cc_next (sv_cache sv)" using server_reachable_tokens [OF assms(1)] assms(2) by (auto simp: tokens_ok_def)
  moreover have "SpamRunning i t c \<in> set (remove1 (SpamChecked p) (sv_tasks sv))"
    using assms(2) by (simp add: in_set_remove1)
  moreover have "rpc_stop i sv1 = (on_cache (cancel_token (cc_next (sv_cache sv))) sv1, Ok (''Stopping session '' @ show_nat (unat i)))"
    using assms(4-7) by (auto simp: spam_start_refused Let_def rpc_stop_def)
  ultimately show ?thesis
    using assms(4-8) by (auto simp: spam_start_refused Let_def cancel_token_def on_session_def)
qed

text \<open>
  C19. A run that panics takes the contender of its session with it.  If another spam call passed its
  check before, it then marks the session as spamming although no run exists, and from then on
  every sequence of steps that does not remove the session leaves it without a contender and
  without a task that could bring one back: the session never becomes ready again.
\<close>

theorem panicked_session_stays_busy:
  assumes "cache_get_session (sv_cache sv) i = Some s" and "ses_contender s = None"
    and "filter (lifecycle_task i) (sv_tasks sv) = [SpamRunning i token c]"
    and "SpamChecked p \<in> set (sv_tasks sv)" and "spm_session_id p = i"
    and "sv1 = fst (spam_start p (spam_finish i token c c' msg Panic sv))"
    and "(\<lambda>a b. server_step env a b \<and> cache_get_session (sv_cache b) i \<noteq> None)\<^sup>*\<^sup>* sv1 sv2"
  shows "(\<exists>s1. cache_get_session (sv_cache sv1) i = Some s1 \<and> ses_status s1 = SessSpamming p) \<and>
    (\<exists>s2. cache_get_session (sv_cache sv2) i = Some s2 \<and> ses_status s2 \<noteq> SessReady \<and> ses_contender s2 = None) \<and>
    \<not> list_ex (lifecycle_task i) (sv_tasks sv2)"
proof -
  have start: "abandoned i sv1 \<and> (\<exists>s. cache_get_session (sv_cache sv1) i = Some s \<and> ses_status s = SessSpamming p)"
    unfolding assms(6) by (rule abandoned_start [OF panicked_run_abandoned [OF assms(1-3)] assms(5)])
  from assms(7) start have "abandoned i sv2"
    by (induction rule: rtranclp_induct) (auto intro: abandoned_step)
  with start show ?thesis by (auto simp: abandoned_def)
qed

text \<open>
  C17. Without overlapping spam calls, \<open>stop\<close> does what it says.  A session that is reported as spamming
  has exactly one run, the token of the session is the one that this run listens to, and \<open>stop\<close>
  cancels it; a session without a run has no token, and \<open>stop\<close> answers that it is not busy.
\<close>

theorem stop_reaches_the_run:
  assumes "serial_reachable env sv" and "cache_get_session (sv_cache sv) i = Some s" and "rpc_stop i sv = (sv', answer)"
  shows "(\<exists>t c. filter (lifecycle_task i) (sv_tasks sv) = [SpamRunning i t c] \<and> ses_contender s = None \<and>
        answer = Ok (''Stopping session '' @ show_nat (unat i)) \<and> t \<in> set (cc_cancelled (sv_cache sv'))) \<or>
    ((\<forall>t c. SpamRunning i t c \<notin> set (sv_tasks sv)) \<and> (\<forall>p. ses_status s \<noteq> SessSpamming p) \<and>
        answer = Err (SessionNotBusy i) \<and> sv' = sv)"
proof -
  have inv: "serial_inv sv" by (rule serial_reachable_inv [OF assms(1)])
  note i = serial_life(1) [OF inv assms(2)] and life = serial_life(2) [OF inv assms(2)]
  define ts where "ts = filter (lifecycle_task i) (sv_tasks sv)"
  have mem: "SpamRunning i t c \<in> set ts \<longleftrightarrow> SpamRunning i t c \<in> set (sv_tasks sv)" for t c by (simp add: ts_def)
  consider (run) j t c where "ts = [SpamRunning j t c]" "ses_spam_cancel s = Some t" "ses_contender s = None"
    | (idle) "\<forall>t c. SpamRunning i t c \<notin> set ts" "ses_spam_cancel s = None" "\<forall>p. ses_status s \<noteq> SessSpamming p"
    using life [unfolded life_ok_def i, folded ts_def] by (auto split: list.splits server_task.splits)
  then show ?thesis
  proof cases
    case run
    then have "SpamRunning j t c \<in> set ts" by simp
    then have "j = i" by (simp add: ts_def)
    with run assms(2,3) show ?thesis unfolding ts_def [symmetric] by (auto simp: rpc_stop_def cancel_token_def)
  next
    case idle
    with mem assms(2,3) show ?thesis by (auto simp: rpc_stop_def)
  qed
qed

section \<open>Concrete servers\<close>

definition demo_session_env :: session_env where
  "demo_session_env =
     \<lparr>se_valid_url = \<lambda>u. True, se_default_signers = [], se_signer_from_bytes = \<lambda>k. Err ''key'',
      se_new_provider = \<lambda>a. Ok (), se_base64_decode = \<lambda>s. Err ''base64'', se_from_utf8 = \<lambda>b. Err ''utf8'',
      se_parse_config = \<lambda>s. Err ''toml'', se_builtin = \<lambda>b u s. Err ''builtin'', se_default_config = test_config_new\<rparr>"

definition demo_add :: add_session_params where
  "demo_add = \<lparr>asp_name = ''demo'', asp_rpc_url = ''http://localhost:8545'', asp_test_config = None, asp_options = None\<rparr>"

definition demo_spam :: spam_params where
  "demo_spam = \<lparr>spm_session_id = 5, spm_txs_per_period = None, spm_duration = None, spm_spammer = None,
     spm_name = None, spm_save_receipts = None, spm_run_forever = None, spm_report_interval_secs = None\<rparr>"

definition demo_contender :: contender where
  "demo_contender = \<lparr>ct_ctx = demo_ctx, ct_state = Initialized [] (sp_scenario demo_spam_state)\<rparr>"

lemma demo_added: "\<exists>sv c. fst (rpc_add_session demo_session_env 5 True demo_add server_new) = sv \<and>
    sv_tasks sv = [InitPending 5] \<and> (\<exists>s. cc_sessions (sv_cache sv) = [s] \<and> ses_id s = 5 \<and> ses_contender s = Some (Uninit c))"
  by (simp add: rpc_add_session_def to_new_session_params_def demo_add_def demo_session_env_def cache_add_session_def
      session_new_def create_contender_def builder_def session_options_default_def apply_opt_def session_config_def
      server_new_def cache_new_def Let_def with_task_def)

lemma demo_ready:
  "\<exists>sv s. server_reachable demo_session_env sv \<and> serial_reachable demo_session_env sv \<and> sv_tasks sv = [] \<and>
     cache_get_session (sv_cache sv) 5 = Some s \<and> ses_status s = SessReady \<and>
     ses_contender s = Some (Init demo_contender)"
proof -
  let ?e = demo_session_env
  define sv1 where "sv1 = fst (rpc_add_session ?e 5 True demo_add server_new)"
  obtain c s1 where sv1: "sv_tasks sv1 = [InitPending 5]" "cc_sessions (sv_cache sv1) = [s1]" "ses_id s1 = 5"
    "ses_contender s1 = Some (Uninit c)" using demo_added sv1_def by blast
  then have get1: "cache_get_session (sv_cache sv1) 5 = Some s1" by (simp add: cache_get_session_def)
  define sv2 where "sv2 = init_take 5 sv1"
  have sv2: "sv_tasks sv2 = [InitRunning 5 c]"
    "cache_get_session (sv_cache sv2) 5 = Some (s1\<lparr>ses_contender := None\<rparr>)"
    using get1 sv1 by (simp_all add: sv2_def init_take_def take_uninitialized_def Let_def)
  define sv3 where "sv3 = init_finish 5 c (Ok demo_contender) sv2"
  have ph: "phase demo_contender = PhaseInitialized" by (simp add: phase_def demo_contender_def)
  let ?s3 = "set_status SessReady (store_initialized demo_contender (s1\<lparr>ses_contender := None\<rparr>))"
  have sv3: "sv_tasks sv3 = []" "cache_get_session (sv_cache sv3) 5 = Some ?s3"
    using sv2 by (simp_all add: sv3_def init_finish_def)
  have step1: "server_step ?e server_new sv1"
    unfolding sv1_def by (rule server_step.add [of _ "[5]"]) (simp add: server_new_def cache_new_def)
  have step2: "server_step ?e sv1 sv2" unfolding sv2_def by (rule server_step.init_take) (simp add: sv1)
  have step3: "server_step ?e sv2 sv3"
    unfolding sv3_def by (rule server_step.init_finish) (simp_all add: sv2 ph)
  have "server_reachable ?e sv3" by (meson server_reachable.intros step1 step2 step3)
  moreover have "serial_reachable ?e sv1"
    by (rule serial_reachable.other [OF serial_reachable.init step1]) (simp_all add: sv1 server_new_def)
  then have "serial_reachable ?e sv2"
    by (rule serial_reachable.other [OF _ step2])
       (use get1 in \<open>auto simp: sv1 sv2\<close>)
  then have "serial_reachable ?e sv3"
    by (rule serial_reachable.other [OF _ step3])
       (auto simp: sv2 sv3)
  moreover have "ses_contender ?s3 = Some (Init demo_contender)" using session_ok_store [OF ph] by simp
  ultimately show ?thesis using sv3 by auto
qed

theorem ready_session_spams_witness:
  "\<exists>sv sv1 sv2 msg token. server_reachable demo_session_env sv \<and> spam_check demo_spam sv = (sv1, Ok ()) \<and>
     spam_start demo_spam sv1 = (sv2, Ok msg) \<and> SpamRunning 5 token demo_contender \<in> set (sv_tasks sv2)"
proof -
  obtain sv s where sv: "server_reachable demo_session_env sv" "ses_contender s = Some (Init demo_contender)"
    and s: "cache_get_session (sv_cache sv) (spm_session_id demo_spam) = Some s" "ses_status s = SessReady"
    using demo_ready by (auto simp: demo_spam_def)
  from ready_session_spams [OF sv(1) s] sv show ?thesis by (fastforce simp: demo_spam_def)
qed

text \<open>Two calls have passed their check and one of them has started its run.\<close>

lemma demo_overlap:
  "\<exists>sv s t. server_reachable demo_session_env sv \<and> sv_tasks sv = [SpamChecked demo_spam, SpamRunning 5 t demo_contender] \<and>
     cache_get_session (sv_cache sv) 5 = Some s \<and> ses_contender s = None"
proof -
  let ?e = demo_session_env
  obtain sv s where sv: "server_reachable ?e sv" "sv_tasks sv = []" "cache_get_session (sv_cache sv) 5 = Some s"
    "ses_status s = SessReady" "ses_contender s = Some (Init demo_contender)" using demo_ready by blast
  have i: "spm_session_id demo_spam = 5" by (simp add: demo_spam_def)
  have check: "fst (spam_check demo_spam sv') = with_task (SpamChecked demo_spam) sv'" if "sv_cache sv' = sv_cache sv" for sv'
    using that sv i by (simp add: spam_check_def error_if_session_not_ready_def)
  define sv1 where "sv1 = with_task (SpamChecked demo_spam) (with_task (SpamChecked demo_spam) sv)"
  have step1: "server_step ?e sv (with_task (SpamChecked demo_spam) sv)"
    using server_step.check [of ?e sv demo_spam] check [OF refl] by simp
  have step2: "server_step ?e (with_task (SpamChecked demo_spam) sv) sv1"
    using server_step.check [of ?e "with_task (SpamChecked demo_spam) sv" demo_spam]
      check [of "with_task (SpamChecked demo_spam) sv"] by (simp add: sv1_def)
  have step3: "server_step ?e sv1 (fst (spam_start demo_spam sv1))"
    by (rule server_step.start) (simp add: sv1_def)
  have "server_reachable ?e (fst (spam_start demo_spam sv1))"
    using sv(1) step1 step2 step3 by (meson server_reachable.step)
  moreover have "spam_start demo_spam sv1 = spam_start demo_spam sv1 \<and> cache_get_session (sv_cache sv1) (spm_session_id demo_spam) = Some s"
    using sv i by (simp add: sv1_def)
  ultimately show ?thesis
    using sv i spam_start_taken [of sv1 demo_spam s demo_contender] by (force simp: sv1_def Let_def)
qed

theorem second_spam_call_detaches_stop_witness:
  "\<exists>sv t sv1 sv2. SpamRunning 5 t demo_contender \<in> set (sv_tasks sv) \<and>
     spam_start demo_spam sv = (sv1, Err (SessionNotFound 5)) \<and>
     rpc_stop 5 sv1 = (sv2, Ok (''Stopping session '' @ show_nat (unat (5 :: u64)))) \<and> SpamRunning 5 t demo_contender \<in> set (sv_tasks sv2)"
proof -
  obtain sv s t where sv: "server_reachable demo_session_env sv"
    "sv_tasks sv = [SpamChecked demo_spam, SpamRunning 5 t demo_contender]"
    "cache_get_session (sv_cache sv) 5 = Some s" "ses_contender s = None" using demo_overlap by blast
  obtain sv1 answer where start: "spam_start demo_spam sv = (sv1, answer)" by fastforce
  obtain sv2 stopped where stop: "rpc_stop 5 sv1 = (sv2, stopped)" by fastforce
  have i: "spm_session_id demo_spam = 5" by (simp add: demo_spam_def)
  have "SpamRunning 5 t demo_contender \<in> set (sv_tasks sv)" "SpamChecked demo_spam \<in> set (sv_tasks sv)"
    using sv(2) by simp_all
  from second_spam_call_detaches_stop [OF sv(1) this i sv(3,4) start stop] this start stop
  show ?thesis by blast
qed

theorem panicked_session_stays_busy_witness:
  "\<exists>sv s t. cache_get_session (sv_cache (fst (spam_start demo_spam
       (spam_finish 5 t demo_contender demo_contender ''boom'' Panic sv)))) 5 = Some s \<and> ses_status s = SessSpamming demo_spam"
proof -
  obtain sv :: server and s :: session and t where sv: "sv_tasks sv = [SpamChecked demo_spam, SpamRunning 5 t demo_contender]"
    "cache_get_session (sv_cache sv) 5 = Some s" "ses_contender s = None" using demo_overlap by blast
  have i: "spm_session_id demo_spam = 5" by (simp add: demo_spam_def)
  have "filter (lifecycle_task 5) (sv_tasks sv) = [SpamRunning 5 t demo_contender]" "SpamChecked demo_spam \<in> set (sv_tasks sv)"
    using sv(1) by simp_all
  from panicked_session_stays_busy [OF sv(2,3) this i refl rtranclp.rtrancl_refl] show ?thesis by blast
qed

theorem stop_reaches_the_run_witness:
  "\<exists>sv sv'. serial_reachable demo_session_env sv \<and> rpc_stop 5 sv = (sv', Err (SessionNotBusy 5)) \<and> sv' = sv"
proof -
  obtain sv s where sv: "serial_reachable demo_session_env sv" "sv_tasks sv = []"
    "cache_get_session (sv_cache sv) 5 = Some s" using demo_ready by blast
  obtain sv' answer where stop: "rpc_stop 5 sv = (sv', answer)" by fastforce
  from stop_reaches_the_run [OF sv(1,3) stop] sv stop show ?thesis by auto
qed

end
