(* ===== verification/Admin.thy ===== *)
theory Admin
  imports Cli_Fund Sqlite_Db
begin

text \<open>
  The command \<open>contender admin\<close> (\<open>crates/cli/src/commands/admin.rs\<close>): printing accounts, seeds and
  contract addresses, and \<open>reclaim-eth\<close>, which sends what the accounts of a scenario still hold to
  one recipient.  The node is the \<open>fund_client\<close> of the funding theory; the lines a subcommand
  prints are its result.
\<close>

section \<open>Errors and environment\<close>

datatype admin_error =
    SeedFileEmpty string
  | SeedFileDoesNotExist string
  | SeedFileInvalid string
  | AdminReadline string
  | AdminGenesisBlockMissing string
  | ContractNotFound string
  | ContractAddressMissing string

fun admin_error_text :: "admin_error \<Rightarrow> string" where
  "admin_error_text (SeedFileEmpty p) = ''seed file is empty. path: '' @ p"
| "admin_error_text (SeedFileDoesNotExist p) = ''failed to read seed file at path: '' @ p"
| "admin_error_text (SeedFileInvalid p) = ''invalid data in seed file at path: '' @ p"
| "admin_error_text (AdminReadline e) = ''failed to read input from stdin''"
| "admin_error_text (AdminGenesisBlockMissing u) = ''genesis block not found for rpc url: '' @ u"
| "admin_error_text (ContractNotFound n) = ''contract '' @ [CHR 0x27] @ n @ [CHR 0x27] @ '' not found for the provided rpc url''"
| "admin_error_text (ContractAddressMissing n) = ''contract '' @ [CHR 0x27] @ n @ [CHR 0x27] @ '' has no stored address''"

definition cli_admin :: "admin_error \<Rightarrow> cli_error" where
  "cli_admin e = CliAdmin (admin_error_text e)"

datatype admin_command =
    Accounts string nat
  | LatestRunId
  | SeedCommand
  | SetCodeSigner
  | ReclaimEth address "string option" "string list" nat "string option"
  | ContractAddress string string

text \<open>
  What the command calls outside the repository: hexadecimal decoding, the checksummed form of an
  address, URL parsing, the scenario file with its TOML decoder, the node, stdin, and the functions
  keys are derived with.
\<close>

record 'c admin_env =
  ad_files :: fs
  ad_read_fails :: bool
  ad_stdin_error :: "string option"
  ad_hex_decode :: "string \<Rightarrow> u8 list option"
  ad_show_address :: "address \<Rightarrow> string"
  ad_parse_url :: "string \<Rightarrow> (string, string) rresult"
  ad_load_config :: "string \<Rightarrow> (test_config, campaign_error) rresult"
  ad_client :: "string \<Rightarrow> 'c fund_client"
  ad_genesis :: "string \<Rightarrow> 'c \<Rightarrow> (tx_hash option, rpc_failure) rresult"
  ad_keccak :: "u8 list \<Rightarrow> u8 list"
  ad_signer_of :: signer_fn
  ad_sql :: sql_env
  ad_codec :: hex_codec

section \<open>Seeds and accounts\<close>

definition read_seed_file :: "'c admin_env \<Rightarrow> string \<Rightarrow> (u8 list, cli_error) rresult" where
  "read_seed_file e data_dir =
     (let seed_path = path_join data_dir ''seed''
      in rbind (case hm_get (ad_files e) seed_path of
                  Some (File t) \<Rightarrow> if ad_read_fails e then Err (cli_admin (SeedFileDoesNotExist seed_path)) else Ok t
                | _ \<Rightarrow> Err (cli_admin (SeedFileDoesNotExist seed_path))) (\<lambda>seed_hex.
         rbind (ok_or (ad_hex_decode e (trim seed_hex)) (cli_admin (SeedFileInvalid seed_path))) (\<lambda>decoded.
         if decoded = [] then Err (cli_admin (SeedFileEmpty seed_path)) else Ok decoded)))"

definition confirm_sensitive_operation :: "'c admin_env \<Rightarrow> (unit, cli_error) rresult" where
  "confirm_sensitive_operation e =
     (case ad_stdin_error e of Some x \<Rightarrow> Err (cli_admin (AdminReadline x)) | None \<Rightarrow> Ok ())"

definition print_accounts_for_pool ::
  "'c admin_env \<Rightarrow> string \<Rightarrow> nat \<Rightarrow> rand_seed \<Rightarrow> (string list, cli_error) rresult" where
  "print_accounts_for_pool e pool num_signers s =
     rbind (signer_store_new (ad_keccak e) (ad_signer_of e) num_signers s pool Spammer) (\<lambda>agent.
     Ok (map (\<lambda>i. ''Signer '' @ show_nat i @ '': '' @ ad_show_address e (all_addresses agent ! i))
           [0..<length (all_addresses agent)] @
         [''---------------------------------''] @
         map (\<lambda>i. ''Private Key '' @ show_nat i @ '': 0x'' @ encode_hex (sg_key (ss_signers agent ! i)))
           [0..<length (all_addresses agent)]))"

definition handle_accounts ::
  "'c admin_env \<Rightarrow> string \<Rightarrow> nat \<Rightarrow> string \<Rightarrow> (string list, cli_error) rresult" where
  "handle_accounts e from_pool num_signers data_dir =
     rbind (read_seed_file e data_dir) (\<lambda>seed_bytes.
       print_accounts_for_pool e from_pool num_signers (seed_from_bytes seed_bytes))"

definition handle_seed :: "'c admin_env \<Rightarrow> string \<Rightarrow> (string list, cli_error) rresult" where
  "handle_seed e data_dir =
     rbind (confirm_sensitive_operation e) (\<lambda>_.
     rbind (read_seed_file e data_dir) (\<lambda>seed_bytes. Ok [encode_hex seed_bytes]))"

definition print_setcode_account :: "'c admin_env \<Rightarrow> string \<Rightarrow> (string list, cli_error) rresult" where
  "print_setcode_account e data_dir =
     rbind (confirm_sensitive_operation e) (\<lambda>_.
     rbind (read_seed_file e data_dir) (\<lambda>seed_bytes.
     rbind (generate_setcode_signer (ad_keccak e) (ad_signer_of e) (seed_from_bytes seed_bytes)) (\<lambda>(sg, key).
     Ok [''Address:'' @ [CHR 0x09] @ ad_show_address e (sg_address sg),
         ''Private Key:'' @ [CHR 0x09] @ ''0x'' @ encode_hex key])))"

section \<open>Reclaiming\<close>

text \<open>The pools a scenario file names, with the two defaults.\<close>

definition scenario_pools :: "test_config \<Rightarrow> string list" where
  "scenario_pools config =
     (let insert_all = fold List.insert;
          pools0 = List.insert ''spammers'' (List.insert ''admin'' []);
          pools1 = insert_all (List.map_filter cd_from_pool (unwrap_or_default (tc_create config))) pools0;
          pools2 = insert_all (List.map_filter fd_from_pool (unwrap_or_default (tc_setup config))) pools1
      in insert_all (List.map_filter fd_from_pool
           (concat (map spam_calls (unwrap_or_default (tc_spam config))))) pools2)"

text \<open>\<open>Path::file_stem\<close>: the last component without its extension.\<close>

fun path_components :: "string \<Rightarrow> string \<Rightarrow> string list" where
  "path_components acc [] = (if acc = [] then [] else [rev acc])"
| "path_components acc (c # cs) =
     (if c = CHR ''/'' then (if acc = [] then path_components [] cs else rev acc # path_components [] cs)
      else path_components (c # acc) cs)"

definition file_stem :: "string \<Rightarrow> string option" where
  "file_stem p =
     (case rev (filter (\<lambda>x. x \<noteq> ''.'') (path_components [] p)) of
        [] \<Rightarrow> None
      | name # _ \<Rightarrow>
          if name = ''..'' then None
          else let ext = takeWhile (\<lambda>c. c \<noteq> CHR ''.'') (rev name)
               in if length name \<le> Suc (length ext) then Some name
                  else Some (take (length name - Suc (length ext)) name))"

definition reclaim_targets ::
  "'c admin_env \<Rightarrow> sqlite_db \<Rightarrow> string option \<Rightarrow> string list \<Rightarrow> string option
    \<Rightarrow> (string \<times> string list, cli_error) rresult" where
  "reclaim_targets e d rpc from_pool scenario_file =
     (case scenario_file of
        Some scenario_path \<Rightarrow>
          rbind (rmap_err CliTestFile (ad_load_config e scenario_path)) (\<lambda>config.
            let final_pools = (if from_pool = [] then scenario_pools config else from_pool);
                scenario_name = (case file_stem scenario_path of Some s \<Rightarrow> s | None \<Rightarrow> ''unknown'');
                rpc_url = (case rpc of
                             Some url \<Rightarrow> url
                           | None \<Rightarrow> (case get_rpc_url_for_scenario (ad_sql e) d scenario_name of
                                        Some url \<Rightarrow> url | None \<Rightarrow> ''http://localhost:8545''))
            in Ok (rpc_url, final_pools))
      | None \<Rightarrow>
          Ok (case rpc of Some url \<Rightarrow> url | None \<Rightarrow> ''http://localhost:8545'',
              if from_pool = [] then [''spammers''] else from_pool))"

definition reclaim_tx :: "address \<Rightarrow> address \<Rightarrow> u256 \<Rightarrow> u64 \<Rightarrow> u128 \<Rightarrow> u64 \<Rightarrow> tx_request" where
  "reclaim_tx from recipient transfer_amount nonce gas_price chain_id =
     tx_request_default\<lparr>tx_from := Some from, tx_to := Some (TxCall recipient),
       tx_value := Some transfer_amount, tx_nonce := Some nonce, tx_gas := Some 21000,
       tx_gas_price := Some gas_price, tx_chain_id := Some chain_id\<rparr>"

type_synonym reclaimed = "u256 \<times> nat"

text \<open>The body of the inner loop: one account, with the totals so far.\<close>

definition reclaim_account ::
  "'c fund_client \<Rightarrow> address \<Rightarrow> signer \<Rightarrow> reclaimed \<Rightarrow> ('c, reclaimed, cli_error) action" where
  "reclaim_account cl recipient sg acc ch =
     (case rmap_err cli_rpc (fc_balance cl ch (sg_address sg)) of
        Ok balance \<Rightarrow>
          if balance = 0 then (ch, Ok acc)
          else (case rmap_err cli_rpc (fc_gas_price cl ch) of
             Ok gas_price \<Rightarrow>
               (let gas_cost = ucast gas_price * 21000
                in if balance \<le> gas_cost then (ch, Ok acc)
                   else let transfer_amount = balance - gas_cost
                        in (case rbind (rmap_err cli_rpc (fc_tx_count cl ch (sg_address sg))) (\<lambda>nonce.
                                 rbind (rmap_err cli_rpc (fc_chain_id cl ch)) (\<lambda>chain_id.
                                 let tx = reclaim_tx (sg_address sg) recipient transfer_amount nonce gas_price chain_id
                                 in rbind (rmap_err (\<lambda>x. CliUtil (UtilBuildTxFailed x)) (fc_sign cl tx sg)) (\<lambda>_. Ok tx))) of
                              Ok tx \<Rightarrow>
                                (case fc_send cl ch tx of
                                   (ch', Ok _) \<Rightarrow> (ch', Ok (fst acc + transfer_amount, Suc (snd acc)))
                                 | (ch', Err x) \<Rightarrow> (ch', Err (cli_rpc x))
                                 | (ch', Panic) \<Rightarrow> (ch', Panic))
                            | Err x \<Rightarrow> (ch, Err x)
                            | Panic \<Rightarrow> (ch, Panic)))
           | Err x \<Rightarrow> (ch, Err x)
           | Panic \<Rightarrow> (ch, Panic))
      | Err x \<Rightarrow> (ch, Err x)
      | Panic \<Rightarrow> (ch, Panic))"

fun reclaim_accounts ::
  "'c fund_client \<Rightarrow> address \<Rightarrow> signer list \<Rightarrow> reclaimed \<Rightarrow> ('c, reclaimed, cli_error) action" where
  "reclaim_accounts cl recipient [] acc = sreturn acc"
| "reclaim_accounts cl recipient (sg # sgs) acc =
     sbind (reclaim_account cl recipient sg acc) (reclaim_accounts cl recipient sgs)"

fun reclaim_pools ::
  "'c admin_env \<Rightarrow> 'c fund_client \<Rightarrow> address \<Rightarrow> nat \<Rightarrow> rand_seed \<Rightarrow> string list \<Rightarrow> reclaimed
    \<Rightarrow> ('c, reclaimed, cli_error) action" where
  "reclaim_pools e cl recipient n s [] acc = sreturn acc"
| "reclaim_pools e cl recipient n s (pool_name # pools) acc =
     sbind (slift (signer_store_new (ad_keccak e) (ad_signer_of e) n s pool_name Spammer)) (\<lambda>signer_store.
     sbind (reclaim_accounts cl recipient (ss_signers signer_store) acc)
       (reclaim_pools e cl recipient n s pools))"

definition handle_reclaim_eth ::
  "'c admin_env \<Rightarrow> sqlite_db \<Rightarrow> address \<Rightarrow> string option \<Rightarrow> string list \<Rightarrow> nat \<Rightarrow> string option \<Rightarrow> string
    \<Rightarrow> ('c, reclaimed, cli_error) action" where
  "handle_reclaim_eth e d recipient rpc from_pool num_accounts scenario_file data_dir =
     sbind (slift (reclaim_targets e d rpc from_pool scenario_file)) (\<lambda>(rpc_url, agent_pools).
     sbind (slift (rmap_err (\<lambda>x. CliArgs (ArgsUrlParse x)) (ad_parse_url e rpc_url))) (\<lambda>url.
     sbind (slift (read_seed_file e data_dir)) (\<lambda>seed_bytes.
       reclaim_pools e (ad_client e url) recipient num_accounts (seed_from_bytes seed_bytes) agent_pools (0, 0))))"

section \<open>The command\<close>

definition handle_contract_address ::
  "'c admin_env \<Rightarrow> sqlite_db \<Rightarrow> string \<Rightarrow> string \<Rightarrow> 'c \<Rightarrow> (string list, cli_error) rresult" where
  "handle_contract_address e d contract_name rpc_url ch =
     rbind (rmap_err cli_rpc (ad_genesis e rpc_url ch)) (\<lambda>genesis_block.
     rbind (ok_or genesis_block (cli_admin (AdminGenesisBlockMissing rpc_url))) (\<lambda>genesis_hash.
     rbind (rmap_err CliDb (get_named_tx (ad_sql e) (ad_codec e) d contract_name rpc_url genesis_hash)) (\<lambda>found.
     rbind (ok_or found (cli_admin (ContractNotFound contract_name))) (\<lambda>named_tx.
     rbind (ok_or (nt_address named_tx) (cli_admin (ContractAddressMissing contract_name))) (\<lambda>a.
     Ok [ad_show_address e a])))))"

fun handle_admin_command ::
  "'c admin_env \<Rightarrow> sqlite_db \<Rightarrow> string \<Rightarrow> admin_command \<Rightarrow> ('c, string list, cli_error) action" where
  "handle_admin_command e d data_dir (Accounts from_pool num_signers) =
     slift (handle_accounts e from_pool num_signers data_dir)"
| "handle_admin_command e d data_dir LatestRunId =
     slift (rbind (rmap_err CliDb (num_runs (ad_sql e) d)) (\<lambda>num_runs. Ok [show_nat num_runs]))"
| "handle_admin_command e d data_dir SeedCommand = slift (handle_seed e data_dir)"
| "handle_admin_command e d data_dir SetCodeSigner = slift (print_setcode_account e data_dir)"
| "handle_admin_command e d data_dir (ReclaimEth to_addr rpc from_pool num_signers scenario_file) =
     sbind (handle_reclaim_eth e d to_addr rpc from_pool num_signers scenario_file data_dir) (\<lambda>_. sreturn [])"
| "handle_admin_command e d data_dir (ContractAddress contract_name rpc_url) =
     (\<lambda>ch. slift (handle_contract_address e d contract_name rpc_url ch) ch)"

section \<open>Reclaimed accounts\<close>

text \<open>
  The chain after the node has accepted a list of transactions, one after the other.  Nothing is assumed of when, or
  whether, an accepted transaction is executed: the command does not wait for that.
\<close>

fun accepted :: "'c fund_client \<Rightarrow> tx_request list \<Rightarrow> 'c \<Rightarrow> 'c option" where
  "accepted cl [] ch = Some ch"
| "accepted cl (tx # txs) ch =
     (case fc_send cl ch tx of (ch1, Ok h) \<Rightarrow> accepted cl txs ch1 | _ \<Rightarrow> None)"

lemma accepted_append:
  "accepted cl (txs @ us) ch = (case accepted cl txs ch of Some ch1 \<Rightarrow> accepted cl us ch1 | None \<Rightarrow> None)"
  by (induction txs arbitrary: ch) (auto split: prod.splits rresult.splits)

text \<open>
  An account was visited in the course of these transactions: at some point between two of them it was empty or could not
  pay for a transfer, or the next transaction moves all it holds, less the gas of the transfer, to the recipient.
\<close>

definition visited :: "'c fund_client \<Rightarrow> address \<Rightarrow> tx_request list \<Rightarrow> 'c \<Rightarrow> address \<Rightarrow> bool" where
  "visited cl recipient txs ch x \<longleftrightarrow>
     (\<exists>i \<le> length txs. \<exists>ch0 b. accepted cl (take i txs) ch = Some ch0 \<and> fc_balance cl ch0 x = Ok b \<and>
        (b = 0 \<or> (\<exists>gp. fc_gas_price cl ch0 = Ok gp \<and>
          (b \<le> ucast gp * 21000 \<or>
           i < length txs \<and> (\<exists>nonce chain_id. txs ! i = reclaim_tx x recipient (b - ucast gp * 21000) nonce gp chain_id)))))"

lemma visited_append1: "visited cl r txs ch x \<Longrightarrow> visited cl r (txs @ us) ch x"
proof -
  assume "visited cl r txs ch x"
  then obtain i ch0 b where i: "i \<le> length txs" "accepted cl (take i txs) ch = Some ch0" "fc_balance cl ch0 x = Ok b"
    "b = 0 \<or> (\<exists>gp. fc_gas_price cl ch0 = Ok gp \<and> (b \<le> ucast gp * 21000 \<or>
       i < length txs \<and> (\<exists>nonce chain_id. txs ! i = reclaim_tx x r (b - ucast gp * 21000) nonce gp chain_id)))"
    unfolding visited_def by blast
  then show ?thesis unfolding visited_def by (intro exI [of _ i] exI [of _ ch0] exI [of _ b]) (auto simp: nth_append)
qed

lemma visited_append2:
  assumes "accepted cl txs ch = Some ch1" and "visited cl r us ch1 x"
  shows "visited cl r (txs @ us) ch x"
proof -
  from assms(2) obtain i ch0 b where i: "i \<le> length us" "accepted cl (take i us) ch1 = Some ch0" "fc_balance cl ch0 x = Ok b"
    "b = 0 \<or> (\<exists>gp. fc_gas_price cl ch0 = Ok gp \<and> (b \<le> ucast gp * 21000 \<or>
       i < length us \<and> (\<exists>nonce chain_id. us ! i = reclaim_tx x r (b - ucast gp * 21000) nonce gp chain_id)))"
    unfolding visited_def by blast
  have "accepted cl (take (length txs + i) (txs @ us)) ch = Some ch0" using assms(1) i(2) by (simp add: accepted_append)
  with i show ?thesis unfolding visited_def
    by (intro exI [of _ "length txs + i"] exI [of _ ch0] exI [of _ b]) (auto simp: nth_append)
qed

text \<open>What a stretch of the loops has done: the accepted transfers, the totals, and the accounts visited.\<close>

definition reclaim_run ::
  "'c fund_client \<Rightarrow> address \<Rightarrow> address set \<Rightarrow> 'c \<Rightarrow> reclaimed \<Rightarrow> 'c \<Rightarrow> reclaimed \<Rightarrow> tx_request list \<Rightarrow> bool" where
  "reclaim_run cl r X ch acc ch' acc' txs \<longleftrightarrow> accepted cl txs ch = Some ch' \<and>
     acc' = (fst acc + sum_list (map (the \<circ> tx_value) txs), snd acc + length txs) \<and>
     (\<forall>tx \<in> set txs. tx_to tx = Some (TxCall r) \<and> tx_value tx \<noteq> None) \<and> (\<forall>x \<in> X. visited cl r txs ch x)"

lemma reclaim_run_refl: "reclaim_run cl r {} ch acc ch acc []"
  by (simp add: reclaim_run_def)

lemma reclaim_run_trans:
  assumes "reclaim_run cl r X ch acc ch1 acc1 txs" and "reclaim_run cl r Y ch1 acc1 ch' acc' us"
  shows "reclaim_run cl r (X \<union> Y) ch acc ch' acc' (txs @ us)"
  using assms visited_append1 [of cl r txs ch _ us] visited_append2 [of cl txs ch ch1 r us]
  by (auto simp: reclaim_run_def accepted_append add.assoc)

lemma reclaim_account_run:
  assumes "reclaim_account cl r sg acc ch = (ch', Ok acc')"
  shows "\<exists>txs. reclaim_run cl r {sg_address sg} ch acc ch' acc' txs"
proof -
  let ?a = "sg_address sg"
  from assms obtain balance where bal: "fc_balance cl ch ?a = Ok balance"
    by (auto simp: reclaim_account_def split: rresult.splits)
  have same: "\<exists>txs. reclaim_run cl r {?a} ch acc ch' acc' txs"
    if "ch' = ch" "acc' = acc" "balance = 0 \<or> (\<exists>gp. fc_gas_price cl ch = Ok gp \<and> balance \<le> ucast gp * 21000)"
    using that bal by (intro exI [of _ "[]"]) (auto simp: reclaim_run_def visited_def)
  show ?thesis
  proof (cases "balance = 0")
    case True
    with assms bal same show ?thesis by (auto simp: reclaim_account_def)
  next
    case nz: False
    with assms bal obtain gp where gp: "fc_gas_price cl ch = Ok gp"
      by (auto simp: reclaim_account_def split: rresult.splits)
    let ?cost = "ucast gp * 21000 :: u256"
    show ?thesis
    proof (cases "balance \<le> ?cost")
      case True
      with assms bal nz gp same show ?thesis by (auto simp: reclaim_account_def)
    next
      case False
      with assms bal nz gp obtain nonce chain_id h where
        send: "fc_send cl ch (reclaim_tx ?a r (balance - ?cost) nonce gp chain_id) = (ch', Ok h)"
        and acc': "acc' = (fst acc + (balance - ?cost), Suc (snd acc))"
        by (auto simp: reclaim_account_def Let_def split: rresult.splits prod.splits)
      let ?tx = "reclaim_tx ?a r (balance - ?cost) nonce gp chain_id"
      have "visited cl r [?tx] ch ?a"
        unfolding visited_def using bal gp by (intro exI [of _ 0] exI [of _ ch] exI [of _ balance]) auto
      moreover have "tx_to ?tx = Some (TxCall r)" "tx_value ?tx = Some (balance - ?cost)" by (simp_all add: reclaim_tx_def)
      ultimately show ?thesis using send acc' by (intro exI [of _ "[?tx]"]) (simp add: reclaim_run_def)
    qed
  qed
qed

lemma reclaim_accounts_run:
  "reclaim_accounts cl r sgs acc ch = (ch', Ok acc') \<Longrightarrow> \<exists>txs. reclaim_run cl r (sg_address ` set sgs) ch acc ch' acc' txs"
proof (induction sgs arbitrary: acc ch)
  case (Cons sg sgs)
  then obtain ch1 acc1 where one: "reclaim_account cl r sg acc ch = (ch1, Ok acc1)"
    and rest: "reclaim_accounts cl r sgs acc1 ch1 = (ch', Ok acc')" by auto
  from reclaim_account_run [OF one] Cons.IH [OF rest] obtain txs us where
    "reclaim_run cl r {sg_address sg} ch acc ch1 acc1 txs" "reclaim_run cl r (sg_address ` set sgs) ch1 acc1 ch' acc' us" by blast
  then have "reclaim_run cl r ({sg_address sg} \<union> sg_address ` set sgs) ch acc ch' acc' (txs @ us)" by (rule reclaim_run_trans)
  then show ?case by auto
qed (auto simp: sreturn_def intro: reclaim_run_refl)

definition derived_addresses :: "'c admin_env \<Rightarrow> nat \<Rightarrow> rand_seed \<Rightarrow> string list \<Rightarrow> address set" where
  "derived_addresses e n s pools =
     {a. \<exists>p \<in> set pools. \<exists>st. signer_store_new (ad_keccak e) (ad_signer_of e) n s p Spammer
            = (Ok st :: (signer_store, cli_error) rresult) \<and> a \<in> set (all_addresses st)}"

lemma reclaim_pools_run:
  assumes "reclaim_pools e cl r n s pools acc ch = (ch', Ok acc')"
  shows "(\<exists>txs. reclaim_run cl r (derived_addresses e n s pools) ch acc ch' acc' txs) \<and>
    (\<forall>q \<in> set pools. \<exists>st. signer_store_new (ad_keccak e) (ad_signer_of e) n s q Spammer
        = (Ok st :: (signer_store, cli_error) rresult))"
  using assms
proof (induction pools arbitrary: acc ch)
  case Nil
  then show ?case by (auto simp: derived_addresses_def sreturn_def intro: reclaim_run_refl)
next
  case (Cons q pools)
  from Cons.prems obtain st ch1 acc1 where
    st: "signer_store_new (ad_keccak e) (ad_signer_of e) n s q Spammer = (Ok st :: (signer_store, cli_error) rresult)"
    and one: "reclaim_accounts cl r (ss_signers st) acc ch = (ch1, Ok acc1)"
    and rest: "reclaim_pools e cl r n s pools acc1 ch1 = (ch', Ok acc')" by auto
  have split: "derived_addresses e n s (q # pools) = sg_address ` set (ss_signers st) \<union> derived_addresses e n s pools"
    using st by (auto simp: derived_addresses_def all_addresses_def)
  from reclaim_accounts_run [OF one] Cons.IH [OF rest] st show ?case
    unfolding split by (metis reclaim_run_trans set_ConsD)
qed

lemma set_fold_insert: "set (fold List.insert xs ys) = set xs \<union> set ys"
  by (induction xs arbitrary: ys) auto

lemma scenario_pools_cover:
  "set (get_create_pools cfg) \<union> set (get_setup_pools cfg) \<union> set (get_spam_pools cfg) \<subseteq> set (scenario_pools cfg)"
proof -
  have create: "set (get_create_pools cfg) \<subseteq>
      insert ''admin'' (set (List.map_filter cd_from_pool (unwrap_or_default (tc_create cfg))))"
    by (auto simp: get_create_pools_def get_create_steps_def default_create_pool_def map_filter_def
        split: if_splits)
  have calls: "set (List.map_filter fd_from_pool (map (default_call_pool d) l)) \<subseteq>
      insert d (set (List.map_filter fd_from_pool l))" for d l
    by (auto simp: default_call_pool_def map_filter_def split: if_splits)
  have steps: "spam_calls (default_spam_pool q) = map (default_call_pool ''spammers'') (spam_calls q)" for q
    by (cases q) simp_all
  have "concat (map spam_calls (get_spam_steps cfg))
      = map (default_call_pool ''spammers'') (concat (map spam_calls (unwrap_or_default (tc_spam cfg))))"
    by (simp add: get_spam_steps_def map_concat comp_def steps)
  then have spam: "set (get_spam_pools cfg) \<subseteq> insert ''spammers'' (set (List.map_filter fd_from_pool
      (concat (map spam_calls (unwrap_or_default (tc_spam cfg))))))"
    using calls by (simp add: get_spam_pools_def)
  have "set (get_setup_pools cfg) \<subseteq>
      insert ''admin'' (set (List.map_filter fd_from_pool (unwrap_or_default (tc_setup cfg))))"
    using calls by (simp add: get_setup_pools_def get_setup_steps_def)
  with create spam show ?thesis by (auto simp: scenario_pools_def Let_def set_fold_insert)
qed

lemma signer_store_prefix:
  assumes "signer_store_new keccak signer_of k s name cls = (Ok a :: (signer_store, 'e) rresult)"
    and "signer_store_new keccak signer_of n s name cls' = (Ok b :: (signer_store, 'e) rresult)" and "k \<le> n"
  shows "set (ss_signers a) \<subseteq> set (ss_signers b)"
proof -
  from assms(2) obtain v vs where v: "u256_from_be_slice (bytes_of_string name) = (Ok v :: (_, 'e) rresult)"
    and vs: "seed_values keccak (seed_from_u256 (as_u256 s + v)) n None None = (Ok vs :: (_, 'e) rresult)"
    and b: "rmapM (\<lambda>x. expect (signer_of (as_bytes x))) vs = (Ok (ss_signers b) :: (_, 'e) rresult)"
    by (auto simp: signer_store_new_def)
  have "seed_values keccak (seed_from_u256 (as_u256 s + v)) k None None = (Ok (take k vs) :: (_, 'e) rresult)"
    using assms(3) vs by (rule seed_values_take)
  with assms(1) v have "rmapM (\<lambda>x. expect (signer_of (as_bytes x))) (take k vs) = (Ok (ss_signers a) :: (_, 'e) rresult)"
    by (auto simp: signer_store_new_def)
  with b have "\<exists>j < length (ss_signers b). ss_signers a ! i = ss_signers b ! j" if "i < length (ss_signers a)" for i
    using that by (intro exI [of _ i]) (auto simp: rmapM_eq_Ok list_all2_conv_all_nth, metis min_less_iff_conj)
  then show ?thesis by (metis in_set_conv_nth subsetI)
qed

lemma stored_seed_agrees:
  assumes "load_seedfile fe fresh data_dir (ad_files e) = (m, Ok stored)"
    and "hm_get (ad_files e) (path_join data_dir ''seed'') = Some (File t)"
    and "seed_from_str from_str_radix stored = (Ok s :: (rand_seed, cli_error) rresult)"
    and "from_str_radix t 16 = Some (word_of_nat (be_val bs))" and "length bs = 32"
  shows "s = seed_from_bytes bs"
proof -
  have "stored = ''0x'' @ t"
    using assms(1,2) by (auto simp: load_seedfile_def Let_def path_exists_def hm_contains_def split: if_splits)
  with assms(3,4) have "s = seed_from_u256 (word_of_nat (be_val bs))" by (simp add: seed_from_str_def)
  also have "unat (word_of_nat (be_val bs) :: u256) = be_val bs"
    using be_val_less [of bs] assms(5) by (simp add: unat_of_nat)
  with assms(5) have "seed_from_u256 (word_of_nat (be_val bs)) = \<lparr>seed = bs\<rparr>"
    using be_bytes_be_val [of bs] by (simp add: seed_from_u256_def)
  finally show ?thesis using assms(5) by (simp add: seed_from_bytes_def fill_bytes_32)
qed

lemma agent_accounts_derived:
  assumes "build_agent_store (ad_keccak e) (ad_signer_of e) cfg s spec = (Ok agents :: (agent_store, cli_error) rresult)"
    and "as_create_accounts spec \<le> n" and "as_setup_accounts spec \<le> n" and "as_spam_accounts spec \<le> n"
    and "\<forall>q \<in> set (scenario_pools cfg). \<exists>st. signer_store_new (ad_keccak e) (ad_signer_of e) n s q Spammer
        = (Ok st :: (signer_store, cli_error) rresult)"
    and "get_agent agents q = Some a"
  shows "set (all_addresses a) \<subseteq> derived_addresses e n s (scenario_pools cfg)"
proof -
  from agent_store_new [OF assms(1,6)] obtain k cls where "0 < k"
    and k: "signer_store_new (ad_keccak e) (ad_signer_of e) k s q cls = (Ok a :: (signer_store, cli_error) rresult)"
    by blast
  from k have len: "length (ss_signers a) = k" by (rule signer_store_new_length)
  from agent_store_counts [OF assms(1), of q] assms(6) len
  have count: "k = max (if q \<in> set (get_create_pools cfg) then as_create_accounts spec else 0)
      (max (if q \<in> set (get_setup_pools cfg) then as_setup_accounts spec else 0)
        (if q \<in> set (get_spam_pools cfg) then as_spam_accounts spec else 0))" by simp
  with \<open>0 < k\<close> have "q \<in> set (get_create_pools cfg) \<union> set (get_setup_pools cfg) \<union> set (get_spam_pools cfg)"
    by (auto split: if_splits)
  with scenario_pools_cover have q: "q \<in> set (scenario_pools cfg)" by blast
  with assms(5) obtain st where st: "signer_store_new (ad_keccak e) (ad_signer_of e) n s q Spammer
      = (Ok st :: (signer_store, cli_error) rresult)" by blast
  have "k \<le> n" using count assms(2-4) by simp
  from signer_store_prefix [OF k st this] q st show ?thesis
    by (auto simp: derived_addresses_def all_addresses_def intro!: bexI [of _ q] exI [of _ st])
qed

section \<open>Properties\<close>

text \<open>
  C23. Reclaiming reaches the accounts of a scenario.  Let \<open>contender admin reclaim-eth\<close> be run with
  the scenario file that was spammed with, on a seed file of exactly 32 bytes in hexadecimal without surrounding white space, and let
  no section of the scenario have asked for more accounts than the command is told.  Then the seed it derives
  accounts from is the one the spam command read from the same file, its pools include every pool of
  the scenario's agent store, defaults included, and its accounts include every account of the store.
  If the command succeeds, there is a list of transactions that the node accepted one after the other, all to the
  recipient, whose number and summed values are what it reports; and for every account of the store, at the point where it was
  visited, its balance was zero or at most the gas of a transfer, or the next of these transactions moves from it to
  the recipient exactly its balance less that gas.  Whether and when the node executes them is not claimed: the
  command does not wait for it.
\<close>

theorem reclaim_reaches_scenario_accounts:
  assumes "hm_get (ad_files e) (path_join data_dir ''seed'') = Some (File t)" and "trim t = t"
    and "ad_hex_decode e t = Some bs" and "length bs = 32"
    and "from_str_radix t 16 = Some (word_of_nat (be_val bs))"
    and "load_seedfile fe fresh data_dir (ad_files e) = (m, Ok stored)"
    and "seed_from_str from_str_radix stored = (Ok s :: (rand_seed, cli_error) rresult)"
    and "ad_load_config e path = Ok cfg"
    and "build_agent_store (ad_keccak e) (ad_signer_of e) cfg s spec = (Ok agents :: (agent_store, cli_error) rresult)"
    and "as_create_accounts spec \<le> n" and "as_setup_accounts spec \<le> n" and "as_spam_accounts spec \<le> n"
    and "ad_parse_url e rpc = Ok url"
    and "handle_reclaim_eth e d recipient (Some rpc) [] n (Some path) data_dir ch = (ch', Ok (total_reclaimed, k))"
  shows "\<exists>txs. accepted (ad_client e url) txs ch = Some ch' \<and> k = length txs
    \<and> total_reclaimed = sum_list (map (the \<circ> tx_value) txs)
    \<and> (\<forall>tx \<in> set txs. tx_to tx = Some (TxCall recipient) \<and> tx_value tx \<noteq> None)
    \<and> (\<forall>q a. get_agent agents q = Some a \<longrightarrow> (\<forall>x \<in> set (all_addresses a). visited (ad_client e url) recipient txs ch x))"
proof -
  have seed: "s = seed_from_bytes bs"
    using assms(6,1,7,5,4) by (rule stored_seed_agrees)
  have "bs \<noteq> []" using assms(4) by auto
  then have "reclaim_pools e (ad_client e url) recipient n s (scenario_pools cfg) (0, 0) ch = (ch', Ok (total_reclaimed, k))"
    using assms(1,2,3,8,13,14)
    by (auto simp: handle_reclaim_eth_def reclaim_targets_def read_seed_file_def Let_def seed split: if_splits)
  from reclaim_pools_run [OF this] obtain txs where
    run: "reclaim_run (ad_client e url) recipient (derived_addresses e n s (scenario_pools cfg)) ch (0, 0) ch' (total_reclaimed, k) txs"
    and all: "\<forall>q \<in> set (scenario_pools cfg). \<exists>st. signer_store_new (ad_keccak e) (ad_signer_of e) n s q Spammer
        = (Ok st :: (signer_store, cli_error) rresult)" by blast
  have "\<forall>x \<in> set (all_addresses a). visited (ad_client e url) recipient txs ch x" if "get_agent agents q = Some a" for q a
    using agent_accounts_derived [OF assms(9-12) all that] run by (auto simp: reclaim_run_def)
  with run show ?thesis by (auto simp: reclaim_run_def)
qed

text \<open>A node that takes transactions into its pool without executing them, and one key for every account.\<close>

definition demo_pool_client :: "tx_request list fund_client" where
  "demo_pool_client =
     \<lparr>fc_balance = \<lambda>txs a. Ok 50000, fc_tx_count = \<lambda>txs a. Ok 0, fc_gas_price = \<lambda>txs. Ok 1,
      fc_chain_id = \<lambda>txs. Ok 1, fc_blob_base_fee = \<lambda>txs. Ok 0, fc_sign = \<lambda>tx s. Ok 1,
      fc_send = \<lambda>txs tx. (txs @ [tx], Ok 1), fc_watch = \<lambda>txs h. (txs, Confirmed),
      fc_advance = \<lambda>txs. (txs, Ok ())\<rparr>"

definition demo_admin_env :: "tx_request list admin_env" where
  "demo_admin_env =
     \<lparr>ad_files = [(''/seed'', File (replicate 64 (CHR ''0'')))], ad_read_fails = False,
      ad_stdin_error = None, ad_hex_decode = \<lambda>t. Some (replicate (length t div 2) 0),
      ad_show_address = \<lambda>a. [], ad_parse_url = Ok, ad_load_config = \<lambda>path. Ok demo_config,
      ad_client = \<lambda>url. demo_pool_client, ad_genesis = \<lambda>url ch. Ok None,
      ad_keccak = \<lambda>b. b, ad_signer_of = \<lambda>k. Some \<lparr>sg_key = k, sg_address = 1\<rparr>,
      ad_sql = demo_env, ad_codec = std_codec\<rparr>"

lemma demo_accepted: "accepted demo_pool_client txs pool = Some pool' \<longleftrightarrow> pool' = pool @ txs"
  by (induction txs arbitrary: pool) (auto simp: demo_pool_client_def)

lemma demo_reclaim_accounts:
  "\<exists>led' acc'. reclaim_accounts demo_pool_client r sgs acc led = (led', Ok acc')"
proof (induction sgs arbitrary: acc led)
  case (Cons sg sgs)
  have "\<exists>led' acc'. reclaim_account demo_pool_client r sg acc led = (led', Ok acc')"
    by (simp add: reclaim_account_def demo_pool_client_def Let_def)
  with Cons show ?case by (fastforce simp: sbind_def)
qed (simp add: sreturn_def)

lemma demo_admin_store:
  "length name \<le> 32 \<Longrightarrow> \<exists>st. signer_store_new (ad_keccak demo_admin_env) (ad_signer_of demo_admin_env) n s name cls
     = (Ok st :: (signer_store, cli_error) rresult)"
  by (rule signer_store_new_total) (simp_all add: demo_admin_env_def)

lemma demo_reclaim_pools:
  "\<forall>q \<in> set pools. length q \<le> 32 \<Longrightarrow>
     \<exists>led' acc'. reclaim_pools demo_admin_env demo_pool_client r n s pools acc led = (led', Ok acc')"
proof (induction pools arbitrary: acc led)
  case (Cons q pools)
  from Cons.prems obtain st where st: "signer_store_new (ad_keccak demo_admin_env) (ad_signer_of demo_admin_env) n s q Spammer
     = (Ok st :: (signer_store, cli_error) rresult)" using demo_admin_store by fastforce
  moreover obtain led1 acc1 where "reclaim_accounts demo_pool_client r (ss_signers st) acc led = (led1, Ok acc1)"
    using demo_reclaim_accounts by blast
  ultimately show ?case using Cons.IH [of acc1 led1] Cons.prems by (auto simp: sbind_def slift_def)
qed (simp add: sreturn_def)

lemma demo_scenario_pools: "scenario_pools demo_config = [''spammers'', ''admin'']"
  by (simp add: scenario_pools_def demo_config_def with_spam_def test_config_new_def unwrap_or_default_def
      function_call_new_def List.map_filter_def)

theorem reclaim_reaches_scenario_accounts_witness:
  "\<exists>pool total_reclaimed agents a.
     handle_reclaim_eth demo_admin_env demo_db 7 (Some ''http://node'') [] 10 (Some ''spam.toml'') ''/'' []
       = (pool, Ok (total_reclaimed, length pool)) \<and>
     build_agent_store (\<lambda>b. b) (ad_signer_of demo_admin_env) demo_config (seed_from_u256 0) agent_spec_default
       = (Ok agents :: (agent_store, cli_error) rresult) \<and>
     get_agent agents ''spammers'' = Some a \<and> length (ss_signers a) = 10 \<and>
     total_reclaimed = sum_list (map (the \<circ> tx_value) pool) \<and>
     (\<forall>x \<in> set (all_addresses a). \<exists>tx \<in> set pool. tx_from tx = Some x \<and> tx_value tx = Some 29000 \<and> tx_to tx = Some (TxCall 7))"
proof -
  let ?t = "replicate 64 (CHR ''0'')"
  have sfile: "hm_get (ad_files demo_admin_env) (path_join ''/'' ''seed'') = Some (File ?t)"
    by (simp add: demo_admin_env_def path_join_def hm_get_def)
  have trim: "trim ?t = ?t" by (simp add: trim_def trim_start_def is_ws_def)
  have dec: "ad_hex_decode demo_admin_env ?t = Some (replicate 32 0)" by (simp add: demo_admin_env_def)
  have val: "be_val (replicate n 0) = 0" for n by (induction n) (simp_all add: be_val_def)
  let ?rad = "\<lambda>s r. Some 0 :: u256 option"
  have rad: "?rad ?t 16 = Some (word_of_nat (be_val (replicate 32 0)))" by (simp add: val)
  have load: "load_seedfile demo_fs_env [] ''/'' (ad_files demo_admin_env) = (ad_files demo_admin_env, Ok (''0x'' @ ?t))"
    using sfile by (simp add: load_seedfile_def Let_def path_exists_def hm_contains_def demo_fs_env_def)
  have seed: "seed_from_str ?rad (''0x'' @ ?t) = (Ok (seed_from_u256 0) :: (rand_seed, cli_error) rresult)"
    by (simp add: seed_from_str_def)
  have cfg: "ad_load_config demo_admin_env ''spam.toml'' = Ok demo_config" by (simp add: demo_admin_env_def)
  obtain a where a: "signer_store_new (ad_keccak demo_admin_env) (ad_signer_of demo_admin_env) 10 (seed_from_u256 0) ''spammers'' Spammer
      = (Ok a :: (signer_store, cli_error) rresult)"
    using demo_admin_store by fastforce
  have agents: "build_agent_store (ad_keccak demo_admin_env) (ad_signer_of demo_admin_env) demo_config (seed_from_u256 0) agent_spec_default
      = (Ok [(''spammers'', a)] :: (agent_store, cli_error) rresult)"
    using a by (simp add: build_agent_store_def pool_max_signers_def pools_with_counts_def demo_pools
        pool_entry_def hm_insert_def build_step_def add_new_agent_def add_agent_def agent_spec_default_def)
  have seed32: "seed_from_u256 0 = seed_from_bytes (replicate 32 0)"
    using load sfile seed rad by (rule stored_seed_agrees) simp
  obtain pool total_reclaimed k where run: "reclaim_pools demo_admin_env demo_pool_client 7 10
      (seed_from_u256 0) (scenario_pools demo_config) (0, 0) [] = (pool, Ok (total_reclaimed, k))"
    using demo_reclaim_pools [of "scenario_pools demo_config"] by (fastforce simp: demo_scenario_pools)
  have url: "ad_parse_url demo_admin_env ''http://node'' = Ok ''http://node''"
    and cl: "ad_client demo_admin_env ''http://node'' = demo_pool_client" by (simp_all add: demo_admin_env_def)
  have targets: "reclaim_targets demo_admin_env demo_db (Some ''http://node'') [] (Some ''spam.toml'')
      = Ok (''http://node'', scenario_pools demo_config)" by (simp add: reclaim_targets_def cfg)
  have "\<not> ad_read_fails demo_admin_env" by (simp add: demo_admin_env_def)
  with sfile trim dec have bytes: "read_seed_file demo_admin_env ''/'' = Ok (replicate 32 0)"
    unfolding read_seed_file_def Let_def by (simp del: replicate.simps)
  have cmd: "handle_reclaim_eth demo_admin_env demo_db 7 (Some ''http://node'') [] 10 (Some ''spam.toml'') ''/'' []
      = (pool, Ok (total_reclaimed, k))"
    using run unfolding handle_reclaim_eth_def sbind_def slift_def targets bytes url
    by (simp add: url bytes cl seed32)
  have counts: "as_create_accounts agent_spec_default \<le> 10" "as_setup_accounts agent_spec_default \<le> 10"
    "as_spam_accounts agent_spec_default \<le> 10" by (simp_all add: agent_spec_default_def)
  from reclaim_reaches_scenario_accounts [OF sfile trim dec _ rad load seed cfg agents counts url cmd]
  obtain txs where txs: "pool = txs" "k = length txs" "total_reclaimed = sum_list (map (the \<circ> tx_value) txs)"
    and all: "\<forall>q a'. get_agent [(''spammers'', a)] q = Some a' \<longrightarrow> (\<forall>x \<in> set (all_addresses a'). visited demo_pool_client 7 txs [] x)"
    by (auto simp: cl demo_accepted)
  have "get_agent [(''spammers'', a)] ''spammers'' = Some a" by (simp add: get_agent_def hm_get_def)
  with all have seen: "\<forall>x \<in> set (all_addresses a). visited demo_pool_client 7 txs [] x" by blast
  have "\<exists>tx \<in> set txs. tx_from tx = Some x \<and> tx_value tx = Some 29000 \<and> tx_to tx = Some (TxCall 7)"
    if "visited demo_pool_client 7 txs [] x" for x
  proof -
    have answers: "fc_balance demo_pool_client c x = Ok 50000" "fc_gas_price demo_pool_client c = Ok 1" for c
      by (simp_all add: demo_pool_client_def)
    from that obtain i nonce chain_id where i: "i < length txs" "txs ! i = reclaim_tx x 7 29000 nonce 1 chain_id"
      unfolding visited_def by (auto simp: answers)
    show ?thesis by (rule bexI [of _ "txs ! i"]) (simp_all add: i(1), simp add: i(2) reclaim_tx_def)
  qed
  with cmd agents txs seen signer_store_new_length [OF a] show ?thesis
    by (auto simp: get_agent_def hm_get_def demo_admin_env_def)
qed

end
