(* ===== verification/Engine_Provider.thy ===== *)
theory Engine_Provider
  imports Rust_State
begin

text \<open>
  The engine provider (\<open>crates/engine_provider/src\<close>): the calls of the engine API that wait for a
  valid answer, advancing the chain by one block, and replaying a segment of it.

  The node behind the authenticated RPC is the record \<open>engine\<close> over a state \<open>'w\<close>, one function per
  JSON-RPC method.  The waiting calls repeat a request until the answer is decisive, so a call may
  not return: its result is then \<open>None\<close>.
\<close>

section \<open>Data of the engine API\<close>

type_synonym b256 = "256 word"

datatype message_version = MsgV1 | MsgV2 | MsgV3 | MsgV4 | MsgV5 | MsgV6

datatype transport_error = TransportFailed string | UnsupportedFeature string

datatype auth_provider_error =
    AuthTransport transport_error
  | MissingBlock u64
  | InvalidTxs
  | AuthInternal string
  | InvalidBlockRange u64 u64
  | InvalidBlockStart u64
  | InvalidPayload message_version string
  | ExtraDataTooShort
  | GasLimitRequired

fun show_message_version :: "message_version \<Rightarrow> string" where
  "show_message_version MsgV1 = ''V1''"
| "show_message_version MsgV2 = ''V2''"
| "show_message_version MsgV3 = ''V3''"
| "show_message_version MsgV4 = ''V4''"
| "show_message_version MsgV5 = ''V5''"
| "show_message_version MsgV6 = ''V6''"

fun auth_error_text :: "auth_provider_error \<Rightarrow> string" where
  "auth_error_text (AuthTransport e) = ''auth provider transport error''"
| "auth_error_text (MissingBlock n) = ''failed to retrieve block '' @ show_nat (unat n) @ '' from RPC provider''"
| "auth_error_text InvalidTxs = ''invalid txs; block must include full txs''"
| "auth_error_text (AuthInternal s) = ''unknown error (internal): '' @ s"
| "auth_error_text (InvalidBlockRange a b) =
     ''invalid block range: '' @ show_nat (unat a) @ ''-'' @ show_nat (unat b)"
| "auth_error_text (InvalidBlockStart n) = ''invalid start block (must be >1): '' @ show_nat (unat n)"
| "auth_error_text (InvalidPayload v s) =
     ''invalid payload, tried sending message version '' @ show_message_version v @ ''. '' @ s"
| "auth_error_text ExtraDataTooShort = ''extra_data of genesis block is too short''"
| "auth_error_text GasLimitRequired = ''gasLimit parameter required''"

definition parse_err_str :: "string \<Rightarrow> auth_provider_error" where
  "parse_err_str e =
     (if str_contains e (auth_error_text GasLimitRequired) then GasLimitRequired
      else if str_contains e (auth_error_text ExtraDataTooShort) then ExtraDataTooShort
      else AuthInternal e)"

text \<open>What a transaction of a block offers: its hash, its encoding and its blob hashes.\<close>

record rpc_tx =
  rt_hash :: b256
  rt_encoded :: "u8 list"
  rt_blob_hashes :: "b256 list option"

datatype any_tx = EthTx rpc_tx | OpTx rpc_tx

fun any_blob_versioned_hashes :: "any_tx \<Rightarrow> b256 list option" where
  "any_blob_versioned_hashes (EthTx t) = rt_blob_hashes t"
| "any_blob_versioned_hashes (OpTx t) = rt_blob_hashes t"

fun any_tx_hash :: "any_tx \<Rightarrow> b256" where
  "any_tx_hash (EthTx t) = rt_hash t"
| "any_tx_hash (OpTx t) = rt_hash t"

fun any_encoded_2718 :: "any_tx \<Rightarrow> u8 list" where
  "any_encoded_2718 (EthTx t) = rt_encoded t"
| "any_encoded_2718 (OpTx t) = rt_encoded t"

record withdrawal =
  wd_index :: u64
  wd_validator_index :: u64
  wd_address :: address
  wd_amount :: u64

record eng_header =
  eh_hash :: b256
  eh_parent_hash :: b256
  eh_beneficiary :: address
  eh_state_root :: b256
  eh_receipts_root :: b256
  eh_logs_bloom :: "u8 list"
  eh_mix_hash :: "b256 option"
  eh_number :: u64
  eh_gas_limit :: u64
  eh_gas_used :: u64
  eh_timestamp :: u64
  eh_extra_data :: "u8 list"
  eh_base_fee_per_gas :: "u64 option"
  eh_blob_gas_used :: "u64 option"
  eh_excess_blob_gas :: "u64 option"
  eh_parent_beacon_block_root :: "b256 option"
  eh_requests_hash :: "b256 option"

record eng_block =
  eb_header :: eng_header
  eb_transactions :: "rpc_tx list"
  eb_withdrawals :: "withdrawal list option"

record payload_v1 =
  p1_block_hash :: b256
  p1_parent_hash :: b256
  p1_fee_recipient :: address
  p1_state_root :: b256
  p1_receipts_root :: b256
  p1_logs_bloom :: "u8 list"
  p1_prev_randao :: b256
  p1_block_number :: u64
  p1_gas_limit :: u64
  p1_gas_used :: u64
  p1_timestamp :: u64
  p1_extra_data :: "u8 list"
  p1_base_fee_per_gas :: u256
  p1_transactions :: "u8 list list"

record payload_v2 =
  p2_payload_inner :: payload_v1
  p2_withdrawals :: "withdrawal list"

record payload_v3 =
  p3_payload_inner :: payload_v2
  p3_blob_gas_used :: u64
  p3_excess_blob_gas :: u64

text \<open>A V4 payload is only passed on.\<close>

typedecl payload_v4

datatype engine_payload =
    PayloadV1 payload_v1 | PayloadV2 payload_v2 | PayloadV3 payload_v3 | PayloadV4 payload_v4

record payload_input_v2 =
  pi_execution_payload :: payload_v1
  pi_withdrawals :: "withdrawal list option"

datatype payload_field_v2 = FieldV1 payload_v1 | FieldV2 payload_v2

datatype requests_or_hash = RequestsHash b256 | RequestsList "u8 list list"

datatype payload_status = Valid | Invalid string | Syncing | Accepted

record forkchoice_updated =
  fu_payload_status :: payload_status
  fu_payload_id :: "u64 option"

record forkchoice_state =
  fk_head_block_hash :: b256
  fk_safe_block_hash :: b256
  fk_finalized_block_hash :: b256

record payload_attributes =
  pa_timestamp :: u64
  pa_prev_randao :: b256
  pa_suggested_fee_recipient :: address
  pa_withdrawals :: "withdrawal list option"
  pa_parent_beacon_block_root :: "b256 option"
  pa_slot_number :: "u64 option"

record op_payload_params =
  op_transactions :: "u8 list list option"
  op_gas_limit :: "u64 option"
  op_eip_1559_params :: "u8 list option"

record op_payload_attributes =
  oa_payload_attributes :: payload_attributes
  oa_transactions :: "u8 list list option"
  oa_no_tx_pool :: "bool option"
  oa_gas_limit :: "u64 option"
  oa_eip_1559_params :: "u8 list option"
  oa_min_base_fee :: "u64 option"

datatype network_attributes = EthAttributes payload_attributes | OpAttributes op_payload_attributes

datatype engine_network = Ethereum | Optimism | AnyNetwork

fun is_op :: "engine_network \<Rightarrow> bool" where
  "is_op Ethereum = False"
| "is_op Optimism = True"
| "is_op AnyNetwork = False"

datatype block_id = BlockLatest | BlockEarliest | BlockNumber u64

section \<open>The node\<close>

record 'w engine =
  eg_new_payload_v1 :: "payload_v1 \<Rightarrow> ('w, payload_status, transport_error) action"
  eg_new_payload_v2 :: "payload_input_v2 \<Rightarrow> ('w, payload_status, transport_error) action"
  eg_new_payload_v3 :: "payload_v3 \<Rightarrow> b256 list \<Rightarrow> b256 \<Rightarrow> ('w, payload_status, transport_error) action"
  eg_new_payload_v4 ::
    "payload_v4 \<Rightarrow> b256 list \<Rightarrow> b256 \<Rightarrow> u8 list list \<Rightarrow> ('w, payload_status, transport_error) action"
  eg_forkchoice_updated_v1 ::
    "forkchoice_state \<Rightarrow> network_attributes option \<Rightarrow> ('w, forkchoice_updated, transport_error) action"
  eg_forkchoice_updated_v2 ::
    "forkchoice_state \<Rightarrow> network_attributes option \<Rightarrow> ('w, forkchoice_updated, transport_error) action"
  eg_forkchoice_updated_v3 ::
    "forkchoice_state \<Rightarrow> network_attributes option \<Rightarrow> ('w, forkchoice_updated, transport_error) action"
  eg_get_payload_v1 :: "u64 \<Rightarrow> ('w, payload_v1, transport_error) action"
  eg_get_payload_v2 :: "u64 \<Rightarrow> ('w, payload_field_v2, transport_error) action"
  eg_get_payload_v3 :: "u64 \<Rightarrow> ('w, payload_v3, transport_error) action"
  eg_get_payload_v4 :: "u64 \<Rightarrow> ('w, payload_v3, transport_error) action"
  eg_get_block :: "block_id \<Rightarrow> ('w, eng_block option, transport_error) action"
  eg_get_block_number :: "('w, u64, transport_error) action"

fun execution_requests_bytes :: "requests_or_hash \<Rightarrow> u8 list list" where
  "execution_requests_bytes (RequestsHash h) = [be_bytes 32 (unat h)]"
| "execution_requests_bytes (RequestsList rs) = rs"

definition new_payload_v4 ::
  "'w engine \<Rightarrow> payload_v4 \<Rightarrow> b256 list \<Rightarrow> b256 \<Rightarrow> requests_or_hash
    \<Rightarrow> ('w, payload_status, transport_error) action" where
  "new_payload_v4 eg payload versioned_hashes root reqs =
     eg_new_payload_v4 eg payload versioned_hashes root (execution_requests_bytes reqs)"

section \<open>Waiting calls\<close>

type_synonym ('w, 'a, 'e) waiting = "'w \<Rightarrow> ('w \<times> ('a, 'e) rresult) option"

definition wbind :: "('w, 'a, 'e) waiting \<Rightarrow> ('a \<Rightarrow> ('w, 'b, 'e) waiting) \<Rightarrow> ('w, 'b, 'e) waiting" where
  "wbind m f w =
     (case m w of
        None \<Rightarrow> None
      | Some (w', Ok a) \<Rightarrow> f a w'
      | Some (w', Err e) \<Rightarrow> Some (w', Err e)
      | Some (w', Panic) \<Rightarrow> Some (w', Panic))"

definition wlift :: "('a, 'e) rresult \<Rightarrow> ('w, 'a, 'e) waiting" where
  "wlift r w = Some (w, r)"

definition wcall :: "('w, 'a, transport_error) action \<Rightarrow> ('w, 'a, auth_provider_error) waiting" where
  "wcall m w = (let (w', r) = m w in Some (w', rmap_err AuthTransport r))"

definition wtransport :: "('w, 'a, transport_error) waiting \<Rightarrow> ('w, 'a, auth_provider_error) waiting" where
  "wtransport m w = map_option (\<lambda>(w', r). (w', rmap_err AuthTransport r)) (m w)"

text \<open>The loop all waiting calls share: ask, and ask again until there is a verdict.\<close>

partial_function (option) poll_until ::
  "('w \<Rightarrow> 'w \<times> ('a, 'e) rresult) \<Rightarrow> ('a \<Rightarrow> ('a, 'e) rresult option) \<Rightarrow> 'w
    \<Rightarrow> ('w \<times> ('a, 'e) rresult) option" where
  "poll_until ask verdict w =
     (case ask w of
        (w', Ok status) \<Rightarrow>
          (case verdict status of Some r \<Rightarrow> Some (w', r) | None \<Rightarrow> poll_until ask verdict w')
      | (w', Err e) \<Rightarrow> Some (w', Err e)
      | (w', Panic) \<Rightarrow> Some (w', Panic))"

definition no_canonical_state :: transport_error where
  "no_canonical_state =
     UnsupportedFeature ''invalid range: no canonical state found for parent of requested block''"

fun retry_verdict :: "string \<Rightarrow> payload_status \<Rightarrow> (payload_status, transport_error) rresult option" where
  "retry_verdict method Valid = Some (Ok Valid)"
| "retry_verdict method (Invalid e) = Some (Err (UnsupportedFeature (''Invalid '' @ method)))"
| "retry_verdict method Syncing = None"
| "retry_verdict method Accepted = None"

fun strict_verdict :: "string \<Rightarrow> payload_status \<Rightarrow> (payload_status, transport_error) rresult option" where
  "strict_verdict method Syncing = Some (Err no_canonical_state)"
| "strict_verdict method status = retry_verdict method status"

definition fcu_retry_verdict ::
  "forkchoice_updated \<Rightarrow> (forkchoice_updated, transport_error) rresult option" where
  "fcu_retry_verdict u =
     (case fu_payload_status u of Valid \<Rightarrow> Some (Ok u) | Invalid e \<Rightarrow> Some Panic | _ \<Rightarrow> None)"

definition fcu_strict_verdict ::
  "forkchoice_updated \<Rightarrow> (forkchoice_updated, transport_error) rresult option" where
  "fcu_strict_verdict u =
     (case fu_payload_status u of Syncing \<Rightarrow> Some (Err no_canonical_state) | _ \<Rightarrow> fcu_retry_verdict u)"

definition new_payload_v1_wait ::
  "'w engine \<Rightarrow> payload_v1 \<Rightarrow> ('w, payload_status, transport_error) waiting" where
  "new_payload_v1_wait eg payload = poll_until (eg_new_payload_v1 eg payload) (retry_verdict ''newPayloadV1'')"

definition new_payload_v2_wait ::
  "'w engine \<Rightarrow> payload_input_v2 \<Rightarrow> ('w, payload_status, transport_error) waiting" where
  "new_payload_v2_wait eg payload = poll_until (eg_new_payload_v2 eg payload) (retry_verdict ''newPayloadV2'')"

definition new_payload_v3_wait ::
  "'w engine \<Rightarrow> payload_v3 \<Rightarrow> b256 list \<Rightarrow> b256 \<Rightarrow> ('w, payload_status, transport_error) waiting" where
  "new_payload_v3_wait eg payload versioned_hashes root =
     poll_until (eg_new_payload_v3 eg payload versioned_hashes root) (strict_verdict ''newPayloadV3'')"

definition new_payload_v4_wait ::
  "'w engine \<Rightarrow> payload_v4 \<Rightarrow> b256 list \<Rightarrow> b256 \<Rightarrow> requests_or_hash
    \<Rightarrow> ('w, payload_status, transport_error) waiting" where
  "new_payload_v4_wait eg payload versioned_hashes root reqs =
     poll_until (new_payload_v4 eg payload versioned_hashes root reqs) (strict_verdict ''newPayloadV4'')"

definition fork_choice_updated_v1_wait ::
  "'w engine \<Rightarrow> forkchoice_state \<Rightarrow> network_attributes option
    \<Rightarrow> ('w, forkchoice_updated, transport_error) waiting" where
  "fork_choice_updated_v1_wait eg st attrs = poll_until (eg_forkchoice_updated_v1 eg st attrs) fcu_strict_verdict"

definition fork_choice_updated_v2_wait ::
  "'w engine \<Rightarrow> forkchoice_state \<Rightarrow> network_attributes option
    \<Rightarrow> ('w, forkchoice_updated, transport_error) waiting" where
  "fork_choice_updated_v2_wait eg st attrs = poll_until (eg_forkchoice_updated_v2 eg st attrs) fcu_strict_verdict"

definition fork_choice_updated_v3_wait ::
  "'w engine \<Rightarrow> forkchoice_state \<Rightarrow> network_attributes option
    \<Rightarrow> ('w, forkchoice_updated, transport_error) waiting" where
  "fork_choice_updated_v3_wait eg st attrs = poll_until (eg_forkchoice_updated_v3 eg st attrs) fcu_retry_verdict"

section \<open>The provider\<close>

record auth_provider =
  ap_network :: engine_network
  ap_genesis_block :: eng_header
  ap_message_version :: message_version
  ap_rpc_url :: string

text \<open>\<open>show_err\<close> is the text of a transport error, which is third-party code.\<close>

definition auth_provider_new ::
  "(transport_error \<Rightarrow> string) \<Rightarrow> 'w engine \<Rightarrow> engine_network \<Rightarrow> string \<Rightarrow> message_version
    \<Rightarrow> ('w, auth_provider, auth_provider_error) action" where
  "auth_provider_new show_err eg net auth_rpc_url version w =
     (case eg_get_block eg BlockEarliest w of
        (w', Ok (Some blk)) \<Rightarrow>
          (w', Ok \<lparr>ap_network = net, ap_genesis_block = eb_header blk, ap_message_version = version,
                   ap_rpc_url = auth_rpc_url\<rparr>)
      | (w', Ok None) \<Rightarrow> (w', Panic)
      | (w', Err e) \<Rightarrow> (w', Err (AuthInternal (''failed to get genesis block: '' @ show_err e)))
      | (w', Panic) \<Rightarrow> (w', Panic))"

definition genesis_hash :: "auth_provider \<Rightarrow> b256" where
  "genesis_hash ap = eh_hash (ap_genesis_block ap)"

fun call_forkchoice_updated_at ::
  "message_version \<Rightarrow> 'w engine \<Rightarrow> forkchoice_state \<Rightarrow> network_attributes option
    \<Rightarrow> ('w, forkchoice_updated, transport_error) waiting" where
  "call_forkchoice_updated_at MsgV6 eg st attrs = wlift Panic"
| "call_forkchoice_updated_at MsgV5 eg st attrs = wlift Panic"
| "call_forkchoice_updated_at MsgV4 eg st attrs = fork_choice_updated_v3_wait eg st attrs"
| "call_forkchoice_updated_at MsgV3 eg st attrs = fork_choice_updated_v3_wait eg st attrs"
| "call_forkchoice_updated_at MsgV2 eg st attrs = fork_choice_updated_v2_wait eg st attrs"
| "call_forkchoice_updated_at MsgV1 eg st attrs = fork_choice_updated_v1_wait eg st attrs"

definition call_forkchoice_updated ::
  "'w engine \<Rightarrow> auth_provider \<Rightarrow> forkchoice_state \<Rightarrow> network_attributes option
    \<Rightarrow> ('w, forkchoice_updated, transport_error) waiting" where
  "call_forkchoice_updated eg ap = call_forkchoice_updated_at (ap_message_version ap) eg"

definition eth_attributes :: "u64 \<Rightarrow> payload_attributes" where
  "eth_attributes ts =
     \<lparr>pa_timestamp = ts, pa_prev_randao = 0, pa_suggested_fee_recipient = 0, pa_withdrawals = Some [],
      pa_parent_beacon_block_root = Some 0, pa_slot_number = None\<rparr>"

definition op_attributes :: "u64 \<Rightarrow> op_payload_params option \<Rightarrow> op_payload_attributes" where
  "op_attributes ts params =
     (let ps = (case params of
                  Some ps \<Rightarrow> ps
                | None \<Rightarrow> \<lparr>op_transactions = None, op_gas_limit = None, op_eip_1559_params = None\<rparr>)
      in \<lparr>oa_payload_attributes = eth_attributes ts, oa_transactions = op_transactions ps,
          oa_no_tx_pool = Some False, oa_gas_limit = op_gas_limit ps,
          oa_eip_1559_params = op_eip_1559_params ps, oa_min_base_fee = None\<rparr>)"

fun fcu_payload_attributes ::
  "engine_network \<Rightarrow> u64 \<Rightarrow> op_payload_params option \<Rightarrow> network_attributes" where
  "fcu_payload_attributes Ethereum ts params = EthAttributes (eth_attributes ts)"
| "fcu_payload_attributes Optimism ts params = OpAttributes (op_attributes ts params)"
| "fcu_payload_attributes AnyNetwork ts params = EthAttributes (eth_attributes ts)"

text \<open>
  The deposit transaction that opens an OP block.  Its encoding is third-party code (\<open>enc\<close>), and its
  call data is the constant \<open>FJORD_DATA\<close>.
\<close>

record tx_deposit =
  td_source_hash :: b256
  td_from :: address
  td_to :: address
  td_mint :: u128
  td_value :: u256
  td_gas_limit :: u64
  td_is_system_transaction :: bool
  td_input :: "u8 list"

fun hex_bytes :: "string \<Rightarrow> u8 list" where
  "hex_bytes (a # b # s) = word_of_nat (16 * hex_digit_val a + hex_digit_val b) # hex_bytes s"
| "hex_bytes s = []"

definition FJORD_DATA :: "u8 list" where
  "FJORD_DATA = hex_bytes
     (''440a5e200000146b000f79c500000000000000040000000066d052e700000000013ad8a3'' @
      ''000000000000000000000000000000000000000000000000000000003ef12787'' @
      ''0000000000000000000000000000000000000000000000000000000000000001'' @
      ''2fdf87b89884a61e74b322bbcf60386f543bfae7827725efaaf0ab1de2294a59'' @
      ''0000000000000000000000006887246668a3b87f54deb3b94ba47a6f63f32985'')"

definition op_block_info_deposit :: tx_deposit where
  "op_block_info_deposit =
     \<lparr>td_source_hash = 0, td_from = 0xDeaDDEaDDeAdDeAdDEAdDEaddeAddEAdDEAd0001,
      td_to = 0x4200000000000000000000000000000000000015, td_mint = 0, td_value = 0,
      td_gas_limit = 210000, td_is_system_transaction = False, td_input = FJORD_DATA\<rparr>"

definition get_op_block_info_tx :: "(tx_deposit \<Rightarrow> u8 list) \<Rightarrow> u8 list" where
  "get_op_block_info_tx enc = enc op_block_info_deposit"

text \<open>\<open>FixedBytes::<8>::from_slice\<close> panics unless it gets 8 bytes.\<close>

definition fixed_bytes_8 :: "u8 list \<Rightarrow> (u8 list, 'e) rresult" where
  "fixed_bytes_8 bs = (if length bs = 8 then Ok bs else Panic)"

definition default_op_params ::
  "(tx_deposit \<Rightarrow> u8 list) \<Rightarrow> auth_provider \<Rightarrow> (op_payload_params option, auth_provider_error) rresult" where
  "default_op_params enc ap =
     (if is_op (ap_network ap)
      then if length (eh_extra_data (ap_genesis_block ap)) < 9 then Err ExtraDataTooShort
           else rbind (fixed_bytes_8 (drop 1 (eh_extra_data (ap_genesis_block ap)))) (\<lambda>params.
                Ok (Some \<lparr>op_transactions = Some [get_op_block_info_tx enc],
                          op_gas_limit = Some (eh_gas_limit (ap_genesis_block ap)),
                          op_eip_1559_params = Some params\<rparr>))
      else Ok None)"

definition call_fcu_default ::
  "(tx_deposit \<Rightarrow> u8 list) \<Rightarrow> 'w engine \<Rightarrow> auth_provider \<Rightarrow> b256 \<Rightarrow> b256 \<Rightarrow> u64 option
    \<Rightarrow> ('w, forkchoice_updated, auth_provider_error) waiting" where
  "call_fcu_default enc eg ap current_head new_head timestamp =
     wbind (wlift (default_op_params enc ap)) (\<lambda>op_params.
     wtransport (call_forkchoice_updated eg ap
       \<lparr>fk_head_block_hash = new_head, fk_safe_block_hash = current_head,
        fk_finalized_block_hash = current_head\<rparr>
       (map_option (\<lambda>ts. fcu_payload_attributes (ap_network ap) ts op_params) timestamp)))"

fun call_new_payload ::
  "'w engine \<Rightarrow> auth_provider \<Rightarrow> engine_payload \<Rightarrow> b256 option \<Rightarrow> b256 list \<Rightarrow> requests_or_hash option
    \<Rightarrow> ('w, message_version, auth_provider_error) waiting" where
  "call_new_payload eg ap (PayloadV4 payload) root versioned_hashes reqs =
     wbind (wlift (ok_or root (InvalidPayload (ap_message_version ap)
              ''parent_beacon_block_root is required for V4 payloads''))) (\<lambda>root.
     wbind (wlift (ok_or reqs (InvalidPayload (ap_message_version ap)
              ''execution_requests is required for V4 payloads''))) (\<lambda>reqs.
     wbind (wtransport (new_payload_v4_wait eg payload versioned_hashes root reqs)) (\<lambda>_. wlift (Ok MsgV4))))"
| "call_new_payload eg ap (PayloadV3 payload) root versioned_hashes reqs =
     wbind (wlift (ok_or root (InvalidPayload (ap_message_version ap)
              ''parent_beacon_block_root is required for V3 payloads''))) (\<lambda>root.
     wbind (wtransport (new_payload_v3_wait eg payload versioned_hashes root)) (\<lambda>_. wlift (Ok MsgV3)))"
| "call_new_payload eg ap (PayloadV2 payload) root versioned_hashes reqs =
     wbind (wtransport (new_payload_v2_wait eg
              \<lparr>pi_execution_payload = p2_payload_inner payload,
               pi_withdrawals = Some (p2_withdrawals payload)\<rparr>)) (\<lambda>_. wlift (Ok MsgV2))"
| "call_new_payload eg ap (PayloadV1 payload) root versioned_hashes reqs =
     wbind (wtransport (new_payload_v1_wait eg payload)) (\<lambda>_. wlift (Ok MsgV1))"

section \<open>Advancing the chain\<close>

fun field_v2_payload :: "payload_field_v2 \<Rightarrow> engine_payload" where
  "field_v2_payload (FieldV1 p) = PayloadV1 p"
| "field_v2_payload (FieldV2 p) = PayloadV2 p"

fun field_v2_block_hash :: "payload_field_v2 \<Rightarrow> b256" where
  "field_v2_block_hash (FieldV1 p) = p1_block_hash p"
| "field_v2_block_hash (FieldV2 p) = p1_block_hash (p2_payload_inner p)"

definition p3_block_hash :: "payload_v3 \<Rightarrow> b256" where
  "p3_block_hash p = p1_block_hash (p2_payload_inner (p3_payload_inner p))"

text \<open>\<open>getPayload\<close> by version: the payload to submit and its block hash.  The V4 envelope holds a V3 payload.\<close>

fun get_built_payload ::
  "'w engine \<Rightarrow> message_version \<Rightarrow> u64 \<Rightarrow> ('w, engine_payload \<times> b256, auth_provider_error) waiting" where
  "get_built_payload eg MsgV1 i =
     wbind (wcall (eg_get_payload_v1 eg i)) (\<lambda>p. wlift (Ok (PayloadV1 p, p1_block_hash p)))"
| "get_built_payload eg MsgV2 i =
     wbind (wcall (eg_get_payload_v2 eg i)) (\<lambda>p. wlift (Ok (field_v2_payload p, field_v2_block_hash p)))"
| "get_built_payload eg MsgV3 i =
     wbind (wcall (eg_get_payload_v3 eg i)) (\<lambda>p. wlift (Ok (PayloadV3 p, p3_block_hash p)))"
| "get_built_payload eg MsgV4 i =
     wbind (wcall (eg_get_payload_v4 eg i)) (\<lambda>p. wlift (Ok (PayloadV3 p, p3_block_hash p)))"
| "get_built_payload eg MsgV5 i = wlift Panic"
| "get_built_payload eg MsgV6 i = wlift Panic"

definition advance_chain ::
  "(tx_deposit \<Rightarrow> u8 list) \<Rightarrow> 'w engine \<Rightarrow> auth_provider \<Rightarrow> u64 \<Rightarrow> ('w, unit, auth_provider_error) waiting" where
  "advance_chain enc eg ap block_time_secs =
     wbind (wcall (eg_get_block eg BlockLatest)) (\<lambda>found.
     wbind (wlift (expect found)) (\<lambda>blk.
     let header = eb_header blk;
         rq = (case eh_requests_hash header of Some h \<Rightarrow> h | None \<Rightarrow> 0)
     in wbind (call_fcu_default enc eg ap (eh_hash header) (eh_hash header)
                 (Some (eh_timestamp header + block_time_secs))) (\<lambda>res.
        wbind (wlift (expect (fu_payload_id res))) (\<lambda>payload_id.
        wbind (get_built_payload eg (ap_message_version ap) payload_id) (\<lambda>(payload, block_hash).
        wbind (call_new_payload eg ap payload (Some 0) [] (Some (RequestsHash rq))) (\<lambda>_.
        wbind (call_fcu_default enc eg ap (eh_hash header) block_hash None) (\<lambda>_.
        wlift (Ok ()))))))))"

section \<open>Replaying blocks\<close>

definition get_block_txs :: "auth_provider \<Rightarrow> eng_block \<Rightarrow> any_tx list" where
  "get_block_txs ap blk =
     map (if is_op (ap_network ap) then OpTx else EthTx) (eb_transactions blk)"

definition payload_of_block :: "auth_provider \<Rightarrow> eng_block \<Rightarrow> engine_payload" where
  "payload_of_block ap blk =
     (let header = eb_header blk;
          v1 = \<lparr>p1_block_hash = eh_hash header, p1_parent_hash = eh_parent_hash header,
                p1_fee_recipient = eh_beneficiary header, p1_state_root = eh_state_root header,
                p1_receipts_root = eh_receipts_root header, p1_logs_bloom = eh_logs_bloom header,
                p1_prev_randao = (case eh_mix_hash header of Some h \<Rightarrow> h | None \<Rightarrow> 0),
                p1_block_number = eh_number header, p1_gas_limit = eh_gas_limit header,
                p1_gas_used = eh_gas_used header, p1_timestamp = eh_timestamp header,
                p1_extra_data = eh_extra_data header,
                p1_base_fee_per_gas = (case eh_base_fee_per_gas header of Some f \<Rightarrow> ucast f | None \<Rightarrow> 0),
                p1_transactions = map any_encoded_2718 (get_block_txs ap blk)\<rparr>;
          v2 = \<lparr>p2_payload_inner = v1,
                p2_withdrawals = (case eb_withdrawals blk of Some ws \<Rightarrow> ws | None \<Rightarrow> [])\<rparr>
      in (case (eh_blob_gas_used header, eh_excess_blob_gas header) of
            (Some blob_gas_used, Some excess_blob_gas) \<Rightarrow>
              PayloadV3 \<lparr>p3_payload_inner = v2, p3_blob_gas_used = blob_gas_used,
                         p3_excess_blob_gas = excess_blob_gas\<rparr>
          | _ \<Rightarrow> PayloadV2 v2))"

definition block_to_payload ::
  "'w engine \<Rightarrow> auth_provider \<Rightarrow> u64 \<Rightarrow> ('w, engine_payload, auth_provider_error) waiting" where
  "block_to_payload eg ap block_num =
     wbind (wcall (eg_get_block eg (BlockNumber block_num))) (\<lambda>found.
     wbind (wlift (expect found)) (\<lambda>blk. wlift (Ok (payload_of_block ap blk))))"

text \<open>\<open>sha256\<close> is third-party code.\<close>

definition kzg_to_versioned_hash :: "(u8 list \<Rightarrow> u8 list) \<Rightarrow> u8 list \<Rightarrow> b256" where
  "kzg_to_versioned_hash sha256 commitment = word_of_nat (be_val (0x01 # take 31 (drop 1 (sha256 commitment))))"

fun derive_blob_versioned_hashes ::
  "(u8 list \<Rightarrow> u8 list) \<Rightarrow> (b256, u8 list list) hmap option \<Rightarrow> any_tx list \<Rightarrow> b256 list" where
  "derive_blob_versioned_hashes sha256 sidecars [] = []"
| "derive_blob_versioned_hashes sha256 sidecars (tx # txs) =
     (case any_blob_versioned_hashes tx of
        Some vhs \<Rightarrow> vhs
      | None \<Rightarrow>
          (case Option.bind sidecars (\<lambda>m. hm_get m (any_tx_hash tx)) of
             Some commitments \<Rightarrow> map (kzg_to_versioned_hash sha256) commitments
           | None \<Rightarrow> [])) @ derive_blob_versioned_hashes sha256 sidecars txs"

fun get_segment_blocks ::
  "'w engine \<Rightarrow> u64 \<Rightarrow> nat list \<Rightarrow> ('w, eng_block list, auth_provider_error) waiting" where
  "get_segment_blocks eg blocknum_head [] = wlift (Ok [])"
| "get_segment_blocks eg blocknum_head (i # is) =
     wbind (wcall (eg_get_block eg (BlockNumber (word_of_nat i)))) (\<lambda>found.
     wbind (wlift (ok_or found (MissingBlock blocknum_head))) (\<lambda>blk.
     wbind (get_segment_blocks eg blocknum_head is) (\<lambda>blks. wlift (Ok (blk # blks)))))"

text \<open>The loop over the windows of two blocks, with the gas used so far.\<close>

fun replay_windows ::
  "(tx_deposit \<Rightarrow> u8 list) \<Rightarrow> (u8 list \<Rightarrow> u8 list) \<Rightarrow> 'w engine \<Rightarrow> auth_provider \<Rightarrow> u128 \<Rightarrow> eng_block list
    \<Rightarrow> ('w, u128, auth_provider_error) waiting" where
  "replay_windows enc sha256 eg ap gas_used (prev_block # current_block # rest) =
     (let header = eb_header current_block
      in wbind (call_fcu_default enc eg ap (eh_hash (eb_header prev_block)) (eh_hash header) None) (\<lambda>_.
         wbind (block_to_payload eg ap (eh_number header)) (\<lambda>payload.
         wbind (call_new_payload eg ap payload (eh_parent_beacon_block_root header)
                  (derive_blob_versioned_hashes sha256 None (get_block_txs ap current_block))
                  (Some (RequestsHash (case eh_requests_hash header of Some h \<Rightarrow> h | None \<Rightarrow> 0)))) (\<lambda>_.
         replay_windows enc sha256 eg ap (gas_used + ucast (eh_gas_used header)) (current_block # rest)))))"
| "replay_windows enc sha256 eg ap gas_used blks = wlift (Ok gas_used)"

record chain_replay_results =
  cr_gas_used :: u128
  cr_time_elapsed :: nat

text \<open>The elapsed time, in milliseconds, is an input.\<close>

definition replay_chain_segment ::
  "(tx_deposit \<Rightarrow> u8 list) \<Rightarrow> (u8 list \<Rightarrow> u8 list) \<Rightarrow> nat \<Rightarrow> 'w engine \<Rightarrow> auth_provider \<Rightarrow> u64 \<Rightarrow> u64 option
    \<Rightarrow> ('w, chain_replay_results, auth_provider_error) waiting" where
  "replay_chain_segment enc sha256 elapsed eg ap start_block end_block =
     wbind (wcall (eg_get_block_number eg)) (\<lambda>latest.
     let blocknum_head = (case end_block of Some n \<Rightarrow> n | None \<Rightarrow> latest)
     in if blocknum_head \<le> start_block then wlift (Err (InvalidBlockRange start_block blocknum_head))
        else if start_block < 1 then wlift (Err (InvalidBlockStart start_block))
        else wbind (get_segment_blocks eg blocknum_head [unat (start_block - 1)..<unat blocknum_head]) (\<lambda>blks.
             wbind (replay_windows enc sha256 eg ap 0 blks) (\<lambda>gas_used.
             wlift (Ok \<lparr>cr_gas_used = gas_used, cr_time_elapsed = elapsed\<rparr>))))"

definition gas_per_second :: "chain_replay_results \<Rightarrow> u128" where
  "gas_per_second r = cr_gas_used r div word_of_nat (max (cr_time_elapsed r div 1000) 1)"

section \<open>Lemmas on waiting calls\<close>

declare poll_until.simps [code]

lemma wbind_Ok [simp]:
  "wbind m f w = Some (w', Ok b) \<longleftrightarrow> (\<exists>w1 a. m w = Some (w1, Ok a) \<and> f a w1 = Some (w', Ok b))"
  by (auto simp: wbind_def split: option.splits prod.splits rresult.splits)

lemma wlift_Ok [simp]: "wlift r w = Some (w', Ok b) \<longleftrightarrow> w' = w \<and> r = Ok b"
  by (auto simp: wlift_def)

lemma wcall_Ok [simp]: "wcall m w = Some (w', Ok b) \<longleftrightarrow> m w = (w', Ok b)"
  by (auto simp: wcall_def split: prod.splits)

lemma wtransport_Ok [simp]: "wtransport m w = Some (w', Ok b) \<longleftrightarrow> m w = Some (w', Ok b)"
  by (auto simp: wtransport_def)

text \<open>The state after \<open>n\<close> undecided answers.\<close>

fun asked :: "('w \<Rightarrow> 'w \<times> ('a, 'e) rresult) \<Rightarrow> nat \<Rightarrow> 'w \<Rightarrow> 'w" where
  "asked ask 0 w = w"
| "asked ask (Suc n) w = asked ask n (fst (ask w))"

definition undecided :: "('w \<Rightarrow> 'w \<times> ('a, 'e) rresult) \<Rightarrow> ('a \<Rightarrow> ('a, 'e) rresult option) \<Rightarrow> 'w \<Rightarrow> bool" where
  "undecided ask verdict w = (case snd (ask w) of Ok st \<Rightarrow> verdict st = None | _ \<Rightarrow> False)"

lemma poll_undecided: "undecided ask verdict w \<Longrightarrow> poll_until ask verdict w = poll_until ask verdict (fst (ask w))"
  by (subst poll_until.simps) (auto simp: undecided_def split: prod.splits rresult.splits)

lemma poll_decided: "\<not> undecided ask verdict w \<Longrightarrow> poll_until ask verdict w \<noteq> None"
  by (subst poll_until.simps) (auto simp: undecided_def split: prod.splits rresult.splits option.splits)

definition decides :: "('w \<Rightarrow> 'w \<times> ('a, 'e) rresult) \<Rightarrow> ('a \<Rightarrow> ('a, 'e) rresult option) \<Rightarrow> 'w
    \<Rightarrow> 'w \<times> ('a, 'e) rresult \<Rightarrow> bool" where
  "decides ask verdict w r \<longleftrightarrow> \<not> undecided ask verdict w \<and>
     (\<forall>w' b. r = (w', Ok b) \<longrightarrow> (\<exists>st. ask w = (w', Ok st) \<and> verdict st = Some (Ok b)))"

lemma poll_ends:
  fixes ask :: "'w \<Rightarrow> 'w \<times> ('a, 'e) rresult"
  assumes "poll_until ask verdict w = Some r"
  shows "\<exists>n. decides ask verdict (asked ask n w) r"
proof (rule poll_until.raw_induct [where P = "\<lambda>ask verdict w r. \<exists>n. decides ask verdict (asked ask n w) r", OF _ assms])
  fix f :: "('w \<Rightarrow> 'w \<times> ('a, 'e) rresult) \<Rightarrow> ('a \<Rightarrow> ('a, 'e) rresult option) \<Rightarrow> 'w
      \<Rightarrow> ('w \<times> ('a, 'e) rresult) option"
  fix ask :: "'w \<Rightarrow> 'w \<times> ('a, 'e) rresult" and verdict w r
  assume IH: "\<And>ask verdict w r. f ask verdict w = Some r \<Longrightarrow> \<exists>n. decides ask verdict (asked ask n w) r"
    and step: "(case ask w of
        (w', Ok status) \<Rightarrow> (case verdict status of Some r \<Rightarrow> Some (w', r) | None \<Rightarrow> f ask verdict w')
      | (w', Err e) \<Rightarrow> Some (w', Err e)
      | (w', Panic) \<Rightarrow> Some (w', Panic)) = Some r"
  show "\<exists>n. decides ask verdict (asked ask n w) r"
  proof (cases "undecided ask verdict w")
    case True
    with step have "f ask verdict (fst (ask w)) = Some r"
      by (auto simp: undecided_def split: prod.splits rresult.splits)
    from IH [OF this] obtain n where "decides ask verdict (asked ask n (fst (ask w))) r" by blast
    then show ?thesis by (intro exI [of _ "Suc n"]) simp
  next
    case False
    with step have "decides ask verdict w r"
      by (auto simp: decides_def undecided_def split: prod.splits rresult.splits option.splits)
    then show ?thesis by (intro exI [of _ 0]) simp
  qed
qed

lemma poll_none_iff: "poll_until ask verdict w = None \<longleftrightarrow> (\<forall>n. undecided ask verdict (asked ask n w))"
proof
  assume none: "poll_until ask verdict w = None"
  have "undecided ask verdict (asked ask n w) \<and> poll_until ask verdict (asked ask n w) = None" for n
    using none
  proof (induction n arbitrary: w)
    case 0
    then show ?case using poll_decided [of ask verdict w] by auto
  next
    case (Suc n)
    have "undecided ask verdict w" using Suc.prems poll_decided [of ask verdict w] by auto
    then have "poll_until ask verdict (fst (ask w)) = None" by (rule poll_undecided [symmetric, THEN trans]) (rule Suc.prems)
    from Suc.IH [OF this] show ?case by simp
  qed
  then show "\<forall>n. undecided ask verdict (asked ask n w)" by blast
next
  assume "\<forall>n. undecided ask verdict (asked ask n w)"
  with poll_ends [of ask verdict w] show "poll_until ask verdict w = None"
    by (cases "poll_until ask verdict w") (auto simp: decides_def)
qed

lemma poll_once: "ask w = (w', Ok st) \<Longrightarrow> verdict st = Some r \<Longrightarrow> poll_until ask verdict w = Some (w', r)"
  by (subst poll_until.simps) simp

text \<open>A successful wait ends with an answer that was judged successful.\<close>

lemma poll_Ok:
  "poll_until ask verdict w = Some (w', Ok b) \<Longrightarrow>
     \<exists>n st. ask (asked ask n w) = (w', Ok st) \<and> verdict st = Some (Ok b)"
  by (drule poll_ends) (auto simp: decides_def)

end
