(* ===== verification/Engine_Chain.thy ===== *)
theory Engine_Chain
  imports Engine_Provider
begin

text \<open>
  Properties of the engine provider: when its waiting calls return, when \<open>advance_chain\<close> extends the
  chain of a node that keeps to the engine API and when it cannot, and what \<open>replay_chain_segment\<close> replays.
\<close>

section \<open>Waiting\<close>

lemma retry_verdict_None: "retry_verdict m st = None \<longleftrightarrow> st = Syncing \<or> st = Accepted"
  by (cases st) simp_all

lemma strict_verdict_None: "strict_verdict m st = None \<longleftrightarrow> st = Accepted"
  by (cases st) simp_all

lemma fcu_retry_verdict_None:
  "fcu_retry_verdict u = None \<longleftrightarrow> fu_payload_status u = Syncing \<or> fu_payload_status u = Accepted"
  by (cases "fu_payload_status u") (simp_all add: fcu_retry_verdict_def)

lemma fcu_strict_verdict_None: "fcu_strict_verdict u = None \<longleftrightarrow> fu_payload_status u = Accepted"
  by (cases "fu_payload_status u") (simp_all add: fcu_strict_verdict_def fcu_retry_verdict_def)

lemma undecided_iff: "undecided ask verdict w \<longleftrightarrow> (\<exists>st. snd (ask w) = Ok st \<and> verdict st = None)"
  by (cases "snd (ask w)") (simp_all add: undecided_def)

lemma poll_waits:
  "poll_until ask verdict w = None \<longleftrightarrow> (\<forall>n. \<exists>st. snd (ask (asked ask n w)) = Ok st \<and> verdict st = None)"
  by (simp only: poll_none_iff undecided_iff)

lemma fcu_answer:
  "(\<exists>u. r = Ok u \<and> P (fu_payload_status u))
    \<longleftrightarrow> (\<exists>i s. P s \<and> r = Ok \<lparr>fu_payload_status = s, fu_payload_id = i\<rparr>)"
proof
  assume "\<exists>u. r = Ok u \<and> P (fu_payload_status u)"
  then obtain u where "r = Ok u" "P (fu_payload_status u)" by blast
  then show "\<exists>i s. P s \<and> r = Ok \<lparr>fu_payload_status = s, fu_payload_id = i\<rparr>" by (cases u) auto
qed auto

text \<open>
  C26. Which answers keep the provider waiting.  A call of \<open>newPayloadV1\<close> or \<open>newPayloadV2\<close> fails to return
  exactly if the node answers \<open>SYNCING\<close> or \<open>ACCEPTED\<close> for ever, and so does \<open>forkchoiceUpdatedV3\<close>, which
  the message versions 3 and 4 use; \<open>newPayloadV3\<close>, \<open>newPayloadV4\<close> and the first two versions of
  \<open>forkchoiceUpdated\<close> give up on the first \<open>SYNCING\<close> and wait only while the answer is \<open>ACCEPTED\<close>.
\<close>

theorem waiting_calls_return:
  "(new_payload_v1_wait eg p1 w = None \<longleftrightarrow>
      (\<forall>n. snd (eg_new_payload_v1 eg p1 (asked (eg_new_payload_v1 eg p1) n w)) \<in> {Ok Syncing, Ok Accepted})) \<and>
   (new_payload_v2_wait eg p2 w = None \<longleftrightarrow>
      (\<forall>n. snd (eg_new_payload_v2 eg p2 (asked (eg_new_payload_v2 eg p2) n w)) \<in> {Ok Syncing, Ok Accepted})) \<and>
   (new_payload_v3_wait eg p3 vh root w = None \<longleftrightarrow>
      (\<forall>n. snd (eg_new_payload_v3 eg p3 vh root (asked (eg_new_payload_v3 eg p3 vh root) n w)) = Ok Accepted)) \<and>
   (new_payload_v4_wait eg p4 vh root reqs w = None \<longleftrightarrow>
      (\<forall>n. snd (new_payload_v4 eg p4 vh root reqs (asked (new_payload_v4 eg p4 vh root reqs) n w)) = Ok Accepted)) \<and>
   (fork_choice_updated_v1_wait eg st attrs w = None \<longleftrightarrow>
      (\<forall>n. \<exists>i. snd (eg_forkchoice_updated_v1 eg st attrs (asked (eg_forkchoice_updated_v1 eg st attrs) n w))
         = Ok \<lparr>fu_payload_status = Accepted, fu_payload_id = i\<rparr>)) \<and>
   (fork_choice_updated_v2_wait eg st attrs w = None \<longleftrightarrow>
      (\<forall>n. \<exists>i. snd (eg_forkchoice_updated_v2 eg st attrs (asked (eg_forkchoice_updated_v2 eg st attrs) n w))
         = Ok \<lparr>fu_payload_status = Accepted, fu_payload_id = i\<rparr>)) \<and>
   (fork_choice_updated_v3_wait eg st attrs w = None \<longleftrightarrow>
      (\<forall>n. \<exists>i. \<exists>s \<in> {Syncing, Accepted}.
         snd (eg_forkchoice_updated_v3 eg st attrs (asked (eg_forkchoice_updated_v3 eg st attrs) n w))
         = Ok \<lparr>fu_payload_status = s, fu_payload_id = i\<rparr>))"
proof -
  have status: "(\<exists>st. r = Ok st \<and> (st = Syncing \<or> st = Accepted)) \<longleftrightarrow> r \<in> {Ok Syncing, Ok Accepted}"
    "(\<exists>st. r = Ok st \<and> st = Accepted) \<longleftrightarrow> r = Ok Accepted" for r :: "(_, transport_error) rresult"
    by auto
  have one: "(\<exists>i s. s = Accepted \<and> Q s i) \<longleftrightarrow> (\<exists>i. Q Accepted i)"
    "(\<exists>i s. (s = Syncing \<or> s = Accepted) \<and> Q s i) \<longleftrightarrow> (\<exists>i. \<exists>s \<in> {Syncing, Accepted}. Q s i)"
    for Q :: "payload_status \<Rightarrow> u64 option \<Rightarrow> bool" by auto
  show ?thesis
    by (simp only: new_payload_v1_wait_def new_payload_v2_wait_def new_payload_v3_wait_def new_payload_v4_wait_def
        fork_choice_updated_v1_wait_def fork_choice_updated_v2_wait_def fork_choice_updated_v3_wait_def
        poll_waits retry_verdict_None strict_verdict_None fcu_retry_verdict_None fcu_strict_verdict_None
        status fcu_answer [where P = "\<lambda>s. s = Accepted"]
        fcu_answer [where P = "\<lambda>s. s = Syncing \<or> s = Accepted"] one simp_thms)
qed

section \<open>Advancing the chain\<close>

text \<open>
  What the engine API documents of a node: the blocks it has validated with parent and timestamp, the
  head of its chain, the payloads under construction with parent and attributes, the versioned hashes of the blobs
  of a payload, the timestamps at which the Cancun and the Prague rules are in force, and whether it is a node of an OP
  chain.
\<close>

record 'w engine_view =
  ev_known :: "'w \<Rightarrow> b256 \<Rightarrow> (b256 \<times> u64) option"
  ev_head :: "'w \<Rightarrow> b256"
  ev_building :: "'w \<Rightarrow> u64 \<Rightarrow> (b256 \<times> network_attributes) option"
  ev_blobs :: "payload_v3 \<Rightarrow> b256 list"
  ev_cancun :: "u64 \<Rightarrow> bool"
  ev_prague :: "u64 \<Rightarrow> bool"
  ev_op :: bool

fun attributes_of :: "network_attributes \<Rightarrow> payload_attributes" where
  "attributes_of (EthAttributes a) = a"
| "attributes_of (OpAttributes a) = oa_payload_attributes a"

definition attributes_timestamp :: "network_attributes \<Rightarrow> u64" where
  "attributes_timestamp a = pa_timestamp (attributes_of a)"

definition attributes_root :: "network_attributes \<Rightarrow> b256 option" where
  "attributes_root a = pa_parent_beacon_block_root (attributes_of a)"

text \<open>The fields that the node requires of attributes: withdrawals and beacon root, on an OP chain gas limit and fee parameters.\<close>

fun attributes_fit :: "bool \<Rightarrow> network_attributes \<Rightarrow> bool" where
  "attributes_fit op (EthAttributes a) =
     (\<not> op \<and> pa_withdrawals a \<noteq> None \<and> pa_parent_beacon_block_root a \<noteq> None)"
| "attributes_fit op (OpAttributes a) =
     (op \<and> pa_withdrawals (oa_payload_attributes a) \<noteq> None \<and>
      pa_parent_beacon_block_root (oa_payload_attributes a) \<noteq> None \<and>
      oa_gas_limit a \<noteq> None \<and> map_option length (oa_eip_1559_params a) = Some 8)"

definition p3_core :: "payload_v3 \<Rightarrow> payload_v1" where
  "p3_core p = p2_payload_inner (p3_payload_inner p)"

text \<open>The latest block is the head of the chain.\<close>

definition latest_is_head :: "'w engine \<Rightarrow> 'w engine_view \<Rightarrow> bool" where
  "latest_is_head eg ev \<longleftrightarrow> (\<forall>w. \<exists>blk. eg_get_block eg BlockLatest w = (w, Ok (Some blk)) \<and>
     eh_hash (eb_header blk) = ev_head ev w \<and>
     ev_known ev w (ev_head ev w) = Some (eh_parent_hash (eb_header blk), eh_timestamp (eb_header blk)))"

definition parent_of :: "'w engine_view \<Rightarrow> 'w \<Rightarrow> (b256 \<times> b256) set" where
  "parent_of ev w = {(par, h). \<exists>ts. ev_known ev w h = Some (par, ts)}"

text \<open>
  A forkchoice state the node has to accept with \<open>forkchoiceUpdatedV3\<close>: its head is the present head or a validated
  child of it, the safe and the finalized block belong to the chain of that head, and attributes, if given, have
  the required fields and a timestamp later than that of the head at which the rules of a supported fork are in force.
\<close>

definition acceptable_forkchoice ::
  "'w engine_view \<Rightarrow> 'w \<Rightarrow> forkchoice_state \<Rightarrow> network_attributes option \<Rightarrow> bool" where
  "acceptable_forkchoice ev w st attrs \<longleftrightarrow>
     (\<exists>par ts. ev_known ev w (fk_head_block_hash st) = Some (par, ts) \<and>
        (fk_head_block_hash st = ev_head ev w \<or> par = ev_head ev w) \<and>
        (\<forall>a. attrs = Some a \<longrightarrow> attributes_fit (ev_op ev) a \<and> ts < attributes_timestamp a \<and>
           (ev_cancun ev (attributes_timestamp a) \<or> ev_prague ev (attributes_timestamp a)))) \<and>
     (fk_safe_block_hash st, fk_head_block_hash st) \<in> (parent_of ev w)\<^sup>* \<and>
     (fk_finalized_block_hash st, fk_head_block_hash st) \<in> (parent_of ev w)\<^sup>*"

text \<open>Such a state makes its head the head of the node, and with attributes the node starts to build a child of it.\<close>

definition forkchoice_moves_head :: "'w engine \<Rightarrow> 'w engine_view \<Rightarrow> bool" where
  "forkchoice_moves_head eg ev \<longleftrightarrow> (\<forall>w st attrs. acceptable_forkchoice ev w st attrs \<longrightarrow>
     (\<exists>w' i. eg_forkchoice_updated_v3 eg st attrs w = (w', Ok \<lparr>fu_payload_status = Valid, fu_payload_id = i\<rparr>) \<and>
        ev_head ev w' = fk_head_block_hash st \<and> ev_known ev w' = ev_known ev w \<and>
        (\<forall>a. attrs = Some a \<longrightarrow> (\<exists>j. i = Some j \<and> ev_building ev w' j = Some (fk_head_block_hash st, a)))))"

text \<open>
  \<open>newPayloadV3\<close> on a payload that the node built itself, on a parent it knows: it is valid with the versioned hashes of
  its blobs and the beacon root it was built with, and invalid, without any effect, otherwise.
\<close>

definition payload_judged :: "'w engine \<Rightarrow> 'w engine_view \<Rightarrow> 'w \<Rightarrow> network_attributes \<Rightarrow> payload_v3 \<Rightarrow> bool" where
  "payload_judged eg ev w a p \<longleftrightarrow> (\<forall>vh root.
     if vh = ev_blobs ev p \<and> attributes_root a = Some root
     then \<exists>w'. eg_new_payload_v3 eg p vh root w = (w', Ok Valid) \<and> ev_head ev w' = ev_head ev w \<and>
       ev_known ev w' = (ev_known ev w)(p3_block_hash p \<mapsto> (p1_parent_hash (p3_core p), p1_timestamp (p3_core p)))
     else \<exists>w' e. eg_new_payload_v3 eg p vh root w = (w', Ok (Invalid e)) \<and> ev_head ev w' = ev_head ev w \<and>
       ev_known ev w' = ev_known ev w)"

text \<open>Under the Cancun rules a payload under construction can be fetched with \<open>getPayloadV3\<close>, and is judged so.\<close>

definition cancun_payloads :: "'w engine \<Rightarrow> 'w engine_view \<Rightarrow> bool" where
  "cancun_payloads eg ev \<longleftrightarrow> (\<forall>w i par a.
     ev_building ev w i = Some (par, a) \<and> ev_cancun ev (attributes_timestamp a) \<and> ev_known ev w par \<noteq> None \<longrightarrow>
     (\<exists>p. eg_get_payload_v3 eg i w = (w, Ok p) \<and> p1_parent_hash (p3_core p) = par \<and>
        p1_timestamp (p3_core p) = attributes_timestamp a \<and> payload_judged eg ev w a p))"

text \<open>
  The methods of a version are refused outside the time of its rules: \<open>getPayloadV4\<close> for a payload that is not under the
  Prague rules, \<open>newPayloadV3\<close> for one that is not under the Cancun rules.
\<close>

definition forks_checked :: "'w engine \<Rightarrow> 'w engine_view \<Rightarrow> bool" where
  "forks_checked eg ev \<longleftrightarrow> (\<forall>t. \<not> (ev_cancun ev t \<and> ev_prague ev t)) \<and>
     (\<forall>w i par a. ev_building ev w i = Some (par, a) \<longrightarrow>
        (if ev_prague ev (attributes_timestamp a)
         then \<exists>p. eg_get_payload_v4 eg i w = (w, Ok p) \<and> p1_timestamp (p3_core p) = attributes_timestamp a
         else \<exists>e. eg_get_payload_v4 eg i w = (w, Err e))) \<and>
     (\<forall>w p vh root. \<not> ev_cancun ev (p1_timestamp (p3_core p)) \<longrightarrow>
        (\<exists>e. eg_new_payload_v3 eg p vh root w = (w, Err e)))"

lemma fcu_default_valid:
  assumes "ap_message_version ap = MsgV3 \<or> ap_message_version ap = MsgV4"
    and "default_op_params enc ap = Ok params"
    and "eg_forkchoice_updated_v3 eg
           \<lparr>fk_head_block_hash = new, fk_safe_block_hash = cur, fk_finalized_block_hash = cur\<rparr>
           (map_option (\<lambda>t. fcu_payload_attributes (ap_network ap) t params) ts) w = (w', Ok u)"
    and "fu_payload_status u = Valid"
  shows "call_fcu_default enc eg ap cur new ts w = Some (w', Ok u)"
proof -
  have "fcu_retry_verdict u = Some (Ok u)" using assms(4) by (simp add: fcu_retry_verdict_def)
  with assms(3) have "fork_choice_updated_v3_wait eg
      \<lparr>fk_head_block_hash = new, fk_safe_block_hash = cur, fk_finalized_block_hash = cur\<rparr>
      (map_option (\<lambda>t. fcu_payload_attributes (ap_network ap) t params) ts) w = Some (w', Ok u)"
    unfolding fork_choice_updated_v3_wait_def by (rule poll_once)
  with assms(1,2) show ?thesis
    by (auto simp: call_fcu_default_def call_forkchoice_updated_def)
qed

lemma attributes_default [simp]:
  "attributes_timestamp (fcu_payload_attributes net ts params) = ts"
  "attributes_root (fcu_payload_attributes net ts params) = Some 0"
  by (cases net; simp add: attributes_timestamp_def attributes_root_def eth_attributes_def op_attributes_def Let_def)+

lemma new_payload_valid:
  "eg_new_payload_v3 eg p vh root w = (w', Ok Valid) \<Longrightarrow>
     call_new_payload eg ap (PayloadV3 p) (Some root) vh reqs w = Some (w', Ok MsgV3)"
  by (auto simp: new_payload_v3_wait_def intro!: poll_once)

lemma new_payload_invalid:
  assumes "eg_new_payload_v3 eg p vh root w = (w', Ok (Invalid e))"
  shows "call_new_payload eg ap (PayloadV3 p) (Some root) vh reqs w
    = Some (w', Err (AuthTransport (UnsupportedFeature ''Invalid newPayloadV3'')))"
proof -
  have "new_payload_v3_wait eg p vh root w = Some (w', Err (UnsupportedFeature ''Invalid newPayloadV3''))"
    unfolding new_payload_v3_wait_def using assms by (rule poll_once) simp
  then show ?thesis by (simp add: wbind_def wlift_def wtransport_def)
qed

lemma new_payload_refused:
  assumes "eg_new_payload_v3 eg p vh root w = (w', Err e)"
  shows "call_new_payload eg ap (PayloadV3 p) (Some root) vh reqs w = Some (w', Err (AuthTransport e))"
proof -
  have "new_payload_v3_wait eg p vh root w = Some (w', Err e)"
    unfolding new_payload_v3_wait_def using assms by (subst poll_until.simps) simp
  then show ?thesis by (simp add: wbind_def wlift_def wtransport_def)
qed

lemma default_op_params_Ok:
  assumes "is_op (ap_network ap) \<longrightarrow> length (eh_extra_data (ap_genesis_block ap)) = 9"
  obtains params where "default_op_params enc ap = Ok params"
    and "attributes_fit (is_op (ap_network ap)) (fcu_payload_attributes (ap_network ap) ts params)"
  using assms that
  by (cases "ap_network ap")
     (auto simp: default_op_params_def fixed_bytes_8_def eth_attributes_def op_attributes_def Let_def)

text \<open>The first step of \<open>advance_chain\<close>: the node starts to build a child of its head.\<close>

lemma advance_started:
  assumes "latest_is_head eg ev" and "forkchoice_moves_head eg ev"
    and "ap_message_version ap = MsgV3 \<or> ap_message_version ap = MsgV4"
    and "is_op (ap_network ap) \<longrightarrow> length (eh_extra_data (ap_genesis_block ap)) = 9"
    and "ev_known ev w (ev_head ev w) = Some (par, ts)" and "ts < ts + block_time_secs"
    and "ev_cancun ev (ts + block_time_secs) \<or> ev_prague ev (ts + block_time_secs)"
    and "ev_op ev = is_op (ap_network ap)"
  obtains w1 j a params rq where "default_op_params enc ap = Ok params"
    and "ev_head ev w1 = ev_head ev w" and "ev_known ev w1 = ev_known ev w"
    and "ev_building ev w1 j = Some (ev_head ev w, a)"
    and "attributes_timestamp a = ts + block_time_secs" and "attributes_root a = Some 0"
    and "advance_chain enc eg ap block_time_secs w =
      wbind (get_built_payload eg (ap_message_version ap) j) (\<lambda>(payload, block_hash).
      wbind (call_new_payload eg ap payload (Some 0) [] (Some (RequestsHash rq))) (\<lambda>_.
      wbind (call_fcu_default enc eg ap (ev_head ev w) block_hash None) (\<lambda>_. wlift (Ok ())))) w1"
proof -
  let ?h = "ev_head ev w"
  obtain params where params: "default_op_params enc ap = Ok params"
    and fit: "attributes_fit (is_op (ap_network ap)) (fcu_payload_attributes (ap_network ap) (ts + block_time_secs) params)"
    using assms(4) by (rule default_op_params_Ok)
  obtain blk where blk: "eg_get_block eg BlockLatest w = (w, Ok (Some blk))"
    and hash: "eh_hash (eb_header blk) = ?h" and time: "eh_timestamp (eb_header blk) = ts"
    using assms(1,5) unfolding latest_is_head_def by fastforce
  let ?st = "\<lparr>fk_head_block_hash = ?h, fk_safe_block_hash = ?h, fk_finalized_block_hash = ?h\<rparr>"
  let ?attrs = "fcu_payload_attributes (ap_network ap) (ts + block_time_secs) params"
  have "acceptable_forkchoice ev w ?st (Some ?attrs)"
    using assms(5-8) fit by (simp add: acceptable_forkchoice_def)
  then obtain w1 j where fcu: "eg_forkchoice_updated_v3 eg ?st (Some ?attrs) w
      = (w1, Ok \<lparr>fu_payload_status = Valid, fu_payload_id = Some j\<rparr>)"
    and w1: "ev_head ev w1 = ?h" "ev_known ev w1 = ev_known ev w" "ev_building ev w1 j = Some (?h, ?attrs)"
    using assms(2) unfolding forkchoice_moves_head_def by fastforce
  have "call_fcu_default enc eg ap ?h ?h (Some (ts + block_time_secs)) w
      = Some (w1, Ok \<lparr>fu_payload_status = Valid, fu_payload_id = Some j\<rparr>)"
    using fcu by (intro fcu_default_valid [OF assms(3) params]) simp_all
  then have "advance_chain enc eg ap block_time_secs w =
      wbind (get_built_payload eg (ap_message_version ap) j) (\<lambda>(payload, block_hash).
      wbind (call_new_payload eg ap payload (Some 0) []
        (Some (RequestsHash (case eh_requests_hash (eb_header blk) of Some h \<Rightarrow> h | None \<Rightarrow> 0)))) (\<lambda>_.
      wbind (call_fcu_default enc eg ap ?h block_hash None) (\<lambda>_. wlift (Ok ())))) w1"
    by (simp add: advance_chain_def Let_def wbind_def [of "wcall _"] wbind_def [of "wlift _"] wbind_def [of "call_fcu_default enc eg ap ?h ?h _"]
        wcall_def wlift_def blk hash time)
  with params w1 show thesis by (rule that [OF _ _ _ _ attributes_default])
qed

text \<open>Message version 3 while the Cancun rules are in force.\<close>

lemma advance_chain_v3:
  assumes "latest_is_head eg ev" and "forkchoice_moves_head eg ev" and "cancun_payloads eg ev" and "forks_checked eg ev"
    and "is_op (ap_network ap) \<longrightarrow> length (eh_extra_data (ap_genesis_block ap)) = 9"
    and "ev_known ev w (ev_head ev w) = Some (par, ts)" and "ts < ts + block_time_secs"
    and "ev_op ev = is_op (ap_network ap)"
    and "ap_message_version ap = MsgV3" and "ev_cancun ev (ts + block_time_secs)"
  shows "\<exists>w1 i p. eg_get_payload_v3 eg i w1 = (w1, Ok p) \<and> p1_parent_hash (p3_core p) = ev_head ev w \<and>
      p1_timestamp (p3_core p) = ts + block_time_secs \<and>
      (if ev_blobs ev p = []
       then \<exists>w'. advance_chain enc eg ap block_time_secs w = Some (w', Ok ()) \<and> ev_head ev w' = p3_block_hash p \<and>
         ev_known ev w' (ev_head ev w') = Some (ev_head ev w, ts + block_time_secs)
       else \<exists>w'. advance_chain enc eg ap block_time_secs w
           = Some (w', Err (AuthTransport (UnsupportedFeature ''Invalid newPayloadV3''))) \<and>
         ev_head ev w' = ev_head ev w \<and> ev_known ev w' = ev_known ev w)"
proof -
  let ?h = "ev_head ev w"
  note v3 = assms(9) and cancun = assms(10)
  from v3 have vers: "ap_message_version ap = MsgV3 \<or> ap_message_version ap = MsgV4" by simp
  obtain w1 j a params rq where params: "default_op_params enc ap = Ok params"
    and w1: "ev_head ev w1 = ?h" "ev_known ev w1 = ev_known ev w" "ev_building ev w1 j = Some (?h, a)"
      "attributes_timestamp a = ts + block_time_secs" "attributes_root a = Some 0"
    and adv: "advance_chain enc eg ap block_time_secs w =
      wbind (get_built_payload eg (ap_message_version ap) j) (\<lambda>(payload, block_hash).
      wbind (call_new_payload eg ap payload (Some 0) [] (Some (RequestsHash rq))) (\<lambda>_.
      wbind (call_fcu_default enc eg ap ?h block_hash None) (\<lambda>_. wlift (Ok ())))) w1"
    by (rule advance_started [OF assms(1,2) vers assms(5-7) _ assms(8)]) (use cancun in simp)
  have "ev_known ev w1 ?h \<noteq> None" using w1(2) assms(6) by simp
  with assms(3) w1(3,4) cancun obtain p where p: "eg_get_payload_v3 eg j w1 = (w1, Ok p)"
      "p1_parent_hash (p3_core p) = ?h" "p1_timestamp (p3_core p) = ts + block_time_secs" "payload_judged eg ev w1 a p"
    unfolding cancun_payloads_def by metis
  have get: "get_built_payload eg (ap_message_version ap) j w1 = Some (w1, Ok (PayloadV3 p, p3_block_hash p))"
    by (simp add: v3 p(1) wbind_def wcall_def wlift_def)
  have "if ev_blobs ev p = []
      then \<exists>w'. advance_chain enc eg ap block_time_secs w = Some (w', Ok ()) \<and> ev_head ev w' = p3_block_hash p \<and>
        ev_known ev w' (ev_head ev w') = Some (?h, ts + block_time_secs)
      else \<exists>w'. advance_chain enc eg ap block_time_secs w
          = Some (w', Err (AuthTransport (UnsupportedFeature ''Invalid newPayloadV3''))) \<and>
        ev_head ev w' = ?h \<and> ev_known ev w' = ev_known ev w"
  proof (cases "ev_blobs ev p = []")
    case True
    with p(2-4) w1(5) obtain w2 where np: "eg_new_payload_v3 eg p [] 0 w1 = (w2, Ok Valid)"
      and w2: "ev_head ev w2 = ?h" "ev_known ev w2 = (ev_known ev w1)(p3_block_hash p \<mapsto> (?h, ts + block_time_secs))"
      unfolding payload_judged_def w1(1) by metis
    let ?st = "\<lparr>fk_head_block_hash = p3_block_hash p, fk_safe_block_hash = ?h, fk_finalized_block_hash = ?h\<rparr>"
    have "(?h, p3_block_hash p) \<in> parent_of ev w2" by (simp add: parent_of_def w2(2))
    then have "acceptable_forkchoice ev w2 ?st None" by (auto simp: acceptable_forkchoice_def w2)
    then obtain w3 i where fcu: "eg_forkchoice_updated_v3 eg ?st None w2
        = (w3, Ok \<lparr>fu_payload_status = Valid, fu_payload_id = i\<rparr>)"
      and w3: "ev_head ev w3 = p3_block_hash p" "ev_known ev w3 = ev_known ev w2"
      using assms(2) unfolding forkchoice_moves_head_def by fastforce
    have "call_fcu_default enc eg ap ?h (p3_block_hash p) None w2 = Some (w3, Ok \<lparr>fu_payload_status = Valid, fu_payload_id = i\<rparr>)"
      using fcu by (intro fcu_default_valid [OF vers params]) simp_all
    then have "advance_chain enc eg ap block_time_secs w = Some (w3, Ok ())"
      unfolding adv by (simp add: wbind_def get new_payload_valid [OF np] wlift_def del: call_new_payload.simps)
    with True w3 w2(2) show ?thesis by simp
  next
    case False
    have "\<not> ([] = ev_blobs ev p \<and> attributes_root a = Some 0)" using False by simp
    with p(4) obtain w2 e where np: "eg_new_payload_v3 eg p [] 0 w1 = (w2, Ok (Invalid e))"
      and w2: "ev_head ev w2 = ev_head ev w1" "ev_known ev w2 = ev_known ev w1"
      unfolding payload_judged_def by metis
    have "advance_chain enc eg ap block_time_secs w
        = Some (w2, Err (AuthTransport (UnsupportedFeature ''Invalid newPayloadV3'')))"
      unfolding adv by (simp add: wbind_def get new_payload_invalid [OF np] del: call_new_payload.simps)
    with False w2 w1(1,2) show ?thesis by simp
  qed
  with p(1-3) show ?thesis by blast
qed

text \<open>Message version 4.\<close>

lemma advance_chain_v4:
  assumes "latest_is_head eg ev" and "forkchoice_moves_head eg ev" and "cancun_payloads eg ev" and "forks_checked eg ev"
    and "is_op (ap_network ap) \<longrightarrow> length (eh_extra_data (ap_genesis_block ap)) = 9"
    and "ev_known ev w (ev_head ev w) = Some (par, ts)" and "ts < ts + block_time_secs"
    and "ev_op ev = is_op (ap_network ap)"
    and "ap_message_version ap = MsgV4" and "ev_cancun ev (ts + block_time_secs) \<or> ev_prague ev (ts + block_time_secs)"
  shows "\<exists>w' e. advance_chain enc eg ap block_time_secs w = Some (w', Err e) \<and>
      ev_head ev w' = ev_head ev w \<and> ev_known ev w' = ev_known ev w"
proof -
  let ?h = "ev_head ev w"
  note v4 = assms(9) and rules = assms(10)
  from v4 have vers: "ap_message_version ap = MsgV3 \<or> ap_message_version ap = MsgV4" by simp
  obtain w1 j a rq where w1: "ev_head ev w1 = ?h" "ev_known ev w1 = ev_known ev w" "ev_building ev w1 j = Some (?h, a)"
      "attributes_timestamp a = ts + block_time_secs"
    and adv: "advance_chain enc eg ap block_time_secs w =
      wbind (get_built_payload eg (ap_message_version ap) j) (\<lambda>(payload, block_hash).
      wbind (call_new_payload eg ap payload (Some 0) [] (Some (RequestsHash rq))) (\<lambda>_.
      wbind (call_fcu_default enc eg ap ?h block_hash None) (\<lambda>_. wlift (Ok ())))) w1"
    by (rule advance_started [OF assms(1,2) vers assms(5-7) rules assms(8)])
  have disjoint: "\<not> (ev_cancun ev t \<and> ev_prague ev t)" for t using assms(4) unfolding forks_checked_def by blast
  have fetch: "if ev_prague ev (attributes_timestamp a)
      then \<exists>p. eg_get_payload_v4 eg j w1 = (w1, Ok p) \<and> p1_timestamp (p3_core p) = attributes_timestamp a
      else \<exists>e. eg_get_payload_v4 eg j w1 = (w1, Err e)"
    using assms(4) w1(3) unfolding forks_checked_def by blast
  have "\<exists>e. advance_chain enc eg ap block_time_secs w = Some (w1, Err e)"
  proof (cases "ev_prague ev (ts + block_time_secs)")
    case True
    with fetch w1(4) obtain p where p: "eg_get_payload_v4 eg j w1 = (w1, Ok p)" "p1_timestamp (p3_core p) = ts + block_time_secs" by auto
    from True disjoint p(2) have "\<not> ev_cancun ev (p1_timestamp (p3_core p))" by metis
    then obtain e where "eg_new_payload_v3 eg p [] 0 w1 = (w1, Err e)" using assms(4) unfolding forks_checked_def by blast
    from new_payload_refused [OF this] p(1) show ?thesis
      unfolding adv by (simp add: v4 wbind_def wcall_def wlift_def del: call_new_payload.simps)
  next
    case False
    with fetch w1(4) obtain e where "eg_get_payload_v4 eg j w1 = (w1, Err e)" by auto
    then show ?thesis unfolding adv by (simp add: v4 wbind_def wcall_def)
  qed
  with w1(1,2) show ?thesis by blast
qed

text \<open>
  C24. Advancing the chain of a node that behaves as the engine API documents.  Let the head of the node have the timestamp \<open>ts\<close>, and
  let the block time neither be zero nor overflow it.  With message version 3, while the Cancun rules are in
  force, the node builds a payload on its head with exactly that block time added.  If it holds no blob
  transaction, \<open>advance_chain\<close> succeeds and the new head of the node is that block, a child of the old head with
  the new timestamp.  If it holds one, \<open>advance_chain\<close> fails, because it
  passes no versioned hashes, and the head stays.  With message version 4, the default of the command line, it never
  succeeds: either \<open>getPayloadV4\<close> is refused, before Prague, or \<open>newPayloadV3\<close> is, after it, and the head stays.
  The provider is one for the network of the node; for an OP chain the extra data of the genesis block has to have 9 bytes.
\<close>

theorem advance_chain_extends_head:
  assumes "latest_is_head eg ev" and "forkchoice_moves_head eg ev" and "cancun_payloads eg ev" and "forks_checked eg ev"
    and "is_op (ap_network ap) \<longrightarrow> length (eh_extra_data (ap_genesis_block ap)) = 9"
    and "ev_known ev w (ev_head ev w) = Some (par, ts)" and "ts < ts + block_time_secs"
    and "ev_op ev = is_op (ap_network ap)"
  shows "(ap_message_version ap = MsgV3 \<and> ev_cancun ev (ts + block_time_secs) \<longrightarrow>
      (\<exists>w1 i p. eg_get_payload_v3 eg i w1 = (w1, Ok p) \<and> p1_parent_hash (p3_core p) = ev_head ev w \<and>
         p1_timestamp (p3_core p) = ts + block_time_secs \<and>
         (if ev_blobs ev p = []
          then \<exists>w'. advance_chain enc eg ap block_time_secs w = Some (w', Ok ()) \<and> ev_head ev w' = p3_block_hash p \<and>
            ev_known ev w' (ev_head ev w') = Some (ev_head ev w, ts + block_time_secs)
          else \<exists>w'. advance_chain enc eg ap block_time_secs w
              = Some (w', Err (AuthTransport (UnsupportedFeature ''Invalid newPayloadV3''))) \<and>
            ev_head ev w' = ev_head ev w \<and> ev_known ev w' = ev_known ev w)))
    \<and> (ap_message_version ap = MsgV4 \<and> (ev_cancun ev (ts + block_time_secs) \<or> ev_prague ev (ts + block_time_secs)) \<longrightarrow>
      (\<exists>w' e. advance_chain enc eg ap block_time_secs w = Some (w', Err e) \<and>
         ev_head ev w' = ev_head ev w \<and> ev_known ev w' = ev_known ev w))"
  using advance_chain_v3 [OF assms] advance_chain_v4 [OF assms] by blast

text \<open>
  A node that knows every block and builds one payload at a time.  Cancun ends at the timestamp 1000, and the payloads
  with an odd timestamp hold a blob transaction.
\<close>

type_synonym demo_chain = "(b256 \<Rightarrow> b256 \<times> u64) \<times> b256 \<times> b256 \<times> network_attributes"

definition demo_header :: "b256 \<Rightarrow> b256 \<Rightarrow> u64 \<Rightarrow> u64 \<Rightarrow> u64 \<Rightarrow> eng_header" where
  "demo_header h par n gas ts =
     \<lparr>eh_hash = h, eh_parent_hash = par, eh_beneficiary = 0, eh_state_root = 0, eh_receipts_root = 0,
      eh_logs_bloom = [], eh_mix_hash = None, eh_number = n, eh_gas_limit = 0, eh_gas_used = gas,
      eh_timestamp = ts, eh_extra_data = replicate 9 0, eh_base_fee_per_gas = None, eh_blob_gas_used = None,
      eh_excess_blob_gas = None, eh_parent_beacon_block_root = None, eh_requests_hash = None\<rparr>"

definition demo_payload :: "b256 \<Rightarrow> u64 \<Rightarrow> payload_v3" where
  "demo_payload par ts =
     \<lparr>p3_payload_inner = \<lparr>p2_payload_inner =
        \<lparr>p1_block_hash = par + 1, p1_parent_hash = par, p1_fee_recipient = 0, p1_state_root = 0,
         p1_receipts_root = 0, p1_logs_bloom = [], p1_prev_randao = 0, p1_block_number = 0,
         p1_gas_limit = 0, p1_gas_used = 0, p1_timestamp = ts, p1_extra_data = [],
         p1_base_fee_per_gas = 0, p1_transactions = (if even ts then [] else [[3]])\<rparr>, p2_withdrawals = []\<rparr>,
      p3_blob_gas_used = 0, p3_excess_blob_gas = 0\<rparr>"

definition demo_blobs :: "payload_v3 \<Rightarrow> b256 list" where
  "demo_blobs p = map (\<lambda>t. 1) (p1_transactions (p3_core p))"

definition demo_cancun :: "u64 \<Rightarrow> bool" where
  "demo_cancun t \<longleftrightarrow> t < 1000"

definition demo_fcu ::
  "forkchoice_state \<Rightarrow> network_attributes option \<Rightarrow> (demo_chain, forkchoice_updated, transport_error) action" where
  "demo_fcu st attrs = (\<lambda>(f, h, b).
     ((f, fk_head_block_hash st, case attrs of Some a \<Rightarrow> (fk_head_block_hash st, a) | None \<Rightarrow> b),
      Ok \<lparr>fu_payload_status = Valid, fu_payload_id = Some 0\<rparr>))"

definition demo_new_payload_v3 ::
  "payload_v3 \<Rightarrow> b256 list \<Rightarrow> b256 \<Rightarrow> (demo_chain, payload_status, transport_error) action" where
  "demo_new_payload_v3 p vh root = (\<lambda>(f, h, par, a).
     if \<not> demo_cancun (p1_timestamp (p3_core p)) then ((f, h, par, a), Err (UnsupportedFeature ''fork''))
     else if vh = demo_blobs p \<and> attributes_root a = Some root
     then ((f(p3_block_hash p := (p1_parent_hash (p3_core p), p1_timestamp (p3_core p))), h, par, a), Ok Valid)
     else ((f, h, par, a), Ok (Invalid ''hash'')))"

text \<open>The payload under construction, handed out by the method for the given fork.\<close>

definition demo_get_payload :: "(u64 \<Rightarrow> bool) \<Rightarrow> (demo_chain, payload_v3, transport_error) action" where
  "demo_get_payload fork = (\<lambda>(f, h, par, a). ((f, h, par, a),
     if fork (attributes_timestamp a) then Ok (demo_payload par (attributes_timestamp a))
     else Err (UnsupportedFeature ''fork'')))"

definition demo_chain_block :: "u64 \<Rightarrow> eng_block" where
  "demo_chain_block i =
     \<lparr>eb_header = demo_header (ucast i) (ucast i - 1) i 100 i, eb_transactions = [], eb_withdrawals = None\<rparr>"

definition demo_engine :: "demo_chain engine" where
  "demo_engine =
     \<lparr>eg_new_payload_v1 = \<lambda>p w. (w, Err (UnsupportedFeature ''fork'')),
      eg_new_payload_v2 = \<lambda>p w. (w, Err (UnsupportedFeature ''fork'')),
      eg_new_payload_v3 = demo_new_payload_v3,
      eg_new_payload_v4 = \<lambda>p vh root reqs w. (w, Ok Valid),
      eg_forkchoice_updated_v1 = demo_fcu, eg_forkchoice_updated_v2 = demo_fcu,
      eg_forkchoice_updated_v3 = demo_fcu,
      eg_get_payload_v1 = \<lambda>i w. (w, Err (UnsupportedFeature ''fork'')),
      eg_get_payload_v2 = \<lambda>i w. (w, Err (UnsupportedFeature ''fork'')),
      eg_get_payload_v3 = \<lambda>i. demo_get_payload demo_cancun,
      eg_get_payload_v4 = \<lambda>i. demo_get_payload (\<lambda>t. \<not> demo_cancun t),
      eg_get_block = \<lambda>i (f, h, b). ((f, h, b), Ok (Some (case i of
          BlockNumber n \<Rightarrow> demo_chain_block n
        | _ \<Rightarrow> \<lparr>eb_header = demo_header h (fst (f h)) 0 0 (snd (f h)), eb_transactions = [],
                eb_withdrawals = None\<rparr>))),
      eg_get_block_number = \<lambda>w. (w, Ok 5)\<rparr>"

definition demo_view :: "bool \<Rightarrow> demo_chain engine_view" where
  "demo_view op =
     \<lparr>ev_known = \<lambda>(f, h, b) x. Some (f x), ev_head = \<lambda>(f, h, b). h, ev_building = \<lambda>(f, h, b) j. Some b,
      ev_blobs = demo_blobs, ev_cancun = demo_cancun, ev_prague = \<lambda>t. \<not> demo_cancun t, ev_op = op\<rparr>"

definition demo_provider :: "engine_network \<Rightarrow> auth_provider" where
  "demo_provider net =
     \<lparr>ap_network = net, ap_genesis_block = demo_header 0 0 0 0 0, ap_message_version = MsgV4, ap_rpc_url = []\<rparr>"

lemma demo_judged:
  assumes "demo_cancun (p1_timestamp (p3_core p))"
  shows "payload_judged demo_engine (demo_view op) (f, h, par, a) a p"
  using assms by (auto simp: payload_judged_def demo_engine_def demo_view_def demo_new_payload_v3_def fun_eq_iff)

lemma demo_payload_simps [simp]:
  "p1_parent_hash (p3_core (demo_payload par ts)) = par" "p1_timestamp (p3_core (demo_payload par ts)) = ts"
  by (simp_all add: demo_payload_def p3_core_def)

lemma demo_engine_laws:
  "latest_is_head demo_engine (demo_view op)" "forkchoice_moves_head demo_engine (demo_view op)"
  "cancun_payloads demo_engine (demo_view op)" "forks_checked demo_engine (demo_view op)"
proof -
  show "latest_is_head demo_engine (demo_view op)"
    by (simp add: latest_is_head_def demo_engine_def demo_view_def demo_header_def)
  show "forkchoice_moves_head demo_engine (demo_view op)"
    by (auto simp: forkchoice_moves_head_def demo_engine_def demo_view_def demo_fcu_def split: option.splits)
  have "\<exists>p. eg_get_payload_v3 demo_engine i (f, h, par, a) = ((f, h, par, a), Ok p) \<and> p1_parent_hash (p3_core p) = par \<and>
      p1_timestamp (p3_core p) = attributes_timestamp a \<and> payload_judged demo_engine (demo_view op) (f, h, par, a) a p"
    if "demo_cancun (attributes_timestamp a)" for i f h par a
    using that by (intro exI [of _ "demo_payload par (attributes_timestamp a)"])
      (simp add: demo_judged, simp add: demo_engine_def demo_get_payload_def)
  then show "cancun_payloads demo_engine (demo_view op)"
    by (auto simp: cancun_payloads_def demo_view_def)
  show "forks_checked demo_engine (demo_view op)"
    by (auto simp: forks_checked_def demo_engine_def demo_view_def demo_get_payload_def demo_new_payload_v3_def)
qed

lemma demo_fetched:
  assumes "eg_get_payload_v3 demo_engine i w = (w, Ok p)"
  shows "demo_blobs p = [] \<longleftrightarrow> even (p1_timestamp (p3_core p))"
  using assms
  by (cases w) (auto simp: demo_engine_def demo_get_payload_def demo_blobs_def p3_core_def demo_payload_def split: if_splits)

theorem advance_chain_extends_head_witness:
  "(\<exists>w'. advance_chain (\<lambda>d. []) demo_engine ((demo_provider Optimism)\<lparr>ap_message_version := MsgV3\<rparr>) 2
       (\<lambda>x. (0, 10), 7, 0, EthAttributes (eth_attributes 0)) = Some (w', Ok ()) \<and>
     ev_known (demo_view True) w' (ev_head (demo_view True) w') = Some (7, 12)) \<and>
   (\<exists>w' e. advance_chain (\<lambda>d. []) demo_engine ((demo_provider Optimism)\<lparr>ap_message_version := MsgV3\<rparr>) 3
       (\<lambda>x. (0, 10), 7, 0, EthAttributes (eth_attributes 0)) = Some (w', Err e) \<and> ev_head (demo_view True) w' = 7) \<and>
   (\<exists>w' e. advance_chain (\<lambda>d. []) demo_engine (demo_provider Optimism) 2
       (\<lambda>x. (0, 10), 7, 0, EthAttributes (eth_attributes 0)) = Some (w', Err e) \<and> ev_head (demo_view True) w' = 7)"
proof -
  let ?w = "(\<lambda>x. (0, 10), 7, 0, EthAttributes (eth_attributes 0)) :: demo_chain"
  let ?ap = "(demo_provider Optimism)\<lparr>ap_message_version := MsgV3\<rparr>"
  note simps = demo_provider_def demo_header_def demo_view_def demo_cancun_def
  have known: "ev_known (demo_view True) ?w (ev_head (demo_view True) ?w) = Some (0, 10)"
    and head: "ev_head (demo_view True) ?w = 7" by (simp_all add: demo_view_def)
  have later: "(10 :: u64) < 10 + 2" "(10 :: u64) < 10 + 3" by simp_all
  obtain i w1 p where p: "eg_get_payload_v3 demo_engine i w1 = (w1, Ok p)" "p1_timestamp (p3_core p) = 12"
    and adv: "demo_blobs p = [] \<longrightarrow> (\<exists>w'. advance_chain (\<lambda>d. []) demo_engine ?ap 2 ?w = Some (w', Ok ()) \<and>
        ev_known (demo_view True) w' (ev_head (demo_view True) w') = Some (7, 12))"
    using advance_chain_extends_head [OF demo_engine_laws [of True] _ known later(1), of ?ap "\<lambda>d. []"]
    by (auto simp: head simps split: if_splits)
  obtain j w2 q where q: "eg_get_payload_v3 demo_engine j w2 = (w2, Ok q)" "p1_timestamp (p3_core q) = 13"
    and fail: "demo_blobs q \<noteq> [] \<longrightarrow> (\<exists>w' e. advance_chain (\<lambda>d. []) demo_engine ?ap 3 ?w = Some (w', Err e) \<and>
        ev_head (demo_view True) w' = 7)"
    using advance_chain_extends_head [OF demo_engine_laws [of True] _ known later(2), of ?ap "\<lambda>d. []"]
    by (auto simp: head simps split: if_splits)
  have "\<exists>w' e. advance_chain (\<lambda>d. []) demo_engine (demo_provider Optimism) 2 ?w = Some (w', Err e) \<and>
      ev_head (demo_view True) w' = 7"
    using advance_chain_extends_head [OF demo_engine_laws [of True] _ known later(1), of "demo_provider Optimism" "\<lambda>d. []"]
    by (auto simp: head simps)
  with adv fail demo_fetched [OF p(1)] demo_fetched [OF q(1)] p(2) q(2) show ?thesis by simp
qed

section \<open>Replaying\<close>

text \<open>
  \<open>V w\<close> are the hashes of the payloads the node has answered \<open>VALID\<close> for up to the state \<open>w\<close>; no
  request removes one.
\<close>

definition grows :: "('w \<Rightarrow> 'h set) \<Rightarrow> ('w \<Rightarrow> 'w \<times> 'r) \<Rightarrow> bool" where
  "grows V m \<longleftrightarrow> (\<forall>w. V w \<subseteq> V (fst (m w)))"

definition records_valid :: "'w engine \<Rightarrow> ('w \<Rightarrow> b256 set) \<Rightarrow> bool" where
  "records_valid eg V \<longleftrightarrow>
     (\<forall>p. grows V (eg_new_payload_v2 eg p)) \<and> (\<forall>p vh root. grows V (eg_new_payload_v3 eg p vh root)) \<and>
     (\<forall>st a. grows V (eg_forkchoice_updated_v1 eg st a)) \<and> (\<forall>st a. grows V (eg_forkchoice_updated_v2 eg st a)) \<and>
     (\<forall>st a. grows V (eg_forkchoice_updated_v3 eg st a)) \<and> (\<forall>i. grows V (eg_get_block eg i)) \<and>
     grows V (eg_get_block_number eg) \<and>
     (\<forall>p w w'. eg_new_payload_v2 eg p w = (w', Ok Valid) \<longrightarrow> p1_block_hash (pi_execution_payload p) \<in> V w') \<and>
     (\<forall>p vh root w w'. eg_new_payload_v3 eg p vh root w = (w', Ok Valid) \<longrightarrow> p3_block_hash p \<in> V w')"

text \<open>Whenever the node returns a block for a number, it is the one of the chain \<open>blk\<close>.\<close>

definition serves_chain :: "'w engine \<Rightarrow> (u64 \<Rightarrow> eng_block) \<Rightarrow> bool" where
  "serves_chain eg blk \<longleftrightarrow> (\<forall>i. eh_number (eb_header (blk i)) = i) \<and>
     (\<forall>i w w' b. eg_get_block eg (BlockNumber i) w = (w', Ok (Some b)) \<longrightarrow> b = blk i)"

lemma growsD: "grows V m \<Longrightarrow> m w = (w', r) \<Longrightarrow> V w \<subseteq> V w'"
  unfolding grows_def by (metis fst_conv)

lemma asked_grows: "grows V ask \<Longrightarrow> V w \<subseteq> V (asked ask n w)"
  by (induction n arbitrary: w) (auto simp: grows_def)

lemma poll_grows:
  assumes "poll_until ask verdict w = Some (w', Ok b)" and "grows V ask"
  obtains w1 st where "V w \<subseteq> V w'" and "ask w1 = (w', Ok st)" and "verdict st = Some (Ok b)"
proof -
  from poll_Ok [OF assms(1)] obtain n st where last: "ask (asked ask n w) = (w', Ok st)" "verdict st = Some (Ok b)"
    by blast
  from asked_grows [OF assms(2)] growsD [OF assms(2) last(1)] have "V w \<subseteq> V w'" by blast
  with last show ?thesis by (intro that)
qed

lemma poll_mono: "poll_until ask verdict w = Some (w', Ok b) \<Longrightarrow> grows V ask \<Longrightarrow> V w \<subseteq> V w'"
  by (erule (1) poll_grows)

lemma retry_verdict_Ok: "retry_verdict m st = Some (Ok b) \<longleftrightarrow> st = Valid \<and> b = Valid"
  by (cases st) auto

lemma strict_verdict_Ok: "strict_verdict m st = Some (Ok b) \<longleftrightarrow> st = Valid \<and> b = Valid"
  by (cases st) auto

lemma call_fcu_default_grows:
  assumes "call_fcu_default enc eg ap cur new ts w = Some (w', Ok u)" and "records_valid eg V"
  shows "V w \<subseteq> V w'"
proof -
  from assms(1) obtain st attrs where
    "call_forkchoice_updated_at (ap_message_version ap) eg st attrs w = Some (w', Ok u)"
    by (auto simp: call_fcu_default_def call_forkchoice_updated_def)
  then show ?thesis
    using assms(2) by (cases "ap_message_version ap")
      (auto simp: fork_choice_updated_v1_wait_def fork_choice_updated_v2_wait_def fork_choice_updated_v3_wait_def
        records_valid_def wlift_def intro: poll_mono [THEN subsetD])
qed

lemma payload_of_block_cases:
  obtains v2 where "payload_of_block ap b = PayloadV2 v2" "p1_block_hash (p2_payload_inner v2) = eh_hash (eb_header b)"
  | v3 where "payload_of_block ap b = PayloadV3 v3" "p3_block_hash v3 = eh_hash (eb_header b)"
  by (cases "eh_blob_gas_used (eb_header b)"; cases "eh_excess_blob_gas (eb_header b)")
     (auto simp: payload_of_block_def Let_def p3_block_hash_def)

lemma call_new_payload_records:
  assumes "call_new_payload eg ap (payload_of_block ap b) root vh reqs w = Some (w', Ok v)" and "records_valid eg V"
  shows "V w \<subseteq> V w' \<and> eh_hash (eb_header b) \<in> V w'"
proof (cases rule: payload_of_block_cases [of ap b])
  case (1 v2)
  let ?p = "\<lparr>pi_execution_payload = p2_payload_inner v2, pi_withdrawals = Some (p2_withdrawals v2)\<rparr>"
  from assms(1) 1 obtain s where "poll_until (eg_new_payload_v2 eg ?p) (retry_verdict ''newPayloadV2'') w = Some (w', Ok s)"
    by (auto simp: new_payload_v2_wait_def)
  moreover have "grows V (eg_new_payload_v2 eg ?p)" using assms(2) by (simp add: records_valid_def)
  ultimately obtain w1 where "V w \<subseteq> V w'" "eg_new_payload_v2 eg ?p w1 = (w', Ok Valid)"
    by (auto simp: retry_verdict_Ok elim: poll_grows)
  moreover from this(2) have "p1_block_hash (pi_execution_payload ?p) \<in> V w'"
    using assms(2) unfolding records_valid_def by blast
  ultimately show ?thesis using 1(2) by simp
next
  case (2 v3)
  from assms(1) 2 obtain r s where "poll_until (eg_new_payload_v3 eg v3 vh r) (strict_verdict ''newPayloadV3'') w = Some (w', Ok s)"
    by (auto simp: new_payload_v3_wait_def)
  moreover have "grows V (eg_new_payload_v3 eg v3 vh r)" using assms(2) by (simp add: records_valid_def)
  ultimately obtain w1 where "V w \<subseteq> V w'" "eg_new_payload_v3 eg v3 vh r w1 = (w', Ok Valid)"
    by (auto simp: strict_verdict_Ok elim: poll_grows)
  moreover from this(2) have "p3_block_hash v3 \<in> V w'" using assms(2) unfolding records_valid_def by blast
  ultimately show ?thesis using 2(2) by simp
qed

lemma get_blocks_chain:
  assumes "get_segment_blocks eg hd_num is w = Some (w', Ok blks)" and "serves_chain eg blk" and "records_valid eg V"
  shows "blks = map (\<lambda>i. blk (word_of_nat i)) is \<and> V w \<subseteq> V w'"
  using assms(1)
proof (induction "is" arbitrary: w blks)
  case (Cons i js)
  from Cons.prems obtain w1 b blks' where one: "eg_get_block eg (BlockNumber (word_of_nat i)) w = (w1, Ok (Some b))"
    and rest: "get_segment_blocks eg hd_num js w1 = Some (w', Ok blks')" and "blks = b # blks'" by auto
  moreover have "b = blk (word_of_nat i)" using one assms(2) unfolding serves_chain_def by blast
  moreover have "V w \<subseteq> V w1" using assms(3) one unfolding records_valid_def by (meson growsD)
  ultimately show ?case using Cons.IH [OF rest] by auto
qed simp

text \<open>One window: the gas of its second block is added and its payload validated.\<close>

lemma replay_windows_step:
  assumes "replay_windows enc sha eg ap gas (b0 # b # bs) w = Some (w', Ok g)"
    and "serves_chain eg blk" and "records_valid eg V" and "b = blk i"
  obtains w1 where "replay_windows enc sha eg ap (gas + ucast (eh_gas_used (eb_header b))) (b # bs) w1 = Some (w', Ok g)"
    and "V w \<subseteq> V w1" and "eh_hash (eb_header b) \<in> V w1"
proof -
  from assms(1) obtain w1 u w2 c w3 v root vh reqs where
    fcu: "call_fcu_default enc eg ap (eh_hash (eb_header b0)) (eh_hash (eb_header b)) None w = Some (w1, Ok u)"
    and get: "eg_get_block eg (BlockNumber (eh_number (eb_header b))) w1 = (w2, Ok (Some c))"
    and np: "call_new_payload eg ap (payload_of_block ap c) root vh reqs w2 = Some (w3, Ok v)"
    and rest: "replay_windows enc sha eg ap (gas + ucast (eh_gas_used (eb_header b))) (b # bs) w3 = Some (w', Ok g)"
    by (auto simp: Let_def block_to_payload_def)
  have "c = b" using get assms(2,4) unfolding serves_chain_def by metis
  moreover have "V w \<subseteq> V w1" using fcu assms(3) by (rule call_fcu_default_grows)
  moreover have "V w1 \<subseteq> V w2" using assms(3) get unfolding records_valid_def by (meson growsD)
  moreover have "V w2 \<subseteq> V w3" "eh_hash (eb_header c) \<in> V w3"
    using call_new_payload_records [OF np assms(3)] by auto
  ultimately show ?thesis using rest by (intro that) blast+
qed

lemma replay_windows_chain:
  assumes "replay_windows enc sha eg ap gas (b0 # map blk is) w = Some (w', Ok g)"
    and "serves_chain eg blk" and "records_valid eg V"
  shows "g = gas + (\<Sum>i\<leftarrow>is. ucast (eh_gas_used (eb_header (blk i)))) \<and> V w \<subseteq> V w' \<and>
    (\<forall>i \<in> set is. eh_hash (eb_header (blk i)) \<in> V w')"
  using assms(1)
proof (induction "is" arbitrary: gas b0 w)
  case (Cons i js)
  then have "replay_windows enc sha eg ap gas (b0 # blk i # map blk js) w = Some (w', Ok g)" by simp
  then obtain w1 where "replay_windows enc sha eg ap (gas + ucast (eh_gas_used (eb_header (blk i)))) (blk i # map blk js) w1
      = Some (w', Ok g)" "V w \<subseteq> V w1" "eh_hash (eb_header (blk i)) \<in> V w1"
    using replay_windows_step [OF _ assms(2,3) refl] by blast
  with Cons.IH show ?case by (fastforce simp: add.assoc)
qed simp

lemma unat_gas_sum:
  fixes f :: "'i \<Rightarrow> u64"
  assumes "length is < 2 ^ 64"
  shows "unat (\<Sum>i\<leftarrow>is. ucast (f i) :: u128) = (\<Sum>i\<leftarrow>is. unat (f i)) \<and>
    (\<Sum>i\<leftarrow>is. unat (f i)) \<le> length is * (2 ^ 64 - 1)"
  using assms
proof (induction "is")
  case (Cons i js)
  have "unat (f i) < 2 ^ 64" using unsigned_less [of "f i"] by simp
  then have f: "unat (f i) \<le> 2 ^ 64 - 1" by simp
  then have up: "unat (ucast (f i) :: u128) = unat (f i)"
    by (simp add: unsigned_ucast_eq take_bit_nat_eq_self_iff)
  from Cons have IH: "unat (\<Sum>i\<leftarrow>js. ucast (f i) :: u128) = (\<Sum>i\<leftarrow>js. unat (f i))"
    and le: "(\<Sum>i\<leftarrow>js. unat (f i)) \<le> length js * (2 ^ 64 - 1)" by simp_all
  have "unat (f i) + (\<Sum>i\<leftarrow>js. unat (f i)) \<le> length (i # js) * (2 ^ 64 - 1)"
    using f le by simp
  moreover have "length (i # js) * (2 ^ 64 - 1) \<le> (2 ^ 64 - 1) * (2 ^ 64 - 1 :: nat)"
    using Cons.prems by (intro mult_right_mono) simp_all
  ultimately have "unat (f i) + (\<Sum>i\<leftarrow>js. unat (f i)) < 2 ^ 128" by simp
  with IH up \<open>unat (f i) + _ \<le> length (i # js) * (2 ^ 64 - 1)\<close> show ?case
    by (simp add: unat_word_ariths)
qed simp

text \<open>
  What a replay covers.  A replay that succeeds has started at block 1 or later, the node has answered
  \<open>VALID\<close> for the payload of every block from the start up to, and not including, the end, and the
  reported gas is the sum of the gas of exactly these blocks, without overflow.  The end is the
  given block or else the latest one, so the block named by \<open>--to-block\<close> is not replayed.
\<close>

lemma replay_range:
  assumes "serves_chain eg blk" and "records_valid eg V"
    and "eg_get_block_number eg w = (w0, Ok latest)"
    and "last_block = (case end_block of Some n \<Rightarrow> n | None \<Rightarrow> latest)"
    and "replay_chain_segment enc sha elapsed eg ap start_block end_block w = Some (w', Ok res)"
  shows "1 \<le> start_block \<and> start_block < last_block \<and>
    unat (cr_gas_used res) =
      (\<Sum>i = unat start_block..<unat last_block. unat (eh_gas_used (eb_header (blk (word_of_nat i))))) \<and>
    (start_block \<le> i \<and> i < last_block \<longrightarrow> eh_hash (eb_header (blk i)) \<in> V w')"
proof -
  from assms(3-5) have range: "\<not> last_block \<le> start_block" "\<not> start_block < 1"
    by (auto simp: replay_chain_segment_def Let_def split: if_splits)
  with assms(3-5) obtain w1 blks g where
    get: "get_segment_blocks eg last_block [unat (start_block - 1)..<unat last_block] w0 = Some (w1, Ok blks)"
    and run: "replay_windows enc sha eg ap 0 blks w1 = Some (w', Ok g)" and res: "cr_gas_used res = g"
    by (auto simp: replay_chain_segment_def Let_def)
  from range have lt: "1 \<le> unat start_block" "unat start_block < unat last_block"
    by (simp_all add: word_le_nat_alt word_less_nat_alt)
  then have "unat (start_block - 1) = unat start_block - 1"
    using range(2) by (intro unat_minus_one) auto
  with lt have upt: "[unat (start_block - 1)..<unat last_block] = (unat start_block - 1) # [unat start_block..<unat last_block]"
    by (subst upt_conv_Cons) simp_all
  let ?is = "map word_of_nat [unat start_block..<unat last_block] :: u64 list"
  from get_blocks_chain [OF get assms(1,2)] have "blks = blk (word_of_nat (unat start_block - 1)) # map blk ?is"
    by (simp add: upt comp_def)
  with run have "replay_windows enc sha eg ap 0 (blk (word_of_nat (unat start_block - 1)) # map blk ?is) w1 = Some (w', Ok g)"
    by simp
  from replay_windows_chain [OF this assms(1,2)] have
    g: "g = (\<Sum>i\<leftarrow>?is. ucast (eh_gas_used (eb_header (blk i))))" and
    all: "\<forall>i \<in> set ?is. eh_hash (eb_header (blk i)) \<in> V w'" by simp_all
  have "unat last_block < 2 ^ 64" using unsigned_less [of last_block] by simp
  then have "length ?is < 2 ^ 64" by simp
  from unat_gas_sum [OF this, of "\<lambda>i. eh_gas_used (eb_header (blk i))"] g
  have gas: "unat g = (\<Sum>i = unat start_block..<unat last_block. unat (eh_gas_used (eb_header (blk (word_of_nat i)))))"
    by (simp add: comp_def interv_sum_list_conv_sum_set_nat)
  have "i \<in> set ?is" if "start_block \<le> i" "i < last_block" for i
    using that by (auto simp: word_le_nat_alt word_less_nat_alt intro!: image_eqI [of _ _ "unat i"])
  with all gas res range show ?thesis by (auto simp: word_le_nat_alt word_less_nat_alt)
qed

text \<open>A node that lists the payloads it was given.\<close>

definition demo_log_engine :: "b256 list engine" where
  "demo_log_engine =
     \<lparr>eg_new_payload_v1 = \<lambda>p hs. (p1_block_hash p # hs, Ok Valid),
      eg_new_payload_v2 = \<lambda>p hs. (p1_block_hash (pi_execution_payload p) # hs, Ok Valid),
      eg_new_payload_v3 = \<lambda>p vh root hs. (p3_block_hash p # hs, Ok Valid),
      eg_new_payload_v4 = \<lambda>p vh root reqs hs. (hs, Ok Valid),
      eg_forkchoice_updated_v1 = \<lambda>st a hs. (hs, Ok \<lparr>fu_payload_status = Valid, fu_payload_id = None\<rparr>),
      eg_forkchoice_updated_v2 = \<lambda>st a hs. (hs, Ok \<lparr>fu_payload_status = Valid, fu_payload_id = None\<rparr>),
      eg_forkchoice_updated_v3 = \<lambda>st a hs. (hs, Ok \<lparr>fu_payload_status = Valid, fu_payload_id = None\<rparr>),
      eg_get_payload_v1 = \<lambda>i hs. (hs, Panic), eg_get_payload_v2 = \<lambda>i hs. (hs, Panic),
      eg_get_payload_v3 = \<lambda>i hs. (hs, Panic), eg_get_payload_v4 = \<lambda>i hs. (hs, Panic),
      eg_get_block = \<lambda>i hs. (hs, Ok (case i of BlockNumber n \<Rightarrow> Some (demo_chain_block n) | _ \<Rightarrow> None)),
      eg_get_block_number = \<lambda>hs. (hs, Ok 5)\<rparr>"

lemma demo_log_laws: "serves_chain demo_log_engine demo_chain_block" "records_valid demo_log_engine set"
  by (auto simp: serves_chain_def records_valid_def grows_def demo_log_engine_def demo_chain_block_def demo_header_def)

lemma demo_log_window:
  "replay_windows enc sha demo_log_engine (demo_provider Ethereum) gas (b0 # demo_chain_block i # bs) hs
    = replay_windows enc sha demo_log_engine (demo_provider Ethereum) (gas + 100) (demo_chain_block i # bs) (ucast i # hs)"
proof -
  let ?ap = "demo_provider Ethereum"
  have fcu: "call_fcu_default enc demo_log_engine ?ap cur new None hs
      = Some (hs, Ok \<lparr>fu_payload_status = Valid, fu_payload_id = None\<rparr>)" for cur new
    by (rule fcu_default_valid [where params = None])
       (simp_all add: demo_provider_def default_op_params_def demo_log_engine_def)
  have payload: "block_to_payload demo_log_engine ?ap i hs = Some (hs, Ok (payload_of_block ?ap (demo_chain_block i)))"
    by (simp add: block_to_payload_def demo_log_engine_def)
  have np: "call_new_payload demo_log_engine ?ap (payload_of_block ?ap (demo_chain_block i)) root vh reqs hs
      = Some (ucast i # hs, Ok MsgV2)" for root vh reqs
    by (auto simp: payload_of_block_def demo_chain_block_def demo_header_def Let_def new_payload_v2_wait_def
        demo_log_engine_def intro!: poll_once)
  have "eh_number (eb_header (demo_chain_block i)) = i" "eh_gas_used (eb_header (demo_chain_block i)) = 100"
    by (simp_all add: demo_chain_block_def demo_header_def)
  with fcu payload np show ?thesis by (simp add: Let_def wbind_def)
qed

lemma demo_log_replay:
  "replay_chain_segment enc sha elapsed demo_log_engine (demo_provider Ethereum) 2 (Some 4) []
     = Some ([3, 2], Ok \<lparr>cr_gas_used = 200, cr_time_elapsed = elapsed\<rparr>)"
proof -
  have upt: "[unat (2 - 1 :: u64)..<unat (4 :: u64)] = [1, 2, 3]" by (simp add: upt_rec)
  have get: "get_segment_blocks demo_log_engine 4 [1, 2, 3] [] = Some ([], Ok [demo_chain_block 1, demo_chain_block 2, demo_chain_block 3])"
    by (simp add: demo_log_engine_def)
  have "replay_windows enc sha demo_log_engine (demo_provider Ethereum) 0
      [demo_chain_block 1, demo_chain_block 2, demo_chain_block 3] [] = Some ([3, 2], Ok 200)"
    unfolding demo_log_window by (simp add: wlift_def)
  with get upt show ?thesis by (simp add: replay_chain_segment_def demo_log_engine_def)
qed

end
