(* ===== verification/Replay.thy ===== *)
theory Replay
  imports Engine_Chain Cli_Spam Sqlite_Db
begin

text \<open>
  The command \<open>contender replay\<close> (\<open>crates/cli/src/commands/replay.rs\<close>): it replays a segment of the chain
  through the engine provider and stores a report with the gas used and the average speed.
\<close>

record replay_args =
  ra_engine_provider :: "auth_provider option"
  ra_start_block :: u64
  ra_end_block :: "u64 option"

definition replay_args_new :: "auth_provider option \<Rightarrow> u64 \<Rightarrow> u64 option \<Rightarrow> replay_args" where
  "replay_args_new provider start_block end_block =
     \<lparr>ra_engine_provider = provider, ra_start_block = start_block, ra_end_block = end_block\<rparr>"

definition cli_auth :: "auth_provider_error \<Rightarrow> cli_error" where
  "cli_auth e = CliAuthProvider (auth_error_text e)"

definition replay_report_of :: "nat \<Rightarrow> chain_replay_results \<Rightarrow> replay_report_request" where
  "replay_report_of rpc_url_id res =
     \<lparr>rr_rpc_url_id = word_of_nat rpc_url_id, rr_gas_per_second = ucast (gas_per_second res),
      rr_gas_used = ucast (cr_gas_used res)\<rparr>"

definition store_replay ::
  "sql_env \<Rightarrow> hex_codec \<Rightarrow> (sqlite_db \<Rightarrow> string \<Rightarrow> (nat, sqlite_error) rresult) \<Rightarrow> auth_provider
    \<Rightarrow> chain_replay_results \<Rightarrow> (sqlite_db, unit, cli_error) action" where
  "store_replay e c raw_select ap res d =
     (case get_rpc_url_id e c raw_select d (ap_rpc_url ap) (genesis_hash ap) of
        (d1, Ok rpc_url_id) \<Rightarrow>
          (case insert_replay_report e d1 (replay_report_of rpc_url_id res) of
             Ok (d2, _) \<Rightarrow> (d2, Ok ())
           | Err x \<Rightarrow> (d1, Err (CliDb x))
           | Panic \<Rightarrow> (d1, Panic))
      | (d1, Err x) \<Rightarrow> (d1, Err (CliDb x))
      | (d1, Panic) \<Rightarrow> (d1, Panic))"

text \<open>The result is \<open>None\<close> if the replay never returns.\<close>

definition replay ::
  "(tx_deposit \<Rightarrow> u8 list) \<Rightarrow> (u8 list \<Rightarrow> u8 list) \<Rightarrow> nat \<Rightarrow> 'w engine \<Rightarrow> sql_env \<Rightarrow> hex_codec
    \<Rightarrow> (sqlite_db \<Rightarrow> string \<Rightarrow> (nat, sqlite_error) rresult) \<Rightarrow> replay_args
    \<Rightarrow> ('w \<times> sqlite_db, unit, cli_error) waiting" where
  "replay enc sha256 elapsed eg e c raw_select args = (\<lambda>(w, d).
     case ra_engine_provider args of
       None \<Rightarrow> Some ((w, d), Err (CliArgs (EngineProviderUninitialized ''required for replay'')))
     | Some ap \<Rightarrow>
         (case replay_chain_segment enc sha256 elapsed eg ap (ra_start_block args) (ra_end_block args) w of
            None \<Rightarrow> None
          | Some (w', Ok res) \<Rightarrow> (case store_replay e c raw_select ap res d of (d', r) \<Rightarrow> Some ((w', d'), r))
          | Some (w', Err x) \<Rightarrow> Some ((w', d), Err (cli_auth x))
          | Some (w', Panic) \<Rightarrow> Some ((w', d), Panic)))"

section \<open>Properties\<close>

lemma store_replay_row:
  assumes "store_replay e c raw_select ap res d = (d', Ok ())" and "db_inv d"
  shows "\<exists>url_id. tbl_replay_reports d' = tbl_replay_reports d @
      [\<lparr>rp_id = Suc (length (tbl_replay_reports d)), rp_rpc_url_id = url_id,
        rp_gas_per_second = unat (ucast (gas_per_second res) :: u64),
        rp_gas_used = unat (ucast (cr_gas_used res) :: u64)\<rparr>] \<and>
    ids_from_1 (map rp_id (tbl_replay_reports d)) \<and> pool_available e \<and> ''replay_reports'' \<in> set (tables d')"
proof -
  have same: "tbl_replay_reports (insert_or_ignore_rpc_url d u g) = tbl_replay_reports d" for u g
    by (simp add: insert_or_ignore_rpc_url_def)
  have ids: "ids_from_1 (map rp_id (tbl_replay_reports d))" using assms(2) by (simp add: db_inv_def)
  from assms(1) obtain d1 url_id rep where
    url: "get_rpc_url_id e c raw_select d (ap_rpc_url ap) (genesis_hash ap) = (d1, Ok url_id)"
    and ins: "insert_replay_report e d1 (replay_report_of url_id res) = Ok (d', rep)"
    by (auto simp: store_replay_def split: prod.splits rresult.splits)
  from url have "tbl_replay_reports d1 = tbl_replay_reports d"
    by (auto simp: get_rpc_url_id_def Let_def same split: rresult.splits)
  with ins ids next_rowid_from_1 [OF ids] show ?thesis
    by (auto simp: insert_replay_report_def num_replay_reports_def replay_report_of_def)
qed

lemma stored_report_read:
  assumes "tbl_replay_reports d' = old @ [\<lparr>rp_id = Suc (length old), rp_rpc_url_id = url_id,
      rp_gas_per_second = gps, rp_gas_used = gas\<rparr>]"
    and "ids_from_1 (map rp_id old)" and "pool_available e" and "''replay_reports'' \<in> set (tables d')"
    and "Suc (length old) < 2 ^ 63"
  shows "get_replay_report e d' (word_of_nat (Suc (length old))) =
    Ok (replay_report_new (word_of_nat (Suc (length old)))
      \<lparr>rr_rpc_url_id = word_of_nat url_id, rr_gas_per_second = word_of_nat gps, rr_gas_used = word_of_nat gas\<rparr>)"
proof -
  have "Suc (length old) < 2 ^ 64" using assms(5) by simp
  then have u: "unat (word_of_nat (Suc (length old)) :: u64) = Suc (length old)"
    by (simp add: unat_of_nat del: of_nat_Suc)
  have "set (map rp_id old) = {1..<Suc (length old)}"
    using assms(2) unfolding ids_from_1_def by (metis length_map set_upt)
  then have "rp_id r \<noteq> Suc (length old)" if "r \<in> set old" for r
    using that by (metis atLeastLessThan_iff image_eqI less_irrefl list.set_map)
  then have "filter (\<lambda>r. rp_id r = Suc (length old)) (tbl_replay_reports d')
      = [\<lparr>rp_id = Suc (length old), rp_rpc_url_id = url_id, rp_gas_per_second = gps, rp_gas_used = gas\<rparr>]"
    by (simp add: assms(1) filter_False)
  then show ?thesis
    using assms(3,4,5) u by (simp add: get_replay_report_def sql_param_def del: of_nat_Suc)
qed

text \<open>
  C25. The report of a replay.  When \<open>contender replay\<close> succeeds, the node has answered \<open>VALID\<close> for the payload of
  every block from the start block up to, and not including, the end block, and the report that is
  read back under the new id gives the sum of the gas of exactly these blocks and that sum per
  elapsed second, both reduced to 64 bits; the reports stored before are kept.  The end block is the
  given one or else the latest, so the block named by \<open>--to-block\<close> is neither replayed nor counted.
\<close>

theorem replay_report_covers_range:
  assumes "serves_chain eg blk" and "records_valid eg V"
    and "eg_get_block_number eg w = (w0, Ok latest)"
    and "last_block = (case ra_end_block args of Some n \<Rightarrow> n | None \<Rightarrow> latest)"
    and "db_inv d" and "Suc (length (tbl_replay_reports d)) < 2 ^ 63"
    and "replay enc sha elapsed eg e c raw_select args (w, d) = Some ((w', d'), Ok ())"
    and "gas = (\<Sum>i = unat (ra_start_block args)..<unat last_block. unat (eh_gas_used (eb_header (blk (word_of_nat i)))))"
  shows "\<exists>rep. get_replay_report e d' (word_of_nat (Suc (length (tbl_replay_reports d)))) = Ok rep \<and>
    unat (report_gas_used rep) = gas mod 2 ^ 64 \<and>
    report_gas_per_second rep = ucast (word_of_nat gas div word_of_nat (max (elapsed div 1000) 1) :: u128) \<and>
    prefix (tbl_replay_reports d) (tbl_replay_reports d') \<and>
    1 \<le> ra_start_block args \<and> ra_start_block args < last_block \<and>
    (ra_start_block args \<le> i \<and> i < last_block \<longrightarrow> eh_hash (eb_header (blk i)) \<in> V w')"
proof -
  from assms(7) obtain ap res where
    run: "replay_chain_segment enc sha elapsed eg ap (ra_start_block args) (ra_end_block args) w = Some (w', Ok res)"
    and store: "store_replay e c raw_select ap res d = (d', Ok ())"
    by (auto simp: replay_def split: option.splits prod.splits rresult.splits)
  from replay_range [OF assms(1-4) run] have
    g: "unat (cr_gas_used res) = gas" and
    range: "1 \<le> ra_start_block args \<and> ra_start_block args < last_block \<and>
      (ra_start_block args \<le> i \<and> i < last_block \<longrightarrow> eh_hash (eb_header (blk i)) \<in> V w')"
    unfolding assms(8) by blast+
  from run have "cr_time_elapsed res = elapsed"
    by (auto simp: replay_chain_segment_def Let_def split: if_splits)
  moreover have "cr_gas_used res = word_of_nat gas" using g by auto
  ultimately have gps: "gas_per_second res = word_of_nat gas div word_of_nat (max (elapsed div 1000) 1)"
    by (simp add: gas_per_second_def)
  from store_replay_row [OF store assms(5)] obtain url_id where
    row: "tbl_replay_reports d' = tbl_replay_reports d @
      [\<lparr>rp_id = Suc (length (tbl_replay_reports d)), rp_rpc_url_id = url_id,
        rp_gas_per_second = unat (ucast (gas_per_second res) :: u64),
        rp_gas_used = unat (ucast (cr_gas_used res) :: u64)\<rparr>]"
    and rest: "ids_from_1 (map rp_id (tbl_replay_reports d))" "pool_available e" "''replay_reports'' \<in> set (tables d')"
    by blast
  have id64: "word_of_nat (unat z) = z" for z :: u64 by simp
  have "unat (ucast (cr_gas_used res) :: u64) = gas mod 2 ^ 64"
    using g by (simp add: unsigned_ucast_eq take_bit_eq_mod)
  moreover have "prefix (tbl_replay_reports d) (tbl_replay_reports d')" by (simp add: row)
  ultimately show ?thesis
    using stored_report_read [OF row rest assms(6), unfolded id64] range
    by (intro exI conjI) (assumption | simp add: report_gas_used_def report_gas_per_second_def replay_report_new_def gps)+
qed

definition demo_replay_args :: replay_args where
  "demo_replay_args = replay_args_new (Some (demo_provider Ethereum)) 2 (Some 4)"

lemma demo_store_replay:
  "\<exists>d'. store_replay demo_env std_codec (\<lambda>d s. Panic) (demo_provider Ethereum)
      \<lparr>cr_gas_used = 200, cr_time_elapsed = 4000\<rparr> demo_db = (d', Ok ())"
proof -
  have "find_rpc_url demo_db u g = None" for u g by (simp add: find_rpc_url_def demo_tables)
  moreover have "tbl_replay_reports (insert_or_ignore_rpc_url demo_db u g) = []" for u g
    by (simp add: insert_or_ignore_rpc_url_def demo_tables)
  ultimately show ?thesis
    using demo_url(2)
    by (simp add: store_replay_def get_rpc_url_id_def demo_tables demo_provider_def genesis_hash_def demo_header_def
        Let_def find_rpc_url_insert hex_laws.show_lower [OF std_codec_laws] insert_replay_report_def num_replay_reports_def
        replay_report_of_def gas_per_second_def sql_param_def next_rowid_def)
qed

theorem replay_report_covers_range_witness:
  "\<exists>d' rep. replay (\<lambda>d. []) (\<lambda>b. b) 4000 demo_log_engine demo_env std_codec (\<lambda>d s. Panic) demo_replay_args ([], demo_db)
      = Some (([3, 2], d'), Ok ()) \<and>
     get_replay_report demo_env d' 1 = Ok rep \<and> unat (report_gas_used rep) = 200 \<and>
     report_gas_per_second rep = 50 \<and> eh_hash (eb_header (demo_chain_block 3)) \<in> set [3, 2]"
proof -
  obtain d' where store: "store_replay demo_env std_codec (\<lambda>d s. Panic) (demo_provider Ethereum)
      \<lparr>cr_gas_used = 200, cr_time_elapsed = 4000\<rparr> demo_db = (d', Ok ())" using demo_store_replay by blast
  have run: "replay (\<lambda>d. []) (\<lambda>b. b) 4000 demo_log_engine demo_env std_codec (\<lambda>d s. Panic) demo_replay_args ([], demo_db)
      = Some (([3, 2], d'), Ok ())"
    by (simp add: replay_def demo_replay_args_def replay_args_new_def demo_log_replay store)
  have num: "eg_get_block_number demo_log_engine [] = ([], Ok 5)" by (simp add: demo_log_engine_def)
  have ends: "4 = (case ra_end_block demo_replay_args of Some n \<Rightarrow> n | None \<Rightarrow> 5)"
    and starts: "ra_start_block demo_replay_args = 2" by (simp_all add: demo_replay_args_def replay_args_new_def)
  have gas: "200 = (\<Sum>i = unat (ra_start_block demo_replay_args)..<unat (4 :: u64).
      unat (eh_gas_used (eb_header (demo_chain_block (word_of_nat i)))))"
    by (simp add: starts demo_chain_block_def demo_header_def)
  from replay_report_covers_range [OF demo_log_laws num ends demo_db_inv _ run gas, of 3] obtain rep where
    "get_replay_report demo_env d' 1 = Ok rep" "unat (report_gas_used rep) = 200" "report_gas_per_second rep = 50"
    "eh_hash (eb_header (demo_chain_block 3)) \<in> set [3, 2]"
    by (auto simp: demo_tables starts)
  with run show ?thesis by blast
qed

end
