(* ===== verification/Spec2Isabelle.thy ===== *)
theory Spec2Isabelle
  imports Seeder Sqlite_Db Spammer Campaign_Run Orchestrator Report_Campaign Cli_Fund
    Rpc_Command Server_Rpc Admin Replay
begin

text \<open>
  A verification of contender, a load generator for Ethereum nodes.  All paths below are relative to
  \<open>src/\<close>.

  \<^bold>\<open>The program.\<close>  Contender reads a scenario file, deploys the contracts the scenario names, sends its
  setup transactions, and then sends batches of spam transactions at a fixed rate, per second or per
  block.  A \<^emph>\<open>generator\<close> turns the steps of the scenario into transaction requests: it resolves
  placeholders against the database and fuzzes arguments with values derived from a seed.  A
  \<^emph>\<open>test scenario\<close> signs the requests with the keys of its \<^emph>\<open>agents\<close>, tracks nonces and gas prices,
  and sends them.  A \<^emph>\<open>spammer\<close> drives it with a stream of triggers and hands every sent transaction to
  a \<^emph>\<open>callback\<close>, which posts it to the \<^emph>\<open>transaction actor\<close>.  The actor keeps the pending
  transactions; its flush task polls the chain for blocks and writes a row per confirmed transaction
  to the \<^emph>\<open>SQLite database\<close>.  \<^emph>\<open>Reports\<close> read the rows back.  The \<^emph>\<open>orchestrator\<close> packs the
  lifecycle (build, initialize, spam) in an API; \<^emph>\<open>campaigns\<close> run several scenarios in stages; the
  command line and a JSON-RPC \<^emph>\<open>server\<close> with sessions are the two front ends.  An \<^emph>\<open>engine provider\<close>
  drives a node through the engine API, to advance its chain or to replay a part of it.

  \<^bold>\<open>Conventions.\<close>  A struct is a record whose field names carry a short prefix, an enum a datatype, a
  machine integer a word of its width with the wrap-around of a release build.  \<open>Result\<close> is the type
  \<open>rresult\<close> of \<open>Rust_Prelude\<close> with the outcomes \<open>Ok\<close>, \<open>Err\<close> and \<open>Panic\<close>, so every \<open>?\<close>, early
  return, \<open>unwrap\<close> and index out of range is a branch.  \<open>HashMap\<close> is an association list with the
  operations \<open>hm_*\<close>, \<open>BTreeMap\<close> a sorted one with \<open>bt_*\<close>; a method on \<open>&mut self\<close> is a function on
  the state (\<open>Rust_State\<close>); \<open>f64\<close> is binary64 with round-to-nearest (\<open>Float64\<close>).  Tasks that run
  concurrently are inductive step relations, and the properties about them hold for every reachable
  state.  Code that is not in the repository (the node, signing and hashing, ABI and TOML codecs, the
  clock, the Prometheus registry, SQLite's execution of a statement) is a parameter: a function
  argument or a record of functions, with what the code relies on as a named hypothesis.

  \<^bold>\<open>Theories and sources.\<close>
  \<^item> \<open>Rust_Prelude\<close>, \<open>Rust_State\<close>, \<open>Rust_Strings\<close>, \<open>Float64\<close>: what the source uses of Rust and its
    standard library.
  \<^item> \<open>Seeder\<close>: \<open>crates/core/src/generator/seeder\<close>.  \<open>Db_Types\<close>: \<open>crates/core/src/db\<close> and
    \<open>buckets.rs\<close>.  \<open>Core_Util\<close>: \<open>crates/core/src/util.rs\<close>.
  \<^item> \<open>Tx_Actor\<close>, \<open>Flush_Loop\<close>, \<open>Tx_Callback\<close>: \<open>crates/core/src/spammer/{tx_actor,tx_callback}.rs\<close>.
    The actor's state is the record \<open>actor\<close>, its handler one function per message, the actor with
    its flush task and the database the relation \<open>sys_step\<close>.  The database is an interface (a
    locale) there; the interpretations are on the SQLite model.
  \<^item> \<open>Sqlite_Db\<close>: \<open>crates/sqlite_db/src/db.rs\<close>, all operations of \<open>DbOps\<close> over tables as lists of rows.
  \<^item> \<open>Scenario_Defs\<close>, \<open>Tx_Request\<close>, \<open>Templater\<close>, \<open>Test_Config\<close>, \<open>Fuzzing\<close>, \<open>Generator\<close>:
    \<open>crates/core/src/generator\<close> and \<open>crates/testfile/src/test_config.rs\<close>.
  \<^item> \<open>Agents\<close>: \<open>crates/core/src/agent_controller.rs\<close> and the agent pools of a scenario.
  \<^item> \<open>Scenario_Prepare\<close>, \<open>Scenario_Setup\<close>, \<open>Spam_Batch\<close>, \<open>Spammer\<close>:
    \<open>crates/core/src/test_scenario.rs\<close> and \<open>crates/core/src/spammer\<close>.
  \<^item> \<open>Orchestrator\<close>: \<open>crates/core/src/orchestrator.rs\<close>.
  \<^item> \<open>Campaign\<close>, \<open>Campaign_Run\<close>: \<open>crates/testfile/src/campaign.rs\<close> and
    \<open>crates/cli/src/commands/campaign.rs\<close>.
  \<^item> \<open>Cli_Util\<close>, \<open>Cli_Spam\<close>, \<open>Cli_Fund\<close>: \<open>crates/cli/src/util\<close>, the \<open>setup\<close> and \<open>spam\<close> commands,
    and the funding of accounts.
  \<^item> \<open>Rpc_Method\<close>, \<open>Rpc_Command\<close>: \<open>crates/cli/src/commands/rpc.rs\<close> and the logging layer of
    \<open>crates/core/src/provider.rs\<close>.
  \<^item> \<open>Admin\<close>: \<open>crates/cli/src/commands/admin.rs\<close>.
  \<^item> \<open>Engine_Provider\<close>, \<open>Engine_Chain\<close>: \<open>crates/engine_provider/src\<close>, the definitions and their
    properties.  \<open>Replay\<close>: \<open>crates/cli/src/commands/replay.rs\<close>.
  \<^item> \<open>Server_Session\<close>, \<open>Server_Rpc\<close>: \<open>crates/cli/src/server\<close>.  The session cache is shared by the
    handlers and their background tasks; \<open>server_step\<close> has one rule per critical section.
  \<^item> \<open>Report_Blocks\<close>, \<open>Report_Charts\<close>, \<open>Report_Heatmap\<close>, \<open>Report_Command\<close>, \<open>Report_Campaign\<close>:
    \<open>crates/report/src\<close>.

  \<^bold>\<open>What is shown.\<close>
  \<^item> \<^emph>\<open>Recording.\<close>  The actor's state invariant; a pending transaction leaves the cache only with a row
    in the database or on request; a dumped cache and a matched block give exactly the rows they
    should; flashblock marks commute with the announcement of their transaction; the flush task
    ends after cancellation; rows and named transactions are read back as they were written.
  \<^item> \<^emph>\<open>Generation.\<close>  Replacing placeholders is simultaneous substitution; the fuzz map serves every
    directive within its range; plans have the requested size and order, consecutive nonces and
    senders from the right pool.
  \<^item> \<^emph>\<open>Sending.\<close>  Nonces of prepared batches are consecutive, the spam loop refines an abstract nonce
    ledger, corrections commute, the messages of a batch fit its bounded success, gas and nonce
    channels in any order, the gas price adder is bounded.  Deployed contracts resolve.
  \<^item> \<^emph>\<open>Lifecycle.\<close>  What a successful initialization has checked and left in the database; a spam run leaves the contender
    ready for the next one unless one of its actors is lost, and then every later run fails; a session of the server that reports spamming has one run and \<open>stop\<close> reaches it, as
    long as spam calls do not overlap, and what goes wrong when they do.
  \<^item> \<^emph>\<open>Front ends.\<close>  A scenario is started only with consistent arguments; funding reaches every recipient
    in any order of its concurrent tasks, and when it does not return because its channel is full; campaign rates add up and setup prepares
    the accounts that spam uses; an rpc run accounts for every request;
    reclaiming visits the accounts that spam derived from the same seed file, and what it reports is what the node accepted.
  \<^item> \<^emph>\<open>Engine.\<close>  Which answers keep a waiting call from returning; advancing the chain of a node that
    keeps to the engine API gives a child of its head with message version 3 and no blobs, and fails otherwise; a replay validates and counts the blocks of its range, without
    the end, and its report is read back.
  \<^item> \<^emph>\<open>Reports.\<close>  Totals agree at every level, the inclusion chart is the histogram of its data, the
    heatmap keeps the hottest slots.

  The theorems of kind \<^emph>\<open>error\<close> state behaviour of the code that its comments or names do not suggest
  (a skipped setup step leaves a nonce gap, a lost actor fails all later runs, an overlapping spam call detaches \<open>stop\<close>); each holds for
  the code as it is.

  \<^bold>\<open>Bounds and fuel.\<close>  Words wrap at the width of the source; where a property needs a sum to fit, the bound is
  a hypothesis.  Loops over data recurse on the data.  A loop that waits for the outside world takes
  the sequence of what it observes as its input (the triggers of a spammer, the rounds of the flush
  task), or is a step relation, or, for the calls of the engine API that ask until they are
  answered, a partial function whose value \<open>None\<close> means that it does not return.  No property rests
  on a fuel that runs out: the termination properties say exactly when such a call returns.  Substitution in a template recurses on the
  length of the remaining text.

  \<^bold>\<open>Not modelled.\<close>  The flashblocks websocket client, the bundle provider, the JWT transport of the engine
  provider and the log router of the server move bytes between sockets and keep no state the rest depends on; their effects (marks, replies)
  are inputs of the model.  How an actor is lost in a run (a handler that fails, a stop request) is not derived from the
  messages of that run: \<open>sys_step\<close> follows an actor while its loop runs, and \<open>spam\<close> takes the fate of its actors, and whether
  their flush loops end, as an argument over which its properties quantify.  TOML and JSON codecs and their serde attributes, clap's parsing of the
  command line, HTML and CSV output, terminal prompts and the build scripts are third-party
  formats or I/O.  \<open>crates/testfile/src/lib.rs\<close> and the other \<open>tests\<close> modules hold tests.
\<close>

section \<open>The transaction cache over the SQLite store\<close>

text \<open>
  C1. No pending transaction is lost.  Take any state the actor, the flush task
  and the database reach together, under any interleaving of API messages,
  flashblock marks, flush ticks, block processing, removals and restarts of the
  flush loop.  If the next step takes a transaction out of the pending cache,
  then either the database has a row for it afterwards, or the step was an
  explicit \<open>RemovedRunTx\<close> for that hash or a \<open>ClearCache\<close>.  The codec of the
  store has to decode what it encodes, and the database has to be clean (no
  quoted text was formatted into a statement, all numbers fit 63 bits).
\<close>

theorem pending_tx_never_lost:
  assumes "hex_laws c"
    and "sys_reachable (sqlite_insert_run_txs e c exec_raw) d0 s"
    and "sys_step (sqlite_insert_run_txs e c exec_raw) s l t"
    and "hm_get (cache (sys_actor s)) h \<noteq> None" and "hm_get (cache (sys_actor t)) h = None"
    and "db_clean c (db (sys_actor t))"
  shows "recorded (run_rows c) (db (sys_actor t)) h \<or>
    (\<exists>alive. l = LActor (EvMessage (RemovedRunTx h alive))) \<or>
    (\<exists>alive. l = LActor (EvMessage (ClearCache alive)))"
proof -
  have "sqlite_store c" using assms(1) by (rule sqlite_store.intro)
  from sqlite_store.store_cached_until_recorded [OF this assms(2-6)] show ?thesis .
qed

definition demo_sys :: "sqlite_db sys" where
  "demo_sys = (sys_new demo_db)\<lparr>sys_actor :=
     sent_run_tx (tx_actor_new demo_db) 7 1000 None (Some ''transfer'') None\<rparr>"

definition demo_sys_dumped :: "sqlite_db sys" where
  "demo_sys_dumped = demo_sys\<lparr>sys_actor := (sys_actor demo_sys)\<lparr>db := demo_db_1, cache := []\<rparr>\<rparr>"

lemma demo_sys_reachable:
  "sys_reachable (sqlite_insert_run_txs demo_env std_codec demo_raw) demo_db demo_sys"
proof -
  have "actor_step ins (sys_actor (sys_new demo_db))
      (EvMessage (SentRunTx 7 1000 None (Some ''transfer'') None True))
      (sent_run_tx (tx_actor_new demo_db) 7 1000 None (Some ''transfer'') None) (Ok ReplyUnit)" for ins
    by (rule step_message) (simp_all add: sys_new_def tx_actor_new_def oneshot_send_def)
  from sys_actor_step [OF this] show ?thesis
    unfolding demo_sys_def by (intro reach_step [OF reach_init]) simp
qed

lemma demo_sys_dump:
  "sys_step (sqlite_insert_run_txs demo_env std_codec demo_raw) demo_sys
     (LActor (EvMessage (DumpCache 1 True))) demo_sys_dumped"
proof -
  let ?ins = "sqlite_insert_run_txs demo_env std_codec demo_raw"
  have "hm_values (cache (sys_actor demo_sys)) = [pending_run_tx_new 7 1000 (Some ''transfer'') None]"
    and "db (sys_actor demo_sys) = demo_db" and "status (sys_actor demo_sys) = Running"
    and "receiver_open (sys_actor demo_sys)"
    by (simp_all add: demo_sys_def sys_new_def tx_actor_new_def sent_run_tx_def hm_insert_def
        hm_values_def pending_run_tx_new_def)
  moreover have "run_tx_of_pending (pending_run_tx_new 7 1000 (Some ''transfer'') None)
      = (Ok demo_run_tx :: (run_tx, callback_error) rresult)"
    by (subst run_tx_of_pending_fits)
       (simp_all add: timestamps_fit_def pending_run_tx_new_def dump_row_def demo_run_tx_def)
  moreover have "?ins demo_db 1 [demo_run_tx] = Ok demo_db_1"
    by (simp add: sqlite_insert_run_txs_def demo_insert_ok)
  ultimately have "actor_step ?ins (sys_actor demo_sys) (EvMessage (DumpCache 1 True))
      ((sys_actor demo_sys)\<lparr>db := demo_db_1, cache := []\<rparr>) (Ok (ReplyTxs [demo_run_tx]))"
    by (intro step_message) (simp_all add: dump_cache_def)
  then show ?thesis unfolding demo_sys_dumped_def by (rule sys_actor_step) simp
qed

theorem pending_tx_never_lost_witness:
  "hm_get (cache (sys_actor demo_sys)) 7 \<noteq> None \<and>
   hm_get (cache (sys_actor demo_sys_dumped)) 7 = None \<and>
   recorded (run_rows std_codec) (db (sys_actor demo_sys_dumped)) 7"
proof -
  have "hm_get (cache (sys_actor demo_sys)) 7 \<noteq> None"
    by (simp add: demo_sys_def sent_run_tx_def tx_actor_new_def)
  moreover have "hm_get (cache (sys_actor demo_sys_dumped)) 7 = None"
    and "db_clean std_codec (db (sys_actor demo_sys_dumped))"
    by (simp_all add: demo_sys_dumped_def demo_clean)
  ultimately show ?thesis
    using pending_tx_never_lost [OF std_codec_laws demo_sys_reachable demo_sys_dump, of 7] by simp
qed

end
